(* ===== verification/Prelude.thy ===== *)
theory Prelude
  imports Main "HOL-Library.Word" "HOL-Library.Char_ord" "HOL-Library.List_Lexorder"
    "HOL-Library.Product_Lexorder" "HOL-Library.Multiset"
begin

unbundle bit_operations_syntax

text \<open>
  Shared vocabulary of the development: the widths of the machine integers the Rust sources
  use, the pieces of the Rust standard library several components share (saturating addition,
  \<^verbatim>\<open>str::trim\<close>, \<^verbatim>\<open>eq_ignore_ascii_case\<close>, \<^verbatim>\<open>Iterator::position\<close>), and the generic lemmas on
  lists and words the component proofs apply.

  A Rust \<^verbatim>\<open>String\<close> is its UTF-8 byte sequence, an Isabelle \<^typ>\<open>string\<close>: equality, the
  derived ordering and the byte length of the Rust type are then those of the list.
\<close>

named_theorems model_splits \<open>case splits of the model's result types\<close>
named_theorems step_frames \<open>what a step of a component leaves unchanged\<close>

type_synonym u8 = "8 word"
type_synonym u16 = "16 word"
type_synonym u32 = "32 word"
type_synonym u64 = "64 word"
type_synonym u128 = "128 word"

section \<open>Machine integers\<close>

definition saturating_add :: "'a::len word \<Rightarrow> 'a word \<Rightarrow> 'a word" where
  "saturating_add x y = (if unat x + unat y < 2 ^ LENGTH('a) then x + y else - 1)"

lemma unat_saturating_add:
  "unat (saturating_add x y) = min (unat x + unat y) (2 ^ LENGTH('a) - 1)"
  for x y :: "'a::len word"
proof (cases "unat x + unat y < 2 ^ LENGTH('a)")
  case True
  then have "unat x + unat y \<le> 2 ^ LENGTH('a) - 1" by arith
  with True show ?thesis by (simp add: saturating_add_def unat_word_ariths)
next
  case False
  have "(0::nat) < 2 ^ LENGTH('a)" by simp
  with False have "2 ^ LENGTH('a) - 1 < unat x + unat y" by arith
  with False show ?thesis
    by (simp add: saturating_add_def min_def unsigned_minus_1_eq_mask mask_eq_exp_minus_1)
qed

lemma saturating_add_ge: "x \<le> saturating_add x y"
  for x y :: "'a::len word"
proof -
  have "unat x \<le> 2 ^ LENGTH('a) - 1"
    using unsigned_less [of x, where ?'a = nat] by arith
  then show ?thesis
    by (simp add: word_le_nat_alt unat_saturating_add)
qed

section \<open>Lists\<close>

text \<open>The index of the first element that satisfies a predicate (\<^verbatim>\<open>Iterator::position\<close>).\<close>

fun position :: "('a \<Rightarrow> bool) \<Rightarrow> 'a list \<Rightarrow> nat option" where
  "position p [] = None"
| "position p (x # xs) = (if p x then Some 0 else map_option Suc (position p xs))"

lemma position_None [simp]: "position p xs = None \<longleftrightarrow> (\<forall>x\<in>set xs. \<not> p x)"
  by (induction xs) auto

lemma position_Some:
  "position p xs = Some i \<Longrightarrow> i < length xs \<and> p (xs ! i) \<and> (\<forall>j<i. \<not> p (xs ! j))"
proof (induction xs arbitrary: i)
  case (Cons x xs)
  then show ?case
    by (auto split: if_splits simp: nth_Cons less_Suc_eq_0_disj split: nat.splits)
qed simp

text \<open>The first result of a partial function on a list (\<^verbatim>\<open>Iterator::find_map\<close>).\<close>

fun find_map :: "('a \<Rightarrow> 'b option) \<Rightarrow> 'a list \<Rightarrow> 'b option" where
  "find_map f [] = None"
| "find_map f (x # xs) = (case f x of Some y \<Rightarrow> Some y | None \<Rightarrow> find_map f xs)"

lemma find_map_None [simp]: "find_map f xs = None \<longleftrightarrow> (\<forall>x\<in>set xs. f x = None)"
  by (induction xs) (auto split: option.splits)

lemma find_map_Some:
  "find_map f xs = Some y \<longleftrightarrow>
     (\<exists>ys x zs. xs = ys @ x # zs \<and> f x = Some y \<and> (\<forall>z\<in>set ys. f z = None))"
proof (induction xs)
  case (Cons x xs)
  show ?case
  proof (cases "f x")
    case None
    with Cons show ?thesis
      by (auto simp: Cons_eq_append_conv) (metis append_Cons set_ConsD)+
  next
    case (Some z)
    then show ?thesis by (auto simp: Cons_eq_append_conv intro: exI [of _ "[]"])
  qed
qed simp

lemma find_map_cong:
  "(\<And>x. x \<in> set xs \<Longrightarrow> f x = g x) \<Longrightarrow> find_map f xs = find_map g xs"
  by (induction xs) (auto split: option.split)

text \<open>A value that only moves up in a finite order must stop moving.\<close>

lemma wf_upwards_finite:
  fixes f :: "'a \<Rightarrow> 'b::order"
  assumes "finite F" and "\<And>x. f x \<in> F"
  shows "wf {(n, c). f c < f n}"
proof -
  define r where "r = {(y, x). x \<in> F \<and> y \<in> F \<and> x < y}"
  have "r \<subseteq> F \<times> F" by (auto simp: r_def)
  then have "finite r" using assms(1) by (simp add: finite_subset)
  moreover have down: "(x, y) \<in> r\<^sup>+ \<Longrightarrow> y < x" for x y
  proof (induction rule: trancl_induct)
    case (step y z)
    then have "z < y" by (simp add: r_def)
    from this step.IH show ?case by (rule less_trans)
  qed (simp add: r_def)
  have "acyclic r" unfolding acyclic_def using down by blast
  ultimately have "wf r" by (simp add: finite_acyclic_wf)
  then have "wf (inv_image r f)" by (rule wf_inv_image)
  then show ?thesis by (rule wf_subset) (use assms(2) in \<open>auto simp: r_def\<close>)
qed

section \<open>Strings\<close>

text \<open>
  The byte length of the white-space character a byte sequence starts with, 0 for none. The
  set is Unicode's \<^verbatim>\<open>White_Space\<close>, which \<^verbatim>\<open>char::is_whitespace\<close> tests: the ASCII blanks, U+0085,
  U+00A0, U+1680, U+2000 to U+200A, U+2028, U+2029, U+202F, U+205F and U+3000.
\<close>

fun ws_len :: "nat list \<Rightarrow> nat" where
  "ws_len (a # r) =
     (if (9 \<le> a \<and> a \<le> 13) \<or> a = 32 then 1
      else if a = 194 then (case r of b # _ \<Rightarrow> if b = 133 \<or> b = 160 then 2 else 0 | [] \<Rightarrow> 0)
      else if a = 225 then (case r of b # c # _ \<Rightarrow> if b = 154 \<and> c = 128 then 3 else 0 | _ \<Rightarrow> 0)
      else if a = 226 then
        (case r of b # c # _ \<Rightarrow>
           if b = 128 \<and> ((128 \<le> c \<and> c \<le> 138) \<or> c = 168 \<or> c = 169 \<or> c = 175) then 3
           else if b = 129 \<and> c = 159 then 3 else 0
         | _ \<Rightarrow> 0)
      else if a = 227 then (case r of b # c # _ \<Rightarrow> if b = 128 \<and> c = 128 then 3 else 0 | _ \<Rightarrow> 0)
      else 0)"
| "ws_len [] = 0"

definition bytes :: "string \<Rightarrow> nat list" where
  "bytes s = map of_char s"

text \<open>\<^verbatim>\<open>str::trim_start\<close>: the longest run of leading white-space characters is dropped.\<close>

function trim_start :: "string \<Rightarrow> string" where
  "trim_start s =
     (let n = ws_len (bytes s) in if n = 0 \<or> s = [] then s else trim_start (drop n s))"
  by pat_completeness auto
termination
  by (relation "measure length") auto

declare trim_start.simps [simp del]

text \<open>
  The byte length of the white-space character a byte sequence ends with. UTF-8 is
  self-synchronising, so a suffix of the right bytes is that character.
\<close>

definition ws_len_end :: "string \<Rightarrow> nat" where
  "ws_len_end s =
     (let n = length s; b = bytes s in
      if 1 \<le> n \<and> ws_len (drop (n - 1) b) = 1 then 1
      else if 2 \<le> n \<and> ws_len (drop (n - 2) b) = 2 then 2
      else if 3 \<le> n \<and> ws_len (drop (n - 3) b) = 3 then 3
      else 0)"

function trim_end :: "string \<Rightarrow> string" where
  "trim_end s =
     (let n = ws_len_end s in if n = 0 \<or> s = [] then s else trim_end (take (length s - n) s))"
  by pat_completeness auto
termination
  by (relation "measure length") auto

declare trim_end.simps [simp del]

definition trim :: "string \<Rightarrow> string" where
  "trim s = trim_end (trim_start s)"

text \<open>ASCII case folding: bytes 65 to 90 map to 97 to 122, every other byte is kept.\<close>

definition ascii_lower :: "char \<Rightarrow> char" where
  "ascii_lower c = (if 65 \<le> (of_char c :: nat) \<and> (of_char c :: nat) \<le> 90
                    then char_of ((of_char c :: nat) + 32) else c)"

definition to_ascii_lowercase :: "string \<Rightarrow> string" where
  "to_ascii_lowercase s = map ascii_lower s"

definition eq_ignore_ascii_case :: "string \<Rightarrow> string \<Rightarrow> bool" where
  "eq_ignore_ascii_case a b \<longleftrightarrow> to_ascii_lowercase a = to_ascii_lowercase b"

text \<open>Decimal printing of integers (\<^verbatim>\<open>Display\<close>) and \<^verbatim>\<open>[String]::join\<close>.\<close>

fun show_nat :: "nat \<Rightarrow> string" where
  "show_nat n = (if n < 10 then [char_of (48 + n)] else show_nat (n div 10) @ [char_of (48 + n mod 10)])"

declare show_nat.simps [simp del]

definition show_int :: "int \<Rightarrow> string" where
  "show_int i = (if i < 0 then CHR ''-'' # show_nat (nat (- i)) else show_nat (nat i))"

fun join :: "'a list \<Rightarrow> 'a list list \<Rightarrow> 'a list" where
  "join sep [] = []"
| "join sep [x] = x"
| "join sep (x # y # zs) = x @ sep @ join sep (y # zs)"

lemma trim_start_Nil [simp]: "trim_start [] = []"
  by (subst trim_start.simps) (simp add: bytes_def)

lemma trim_end_Nil [simp]: "trim_end [] = []"
  by (subst trim_end.simps) (simp add: ws_len_end_def)

lemma trim_Nil [simp]: "trim [] = []"
  by (simp add: trim_def)

end
