(* ===== verification/Breaker.thy ===== *)
theory Breaker
  imports Prelude
begin

text \<open>
  The per-bucket circuit breaker of the outbound queue,
  \<^verbatim>\<open>crates/livrarr-http/src/breaker.rs\<close>: its state machine (Closed, Open, HalfOpen), the
  rolling window of failures, the open window and the half-open probe accounting, and the
  per-bucket configuration.

  Instants (\<^verbatim>\<open>DateTime<Utc>\<close>) and chrono durations are \<^typ>\<open>int\<close> nanoseconds; a
  \<^verbatim>\<open>std::time::Duration\<close> is a \<^typ>\<open>nat\<close> of nanoseconds. Every operation that reads the clock
  takes the instant \<open>now\<close> it read. \<^verbatim>\<open>chrono::Duration::from_std\<close> belongs to the chrono crate and
  is the parameter \<open>from_std\<close>; what is known of it is that it converts a duration that fits
  (\<open>converts from_std d\<close>). The \<^verbatim>\<open>u32\<close> counters and the cast of the failure count keep
  their width.
\<close>

section \<open>Data\<close>

text \<open>The rate buckets of \<^verbatim>\<open>services/http.rs\<close>; an indexer has an origin and a row id.\<close>

datatype rate_bucket =
    OpenLibrary | Hardcover | Audnexus | Goodreads | GoogleBooks | Audible
  | OpenLibraryCovers
  | Indexer (origin: string) (indexer: "string option")
  | Readarr string
  | NoBucket

datatype circuit_state = Closed | Open | HalfOpen

record circuit_breaker_config =
  failure_threshold :: u32
  evaluation_window_secs :: u64
  open_duration_secs :: u64
  half_open_probe_count :: u32

datatype breaker_signal = Success | Failure | TripImmediately "nat option"

record breaker_state =
  state :: circuit_state
  config :: circuit_breaker_config
  recent_failures :: "int list"
  open_until :: "int option"
  half_open_probes_taken :: u32
  half_open_probe_successes :: u32

section \<open>Operations\<close>

definition breaker_new :: "circuit_breaker_config \<Rightarrow> breaker_state" where
  "breaker_new cfg =
     \<lparr>state = Closed, config = cfg, recent_failures = [], open_until = None,
      half_open_probes_taken = 0, half_open_probe_successes = 0\<rparr>"

definition nanos_per_sec :: int where
  "nanos_per_sec = 1000000000"

text \<open>\<^verbatim>\<open>Duration::from_secs(u64)\<close> and \<^verbatim>\<open>chrono::Duration::seconds(x as i64)\<close>.\<close>

definition std_from_secs :: "u64 \<Rightarrow> nat" where
  "std_from_secs s = unat s * nat nanos_per_sec"

definition chrono_seconds :: "u64 \<Rightarrow> int" where
  "chrono_seconds s = sint s * nanos_per_sec"

text \<open>\<^verbatim>\<open>current\<close>: the transition from Open to HalfOpen happens when the state is read.\<close>

definition current_step :: "int \<Rightarrow> breaker_state \<Rightarrow> breaker_state" where
  "current_step now b =
     (if state b = Open then
        (case open_until b of
           Some until \<Rightarrow>
             if now \<ge> until then
               b\<lparr>state := HalfOpen, half_open_probes_taken := 0, half_open_probe_successes := 0\<rparr>
             else b
         | None \<Rightarrow> b)
      else b)"

definition current :: "int \<Rightarrow> breaker_state \<Rightarrow> circuit_state \<times> breaker_state" where
  "current now b = (let b' = current_step now b in (state b', b'))"

text \<open>\<^verbatim>\<open>retry_after\<close>: a negative difference converts to a zero duration.\<close>

definition retry_after :: "int \<Rightarrow> breaker_state \<Rightarrow> nat" where
  "retry_after now b =
     (case open_until b of None \<Rightarrow> 0 | Some until \<Rightarrow> nat (until - now))"

definition open_breaker ::
  "(nat \<Rightarrow> int option) \<Rightarrow> int \<Rightarrow> nat \<Rightarrow> breaker_state \<Rightarrow> breaker_state" where
  "open_breaker from_std now open_for b =
     b\<lparr>state := Open,
       open_until := Some (now +
         (case from_std open_for of
            Some d \<Rightarrow> d
          | None \<Rightarrow> chrono_seconds (open_duration_secs (config b)))),
       recent_failures := [],
       half_open_probes_taken := 0,
       half_open_probe_successes := 0\<rparr>"

definition record_success :: "breaker_state \<Rightarrow> breaker_state" where
  "record_success b0 =
     (let b = b0\<lparr>recent_failures := []\<rparr> in
      case state b of
        Closed \<Rightarrow> b
      | Open \<Rightarrow> b\<lparr>state := Closed, open_until := None\<rparr>
      | HalfOpen \<Rightarrow>
          (let b' = b\<lparr>half_open_probe_successes := saturating_add (half_open_probe_successes b) 1,
                      half_open_probes_taken := saturating_add (half_open_probes_taken b) 1\<rparr> in
           if half_open_probes_taken b' \<ge> half_open_probe_count (config b')
              \<and> half_open_probe_successes b' = half_open_probes_taken b'
           then b'\<lparr>state := Closed, open_until := None\<rparr>
           else b'))"

definition record_failure ::
  "(nat \<Rightarrow> int option) \<Rightarrow> int \<Rightarrow> breaker_state \<Rightarrow> breaker_state" where
  "record_failure from_std now b0 =
     (let window = chrono_seconds (evaluation_window_secs (config b0));
          b = b0\<lparr>recent_failures :=
                   filter (\<lambda>t. now - t \<le> window) (recent_failures b0 @ [now])\<rparr> in
      case state b of
        Closed \<Rightarrow>
          (if (of_nat (length (recent_failures b)) :: u32) \<ge> failure_threshold (config b)
           then open_breaker from_std now (std_from_secs (open_duration_secs (config b))) b
           else b)
      | HalfOpen \<Rightarrow>
          open_breaker from_std now (std_from_secs (open_duration_secs (config b))) b
      | Open \<Rightarrow> b)"

definition trip_immediately ::
  "(nat \<Rightarrow> int option) \<Rightarrow> int \<Rightarrow> nat option \<Rightarrow> breaker_state \<Rightarrow> breaker_state" where
  "trip_immediately from_std now open_for b =
     open_breaker from_std now
       (case open_for of Some d \<Rightarrow> d | None \<Rightarrow> std_from_secs (open_duration_secs (config b))) b"

fun apply_signal ::
  "(nat \<Rightarrow> int option) \<Rightarrow> int \<Rightarrow> breaker_signal \<Rightarrow> breaker_state \<Rightarrow> breaker_state" where
  "apply_signal from_std now Success b = record_success b"
| "apply_signal from_std now Failure b = record_failure from_std now b"
| "apply_signal from_std now (TripImmediately open_for) b =
     trip_immediately from_std now open_for b"

definition config_for :: "rate_bucket \<Rightarrow> circuit_breaker_config" where
  "config_for bucket =
     \<lparr>failure_threshold = 5, evaluation_window_secs = 60,
      open_duration_secs = (if bucket = Goodreads then 3600 else 60),
      half_open_probe_count = 1\<rparr>"

fun breaker_tracked :: "rate_bucket \<Rightarrow> bool" where
  "breaker_tracked OpenLibrary = True"
| "breaker_tracked Goodreads = True"
| "breaker_tracked Hardcover = True"
| "breaker_tracked GoogleBooks = True"
| "breaker_tracked Audnexus = True"
| "breaker_tracked Audible = True"
| "breaker_tracked (Indexer _ _) = True"
| "breaker_tracked (Readarr _) = True"
| "breaker_tracked _ = False"


section \<open>Reachable breakers and their invariant\<close>

text \<open>
  Every breaker the queue holds is made by \<open>breaker_new\<close> and changed by reading its state
  (\<open>current_step\<close>) and by reported outcomes, at arbitrary instants: the wall clock may jump.
\<close>

inductive breaker_reach :: "(nat \<Rightarrow> int option) \<Rightarrow> circuit_breaker_config \<Rightarrow> breaker_state \<Rightarrow> bool"
  for from_std cfg where
  reach_new: "breaker_reach from_std cfg (breaker_new cfg)"
| reach_read: "breaker_reach from_std cfg b \<Longrightarrow> breaker_reach from_std cfg (current_step now b)"
| reach_signal: "breaker_reach from_std cfg b \<Longrightarrow>
    breaker_reach from_std cfg (apply_signal from_std now sig b)"

definition breaker_wf :: "breaker_state \<Rightarrow> bool" where
  "breaker_wf b \<longleftrightarrow>
     (state b = Closed \<longrightarrow> open_until b = None
        \<and> length (recent_failures b) < unat (failure_threshold (config b)))
     \<and> (state b \<noteq> Closed \<longrightarrow> open_until b \<noteq> None)
     \<and> half_open_probe_successes b = half_open_probes_taken b
     \<and> (state b = HalfOpen \<longrightarrow> half_open_probes_taken b = 0
          \<or> half_open_probes_taken b < half_open_probe_count (config b))"

lemma open_breaker_simps [simp]:
  "state (open_breaker from_std now d b) = Open"
  "config (open_breaker from_std now d b) = config b"
  "recent_failures (open_breaker from_std now d b) = []"
  "half_open_probes_taken (open_breaker from_std now d b) = 0"
  "half_open_probe_successes (open_breaker from_std now d b) = 0"
  "open_until (open_breaker from_std now d b) = Some (now +
     (case from_std d of Some x \<Rightarrow> x
      | None \<Rightarrow> chrono_seconds (open_duration_secs (config b))))"
  by (simp_all add: open_breaker_def)

lemma config_current_step [simp]: "config (current_step now b) = config b"
  by (simp add: current_step_def split: option.split)

lemma config_record_success [simp]: "config (record_success b) = config b"
  by (simp add: record_success_def Let_def split: circuit_state.split)

lemma config_record_failure [simp]: "config (record_failure from_std now b) = config b"
  by (simp add: record_failure_def Let_def split: circuit_state.split)

lemma config_apply_signal [simp]: "config (apply_signal from_std now sig b) = config b"
  by (cases sig) (simp_all add: trip_immediately_def)

lemma breaker_wf_open: "breaker_wf (open_breaker from_std now d b)"
  by (simp add: breaker_wf_def)

lemma breaker_wf_new: "0 < failure_threshold cfg \<Longrightarrow> breaker_wf (breaker_new cfg)"
  by (simp add: breaker_wf_def breaker_new_def word_less_nat_alt)

lemma breaker_wf_current_step: "breaker_wf b \<Longrightarrow> breaker_wf (current_step now b)"
  by (auto simp: breaker_wf_def current_step_def split: option.splits)

lemma breaker_wf_record_success:
  assumes wf: "breaker_wf b" and thr: "0 < failure_threshold (config b)"
  shows "breaker_wf (record_success b)"
  using assms by (cases "state b")
    (auto simp: breaker_wf_def record_success_def Let_def word_less_nat_alt word_le_nat_alt
      unat_saturating_add)

text \<open>
  The failure count is cast from \<^verbatim>\<open>usize\<close> to \<^verbatim>\<open>u32\<close>. The cast cannot wrap: a closed breaker holds
  fewer failures than its threshold, so one more is at most the threshold.
\<close>

lemma unat_of_nat_le:
  assumes "n \<le> unat (k :: u32)"
  shows "unat (of_nat n :: u32) = n"
proof -
  have "n < 2 ^ 32" using assms unsigned_less [of k, where ?'a = nat] by simp
  then show ?thesis by (simp add: unat_of_nat)
qed

lemma length_filter_snoc_le: "length (filter P (xs @ [x])) \<le> Suc (length xs)"
  using length_filter_le [of P "xs @ [x]"] by simp

lemma breaker_wf_record_failure:
  assumes wf: "breaker_wf b"
  shows "breaker_wf (record_failure from_std now b)"
proof (cases "state b")
  case Closed
  define fs where "fs = filter (\<lambda>t. now - t \<le> chrono_seconds (evaluation_window_secs (config b)))
     (recent_failures b @ [now])"
  have "length fs \<le> unat (failure_threshold (config b))"
    using wf Closed length_filter_snoc_le
      [of "\<lambda>t. now - t \<le> chrono_seconds (evaluation_window_secs (config b))" "recent_failures b" now]
    by (simp add: fs_def breaker_wf_def del: filter_append)
  then have cast: "unat (of_nat (length fs) :: u32) = length fs"
    by (rule unat_of_nat_le)
  show ?thesis
  proof (cases "failure_threshold (config b) \<le> of_nat (length fs)")
    case True
    with Closed show ?thesis
      by (simp add: record_failure_def Let_def breaker_wf_open del: filter_append flip: fs_def)
  next
    case False
    then have "length fs < unat (failure_threshold (config b))"
      using cast by (simp add: word_le_nat_alt)
    with Closed False wf show ?thesis
      by (simp add: record_failure_def Let_def breaker_wf_def del: filter_append flip: fs_def)
  qed
qed (use wf in \<open>simp_all add: record_failure_def Let_def breaker_wf_def\<close>)

lemma breaker_wf_apply_signal:
  "breaker_wf b \<Longrightarrow> 0 < failure_threshold (config b) \<Longrightarrow>
     breaker_wf (apply_signal from_std now sig b)"
  by (cases sig)
    (simp_all add: breaker_wf_record_success breaker_wf_record_failure trip_immediately_def
      breaker_wf_open)

lemma breaker_reach_config: "breaker_reach from_std cfg b \<Longrightarrow> config b = cfg"
  by (induction rule: breaker_reach.induct) (simp_all add: breaker_new_def)

lemma breaker_reach_wf:
  "breaker_reach from_std cfg b \<Longrightarrow> 0 < failure_threshold cfg \<Longrightarrow> breaker_wf b"
  by (induction rule: breaker_reach.induct)
    (auto simp: breaker_wf_new breaker_wf_current_step breaker_wf_apply_signal
      dest: breaker_reach_config)


section \<open>The rolling window, against a reference definition\<close>

text \<open>
  Reference: some failure of the list is, with those before it that lie in its window, the
  threshold-th one. It looks at the whole history, where the code keeps a pruned list.
\<close>

definition window_trips :: "circuit_breaker_config \<Rightarrow> int list \<Rightarrow> bool" where
  "window_trips cfg ts \<longleftrightarrow>
     (\<exists>i\<in>set [0..<length ts]. unat (failure_threshold cfg) \<le>
        length (filter (\<lambda>t. ts ! i - t \<le> chrono_seconds (evaluation_window_secs cfg))
                  (take (Suc i) ts)))"

lemma window_trips_alt:
  "window_trips cfg ts \<longleftrightarrow>
     (\<exists>i<length ts. unat (failure_threshold cfg) \<le>
        length (filter (\<lambda>t. ts ! i - t \<le> chrono_seconds (evaluation_window_secs cfg))
                  (take (Suc i) ts)))"
  by (auto simp: window_trips_def)

lemma window_trips_snoc:
  "window_trips cfg (ts @ [x]) \<longleftrightarrow> window_trips cfg ts \<or>
     unat (failure_threshold cfg) \<le>
       length (filter (\<lambda>t. x - t \<le> chrono_seconds (evaluation_window_secs cfg)) (ts @ [x]))"
  by (simp add: window_trips_alt Ex_less_Suc nth_append disj_commute cong: conj_cong)

lemma breaker_reach_failures:
  "breaker_reach from_std cfg (fold (record_failure from_std) ts (breaker_new cfg))"
proof (induction ts rule: rev_induct)
  case Nil
  show ?case by (simp add: reach_new)
next
  case (snoc x ts)
  from reach_signal [OF this, of x Failure] show ?case by simp
qed

lemma record_failure_closed_step:
  assumes wf: "breaker_wf b" and cl: "state b = Closed"
    and fs: "fs = filter (\<lambda>t. now - t \<le> chrono_seconds (evaluation_window_secs (config b)))
                    (recent_failures b @ [now])"
  shows "(if unat (failure_threshold (config b)) \<le> length fs
          then state (record_failure from_std now b) = Open
          else state (record_failure from_std now b) = Closed
               \<and> recent_failures (record_failure from_std now b) = fs)"
proof -
  have "length fs \<le> unat (failure_threshold (config b))"
    using wf cl length_filter_snoc_le
      [of "\<lambda>t. now - t \<le> chrono_seconds (evaluation_window_secs (config b))" "recent_failures b" now]
    by (simp add: fs breaker_wf_def del: filter_append)
  then have "unat (of_nat (length fs) :: u32) = length fs"
    by (rule unat_of_nat_le)
  then show ?thesis
    using cl by (simp add: record_failure_def Let_def word_le_nat_alt del: filter_append flip: fs)
qed

lemma failures_refine_window:
  fixes from_std
  assumes thr: "0 < failure_threshold cfg" and mono: "sorted ts"
  defines "b \<equiv> fold (record_failure from_std) ts (breaker_new cfg)"
  shows "if window_trips cfg ts then state b = Open
         else state b = Closed \<and> recent_failures b =
           filter (\<lambda>t. last ts - t \<le> chrono_seconds (evaluation_window_secs cfg)) ts"
  using mono unfolding b_def
proof (induction ts rule: rev_induct)
  case Nil
  show ?case by (simp add: window_trips_def breaker_new_def)
next
  case (snoc x ts)
  define b1 where "b1 = fold (record_failure from_std) ts (breaker_new cfg)"
  have reach: "breaker_reach from_std cfg b1"
    by (simp add: b1_def breaker_reach_failures)
  have wf: "breaker_wf b1" and cfg: "config b1 = cfg"
    using breaker_reach_wf [OF reach thr] breaker_reach_config [OF reach] by auto
  have IH: "if window_trips cfg ts then state b1 = Open
     else state b1 = Closed \<and> recent_failures b1 =
       filter (\<lambda>t. last ts - t \<le> chrono_seconds (evaluation_window_secs cfg)) ts"
    using snoc by (simp add: b1_def sorted_append)
  show ?case
  proof (cases "window_trips cfg ts")
    case True
    with IH show ?thesis
      by (simp add: window_trips_snoc record_failure_def Let_def flip: b1_def)
  next
    case False
    let ?W = "chrono_seconds (evaluation_window_secs cfg)"
    have le: "\<forall>t\<in>set ts. t \<le> last ts \<and> last ts \<le> x"
      using snoc.prems by (cases ts rule: rev_cases) (auto simp: sorted_append)
    have "filter (\<lambda>t. x - t \<le> ?W) (filter (\<lambda>t. last ts - t \<le> ?W) ts)
            = filter (\<lambda>t. x - t \<le> ?W) ts"
      unfolding filter_filter by (rule filter_cong) (use le in auto)
    then have fs: "filter (\<lambda>t. x - t \<le> ?W) (ts @ [x])
        = filter (\<lambda>t. x - t \<le> chrono_seconds (evaluation_window_secs (config b1)))
            (recent_failures b1 @ [x])"
      using IH False by (simp add: cfg)
    from record_failure_closed_step [OF wf _ fs, of from_std] IH False
    show ?thesis
      by (simp add: window_trips_snoc cfg del: filter_append flip: b1_def)
  qed
qed

section \<open>The open window and recovery\<close>

definition converts :: "(nat \<Rightarrow> int option) \<Rightarrow> nat \<Rightarrow> bool" where
  "converts from_std d \<longleftrightarrow> from_std d = Some (int d)"

lemma current_step_elapsed:
  "state b = Open \<Longrightarrow> open_until b = Some u \<Longrightarrow> u \<le> now \<Longrightarrow>
     state (current_step now b) = HalfOpen \<and> half_open_probes_taken (current_step now b) = 0
     \<and> half_open_probe_successes (current_step now b) = 0"
  by (simp add: current_step_def)

lemma current_step_waiting:
  "state b = Open \<Longrightarrow> open_until b = Some u \<Longrightarrow> now < u \<Longrightarrow> current_step now b = b"
  by (simp add: current_step_def)

lemma record_success_half_open:
  assumes "state b = HalfOpen" and "half_open_probe_successes b = half_open_probes_taken b"
    and "half_open_probes_taken b = 0 \<or> half_open_probes_taken b < half_open_probe_count (config b)"
  shows "state (record_success b) =
           (if Suc (unat (half_open_probes_taken b)) < unat (half_open_probe_count (config b))
            then HalfOpen else Closed)"
    and "unat (half_open_probes_taken (record_success b)) = Suc (unat (half_open_probes_taken b))"
    and "half_open_probe_successes (record_success b) = half_open_probes_taken (record_success b)"
proof -
  have "Suc (unat (half_open_probes_taken b)) < 2 ^ 32"
    using assms(3) unsigned_less [of "half_open_probe_count (config b)", where ?'a = nat]
    by (auto simp: word_less_nat_alt)
  then have up: "unat (saturating_add (half_open_probes_taken b) 1) =
      Suc (unat (half_open_probes_taken b))"
    by (simp add: unat_saturating_add)
  then show "state (record_success b) =
      (if Suc (unat (half_open_probes_taken b)) < unat (half_open_probe_count (config b))
       then HalfOpen else Closed)"
    using assms(1,2) by (auto simp: record_success_def Let_def word_le_nat_alt)
  show "unat (half_open_probes_taken (record_success b)) = Suc (unat (half_open_probes_taken b))"
    and "half_open_probe_successes (record_success b) = half_open_probes_taken (record_success b)"
    using assms(1,2) up by (simp_all add: record_success_def Let_def)
qed

lemma record_success_closed: "state b = Closed \<Longrightarrow> state (record_success b) = Closed"
  by (simp add: record_success_def Let_def)

lemma probes_close:
  assumes wf: "breaker_wf b" and op: "state b = Open" and until: "open_until b = Some u"
    and elapsed: "u \<le> now"
  defines "p \<equiv> \<lambda>k. (record_success ^^ k) (current_step now b)"
  shows "(if k = 0 \<or> k < unat (half_open_probe_count (config b))
          then state (p k) = HalfOpen \<and> unat (half_open_probes_taken (p k)) = k
               \<and> half_open_probe_successes (p k) = half_open_probes_taken (p k)
          else state (p k) = Closed)"
proof (induction k)
  case 0
  from current_step_elapsed [OF op until elapsed] show ?case by (simp add: p_def)
next
  case (Suc k)
  have cfg: "config (p k) = config b"
    by (induction k) (simp_all add: p_def)
  have step: "p (Suc k) = record_success (p k)" by (simp add: p_def)
  show ?case
  proof (cases "k = 0 \<or> k < unat (half_open_probe_count (config b))")
    case True
    with Suc have IH: "state (p k) = HalfOpen" "unat (half_open_probes_taken (p k)) = k"
      "half_open_probe_successes (p k) = half_open_probes_taken (p k)" by auto
    have "half_open_probes_taken (p k) = 0
        \<or> half_open_probes_taken (p k) < half_open_probe_count (config (p k))"
      using True IH(2) by (auto simp: word_less_nat_alt cfg unat_eq_0)
    from record_success_half_open [OF IH(1,3) this] IH(2) show ?thesis
      by (auto simp: step cfg)
  next
    case False
    with Suc have "state (p k) = Closed" by auto
    with False show ?thesis by (auto simp: step record_success_closed)
  qed
qed


section \<open>The interface the queue relies on\<close>

text \<open>
  What a gate needs of a breaker: reading it keeps it well-formed, an Open answer comes with a
  positive waiting time, and that time is exact: read again later with no outcome reported in
  between, the breaker is Open until that time has passed and no longer.
\<close>

locale circuit_gate =
  fixes read :: "int \<Rightarrow> 'b \<Rightarrow> circuit_state \<times> 'b"
    and wait :: "int \<Rightarrow> 'b \<Rightarrow> nat"
    and ok :: "'b \<Rightarrow> bool"
  assumes read_ok: "ok b \<Longrightarrow> ok (snd (read now b))"
    and open_waits: "ok b \<Longrightarrow> fst (read now b) = Open \<Longrightarrow> 0 < wait now (snd (read now b))"
    and wait_exact: "ok b \<Longrightarrow> fst (read now b) = Open \<Longrightarrow> now \<le> later \<Longrightarrow>
      fst (read later (snd (read now b))) = Open
        \<longleftrightarrow> later < now + int (wait now (snd (read now b)))"
begin

definition closed_at :: "int \<Rightarrow> 'b \<Rightarrow> bool" where
  "closed_at now b \<longleftrightarrow> fst (read now b) = Open"

lemma retry_too_early:
  "ok b \<Longrightarrow> closed_at now b \<Longrightarrow> now \<le> later \<Longrightarrow>
     later < now + int (wait now (snd (read now b))) \<Longrightarrow> closed_at later (snd (read now b))"
  using wait_exact by (simp add: closed_at_def)

lemma retry_in_time:
  "ok b \<Longrightarrow> closed_at now b \<Longrightarrow>
     \<not> closed_at (now + int (wait now (snd (read now b)))) (snd (read now b))"
  using wait_exact [of b now "now + int (wait now (snd (read now b)))"] by (simp add: closed_at_def)

end

interpretation cbreaker: circuit_gate current retry_after breaker_wf
proof (standard, goal_cases)
  case (1 b now)
  then show ?case by (simp add: current_def Let_def breaker_wf_current_step)
next
  case (2 b now)
  then show ?case
    by (auto simp: current_def Let_def current_step_def retry_after_def breaker_wf_def
        split: if_splits option.splits)
next
  case (3 b now later)
  then show ?case
    by (auto simp: current_def Let_def current_step_def retry_after_def breaker_wf_def
        split: if_splits option.splits)
qed

section \<open>Properties\<close>

text \<open>
  in every breaker reachable from a new one with a positive threshold, by reads
  and reported outcomes at any instants, a Closed breaker has no open window and holds fewer
  failures than its threshold (so the \<^verbatim>\<open>usize as u32\<close> cast of the count never wraps), an Open or
  HalfOpen one has an open window, and every probe taken in HalfOpen was a success.
\<close>

theorem reachable_breaker_invariant:
  assumes "breaker_reach from_std cfg b" and "0 < failure_threshold cfg"
  shows "config b = cfg
    \<and> (state b = Closed \<longleftrightarrow> open_until b = None)
    \<and> (state b = Closed \<longrightarrow> length (recent_failures b) < unat (failure_threshold cfg))
    \<and> half_open_probe_successes b = half_open_probes_taken b"
  using breaker_reach_wf [OF assms] breaker_reach_config [OF assms(1)]
  by (auto simp: breaker_wf_def)

theorem reachable_breaker_invariant_witness:
  "config (apply_signal (\<lambda>d. Some (int d)) 7 Failure (breaker_new (config_for Goodreads)))
     = config_for Goodreads
   \<and> length (recent_failures
        (apply_signal (\<lambda>d. Some (int d)) 7 Failure (breaker_new (config_for Goodreads)))) < 5"
proof -
  let ?b = "apply_signal (\<lambda>d. Some (int d)) 7 Failure (breaker_new (config_for Goodreads))"
  have r: "breaker_reach (\<lambda>d. Some (int d)) (config_for Goodreads) ?b"
    by (rule reach_signal [OF reach_new])
  have t: "0 < failure_threshold (config_for Goodreads)"
    by (simp add: config_for_def)
  have c: "state ?b = Closed"
    by code_simp
  show ?thesis
    using reachable_breaker_invariant [OF r t] c by (simp add: config_for_def)
qed

text \<open>
  C13 (equivalence): a new breaker that sees failures at non-decreasing instants and nothing
  else is Open exactly when some failure had, counting itself, threshold-many failures within
  the evaluation window; otherwise it is Closed. The pruned list of the code agrees with the
  definition over the whole history.
\<close>

theorem failures_trip_exactly_at_threshold:
  assumes "0 < failure_threshold cfg" and "sorted ts"
  shows "state (fold (record_failure from_std) ts (breaker_new cfg)) =
           (if window_trips cfg ts then Open else Closed)"
  using failures_refine_window [OF assms, of from_std] by (auto split: if_splits)

theorem failures_trip_exactly_at_threshold_witness:
  "state (fold (record_failure (\<lambda>d. Some (int d))) [0, 1, 2, 3] (breaker_new (config_for Audible)))
     = Closed
   \<and> state (fold (record_failure (\<lambda>d. Some (int d))) [0, 1, 2, 3, 4] (breaker_new (config_for Audible)))
     = Open"
proof -
  have t: "0 < failure_threshold (config_for Audible)" by code_simp
  have w: "\<not> window_trips (config_for Audible) [0, 1, 2, 3]"
    "window_trips (config_for Audible) [0, 1, 2, 3, 4]" by code_simp+
  show ?thesis
    using failures_trip_exactly_at_threshold [OF t, of "[0, 1, 2, 3]" "\<lambda>d. Some (int d)"]
      failures_trip_exactly_at_threshold [OF t, of "[0, 1, 2, 3, 4]" "\<lambda>d. Some (int d)"] w
    by simp
qed

text \<open>
  a hard block reported with an explicit window keeps the breaker Open for exactly
  that window. Until it has passed every read says Open with the true time remaining, whatever
  failures are reported meanwhile; the first read after it says HalfOpen with no probe taken.
\<close>

theorem trip_holds_for_its_window:
  fixes b0 :: breaker_state and t now :: int
  assumes "converts from_std d"
  defines "b \<equiv> apply_signal from_std t (TripImmediately (Some d)) b0"
  shows "if now < t + int d
         then fst (current now b) = Open \<and> retry_after now b = nat (t + int d - now)
           \<and> current_step now b = b
           \<and> fst (current now (record_failure from_std now b)) = Open
         else fst (current now b) = HalfOpen \<and> half_open_probes_taken (snd (current now b)) = 0"
  using assms(1) unfolding b_def converts_def
  by (simp add: trip_immediately_def current_def current_step_def retry_after_def
      record_failure_def Let_def)

theorem trip_holds_for_its_window_witness:
  "fst (current 9 (apply_signal (\<lambda>d. Some (int d)) 0 (TripImmediately (Some 10))
      (breaker_new (config_for GoogleBooks)))) = Open
   \<and> fst (current 10 (apply_signal (\<lambda>d. Some (int d)) 0 (TripImmediately (Some 10))
      (breaker_new (config_for GoogleBooks)))) = HalfOpen"
  using trip_holds_for_its_window [of "\<lambda>d. Some (int d)" 10 9 0 "breaker_new (config_for GoogleBooks)"]
    trip_holds_for_its_window [of "\<lambda>d. Some (int d)" 10 10 0 "breaker_new (config_for GoogleBooks)"]
  by (simp add: converts_def)

text \<open>
  once the open window of a well-formed breaker has passed, reads and successful
  probes always bring it back: after \<open>k\<close> successes it is HalfOpen while \<open>k\<close> is below the probe
  count and Closed from the probe count (at least one success) on. A failure at any half-open
  point opens it again for the configured duration.
\<close>

theorem half_open_probes_decide:
  assumes "breaker_wf b" and "state b = Open" and "open_until b = Some u" and "u \<le> now"
    and "converts from_std (std_from_secs (open_duration_secs (config b)))"
  defines "p \<equiv> \<lambda>k. (record_success ^^ k) (current_step now b)"
  shows "state (p k) =
           (if k < max 1 (unat (half_open_probe_count (config b))) then HalfOpen else Closed)
    \<and> (k < max 1 (unat (half_open_probe_count (config b))) \<longrightarrow>
           state (record_failure from_std t (p k)) = Open
           \<and> open_until (record_failure from_std t (p k))
             = Some (t + int (std_from_secs (open_duration_secs (config b)))))"
proof -
  have cfg: "config (p k) = config b"
    by (induction k) (simp_all add: p_def)
  have st: "state (p k) =
      (if k < max 1 (unat (half_open_probe_count (config b))) then HalfOpen else Closed)"
    using probes_close [OF assms(1-4), of k] by (auto simp: p_def split: if_splits)
  then show ?thesis
    using assms(5) by (simp add: record_failure_def Let_def cfg converts_def)
qed

theorem half_open_probes_decide_witness:
  "state ((record_success ^^ 1) (current_step 60
     (trip_immediately (\<lambda>d. Some (int d)) 0 (Some 60) (breaker_new (config_for Audible))))) = Closed"
proof -
  let ?b = "trip_immediately (\<lambda>d. Some (int d)) 0 (Some 60) (breaker_new (config_for Audible))"
  have wf: "breaker_wf ?b" by (simp add: trip_immediately_def breaker_wf_open)
  have st: "state ?b = Open" "open_until ?b = Some 60" "config ?b = config_for Audible"
    by (simp_all add: trip_immediately_def breaker_new_def)
  have cv: "converts (\<lambda>d. Some (int d)) (std_from_secs (open_duration_secs (config ?b)))"
    by (simp add: converts_def)
  show ?thesis
    using half_open_probes_decide [OF wf st(1,2) order_refl cv, of 1 0]
    unfolding st(3) by (simp add: config_for_def)
qed

end
