(* ===== verification/OutboundQueue.thy ===== *)
theory OutboundQueue
  imports Breaker
begin

text \<open>
  The process-global outbound queue, \<^verbatim>\<open>crates/livrarr-http/src/outbound_queue.rs\<close>: priority-reserved
  admission, the per-lane dispatcher with its pacing clock, in-flight permits and the two breaker
  levels, and the registries of lanes and of rate-limit breakers with their quiescent-only
  eviction.

  One lane is the record \<open>lane\<close>: the mutex-guarded \<^verbatim>\<open>BucketState\<close>, the semaphore's free permits,
  the transport breaker, the store of rate-limit breakers (an \<^verbatim>\<open>Arc\<close> is an address), the control
  point of the dispatcher task, the waiters' one-shot channels, and the history of dispatches.
  What the code does under one hold of the state lock is one function; the clock is read once
  per hold. The interleaving of callers, dispatcher, clock, cancellation and task death is the
  step relation \<open>lane_step\<close>. \<^verbatim>\<open>Instant\<close>s are \<^typ>\<open>int\<close> nanoseconds on the monotonic clock \<open>clock\<close>; the breakers
  read the wall clock, an arbitrary argument of the steps.
\<close>

section \<open>Requests and priorities\<close>

datatype request_priority = Low | Normal | High | Interactive

fun priority_rank :: "request_priority \<Rightarrow> nat" where
  "priority_rank Low = 0"
| "priority_rank Normal = 1"
| "priority_rank High = 2"
| "priority_rank Interactive = 3"

instantiation request_priority :: linorder
begin
definition "p \<le> q \<longleftrightarrow> priority_rank p \<le> priority_rank q"
definition "p < q \<longleftrightarrow> priority_rank p < priority_rank q"
instance
proof
  fix p q :: request_priority
  show "p \<le> q \<Longrightarrow> q \<le> p \<Longrightarrow> p = q"
    by (cases p; cases q; simp add: less_eq_request_priority_def)
qed (auto simp: less_eq_request_priority_def less_request_priority_def)
end

definition OUTBOUND_IN_FLIGHT_CAP :: nat where "OUTBOUND_IN_FLIGHT_CAP = 2"
definition QUEUE_TOTAL_CAP :: nat where "QUEUE_TOTAL_CAP = 512"
definition QUEUE_FULL_RETRY_AFTER_HINT :: nat where
  "QUEUE_FULL_RETRY_AFTER_HINT = 1 * nat nanos_per_sec"
definition PACE_REGISTRY_CAP :: nat where "PACE_REGISTRY_CAP = 256"
definition RATE_LIMIT_BREAKER_REGISTRY_CAP :: nat where
  "RATE_LIMIT_BREAKER_REGISTRY_CAP = 1024"

fun admission_threshold :: "request_priority \<Rightarrow> nat" where
  "admission_threshold Low = 384"
| "admission_threshold Normal = 448"
| "admission_threshold High = 480"
| "admission_threshold Interactive = QUEUE_TOTAL_CAP"

definition millis :: "nat \<Rightarrow> nat" where
  "millis n = n * 1000000"

fun interval_for :: "rate_bucket \<Rightarrow> nat" where
  "interval_for OpenLibrary = millis 1000"
| "interval_for Hardcover = millis 1000"
| "interval_for GoogleBooks = millis 1000"
| "interval_for Goodreads = millis 1500"
| "interval_for Audnexus = millis 2000"
| "interval_for Audible = millis 150"
| "interval_for OpenLibraryCovers = millis 3000"
| "interval_for (Indexer _ _) = millis 500"
| "interval_for (Readarr _) = millis 500"
| "interval_for NoBucket = 0"

fun pace_key :: "rate_bucket \<Rightarrow> rate_bucket" where
  "pace_key (Indexer og _) = Indexer og None"
| "pace_key other = other"

section \<open>The priority heap\<close>

text \<open>
  A queued caller: its priority, its sequence number (\<^verbatim>\<open>AtomicU64\<close>, which wraps), its one-shot
  channel (the waiter's number) and the address of its rate-limit breaker, if it has one.
\<close>

record queued_item =
  priority :: request_priority
  seq :: u64
  turn :: nat
  rl_breaker :: "nat option"

text \<open>\<^verbatim>\<open>Ord for QueuedItem\<close>: higher priority first, then the smaller sequence number.\<close>

definition item_less :: "queued_item \<Rightarrow> queued_item \<Rightarrow> bool" where
  "item_less a b \<longleftrightarrow> priority a < priority b \<or> (priority a = priority b \<and> seq b < seq a)"

text \<open>
  The standard library's \<^verbatim>\<open>BinaryHeap\<close> promises that \<^verbatim>\<open>pop\<close> removes a greatest element and that
  \<^verbatim>\<open>peek\<close> shows it. The list model takes the first greatest one; the client below uses the laws only.
\<close>

fun heap_peek :: "queued_item list \<Rightarrow> queued_item option" where
  "heap_peek [] = None"
| "heap_peek (x # xs) =
     (case heap_peek xs of
        None \<Rightarrow> Some x
      | Some y \<Rightarrow> if item_less x y then Some y else Some x)"

definition heap_pop :: "queued_item list \<Rightarrow> (queued_item \<times> queued_item list) option" where
  "heap_pop h = map_option (\<lambda>x. (x, remove1 x h)) (heap_peek h)"

definition heap_push :: "queued_item \<Rightarrow> queued_item list \<Rightarrow> queued_item list" where
  "heap_push x h = x # h"

locale max_heap =
  fixes less :: "'i \<Rightarrow> 'i \<Rightarrow> bool"
    and push :: "'i \<Rightarrow> 'h \<Rightarrow> 'h"
    and peek :: "'h \<Rightarrow> 'i option"
    and pop :: "'h \<Rightarrow> ('i \<times> 'h) option"
    and elems :: "'h \<Rightarrow> 'i multiset"
  assumes elems_push: "elems (push x h) = add_mset x (elems h)"
    and pop_peek: "map_option fst (pop h) = peek h"
    and peek_None: "peek h = None \<longleftrightarrow> elems h = {#}"
    and pop_elems: "pop h = Some (x, h') \<Longrightarrow> elems h = add_mset x (elems h')"
    and peek_greatest: "peek h = Some x \<Longrightarrow> y \<in># elems h \<Longrightarrow> \<not> less x y"
begin

lemma pop_None_iff: "pop h = None \<longleftrightarrow> elems h = {#}"
  using pop_peek [of h] peek_None [of h] by auto

lemma pop_Some_if: "elems h \<noteq> {#} \<Longrightarrow> \<exists>x h'. pop h = Some (x, h')"
  using pop_None_iff [of h] by (cases "pop h") auto

lemma size_pop: "pop h = Some (x, h') \<Longrightarrow> size (elems h) = Suc (size (elems h'))"
  by (simp add: pop_elems)

lemma size_push: "size (elems (push x h)) = Suc (size (elems h))"
  by (simp add: elems_push)

lemma pop_greatest: "pop h = Some (x, h') \<Longrightarrow> y \<in># elems h \<Longrightarrow> \<not> less x y"
  using peek_greatest [of h x y] pop_peek [of h] by simp

lemma pop_in: "pop h = Some (x, h') \<Longrightarrow> x \<in># elems h"
  by (simp add: pop_elems)

end

lemma item_less_trans: "item_less a b \<Longrightarrow> item_less b c \<Longrightarrow> item_less a c"
  by (auto simp: item_less_def)

lemma item_less_irrefl [simp]: "\<not> item_less a a"
  by (simp add: item_less_def)

lemma item_not_less_trans: "\<not> item_less a b \<Longrightarrow> \<not> item_less b c \<Longrightarrow> \<not> item_less a c"
  by (auto simp: item_less_def)

lemma heap_peek_None [simp]: "heap_peek h = None \<longleftrightarrow> h = []"
  by (cases h) (auto split: option.split)

lemma heap_peek_in: "heap_peek h = Some x \<Longrightarrow> x \<in> set h"
  by (induction h arbitrary: x) (auto split: option.splits if_splits)

lemma heap_peek_greatest: "heap_peek h = Some x \<Longrightarrow> y \<in> set h \<Longrightarrow> \<not> item_less x y"
proof (induction h arbitrary: x y)
  case (Cons z h)
  show ?case
  proof (cases "heap_peek h")
    case None
    with Cons.prems show ?thesis by simp
  next
    case (Some w)
    from Cons.IH [OF Some] have "\<And>y. y \<in> set h \<Longrightarrow> \<not> item_less w y" .
    with Some Cons.prems show ?thesis
      using item_not_less_trans [of z w y] item_less_trans [of w z w]
      by (auto split: if_splits)
  qed
qed simp

interpretation bheap: max_heap item_less heap_push heap_peek heap_pop mset
proof (standard, goal_cases)
  case (1 x h)
  show ?case by (simp add: heap_push_def)
next
  case (2 h)
  show ?case by (cases "heap_peek h") (simp_all add: heap_pop_def)
next
  case (3 h)
  show ?case by simp
next
  case (4 h x h')
  then show ?case by (auto simp: heap_pop_def dest: heap_peek_in)
next
  case (5 h x y)
  then show ?case using heap_peek_greatest by simp
qed


section \<open>A lane\<close>

text \<open>
  The dispatcher's control point: no task; at the top of its loop (before phase 1); waiting for
  the pacing instant and a permit; holding a permit (before the grant).
\<close>

datatype dispatcher = NoTask | AtTop | Waiting_until int | HoldsPermit

text \<open>
  What has become of a waiter's turn: its receiver is alive and waiting, it was cancelled, it
  was refused admission, it was rejected by an open breaker, it holds a permit, it has released
  it, or the dispatcher died after popping its item (the sender was dropped).
\<close>

datatype waiter = Awaiting | Cancelled | Refused | Rejected nat | Granted | Released | Torn

record lane =
  heap :: "queued_item list"
  dispatcher_running :: bool
  last_dispatch :: int
  permits :: nat
  breaker :: "breaker_state option"
  rl_breakers :: "nat \<Rightarrow> breaker_state"
  task :: dispatcher
  waiters :: "nat \<rightharpoonup> waiter"
  next_seq :: u64
  clock :: int
  dispatches :: "int list"

definition lane_new :: "rate_bucket \<Rightarrow> int \<Rightarrow> (nat \<Rightarrow> breaker_state) \<Rightarrow> u64 \<Rightarrow> lane" where
  "lane_new bucket now rls sq =
     \<lparr>heap = [], dispatcher_running = False,
      last_dispatch = now - int (interval_for bucket),
      permits = OUTBOUND_IN_FLIGHT_CAP,
      breaker = (if breaker_tracked bucket then Some (breaker_new (config_for bucket)) else None),
      rl_breakers = rls, task = NoTask, waiters = Map.empty, next_seq = sq, clock = now,
      dispatches = []\<rparr>"

text \<open>
  \<^verbatim>\<open>breaker_open_retry\<close>: reading the breaker may move it to HalfOpen, so it returns the breaker.
\<close>

definition breaker_open_retry :: "int \<Rightarrow> breaker_state \<Rightarrow> nat option \<times> breaker_state" where
  "breaker_open_retry utc b =
     (case current utc b of
        (Open, b') \<Rightarrow> (Some (retry_after utc b'), b')
      | (_, b') \<Rightarrow> (None, b'))"

text \<open>
  The two levels, in the code's order: the item's rate-limit breaker first; the lane's transport
  breaker only when the first did not reject.
\<close>

definition gate_rl :: "int \<Rightarrow> nat option \<Rightarrow> lane \<Rightarrow> nat option \<times> lane" where
  "gate_rl utc rl s =
     (case rl of
        None \<Rightarrow> (None, s)
      | Some a \<Rightarrow> (case breaker_open_retry utc (rl_breakers s a) of
                     (r, b) \<Rightarrow> (r, s\<lparr>rl_breakers := (rl_breakers s)(a := b)\<rparr>)))"

definition gate_transport :: "int \<Rightarrow> lane \<Rightarrow> nat option \<times> lane" where
  "gate_transport utc s =
     (case breaker s of
        None \<Rightarrow> (None, s)
      | Some b \<Rightarrow> (case breaker_open_retry utc b of (r, b') \<Rightarrow> (r, s\<lparr>breaker := Some b'\<rparr>)))"

definition gate :: "int \<Rightarrow> nat option \<Rightarrow> lane \<Rightarrow> nat option \<times> lane" where
  "gate utc rl s =
     (case gate_rl utc rl s of
        (Some r, s') \<Rightarrow> (Some r, s')
      | (None, s') \<Rightarrow> gate_transport utc s')"

text \<open>\<^verbatim>\<open>item.turn.send(..)\<close>: it succeeds iff the receiver is alive.\<close>

definition send_turn :: "nat \<Rightarrow> waiter \<Rightarrow> lane \<Rightarrow> bool \<times> lane" where
  "send_turn w outcome s =
     (if waiters s w = Some Awaiting
      then (True, s\<lparr>waiters := (waiters s)(w \<mapsto> outcome)\<rparr>) else (False, s))"

text \<open>
  The closure \<^verbatim>\<open>enqueue\<close> of \<^verbatim>\<open>acquire\<close>: the admission gate, the sequence number, the push, and the
  spawn of a dispatcher when none runs.
\<close>

definition enqueue ::
  "request_priority \<Rightarrow> nat option \<Rightarrow> bool \<Rightarrow> nat \<Rightarrow> lane \<Rightarrow> bool \<times> lane" where
  "enqueue p rl admitted w s =
     (if \<not> admitted \<and> length (heap s) \<ge> admission_threshold p then (False, s)
      else
        let item = \<lparr>priority = p, seq = next_seq s, turn = w, rl_breaker = rl\<rparr>;
            s1 = s\<lparr>heap := heap_push item (heap s), next_seq := next_seq s + 1\<rparr>
        in (True, if dispatcher_running s1 then s1
                  else s1\<lparr>dispatcher_running := True, task := AtTop\<rparr>))"

text \<open>
  Phase 1 of \<^verbatim>\<open>run_dispatcher\<close>, one lock hold: reject top items while a breaker is open, exit when
  the heap is empty, otherwise leave with the instant the next dispatch is allowed.
\<close>

lemma heap_pop_length: "heap_pop h = Some (x, h') \<Longrightarrow> length h' < length h"
  using bheap.size_pop [of h x h'] by simp

lemma heap_gate_transport: "heap (snd (gate_transport utc s)) = heap s"
  by (simp add: gate_transport_def split: option.split prod.split)

lemma heap_gate_rl: "heap (snd (gate_rl utc rl s)) = heap s"
  by (simp add: gate_rl_def split: option.split prod.split)

lemma heap_gate: "heap (snd (gate utc rl s)) = heap s"
  using heap_gate_rl [of utc rl s] heap_gate_transport
  by (auto simp: gate_def split: option.split prod.split)

lemma heap_send_turn [simp]: "heap (snd (send_turn w out s)) = heap s"
  by (simp add: send_turn_def)

function drain :: "nat \<Rightarrow> int \<Rightarrow> lane \<Rightarrow> lane" where
  "drain interval utc s =
     (case heap_pop (heap s) of
        None \<Rightarrow> s\<lparr>dispatcher_running := False, task := NoTask\<rparr>
      | Some (item, rest) \<Rightarrow>
          (case gate utc (rl_breaker item) s of
             (Some r, s1) \<Rightarrow>
               drain interval utc (snd (send_turn (turn item) (Rejected r) (s1\<lparr>heap := rest\<rparr>)))
           | (None, s1) \<Rightarrow> s1\<lparr>task := Waiting_until (last_dispatch s1 + int interval)\<rparr>))"
  by pat_completeness auto
termination
  by (relation "measure (\<lambda>(interval, utc, s). length (heap s))")
    (auto dest: heap_pop_length)

declare drain.simps [simp del]

text \<open>
  Phase 3, one lock hold with a permit in hand: pop and re-check both breakers. A rejection or a
  cancelled waiter gives the permit back and leaves the pacing clock alone. \<^verbatim>\<open>None\<close> is the panic
  of the \<^verbatim>\<open>expect\<close> on an empty heap.
\<close>

definition grant :: "int \<Rightarrow> lane \<Rightarrow> lane option" where
  "grant utc s =
     (case heap_pop (heap s) of
        None \<Rightarrow> None
      | Some (item, rest) \<Rightarrow>
          (case gate utc (rl_breaker item) (s\<lparr>heap := rest\<rparr>) of
             (Some r, s1) \<Rightarrow>
               Some (snd (send_turn (turn item) (Rejected r)
                            (s1\<lparr>permits := permits s1 + 1, task := AtTop\<rparr>)))
           | (None, s1) \<Rightarrow>
               (case send_turn (turn item) Granted s1 of
                  (True, s2) \<Rightarrow>
                    Some (s2\<lparr>last_dispatch := clock s2, dispatches := clock s2 # dispatches s2,
                             task := AtTop\<rparr>)
                | (False, s2) \<Rightarrow> Some (s2\<lparr>permits := permits s2 + 1, task := AtTop\<rparr>))))"

text \<open>The guard's \<^verbatim>\<open>drop\<close> when the task dies: the flag is cleared and a held permit is freed.\<close>

definition task_dies :: "lane \<Rightarrow> lane" where
  "task_dies s =
     s\<lparr>dispatcher_running := False,
       permits := (if task s = HoldsPermit then permits s + 1 else permits s),
       task := NoTask\<rparr>"

section \<open>Steps of a lane\<close>

inductive lane_step :: "nat \<Rightarrow> lane \<Rightarrow> lane \<Rightarrow> bool" for interval where
  acquire_admitted:
    "waiters s w = None \<Longrightarrow> enqueue p rl False w s = (True, t) \<Longrightarrow>
       lane_step interval s (t\<lparr>waiters := (waiters t)(w \<mapsto> Awaiting)\<rparr>)"
| acquire_refused:
    "waiters s w = None \<Longrightarrow> enqueue p rl False w s = (False, t) \<Longrightarrow>
       lane_step interval s (t\<lparr>waiters := (waiters t)(w \<mapsto> Refused)\<rparr>)"
| cancel:
    "waiters s w = Some Awaiting \<Longrightarrow>
       lane_step interval s (s\<lparr>waiters := (waiters s)(w \<mapsto> Cancelled)\<rparr>)"
| dispatcher_drain:
    "task s = AtTop \<Longrightarrow> lane_step interval s (drain interval utc s)"
| dispatcher_permit:
    "task s = Waiting_until t \<Longrightarrow> t \<le> clock s \<Longrightarrow> 0 < permits s \<Longrightarrow>
       lane_step interval s (s\<lparr>permits := permits s - 1, task := HoldsPermit\<rparr>)"
| dispatcher_grant:
    "task s = HoldsPermit \<Longrightarrow> grant utc s = Some t \<Longrightarrow> lane_step interval s t"
| release:
    "waiters s w = Some Granted \<Longrightarrow>
       lane_step interval s
         (s\<lparr>permits := permits s + 1, waiters := (waiters s)(w \<mapsto> Released)\<rparr>)"
| tick:
    "clock s \<le> now \<Longrightarrow> lane_step interval s (s\<lparr>clock := now\<rparr>)"
| other_lane_sequence:
    "lane_step interval s (s\<lparr>next_seq := next_seq s + n\<rparr>)"
| report_outcome:
    "lane_step interval s (s\<lparr>breaker := map_option (apply_signal from_std utc sig) (breaker s)\<rparr>)"
| report_rate_limit_outcome:
    "lane_step interval s
       (s\<lparr>rl_breakers := (rl_breakers s)(a := apply_signal from_std utc sig (rl_breakers s a))\<rparr>)"
| new_rate_limit_breaker:
    "lane_step interval s (s\<lparr>rl_breakers := (rl_breakers s)(a := breaker_new cfg)\<rparr>)"

text \<open>
  The dispatcher task can also die (a panic, or the runtime it was spawned on going away), before
  or after popping an item; a waiter whose sender was dropped queues again without a second
  admission check, and a waiter's periodic probe revives a dead dispatcher.
\<close>

inductive fault_step :: "nat \<Rightarrow> lane \<Rightarrow> lane \<Rightarrow> bool" for interval where
  dies: "task s \<noteq> NoTask \<Longrightarrow> fault_step interval s (task_dies s)"
| dies_torn:
    "task s = HoldsPermit \<Longrightarrow> heap_pop (heap s) = Some (item, rest) \<Longrightarrow>
       fault_step interval s
         (task_dies (snd (send_turn (turn item) Torn (s\<lparr>heap := rest\<rparr>))))"
| requeue:
    "waiters s w = Some Torn \<Longrightarrow> enqueue p rl True w s = (True, t) \<Longrightarrow>
       fault_step interval s (t\<lparr>waiters := (waiters t)(w \<mapsto> Awaiting)\<rparr>)"
| probe:
    "waiters s w = Some Awaiting \<Longrightarrow> \<not> dispatcher_running s \<Longrightarrow> heap s \<noteq> [] \<Longrightarrow>
       fault_step interval s (s\<lparr>dispatcher_running := True, task := AtTop\<rparr>)"

inductive lane_reach :: "bool \<Rightarrow> rate_bucket \<Rightarrow> lane \<Rightarrow> bool" for faults bucket where
  start: "lane_reach faults bucket (lane_new bucket now rls sq)"
| step: "lane_reach faults bucket s \<Longrightarrow> lane_step (interval_for bucket) s t \<Longrightarrow>
    lane_reach faults bucket t"
| fault: "lane_reach faults bucket s \<Longrightarrow> faults \<Longrightarrow> fault_step (interval_for bucket) s t \<Longrightarrow>
    lane_reach faults bucket t"


section \<open>Frames: what the parts of a step leave unchanged\<close>

lemma gate_rl_frame [step_frames]:
  assumes "gate_rl utc rl s = (r, s')"
  shows "heap s' = heap s \<and> dispatcher_running s' = dispatcher_running s
    \<and> last_dispatch s' = last_dispatch s \<and> permits s' = permits s \<and> task s' = task s
    \<and> waiters s' = waiters s \<and> clock s' = clock s \<and> dispatches s' = dispatches s
    \<and> breaker s' = breaker s"
  using assms by (auto simp: gate_rl_def split: option.splits prod.splits)

lemma gate_transport_frame [step_frames]:
  assumes "gate_transport utc s = (r, s')"
  shows "heap s' = heap s \<and> dispatcher_running s' = dispatcher_running s
    \<and> last_dispatch s' = last_dispatch s \<and> permits s' = permits s \<and> task s' = task s
    \<and> waiters s' = waiters s \<and> clock s' = clock s \<and> dispatches s' = dispatches s
    \<and> rl_breakers s' = rl_breakers s"
  using assms by (auto simp: gate_transport_def split: option.splits prod.splits)

lemma gate_frame [step_frames]:
  assumes "gate utc rl s = (r, s')"
  shows "heap s' = heap s \<and> dispatcher_running s' = dispatcher_running s
    \<and> last_dispatch s' = last_dispatch s \<and> permits s' = permits s \<and> task s' = task s
    \<and> waiters s' = waiters s \<and> clock s' = clock s \<and> dispatches s' = dispatches s"
  using assms by (auto simp: gate_def split: option.splits prod.splits dest!: step_frames)

definition granted :: "lane \<Rightarrow> nat set" where
  "granted s = {w. waiters s w = Some Granted}"

lemma send_turn_frame [step_frames]:
  assumes "send_turn w out s = (ok, s')"
  shows "heap s' = heap s \<and> dispatcher_running s' = dispatcher_running s
    \<and> last_dispatch s' = last_dispatch s \<and> permits s' = permits s \<and> task s' = task s
    \<and> clock s' = clock s \<and> dispatches s' = dispatches s
    \<and> dom (waiters s') = dom (waiters s)
    \<and> granted s' = (if ok \<and> out = Granted then insert w (granted s) else granted s)
    \<and> (ok \<longrightarrow> w \<notin> granted s)"
  using assms by (auto simp: send_turn_def granted_def split: if_splits)

lemma granted_simps [simp]:
  "granted (s\<lparr>heap := h\<rparr>) = granted s"
  "granted (s\<lparr>permits := n\<rparr>) = granted s"
  "granted (s\<lparr>task := t\<rparr>) = granted s"
  "granted (s\<lparr>dispatcher_running := f\<rparr>) = granted s"
  "granted (s\<lparr>last_dispatch := l\<rparr>) = granted s"
  "granted (s\<lparr>dispatches := ds\<rparr>) = granted s"
  "granted (s\<lparr>clock := c\<rparr>) = granted s"
  "granted (s\<lparr>next_seq := q\<rparr>) = granted s"
  "granted (s\<lparr>breaker := b\<rparr>) = granted s"
  "granted (s\<lparr>rl_breakers := rs\<rparr>) = granted s"
  by (simp_all add: granted_def)

text \<open>
  Phase 1 touches no permit, no granted waiter and no pacing clock, and ends in one of two ways.
\<close>

lemma drain_frame:
  "last_dispatch (drain interval utc s) = last_dispatch s
   \<and> permits (drain interval utc s) = permits s \<and> clock (drain interval utc s) = clock s
   \<and> dispatches (drain interval utc s) = dispatches s
   \<and> dom (waiters (drain interval utc s)) = dom (waiters s)
   \<and> granted (drain interval utc s) = granted s
   \<and> length (heap (drain interval utc s)) \<le> length (heap s)"
proof (induction interval utc s rule: drain.induct)
  case (1 interval utc s)
  show ?case
  proof (cases "heap_pop (heap s)")
    case None
    then show ?thesis by (simp add: drain.simps [of interval utc s])
  next
    case (Some p)
    then obtain item rest where pop: "heap_pop (heap s) = Some (item, rest)" by (cases p) auto
    obtain r s1 where g: "gate utc (rl_breaker item) s = (r, s1)" by fastforce
    note fr = gate_frame [OF g]
    show ?thesis
    proof (cases r)
      case None
      with pop g fr show ?thesis
        by (simp add: drain.simps [of interval utc s] granted_def)
    next
      case (Some a)
      obtain ok s2 where sd: "send_turn (turn item) (Rejected a) (s1\<lparr>heap := rest\<rparr>) = (ok, s2)"
        by fastforce
      have "drain interval utc s = drain interval utc s2"
        using pop g Some sd by (simp add: drain.simps [of interval utc s])
      moreover have "granted s1 = granted s" using fr by (simp add: granted_def)
      ultimately show ?thesis
        using "1.IH" [OF pop refl g [symmetric] Some] send_turn_frame [OF sd] fr
          heap_pop_length [OF pop] sd
        by auto
    qed
  qed
qed

lemma drain_result:
  "(heap (drain interval utc s) = [] \<and> task (drain interval utc s) = NoTask
      \<and> \<not> dispatcher_running (drain interval utc s))
   \<or> (heap (drain interval utc s) \<noteq> []
      \<and> task (drain interval utc s) = Waiting_until (last_dispatch s + int interval)
      \<and> dispatcher_running (drain interval utc s) = dispatcher_running s)"
proof (induction interval utc s rule: drain.induct)
  case (1 interval utc s)
  show ?case
  proof (cases "heap_pop (heap s)")
    case None
    then show ?thesis using bheap.pop_None_iff [of "heap s"]
      by (simp add: drain.simps [of interval utc s])
  next
    case (Some p)
    then obtain item rest where pop: "heap_pop (heap s) = Some (item, rest)" by (cases p) auto
    obtain r s1 where g: "gate utc (rl_breaker item) s = (r, s1)" by fastforce
    note fr = gate_frame [OF g]
    have ne: "heap s \<noteq> []" using pop by (auto simp: heap_pop_def)
    show ?thesis
    proof (cases r)
      case None
      with pop g fr ne show ?thesis by (simp add: drain.simps [of interval utc s])
    next
      case (Some a)
      obtain ok s2 where sd: "send_turn (turn item) (Rejected a) (s1\<lparr>heap := rest\<rparr>) = (ok, s2)"
        by fastforce
      have "drain interval utc s = drain interval utc s2"
        using pop g Some sd by (simp add: drain.simps [of interval utc s])
      then show ?thesis
        using "1.IH" [OF pop refl g [symmetric] Some] send_turn_frame [OF sd] fr sd by simp
    qed
  qed
qed


section \<open>The lane invariant\<close>

definition in_hand :: "lane \<Rightarrow> nat" where
  "in_hand s = (if task s = HoldsPermit then 1 else 0)"

definition paced :: "nat \<Rightarrow> int list \<Rightarrow> bool" where
  "paced interval = sorted_wrt (\<lambda>later earlier. earlier + int interval \<le> later)"

definition lane_inv :: "nat \<Rightarrow> lane \<Rightarrow> bool" where
  "lane_inv interval s \<longleftrightarrow>
     (dispatcher_running s \<longleftrightarrow> task s \<noteq> NoTask)
     \<and> finite (dom (waiters s))
     \<and> permits s + card (granted s) + in_hand s = OUTBOUND_IN_FLIGHT_CAP
     \<and> (task s \<noteq> NoTask \<and> task s \<noteq> AtTop \<longrightarrow> heap s \<noteq> [])
     \<and> (\<forall>t. task s = Waiting_until t \<longrightarrow> t = last_dispatch s + int interval)
     \<and> (task s = HoldsPermit \<longrightarrow> last_dispatch s + int interval \<le> clock s)
     \<and> paced interval (dispatches s)
     \<and> (\<forall>d \<in> set (dispatches s). d \<le> last_dispatch s)"

lemma finite_granted: "finite (dom (waiters s)) \<Longrightarrow> finite (granted s)"
  by (rule finite_subset [of _ "dom (waiters s)"]) (auto simp: granted_def)

lemma lane_inv_new: "lane_inv (interval_for b) (lane_new b now rls sq)"
  by (simp add: lane_inv_def lane_new_def granted_def in_hand_def paced_def)

lemma lane_inv_drain:
  assumes "lane_inv interval s" and "task s = AtTop"
  shows "lane_inv interval (drain interval utc s)"
  using assms drain_frame [of interval utc s] drain_result [of interval utc s]
  by (auto simp: lane_inv_def in_hand_def)

lemma granted_upd:
  "granted (s\<lparr>waiters := (waiters s)(w \<mapsto> x)\<rparr>) =
     (if x = Granted then insert w (granted s) else granted s - {w})"
  by (auto simp: granted_def)

lemma not_granted: "waiters s w \<noteq> Some Granted \<Longrightarrow> granted s - {w} = granted s"
  by (auto simp: granted_def)

lemma lane_inv_waiter:
  assumes "lane_inv interval s" and "waiters s w \<noteq> Some Granted" and "x \<noteq> Granted"
  shows "lane_inv interval (s\<lparr>waiters := (waiters s)(w \<mapsto> x)\<rparr>)"
  using assms by (simp add: lane_inv_def granted_upd not_granted in_hand_def)

lemma enqueue_cases:
  assumes "enqueue p rl adm w s = (ok, t)"
  obtains (refused) "\<not> ok" "t = s" "\<not> adm" "admission_threshold p \<le> length (heap s)"
  | (pushed) item where "ok" "adm \<or> length (heap s) < admission_threshold p"
      "item = \<lparr>priority = p, seq = next_seq s, turn = w, rl_breaker = rl\<rparr>"
      "t = s\<lparr>heap := heap_push item (heap s), next_seq := next_seq s + 1,
             dispatcher_running := True,
             task := (if dispatcher_running s then task s else AtTop)\<rparr>"
  using assms by (auto simp: enqueue_def Let_def split: if_splits)

lemma lane_inv_enqueue:
  assumes "lane_inv interval s" and "enqueue p rl adm w s = (ok, t)"
  shows "lane_inv interval t \<and> waiters t = waiters s"
  using assms(2)
proof (cases rule: enqueue_cases)
  case refused
  with assms(1) show ?thesis by simp
next
  case (pushed item)
  with assms(1) show ?thesis
    by (auto simp: lane_inv_def in_hand_def heap_push_def)
qed

lemma lane_inv_permit:
  assumes "lane_inv interval s" and "task s = Waiting_until t" and "t \<le> clock s" and "0 < permits s"
  shows "lane_inv interval (s\<lparr>permits := permits s - 1, task := HoldsPermit\<rparr>)"
  using assms by (auto simp: lane_inv_def in_hand_def)

lemma lane_inv_release:
  assumes inv: "lane_inv interval s" and w: "waiters s w = Some Granted"
  shows "lane_inv interval (s\<lparr>permits := permits s + 1, waiters := (waiters s)(w \<mapsto> Released)\<rparr>)"
proof -
  have fin: "finite (granted s)" using inv by (simp add: lane_inv_def finite_granted)
  have mem: "w \<in> granted s" using w by (simp add: granted_def)
  have "granted (s\<lparr>permits := permits s + 1, waiters := (waiters s)(w \<mapsto> Released)\<rparr>)
      = granted s - {w}"
    by (auto simp: granted_def)
  moreover have "card (granted s) = Suc (card (granted s - {w}))"
    by (rule card.remove [OF fin mem])
  ultimately show ?thesis
    using inv by (simp add: lane_inv_def in_hand_def)
qed

text \<open>Phase 3, case by case: rejected, granted, or the waiter is gone.\<close>

lemma grant_cases:
  assumes "grant utc s = Some t"
  obtains (rejected) item rest r s1 ok where
      "heap_pop (heap s) = Some (item, rest)"
      "gate utc (rl_breaker item) (s\<lparr>heap := rest\<rparr>) = (Some r, s1)"
      "send_turn (turn item) (Rejected r) (s1\<lparr>permits := permits s1 + 1, task := AtTop\<rparr>) = (ok, t)"
  | (granted) item rest s1 s2 where
      "heap_pop (heap s) = Some (item, rest)"
      "gate utc (rl_breaker item) (s\<lparr>heap := rest\<rparr>) = (None, s1)"
      "send_turn (turn item) Granted s1 = (True, s2)"
      "t = s2\<lparr>last_dispatch := clock s2, dispatches := clock s2 # dispatches s2, task := AtTop\<rparr>"
  | (gone) item rest s1 s2 where
      "heap_pop (heap s) = Some (item, rest)"
      "gate utc (rl_breaker item) (s\<lparr>heap := rest\<rparr>) = (None, s1)"
      "send_turn (turn item) Granted s1 = (False, s2)"
      "t = s2\<lparr>permits := permits s2 + 1, task := AtTop\<rparr>"
proof -
  obtain item rest where pop: "heap_pop (heap s) = Some (item, rest)"
    using assms by (auto simp: grant_def split: option.splits)
  obtain r s1 where g: "gate utc (rl_breaker item) (s\<lparr>heap := rest\<rparr>) = (r, s1)" by fastforce
  show thesis
  proof (cases r)
    case None
    obtain ok s2 where sd: "send_turn (turn item) Granted s1 = (ok, s2)" by fastforce
    with None pop g assms that(2,3) show thesis
      by (cases ok) (auto simp: grant_def)
  next
    case (Some a)
    obtain ok s2 where
      sd: "send_turn (turn item) (Rejected a) (s1\<lparr>permits := permits s1 + 1, task := AtTop\<rparr>) = (ok, s2)"
      by fastforce
    with Some pop g assms that(1) show thesis by (auto simp: grant_def)
  qed
qed

lemma lane_inv_grant:
  assumes inv: "lane_inv interval s" and pc: "task s = HoldsPermit" and g: "grant utc s = Some t"
  shows "lane_inv interval t"
  using g
proof (cases rule: grant_cases)
  case (rejected item rest r s1 ok)
  have "granted s1 = granted s" using gate_frame [OF rejected(2)] by (simp add: granted_def)
  then show ?thesis
    using gate_frame [OF rejected(2)] send_turn_frame [OF rejected(3)] inv pc
    by (auto simp: lane_inv_def in_hand_def)
next
  case (granted item rest s1 s2)
  have g1: "granted s1 = granted s" using gate_frame [OF granted(2)] by (simp add: granted_def)
  have fin: "finite (granted s)" using inv by (simp add: lane_inv_def finite_granted)
  have "card (insert (turn item) (granted s)) = Suc (card (granted s))"
    using send_turn_frame [OF granted(3)] g1 fin by simp
  then show ?thesis
    using gate_frame [OF granted(2)] send_turn_frame [OF granted(3)] inv pc g1 granted(4)
    by (auto simp: lane_inv_def in_hand_def paced_def)
next
  case (gone item rest s1 s2)
  have "granted s1 = granted s" using gate_frame [OF gone(2)] by (simp add: granted_def)
  then show ?thesis
    using gate_frame [OF gone(2)] send_turn_frame [OF gone(3)] inv pc gone(4)
    by (auto simp: lane_inv_def in_hand_def)
qed

lemma lane_inv_dies: "lane_inv interval s \<Longrightarrow> lane_inv interval (task_dies s)"
  by (auto simp: lane_inv_def task_dies_def in_hand_def)

lemma lane_step_inv: "lane_step interval s t \<Longrightarrow> lane_inv interval s \<Longrightarrow> lane_inv interval t"
proof (induction rule: lane_step.induct)
  case (acquire_admitted s w p rl t)
  from lane_inv_enqueue [OF acquire_admitted(3,2)] acquire_admitted(1) show ?case
    by (intro lane_inv_waiter) auto
next
  case (acquire_refused s w p rl t)
  from lane_inv_enqueue [OF acquire_refused(3,2)] acquire_refused(1) show ?case
    by (intro lane_inv_waiter) auto
next
  case (cancel s w)
  then show ?case by (intro lane_inv_waiter) auto
next
  case (dispatcher_drain s utc)
  then show ?case by (simp add: lane_inv_drain)
next
  case (dispatcher_permit s t)
  then show ?case by (blast intro: lane_inv_permit)
next
  case (dispatcher_grant s utc t)
  then show ?case by (blast intro: lane_inv_grant)
next
  case (release s w)
  then show ?case by (blast intro: lane_inv_release)
qed (auto simp: lane_inv_def in_hand_def)

lemma fault_step_inv: "fault_step interval s t \<Longrightarrow> lane_inv interval s \<Longrightarrow> lane_inv interval t"
proof (induction rule: fault_step.induct)
  case (dies s)
  then show ?case by (simp add: lane_inv_dies)
next
  case (dies_torn s item rest)
  obtain ok s1 where sd: "send_turn (turn item) Torn (s\<lparr>heap := rest\<rparr>) = (ok, s1)" by fastforce
  from send_turn_frame [OF sd] dies_torn sd show ?case
    by (auto simp: lane_inv_def task_dies_def in_hand_def)
next
  case (requeue s w p rl t)
  from lane_inv_enqueue [OF requeue(3,2)] requeue(1) show ?case
    by (intro lane_inv_waiter) auto
next
  case (probe s w)
  then show ?case by (auto simp: lane_inv_def in_hand_def)
qed

lemma lane_reach_inv: "lane_reach faults bucket s \<Longrightarrow> lane_inv (interval_for bucket) s"
  by (induction rule: lane_reach.induct) (auto intro: lane_inv_new lane_step_inv fault_step_inv)


section \<open>Lanes whose dispatcher does not die\<close>

definition lane_live :: "lane \<Rightarrow> bool" where
  "lane_live s \<longleftrightarrow> (heap s \<noteq> [] \<longrightarrow> dispatcher_running s) \<and> length (heap s) \<le> QUEUE_TOTAL_CAP"

lemma admission_threshold_le: "admission_threshold p \<le> QUEUE_TOTAL_CAP"
  by (cases p) (simp_all add: QUEUE_TOTAL_CAP_def)

lemma grant_frame:
  assumes "grant utc s = Some t"
  shows "dispatcher_running t = dispatcher_running s \<and> length (heap t) < length (heap s)"
  using assms
proof (cases rule: grant_cases)
  case (rejected item rest r s1 ok)
  from gate_frame [OF rejected(2)] send_turn_frame [OF rejected(3)] heap_pop_length [OF rejected(1)]
  show ?thesis by simp
next
  case (granted item rest s1 s2)
  from gate_frame [OF granted(2)] send_turn_frame [OF granted(3)] heap_pop_length [OF granted(1)]
  show ?thesis by (simp add: granted(4))
next
  case (gone item rest s1 s2)
  from gate_frame [OF gone(2)] send_turn_frame [OF gone(3)] heap_pop_length [OF gone(1)]
  show ?thesis by (simp add: gone(4))
qed

lemma lane_live_enqueue:
  assumes "lane_live s" and "enqueue p rl False w s = (ok, t)"
  shows "lane_live t"
  using assms(2)
proof (cases rule: enqueue_cases)
  case refused
  with assms(1) show ?thesis by simp
next
  case (pushed item)
  with admission_threshold_le [of p] show ?thesis
    by (simp add: lane_live_def heap_push_def)
qed

lemma lane_live_waiters [simp]: "lane_live (s\<lparr>waiters := ws\<rparr>) = lane_live s"
  by (simp add: lane_live_def)

lemma lane_step_live:
  "lane_step interval s t \<Longrightarrow> lane_inv interval s \<Longrightarrow> lane_live s \<Longrightarrow> lane_live t"
proof (induction rule: lane_step.induct)
  case (acquire_admitted s w p rl t)
  then show ?case by (simp add: lane_live_enqueue)
next
  case (acquire_refused s w p rl t)
  then show ?case by (simp add: lane_live_enqueue)
next
  case (dispatcher_drain s utc)
  then show ?case
    using drain_frame [of interval utc s] drain_result [of interval utc s]
    by (auto simp: lane_live_def lane_inv_def)
next
  case (dispatcher_grant s utc t)
  then show ?case
    using grant_frame [OF dispatcher_grant(2)] by (auto simp: lane_live_def lane_inv_def)
qed (auto simp: lane_live_def lane_inv_def)

lemma lane_reach_live: "lane_reach False bucket s \<Longrightarrow> lane_live s"
proof (induction rule: lane_reach.induct)
  case (start now rls sq)
  show ?case by (simp add: lane_live_def lane_new_def)
next
  case (step s t)
  then show ?case using lane_step_live lane_reach_inv by blast
qed simp

section \<open>What a grant says about the heap and the breakers\<close>

lemma breaker_open_retry_None:
  "fst (breaker_open_retry utc b) = None \<longleftrightarrow> fst (current utc b) \<noteq> Open"
  by (auto simp: breaker_open_retry_def split: prod.split circuit_state.split)

lemma gate_None:
  assumes "gate utc rl s = (None, s1)"
  shows "(\<forall>a. rl = Some a \<longrightarrow> fst (current utc (rl_breakers s a)) \<noteq> Open)
    \<and> (\<forall>b. breaker s = Some b \<longrightarrow> fst (current utc b) \<noteq> Open)"
proof -
  obtain r s2 where rl: "gate_rl utc rl s = (r, s2)" by fastforce
  with assms have r: "r = None" and tr: "gate_transport utc s2 = (None, s1)"
    by (auto simp: gate_def split: option.splits)
  have "\<forall>a. rl = Some a \<longrightarrow> fst (breaker_open_retry utc (rl_breakers s a)) = None"
    using rl r by (auto simp: gate_rl_def split: prod.splits)
  moreover have "\<forall>b. breaker s2 = Some b \<longrightarrow> fst (breaker_open_retry utc b) = None"
    using tr by (auto simp: gate_transport_def split: prod.splits)
  moreover have "breaker s2 = breaker s" using gate_rl_frame [OF rl] by simp
  ultimately show ?thesis by (simp add: breaker_open_retry_None)
qed

lemma newly_granted:
  assumes g: "grant utc s = Some t" and w: "w \<in> granted t" "w \<notin> granted s"
  obtains item rest s1 where "heap_pop (heap s) = Some (item, rest)" and "turn item = w"
    and "gate utc (rl_breaker item) (s\<lparr>heap := rest\<rparr>) = (None, s1)"
    and "last_dispatch t = clock s" and "dispatches t = clock s # dispatches s"
  using g
proof (cases rule: grant_cases)
  case (rejected item rest r s1 ok)
  have "granted s1 = granted s" using gate_frame [OF rejected(2)] by (simp add: granted_def)
  with send_turn_frame [OF rejected(3)] w show thesis by simp
next
  case (granted item rest s1 s2)
  have "granted s1 = granted s" using gate_frame [OF granted(2)] by (simp add: granted_def)
  with send_turn_frame [OF granted(3)] w granted(4) have "turn item = w" by simp
  with granted gate_frame [OF granted(2)] send_turn_frame [OF granted(3)] that show thesis
    by simp
next
  case (gone item rest s1 s2)
  have "granted s1 = granted s" using gate_frame [OF gone(2)] by (simp add: granted_def)
  with send_turn_frame [OF gone(3)] w gone(4) show thesis by simp
qed


section \<open>A run that hands out a turn\<close>

text \<open>A caller arrives at a fresh lane at instant 0, and the dispatcher serves it.\<close>

lemma granted_lane_reachable:
  "\<exists>s. lane_reach faults Audible s \<and> waiters s 7 = Some Granted \<and> dispatches s = [0]
     \<and> last_dispatch s = 0"
proof -
  let ?rls = "\<lambda>_. breaker_new (config_for Audible)"
  define s0 where "s0 = lane_new Audible 0 ?rls 0"
  define s1 where "s1 = (snd (enqueue Normal None False 7 s0))\<lparr>waiters := [7 \<mapsto> Awaiting]\<rparr>"
  define s2 where "s2 = drain (interval_for Audible) 0 s1"
  define s3 where "s3 = s2\<lparr>permits := permits s2 - 1, task := HoldsPermit\<rparr>"
  have gate0: "gate 0 None s = (None, s)" if "breaker s = Some (breaker_new (config_for Audible))"
    for s :: lane
    using that by (simp add: gate_def gate_rl_def gate_transport_def breaker_open_retry_def
        current_def current_step_def breaker_new_def)
  have s1: "heap s1 = [\<lparr>priority = Normal, seq = 0, turn = 7, rl_breaker = None\<rparr>]"
    "breaker s1 = Some (breaker_new (config_for Audible))" "task s1 = AtTop"
    "last_dispatch s1 = - int (interval_for Audible)" "clock s1 = 0" "permits s1 = 2"
    "waiters s1 = [7 \<mapsto> Awaiting]" "dispatches s1 = []"
    by (simp_all add: s1_def s0_def enqueue_def Let_def lane_new_def heap_push_def
        OUTBOUND_IN_FLIGHT_CAP_def)
  have s2: "s2 = s1\<lparr>task := Waiting_until 0\<rparr>"
    by (simp add: s2_def drain.simps heap_pop_def gate0 s1)
  have "enqueue Normal None False 7 s0 = (True, snd (enqueue Normal None False 7 s0))"
    by (simp add: enqueue_def Let_def s0_def lane_new_def)
  from acquire_admitted [OF _ this, of "interval_for Audible"]
  have st1: "lane_step (interval_for Audible) s0 s1"
    by (simp add: s1_def s0_def lane_new_def enqueue_def Let_def)
  have st2: "lane_step (interval_for Audible) s1 s2"
    unfolding s2_def by (rule dispatcher_drain) (simp add: s1)
  have st3: "lane_step (interval_for Audible) s2 s3"
    unfolding s3_def by (rule dispatcher_permit [of _ 0]) (simp_all add: s2 s1)
  obtain s4 where s4: "grant 0 s3 = Some s4" "waiters s4 7 = Some Granted" "dispatches s4 = [0]"
    "last_dispatch s4 = 0"
    by (simp add: grant_def heap_pop_def s3_def s2 s1 gate0 send_turn_def)
  have st4: "lane_step (interval_for Audible) s3 s4"
    by (rule dispatcher_grant [OF _ s4(1)]) (simp add: s3_def)
  have "lane_reach faults Audible s4"
    by (rule lane_reach.step [OF lane_reach.step [OF lane_reach.step [OF lane_reach.step
          [OF lane_reach.start]]]]) (use st1 st2 st3 st4 in \<open>simp_all add: s0_def\<close>)
  with s4 show ?thesis by blast
qed

section \<open>Properties of a lane\<close>

text \<open>
  C10 (safety): in every reachable state of a lane, with task deaths, cancellations and any
  interleaving of callers, at most two turns are in flight, and no permit is lost: the free
  permits, the turns in flight and the one the dispatcher holds always add up to the cap.
\<close>

theorem in_flight_never_exceeds_cap:
  assumes "lane_reach faults bucket s"
  shows "card {w. waiters s w = Some Granted} \<le> OUTBOUND_IN_FLIGHT_CAP
    \<and> permits s + card {w. waiters s w = Some Granted}
        + (if task s = HoldsPermit then 1 else 0) = OUTBOUND_IN_FLIGHT_CAP"
  using lane_reach_inv [OF assms] by (auto simp: lane_inv_def granted_def in_hand_def)

theorem in_flight_never_exceeds_cap_witness:
  "\<exists>s :: lane. waiters s 7 = Some Granted \<and> card {w. waiters s w = Some Granted} \<le> 2"
proof -
  obtain s where "lane_reach True Audible s" "waiters s 7 = Some Granted"
    using granted_lane_reachable by blast
  with in_flight_never_exceeds_cap show ?thesis
    by (auto simp: OUTBOUND_IN_FLIGHT_CAP_def)
qed

text \<open>
  C11 (safety): the instants at which turns were handed out on a lane are pairwise at least the
  bucket's interval apart, in every reachable state, also across the death and revival of the
  dispatcher. Rejections and cancelled waiters are not in the list and do not move the clock.
\<close>

theorem dispatches_are_paced:
  assumes "lane_reach faults bucket s"
  shows "sorted_wrt (\<lambda>later earlier. earlier + int (interval_for bucket) \<le> later) (dispatches s)
    \<and> (\<forall>d\<in>set (dispatches s). d \<le> last_dispatch s)
    \<and> (task s = HoldsPermit \<longrightarrow> last_dispatch s + int (interval_for bucket) \<le> clock s)"
  using lane_reach_inv [OF assms] by (auto simp: lane_inv_def paced_def)

theorem dispatches_are_paced_witness:
  "\<exists>s :: lane. dispatches s = [0] \<and> (\<forall>d\<in>set (dispatches s). d \<le> last_dispatch s)"
proof -
  obtain s where "lane_reach True Audible s" "dispatches s = [0]"
    using granted_lane_reachable by blast
  with dispatches_are_paced show ?thesis by blast
qed

text \<open>
  C12 (liveness): the dispatcher's \<^verbatim>\<open>expect\<close> on the heap never fires: whenever it holds a permit the
  heap is non-empty and the grant step is defined. Without task deaths no item is stranded: a
  non-empty heap always has a running dispatcher. With task deaths, a waiter whose item is
  queued while no dispatcher runs can revive one.
\<close>

theorem dispatcher_never_panics_nor_strands:
  assumes "lane_reach faults bucket s"
  shows "(task s = HoldsPermit \<longrightarrow> (\<exists>t. grant utc s = Some t))
    \<and> (\<not> faults \<longrightarrow> heap s \<noteq> [] \<longrightarrow> dispatcher_running s \<and> task s \<noteq> NoTask)
    \<and> (heap s \<noteq> [] \<and> waiters s w = Some Awaiting \<and> \<not> dispatcher_running s \<longrightarrow>
        (\<exists>t. fault_step (interval_for bucket) s t \<and> dispatcher_running t))"
proof (intro conjI impI)
  assume "task s = HoldsPermit"
  with lane_reach_inv [OF assms] have "heap s \<noteq> []" by (simp add: lane_inv_def)
  then obtain item rest where pop: "heap_pop (heap s) = Some (item, rest)"
    using bheap.pop_Some_if [of "heap s"] by auto
  obtain r s1 where "gate utc (rl_breaker item) (s\<lparr>heap := rest\<rparr>) = (r, s1)" by fastforce
  with pop show "\<exists>t. grant utc s = Some t"
    by (cases r) (auto simp: grant_def split: prod.split bool.split)
next
  assume nf: "\<not> faults" and "heap s \<noteq> []"
  with assms have "lane_live s" by (simp add: lane_reach_live)
  with \<open>heap s \<noteq> []\<close> show run: "dispatcher_running s" by (simp add: lane_live_def)
  with lane_reach_inv [OF assms] show "task s \<noteq> NoTask" by (simp add: lane_inv_def)
next
  assume "heap s \<noteq> [] \<and> waiters s w = Some Awaiting \<and> \<not> dispatcher_running s"
  then have "fault_step (interval_for bucket) s (s\<lparr>dispatcher_running := True, task := AtTop\<rparr>)"
    by (intro fault_step.probe [of _ w]) simp_all
  then show "\<exists>t. fault_step (interval_for bucket) s t \<and> dispatcher_running t" by force
qed

theorem dispatcher_never_panics_nor_strands_witness:
  "\<exists>t. lane_step (interval_for Audible) (lane_new Audible 0 (\<lambda>_. breaker_new (config_for Audible)) 0) t
     \<and> heap t \<noteq> [] \<and> dispatcher_running t"
proof -
  let ?s = "lane_new Audible 0 (\<lambda>_. breaker_new (config_for Audible)) 0"
  obtain t where e: "enqueue Low None False 7 ?s = (True, t)" and h: "heap t \<noteq> []"
    by (simp add: enqueue_def lane_new_def heap_push_def)
  have st: "lane_step (interval_for Audible) ?s (t\<lparr>waiters := (waiters t)(7 \<mapsto> Awaiting)\<rparr>)"
    by (rule acquire_admitted [OF _ e]) (simp add: lane_new_def)
  have "lane_reach False Audible (t\<lparr>waiters := (waiters t)(7 \<mapsto> Awaiting)\<rparr>)"
    by (rule lane_reach.step [OF lane_reach.start st])
  from dispatcher_never_panics_nor_strands [OF this] h st show ?thesis by auto
qed

text \<open>
  a turn that is handed out goes to the queued caller that no other queued
  caller precedes: every other one has a lower priority, or the same priority and a sequence
  number that is not smaller (first come, first served). At that moment neither the caller's
  rate-limit breaker nor the lane's transport breaker reads Open, and the pacing clock is set to
  the present instant.
\<close>

theorem grant_highest_priority_first_come:
  assumes "grant utc s = Some t" and "waiters t w = Some Granted" and "waiters s w \<noteq> Some Granted"
  shows "\<exists>item\<in>set (heap s). turn item = w
    \<and> (\<forall>other\<in>set (heap s). priority other < priority item
          \<or> (priority other = priority item \<and> seq item \<le> seq other))
    \<and> (\<forall>a. rl_breaker item = Some a \<longrightarrow> fst (current utc (rl_breakers s a)) \<noteq> Open)
    \<and> (\<forall>b. breaker s = Some b \<longrightarrow> fst (current utc b) \<noteq> Open)
    \<and> last_dispatch t = clock s"
proof -
  have "w \<in> granted t" "w \<notin> granted s" using assms(2,3) by (simp_all add: granted_def)
  from newly_granted [OF assms(1) this] obtain item rest s1 where
    pop: "heap_pop (heap s) = Some (item, rest)" and w: "turn item = w"
    and g: "gate utc (rl_breaker item) (s\<lparr>heap := rest\<rparr>) = (None, s1)"
    and l: "last_dispatch t = clock s" by blast
  have "item \<in> set (heap s)" using bheap.pop_in [OF pop] by simp
  moreover have "priority other < priority item
      \<or> (priority other = priority item \<and> seq item \<le> seq other)" if "other \<in> set (heap s)" for other
    using bheap.pop_greatest [OF pop, of other] that by (auto simp: item_less_def not_less le_less)
  ultimately show ?thesis
    using w l gate_None [OF g] by (intro bexI [of _ item]) auto
qed

theorem grant_highest_priority_first_come_witness:
  "\<exists>t. grant 0 ((lane_new Audible 0 (\<lambda>_. breaker_new (config_for Audible)) 0)
        \<lparr>heap := [\<lparr>priority = Low, seq = 0, turn = 1, rl_breaker = None\<rparr>,
                  \<lparr>priority = High, seq = 1, turn = 2, rl_breaker = None\<rparr>],
         waiters := [1 \<mapsto> Awaiting, 2 \<mapsto> Awaiting]\<rparr>) = Some t
     \<and> waiters t 2 = Some Granted \<and> last_dispatch t = 0"
proof -
  let ?s = "(lane_new Audible 0 (\<lambda>_. breaker_new (config_for Audible)) 0)
        \<lparr>heap := [\<lparr>priority = Low, seq = 0, turn = 1, rl_breaker = None\<rparr>,
                  \<lparr>priority = High, seq = 1, turn = 2, rl_breaker = None\<rparr>],
         waiters := [1 \<mapsto> Awaiting, 2 \<mapsto> Awaiting]\<rparr>"
  obtain t where t: "grant 0 ?s = Some t" "waiters t 2 = Some Granted"
    by (simp add: grant_def heap_pop_def item_less_def less_request_priority_def lane_new_def
        gate_def gate_rl_def gate_transport_def breaker_open_retry_def current_def current_step_def
        breaker_new_def send_turn_def)
  have "waiters ?s 2 \<noteq> Some Granted" by simp
  from grant_highest_priority_first_come [OF t this] have "last_dispatch t = clock ?s" by blast
  with t show ?thesis by (auto simp: lane_new_def)
qed

text \<open>
  admission is the only gate and reserves headroom by priority. While no dispatcher
  task dies, a lane never holds more than 512 pending callers; a caller is refused exactly when
  its priority's threshold is reached, so with room for any caller the most urgent is admitted;
  a refused caller changes nothing, and an admitted one leaves every queued caller in place.
\<close>

theorem admission_is_bounded_and_reserved:
  assumes "lane_reach False bucket s" and "enqueue p rl False w s = (ok, t)"
  shows "length (heap s) \<le> QUEUE_TOTAL_CAP \<and> length (heap t) \<le> QUEUE_TOTAL_CAP
    \<and> (ok \<longleftrightarrow> length (heap s) < admission_threshold p)
    \<and> (\<not> ok \<longrightarrow> t = s)
    \<and> (ok \<longrightarrow> length (heap t) \<le> admission_threshold p
          \<and> mset (heap s) \<subset># mset (heap t) \<and> dispatcher_running t)
    \<and> (\<forall>q rl' w'. p \<le> q \<longrightarrow> ok \<longrightarrow> fst (enqueue q rl' False w' s))"
proof -
  have live: "lane_live s" using assms(1) by (rule lane_reach_live)
  have mono: "p \<le> q \<Longrightarrow> admission_threshold p \<le> admission_threshold q" for q
    by (cases p; cases q; simp add: less_eq_request_priority_def QUEUE_TOTAL_CAP_def)
  have "fst (enqueue q rl' False w' s)" if "length (heap s) < admission_threshold p" "p \<le> q" for q rl' w'
    using that mono [of q] by (simp add: enqueue_def Let_def)
  with assms(2) live lane_live_enqueue [OF live assms(2)] show ?thesis
    by (cases rule: enqueue_cases) (auto simp: lane_live_def heap_push_def)
qed

theorem admission_is_bounded_and_reserved_witness:
  "fst (enqueue Low None False 3 (lane_new Audible 0 (\<lambda>_. breaker_new (config_for Audible)) 0))"
proof -
  let ?s = "lane_new Audible 0 (\<lambda>_. breaker_new (config_for Audible)) 0"
  obtain ok t where e: "enqueue Low None False 3 ?s = (ok, t)" by fastforce
  from admission_is_bounded_and_reserved [OF lane_reach.start e] e show ?thesis
    by (simp add: lane_new_def)
qed

end
