(* ===== verification/LaneRegistry.thy ===== *)
theory LaneRegistry
  imports OutboundQueue "HOL-Library.AList"
begin

text \<open>
  The two registries of \<^verbatim>\<open>OutboundQueue\<close> (\<^verbatim>\<open>crates/livrarr-http/src/outbound_queue.rs\<close>): pace lanes keyed
  by the pace projection of a bucket, and rate-limit breakers keyed by the full bucket. A
  \<^verbatim>\<open>HashMap\<close> is an association list with distinct keys; a \<^verbatim>\<open>BucketHandle\<close> or an \<^verbatim>\<open>Arc\<close>'d breaker is an
  address into a store, so that two registry states can share a lane, as clones of a handle do.
  Each function is what the code does under one hold of the registry lock; callers interleave
  between holds.
\<close>

section \<open>State\<close>

record outbound_queue =
  registry :: "(rate_bucket \<times> nat) list"
  rate_limit_breakers :: "(rate_bucket \<times> nat) list"
  lanes :: "nat \<Rightarrow> lane"
  breakers :: "nat \<Rightarrow> breaker_state"
  next_lane :: nat
  next_breaker :: nat
  seq_counter :: u64

text \<open>
  An empty queue; \<open>seq_counter\<close> is the process-wide \<^verbatim>\<open>SEQ\<close> every lane numbers its items from. The stores hold nothing yet: what they answer at an unused address is never
  read, because every address in a registry is below the next free one.
\<close>

definition queue_new :: "(nat \<Rightarrow> lane) \<Rightarrow> (nat \<Rightarrow> breaker_state) \<Rightarrow> u64 \<Rightarrow> outbound_queue" where
  "queue_new ls bs sq =
     \<lparr>registry = [], rate_limit_breakers = [], lanes = ls, breakers = bs,
      next_lane = 0, next_breaker = 0, seq_counter = sq\<rparr>"

section \<open>Quiescence\<close>

text \<open>
  \<^verbatim>\<open>bucket_handle_is_quiescent\<close>: the permit test comes first, then the heap and the dispatcher flag;
  the breaker is read, and possibly moved to HalfOpen, only when those say idle.
\<close>

definition bucket_handle_is_quiescent :: "int \<Rightarrow> lane \<Rightarrow> bool \<times> lane" where
  "bucket_handle_is_quiescent utc l =
     (if permits l < OUTBOUND_IN_FLIGHT_CAP then (False, l)
      else if \<not> (heap l = [] \<and> \<not> dispatcher_running l) then (False, l)
      else case breaker l of
             None \<Rightarrow> (True, l)
           | Some b \<Rightarrow> (case current utc b of (st, b') \<Rightarrow> (st \<noteq> Open, l\<lparr>breaker := Some b'\<rparr>)))"

definition rate_limit_breaker_is_quiescent :: "int \<Rightarrow> breaker_state \<Rightarrow> bool \<times> breaker_state" where
  "rate_limit_breaker_is_quiescent utc b =
     (case current utc b of (st, b') \<Rightarrow> (st \<noteq> Open, b'))"

text \<open>\<^verbatim>\<open>retain(|_, x| !quiescent(x))\<close> over a registry: reading an entry may change its store cell.\<close>

fun sweep :: "('c \<Rightarrow> bool \<times> 'c) \<Rightarrow> ('k \<times> nat) list \<Rightarrow> (nat \<Rightarrow> 'c) \<Rightarrow> ('k \<times> nat) list \<times> (nat \<Rightarrow> 'c)" where
  "sweep quiescent [] st = ([], st)"
| "sweep quiescent ((k, a) # es) st =
     (case quiescent (st a) of
        (q, c) \<Rightarrow> (case sweep quiescent es (st(a := c)) of
                     (es', st') \<Rightarrow> (if q then es' else (k, a) # es', st')))"

section \<open>Operations\<close>

definition bucket_handle :: "int \<Rightarrow> int \<Rightarrow> rate_bucket \<Rightarrow> outbound_queue \<Rightarrow> nat \<times> outbound_queue" where
  "bucket_handle utc now bucket q =
     (let key = pace_key bucket;
          q1 = (if map_of (registry q) key = None \<and> length (registry q) \<ge> PACE_REGISTRY_CAP
                then (case sweep (bucket_handle_is_quiescent utc) (registry q) (lanes q) of
                        (es, ls) \<Rightarrow> q\<lparr>registry := es, lanes := ls\<rparr>)
                else q)
      in case map_of (registry q1) key of
           Some a \<Rightarrow> (a, q1)
         | None \<Rightarrow> (next_lane q1,
             q1\<lparr>registry := AList.update key (next_lane q1) (registry q1),
                lanes := (lanes q1)(next_lane q1 := lane_new key now (breakers q1) (seq_counter q1)),
                next_lane := Suc (next_lane q1)\<rparr>))"

definition reassert_non_quiescent :: "rate_bucket \<Rightarrow> nat \<Rightarrow> outbound_queue \<Rightarrow> outbound_queue" where
  "reassert_non_quiescent key a q = q\<lparr>registry := AList.update key a (registry q)\<rparr>"

fun fully_resolved :: "rate_bucket \<Rightarrow> bool" where
  "fully_resolved (Indexer _ (Some _)) = True"
| "fully_resolved _ = False"

definition rate_limit_breaker ::
  "int \<Rightarrow> rate_bucket \<Rightarrow> outbound_queue \<Rightarrow> nat option \<times> outbound_queue" where
  "rate_limit_breaker utc bucket q =
     (if \<not> fully_resolved bucket then (None, q)
      else
        let q1 = (if map_of (rate_limit_breakers q) bucket = None
                     \<and> length (rate_limit_breakers q) \<ge> RATE_LIMIT_BREAKER_REGISTRY_CAP
                  then (case sweep (rate_limit_breaker_is_quiescent utc)
                               (rate_limit_breakers q) (breakers q) of
                          (es, bs) \<Rightarrow> q\<lparr>rate_limit_breakers := es, breakers := bs\<rparr>)
                  else q)
        in case map_of (rate_limit_breakers q1) bucket of
             Some a \<Rightarrow> (Some a, q1)
           | None \<Rightarrow> (Some (next_breaker q1),
               q1\<lparr>rate_limit_breakers :=
                    AList.update bucket (next_breaker q1) (rate_limit_breakers q1),
                  breakers := (breakers q1)(next_breaker q1 := breaker_new (config_for bucket)),
                  next_breaker := Suc (next_breaker q1)\<rparr>))"

definition report_outcome ::
  "(nat \<Rightarrow> int option) \<Rightarrow> int \<Rightarrow> int \<Rightarrow> rate_bucket \<Rightarrow> breaker_signal \<Rightarrow> outbound_queue \<Rightarrow> outbound_queue" where
  "report_outcome from_std utc now bucket outcome q =
     (case bucket_handle utc now bucket q of
        (a, q1) \<Rightarrow>
          (case breaker (lanes q1 a) of
             None \<Rightarrow> q1
           | Some b \<Rightarrow> q1\<lparr>lanes := (lanes q1)(a :=
               (lanes q1 a)\<lparr>breaker := Some (apply_signal from_std utc outcome b)\<rparr>)\<rparr>))"

definition report_rate_limit_outcome ::
  "(nat \<Rightarrow> int option) \<Rightarrow> int \<Rightarrow> rate_bucket \<Rightarrow> breaker_signal \<Rightarrow> outbound_queue \<Rightarrow> outbound_queue" where
  "report_rate_limit_outcome from_std utc bucket outcome q =
     (case rate_limit_breaker utc bucket q of
        (None, q1) \<Rightarrow> q1
      | (Some a, q1) \<Rightarrow>
          q1\<lparr>breakers := (breakers q1)(a := apply_signal from_std utc outcome (breakers q1 a))\<rparr>)"

text \<open>
  The parts of \<^verbatim>\<open>acquire\<close> that run between its awaits, each under its own lock: the look-up of the
  lane, the look-up of the rate-limit breaker, the enqueue on the lane found, and the re-assertion
  of that lane in the registry. A lane sees the queue's rate-limit breakers and sequence counter.
  \<^verbatim>\<open>RateBucket::None\<close> gets its turn at once and touches nothing.
\<close>

definition acquire_enqueue ::
  "nat \<Rightarrow> request_priority \<Rightarrow> nat option \<Rightarrow> nat \<Rightarrow> outbound_queue \<Rightarrow> bool \<times> outbound_queue" where
  "acquire_enqueue a p rl w q =
     (case enqueue p rl False w
             ((lanes q a)\<lparr>rl_breakers := breakers q, next_seq := seq_counter q\<rparr>) of
        (ok, l) \<Rightarrow> (ok, q\<lparr>lanes := (lanes q)(a := l), seq_counter := next_seq l\<rparr>))"

definition acquire_admission ::
  "int \<Rightarrow> int \<Rightarrow> rate_bucket \<Rightarrow> request_priority \<Rightarrow> nat \<Rightarrow> outbound_queue \<Rightarrow> (nat option) option \<times> outbound_queue" where
  "acquire_admission utc now bucket p w q =
     (if bucket = NoBucket then (Some None, q)
      else
        case bucket_handle utc now bucket q of
          (a, q1) \<Rightarrow>
            (case rate_limit_breaker utc bucket q1 of
               (rl, q2) \<Rightarrow>
                 (case acquire_enqueue a p rl w q2 of
                    (False, q3) \<Rightarrow> (None, q3)
                  | (True, q3) \<Rightarrow> (Some (Some a), reassert_non_quiescent (pace_key bucket) a q3))))"

section \<open>Sweeping\<close>

text \<open>
  An interface for what the registries ask of a quiescence test: reading an entry that is not
  quiescent changes nothing about it. The sweep then keeps every live entry as it is.
\<close>

lemma sweep_Cons:
  "sweep quiescent ((k, a) # es) st =
     (let r = sweep quiescent es (st(a := snd (quiescent (st a))))
      in (if fst (quiescent (st a)) then fst r else (k, a) # fst r, snd r))"
  by (simp add: case_prod_beta Let_def)

declare sweep.simps(2) [simp del]

locale quiescence =
  fixes quiescent :: "'c \<Rightarrow> bool \<times> 'c"
  assumes live_untouched: "\<not> fst (quiescent c) \<Longrightarrow> snd (quiescent c) = c"
    and quiescent_again: "fst (quiescent c) \<Longrightarrow> fst (quiescent (snd (quiescent c)))"
begin

definition touch :: "(nat \<Rightarrow> 'c) \<Rightarrow> nat \<Rightarrow> nat \<Rightarrow> 'c" where
  "touch st a = st(a := snd (quiescent (st a)))"

lemma sweep_touch:
  "sweep quiescent ((k, a) # es) st =
     (let r = sweep quiescent es (touch st a)
      in (if fst (quiescent (st a)) then fst r else (k, a) # fst r, snd r))"
  by (simp add: sweep_Cons touch_def)

lemma touch_live: "\<not> fst (quiescent (st a)) \<Longrightarrow> touch st b a = st a"
  using live_untouched [of "st a"] by (auto simp: touch_def)

lemma touch_quiescent: "\<not> fst (quiescent (touch st b a)) \<Longrightarrow> \<not> fst (quiescent (st a))"
  using quiescent_again [of "st a"] by (auto simp: touch_def split: if_splits)

lemma sweep_subset: "set (fst (sweep quiescent es st)) \<subseteq> set es"
proof (induction es arbitrary: st)
  case (Cons e es)
  then show ?case by (cases e) (auto simp: sweep_touch Let_def)
qed simp

lemma sweep_length: "length (fst (sweep quiescent es st)) \<le> length es"
proof (induction es arbitrary: st)
  case (Cons e es)
  obtain k a where "e = (k, a)" by (cases e)
  then show ?case
    using Cons [of "touch st a"] by (simp add: sweep_touch Let_def le_SucI)
qed simp

lemma sweep_distinct: "distinct (map fst es) \<Longrightarrow> distinct (map fst (fst (sweep quiescent es st)))"
proof (induction es arbitrary: st)
  case (Cons e es)
  obtain k a where e: "e = (k, a)" by (cases e)
  have "fst ` set (fst (sweep quiescent es (touch st a))) \<subseteq> fst ` set es"
    using sweep_subset by (rule image_mono)
  with Cons e show ?case by (auto simp: sweep_touch Let_def)
qed simp

lemma sweep_keeps_live_cell:
  "\<not> fst (quiescent (st a)) \<Longrightarrow> snd (sweep quiescent es st) a = st a"
proof (induction es arbitrary: st)
  case (Cons e es)
  obtain k b where e: "e = (k, b)" by (cases e)
  have same: "touch st b a = st a" using Cons.prems by (rule touch_live)
  with Cons.IH [of "touch st b"] Cons.prems e show ?case
    by (simp add: sweep_touch Let_def)
qed simp

lemma sweep_keeps_live_entry:
  "\<not> fst (quiescent (st a)) \<Longrightarrow> (k, a) \<in> set es \<Longrightarrow> (k, a) \<in> set (fst (sweep quiescent es st))"
proof (induction es arbitrary: st)
  case (Cons e es)
  obtain k' b where e: "e = (k', b)" by (cases e)
  have same: "touch st b a = st a" using Cons.prems(1) by (rule touch_live)
  show ?case
    using Cons.IH [of "touch st b"] Cons.prems same e by (auto simp: sweep_touch Let_def)
qed simp

lemma sweep_drops_quiescent:
  "(k, a) \<in> set (fst (sweep quiescent es st)) \<Longrightarrow> \<not> fst (quiescent (st a))"
proof (induction es arbitrary: st)
  case (Cons e es)
  obtain k' b where e: "e = (k', b)" by (cases e)
  show ?case
    using Cons.IH [of "touch st b"] Cons.prems e touch_quiescent [of st b a]
    by (auto simp: sweep_touch Let_def split: if_splits)
qed simp

lemma sweep_quiescent_stays:
  "fst (quiescent (st a)) \<Longrightarrow> fst (quiescent (snd (sweep quiescent es st) a))"
proof (induction es arbitrary: st)
  case (Cons e es)
  obtain k b where e: "e = (k, b)" by (cases e)
  have "fst (quiescent (touch st b a))"
    using Cons.prems quiescent_again [of "st a"] by (auto simp: touch_def)
  with Cons.IH [of "touch st b"] e show ?case by (simp add: sweep_touch Let_def)
qed simp

end

lemma current_step_idem: "current_step utc (current_step utc b) = current_step utc b"
  by (auto simp: current_step_def split: option.split)

lemma current_open_same: "fst (current utc b) = Open \<Longrightarrow> snd (current utc b) = b"
  by (auto simp: current_def Let_def current_step_def split: option.splits if_splits)

lemma lane_quiescent_live_untouched:
  "\<not> fst (bucket_handle_is_quiescent utc l) \<Longrightarrow> snd (bucket_handle_is_quiescent utc l) = l"
proof (cases "breaker l")
  case (Some b)
  assume live: "\<not> fst (bucket_handle_is_quiescent utc l)"
  show ?thesis
  proof (cases "fst (current utc b) = Open")
    case True
    then have "current utc b = (Open, b)"
      using current_open_same [of utc b] by (cases "current utc b") simp
    with Some show ?thesis by (simp add: bucket_handle_is_quiescent_def)
  next
    case False
    with live Some show ?thesis
      by (auto simp: bucket_handle_is_quiescent_def split: prod.splits if_splits)
  qed
qed (simp add: bucket_handle_is_quiescent_def)

lemma lane_quiescent_again:
  "fst (bucket_handle_is_quiescent utc l) \<Longrightarrow>
     fst (bucket_handle_is_quiescent utc (snd (bucket_handle_is_quiescent utc l)))"
  by (cases "breaker l")
    (auto simp: bucket_handle_is_quiescent_def current_def Let_def current_step_idem
      split: if_splits)

interpretation lane_quiescence: quiescence "bucket_handle_is_quiescent utc"
  by standard (simp_all add: lane_quiescent_live_untouched lane_quiescent_again)

interpretation breaker_quiescence: quiescence "rate_limit_breaker_is_quiescent utc"
proof (standard, goal_cases)
  case (1 b)
  then show ?case
    using current_open_same [of utc b]
    by (auto simp: rate_limit_breaker_is_quiescent_def split: prod.splits)
next
  case (2 b)
  then show ?case
    by (auto simp: rate_limit_breaker_is_quiescent_def current_def Let_def current_step_idem)
qed

section \<open>Look-ups\<close>

text \<open>
  The registries' invariant: distinct keys, pace keys only in the lane registry, fully resolved
  buckets only in the breaker registry, every address handed out before, and no two buckets on one
  rate-limit breaker.
\<close>

definition registry_wf :: "outbound_queue \<Rightarrow> bool" where
  "registry_wf q \<longleftrightarrow>
     distinct (map fst (registry q)) \<and> distinct (map fst (rate_limit_breakers q)) \<and>
     (\<forall>(k, a)\<in>set (registry q). pace_key k = k \<and> a < next_lane q) \<and>
     (\<forall>(k, a)\<in>set (rate_limit_breakers q). fully_resolved k \<and> a < next_breaker q) \<and>
     distinct (map snd (rate_limit_breakers q))"

abbreviation live_lane :: "int \<Rightarrow> lane \<Rightarrow> bool" where
  "live_lane utc l \<equiv> \<not> fst (bucket_handle_is_quiescent utc l)"

lemma pace_key_idem [simp]: "pace_key (pace_key b) = pace_key b"
  by (cases b) simp_all

text \<open>The two look-ups share one shape: sweep when a new key meets a full table, then insert.\<close>

definition make_room ::
  "('c \<Rightarrow> bool \<times> 'c) \<Rightarrow> nat \<Rightarrow> 'k \<Rightarrow> ('k \<times> nat) list \<Rightarrow> (nat \<Rightarrow> 'c) \<Rightarrow> ('k \<times> nat) list \<times> (nat \<Rightarrow> 'c)" where
  "make_room quiescent cap k es st =
     (if map_of es k = None \<and> length es \<ge> cap then sweep quiescent es st else (es, st))"

context quiescence
begin

lemma room_known: "map_of es k = Some a \<Longrightarrow> make_room quiescent cap k es st = (es, st)"
  by (simp add: make_room_def)

lemma room_subset: "set (fst (make_room quiescent cap k es st)) \<subseteq> set es"
  using sweep_subset [of es st] by (simp add: make_room_def)

lemma room_distinct:
  "distinct (map fst es) \<Longrightarrow> distinct (map fst (fst (make_room quiescent cap k es st)))"
  by (simp add: make_room_def sweep_distinct)

lemma room_keeps_live_cell:
  "\<not> fst (quiescent (st a)) \<Longrightarrow> snd (make_room quiescent cap k es st) a = st a"
  by (simp add: make_room_def sweep_keeps_live_cell)

lemma room_keeps_live:
  assumes "distinct (map fst es)" "map_of es k' = Some a" "\<not> fst (quiescent (st a))"
  shows "map_of (fst (make_room quiescent cap k es st)) k' = Some a"
proof -
  have "(k', a) \<in> set (fst (make_room quiescent cap k es st))"
    unfolding make_room_def
    using sweep_keeps_live_entry [of st a k' es, OF assms(3) map_of_SomeD [OF assms(2)]]
      map_of_SomeD [OF assms(2)]
    by (simp only: fst_conv split: if_split) blast
  then show ?thesis by (rule map_of_is_SomeI [OF room_distinct [OF assms(1)]])
qed

lemma room_None:
  assumes "map_of es k = None"
  shows "map_of (fst (make_room quiescent cap k es st)) k = None"
proof -
  have "fst ` set (fst (make_room quiescent cap k es st)) \<subseteq> fst ` set es"
    using room_subset by (rule image_mono)
  with assms show ?thesis by (auto simp: map_of_eq_None_iff)
qed

lemma room_over_cap:
  assumes "map_of es k = None" "length (fst (make_room quiescent cap k es st)) \<ge> cap"
    "(k', a) \<in> set (fst (make_room quiescent cap k es st))"
  shows "\<not> fst (quiescent (st a))"
  using assms sweep_drops_quiescent [of k' a es st]
  by (auto simp: make_room_def split: if_splits)

lemma room_snd_distinct:
  "distinct (map snd es) \<Longrightarrow> distinct (map snd (fst (make_room quiescent cap k es st)))"
proof -
  have "distinct (map snd es) \<Longrightarrow> distinct (map snd (fst (sweep quiescent es st)))" for st
  proof (induction es arbitrary: st)
    case (Cons e es)
    obtain k a where e: "e = (k, a)" by (cases e)
    have "snd ` set (fst (sweep quiescent es (touch st a))) \<subseteq> snd ` set es"
      using sweep_subset by (rule image_mono)
    with Cons e show ?case by (auto simp: sweep_touch Let_def)
  qed simp
  then show "distinct (map snd es) \<Longrightarrow> ?thesis" by (simp add: make_room_def)
qed

end

lemma bucket_handle_room:
  "bucket_handle utc now bucket q =
     (let key = pace_key bucket;
          r = make_room (bucket_handle_is_quiescent utc) PACE_REGISTRY_CAP key (registry q) (lanes q);
          q1 = q\<lparr>registry := fst r, lanes := snd r\<rparr>
      in case map_of (fst r) key of
           Some a \<Rightarrow> (a, q1)
         | None \<Rightarrow> (next_lane q,
             q1\<lparr>registry := AList.update key (next_lane q) (fst r),
                lanes := (snd r)(next_lane q := lane_new key now (breakers q) (seq_counter q)),
                next_lane := Suc (next_lane q)\<rparr>))"
  by (simp add: bucket_handle_def make_room_def Let_def case_prod_beta cong: option.case_cong)

lemma rate_limit_breaker_room:
  "fully_resolved bucket \<Longrightarrow> rate_limit_breaker utc bucket q =
     (let r = make_room (rate_limit_breaker_is_quiescent utc) RATE_LIMIT_BREAKER_REGISTRY_CAP bucket
                (rate_limit_breakers q) (breakers q);
          q1 = q\<lparr>rate_limit_breakers := fst r, breakers := snd r\<rparr>
      in case map_of (fst r) bucket of
           Some a \<Rightarrow> (Some a, q1)
         | None \<Rightarrow> (Some (next_breaker q),
             q1\<lparr>rate_limit_breakers := AList.update bucket (next_breaker q) (fst r),
                breakers := (snd r)(next_breaker q := breaker_new (config_for bucket)),
                next_breaker := Suc (next_breaker q)\<rparr>))"
  by (simp add: rate_limit_breaker_def make_room_def Let_def case_prod_beta cong: option.case_cong)

lemma set_update_subset: "set (AList.update k v es) \<subseteq> insert (k, v) (set es)"
  by (induction es) auto

lemma length_update: "length (AList.update k v es) = (if map_of es k = None then Suc (length es) else length es)"
  by (induction es) auto

lemma snd_update_fresh:
  "distinct (map snd es) \<Longrightarrow> v \<notin> snd ` set es \<Longrightarrow> distinct (map snd (AList.update k v es))"
proof (induction es)
  case (Cons e es)
  moreover have "snd ` set (AList.update k v es) \<subseteq> insert v (snd ` set es)"
    using set_update_subset [of k v es] by auto
  ultimately show ?case by (cases e) auto
qed simp

text \<open>
  looking a lane up keeps the registry well-formed and answers the lane registered for the
  bucket's pace key. A key already registered gets its own lane and the look-up changes nothing.
  No look-up removes or changes another key's lane that has queued items, a running dispatcher, a
  permit out or an open breaker, and the table exceeds its cap only when every lane but the new
  one is live in that sense.
\<close>

theorem lane_lookup_keeps_live_lanes:
  assumes wf: "registry_wf q" and look: "bucket_handle utc now bucket q = (a, q')"
  shows "registry_wf q' \<and>
    map_of (registry q') (pace_key bucket) = Some a \<and>
    (\<forall>b. map_of (registry q) (pace_key bucket) = Some b \<longrightarrow> a = b \<and> q' = q) \<and>
    (\<forall>k b. map_of (registry q) k = Some b \<and> live_lane utc (lanes q b) \<longrightarrow>
       map_of (registry q') k = Some b \<and> lanes q' b = lanes q b) \<and>
    (length (registry q') > PACE_REGISTRY_CAP \<and> q' \<noteq> q \<longrightarrow>
       (\<forall>(k, b)\<in>set (registry q'). k = pace_key bucket \<or> live_lane utc (lanes q b)))"
proof (cases "map_of (registry q) (pace_key bucket)")
  case (Some b)
  then have "a = b \<and> q' = q"
    using look by (simp add: bucket_handle_room lane_quiescence.room_known)
  with Some wf show ?thesis by simp
next
  case None
  define r where "r = make_room (bucket_handle_is_quiescent utc) PACE_REGISTRY_CAP
                        (pace_key bucket) (registry q) (lanes q)"
  have d: "distinct (map fst (registry q))" using wf by (simp add: registry_wf_def)
  have none: "map_of (fst r) (pace_key bucket) = None"
    unfolding r_def by (rule lane_quiescence.room_None [OF None])
  have a: "a = next_lane q" and
    q': "q' = q\<lparr>registry := AList.update (pace_key bucket) (next_lane q) (fst r),
                lanes := (snd r)(next_lane q := lane_new (pace_key bucket) now (breakers q) (seq_counter q)),
                next_lane := Suc (next_lane q)\<rparr>"
    using look none by (auto simp: bucket_handle_room Let_def r_def [symmetric])
  have sub: "set (fst r) \<subseteq> set (registry q)"
    unfolding r_def by (rule lane_quiescence.room_subset)
  have dr: "distinct (map fst (fst r))"
    unfolding r_def by (rule lane_quiescence.room_distinct [OF d])
  have wf': "registry_wf q'"
    using wf sub dr set_update_subset [of "pace_key bucket" "next_lane q" "fst r"]
    by (fastforce simp: registry_wf_def q' distinct_update)
  have keep: "map_of (registry q') k = Some b \<and> lanes q' b = lanes q b"
    if "map_of (registry q) k = Some b" "live_lane utc (lanes q b)" for k b
  proof -
    have "map_of (fst r) k = Some b"
      unfolding r_def using d that by (rule lane_quiescence.room_keeps_live)
    moreover have "snd r b = lanes q b"
      unfolding r_def using that(2) by (rule lane_quiescence.room_keeps_live_cell)
    moreover have "b < next_lane q"
      using wf map_of_SomeD [OF that(1)] by (auto simp: registry_wf_def)
    ultimately show ?thesis using none by (auto simp: q' update_conv')
  qed
  have over: "k = pace_key bucket \<or> live_lane utc (lanes q b)"
    if "length (registry q') > PACE_REGISTRY_CAP" "(k, b) \<in> set (registry q')" for k b
  proof -
    have "length (fst r) \<ge> PACE_REGISTRY_CAP"
      using that(1) none by (simp add: q' length_update)
    then show ?thesis
      using lane_quiescence.room_over_cap [OF None, of PACE_REGISTRY_CAP utc "lanes q" k b] that(2)
        set_update_subset [of "pace_key bucket" "next_lane q" "fst r"]
      by (auto simp: r_def [symmetric] q')
  qed
  have found: "map_of (registry q') (pace_key bucket) = Some a" by (simp add: q' a update_conv')
  show ?thesis
  proof (intro conjI allI impI ballI)
    show "registry_wf q'" by (rule wf')
  qed (use None keep over found in auto)
qed

definition no_breakers :: "nat \<Rightarrow> breaker_state" where
  "no_breakers _ = breaker_new (config_for OpenLibrary)"

definition fresh_queue :: outbound_queue where
  "fresh_queue = queue_new (\<lambda>_. lane_new NoBucket 0 no_breakers 0) no_breakers 0"

lemma fresh_queue_wf: "registry_wf fresh_queue"
  by (simp add: fresh_queue_def queue_new_def registry_wf_def)

theorem lane_lookup_keeps_live_lanes_witness:
  "map_of (registry (snd (bucket_handle 5 7 (Indexer ''h'' (Some ''1'')) fresh_queue))) (Indexer ''h'' None)
     = Some (fst (bucket_handle 5 7 (Indexer ''h'' (Some ''1'')) fresh_queue))"
  using lane_lookup_keeps_live_lanes
    [OF fresh_queue_wf, of 5 7 "Indexer ''h'' (Some ''1'')"
        "fst (bucket_handle 5 7 (Indexer ''h'' (Some ''1'')) fresh_queue)"
        "snd (bucket_handle 5 7 (Indexer ''h'' (Some ''1'')) fresh_queue)"]
  by simp

section \<open>Rate-limit cooldowns\<close>

text \<open>
  Everything that touches the queue under one lock hold: the parts of \<^verbatim>\<open>acquire\<close>, the two outcome
  reports, and a dispatcher reading a rate-limit breaker. Callers interleave these freely.
\<close>

datatype queue_op =
    LaneLookup int int rate_bucket
  | BreakerLookup int rate_bucket
  | EnqueueOn nat request_priority "nat option" nat
  | Reassert rate_bucket nat
  | Report int int rate_bucket breaker_signal
  | BreakerReport int rate_bucket breaker_signal
  | BreakerRead int nat

fun run_op :: "(nat \<Rightarrow> int option) \<Rightarrow> queue_op \<Rightarrow> outbound_queue \<Rightarrow> outbound_queue" where
  "run_op fs (LaneLookup utc now b) q = snd (bucket_handle utc now b q)"
| "run_op fs (BreakerLookup utc b) q = snd (rate_limit_breaker utc b q)"
| "run_op fs (EnqueueOn a p rl w) q = snd (acquire_enqueue a p rl w q)"
| "run_op fs (Reassert k a) q = reassert_non_quiescent k a q"
| "run_op fs (Report utc now b sig) q = report_outcome fs utc now b sig q"
| "run_op fs (BreakerReport utc b sig) q = report_rate_limit_outcome fs utc b sig q"
| "run_op fs (BreakerRead utc a) q =
     q\<lparr>breakers := (breakers q)(a := snd (breaker_open_retry utc (breakers q a)))\<rparr>"

text \<open>The operation happens before \<open>u\<close> and is not an outcome reported for \<open>b\<close>.\<close>

fun before_and_not_reporting :: "int \<Rightarrow> rate_bucket \<Rightarrow> queue_op \<Rightarrow> bool" where
  "before_and_not_reporting u b (LaneLookup utc _ _) \<longleftrightarrow> utc < u"
| "before_and_not_reporting u b (BreakerLookup utc _) \<longleftrightarrow> utc < u"
| "before_and_not_reporting u b (Report utc _ _ _) \<longleftrightarrow> utc < u"
| "before_and_not_reporting u b (BreakerReport utc b' _) \<longleftrightarrow> utc < u \<and> b' \<noteq> b"
| "before_and_not_reporting u b (BreakerRead utc _) \<longleftrightarrow> utc < u"
| "before_and_not_reporting u b _ \<longleftrightarrow> True"

definition cooling :: "int \<Rightarrow> breaker_state \<Rightarrow> bool" where
  "cooling u br \<longleftrightarrow> state br = Open \<and> open_until br = Some u"

definition breakers_wf :: "outbound_queue \<Rightarrow> bool" where
  "breakers_wf q \<longleftrightarrow>
     distinct (map fst (rate_limit_breakers q)) \<and> distinct (map snd (rate_limit_breakers q)) \<and>
     (\<forall>(k, a)\<in>set (rate_limit_breakers q). a < next_breaker q)"

lemma cooling_current: "cooling u br \<Longrightarrow> utc < u \<Longrightarrow> current utc br = (Open, br)"
  by (simp add: cooling_def current_def current_step_def)

lemma cooling_live: "cooling u br \<Longrightarrow> utc < u \<Longrightarrow> \<not> fst (rate_limit_breaker_is_quiescent utc br)"
  by (simp add: rate_limit_breaker_is_quiescent_def cooling_current)

lemma breaker_lookup_frame:
  assumes wf: "breakers_wf q"
    and look: "rate_limit_breaker utc b' q = (r, q')"
  shows "breakers_wf q' \<and> (\<forall>a. r = Some a \<longrightarrow> map_of (rate_limit_breakers q') b' = Some a) \<and>
    (\<forall>b a u. map_of (rate_limit_breakers q) b = Some a \<and> cooling u (breakers q a) \<and> utc < u \<longrightarrow>
       map_of (rate_limit_breakers q') b = Some a \<and> breakers q' a = breakers q a)"
proof (cases "fully_resolved b'")
  case False
  with look wf show ?thesis by (simp add: rate_limit_breaker_def)
next
  case True
  define t where "t = make_room (rate_limit_breaker_is_quiescent utc)
                        RATE_LIMIT_BREAKER_REGISTRY_CAP b' (rate_limit_breakers q) (breakers q)"
  have d: "distinct (map fst (rate_limit_breakers q))" using wf by (simp add: breakers_wf_def)
  have sub: "set (fst t) \<subseteq> set (rate_limit_breakers q)"
    unfolding t_def by (rule breaker_quiescence.room_subset)
  have dt: "distinct (map fst (fst t))" "distinct (map snd (fst t))"
    unfolding t_def using wf
    by (auto simp: breakers_wf_def breaker_quiescence.room_distinct breaker_quiescence.room_snd_distinct)
  have below: "\<forall>(k, a)\<in>set (fst t). a < next_breaker q"
    using wf sub by (auto simp: breakers_wf_def)
  then have fresh: "next_breaker q \<notin> snd ` set (fst t)" by auto
  have keep: "map_of (fst t) b = Some a \<and> snd t a = breakers q a \<and> a < next_breaker q"
    if "map_of (rate_limit_breakers q) b = Some a" "cooling u (breakers q a)" "utc < u" for b a u
    using breaker_quiescence.room_keeps_live
        [OF d that(1), of utc "breakers q", OF cooling_live [OF that(2,3)]]
      breaker_quiescence.room_keeps_live_cell
        [of utc "breakers q" a, OF cooling_live [OF that(2,3)]]
      wf map_of_SomeD [OF that(1)]
    by (auto simp: t_def breakers_wf_def)
  show ?thesis
  proof (cases "map_of (fst t) b'")
    case (Some a)
    then have "r = Some a" "q' = q\<lparr>rate_limit_breakers := fst t, breakers := snd t\<rparr>"
      using look True by (simp_all add: rate_limit_breaker_room t_def [symmetric])
    with Some keep dt below show ?thesis by (auto simp: breakers_wf_def)
  next
    case None
    then have r: "r = Some (next_breaker q)"
      and q': "q' = q\<lparr>rate_limit_breakers := AList.update b' (next_breaker q) (fst t),
                breakers := (snd t)(next_breaker q := breaker_new (config_for b')),
                next_breaker := Suc (next_breaker q)\<rparr>"
      using look True by (simp_all add: rate_limit_breaker_room t_def [symmetric])
    have "breakers_wf q'"
      using dt fresh below set_update_subset [of b' "next_breaker q" "fst t"]
      by (fastforce simp: breakers_wf_def q' distinct_update snd_update_fresh)
    moreover have "map_of (rate_limit_breakers q') b = Some a \<and> breakers q' a = breakers q a"
      if "map_of (rate_limit_breakers q) b = Some a" "cooling u (breakers q a)" "utc < u" for b a u
      using keep [OF that] None by (auto simp: q' update_conv')
    moreover have "\<forall>a. r = Some a \<longrightarrow> map_of (rate_limit_breakers q') b' = Some a"
      by (simp add: r q' update_conv')
    ultimately show ?thesis by blast
  qed
qed

lemma report_breaker_frame:
  assumes wf: "breakers_wf q" and b: "map_of (rate_limit_breakers q) b = Some a"
    and cool: "cooling u (breakers q a)" and before: "utc < u" and other: "b' \<noteq> b"
  shows "let q' = report_rate_limit_outcome fs utc b' sig q in
    breakers_wf q' \<and> map_of (rate_limit_breakers q') b = Some a \<and> breakers q' a = breakers q a"
proof -
  obtain r q1 where look: "rate_limit_breaker utc b' q = (r, q1)"
    by (cases "rate_limit_breaker utc b' q")
  note frame = breaker_lookup_frame [OF wf look]
  have keep: "map_of (rate_limit_breakers q1) b = Some a" "breakers q1 a = breakers q a"
    using frame b cool before by blast+
  show ?thesis
  proof (cases r)
    case None
    with look keep frame show ?thesis by (simp add: report_rate_limit_outcome_def)
  next
    case (Some a')
    then have "map_of (rate_limit_breakers q1) b' = Some a'" using frame by blast
    moreover have "distinct (map snd (rate_limit_breakers q1))"
      using frame by (simp add: breakers_wf_def)
    ultimately have "a' \<noteq> a"
      using keep(1) other
      by (metis map_of_SomeD eq_key_imp_eq_value distinct_map inj_onD fst_conv snd_conv)
    with Some look keep frame show ?thesis
      by (simp add: report_rate_limit_outcome_def breakers_wf_def Let_def)
  qed
qed

lemma bucket_handle_breakers [simp]:
  "rate_limit_breakers (snd (bucket_handle utc now b q)) = rate_limit_breakers q"
  "breakers (snd (bucket_handle utc now b q)) = breakers q"
  "next_breaker (snd (bucket_handle utc now b q)) = next_breaker q"
  by (simp_all add: bucket_handle_room Let_def split: option.split)

lemma report_outcome_breakers [simp]:
  "rate_limit_breakers (report_outcome fs utc now b sig q) = rate_limit_breakers q"
  "breakers (report_outcome fs utc now b sig q) = breakers q"
  "next_breaker (report_outcome fs utc now b sig q) = next_breaker q"
  by (simp_all add: report_outcome_def case_prod_beta split: option.split)

lemma acquire_enqueue_breakers [simp]:
  "rate_limit_breakers (snd (acquire_enqueue a p rl w q)) = rate_limit_breakers q"
  "breakers (snd (acquire_enqueue a p rl w q)) = breakers q"
  "next_breaker (snd (acquire_enqueue a p rl w q)) = next_breaker q"
  by (simp_all add: acquire_enqueue_def split: prod.split)

lemma run_op_keeps_cooldown:
  assumes "breakers_wf q" "map_of (rate_limit_breakers q) b = Some a" "cooling u (breakers q a)"
    and ok: "before_and_not_reporting u b op"
  shows "breakers_wf (run_op fs op q) \<and>
    map_of (rate_limit_breakers (run_op fs op q)) b = Some a \<and>
    breakers (run_op fs op q) a = breakers q a"
proof (cases op)
  case (BreakerLookup utc b')
  obtain r q' where "rate_limit_breaker utc b' q = (r, q')" by (cases "rate_limit_breaker utc b' q")
  from breaker_lookup_frame [OF assms(1) this] this assms BreakerLookup show ?thesis by auto
next
  case (BreakerReport utc b' sig)
  with ok report_breaker_frame [OF assms(1-3), of utc b' fs sig] show ?thesis
    by (simp add: Let_def)
next
  case (BreakerRead utc a')
  with ok cooling_current [OF assms(3)] assms(1,2) show ?thesis
    by (auto simp: breakers_wf_def breaker_open_retry_def)
qed (use assms in \<open>auto simp: breakers_wf_def reassert_non_quiescent_def\<close>)

text \<open>
  a rate-limit verdict is not forgotten under registry pressure. Once the breaker of an
  indexer is open until \<open>u\<close>, no sequence of look-ups, enqueues, re-assertions, outcome reports of
  other buckets and dispatcher reads that happens before \<open>u\<close> removes it from the registry, replaces
  it, or changes it, however many new indexers it brings.
\<close>

theorem rate_limit_cooldown_is_never_forgotten:
  assumes "breakers_wf q" "map_of (rate_limit_breakers q) b = Some a" "cooling u (breakers q a)"
    and "\<forall>op\<in>set ops. before_and_not_reporting u b op"
  shows "let q' = fold (run_op fs) ops q in
    map_of (rate_limit_breakers q') b = Some a \<and> breakers q' a = breakers q a"
  using assms
proof (induction ops arbitrary: q)
  case (Cons op ops)
  have op: "before_and_not_reporting u b op" using Cons.prems(4) by simp
  note kept = run_op_keeps_cooldown [OF Cons.prems(1-3) op, of fs]
  have "let q' = fold (run_op fs) ops (run_op fs op q) in
      map_of (rate_limit_breakers q') b = Some a \<and> breakers q' a = breakers (run_op fs op q) a"
    using kept Cons.prems(3,4) by (intro Cons.IH) auto
  then show ?case
    using kept by (simp add: Let_def)
qed simp

definition tripped_queue :: outbound_queue where
  "tripped_queue =
     run_op (\<lambda>d. Some (int d))
       (BreakerReport 0 (Indexer ''h'' (Some ''1'')) (TripImmediately None)) fresh_queue"

lemma tripped_queue_breakers:
  "rate_limit_breakers tripped_queue = [(Indexer ''h'' (Some ''1''), 0)]"
  "next_breaker tripped_queue = 1"
  "cooling 60000000000 (breakers tripped_queue 0)"
  by (simp_all add: tripped_queue_def fresh_queue_def queue_new_def report_rate_limit_outcome_def
      rate_limit_breaker_def RATE_LIMIT_BREAKER_REGISTRY_CAP_def breaker_new_def cooling_def
      trip_immediately_def open_breaker_def std_from_secs_def config_for_def nanos_per_sec_def)

theorem rate_limit_cooldown_is_never_forgotten_witness:
  "map_of (rate_limit_breakers
     (fold (run_op (\<lambda>d. Some (int d)))
       [BreakerLookup 5 (Indexer ''h'' (Some ''2'')), BreakerRead 6 0,
        BreakerReport 7 (Indexer ''h'' (Some ''2'')) Success] tripped_queue))
     (Indexer ''h'' (Some ''1'')) = Some 0"
proof -
  have wf: "breakers_wf tripped_queue" by (simp add: breakers_wf_def tripped_queue_breakers)
  have found: "map_of (rate_limit_breakers tripped_queue) (Indexer ''h'' (Some ''1'')) = Some 0"
    by (simp add: tripped_queue_breakers)
  show ?thesis
    using rate_limit_cooldown_is_never_forgotten [OF wf found tripped_queue_breakers(3),
        of "[BreakerLookup 5 (Indexer ''h'' (Some ''2'')), BreakerRead 6 0,
             BreakerReport 7 (Indexer ''h'' (Some ''2'')) Success]" "\<lambda>d. Some (int d)"]
    by (simp add: Let_def)
qed

section \<open>Two live lanes for one key\<close>

text \<open>
  The interleaving of three callers A, B and C: A looks its lane up; C's look-up of a new key
  sweeps the full table; B looks the same key up as A and gets a new lane; B enqueues and
  re-asserts its lane, then A enqueues on its old lane and re-asserts that one.
\<close>

definition interleaved_callers ::
  "int \<Rightarrow> int \<Rightarrow> rate_bucket \<Rightarrow> rate_bucket \<Rightarrow> request_priority \<Rightarrow> outbound_queue \<Rightarrow> nat \<times> nat \<times> outbound_queue" where
  "interleaved_callers utc now k k' p q =
     (case bucket_handle utc now k q of (a, q1) \<Rightarrow>
      case bucket_handle utc now k' q1 of (c, q2) \<Rightarrow>
      case bucket_handle utc now k q2 of (b, q3) \<Rightarrow>
      let q4 = reassert_non_quiescent (pace_key k) b (snd (acquire_enqueue b p None 1 q3));
          q5 = reassert_non_quiescent (pace_key k) a (snd (acquire_enqueue a p None 0 q4))
      in (a, b, q5))"

lemma sweep_all_quiescent:
  assumes "\<forall>(k, a)\<in>set es. fst (bucket_handle_is_quiescent utc (st a))"
  shows "fst (sweep (bucket_handle_is_quiescent utc) es st) = []"
proof (rule ccontr)
  assume "fst (sweep (bucket_handle_is_quiescent utc) es st) \<noteq> []"
  then obtain k a where in': "(k, a) \<in> set (fst (sweep (bucket_handle_is_quiescent utc) es st))"
    by (metis list.set_intros(1) neq_Nil_conv surj_pair)
  then have "(k, a) \<in> set es" using lane_quiescence.sweep_subset by blast
  with lane_quiescence.sweep_drops_quiescent [OF in'] assms show False by auto
qed

lemma quiescent_idle:
  "fst (bucket_handle_is_quiescent utc l) \<Longrightarrow>
     heap l = [] \<and> \<not> dispatcher_running l \<and> permits l \<ge> OUTBOUND_IN_FLIGHT_CAP"
  by (auto simp: bucket_handle_is_quiescent_def split: if_splits)

lemma enqueue_idle:
  assumes "heap l = []" "\<not> dispatcher_running l"
  shows "heap (snd (enqueue p rl False w l)) \<noteq> [] \<and>
    dispatcher_running (snd (enqueue p rl False w l)) \<and>
    permits (snd (enqueue p rl False w l)) = permits l"
  using assms
  by (cases p) (simp_all add: enqueue_def heap_push_def Let_def QUEUE_TOTAL_CAP_def)

text \<open>
  the re-assertion after the push does not keep a lane unique. From every full registry of
  idle lanes, three callers can interleave so that one pace key has two lanes with queued items,
  a running dispatcher and all permits each, the second of them no longer registered: the
  in-flight cap and the pacing interval of the key hold per lane only.
\<close>

theorem interleaved_callers_split_a_lane:
  assumes wf: "registry_wf q" and known: "map_of (registry q) (pace_key k) = Some a"
    and new: "map_of (registry q) (pace_key k') = None"
    and full: "length (registry q) \<ge> PACE_REGISTRY_CAP"
    and idle: "\<forall>(k, a)\<in>set (registry q). fst (bucket_handle_is_quiescent utc (lanes q a))"
  shows "\<exists>b q'. interleaved_callers utc now k k' p q = (a, b, q') \<and> a \<noteq> b \<and>
    (\<forall>x\<in>{a, b}. heap (lanes q' x) \<noteq> [] \<and> dispatcher_running (lanes q' x) \<and>
       permits (lanes q' x) \<ge> OUTBOUND_IN_FLIGHT_CAP) \<and>
    map_of (registry q') (pace_key k) = Some a \<and> b \<notin> snd ` set (registry q')"
proof -
  let ?n = "next_lane q" and ?key = "pace_key k" and ?key' = "pace_key k'"
  let ?st = "snd (sweep (bucket_handle_is_quiescent utc) (registry q) (lanes q))"
  let ?new = "\<lambda>key. lane_new key now (breakers q) (seq_counter q)"
  define q3 where "q3 = q\<lparr>registry := [(?key', ?n), (?key, Suc ?n)],
    lanes := ?st(?n := ?new ?key', Suc ?n := ?new ?key), next_lane := Suc (Suc ?n)\<rparr>"
  have neq: "?key' \<noteq> ?key" using known new by auto
  have a: "a < ?n" using wf map_of_SomeD [OF known] by (auto simp: registry_wf_def)
  have "bucket_handle utc now k q = (a, q)"
    using known by (simp add: bucket_handle_room lane_quiescence.room_known)
  moreover have "bucket_handle utc now k' q =
      (?n, q\<lparr>registry := [(?key', ?n)], lanes := ?st(?n := ?new ?key'), next_lane := Suc ?n\<rparr>)"
    using new full sweep_all_quiescent [OF idle]
    by (simp add: bucket_handle_room make_room_def Let_def)
  moreover have "bucket_handle utc now k
      (q\<lparr>registry := [(?key', ?n)], lanes := ?st(?n := ?new ?key'), next_lane := Suc ?n\<rparr>)
        = (Suc ?n, q3)"
    using neq by (simp add: bucket_handle_room make_room_def Let_def PACE_REGISTRY_CAP_def q3_def)
  moreover define q5 where "q5 = reassert_non_quiescent ?key a (snd (acquire_enqueue a p None 0
        (reassert_non_quiescent ?key (Suc ?n) (snd (acquire_enqueue (Suc ?n) p None 1 q3)))))"
  ultimately have run: "interleaved_callers utc now k k' p q = (a, Suc ?n, q5)"
    by (simp add: interleaved_callers_def)
  have "(pace_key k, a) \<in> set (registry q)" using known by (rule map_of_SomeD)
  with idle have "fst (bucket_handle_is_quiescent utc (?st a))"
    by (intro lane_quiescence.sweep_quiescent_stays) auto
  then have idle_a: "heap (?st a) = []" "\<not> dispatcher_running (?st a)"
      "permits (?st a) \<ge> OUTBOUND_IN_FLIGHT_CAP"
    using quiescent_idle by blast+
  let ?la = "\<lambda>sq. (?st a)\<lparr>rl_breakers := breakers q, next_seq := sq\<rparr>"
  let ?lb = "(?new ?key)\<lparr>rl_breakers := breakers q, next_seq := seq_counter q\<rparr>"
  have la: "lanes q5 a = snd (enqueue p None False 0 (?la (next_seq (snd (enqueue p None False 1 ?lb)))))"
    and lb: "lanes q5 (Suc ?n) = snd (enqueue p None False 1 ?lb)"
    and reg: "registry q5 = [(?key', ?n), (?key, a)]"
    using a neq by (simp_all add: q5_def acquire_enqueue_def reassert_non_quiescent_def q3_def case_prod_beta)
  have live_b: "heap ?lb = []" "\<not> dispatcher_running ?lb" "permits ?lb = OUTBOUND_IN_FLIGHT_CAP"
    by (simp_all add: lane_new_def)
  have "\<forall>x\<in>{a, Suc ?n}. heap (lanes q5 x) \<noteq> [] \<and> dispatcher_running (lanes q5 x) \<and>
       permits (lanes q5 x) \<ge> OUTBOUND_IN_FLIGHT_CAP"
    using enqueue_idle [of ?lb p None 1] live_b enqueue_idle [of "?la sq" p None 0 for sq] idle_a
    by (simp add: la lb)
  with run a neq show ?thesis by (intro exI [of _ "Suc ?n"] exI [of _ q5]) (auto simp: reg)
qed

definition full_queue :: outbound_queue where
  "full_queue = fresh_queue\<lparr>registry := map (\<lambda>i. (Readarr (replicate i CHR ''x''), i)) [0..<256],
     next_lane := 256\<rparr>"

lemma full_queue_wf: "registry_wf full_queue"
  by (auto simp: registry_wf_def full_queue_def fresh_queue_def queue_new_def distinct_map
      o_def inj_on_def dest: arg_cong [where f = length])

lemma full_queue_idle:
  "\<forall>(k, a)\<in>set (registry full_queue). fst (bucket_handle_is_quiescent 0 (lanes full_queue a))"
  by (simp add: full_queue_def fresh_queue_def queue_new_def bucket_handle_is_quiescent_def lane_new_def)

theorem interleaved_callers_split_a_lane_witness:
  "\<exists>b q'. interleaved_callers 0 0 (Readarr ''x'') OpenLibrary Normal full_queue = (1, b, q') \<and> 1 \<noteq> b \<and>
     heap (lanes q' 1) \<noteq> [] \<and> heap (lanes q' b) \<noteq> []"
proof -
  have "(Readarr ''x'', 1) \<in> set (registry full_queue)"
    by (force simp: full_queue_def image_iff intro: bexI [of _ 1])
  then have known: "map_of (registry full_queue) (pace_key (Readarr ''x'')) = Some 1"
    using full_queue_wf by (simp add: registry_wf_def)
  have new: "map_of (registry full_queue) (pace_key OpenLibrary) = None"
    by (auto simp: full_queue_def map_of_eq_None_iff)
  have full: "length (registry full_queue) \<ge> PACE_REGISTRY_CAP"
    by (simp add: full_queue_def PACE_REGISTRY_CAP_def)
  show ?thesis
    using interleaved_callers_split_a_lane [OF full_queue_wf known new full full_queue_idle,
        of 0 Normal]
    by auto
qed

end
