(* ===== verification/Language.thy ===== *)
theory Language
  imports Prelude
begin

text \<open>
  Language tags: the ISO 639-1 normalisation of \<^verbatim>\<open>crates/livrarr-domain/src/normalization.rs\<close> and its
  pass-through wrapper in \<^verbatim>\<open>util.rs\<close>, the supported languages and the English/foreign routing of
  \<^verbatim>\<open>crates/livrarr-external-data/src/language.rs\<close>, and the stored provider policy of
  \<^verbatim>\<open>crates/livrarr-domain/src/services/provider_policy.rs\<close>.

  \<^verbatim>\<open>str::to_lowercase\<close> needs the Unicode case tables and is the parameter \<open>lower\<close>. Two facts of it are
  used: it keeps lower-case ASCII words (\<open>keeps_ascii\<close>), and it neither makes nor removes the subtag
  separators, so that cutting at the first one commutes with it (\<open>keeps_subtags\<close>).
\<close>

section \<open>Tags\<close>

definition is_separator :: "char \<Rightarrow> bool" where
  "is_separator c \<longleftrightarrow> c = CHR ''-'' \<or> c = CHR ''_''"

text \<open>\<^verbatim>\<open>split(['-', '_']).next()\<close>: the text before the first separator.\<close>

definition primary_subtag :: "string \<Rightarrow> string" where
  "primary_subtag s = takeWhile (\<lambda>c. \<not> is_separator c) s"

definition language_names :: "(string \<times> string) list" where
  "language_names =
     [(''en'', ''en''),
      (''english'', ''en''),
      (''eng'', ''en''),
      (''fr'', ''fr''),
      (''french'', ''fr''),
      (''fran'' @ [CHR 0xC3, CHR 0xA7] @ ''ais'', ''fr''),
      (''fra'', ''fr''),
      (''fre'', ''fr''),
      (''de'', ''de''),
      (''german'', ''de''),
      (''deutsch'', ''de''),
      (''deu'', ''de''),
      (''ger'', ''de''),
      (''es'', ''es''),
      (''spanish'', ''es''),
      (''espa'' @ [CHR 0xC3, CHR 0xB1] @ ''ol'', ''es''),
      (''spa'', ''es''),
      (''pl'', ''pl''),
      (''polish'', ''pl''),
      (''polski'', ''pl''),
      (''pol'', ''pl''),
      (''nl'', ''nl''),
      (''dutch'', ''nl''),
      (''nederlands'', ''nl''),
      (''nld'', ''nl''),
      (''dut'', ''nl''),
      (''it'', ''it''),
      (''italian'', ''it''),
      (''italiano'', ''it''),
      (''ita'', ''it''),
      (''pt'', ''pt''),
      (''portuguese'', ''pt''),
      (''portugu'' @ [CHR 0xC3, CHR 0xAA] @ ''s'', ''pt''),
      (''por'', ''pt''),
      (''ja'', ''ja''),
      (''japanese'', ''ja''),
      ([CHR 0xE6, CHR 0x97, CHR 0xA5, CHR 0xE6, CHR 0x9C, CHR 0xAC, CHR 0xE8, CHR 0xAA, CHR 0x9E], ''ja''),
      (''jpn'', ''ja''),
      (''ko'', ''ko''),
      (''korean'', ''ko''),
      ([CHR 0xED, CHR 0x95, CHR 0x9C, CHR 0xEA, CHR 0xB5, CHR 0xAD, CHR 0xEC, CHR 0x96, CHR 0xB4], ''ko''),
      (''kor'', ''ko''),
      (''zh'', ''zh''),
      (''chinese'', ''zh''),
      ([CHR 0xE4, CHR 0xB8, CHR 0xAD, CHR 0xE6, CHR 0x96, CHR 0x87], ''zh''),
      (''zho'', ''zh''),
      (''chi'', ''zh''),
      (''ru'', ''ru''),
      (''russian'', ''ru''),
      ([CHR 0xD1, CHR 0x80, CHR 0xD1, CHR 0x83, CHR 0xD1, CHR 0x81, CHR 0xD1, CHR 0x81, CHR 0xD0, CHR 0xBA, CHR 0xD0, CHR 0xB8, CHR 0xD0, CHR 0xB9], ''ru''),
      (''rus'', ''ru''),
      (''sv'', ''sv''),
      (''swedish'', ''sv''),
      (''svenska'', ''sv''),
      (''swe'', ''sv''),
      (''no'', ''no''),
      (''norwegian'', ''no''),
      (''norsk'', ''no''),
      (''nor'', ''no''),
      (''da'', ''da''),
      (''danish'', ''da''),
      (''dansk'', ''da''),
      (''dan'', ''da''),
      (''fi'', ''fi''),
      (''finnish'', ''fi''),
      (''suomi'', ''fi''),
      (''fin'', ''fi''),
      (''cs'', ''cs''),
      (''czech'', ''cs''),
      ([CHR 0xC4, CHR 0x8D] @ ''e'' @ [CHR 0xC5, CHR 0xA1] @ ''tina'', ''cs''),
      (''ces'', ''cs''),
      (''cze'', ''cs''),
      (''tr'', ''tr''),
      (''turkish'', ''tr''),
      (''t'' @ [CHR 0xC3, CHR 0xBC] @ ''rk'' @ [CHR 0xC3, CHR 0xA7] @ ''e'', ''tr''),
      (''tur'', ''tr''),
      (''ar'', ''ar''),
      (''arabic'', ''ar''),
      ([CHR 0xD8, CHR 0xA7, CHR 0xD9, CHR 0x84, CHR 0xD8, CHR 0xB9, CHR 0xD8, CHR 0xB1, CHR 0xD8, CHR 0xA8, CHR 0xD9, CHR 0x8A, CHR 0xD8, CHR 0xA9], ''ar''),
      (''ara'', ''ar''),
      (''hi'', ''hi''),
      (''hindi'', ''hi''),
      ([CHR 0xE0, CHR 0xA4, CHR 0xB9, CHR 0xE0, CHR 0xA4, CHR 0xBF, CHR 0xE0, CHR 0xA4, CHR 0xA8, CHR 0xE0, CHR 0xA5, CHR 0x8D, CHR 0xE0, CHR 0xA4, CHR 0xA6, CHR 0xE0, CHR 0xA5, CHR 0x80], ''hi''),
      (''hin'', ''hi''),
      (''ro'', ''ro''),
      (''romanian'', ''ro''),
      (''rom'' @ [CHR 0xC3, CHR 0xA2] @ ''n'' @ [CHR 0xC4, CHR 0x83], ''ro''),
      (''ron'', ''ro''),
      (''rum'', ''ro''),
      (''hu'', ''hu''),
      (''hungarian'', ''hu''),
      (''magyar'', ''hu''),
      (''hun'', ''hu'')]"

definition ISO_639_1 :: "string list" where
  "ISO_639_1 =
     [''aa'', ''ab'', ''ae'', ''af'', ''ak'', ''am'', ''an'', ''ar'', ''as'', ''av'', ''ay'', ''az'', ''ba'',
      ''be'', ''bg'', ''bh'', ''bi'', ''bm'', ''bn'', ''bo'', ''br'', ''bs'', ''ca'', ''ce'', ''ch'', ''co'',
      ''cr'', ''cs'', ''cu'', ''cv'', ''cy'', ''da'', ''de'', ''dv'', ''dz'', ''ee'', ''el'', ''en'', ''eo'',
      ''es'', ''et'', ''eu'', ''fa'', ''ff'', ''fi'', ''fj'', ''fo'', ''fr'', ''fy'', ''ga'', ''gd'', ''gl'',
      ''gn'', ''gu'', ''gv'', ''ha'', ''he'', ''hi'', ''ho'', ''hr'', ''ht'', ''hu'', ''hy'', ''hz'', ''ia'',
      ''id'', ''ie'', ''ig'', ''ii'', ''ik'', ''io'', ''is'', ''it'', ''iu'', ''ja'', ''jv'', ''ka'', ''kg'',
      ''ki'', ''kj'', ''kk'', ''kl'', ''km'', ''kn'', ''ko'', ''kr'', ''ks'', ''ku'', ''kv'', ''kw'', ''ky'',
      ''la'', ''lb'', ''lg'', ''li'', ''ln'', ''lo'', ''lt'', ''lu'', ''lv'', ''mg'', ''mh'', ''mi'', ''mk'',
      ''ml'', ''mn'', ''mr'', ''ms'', ''mt'', ''my'', ''na'', ''nb'', ''nd'', ''ne'', ''ng'', ''nl'', ''nn'',
      ''no'', ''nr'', ''nv'', ''ny'', ''oc'', ''oj'', ''om'', ''or'', ''os'', ''pa'', ''pi'', ''pl'', ''ps'',
      ''pt'', ''qu'', ''rm'', ''rn'', ''ro'', ''ru'', ''rw'', ''sa'', ''sc'', ''sd'', ''se'', ''sg'', ''si'',
      ''sk'', ''sl'', ''sm'', ''sn'', ''so'', ''sq'', ''sr'', ''ss'', ''st'', ''su'', ''sv'', ''sw'', ''ta'',
      ''te'', ''tg'', ''th'', ''ti'', ''tk'', ''tl'', ''tn'', ''to'', ''tr'', ''ts'', ''tt'', ''tw'', ''ty'',
      ''ug'', ''uk'', ''ur'', ''uz'', ''ve'', ''vi'', ''vo'', ''wa'', ''wo'', ''xh'', ''yi'', ''yo'', ''za'',
      ''zh'', ''zu'']"

definition normalize_language_tag :: "(string \<Rightarrow> string) \<Rightarrow> string \<Rightarrow> string option" where
  "normalize_language_tag lower raw =
     (let primary = lower (primary_subtag (trim raw)) in
      if primary = [] then None
      else case map_of language_names primary of
             Some code \<Rightarrow> Some code
           | None \<Rightarrow>
               if length primary = 2 \<and> primary \<in> set ISO_639_1 then Some primary else None)"

definition normalize_language :: "(string \<Rightarrow> string) \<Rightarrow> string \<Rightarrow> string" where
  "normalize_language lower lang =
     (case normalize_language_tag lower lang of Some c \<Rightarrow> c | None \<Rightarrow> lower (trim lang))"

definition normalize_language_opt :: "(string \<Rightarrow> string) \<Rightarrow> string option \<Rightarrow> string option" where
  "normalize_language_opt lower lang =
     (case lang of None \<Rightarrow> None
      | Some s \<Rightarrow> if s = [] then None else Some (normalize_language lower s))"

datatype provider_priority_kind = English | Foreign

definition provider_priority :: "(string \<Rightarrow> string) \<Rightarrow> string option \<Rightarrow> provider_priority_kind" where
  "provider_priority lower language =
     (case map_option (\<lambda>l. primary_subtag (lower (trim l))) language of
        None \<Rightarrow> English
      | Some p \<Rightarrow> if p \<in> {''en'', ''eng'', ''english'', []} then English else Foreign)"

section \<open>Supported languages\<close>

record language_info =
  code :: string
  english_name :: string
  provider_name :: string
  provider_type :: string
  requires_llm :: bool

definition SUPPORTED_LANGUAGES :: "language_info list" where
  "SUPPORTED_LANGUAGES =
     [\<lparr>code = ''en'', english_name = ''English'', provider_name = ''OpenLibrary + Hardcover'',
        provider_type = ''api'', requires_llm = False\<rparr>,
      \<lparr>code = ''nl'', english_name = ''Dutch'', provider_name = ''Google Books'',
        provider_type = ''api'', requires_llm = False\<rparr>,
      \<lparr>code = ''fr'', english_name = ''French'', provider_name = ''Google Books'',
        provider_type = ''api'', requires_llm = False\<rparr>,
      \<lparr>code = ''de'', english_name = ''German'', provider_name = ''Google Books'',
        provider_type = ''api'', requires_llm = False\<rparr>,
      \<lparr>code = ''it'', english_name = ''Italian'', provider_name = ''Google Books'',
        provider_type = ''api'', requires_llm = False\<rparr>,
      \<lparr>code = ''ja'', english_name = ''Japanese'', provider_name = ''Google Books'',
        provider_type = ''api'', requires_llm = False\<rparr>,
      \<lparr>code = ''ko'', english_name = ''Korean'', provider_name = ''Google Books'',
        provider_type = ''api'', requires_llm = False\<rparr>,
      \<lparr>code = ''pl'', english_name = ''Polish'', provider_name = ''Google Books'',
        provider_type = ''api'', requires_llm = False\<rparr>,
      \<lparr>code = ''es'', english_name = ''Spanish'', provider_name = ''Google Books'',
        provider_type = ''api'', requires_llm = False\<rparr>]"

definition is_supported_language :: "string \<Rightarrow> bool" where
  "is_supported_language c \<longleftrightarrow> (\<exists>l\<in>set SUPPORTED_LANGUAGES. code l = c)"

definition get_language_info :: "string \<Rightarrow> language_info option" where
  "get_language_info c = List.find (\<lambda>l. code l = c) SUPPORTED_LANGUAGES"

definition language_requires_llm :: "string \<Rightarrow> bool" where
  "language_requires_llm c =
     (case List.find (\<lambda>l. code l = c) SUPPORTED_LANGUAGES of Some l \<Rightarrow> requires_llm l | None \<Rightarrow> False)"

text \<open>
  The loop of \<^verbatim>\<open>validate_languages\<close>: \<open>seen\<close> is the set of codes already kept, \<open>result\<close> the vector. The
  error carries the rejected code (the message is \<^verbatim>\<open>unsupported language code: {code}\<close>).
\<close>

fun validate_loop ::
  "(string \<Rightarrow> string) \<Rightarrow> bool \<Rightarrow> string list \<Rightarrow> string set \<Rightarrow> string list \<Rightarrow> string + string list" where
  "validate_loop lower configured [] seen result = Inr result"
| "validate_loop lower configured (l # ls) seen result =
     (let c = lower (trim l) in
      if c = [] then validate_loop lower configured ls seen result
      else if \<not> is_supported_language c then Inl (''unsupported language code: '' @ c)
      else if c \<noteq> ''en'' \<and> \<not> configured then validate_loop lower configured ls seen result
      else if c \<notin> seen then validate_loop lower configured ls (insert c seen) (result @ [c])
      else validate_loop lower configured ls seen result)"

definition repair_languages_on_read :: "string list \<Rightarrow> string list" where
  "repair_languages_on_read languages =
     (if ''en'' \<notin> set languages then ''en'' # languages else languages)"

definition validate_languages ::
  "(string \<Rightarrow> string) \<Rightarrow> string list \<Rightarrow> bool \<Rightarrow> bool \<Rightarrow> string + string list" where
  "validate_languages lower languages llm_configured google_books_configured =
     (case validate_loop lower (llm_configured \<or> google_books_configured) languages {} [] of
        Inl e \<Rightarrow> Inl e
      | Inr result \<Rightarrow> Inr (if ''en'' \<notin> set result then ''en'' # result else result))"

definition is_llm_configured ::
  "bool \<Rightarrow> string option \<Rightarrow> string option \<Rightarrow> string option \<Rightarrow> bool" where
  "is_llm_configured enabled endpoint api_key model =
     (enabled \<and> (\<exists>s\<in>set_option endpoint. s \<noteq> []) \<and> (\<exists>s\<in>set_option api_key. s \<noteq> [])
      \<and> (\<exists>s\<in>set_option model. s \<noteq> []))"

section \<open>Facts of the case mapping\<close>

definition ascii_word :: "string \<Rightarrow> bool" where
  "ascii_word s \<longleftrightarrow> (\<forall>c\<in>set s. 97 \<le> (of_char c :: nat) \<and> (of_char c :: nat) \<le> 122)"

definition keeps_ascii :: "(string \<Rightarrow> string) \<Rightarrow> bool" where
  "keeps_ascii lower \<longleftrightarrow> (\<forall>s. ascii_word s \<longrightarrow> lower s = s)"

definition keeps_subtags :: "(string \<Rightarrow> string) \<Rightarrow> bool" where
  "keeps_subtags lower \<longleftrightarrow> (\<forall>s. primary_subtag (lower s) = lower (primary_subtag s))"

text \<open>The ASCII case mapping, an instance of both.\<close>

lemma keeps_ascii_ascii: "keeps_ascii to_ascii_lowercase"
  by (auto simp: keeps_ascii_def ascii_word_def to_ascii_lowercase_def ascii_lower_def
      intro!: map_idI)

lemma separator_ascii_lower: "is_separator (ascii_lower c) \<longleftrightarrow> is_separator c"
proof (cases "65 \<le> (of_char c :: nat) \<and> (of_char c :: nat) \<le> 90")
  case True
  then have "of_char (ascii_lower c) = (of_char c :: nat) + 32"
    by (simp add: ascii_lower_def)
  with True show ?thesis
    by (auto simp: is_separator_def dest: arg_cong [where f = "of_char :: char \<Rightarrow> nat"])
qed (auto simp: ascii_lower_def)

lemma keeps_subtags_ascii: "keeps_subtags to_ascii_lowercase"
proof -
  have "takeWhile (\<lambda>c. \<not> is_separator c) (map ascii_lower s) =
      map ascii_lower (takeWhile (\<lambda>c. \<not> is_separator c) s)" for s
    by (simp add: takeWhile_map o_def separator_ascii_lower)
  then show ?thesis by (simp add: keeps_subtags_def primary_subtag_def to_ascii_lowercase_def)
qed

section \<open>Normalisation\<close>

lemma iso_codes_short: "list_all (\<lambda>c. length c = 2 \<and> ascii_word c) ISO_639_1"
  by code_simp

lemma short_names_fixed: "list_all (\<lambda>(k, c). length k = 2 \<longrightarrow> c = k) language_names"
  by code_simp

lemma ws_len_ascii_word: "ascii_word s \<Longrightarrow> ws_len (bytes s) = 0"
  by (cases s) (auto simp: ascii_word_def bytes_def)

lemma ascii_word_drop: "ascii_word s \<Longrightarrow> ascii_word (drop n s)"
  by (auto simp: ascii_word_def dest: in_set_dropD)

lemma trim_ascii_word:
  assumes "ascii_word s"
  shows "trim s = s"
proof -
  have "ws_len (drop n (bytes s)) = 0" for n
    using ws_len_ascii_word [OF ascii_word_drop [OF assms, of n]] by (simp add: bytes_def drop_map)
  then have "ws_len_end s = 0" by (simp add: ws_len_end_def Let_def)
  then have "trim_end s = s" by (subst trim_end.simps) simp
  moreover have "trim_start s = s"
    by (subst trim_start.simps) (simp add: ws_len_ascii_word [OF assms])
  ultimately show ?thesis by (simp add: trim_def)
qed

lemma primary_subtag_ascii_word: "ascii_word s \<Longrightarrow> primary_subtag s = s"
  by (auto simp: primary_subtag_def ascii_word_def is_separator_def takeWhile_eq_all_conv)

lemma language_names_canonical: "list_all (\<lambda>(k, c). c \<in> set ISO_639_1) language_names"
  by code_simp

lemma english_names:
  "list_all (\<lambda>(k, c). c = ''en'' \<longleftrightarrow> k \<in> {''en'', ''eng'', ''english''}) language_names"
  by code_simp

lemma english_names_listed:
  "map_of language_names ''en'' = Some ''en''" "map_of language_names ''eng'' = Some ''en''"
  "map_of language_names ''english'' = Some ''en''"
  by code_simp+

lemma normalized_in_iso:
  assumes "normalize_language_tag lower raw = Some c"
  shows "c \<in> set ISO_639_1"
  using assms language_names_canonical
  by (auto simp: normalize_language_tag_def Let_def list_all_iff dest!: map_of_SomeD
      split: if_splits option.splits)

text \<open>
  normalising a language tag answers nothing or a two-letter ISO 639-1 code, and such a
  code is a fixed point: normalising it again, by either entry point, gives it back. A stored
  language is therefore stable under every later normalisation.
\<close>

theorem normalized_language_is_stable:
  assumes "keeps_ascii lower" and "normalize_language_tag lower raw = Some c"
  shows "length c = 2 \<and> c \<in> set ISO_639_1 \<and> normalize_language_tag lower c = Some c
    \<and> normalize_language lower raw = c \<and> normalize_language lower c = c"
proof -
  have c: "c \<in> set ISO_639_1" by (rule normalized_in_iso [OF assms(2)])
  then have short: "length c = 2" "ascii_word c" using iso_codes_short by (auto simp: list_all_iff)
  have low: "lower c = c" using assms(1) short(2) by (simp add: keeps_ascii_def)
  have "c \<noteq> []" using short(1) by auto
  moreover have "code = c" if "map_of language_names c = Some code" for code
    using map_of_SomeD [OF that] short_names_fixed short(1) by (auto simp: list_all_iff)
  ultimately have "normalize_language_tag lower c = Some c"
    using c short low
    by (simp add: normalize_language_tag_def trim_ascii_word primary_subtag_ascii_word
        split: option.split)
  with c short assms(2) show ?thesis by (simp add: normalize_language_def)
qed

theorem normalized_language_is_stable_witness:
  "normalize_language to_ascii_lowercase (normalize_language to_ascii_lowercase ''  Deutsch-AT '') = ''de''"
proof -
  have tag: "normalize_language_tag to_ascii_lowercase ''  Deutsch-AT '' = Some ''de''" by code_simp
  show ?thesis
    using normalized_language_is_stable [OF keeps_ascii_ascii tag] by simp
qed

text \<open>
  The English/foreign routing agrees with the normalisation, though the two read
  the tag in different orders: a tag the normalisation recognises routes to the English order
  exactly when it normalises to \<^verbatim>\<open>en\<close>, and a tag that is blank or unknown to it routes to the
  English order only when its primary subtag is empty.
\<close>

theorem routing_agrees_with_normalisation:
  assumes "keeps_subtags lower"
  shows "provider_priority lower (Some raw) = English \<longleftrightarrow>
    normalize_language_tag lower raw = Some ''en'' \<or> lower (primary_subtag (trim raw)) = []"
proof -
  define p where "p = lower (primary_subtag (trim raw))"
  have prim: "primary_subtag (lower (trim raw)) = p"
    using assms by (simp add: keeps_subtags_def p_def)
  have named: "map_of language_names p = Some ''en'' \<longleftrightarrow> p \<in> {''en'', ''eng'', ''english''}"
  proof
    assume "map_of language_names p = Some ''en''"
    then have "(p, ''en'') \<in> set language_names" by (rule map_of_SomeD)
    with english_names show "p \<in> {''en'', ''eng'', ''english''}" by (auto simp: list_all_iff)
  next
    assume "p \<in> {''en'', ''eng'', ''english''}"
    then show "map_of language_names p = Some ''en''" using english_names_listed by blast
  qed
  have "normalize_language_tag lower raw = Some ''en'' \<longleftrightarrow> p \<in> {''en'', ''eng'', ''english''}"
  proof (cases "map_of language_names p")
    case None
    then have "p \<noteq> ''en''" using english_names_listed(1) by (metis option.distinct(1))
    with None named show ?thesis
      by (simp add: normalize_language_tag_def p_def [symmetric] Let_def)
  next
    case (Some c)
    have "p \<noteq> []" if "c = ''en''"
      using named Some that by blast
    with Some named show ?thesis
      by (auto simp: normalize_language_tag_def p_def [symmetric] Let_def)
  qed
  then show ?thesis by (auto simp: provider_priority_def prim p_def [symmetric])
qed

theorem routing_agrees_with_normalisation_witness:
  "provider_priority to_ascii_lowercase (Some '' EN-us '') = English"
proof -
  have "normalize_language_tag to_ascii_lowercase '' EN-us '' = Some ''en''" by code_simp
  then show ?thesis
    using routing_agrees_with_normalisation [OF keeps_subtags_ascii, of "'' EN-us ''"] by simp
qed

section \<open>The language setting\<close>

text \<open>The codes that survive: trimmed, lower-cased, not blank, and usable with what is configured.\<close>

definition wanted :: "(string \<Rightarrow> string) \<Rightarrow> bool \<Rightarrow> string list \<Rightarrow> string list" where
  "wanted lower configured ls =
     filter (\<lambda>c. c \<noteq> [] \<and> (c = ''en'' \<or> configured)) (map (\<lambda>l. lower (trim l)) ls)"

lemma validate_loop_Inl:
  "(\<exists>e. validate_loop lower configured ls seen result = Inl e) \<longleftrightarrow>
     (\<exists>l\<in>set ls. lower (trim l) \<noteq> [] \<and> \<not> is_supported_language (lower (trim l)))"
  by (induction lower configured ls seen result rule: validate_loop.induct) (auto simp: Let_def)

lemma validate_loop_Inr:
  assumes "validate_loop lower configured ls seen result = Inr r" and "seen = set result"
    and "distinct result"
  shows "distinct r \<and> set r = set result \<union> set (wanted lower configured ls) \<and> (\<exists>ys. r = result @ ys)"
  using assms
proof (induction lower configured ls seen result rule: validate_loop.induct)
  case (2 lower configured l ls seen result)
  then show ?case
    by (auto simp: Let_def wanted_def split: if_splits)
qed (auto simp: wanted_def)

text \<open>
  validating the language setting fails exactly when some non-blank code is not
  supported; otherwise the result has no duplicates, contains English, consists of supported codes
  only, and holds exactly English and the requested codes that the configured providers can serve.
  A validated list is left alone by the repair on read.
\<close>

theorem validated_languages_are_sound:
  "case validate_languages lower ls llm gb of
     Inl e \<Rightarrow> (\<exists>l\<in>set ls. lower (trim l) \<noteq> [] \<and> \<not> is_supported_language (lower (trim l)))
   | Inr r \<Rightarrow> distinct r \<and> set r = insert ''en'' (set (wanted lower (llm \<or> gb) ls))
       \<and> (\<forall>c\<in>set r. is_supported_language c) \<and> repair_languages_on_read r = r"
proof (cases "validate_loop lower (llm \<or> gb) ls {} []")
  case (Inl e)
  then show ?thesis
    using validate_loop_Inl [of lower "llm \<or> gb" ls "{}" "[]"] by (simp add: validate_languages_def)
next
  case (Inr r)
  have ok: "\<forall>l\<in>set ls. lower (trim l) \<noteq> [] \<longrightarrow> is_supported_language (lower (trim l))"
    using validate_loop_Inl [of lower "llm \<or> gb" ls "{}" "[]"] Inr by auto
  have en: "is_supported_language ''en''" by code_simp
  from validate_loop_Inr [OF Inr] have r: "distinct r" "set r = set (wanted lower (llm \<or> gb) ls)"
    by auto
  then show ?thesis
    using ok en Inr
    by (auto simp: validate_languages_def wanted_def repair_languages_on_read_def)
qed

theorem validated_languages_are_sound_witness:
  "validate_languages to_ascii_lowercase ['' FR'', ''fr'', ''en''] False True = Inr [''fr'', ''en'']
     \<and> repair_languages_on_read [''fr'', ''en''] = [''fr'', ''en'']"
proof -
  have v: "validate_languages to_ascii_lowercase ['' FR'', ''fr'', ''en''] False True = Inr [''fr'', ''en'']"
    by code_simp
  note sound = validated_languages_are_sound [where lower = to_ascii_lowercase
        and ls = "['' FR'', ''fr'', ''en'']" and llm = False and gb = True]
  have "repair_languages_on_read [''fr'', ''en''] = [''fr'', ''en'']"
    using sound unfolding v sum.case by blast
  with v show ?thesis ..
qed

end
