(* ===== verification/ProviderPolicy.thy ===== *)
theory ProviderPolicy
  imports Language
begin

text \<open>
  Provider orders. The metadata providers (\<^verbatim>\<open>enrichment_types.rs\<close>), the stored selection policy by
  language and its start-up gate (\<^verbatim>\<open>services/provider_policy.rs\<close>), the single cover rank table
  (\<^verbatim>\<open>livrarr-enrichment/src/cover_rank.rs\<close>) and the decision whether an offered cover replaces the
  incumbent (\<^verbatim>\<open>cover_resolution.rs\<close>).
\<close>

section \<open>Providers\<close>

datatype metadata_provider =
  Hardcover | OpenLibrary | Goodreads | Audnexus | Llm | Readarr | GoogleBooks | Audible

fun record_key :: "metadata_provider \<Rightarrow> string" where
  "record_key Hardcover = ''hardcover''"
| "record_key OpenLibrary = ''openlibrary''"
| "record_key Goodreads = ''goodreads''"
| "record_key Audnexus = ''audnexus''"
| "record_key Llm = ''llm''"
| "record_key Readarr = ''readarr''"
| "record_key GoogleBooks = ''google_books''"
| "record_key Audible = ''audible''"

text \<open>\<^verbatim>\<open>format!("{provider:?}").to_lowercase()\<close>: the lower-cased constructor name.\<close>

fun debug_lower :: "metadata_provider \<Rightarrow> string" where
  "debug_lower Hardcover = ''hardcover''"
| "debug_lower OpenLibrary = ''openlibrary''"
| "debug_lower Goodreads = ''goodreads''"
| "debug_lower Audnexus = ''audnexus''"
| "debug_lower Llm = ''llm''"
| "debug_lower Readarr = ''readarr''"
| "debug_lower GoogleBooks = ''googlebooks''"
| "debug_lower Audible = ''audible''"

section \<open>The stored policy\<close>

datatype list_kind = EbookList | AudiobookList

record provider_ref =
  ref_provider :: metadata_provider
  ref_rank :: u8

record provider_list =
  entries :: "provider_ref list"

record provider_policy =
  ebook :: provider_list
  audiobook :: provider_list

datatype provider_policy_error =
    DuplicateInList metadata_provider
  | MissingGroup string
  | EmptyList string list_kind

text \<open>\<^verbatim>\<open>ProviderList::new\<close>: entry \<open>i\<close> is compared with the entries before it, in order.\<close>

fun provider_list_check :: "provider_ref list \<Rightarrow> provider_ref list \<Rightarrow> provider_policy_error option" where
  "provider_list_check before [] = None"
| "provider_list_check before (e # es) =
     (if \<exists>b\<in>set before. ref_provider b = ref_provider e then Some (DuplicateInList (ref_provider e))
      else provider_list_check (before @ [e]) es)"

definition provider_list_new :: "provider_ref list \<Rightarrow> provider_policy_error + provider_list" where
  "provider_list_new es =
     (case provider_list_check [] es of Some err \<Rightarrow> Inl err | None \<Rightarrow> Inr \<lparr>entries = es\<rparr>)"

fun list_for :: "provider_policy \<Rightarrow> list_kind \<Rightarrow> provider_list" where
  "list_for p EbookList = ebook p"
| "list_for p AudiobookList = audiobook p"

record provider_policy_snapshot =
  by_language :: "(string \<times> provider_policy) list"
  generic :: provider_policy

definition for_language :: "provider_policy_snapshot \<Rightarrow> string \<Rightarrow> provider_policy" where
  "for_language s language =
     (let key = (if language = [] then ''en'' else language) in
      case map_of (by_language s) key of Some p \<Rightarrow> p | None \<Rightarrow> generic s)"

definition validate_group :: "string \<Rightarrow> provider_policy \<Rightarrow> provider_policy_error option" where
  "validate_group language policy =
     (if entries (list_for policy EbookList) = [] then Some (EmptyList language EbookList)
      else if entries (list_for policy AudiobookList) = [] then Some (EmptyList language AudiobookList)
      else None)"

fun validate_all :: "provider_policy_snapshot \<Rightarrow> string list \<Rightarrow> provider_policy_error option" where
  "validate_all s [] = None"
| "validate_all s (l # ls) =
     (case validate_group l (the (map_of (by_language s) l)) of
        Some err \<Rightarrow> Some err
      | None \<Rightarrow> validate_all s ls)"

definition policy_validate :: "provider_policy_snapshot \<Rightarrow> provider_policy_error option" where
  "policy_validate s =
     (case validate_group ''*'' (generic s) of
        Some err \<Rightarrow> Some err
      | None \<Rightarrow>
          (case map_of (by_language s) ''en'' of
             None \<Rightarrow> Some (MissingGroup ''en'')
           | Some english \<Rightarrow>
               (case validate_group ''en'' english of
                  Some err \<Rightarrow> Some err
                | None \<Rightarrow> validate_all s (sort (map fst (by_language s))))))"

section \<open>Cover ranks\<close>

datatype cover_media_type = Ebook | Audiobook

datatype cover_rank_model = EbookEnglish | EbookForeign | AudiobookRank

definition for_ebook :: "bool \<Rightarrow> cover_rank_model" where
  "for_ebook foreign = (if foreign then EbookForeign else EbookEnglish)"

fun for_media :: "cover_media_type \<Rightarrow> bool \<Rightarrow> cover_rank_model" where
  "for_media Ebook foreign = for_ebook foreign"
| "for_media Audiobook foreign = AudiobookRank"

fun rank_table :: "cover_rank_model \<Rightarrow> metadata_provider list" where
  "rank_table EbookEnglish =
     [Goodreads, Hardcover, GoogleBooks, Readarr, OpenLibrary, Audnexus, Audible]"
| "rank_table EbookForeign =
     [GoogleBooks, Goodreads, Hardcover, Readarr, OpenLibrary, Audnexus, Audible]"
| "rank_table AudiobookRank =
     [Audible, Audnexus, Hardcover, Goodreads, OpenLibrary, GoogleBooks]"

definition rank_index :: "metadata_provider \<Rightarrow> cover_rank_model \<Rightarrow> nat" where
  "rank_index provider model =
     (case position (\<lambda>p. p = provider) (rank_table model) of
        Some i \<Rightarrow> i | None \<Rightarrow> length (rank_table model))"

text \<open>\<^verbatim>\<open>str::contains\<close> on a literal pattern.\<close>

fun str_contains :: "string \<Rightarrow> string \<Rightarrow> bool" where
  "str_contains pat [] \<longleftrightarrow> pat = []"
| "str_contains pat (c # cs) \<longleftrightarrow> take (length pat) (c # cs) = pat \<or> str_contains pat cs"

definition is_shared_amazon_family :: "string \<Rightarrow> bool" where
  "is_shared_amazon_family u \<longleftrightarrow>
     str_contains ''images-amazon'' u \<or> str_contains ''media-amazon'' u \<or> str_contains ''ssl-images-amazon'' u"

definition provider_for_cover_host :: "string \<Rightarrow> metadata_provider option" where
  "provider_for_cover_host url =
     (let u = to_ascii_lowercase url in
      if str_contains ''i.gr-assets.com'' u \<or> is_shared_amazon_family u then Some Goodreads
      else if str_contains ''hardcover.app'' u then Some Hardcover
      else if str_contains ''books.google'' u \<or> str_contains ''googleusercontent'' u then Some GoogleBooks
      else if str_contains ''covers.openlibrary.org'' u then Some OpenLibrary
      else None)"

fun provider_for_cover_host_for_slot ::
  "string \<Rightarrow> cover_media_type \<Rightarrow> metadata_provider option" where
  "provider_for_cover_host_for_slot url Ebook = provider_for_cover_host url"
| "provider_for_cover_host_for_slot url Audiobook =
     (if is_shared_amazon_family (to_ascii_lowercase url) then Some Audible
      else provider_for_cover_host url)"

section \<open>Cover upgrades\<close>

definition is_good_enough :: "u32 \<Rightarrow> u32 \<Rightarrow> bool" where
  "is_good_enough w h \<longleftrightarrow> w \<ge> 400 \<and> h \<ge> 600"

definition provider_from_source_str :: "string \<Rightarrow> metadata_provider option" where
  "provider_from_source_str s =
     (if s = ''goodreads'' then Some Goodreads
      else if s = ''hardcover'' then Some Hardcover
      else if s = ''openlibrary'' then Some OpenLibrary
      else if s = ''audnexus'' then Some Audnexus
      else if s = ''readarr'' then Some Readarr
      else if s = ''googlebooks'' then Some GoogleBooks
      else if s = ''audible'' then Some Audible
      else None)"

text \<open>The closure \<^verbatim>\<open>priority_of\<close>: an unknown source has the rank \<^verbatim>\<open>usize::MAX\<close> (64 bits).\<close>

definition priority_of :: "cover_rank_model \<Rightarrow> string \<Rightarrow> nat" where
  "priority_of model source =
     (case provider_from_source_str source of
        Some p \<Rightarrow> rank_index p model | None \<Rightarrow> 2 ^ 64 - 1)"

definition cover_area :: "u32 \<Rightarrow> u32 \<Rightarrow> u64" where
  "cover_area w h = ucast w * ucast h"

definition should_upgrade_same_tier ::
  "u32 \<Rightarrow> u32 \<Rightarrow> u32 \<Rightarrow> u32 \<Rightarrow> string option \<Rightarrow> string \<Rightarrow> cover_rank_model \<Rightarrow> bool" where
  "should_upgrade_same_tier current_w current_h new_w new_h current_source new_source model =
     (let current_good = is_good_enough current_w current_h;
          new_good = is_good_enough new_w new_h;
          current_src = (case current_source of Some s \<Rightarrow> s | None \<Rightarrow> []) in
      if new_good \<and> \<not> current_good then True
      else if \<not> new_good \<and> current_good then False
      else if new_good \<and> current_good then
        priority_of model new_source < priority_of model current_src
      else
        let new_area = cover_area new_w new_h; current_area = cover_area current_w current_h in
        if new_area \<noteq> current_area then new_area > current_area
        else priority_of model new_source < priority_of model current_src)"

section \<open>The policy gate\<close>

lemma provider_list_check_None:
  "provider_list_check before es = None \<longleftrightarrow>
     distinct (map ref_provider es) \<and> ref_provider ` set before \<inter> ref_provider ` set es = {}"
proof (induction before es rule: provider_list_check.induct)
  case (2 before e es)
  show ?case
  proof (cases "ref_provider e \<in> ref_provider ` set before")
    case True
    then show ?thesis by force
  next
    case False
    then have "\<not> (\<exists>b\<in>set before. ref_provider b = ref_provider e)" by (metis imageI)
    with 2 False show ?thesis by auto
  qed
qed simp

lemma validate_all_None:
  "validate_all s ls = None \<longleftrightarrow> (\<forall>l\<in>set ls. validate_group l (the (map_of (by_language s) l)) = None)"
  by (induction s ls rule: validate_all.induct) (auto split: option.splits)

lemma validate_group_None:
  "validate_group l p = None \<longleftrightarrow> entries (ebook p) \<noteq> [] \<and> entries (audiobook p) \<noteq> []"
  by (simp add: validate_group_def)

definition policy_ok :: "provider_policy \<Rightarrow> bool" where
  "policy_ok p \<longleftrightarrow> entries (ebook p) \<noteq> [] \<and> entries (audiobook p) \<noteq> []"

lemma policy_validate_None:
  "policy_validate s = None \<longleftrightarrow>
     map_of (by_language s) ''en'' \<noteq> None \<and> (\<forall>p\<in>insert (generic s) (ran (map_of (by_language s))). policy_ok p)"
proof -
  have keys: "(\<forall>l\<in>set (map fst (by_language s)). policy_ok (the (map_of (by_language s) l)))
      \<longleftrightarrow> (\<forall>p\<in>ran (map_of (by_language s)). policy_ok p)"
    by (auto simp: ran_def dom_map_of_conv_image_fst [symmetric] domIff
        dest!: spec [where x = "_ :: char list"] bspec)
  have "policy_validate s = None \<longleftrightarrow> policy_ok (generic s)
      \<and> (\<exists>p. map_of (by_language s) ''en'' = Some p \<and> policy_ok p)
      \<and> (\<forall>p\<in>ran (map_of (by_language s)). policy_ok p)"
    unfolding keys [symmetric]
    by (auto simp: policy_validate_def option.case_eq_if validate_all_None validate_group_None policy_ok_def)
  then show ?thesis by (auto intro: ranI)
qed

lemma policy_validate_lists: "policy_validate s = None \<Longrightarrow> policy_ok (for_language s l)"
  by (auto simp: policy_validate_None for_language_def Let_def ranI split: option.splits)

text \<open>
  the start-up gate accepts a policy snapshot exactly when an English group is
  stored and every group, the generic one included, has a non-empty ebook and a non-empty audiobook list;
  then every language, listed or not, blank or not, resolves to a group with two non-empty lists.
\<close>

theorem accepted_policy_answers_every_language:
  "(policy_validate s = None \<longleftrightarrow>
      map_of (by_language s) ''en'' \<noteq> None \<and>
      (\<forall>p\<in>insert (generic s) (ran (map_of (by_language s))). entries (ebook p) \<noteq> [] \<and> entries (audiobook p) \<noteq> []))
   \<and> (policy_validate s = None \<longrightarrow>
      (\<forall>l. entries (ebook (for_language s l)) \<noteq> [] \<and> entries (audiobook (for_language s l)) \<noteq> []))"
  using policy_validate_lists [of s] unfolding policy_validate_None policy_ok_def by blast

definition sample_policy :: provider_policy where
  "sample_policy =
     \<lparr>ebook = \<lparr>entries = [\<lparr>ref_provider = Goodreads, ref_rank = 1\<rparr>]\<rparr>,
      audiobook = \<lparr>entries = [\<lparr>ref_provider = Audible, ref_rank = 1\<rparr>]\<rparr>\<rparr>"

theorem accepted_policy_answers_every_language_witness:
  "entries (audiobook (for_language \<lparr>by_language = [(''en'', sample_policy)], generic = sample_policy\<rparr> ''de'')) \<noteq> []"
proof -
  let ?s = "\<lparr>by_language = [(''en'', sample_policy)], generic = sample_policy\<rparr>"
  have "policy_validate ?s = None" by code_simp
  with accepted_policy_answers_every_language [of ?s] show ?thesis by blast
qed

section \<open>Cover upgrades do not cycle\<close>

text \<open>A cover: its width, its height and the source recorded for it.\<close>

type_synonym cover = "u32 \<times> u32 \<times> string"

fun upgrades :: "cover_rank_model \<Rightarrow> cover \<Rightarrow> cover \<Rightarrow> bool" where
  "upgrades model (w, h, src) (w', h', src') \<longleftrightarrow>
     should_upgrade_same_tier w h w' h' (Some src) src' model"

text \<open>The worth of a cover: above the quality floor first, then area below the floor, then rank.\<close>

fun cover_worth :: "cover_rank_model \<Rightarrow> cover \<Rightarrow> nat \<times> nat \<times> nat" where
  "cover_worth model (w, h, src) =
     (if is_good_enough w h then 1 else 0,
      if is_good_enough w h then 0 else unat w * unat h,
      2 ^ 64 - priority_of model src)"

lemma unat_cover_area: "unat (cover_area w h) = unat w * unat h"
proof -
  have "unat w < 2 ^ 32" "unat h < 2 ^ 32"
    using unsigned_less [of w, where ?'a = nat] unsigned_less [of h, where ?'a = nat] by simp_all
  then have "unat w * unat h < 2 ^ 32 * 2 ^ 32"
    by (intro mult_strict_mono) simp_all
  then show ?thesis
    using \<open>unat w < 2 ^ 32\<close> \<open>unat h < 2 ^ 32\<close>
    by (simp add: cover_area_def unat_word_ariths unsigned_ucast_eq take_bit_nat_eq_self)
qed

lemma priority_of_bound: "priority_of model src < 2 ^ 64"
proof -
  have "rank_index p model \<le> 7" for p
    by (cases p; cases model) (simp_all add: rank_index_def)
  then have "rank_index p model < 2 ^ 64" for p
    by (rule le_less_trans) simp
  then show ?thesis by (simp add: priority_of_def split: option.split)
qed

lemma upgrades_worth: "upgrades model c n \<longleftrightarrow> cover_worth model c < cover_worth model n"
proof -
  obtain w h src w' h' src' where c: "c = (w, h, src)" and n: "n = (w', h', src')"
    by (cases c, cases n) auto
  have "priority_of model src' < priority_of model src \<longleftrightarrow>
      2 ^ 64 - priority_of model src < 2 ^ 64 - priority_of model src'"
    using priority_of_bound [of model src] priority_of_bound [of model src'] by linarith
  then show ?thesis
    by (auto simp: c n should_upgrade_same_tier_def Let_def word_less_nat_alt unat_cover_area
        less_prod_def word_unat_eq_iff)
qed

lemma cover_worth_bound: "cover_worth model c \<in> {..1} \<times> {..2 ^ 64} \<times> {..2 ^ 64}"
proof -
  obtain w h src where c: "c = (w, h, src)" by (cases c)
  have "unat w * unat h < 2 ^ 64"
    using unat_cover_area [of w h] unsigned_less [of "cover_area w h", where ?'a = nat] by simp
  then show ?thesis by (simp add: c)
qed

text \<open>
  C14 (termination): replacing a cover only by one that \<^verbatim>\<open>should_upgrade_same_tier\<close> prefers cannot go
  round in a circle: the decision is the strict lexicographic order of quality floor, area (as
  an exact product, the 64-bit multiplication does not wrap) and provider rank, so no sequence of
  accepted upgrades returns to a cover it left, and every sequence of them ends.
\<close>

theorem cover_upgrades_never_cycle:
  "\<not> (upgrades model)\<^sup>+\<^sup>+ c c \<and> wfP (\<lambda>n c. upgrades model c n)
   \<and> unat (cover_area w h) = unat w * unat h"
proof -
  have up: "(upgrades model)\<^sup>+\<^sup>+ c n \<Longrightarrow> cover_worth model c < cover_worth model n" for c n
  proof (induction rule: tranclp_induct)
    case (step y z)
    then have "cover_worth model y < cover_worth model z" by (simp only: upgrades_worth)
    with step.IH show ?case by (rule less_trans)
  qed (simp only: upgrades_worth)
  have "wf {(n, c). cover_worth model c < cover_worth model n}"
    by (rule wf_upwards_finite [OF _ cover_worth_bound]) simp
  then have "wfP (\<lambda>n c. upgrades model c n)" by (simp add: wfp_def upgrades_worth)
  with up [of c c] unat_cover_area show ?thesis by auto
qed

end
