(* ===== verification/MergeEngine.thy ===== *)
theory MergeEngine
  imports ProviderPolicy
begin

text \<open>
  The field-merge engine, \<^verbatim>\<open>crates/livrarr-enrichment/src/merge_engine.rs\<close>, with the cover choice of
  \<^verbatim>\<open>cover_resolution.rs\<close>: language routing, eligibility by mode, dissent of conflicting and of
  language-incompatible providers, the walk over each field's provider order with locks and
  incumbent rank, and the update, provenance and status it emits.

  A \<^verbatim>\<open>HashMap\<close> of provider results is an association list; the theorems hold for every list with
  distinct keys, that is for every iteration order. \<^verbatim>\<open>f64\<close> values are only copied and printed and
  have an arbitrary type \<open>'f\<close> with its printer \<open>show_f\<close>; \<^verbatim>\<open>i32\<close> values are only copied and printed
  and are integers. Row ids and instants are integers.
\<close>

section \<open>Data\<close>

datatype work_field =
  FTitle | FSortTitle | FSubtitle | FOriginalTitle | FAuthorName | FDescription
  | FYear | FSeriesName | FSeriesPosition | FGenres | FLanguage | FPageCount
  | FDurationSeconds | FPublisher | FPublishDate | FOriginalPublishDate | FOlKey | FHcKey
  | FGrKey | FIsbn13 | FAsin | FNarrator | FNarrationType | FAbridged
  | FRating | FRatingCount | FCoverUrl

fun work_field_name :: "work_field \<Rightarrow> string" where
  "work_field_name FTitle = ''title''"
| "work_field_name FSortTitle = ''sort_title''"
| "work_field_name FSubtitle = ''subtitle''"
| "work_field_name FOriginalTitle = ''original_title''"
| "work_field_name FAuthorName = ''author_name''"
| "work_field_name FDescription = ''description''"
| "work_field_name FYear = ''year''"
| "work_field_name FSeriesName = ''series_name''"
| "work_field_name FSeriesPosition = ''series_position''"
| "work_field_name FGenres = ''genres''"
| "work_field_name FLanguage = ''language''"
| "work_field_name FPageCount = ''page_count''"
| "work_field_name FDurationSeconds = ''duration_seconds''"
| "work_field_name FPublisher = ''publisher''"
| "work_field_name FPublishDate = ''publish_date''"
| "work_field_name FOriginalPublishDate = ''original_publish_date''"
| "work_field_name FOlKey = ''ol_key''"
| "work_field_name FHcKey = ''hc_key''"
| "work_field_name FGrKey = ''gr_key''"
| "work_field_name FIsbn13 = ''isbn13''"
| "work_field_name FAsin = ''asin''"
| "work_field_name FNarrator = ''narrator''"
| "work_field_name FNarrationType = ''narration_type''"
| "work_field_name FAbridged = ''abridged''"
| "work_field_name FRating = ''rating''"
| "work_field_name FRatingCount = ''rating_count''"
| "work_field_name FCoverUrl = ''cover_url''"

datatype provenance_setter = SetProvider | SetUser | SetSystem | SetAutoAdded | SetImported | SetImport

record field_provenance =
  p_user_id :: int
  p_work_id :: int
  p_field :: work_field
  p_source :: "metadata_provider option"
  p_set_at :: int
  p_setter :: provenance_setter
  p_cleared :: bool

datatype outcome_class = Success | NotFound | NotConfigured | WillRetry | PermanentFailure | Conflict

fun can_merge :: "outcome_class \<Rightarrow> bool" where
  "can_merge Success = True"
| "can_merge NotFound = True"
| "can_merge PermanentFailure = True"
| "can_merge _ = False"

datatype enrichment_mode = Background | Manual | HardRefresh

datatype narration_type = Human | Ai | AiAuthorizedReplica | Abridged | Unabridged

datatype enrichment_status = Unenriched | Enriched | Thin | Failed

datatype identity_status = Pending | Confirmed | Provisional | IdentityConflict | NeedsReview | IdentityNotFound

datatype dissent_reason = PayloadMismatch | FieldConflict | LanguageIncompatible

record 'f normalized_work_detail =
  d_title :: "string option"
  d_subtitle :: "string option"
  d_original_title :: "string option"
  d_author_name :: "string option"
  d_description :: "string option"
  d_year :: "int option"
  d_series_name :: "string option"
  d_series_position :: "'f option"
  d_genres :: "string list option"
  d_language :: "string option"
  d_page_count :: "int option"
  d_duration_seconds :: "int option"
  d_publisher :: "string option"
  d_publish_date :: "string option"
  d_original_publish_date :: "string option"
  d_unclassified_publish_date :: "string option"
  d_hc_key :: "string option"
  d_gr_key :: "string option"
  d_gr_work_key :: "string option"
  d_ol_key :: "string option"
  d_isbn_13 :: "string option"
  d_asin :: "string option"
  d_narrator :: "string list option"
  d_narration_type :: "narration_type option"
  d_abridged :: "bool option"
  d_rating :: "'f option"
  d_rating_count :: "int option"
  d_cover_url :: "string option"
  d_additional_isbns :: "string list"
  d_additional_asins :: "string list"

record 'f work =
  w_id :: int
  w_user_id :: int
  w_title :: string
  w_sort_title :: "string option"
  w_subtitle :: "string option"
  w_original_title :: "string option"
  w_author_name :: string
  w_author_id :: "int option"
  w_description :: "string option"
  w_year :: "int option"
  w_series_id :: "int option"
  w_series_name :: "string option"
  w_series_position :: "'f option"
  w_genres :: "string list option"
  w_language :: "string option"
  w_page_count :: "int option"
  w_duration_seconds :: "int option"
  w_publisher :: "string option"
  w_publish_date :: "string option"
  w_original_publish_date :: "string option"
  w_ol_key :: "string option"
  w_hc_key :: "string option"
  w_gr_key :: "string option"
  w_isbn_13 :: "string option"
  w_asin :: "string option"
  w_narrator :: "string list option"
  w_narration_type :: "narration_type option"
  w_abridged :: bool
  w_rating :: "'f option"
  w_rating_count :: "int option"
  w_description_truncated :: bool
  w_enrichment_status :: enrichment_status
  w_identity_status :: identity_status
  w_enriched_at :: "int option"
  w_enrichment_source :: "string option"
  w_cover_url :: "string option"
  w_cover_manual :: bool
  w_cover_source :: "string option"
  w_cover_width :: int
  w_cover_height :: int
  w_audiobook_cover_url :: "string option"
  w_audiobook_cover_source :: "string option"
  w_audiobook_cover_width :: int
  w_audiobook_cover_height :: int
  w_monitor_ebook :: bool
  w_monitor_audiobook :: bool
  w_import_id :: "string option"
  w_added_at :: int

record 'f work_update =
  u_title :: "string option"
  u_subtitle :: "string option"
  u_original_title :: "string option"
  u_author_name :: "string option"
  u_description :: "string option"
  u_year :: "int option"
  u_series_name :: "string option"
  u_series_position :: "'f option"
  u_genres :: "string list option"
  u_language :: "string option"
  u_page_count :: "int option"
  u_duration_seconds :: "int option"
  u_publisher :: "string option"
  u_publish_date :: "string option"
  u_original_publish_date :: "string option"
  u_narrator :: "string list option"
  u_narration_type :: "narration_type option"
  u_abridged :: "bool option"
  u_rating :: "'f option"
  u_rating_count :: "int option"
  u_enrichment_status :: enrichment_status
  u_enrichment_source :: "string option"
  u_cover_url :: "string option"

record 'f reconstructed_outcome =
  outcome_class :: outcome_class
  payload :: "'f normalized_work_detail option"

record priority_model =
  pm_content :: "metadata_provider list"
  pm_description :: "metadata_provider list"
  pm_cover :: "metadata_provider list"
  pm_audio :: "metadata_provider list"

record 'f merge_input =
  current_work :: "'f work"
  current_provenance :: "field_provenance list"
  provider_results :: "(metadata_provider \<times> 'f reconstructed_outcome) list"
  merge_mode :: enrichment_mode
  in_priority_model :: priority_model

record set_field_provenance_request =
  s_user_id :: int
  s_work_id :: int
  s_field :: work_field
  s_source :: "metadata_provider option"
  s_setter :: provenance_setter
  s_cleared :: bool

record cover_resolution =
  cr_url :: string
  cr_source :: string
  cr_media_type :: cover_media_type

record field_dissent =
  fd_work_id :: int
  fd_provider :: string
  fd_field :: string
  fd_offered_value :: string
  fd_winning_value :: "string option"
  fd_reason :: dissent_reason
  fd_merge_generation :: int
  fd_recorded_at :: int

record 'f merge_output =
  o_work_update :: "'f work_update option"
  o_provenance_upserts :: "set_field_provenance_request list"
  o_provenance_deletes :: "work_field list"
  o_enrichment_status :: enrichment_status
  o_enrichment_source :: "string option"
  o_cover_resolution :: "cover_resolution option"
  o_audiobook_cover_resolution :: "cover_resolution option"
  o_dissents :: "field_dissent list"

datatype merge_error = EmptyPriorityModel

section \<open>Provider orders of a merge\<close>

definition english_model :: priority_model where
  "english_model =
     \<lparr>pm_content = [Hardcover, Goodreads, Readarr, OpenLibrary, Audible],
      pm_description = [Hardcover, Goodreads, Readarr, OpenLibrary, Audible],
      pm_cover = rank_table EbookEnglish, pm_audio = rank_table AudiobookRank\<rparr>"

definition foreign_model :: priority_model where
  "foreign_model =
     \<lparr>pm_content = [GoogleBooks, Goodreads, Hardcover, Readarr, OpenLibrary, Audible],
      pm_description = [GoogleBooks, Goodreads, Hardcover, Readarr, OpenLibrary, Audible],
      pm_cover = rank_table EbookForeign, pm_audio = rank_table AudiobookRank\<rparr>"

definition model_for_language :: "(string \<Rightarrow> string) \<Rightarrow> string option \<Rightarrow> priority_model" where
  "model_for_language lower language =
     (case provider_priority lower language of English \<Rightarrow> english_model | Foreign \<Rightarrow> foreign_model)"

definition model_from_policy ::
  "(string \<Rightarrow> string) \<Rightarrow> provider_policy_snapshot \<Rightarrow> string option \<Rightarrow> priority_model" where
  "model_from_policy lower policy language =
     (let foreign = (provider_priority lower language = Foreign);
          key = (case language of
                   Some l \<Rightarrow> if foreign then normalize_language lower l else ''en''
                 | None \<Rightarrow> ''en'');
          group = for_language policy key;
          ordinary = map ref_provider (entries (ebook group))
      in \<lparr>pm_content = ordinary, pm_description = ordinary, pm_cover = rank_table (for_ebook foreign),
          pm_audio = map ref_provider (entries (audiobook group))\<rparr>)"

datatype priority_source = Fixed priority_model | Policy provider_policy_snapshot

fun engine_priority_model :: "(string \<Rightarrow> string) \<Rightarrow> priority_source \<Rightarrow> string option \<Rightarrow> priority_model" where
  "engine_priority_model lower (Fixed model) language = model"
| "engine_priority_model lower (Policy policy) language = model_from_policy lower policy language"

definition is_foreign :: "(string \<Rightarrow> string) \<Rightarrow> 'f work \<Rightarrow> bool" where
  "is_foreign lower w \<longleftrightarrow> provider_priority lower (w_language w) = Foreign"

definition drop_language_incompatible_providers ::
  "(string \<Rightarrow> string) \<Rightarrow> 'f merge_input \<Rightarrow> 'f merge_input" where
  "drop_language_incompatible_providers lower inputs =
     (if is_foreign lower (current_work inputs)
      then inputs\<lparr>provider_results :=
             filter (\<lambda>(p, _). p \<notin> {OpenLibrary, Hardcover}) (provider_results inputs)\<rparr>
      else inputs)"

section \<open>Fields\<close>

datatype category = Content | Description | Cover | Audio

fun field_category :: "work_field \<Rightarrow> category" where
  "field_category FDescription = Description"
| "field_category FCoverUrl = Cover"
| "field_category FDurationSeconds = Audio"
| "field_category FNarrator = Audio"
| "field_category FNarrationType = Audio"
| "field_category FAbridged = Audio"
| "field_category FAsin = Audio"
| "field_category _ = Content"

definition priority_list_for :: "work_field \<Rightarrow> priority_model \<Rightarrow> metadata_provider list" where
  "priority_list_for field pm =
     (case field_category field of
        Content \<Rightarrow> pm_content pm | Description \<Rightarrow> pm_description pm
      | Cover \<Rightarrow> pm_cover pm | Audio \<Rightarrow> pm_audio pm)"

datatype 'f field_value =
    FV_Str "string option"
  | FV_Int "int option"
  | FV_Float "'f option"
  | FV_Bool "bool option"
  | FV_Strings "string list option"
  | FV_NarrationType "narration_type option"

fun fv_is_some :: "'f field_value \<Rightarrow> bool" where
  "fv_is_some (FV_Str v) \<longleftrightarrow> v \<noteq> None"
| "fv_is_some (FV_Int v) \<longleftrightarrow> v \<noteq> None"
| "fv_is_some (FV_Float v) \<longleftrightarrow> \<not> Option.is_none v"
| "fv_is_some (FV_Bool v) \<longleftrightarrow> v \<noteq> None"
| "fv_is_some (FV_Strings v) \<longleftrightarrow> v \<noteq> None"
| "fv_is_some (FV_NarrationType v) \<longleftrightarrow> v \<noteq> None"

definition non_blank :: "string option \<Rightarrow> string option" where
  "non_blank s = (case s of Some v \<Rightarrow> if trim v = [] then None else Some v | None \<Rightarrow> None)"

definition non_empty_vec :: "string list option \<Rightarrow> string list option" where
  "non_empty_vec v = (case v of Some xs \<Rightarrow> if xs = [] then None else Some xs | None \<Rightarrow> None)"

definition non_blank_owned :: "string \<Rightarrow> string option" where
  "non_blank_owned s = (if trim s = [] then None else Some s)"

fun extract_provider_field :: "work_field \<Rightarrow> 'f normalized_work_detail \<Rightarrow> 'f field_value" where
  "extract_provider_field FTitle x = FV_Str (non_blank (d_title x))"
| "extract_provider_field FSortTitle x = FV_Str None"
| "extract_provider_field FSubtitle x = FV_Str (non_blank (d_subtitle x))"
| "extract_provider_field FOriginalTitle x = FV_Str (non_blank (d_original_title x))"
| "extract_provider_field FAuthorName x = FV_Str (non_blank (d_author_name x))"
| "extract_provider_field FDescription x = FV_Str (non_blank (d_description x))"
| "extract_provider_field FYear x = FV_Int (d_year x)"
| "extract_provider_field FSeriesName x = FV_Str (non_blank (d_series_name x))"
| "extract_provider_field FSeriesPosition x = FV_Float (d_series_position x)"
| "extract_provider_field FGenres x = FV_Strings (non_empty_vec (d_genres x))"
| "extract_provider_field FLanguage x = FV_Str (non_blank (d_language x))"
| "extract_provider_field FPageCount x = FV_Int (d_page_count x)"
| "extract_provider_field FDurationSeconds x = FV_Int (d_duration_seconds x)"
| "extract_provider_field FPublisher x = FV_Str (non_blank (d_publisher x))"
| "extract_provider_field FPublishDate x = FV_Str (non_blank (d_publish_date x))"
| "extract_provider_field FOriginalPublishDate x = FV_Str (non_blank (d_original_publish_date x))"
| "extract_provider_field FOlKey x = FV_Str (non_blank (d_ol_key x))"
| "extract_provider_field FHcKey x = FV_Str (non_blank (d_hc_key x))"
| "extract_provider_field FGrKey x = FV_Str (non_blank (d_gr_key x))"
| "extract_provider_field FIsbn13 x = FV_Str (non_blank (d_isbn_13 x))"
| "extract_provider_field FAsin x = FV_Str (non_blank (d_asin x))"
| "extract_provider_field FNarrator x = FV_Strings (non_empty_vec (d_narrator x))"
| "extract_provider_field FNarrationType x = FV_NarrationType (d_narration_type x)"
| "extract_provider_field FAbridged x = FV_Bool (d_abridged x)"
| "extract_provider_field FRating x = FV_Float (d_rating x)"
| "extract_provider_field FRatingCount x = FV_Int (d_rating_count x)"
| "extract_provider_field FCoverUrl x = FV_Str (non_blank (d_cover_url x))"

fun extract_current_field :: "work_field \<Rightarrow> 'f work \<Rightarrow> 'f field_value" where
  "extract_current_field FTitle x = FV_Str (non_blank_owned (w_title x))"
| "extract_current_field FSortTitle x = FV_Str (w_sort_title x)"
| "extract_current_field FSubtitle x = FV_Str (w_subtitle x)"
| "extract_current_field FOriginalTitle x = FV_Str (w_original_title x)"
| "extract_current_field FAuthorName x = FV_Str (non_blank_owned (w_author_name x))"
| "extract_current_field FDescription x = FV_Str (w_description x)"
| "extract_current_field FYear x = FV_Int (w_year x)"
| "extract_current_field FSeriesName x = FV_Str (w_series_name x)"
| "extract_current_field FSeriesPosition x = FV_Float (w_series_position x)"
| "extract_current_field FGenres x = FV_Strings (w_genres x)"
| "extract_current_field FLanguage x = FV_Str (non_blank (w_language x))"
| "extract_current_field FPageCount x = FV_Int (w_page_count x)"
| "extract_current_field FDurationSeconds x = FV_Int (w_duration_seconds x)"
| "extract_current_field FPublisher x = FV_Str (w_publisher x)"
| "extract_current_field FPublishDate x = FV_Str (w_publish_date x)"
| "extract_current_field FOriginalPublishDate x = FV_Str (w_original_publish_date x)"
| "extract_current_field FOlKey x = FV_Str (w_ol_key x)"
| "extract_current_field FHcKey x = FV_Str (w_hc_key x)"
| "extract_current_field FGrKey x = FV_Str (w_gr_key x)"
| "extract_current_field FIsbn13 x = FV_Str (w_isbn_13 x)"
| "extract_current_field FAsin x = FV_Str (w_asin x)"
| "extract_current_field FNarrator x = FV_Strings (w_narrator x)"
| "extract_current_field FNarrationType x = FV_NarrationType (w_narration_type x)"
| "extract_current_field FAbridged x = FV_Bool (Some (w_abridged x))"
| "extract_current_field FRating x = FV_Float (w_rating x)"
| "extract_current_field FRatingCount x = FV_Int (w_rating_count x)"
| "extract_current_field FCoverUrl x = FV_Str (w_cover_url x)"

fun date_offer_allowed :: "work_field \<Rightarrow> metadata_provider \<Rightarrow> 'f normalized_work_detail \<Rightarrow> bool" where
  "date_offer_allowed FYear provider detail =
     (provider \<in> {Hardcover, OpenLibrary}
      \<or> (provider = Goodreads \<and> d_original_publish_date detail \<noteq> None))"
| "date_offer_allowed FOriginalPublishDate provider detail =
     (provider \<in> {Hardcover, OpenLibrary}
      \<or> (provider = Goodreads \<and> d_original_publish_date detail \<noteq> None))"
| "date_offer_allowed FPublishDate provider detail = (provider = GoogleBooks)"
| "date_offer_allowed _ provider detail = True"

definition MERGE_FIELDS :: "work_field list" where
  "MERGE_FIELDS =
     [FTitle, FSubtitle, FOriginalTitle, FAuthorName, FDescription, FYear,
      FSeriesName, FSeriesPosition, FGenres, FLanguage, FPageCount, FDurationSeconds,
      FPublisher, FPublishDate, FOriginalPublishDate, FNarrator, FNarrationType, FAbridged,
      FRating, FRatingCount]"

definition is_language_dissent_field :: "work_field \<Rightarrow> bool" where
  "is_language_dissent_field field \<longleftrightarrow> field_category field \<noteq> Audio"

fun narration_debug :: "narration_type \<Rightarrow> string" where
  "narration_debug Human = ''Human''"
| "narration_debug Ai = ''Ai''"
| "narration_debug AiAuthorizedReplica = ''AiAuthorizedReplica''"
| "narration_debug Abridged = ''Abridged''"
| "narration_debug Unabridged = ''Unabridged''"

fun field_value_text :: "('f \<Rightarrow> string) \<Rightarrow> 'f field_value \<Rightarrow> string option" where
  "field_value_text show_f (FV_Str v) = v"
| "field_value_text show_f (FV_Int v) = map_option show_int v"
| "field_value_text show_f (FV_Float v) = map_option show_f v"
| "field_value_text show_f (FV_Bool v) = map_option (\<lambda>b. if b then ''true'' else ''false'') v"
| "field_value_text show_f (FV_Strings v) = map_option (join '', '') v"
| "field_value_text show_f (FV_NarrationType v) = map_option narration_debug v"

section \<open>Covers\<close>

definition GOODREADS_COVER_CANDIDATES_ENABLED :: bool where
  "GOODREADS_COVER_CANDIDATES_ENABLED = False"

definition cover_candidate_enabled :: "metadata_provider \<Rightarrow> bool" where
  "cover_candidate_enabled p \<longleftrightarrow> p \<noteq> Goodreads \<or> GOODREADS_COVER_CANDIDATES_ENABLED"

definition resolve_cover ::
  "cover_media_type \<Rightarrow> metadata_provider list
     \<Rightarrow> (metadata_provider \<times> 'f normalized_work_detail option) list \<Rightarrow> cover_resolution option" where
  "resolve_cover media_type priority_list eligible =
     find_map (\<lambda>p.
       if \<not> cover_candidate_enabled p then None
       else case map_of eligible p of
              Some (Some detail) \<Rightarrow>
                (case d_cover_url detail of
                   Some url \<Rightarrow>
                     if url = [] then None
                     else Some \<lparr>cr_url = url, cr_source = debug_lower p, cr_media_type = media_type\<rparr>
                 | None \<Rightarrow> None)
            | _ \<Rightarrow> None) priority_list"

section \<open>The merge\<close>

definition mode_eligible :: "enrichment_mode \<Rightarrow> outcome_class \<Rightarrow> bool" where
  "mode_eligible mode cls = (case mode of Background \<Rightarrow> can_merge cls | _ \<Rightarrow> cls \<noteq> Conflict)"

definition eligible_providers ::
  "'f merge_input \<Rightarrow> (metadata_provider \<times> 'f normalized_work_detail option) list" where
  "eligible_providers inputs =
     map (\<lambda>(p, oc). (p, payload oc))
       (filter (\<lambda>(_, oc). mode_eligible (merge_mode inputs) (outcome_class oc)) (provider_results inputs))"

text \<open>Collecting into a \<^verbatim>\<open>HashMap\<close> keeps the last row of a field.\<close>

definition prov_map :: "field_provenance list \<Rightarrow> work_field \<rightharpoonup> field_provenance" where
  "prov_map ps = map_of (rev (map (\<lambda>fp. (p_field fp, fp)) ps))"

type_synonym dissent_seed = "metadata_provider \<times> work_field \<times> string \<times> dissent_reason"

definition offered_seeds ::
  "('f \<Rightarrow> string) \<Rightarrow> dissent_reason \<Rightarrow> work_field list \<Rightarrow> metadata_provider \<Rightarrow> 'f normalized_work_detail
     \<Rightarrow> dissent_seed list" where
  "offered_seeds show_f reason fs p detail =
     concat (map (\<lambda>f. case field_value_text show_f (extract_provider_field f detail) of
                        Some offered \<Rightarrow> [(p, f, offered, reason)] | None \<Rightarrow> []) fs)"

definition conflict_seeds :: "('f \<Rightarrow> string) \<Rightarrow> 'f merge_input \<Rightarrow> dissent_seed list" where
  "conflict_seeds show_f inputs =
     concat (map (\<lambda>(p, oc).
       if outcome_class oc \<noteq> Conflict then []
       else case payload oc of
              None \<Rightarrow> []
            | Some detail \<Rightarrow> offered_seeds show_f PayloadMismatch MERGE_FIELDS p detail)
       (provider_results inputs))"

definition language_incompatible ::
  "(string \<Rightarrow> string) \<Rightarrow> 'f work \<Rightarrow> (metadata_provider \<times> 'f normalized_work_detail option) list
     \<Rightarrow> metadata_provider list" where
  "language_incompatible lower w eligible =
     (if is_foreign lower w then
        map fst (filter (\<lambda>(_, detail).
          case detail of
            None \<Rightarrow> False
          | Some d \<Rightarrow>
              (case non_blank (d_language d) of
                 None \<Rightarrow> False
               | Some l \<Rightarrow>
                   Some (normalize_language lower l) \<noteq> map_option (normalize_language lower) (w_language w)))
          eligible)
      else [])"

definition language_seeds ::
  "('f \<Rightarrow> string) \<Rightarrow> (metadata_provider \<times> 'f normalized_work_detail option) list
     \<Rightarrow> metadata_provider list \<Rightarrow> dissent_seed list" where
  "language_seeds show_f eligible incompatible =
     concat (map (\<lambda>p. case map_of eligible p of
         Some (Some detail) \<Rightarrow>
           offered_seeds show_f LanguageIncompatible (filter is_language_dissent_field MERGE_FIELDS) p detail
       | _ \<Rightarrow> []) incompatible)"

text \<open>The inner loop of step 4c: the first provider of the field's list with a usable offer.\<close>

definition field_winner ::
  "metadata_provider list \<Rightarrow> (metadata_provider \<times> 'f normalized_work_detail option) list
     \<Rightarrow> metadata_provider list \<Rightarrow> work_field \<Rightarrow> (metadata_provider \<times> 'f field_value) option" where
  "field_winner priority_list eligible incompatible field =
     find_map (\<lambda>p.
       if is_language_dissent_field field \<and> p \<in> set incompatible then None
       else case map_of eligible p of
              Some (Some detail) \<Rightarrow>
                if \<not> date_offer_allowed field p detail then None
                else let val = extract_provider_field field detail in
                     if fv_is_some val then Some (p, val) else None
            | _ \<Rightarrow> None) priority_list"

definition rank_in :: "metadata_provider list \<Rightarrow> metadata_provider \<Rightarrow> nat option" where
  "rank_in priority_list p = position (\<lambda>q. q = p) priority_list"

definition incumbent_outranks ::
  "metadata_provider list \<Rightarrow> 'f field_value \<Rightarrow> field_provenance option \<Rightarrow> metadata_provider \<Rightarrow> bool" where
  "incumbent_outranks priority_list current prov winner \<longleftrightarrow>
     fv_is_some current \<and>
     (case prov of
        None \<Rightarrow> False
      | Some fp \<Rightarrow>
          (case p_source fp of
             None \<Rightarrow> False
           | Some incumbent \<Rightarrow>
               (case (rank_in priority_list incumbent, rank_in priority_list winner) of
                  (Some i, Some j) \<Rightarrow> i < j
                | _ \<Rightarrow> False)))"

text \<open>
  What becomes of one field: the stored value stays, or a provider's value replaces it.
\<close>

datatype 'f decision = Keep "'f field_value" | Take metadata_provider "'f field_value"

definition decide_field ::
  "'f merge_input \<Rightarrow> (metadata_provider \<times> 'f normalized_work_detail option) list
     \<Rightarrow> metadata_provider list \<Rightarrow> work_field \<Rightarrow> 'f decision" where
  "decide_field inputs eligible incompatible field =
     (let current = extract_current_field field (current_work inputs);
          prov = prov_map (current_provenance inputs) field;
          priority_list = priority_list_for field (in_priority_model inputs) in
      if field \<in> {FTitle, FAuthorName, FLanguage} \<and> fv_is_some current then Keep current
      else if (case prov of Some fp \<Rightarrow> p_setter fp = SetUser | None \<Rightarrow> False) then Keep current
      else case field_winner priority_list eligible incompatible field of
             Some (provider, val) \<Rightarrow>
               if incumbent_outranks priority_list current prov provider then Keep current
               else Take provider val
           | None \<Rightarrow> Keep current)"

text \<open>The mutable state of the field loop.\<close>

record 'f merge_acc =
  resolved_values :: "work_field \<rightharpoonup> 'f field_value"
  provenance_upserts :: "set_field_provenance_request list"
  contributing_providers :: "metadata_provider list"

definition merge_field ::
  "'f merge_input \<Rightarrow> (metadata_provider \<times> 'f normalized_work_detail option) list
     \<Rightarrow> metadata_provider list \<Rightarrow> work_field \<Rightarrow> 'f merge_acc \<Rightarrow> 'f merge_acc" where
  "merge_field inputs eligible incompatible field acc =
     (case decide_field inputs eligible incompatible field of
        Keep v \<Rightarrow> acc\<lparr>resolved_values := (resolved_values acc)(field \<mapsto> v)\<rparr>
      | Take provider v \<Rightarrow>
          acc\<lparr>resolved_values := (resolved_values acc)(field \<mapsto> v),
              provenance_upserts := provenance_upserts acc @
                [\<lparr>s_user_id = w_user_id (current_work inputs), s_work_id = w_id (current_work inputs),
                  s_field = field, s_source = Some provider, s_setter = SetProvider, s_cleared = False\<rparr>],
              contributing_providers :=
                (if provider \<in> set (contributing_providers acc) then contributing_providers acc
                 else contributing_providers acc @ [provider])\<rparr>)"

definition get_str :: "(work_field \<rightharpoonup> 'f field_value) \<Rightarrow> work_field \<Rightarrow> string option" where
  "get_str r f = (case r f of Some (FV_Str v) \<Rightarrow> v | _ \<Rightarrow> None)"

definition get_int :: "(work_field \<rightharpoonup> 'f field_value) \<Rightarrow> work_field \<Rightarrow> int option" where
  "get_int r f = (case r f of Some (FV_Int v) \<Rightarrow> v | _ \<Rightarrow> None)"

definition get_float :: "(work_field \<rightharpoonup> 'f field_value) \<Rightarrow> work_field \<Rightarrow> 'f option" where
  "get_float r f = (case r f of Some (FV_Float v) \<Rightarrow> v | _ \<Rightarrow> None)"

definition get_bool :: "(work_field \<rightharpoonup> 'f field_value) \<Rightarrow> work_field \<Rightarrow> bool option" where
  "get_bool r f = (case r f of Some (FV_Bool v) \<Rightarrow> v | _ \<Rightarrow> None)"

definition get_strings :: "(work_field \<rightharpoonup> 'f field_value) \<Rightarrow> work_field \<Rightarrow> string list option" where
  "get_strings r f = (case r f of Some (FV_Strings v) \<Rightarrow> v | _ \<Rightarrow> None)"

definition get_narration_type :: "(work_field \<rightharpoonup> 'f field_value) \<Rightarrow> work_field \<Rightarrow> narration_type option" where
  "get_narration_type r f = (case r f of Some (FV_NarrationType v) \<Rightarrow> v | _ \<Rightarrow> None)"

definition has_meaningful_text :: "(work_field \<rightharpoonup> 'f field_value) \<Rightarrow> bool" where
  "has_meaningful_text r \<longleftrightarrow>
     get_str r FDescription \<noteq> None \<or> get_str r FSubtitle \<noteq> None \<or> get_str r FSeriesName \<noteq> None
     \<or> (case get_strings r FGenres of Some g \<Rightarrow> g \<noteq> [] | None \<Rightarrow> False)
     \<or> get_str r FPublisher \<noteq> None"

definition build_work_update ::
  "(string \<Rightarrow> string) \<Rightarrow> (work_field \<rightharpoonup> 'f field_value) \<Rightarrow> enrichment_status \<Rightarrow> string option
     \<Rightarrow> string option \<Rightarrow> 'f work_update" where
  "build_work_update lower r status source cover =
     \<lparr>u_title = get_str r FTitle,
      u_subtitle = get_str r FSubtitle,
      u_original_title = get_str r FOriginalTitle,
      u_author_name = get_str r FAuthorName,
      u_description = get_str r FDescription,
      u_year = get_int r FYear,
      u_series_name = get_str r FSeriesName,
      u_series_position = get_float r FSeriesPosition,
      u_genres = get_strings r FGenres,
      u_language = map_option (normalize_language lower) (get_str r FLanguage),
      u_page_count = get_int r FPageCount,
      u_duration_seconds = get_int r FDurationSeconds,
      u_publisher = get_str r FPublisher,
      u_publish_date = get_str r FPublishDate,
      u_original_publish_date = get_str r FOriginalPublishDate,
      u_narrator = get_strings r FNarrator,
      u_narration_type = get_narration_type r FNarrationType,
      u_abridged = get_bool r FAbridged,
      u_rating = get_float r FRating,
      u_rating_count = get_int r FRatingCount,
      u_enrichment_status = status,
      u_enrichment_source = source,
      u_cover_url = cover\<rparr>"

definition cover_user_locked :: "'f merge_input \<Rightarrow> bool" where
  "cover_user_locked inputs \<longleftrightarrow>
     w_cover_manual (current_work inputs) \<or>
     (case prov_map (current_provenance inputs) FCoverUrl of
        Some fp \<Rightarrow> p_setter fp = SetUser \<and> \<not> p_cleared fp | None \<Rightarrow> False)"

definition materialize_dissent ::
  "('f \<Rightarrow> string) \<Rightarrow> int \<Rightarrow> int \<Rightarrow> (work_field \<rightharpoonup> 'f field_value) \<Rightarrow> dissent_seed \<Rightarrow> field_dissent" where
  "materialize_dissent show_f now work_id r seed =
     (case seed of (p, field, offered, reason) \<Rightarrow>
        \<lparr>fd_work_id = work_id, fd_provider = record_key p, fd_field = work_field_name field,
         fd_offered_value = offered,
         fd_winning_value = (case r field of Some v \<Rightarrow> field_value_text show_f v | None \<Rightarrow> None),
         fd_reason = reason, fd_merge_generation = 0, fd_recorded_at = now\<rparr>)"

definition merge_impl ::
  "(string \<Rightarrow> string) \<Rightarrow> ('f \<Rightarrow> string) \<Rightarrow> int \<Rightarrow> 'f merge_input \<Rightarrow> bool \<Rightarrow> merge_error + 'f merge_output" where
  "merge_impl lower show_f now inputs had_providers =
     (let pm = in_priority_model inputs in
      if pm_content pm = [] \<or> pm_description pm = [] \<or> pm_cover pm = [] \<or> pm_audio pm = []
      then Inl EmptyPriorityModel
      else
        let eligible = eligible_providers inputs;
            w = current_work inputs;
            incompatible = language_incompatible lower w eligible;
            seeds = conflict_seeds show_f inputs @ language_seeds show_f eligible incompatible;
            acc = fold (merge_field inputs eligible incompatible) MERGE_FIELDS
                    \<lparr>resolved_values = Map.empty, provenance_upserts = [], contributing_providers = []\<rparr>;
            r = resolved_values acc;
            cover_res = (if cover_user_locked inputs then None
                         else resolve_cover Ebook (pm_cover pm) eligible);
            audio_res = resolve_cover Audiobook (rank_table AudiobookRank) eligible;
            status = (if has_meaningful_text r then Enriched else Thin);
            source = (if contributing_providers acc = [] then None
                      else Some (join '','' (map record_key (contributing_providers acc))));
            cover = (case cover_res of Some c \<Rightarrow> Some (cr_url c) | None \<Rightarrow> w_cover_url w);
            update = build_work_update lower r status source cover
        in Inr \<lparr>o_work_update = (if had_providers \<and> eligible = [] then None else Some update),
                o_provenance_upserts = provenance_upserts acc,
                o_provenance_deletes = [],
                o_enrichment_status = status,
                o_enrichment_source = source,
                o_cover_resolution = cover_res,
                o_audiobook_cover_resolution = audio_res,
                o_dissents = map (materialize_dissent show_f now (w_id w) r) seeds\<rparr>)"

definition merge ::
  "(string \<Rightarrow> string) \<Rightarrow> ('f \<Rightarrow> string) \<Rightarrow> int \<Rightarrow> 'f merge_input \<Rightarrow> merge_error + 'f merge_output" where
  "merge lower show_f now inputs =
     merge_impl lower show_f now (drop_language_incompatible_providers lower inputs)
       (provider_results inputs \<noteq> [])"

definition merge_from_cached ::
  "(string \<Rightarrow> string) \<Rightarrow> ('f \<Rightarrow> string) \<Rightarrow> int \<Rightarrow> priority_source \<Rightarrow> 'f work
     \<Rightarrow> (metadata_provider \<times> 'f normalized_work_detail) list \<Rightarrow> field_provenance list \<Rightarrow> string option
     \<Rightarrow> merge_error + 'f merge_output" where
  "merge_from_cached lower show_f now priorities w payloads provenance language =
     merge lower show_f now
       \<lparr>current_work = w, current_provenance = provenance,
        provider_results =
          map (\<lambda>(p, d). (p, \<lparr>outcome_class = Success, payload = Some d\<rparr>)) payloads,
        merge_mode = Manual, in_priority_model = engine_priority_model lower priorities language\<rparr>"

definition resolve_status ::
  "enrichment_status \<Rightarrow> (metadata_provider \<times> 'f reconstructed_outcome) list \<Rightarrow> enrichment_status" where
  "resolve_status merge_status results =
     (if \<not> (\<exists>(p, oc)\<in>set results. outcome_class oc = Success) then Failed
      else if merge_status = Enriched then Enriched else Thin)"

definition payload_anchors_match :: "string option \<Rightarrow> string option \<Rightarrow> bool" where
  "payload_anchors_match a b = (case (a, b) of (Some x, Some y) \<Rightarrow> x = y | _ \<Rightarrow> False)"

definition payload_anchor_compatible :: "string option \<Rightarrow> string option \<Rightarrow> bool" where
  "payload_anchor_compatible a b = (case (a, b) of (Some x, Some y) \<Rightarrow> x = y | _ \<Rightarrow> True)"

definition cached_payloads_match_work ::
  "'f work \<Rightarrow> (metadata_provider \<times> 'f normalized_work_detail) list \<Rightarrow> bool" where
  "cached_payloads_match_work w payloads =
     ((\<forall>(_, p)\<in>set payloads.
         payload_anchor_compatible (w_ol_key w) (d_ol_key p)
         \<and> payload_anchor_compatible (w_gr_key w) (d_gr_key p)
         \<and> payload_anchor_compatible (w_hc_key w) (d_hc_key p)
         \<and> payload_anchor_compatible (w_isbn_13 w) (d_isbn_13 p)
         \<and> payload_anchor_compatible (w_asin w) (d_asin p))
      \<and> (\<exists>(_, p)\<in>set payloads.
         payload_anchors_match (w_ol_key w) (d_ol_key p)
         \<or> payload_anchors_match (w_gr_key w) (d_gr_key p)
         \<or> payload_anchors_match (w_hc_key w) (d_hc_key p)
         \<or> payload_anchors_match (w_isbn_13 w) (d_isbn_13 p)
         \<or> payload_anchors_match (w_asin w) (d_asin p)))"

definition blank_work :: "'f work" where
  "blank_work =
     \<lparr>w_id = 0, w_user_id = 0, w_title = [], w_sort_title = None,
      w_subtitle = None, w_original_title = None, w_author_name = [], w_author_id = None,
      w_description = None, w_year = None, w_series_id = None, w_series_name = None,
      w_series_position = None, w_genres = None, w_language = None, w_page_count = None,
      w_duration_seconds = None, w_publisher = None, w_publish_date = None, w_original_publish_date = None,
      w_ol_key = None, w_hc_key = None, w_gr_key = None, w_isbn_13 = None,
      w_asin = None, w_narrator = None, w_narration_type = None, w_abridged = False,
      w_rating = None, w_rating_count = None, w_description_truncated = False, w_enrichment_status = Unenriched,
      w_identity_status = Pending, w_enriched_at = None, w_enrichment_source = None, w_cover_url = None,
      w_cover_manual = False, w_cover_source = None, w_cover_width = 0, w_cover_height = 0,
      w_audiobook_cover_url = None, w_audiobook_cover_source = None, w_audiobook_cover_width = 0, w_audiobook_cover_height = 0,
      w_monitor_ebook = False, w_monitor_audiobook = False, w_import_id = None, w_added_at = 0\<rparr>"

definition blank_detail :: "'f normalized_work_detail" where
  "blank_detail =
     \<lparr>d_title = None, d_subtitle = None, d_original_title = None, d_author_name = None,
      d_description = None, d_year = None, d_series_name = None, d_series_position = None,
      d_genres = None, d_language = None, d_page_count = None, d_duration_seconds = None,
      d_publisher = None, d_publish_date = None, d_original_publish_date = None, d_unclassified_publish_date = None,
      d_hc_key = None, d_gr_key = None, d_gr_work_key = None, d_ol_key = None,
      d_isbn_13 = None, d_asin = None, d_narrator = None, d_narration_type = None,
      d_abridged = None, d_rating = None, d_rating_count = None, d_cover_url = None,
      d_additional_isbns = [], d_additional_asins = []\<rparr>"

end
