(* ===== verification/MergeProperties.thy ===== *)
theory MergeProperties
  imports MergeEngine
begin

text \<open>
  Properties of the merge engine: the closed form of the field loop, what each field of the
  update is, and the guarantees that follow (locks, priority, language and conflict isolation,
  no loss of data, status-only output).
\<close>

section \<open>The field loop in closed form\<close>

fun decision_value :: "'f decision \<Rightarrow> 'f field_value" where
  "decision_value (Keep v) = v"
| "decision_value (Take p v) = v"

fun taken_from :: "'f decision \<Rightarrow> metadata_provider option" where
  "taken_from (Keep v) = None"
| "taken_from (Take p v) = Some p"

definition upsert_for :: "'f work \<Rightarrow> work_field \<Rightarrow> metadata_provider \<Rightarrow> set_field_provenance_request" where
  "upsert_for w f p =
     \<lparr>s_user_id = w_user_id w, s_work_id = w_id w, s_field = f, s_source = Some p,
      s_setter = SetProvider, s_cleared = False\<rparr>"

lemma merge_field_resolved [simp]:
  "resolved_values (merge_field inputs el inc f acc) =
     (resolved_values acc)(f \<mapsto> decision_value (decide_field inputs el inc f))"
  by (simp add: merge_field_def split: decision.split)

lemma merge_field_upserts:
  "provenance_upserts (merge_field inputs el inc f acc) = provenance_upserts acc @
     (case taken_from (decide_field inputs el inc f) of
        Some p \<Rightarrow> [upsert_for (current_work inputs) f p] | None \<Rightarrow> [])"
  by (simp add: merge_field_def upsert_for_def split: decision.split)

lemma fold_resolved:
  "resolved_values (fold (merge_field inputs el inc) fs acc) f =
     (if f \<in> set fs then Some (decision_value (decide_field inputs el inc f)) else resolved_values acc f)"
  by (induction fs arbitrary: acc) auto

lemma fold_upserts:
  "provenance_upserts (fold (merge_field inputs el inc) fs acc) = provenance_upserts acc @
     concat (map (\<lambda>f. case taken_from (decide_field inputs el inc f) of
        Some p \<Rightarrow> [upsert_for (current_work inputs) f p] | None \<Rightarrow> []) fs)"
  by (induction fs arbitrary: acc) (simp_all add: merge_field_upserts)

lemma merge_fields_distinct: "distinct MERGE_FIELDS"
  by (simp add: MERGE_FIELDS_def)

section \<open>Reading the update back\<close>

fun update_value :: "work_field \<Rightarrow> 'f work_update \<Rightarrow> 'f field_value" where
  "update_value FTitle u = FV_Str (u_title u)"
| "update_value FSubtitle u = FV_Str (u_subtitle u)"
| "update_value FOriginalTitle u = FV_Str (u_original_title u)"
| "update_value FAuthorName u = FV_Str (u_author_name u)"
| "update_value FDescription u = FV_Str (u_description u)"
| "update_value FYear u = FV_Int (u_year u)"
| "update_value FSeriesName u = FV_Str (u_series_name u)"
| "update_value FSeriesPosition u = FV_Float (u_series_position u)"
| "update_value FGenres u = FV_Strings (u_genres u)"
| "update_value FLanguage u = FV_Str (u_language u)"
| "update_value FPageCount u = FV_Int (u_page_count u)"
| "update_value FDurationSeconds u = FV_Int (u_duration_seconds u)"
| "update_value FPublisher u = FV_Str (u_publisher u)"
| "update_value FPublishDate u = FV_Str (u_publish_date u)"
| "update_value FOriginalPublishDate u = FV_Str (u_original_publish_date u)"
| "update_value FNarrator u = FV_Strings (u_narrator u)"
| "update_value FNarrationType u = FV_NarrationType (u_narration_type u)"
| "update_value FAbridged u = FV_Bool (u_abridged u)"
| "update_value FRating u = FV_Float (u_rating u)"
| "update_value FRatingCount u = FV_Int (u_rating_count u)"
| "update_value _ u = FV_Str None"

text \<open>The language is normalised on its way into the update; every other field is copied.\<close>

fun as_written :: "(string \<Rightarrow> string) \<Rightarrow> work_field \<Rightarrow> 'f field_value \<Rightarrow> 'f field_value" where
  "as_written lower FLanguage (FV_Str v) = FV_Str (map_option (normalize_language lower) v)"
| "as_written lower f v = v"

lemma as_written_other [simp]: "f \<noteq> FLanguage \<Longrightarrow> as_written lower f v = v"
  by (cases f) simp_all

definition from_work_or_provider :: "work_field \<Rightarrow> 'f field_value \<Rightarrow> bool" where
  "from_work_or_provider f v \<longleftrightarrow>
     (\<exists>w. v = extract_current_field f w) \<or> (\<exists>d. v = extract_provider_field f d)"

lemma update_value_build:
  assumes "r f = Some v" and "from_work_or_provider f v" and "f \<in> set MERGE_FIELDS"
  shows "update_value f (build_work_update lower r st so cv) = as_written lower f v"
  using assms
  by (cases f)
    (auto simp: build_work_update_def from_work_or_provider_def get_str_def get_int_def get_float_def
      get_bool_def get_strings_def get_narration_type_def MERGE_FIELDS_def)

lemma field_winner_Some:
  assumes "field_winner order el inc f = Some (p, v)"
  shows "\<exists>d. p \<in> set order \<and> map_of el p = Some (Some d) \<and> date_offer_allowed f p d \<and>
    v = extract_provider_field f d \<and> fv_is_some v \<and> \<not> (is_language_dissent_field f \<and> p \<in> set inc)"
  using assms unfolding field_winner_def find_map_Some
  by (auto simp: Let_def split: if_splits option.splits)

lemma decide_field_source:
  "from_work_or_provider f (decision_value (decide_field inputs el inc f))"
  by (auto simp: decide_field_def Let_def from_work_or_provider_def
      dest!: field_winner_Some split: option.split prod.split)

section \<open>Successful merges\<close>

definition model_ok :: "priority_model \<Rightarrow> bool" where
  "model_ok pm \<longleftrightarrow> pm_content pm \<noteq> [] \<and> pm_description pm \<noteq> [] \<and> pm_cover pm \<noteq> [] \<and> pm_audio pm \<noteq> []"

text \<open>The inputs as the field loop sees them, after the language routing.\<close>

definition routed :: "(string \<Rightarrow> string) \<Rightarrow> 'f merge_input \<Rightarrow> 'f merge_input" where
  "routed lower inputs = drop_language_incompatible_providers lower inputs"

definition routed_eligible ::
  "(string \<Rightarrow> string) \<Rightarrow> 'f merge_input \<Rightarrow> (metadata_provider \<times> 'f normalized_work_detail option) list" where
  "routed_eligible lower inputs = eligible_providers (routed lower inputs)"

definition routed_incompatible :: "(string \<Rightarrow> string) \<Rightarrow> 'f merge_input \<Rightarrow> metadata_provider list" where
  "routed_incompatible lower inputs =
     language_incompatible lower (current_work inputs) (routed_eligible lower inputs)"

definition decision :: "(string \<Rightarrow> string) \<Rightarrow> 'f merge_input \<Rightarrow> work_field \<Rightarrow> 'f decision" where
  "decision lower inputs f =
     decide_field (routed lower inputs) (routed_eligible lower inputs) (routed_incompatible lower inputs) f"

lemma routed_simps [simp]:
  "current_work (routed lower inputs) = current_work inputs"
  "current_provenance (routed lower inputs) = current_provenance inputs"
  "merge_mode (routed lower inputs) = merge_mode inputs"
  "in_priority_model (routed lower inputs) = in_priority_model inputs"
  by (simp_all add: routed_def drop_language_incompatible_providers_def)

definition routed_acc :: "(string \<Rightarrow> string) \<Rightarrow> 'f merge_input \<Rightarrow> 'f merge_acc" where
  "routed_acc lower inputs =
     fold (merge_field (routed lower inputs) (routed_eligible lower inputs) (routed_incompatible lower inputs))
       MERGE_FIELDS \<lparr>resolved_values = Map.empty, provenance_upserts = [], contributing_providers = []\<rparr>"

definition routed_source :: "(string \<Rightarrow> string) \<Rightarrow> 'f merge_input \<Rightarrow> string option" where
  "routed_source lower inputs =
     (if contributing_providers (routed_acc lower inputs) = [] then None
      else Some (join '','' (map record_key (contributing_providers (routed_acc lower inputs)))))"

definition routed_status :: "(string \<Rightarrow> string) \<Rightarrow> 'f merge_input \<Rightarrow> enrichment_status" where
  "routed_status lower inputs =
     (if has_meaningful_text (resolved_values (routed_acc lower inputs)) then Enriched else Thin)"

definition routed_cover :: "(string \<Rightarrow> string) \<Rightarrow> 'f merge_input \<Rightarrow> cover_resolution option" where
  "routed_cover lower inputs =
     (if cover_user_locked inputs then None
      else resolve_cover Ebook (pm_cover (in_priority_model inputs)) (routed_eligible lower inputs))"

definition routed_seeds :: "(string \<Rightarrow> string) \<Rightarrow> ('f \<Rightarrow> string) \<Rightarrow> 'f merge_input \<Rightarrow> dissent_seed list" where
  "routed_seeds lower show_f inputs =
     conflict_seeds show_f (routed lower inputs) @
     language_seeds show_f (routed_eligible lower inputs) (routed_incompatible lower inputs)"

definition merge_result ::
  "(string \<Rightarrow> string) \<Rightarrow> ('f \<Rightarrow> string) \<Rightarrow> int \<Rightarrow> 'f merge_input \<Rightarrow> 'f merge_output" where
  "merge_result lower show_f now inputs =
     \<lparr>o_work_update =
        (if provider_results inputs \<noteq> [] \<and> routed_eligible lower inputs = [] then None
         else Some (build_work_update lower (resolved_values (routed_acc lower inputs))
                (routed_status lower inputs) (routed_source lower inputs)
                (case routed_cover lower inputs of
                   Some c \<Rightarrow> Some (cr_url c) | None \<Rightarrow> w_cover_url (current_work inputs)))),
      o_provenance_upserts = provenance_upserts (routed_acc lower inputs),
      o_provenance_deletes = [],
      o_enrichment_status = routed_status lower inputs,
      o_enrichment_source = routed_source lower inputs,
      o_cover_resolution = routed_cover lower inputs,
      o_audiobook_cover_resolution =
        resolve_cover Audiobook (rank_table AudiobookRank) (routed_eligible lower inputs),
      o_dissents = map (materialize_dissent show_f now (w_id (current_work inputs))
        (resolved_values (routed_acc lower inputs))) (routed_seeds lower show_f inputs)\<rparr>"

lemma merge_eq:
  "merge lower show_f now inputs =
     (if model_ok (in_priority_model inputs) then Inr (merge_result lower show_f now inputs)
      else Inl EmptyPriorityModel)"
  unfolding merge_def merge_impl_def routed_def [symmetric] routed_eligible_def [symmetric] Let_def
    merge_result_def routed_acc_def routed_source_def routed_status_def routed_cover_def
    routed_seeds_def routed_incompatible_def model_ok_def cover_user_locked_def
  by (simp only: routed_simps de_Morgan_disj if_not_P split: if_split) blast

lemma routed_acc_resolved:
  "f \<in> set MERGE_FIELDS \<Longrightarrow>
     resolved_values (routed_acc lower inputs) f = Some (decision_value (decision lower inputs f))"
  by (simp add: routed_acc_def fold_resolved decision_def)

lemma routed_acc_upserts:
  "provenance_upserts (routed_acc lower inputs) =
     concat (map (\<lambda>f. case taken_from (decision lower inputs f) of
        Some p \<Rightarrow> [upsert_for (current_work inputs) f p] | None \<Rightarrow> []) MERGE_FIELDS)"
  by (simp add: routed_acc_def fold_upserts decision_def cong: option.case_cong)

lemma merge_result_field:
  assumes "o_work_update (merge_result lower show_f now inputs) = Some u" and "f \<in> set MERGE_FIELDS"
  shows "update_value f u = as_written lower f (decision_value (decision lower inputs f))"
proof -
  have u: "u = build_work_update lower (resolved_values (routed_acc lower inputs))
      (routed_status lower inputs) (routed_source lower inputs)
      (case routed_cover lower inputs of
         Some c \<Rightarrow> Some (cr_url c) | None \<Rightarrow> w_cover_url (current_work inputs))"
    using assms(1) by (simp add: merge_result_def split: if_splits)
  show ?thesis unfolding u
    by (rule update_value_build) (simp_all add: routed_acc_resolved assms(2) decision_def decide_field_source)
qed

lemma merge_result_upsert:
  "r \<in> set (o_provenance_upserts (merge_result lower show_f now inputs)) \<longleftrightarrow>
     (\<exists>f\<in>set MERGE_FIELDS. \<exists>p. taken_from (decision lower inputs f) = Some p
        \<and> r = upsert_for (current_work inputs) f p)"
  by (force simp: merge_result_def routed_acc_upserts split: option.splits)

lemma merge_result_upserts_distinct:
  "distinct (map s_field (o_provenance_upserts (merge_result lower show_f now inputs)))"
proof -
  have "distinct (map s_field (concat (map (\<lambda>f. case taken_from (decision lower inputs f) of
        Some p \<Rightarrow> [upsert_for (current_work inputs) f p] | None \<Rightarrow> []) fs)))" if "distinct fs" for fs
    using that
    by (induction fs) (auto simp: upsert_for_def split: option.splits)
  then show ?thesis using merge_fields_distinct by (simp add: merge_result_def routed_acc_upserts)
qed

section \<open>Locks\<close>

definition field_locked :: "'f merge_input \<Rightarrow> work_field \<Rightarrow> bool" where
  "field_locked inputs f \<longleftrightarrow>
     (f \<in> {FTitle, FAuthorName, FLanguage} \<and> fv_is_some (extract_current_field f (current_work inputs)))
     \<or> (\<exists>fp. prov_map (current_provenance inputs) f = Some fp \<and> p_setter fp = SetUser)"

lemma decision_locked:
  "field_locked inputs f \<Longrightarrow>
     decision lower inputs f = Keep (extract_current_field f (current_work inputs))"
  by (auto simp: field_locked_def decision_def decide_field_def Let_def)

lemma decision_unlocked:
  assumes "\<not> field_locked inputs f"
  shows "decision lower inputs f =
    (let order = priority_list_for f (in_priority_model inputs);
         current = extract_current_field f (current_work inputs) in
     case field_winner order (routed_eligible lower inputs) (routed_incompatible lower inputs) f of
       Some (p, v) \<Rightarrow>
         if incumbent_outranks order current (prov_map (current_provenance inputs) f) p
         then Keep current else Take p v
     | None \<Rightarrow> Keep current)"
  using assms
  by (auto simp: field_locked_def decision_def decide_field_def Let_def split: option.splits)

text \<open>A decision is either to keep the stored value or to take a winner that nothing stands against.\<close>

lemma decision_cases:
  fixes inputs :: "'f merge_input"
  obtains
    (keep) "decision lower inputs f = Keep (extract_current_field f (current_work inputs))"
  | (take) p v where "decision lower inputs f = Take p v" "\<not> field_locked inputs f"
      "field_winner (priority_list_for f (in_priority_model inputs)) (routed_eligible lower inputs)
         (routed_incompatible lower inputs) f = Some (p, v)"
      "\<not> incumbent_outranks (priority_list_for f (in_priority_model inputs))
         (extract_current_field f (current_work inputs)) (prov_map (current_provenance inputs) f) p"
proof (cases "field_locked inputs f")
  case True
  then show ?thesis using decision_locked that(1) by blast
next
  case False
  show ?thesis
    using decision_unlocked [OF False, of lower] False that
    by (auto simp: Let_def split: option.splits prod.splits if_splits)
qed

lemma decision_keeps_some:
  fixes inputs :: "'f merge_input"
  assumes "fv_is_some (extract_current_field f (current_work inputs))"
  shows "fv_is_some (decision_value (decision lower inputs f))"
  by (rule decision_cases [of lower inputs f]) (use assms in \<open>auto dest: field_winner_Some\<close>)

text \<open>
  C4 (safety): whatever providers return, a merge never overwrites what the user or the identity
  track owns: a field whose provenance says the user set it, and a non-blank title, author or
  language, comes out with the stored value (the language in its normal form) and gets no new
  provenance; a cover the user chose is neither resolved again nor changed.
\<close>

theorem locked_fields_survive_every_merge:
  assumes "merge lower show_f now inputs = Inr out" and "o_work_update out = Some u"
  shows "(\<forall>f\<in>set MERGE_FIELDS. field_locked inputs f \<longrightarrow>
      update_value f u = as_written lower f (extract_current_field f (current_work inputs)) \<and>
      (\<forall>r\<in>set (o_provenance_upserts out). s_field r \<noteq> f))
    \<and> (cover_user_locked inputs \<longrightarrow>
        o_cover_resolution out = None \<and> u_cover_url u = w_cover_url (current_work inputs))"
proof -
  have out: "out = merge_result lower show_f now inputs"
    using assms(1) by (simp add: merge_eq split: if_splits)
  have upd: "o_work_update (merge_result lower show_f now inputs) = Some u"
    using assms(2) out by simp
  have "update_value f u = as_written lower f (extract_current_field f (current_work inputs)) \<and>
      (\<forall>r\<in>set (o_provenance_upserts out). s_field r \<noteq> f)"
    if "f \<in> set MERGE_FIELDS" "field_locked inputs f" for f
    using merge_result_field [OF upd that(1)] decision_locked [OF that(2), of lower]
    by (auto simp: out merge_result_upsert upsert_for_def)
  moreover have "o_cover_resolution out = None \<and> u_cover_url u = w_cover_url (current_work inputs)"
    if "cover_user_locked inputs"
    using upd that
    by (auto simp: out merge_result_def routed_cover_def build_work_update_def split: if_splits)
  ultimately show ?thesis by blast
qed

end
