(* ===== verification/MergeGuarantees.thy ===== *)
theory MergeGuarantees
  imports MergeProperties
begin

text \<open>
  What a merge guarantees beyond its locks: the value written for a field is the best acceptable
  offer, routed and conflicting providers have no influence on it, stored data is never lost,
  and errors and status-only outputs happen exactly when they should.
\<close>

section \<open>Offers\<close>

text \<open>
  What it takes for the value \<open>v\<close> of provider \<open>p\<close> to count for field \<open>f\<close>: its outcome is eligible
  in the mode, it is not routed away, its date has the field's meaning, the value is present, and
  its language is compatible unless the field is an audio one.
\<close>

definition language_clash :: "(string \<Rightarrow> string) \<Rightarrow> 'f work \<Rightarrow> 'f normalized_work_detail \<Rightarrow> bool" where
  "language_clash lower w d \<longleftrightarrow>
     is_foreign lower w \<and>
     (\<exists>l. non_blank (d_language d) = Some l \<and>
        Some (normalize_language lower l) \<noteq> map_option (normalize_language lower) (w_language w))"

definition acceptable_offer ::
  "(string \<Rightarrow> string) \<Rightarrow> 'f merge_input \<Rightarrow> work_field \<Rightarrow> metadata_provider \<Rightarrow> 'f field_value \<Rightarrow> bool" where
  "acceptable_offer lower inputs f p v \<longleftrightarrow>
     (\<exists>oc d. (p, oc) \<in> set (provider_results inputs)
        \<and> mode_eligible (merge_mode inputs) (outcome_class oc) \<and> payload oc = Some d
        \<and> (is_foreign lower (current_work inputs) \<longrightarrow> p \<notin> {OpenLibrary, Hardcover})
        \<and> (is_language_dissent_field f \<longrightarrow> \<not> language_clash lower (current_work inputs) d)
        \<and> date_offer_allowed f p d \<and> v = extract_provider_field f d \<and> fv_is_some v)"

lemma routed_results:
  "(p, oc) \<in> set (provider_results (routed lower inputs)) \<longleftrightarrow>
     (p, oc) \<in> set (provider_results inputs)
     \<and> (is_foreign lower (current_work inputs) \<longrightarrow> p \<notin> {OpenLibrary, Hardcover})"
  by (auto simp: routed_def drop_language_incompatible_providers_def)

lemma routed_eligible_in:
  "(p, det) \<in> set (routed_eligible lower inputs) \<longleftrightarrow>
     (\<exists>oc. (p, oc) \<in> set (provider_results inputs)
        \<and> (is_foreign lower (current_work inputs) \<longrightarrow> p \<notin> {OpenLibrary, Hardcover})
        \<and> mode_eligible (merge_mode inputs) (outcome_class oc) \<and> det = payload oc)"
  by (force simp: routed_eligible_def eligible_providers_def routed_results)

lemma routed_eligible_keys:
  assumes "distinct (map fst (provider_results inputs))"
  shows "distinct (map fst (routed_eligible lower inputs))"
proof -
  have keys: "fst \<circ> (\<lambda>(p, oc). (p, payload oc)) = fst" by auto
  show ?thesis
    using assms
    by (simp add: routed_eligible_def eligible_providers_def keys routed_def
        drop_language_incompatible_providers_def distinct_map_filter)
qed

lemma routed_eligible_lookup:
  "distinct (map fst (provider_results inputs)) \<Longrightarrow>
     map_of (routed_eligible lower inputs) p = Some det \<longleftrightarrow> (p, det) \<in> set (routed_eligible lower inputs)"
  using map_of_is_SomeI [OF routed_eligible_keys] map_of_SomeD by metis

lemma routed_incompatible_in:
  assumes "distinct (map fst (provider_results inputs))"
    and "(p, Some d) \<in> set (routed_eligible lower inputs)"
  shows "p \<in> set (routed_incompatible lower inputs) \<longleftrightarrow> language_clash lower (current_work inputs) d"
proof -
  have one: "(p, det) \<in> set (routed_eligible lower inputs) \<Longrightarrow> det = Some d" for det
    using assms(2) routed_eligible_lookup [OF assms(1), of lower p det]
      routed_eligible_lookup [OF assms(1), of lower p "Some d"] by simp
  show ?thesis
    using assms(2) one
    by (force simp: routed_incompatible_def language_incompatible_def language_clash_def
        split: option.splits)
qed

text \<open>The closure the walk applies to each provider, as an offer.\<close>

lemma offer_of_provider:
  assumes "distinct (map fst (provider_results inputs))"
  shows "(if is_language_dissent_field f \<and> p \<in> set (routed_incompatible lower inputs) then None
          else case map_of (routed_eligible lower inputs) p of
                 Some (Some detail) \<Rightarrow>
                   if \<not> date_offer_allowed f p detail then None
                   else let val = extract_provider_field f detail in
                        if fv_is_some val then Some (p, val) else None
               | _ \<Rightarrow> None) = Some (q, v)
    \<longleftrightarrow> q = p \<and> acceptable_offer lower inputs f p v"
proof (cases "map_of (routed_eligible lower inputs) p")
  case None
  then have "(p, det) \<notin> set (routed_eligible lower inputs)" for det
    using routed_eligible_lookup [OF assms, of lower p det] by simp
  then show ?thesis using None by (auto simp: acceptable_offer_def routed_eligible_in)
next
  case (Some det)
  then have det: "(p, det) \<in> set (routed_eligible lower inputs)"
    using routed_eligible_lookup [OF assms] by simp
  have uniq: "(p, det') \<in> set (routed_eligible lower inputs) \<Longrightarrow> det' = det" for det'
    using Some routed_eligible_lookup [OF assms, of lower p det'] by simp
  show ?thesis
  proof (cases det)
    case None
    then have "\<not> acceptable_offer lower inputs f p v"
      using uniq [of "Some _"] unfolding acceptable_offer_def routed_eligible_in
      by (metis None option.distinct(1))
    with Some None show ?thesis by auto
  next
    case (Some d)
    have clash: "p \<in> set (routed_incompatible lower inputs) \<longleftrightarrow> language_clash lower (current_work inputs) d"
      using routed_incompatible_in [OF assms] det Some by simp
    have "acceptable_offer lower inputs f p v \<longleftrightarrow>
        (is_language_dissent_field f \<longrightarrow> \<not> language_clash lower (current_work inputs) d)
        \<and> date_offer_allowed f p d \<and> v = extract_provider_field f d \<and> fv_is_some v"
    proof
      assume "acceptable_offer lower inputs f p v"
      then obtain oc d' where d': "(p, oc) \<in> set (provider_results inputs)"
        "mode_eligible (merge_mode inputs) (outcome_class oc)" "payload oc = Some d'"
        "is_foreign lower (current_work inputs) \<longrightarrow> p \<notin> {OpenLibrary, Hardcover}"
        and rest: "is_language_dissent_field f \<longrightarrow> \<not> language_clash lower (current_work inputs) d'"
        "date_offer_allowed f p d'" "v = extract_provider_field f d'" "fv_is_some v"
        unfolding acceptable_offer_def by blast
      from d' have "(p, Some d') \<in> set (routed_eligible lower inputs)"
        unfolding routed_eligible_in by metis
      from uniq [OF this] Some have "d' = d" by simp
      with rest show "(is_language_dissent_field f \<longrightarrow> \<not> language_clash lower (current_work inputs) d)
        \<and> date_offer_allowed f p d \<and> v = extract_provider_field f d \<and> fv_is_some v" by blast
    next
      assume "(is_language_dissent_field f \<longrightarrow> \<not> language_clash lower (current_work inputs) d)
        \<and> date_offer_allowed f p d \<and> v = extract_provider_field f d \<and> fv_is_some v"
      then show "acceptable_offer lower inputs f p v"
        using det unfolding Some routed_eligible_in acceptable_offer_def by metis
    qed
    then show ?thesis
      using \<open>map_of (routed_eligible lower inputs) p = Some det\<close> Some clash by (auto simp: Let_def)
  qed
qed

lemma field_winner_offer:
  assumes "distinct (map fst (provider_results inputs))"
  shows "field_winner order (routed_eligible lower inputs) (routed_incompatible lower inputs) f = Some (p, v)
    \<longleftrightarrow> (\<exists>better worse. order = better @ p # worse \<and> acceptable_offer lower inputs f p v
          \<and> (\<forall>q\<in>set better. \<forall>v'. \<not> acceptable_offer lower inputs f q v'))"
  unfolding field_winner_def find_map_Some
  using offer_of_provider [OF assms, of f _ lower]
  by (simp only: not_Some_eq [symmetric] split_paired_All) blast

section \<open>The best acceptable offer wins\<close>

lemma rank_in_append:
  "p \<notin> set better \<Longrightarrow> rank_in (better @ p # worse) p = Some (length better)"
  by (induction better) (auto simp: rank_in_def)

lemma rank_in_beyond:
  "q \<in> set (better @ p # worse) \<Longrightarrow> q \<notin> set better \<Longrightarrow>
     \<exists>j. rank_in (better @ p # worse) q = Some j \<and> length better \<le> j"
proof (induction better)
  case Nil
  then have "rank_in (p # worse) q \<noteq> None" unfolding rank_in_def position_None by auto
  then show ?case by auto
next
  case (Cons b better)
  then obtain j where "rank_in (better @ p # worse) q = Some j" "length better \<le> j" by auto
  with Cons.prems show ?case by (auto simp: rank_in_def)
qed

lemma incumbent_outranks_beyond:
  assumes "incumbent_outranks (better @ p # worse) cur prov p" and "p \<notin> set better"
    and "q \<in> set (better @ p # worse)" and "q \<notin> set better"
  shows "incumbent_outranks (better @ p # worse) cur prov q"
  using assms(1) rank_in_append [OF assms(2), of worse] rank_in_beyond [OF assms(3,4)]
  by (auto simp: incumbent_outranks_def split: option.splits)

lemma upsert_taken:
  assumes "f \<in> set MERGE_FIELDS"
  shows "(\<exists>r\<in>set (o_provenance_upserts (merge_result lower show_f now inputs)). s_field r = f)
    \<longleftrightarrow> taken_from (decision lower inputs f) \<noteq> None"
  using assms by (force simp: merge_result_upsert upsert_for_def)

text \<open>
  C1 (refinement): for a field that is not locked the update holds the best acceptable offer: the
  offer of the first provider in the field's order that has one (eligible in the mode, not routed
  away, right kind of date, compatible language unless an audio field), with that provider recorded
  as source; or the stored value, with its provenance untouched, and then every acceptable offer
  comes from a provider that the recorded source of a present stored value outranks.
\<close>

theorem merge_takes_the_best_acceptable_offer:
  fixes inputs :: "'f merge_input"
  assumes keys: "distinct (map fst (provider_results inputs))"
    and ok: "merge lower show_f now inputs = Inr out" "o_work_update out = Some u"
    and f: "f \<in> set MERGE_FIELDS" "\<not> field_locked inputs f"
  shows "let order = priority_list_for f (in_priority_model inputs);
             current = extract_current_field f (current_work inputs);
             outranked = incumbent_outranks order current (prov_map (current_provenance inputs) f) in
    (\<exists>p v better worse. order = better @ p # worse \<and> acceptable_offer lower inputs f p v \<and>
       (\<forall>q\<in>set better. \<forall>v'. \<not> acceptable_offer lower inputs f q v') \<and> \<not> outranked p \<and>
       update_value f u = as_written lower f v \<and>
       upsert_for (current_work inputs) f p \<in> set (o_provenance_upserts out))
    \<or> (update_value f u = as_written lower f current \<and>
       (\<forall>r\<in>set (o_provenance_upserts out). s_field r \<noteq> f) \<and>
       (\<forall>p v. p \<in> set order \<and> acceptable_offer lower inputs f p v \<longrightarrow> outranked p))"
proof -
  define order where "order = priority_list_for f (in_priority_model inputs)"
  define cur where "cur = extract_current_field f (current_work inputs)"
  define outranked where
    "outranked = incumbent_outranks order cur (prov_map (current_provenance inputs) f)"
  define win where
    "win = field_winner order (routed_eligible lower inputs) (routed_incompatible lower inputs) f"
  have out: "out = merge_result lower show_f now inputs"
    using ok(1) by (simp add: merge_eq split: if_splits)
  have val: "update_value f u = as_written lower f (decision_value (decision lower inputs f))"
    using ok(2) f(1) unfolding out by (rule merge_result_field)
  have dec: "decision lower inputs f =
      (case win of Some (p, v) \<Rightarrow> if outranked p then Keep cur else Take p v | None \<Rightarrow> Keep cur)"
    using decision_unlocked [OF f(2), of lower]
    unfolding Let_def win_def order_def cur_def outranked_def .
  have kept: "update_value f u = as_written lower f cur \<and> (\<forall>r\<in>set (o_provenance_upserts out). s_field r \<noteq> f)"
    if "decision lower inputs f = Keep cur"
    using that val upsert_taken [OF f(1), of lower show_f now inputs] by (auto simp: out)
  let ?took = "\<exists>p v better worse. order = better @ p # worse \<and> acceptable_offer lower inputs f p v \<and>
       (\<forall>q\<in>set better. \<forall>v'. \<not> acceptable_offer lower inputs f q v') \<and> \<not> outranked p \<and>
       update_value f u = as_written lower f v \<and>
       upsert_for (current_work inputs) f p \<in> set (o_provenance_upserts out)"
  let ?kept = "update_value f u = as_written lower f cur \<and>
       (\<forall>r\<in>set (o_provenance_upserts out). s_field r \<noteq> f) \<and>
       (\<forall>p v. p \<in> set order \<and> acceptable_offer lower inputs f p v \<longrightarrow> outranked p)"
  have "?took \<or> ?kept"
  proof (cases win)
    case None
    have none: "\<not> acceptable_offer lower inputs f p v" if "p \<in> set order" for p v
    proof
      assume "acceptable_offer lower inputs f p v"
      with that None show False
        using offer_of_provider [OF keys, of f p lower p v]
        by (auto simp: win_def field_winner_def)
    qed
    have "decision lower inputs f = Keep cur" using None dec by simp
    with kept none show ?thesis by blast
  next
    case (Some pv)
    obtain p v where pv: "pv = (p, v)" by (cases pv)
    from Some pv obtain better worse where best: "order = better @ p # worse"
      "acceptable_offer lower inputs f p v"
      "\<forall>q\<in>set better. \<forall>v'. \<not> acceptable_offer lower inputs f q v'"
      using field_winner_offer [OF keys, of order lower f p v] by (auto simp: win_def)
    show ?thesis
    proof (cases "outranked p")
      case True
      have "outranked q" if "q \<in> set order" "acceptable_offer lower inputs f q v'" for q v'
        using incumbent_outranks_beyond [of better p worse cur _ q] True that best
        by (auto simp: outranked_def)
      moreover have "decision lower inputs f = Keep cur" using Some pv dec True by simp
      ultimately show ?thesis using kept by blast
    next
      case False
      then have take: "decision lower inputs f = Take p v" using Some pv dec by simp
      then have "update_value f u = as_written lower f v" using val by simp
      moreover have "upsert_for (current_work inputs) f p \<in> set (o_provenance_upserts out)"
        unfolding out merge_result_upsert using f(1) take by force
      ultimately show ?thesis using best False by blast
    qed
  qed
  then show ?thesis unfolding Let_def order_def cur_def outranked_def .
qed

text \<open>
  a merge never loses data. Every field that had a stored value has a value in the
  update, every change of a value is accompanied by a provenance row naming the provider it came from,
  and no provenance is withdrawn.
\<close>

theorem merge_never_loses_data:
  fixes inputs :: "'f merge_input"
  assumes "merge lower show_f now inputs = Inr out" "o_work_update out = Some u" "f \<in> set MERGE_FIELDS"
  shows "(fv_is_some (extract_current_field f (current_work inputs)) \<longrightarrow> fv_is_some (update_value f u))
    \<and> (update_value f u \<noteq> as_written lower f (extract_current_field f (current_work inputs)) \<longrightarrow>
         (\<exists>p d. upsert_for (current_work inputs) f p \<in> set (o_provenance_upserts out)
            \<and> map_of (routed_eligible lower inputs) p = Some (Some d)
            \<and> update_value f u = as_written lower f (extract_provider_field f d)))
    \<and> o_provenance_deletes out = []"
proof -
  have out: "out = merge_result lower show_f now inputs"
    using assms(1) by (simp add: merge_eq split: if_splits)
  have val: "update_value f u = as_written lower f (decision_value (decision lower inputs f))"
    using assms(2,3) unfolding out by (rule merge_result_field)
  have written: "fv_is_some (as_written lower f v) \<longleftrightarrow> fv_is_some v" for v :: "'f field_value"
    by (cases "f = FLanguage"; cases v) simp_all
  have no_deletes: "o_provenance_deletes out = []" by (simp add: out merge_result_def)
  show ?thesis
  proof (cases "decision lower inputs f")
    case (Keep v)
    then have "v = extract_current_field f (current_work inputs)"
      by (auto simp: decision_def decide_field_def Let_def split: if_splits option.splits prod.splits)
    with Keep val no_deletes show ?thesis by (simp add: written)
  next
    case (Take p v)
    then have "field_winner (priority_list_for f (in_priority_model inputs)) (routed_eligible lower inputs)
        (routed_incompatible lower inputs) f = Some (p, v)"
      by (auto simp: decision_def decide_field_def Let_def split: if_splits option.splits prod.splits)
    from field_winner_Some [OF this] obtain d where
      d: "map_of (routed_eligible lower inputs) p = Some (Some d)" "v = extract_provider_field f d" "fv_is_some v"
      by blast
    have "upsert_for (current_work inputs) f p \<in> set (o_provenance_upserts out)"
      unfolding out merge_result_upsert using assms(3) Take by force
    with d Take val no_deletes show ?thesis by (auto simp: written)
  qed
qed

section \<open>Isolation\<close>

text \<open>
  Two sets of provider results that agree on everything but what conflicting providers carry and,
  for a foreign-language work, on everything but OpenLibrary and Hardcover.
\<close>

definition same_for_merge ::
  "(string \<Rightarrow> string) \<Rightarrow> 'f work \<Rightarrow> (metadata_provider \<times> 'f reconstructed_outcome) list
     \<Rightarrow> (metadata_provider \<times> 'f reconstructed_outcome) list \<Rightarrow> bool" where
  "same_for_merge lower w rs rs' \<longleftrightarrow>
     (let counts = filter (\<lambda>(p, oc). outcome_class oc \<noteq> Conflict
            \<and> \<not> (is_foreign lower w \<and> p \<in> {OpenLibrary, Hardcover}))
      in (rs = [] \<longleftrightarrow> rs' = []) \<and> counts rs = counts rs')"

lemma mode_eligible_not_conflict: "mode_eligible mode cls \<Longrightarrow> cls \<noteq> Conflict"
  by (cases mode; cases cls) (simp_all add: mode_eligible_def)

lemma eligible_from_counting:
  "eligible_providers (routed lower inputs) =
     map (\<lambda>(p, oc). (p, payload oc))
       (filter (\<lambda>(_, oc). mode_eligible (merge_mode inputs) (outcome_class oc))
          (filter (\<lambda>(p, oc). outcome_class oc \<noteq> Conflict
            \<and> \<not> (is_foreign lower (current_work inputs) \<and> p \<in> {OpenLibrary, Hardcover}))
            (provider_results inputs)))"
proof -
  have "filter (\<lambda>(_, oc). mode_eligible (merge_mode inputs) (outcome_class oc)) (provider_results (routed lower inputs))
      = filter (\<lambda>(_, oc). mode_eligible (merge_mode inputs) (outcome_class oc))
          (filter (\<lambda>(p, oc). outcome_class oc \<noteq> Conflict
            \<and> \<not> (is_foreign lower (current_work inputs) \<and> p \<in> {OpenLibrary, Hardcover}))
            (provider_results inputs))"
    by (auto simp: routed_def drop_language_incompatible_providers_def filter_filter
        intro!: filter_cong dest: mode_eligible_not_conflict)
  then show ?thesis by (simp add: eligible_providers_def)
qed

lemma decide_field_cong:
  assumes "current_work i = current_work j" "current_provenance i = current_provenance j"
    "in_priority_model i = in_priority_model j"
  shows "decide_field i el inc f = decide_field j el inc f"
  using assms by (simp add: decide_field_def)

lemma merge_field_cong:
  assumes "current_work i = current_work j" "current_provenance i = current_provenance j"
    "in_priority_model i = in_priority_model j"
  shows "merge_field i el inc = merge_field j el inc"
  using assms decide_field_cong [OF assms, of el inc] by (intro ext) (simp add: merge_field_def cong: decision.case_cong)

text \<open>
  C3 (safety): a conflicting provider, and on a foreign-language work OpenLibrary and Hardcover, have no
  influence on what a merge writes: changing their results in any way leaves the update, the provenance,
  the status, the source and both cover choices as they are. What a conflicting provider offered
  is recorded: each of its present fields becomes a dissent row.
\<close>

theorem excluded_providers_have_no_influence:
  fixes inputs :: "'f merge_input"
  assumes same: "same_for_merge lower (current_work inputs) (provider_results inputs) rs'"
  shows "map_sum id (\<lambda>out. out\<lparr>o_dissents := []\<rparr>) (merge lower show_f now (inputs\<lparr>provider_results := rs'\<rparr>))
       = map_sum id (\<lambda>out. out\<lparr>o_dissents := []\<rparr>) (merge lower show_f now inputs)
    \<and> (\<forall>out p oc d f t. merge lower show_f now inputs = Inr out
         \<and> (p, oc) \<in> set (provider_results (routed lower inputs)) \<and> outcome_class oc = Conflict
         \<and> payload oc = Some d \<and> f \<in> set MERGE_FIELDS
         \<and> field_value_text show_f (extract_provider_field f d) = Some t \<longrightarrow>
         (\<exists>r\<in>set (o_dissents out). fd_provider r = record_key p \<and> fd_field r = work_field_name f
            \<and> fd_offered_value r = t \<and> fd_reason r = PayloadMismatch))"
proof -
  let ?j = "inputs\<lparr>provider_results := rs'\<rparr>"
  have el: "routed_eligible lower ?j = routed_eligible lower inputs"
    using same by (simp add: routed_eligible_def eligible_from_counting same_for_merge_def Let_def)
  have empty: "rs' = [] \<longleftrightarrow> provider_results inputs = []"
    using same by (auto simp: same_for_merge_def Let_def)
  have inc: "routed_incompatible lower ?j = routed_incompatible lower inputs"
    by (simp add: routed_incompatible_def el)
  have "merge_field (routed lower ?j) = (merge_field (routed lower inputs) :: _ \<Rightarrow> _)"
    by (intro ext fun_cong [OF fun_cong [OF merge_field_cong]]) simp_all
  then have acc: "routed_acc lower ?j = routed_acc lower inputs"
    by (simp add: routed_acc_def el inc)
  have "cover_user_locked ?j = cover_user_locked inputs" by (simp add: cover_user_locked_def)
  then have "(merge_result lower show_f now ?j)\<lparr>o_dissents := []\<rparr>
      = (merge_result lower show_f now inputs)\<lparr>o_dissents := []\<rparr>"
    by (simp add: merge_result_def routed_source_def routed_status_def routed_cover_def el acc empty
        cong: option.case_cong)
  then have "map_sum id (\<lambda>out. out\<lparr>o_dissents := []\<rparr>) (merge lower show_f now ?j)
       = map_sum id (\<lambda>out. out\<lparr>o_dissents := []\<rparr>) (merge lower show_f now inputs)"
    by (simp add: merge_eq)
  moreover have "\<exists>r\<in>set (o_dissents out). fd_provider r = record_key p \<and> fd_field r = work_field_name f
      \<and> fd_offered_value r = t \<and> fd_reason r = PayloadMismatch"
    if "merge lower show_f now inputs = Inr out" "(p, oc) \<in> set (provider_results (routed lower inputs))"
      "outcome_class oc = Conflict" "payload oc = Some d" "f \<in> set MERGE_FIELDS"
      "field_value_text show_f (extract_provider_field f d) = Some t" for out p oc d f t
  proof -
    have out: "out = merge_result lower show_f now inputs"
      using that(1) by (simp add: merge_eq split: if_splits)
    have "(p, f, t, PayloadMismatch) \<in> set (offered_seeds show_f PayloadMismatch MERGE_FIELDS p d)"
      using that(5,6) by (force simp: offered_seeds_def)
    then have "(p, f, t, PayloadMismatch) \<in> set (conflict_seeds show_f (routed lower inputs))"
      using that(2-4) by (force simp: conflict_seeds_def)
    then have "(p, f, t, PayloadMismatch) \<in> set (routed_seeds lower show_f inputs)"
      by (simp add: routed_seeds_def)
    then show ?thesis
      by (force simp: out merge_result_def materialize_dissent_def image_iff)
  qed
  ultimately show ?thesis by blast
qed

text \<open>
  a merge fails exactly when one of the four provider orders is empty; the orders built from an
  accepted policy snapshot never are, whatever the language. A merge that does not fail withholds
  its update exactly when providers were asked and none of them is eligible after routing, and then it
  writes no provenance either.
\<close>

theorem merge_fails_or_withholds_exactly:
  fixes inputs :: "'f merge_input"
  shows "((\<exists>e. merge lower show_f now inputs = Inl e) \<longleftrightarrow>
      pm_content (in_priority_model inputs) = [] \<or> pm_description (in_priority_model inputs) = []
      \<or> pm_cover (in_priority_model inputs) = [] \<or> pm_audio (in_priority_model inputs) = [])
    \<and> (policy_validate policy = None \<longrightarrow>
        (\<exists>out. merge_from_cached lower show_f now (Policy policy) w payloads provenance language
             = Inr (out :: 'f merge_output)))
    \<and> (\<forall>out. merge lower show_f now inputs = Inr out \<longrightarrow>
        (o_work_update out = None \<longleftrightarrow> provider_results inputs \<noteq> [] \<and>
          (\<forall>(p, oc)\<in>set (provider_results inputs).
             (is_foreign lower (current_work inputs) \<and> p \<in> {OpenLibrary, Hardcover})
             \<or> \<not> mode_eligible (merge_mode inputs) (outcome_class oc)))
        \<and> (o_work_update out = None \<longrightarrow> o_provenance_upserts out = [] \<and> o_enrichment_source out = None))"
proof -
  have "model_ok (model_from_policy lower policy language)" if "policy_validate policy = None"
  proof -
    have "policy_ok (for_language policy k)" for k using that by (rule policy_validate_lists)
    moreover have "rank_table m \<noteq> []" for m by (cases m) simp_all
    ultimately show ?thesis by (simp add: model_ok_def model_from_policy_def Let_def policy_ok_def)
  qed
  then have policy: "\<exists>out. merge_from_cached lower show_f now (Policy policy) w payloads provenance language
      = Inr (out :: 'f merge_output)" if "policy_validate policy = None"
    using that by (simp add: merge_from_cached_def merge_eq)
  have none: "routed_eligible lower inputs = [] \<longleftrightarrow>
      (\<forall>(p, oc)\<in>set (provider_results inputs).
         (is_foreign lower (current_work inputs) \<and> p \<in> {OpenLibrary, Hardcover})
         \<or> \<not> mode_eligible (merge_mode inputs) (outcome_class oc))"
  proof -
    have "routed_eligible lower inputs = [] \<longleftrightarrow> (\<forall>p det. (p, det) \<notin> set (routed_eligible lower inputs))"
      by (cases "routed_eligible lower inputs") force+
    then show ?thesis unfolding routed_eligible_in by blast
  qed
  have untaken: "taken_from (decision lower inputs f) = None" if "routed_eligible lower inputs = []" for f
  proof -
    have "field_winner order ([] :: (metadata_provider \<times> 'f normalized_work_detail option) list) inc f = None"
      for order inc by (simp add: field_winner_def)
    then show ?thesis using that by (simp add: decision_def decide_field_def Let_def)
  qed
  have quiet: "contributing_providers (fold (merge_field i el inc) fs acc) = contributing_providers acc"
    if "\<And>f. taken_from (decide_field i el inc f) = None"
    for i :: "'f merge_input" and el inc fs acc
  proof (induction fs arbitrary: acc)
    case (Cons f fs)
    have "contributing_providers (merge_field i el inc f acc) = contributing_providers acc"
      using that [of f] by (simp add: merge_field_def split: decision.split) force
    with Cons show ?case by simp
  qed simp
  have silent: "provenance_upserts (routed_acc lower inputs) = [] \<and> routed_source lower inputs = None"
    if "routed_eligible lower inputs = []"
  proof
    show "provenance_upserts (routed_acc lower inputs) = []"
      by (simp add: routed_acc_upserts untaken [OF that])
    show "routed_source lower inputs = None"
      using untaken [OF that] by (simp add: routed_source_def routed_acc_def quiet decision_def)
  qed
  show ?thesis
    using policy silent by (auto simp: merge_eq model_ok_def merge_result_def none)
qed

section \<open>A merge of one work\<close>

text \<open>
  A German work with a title and a user-set publisher, results from Goodreads (a description),
  Hardcover (routed away) and Google Books (in conflict).
\<close>

definition sample_work :: "nat work" where
  "sample_work = blank_work\<lparr>w_title := ''Momo'', w_author_name := ''Ende'', w_language := Some ''de'',
     w_publisher := Some ''Thienemann''\<rparr>"

definition sample_input :: "nat merge_input" where
  "sample_input =
     \<lparr>current_work = sample_work,
      current_provenance =
        [\<lparr>p_user_id = 1, p_work_id = 1, p_field = FPublisher, p_source = None, p_set_at = 0,
          p_setter = SetUser, p_cleared = False\<rparr>],
      provider_results =
        [(Goodreads, \<lparr>outcome_class = Success,
            payload = Some (blank_detail\<lparr>d_title := Some ''X'', d_description := Some ''Zeit''\<rparr>)\<rparr>),
         (Hardcover, \<lparr>outcome_class = Success,
            payload = Some (blank_detail\<lparr>d_description := Some ''Time''\<rparr>)\<rparr>),
         (GoogleBooks, \<lparr>outcome_class = Conflict,
            payload = Some (blank_detail\<lparr>d_publisher := Some ''P''\<rparr>)\<rparr>)],
      merge_mode = Background, in_priority_model = foreign_model\<rparr>"

abbreviation sample_out :: "nat merge_output" where
  "sample_out \<equiv> merge_result to_ascii_lowercase show_nat 0 sample_input"

lemma sample_foreign: "is_foreign to_ascii_lowercase sample_work"
proof -
  have "provider_priority to_ascii_lowercase (Some ''de'') = Foreign" by code_simp
  then show ?thesis by (simp add: is_foreign_def sample_work_def)
qed

lemma sample_merge: "merge to_ascii_lowercase show_nat 0 sample_input = Inr sample_out"
  by (simp add: merge_eq model_ok_def sample_input_def foreign_model_def)

lemma sample_keys: "distinct (map fst (provider_results sample_input))"
  by (simp add: sample_input_def)

lemma sample_eligible:
  "routed_eligible to_ascii_lowercase sample_input =
     [(Goodreads, Some (blank_detail\<lparr>d_title := Some ''X'', d_description := Some ''Zeit''\<rparr>))]"
  using sample_foreign
  by (simp add: routed_eligible_def routed_def eligible_providers_def sample_input_def
      drop_language_incompatible_providers_def mode_eligible_def)

lemma sample_update: "\<exists>u. o_work_update sample_out = Some u"
  by (simp add: merge_result_def sample_eligible)

lemma sample_fields [simp]: "FTitle \<in> set MERGE_FIELDS" "FDescription \<in> set MERGE_FIELDS" "FPublisher \<in> set MERGE_FIELDS"
  by (simp_all add: MERGE_FIELDS_def)

theorem locked_fields_survive_every_merge_witness:
  "\<exists>u. o_work_update sample_out = Some u \<and> u_publisher u = Some ''Thienemann''"
proof -
  obtain u where u: "o_work_update sample_out = Some u" using sample_update by blast
  have "field_locked sample_input FPublisher"
    by (simp add: field_locked_def sample_input_def prov_map_def)
  with locked_fields_survive_every_merge [OF sample_merge u] sample_fields(3)
  have "update_value FPublisher u =
      as_written to_ascii_lowercase FPublisher (extract_current_field FPublisher (current_work sample_input))"
    by blast
  with u show ?thesis by (simp add: sample_input_def sample_work_def)
qed

lemma sample_offer:
  "acceptable_offer to_ascii_lowercase sample_input FDescription Goodreads (FV_Str (Some ''Zeit''))"
proof -
  have "non_blank (Some ''Zeit'') = Some ''Zeit''" by code_simp
  then show ?thesis
    by (simp add: acceptable_offer_def sample_input_def mode_eligible_def language_clash_def
        blank_detail_def non_blank_def)
qed

theorem merge_takes_the_best_acceptable_offer_witness:
  "\<exists>u. o_work_update sample_out = Some u \<and> u_description u = Some ''Zeit''"
proof -
  obtain u where u: "o_work_update sample_out = Some u" using sample_update by blast
  have "\<not> field_locked sample_input FDescription"
    by (simp add: field_locked_def sample_input_def prov_map_def)
  note best = merge_takes_the_best_acceptable_offer [OF sample_keys sample_merge u sample_fields(2) this]
  have order: "priority_list_for FDescription (in_priority_model sample_input) =
      [GoogleBooks, Goodreads, Hardcover, Readarr, OpenLibrary, Audible]"
    by (simp add: priority_list_for_def sample_input_def foreign_model_def)
  have unranked: "\<not> incumbent_outranks ps cur (prov_map (current_provenance sample_input) FDescription) p"
    for ps p and cur :: "nat field_value"
    by (simp add: incumbent_outranks_def sample_input_def prov_map_def)
  have only: "p = Goodreads \<and> v = FV_Str (Some ''Zeit'')"
    if "acceptable_offer to_ascii_lowercase sample_input FDescription p v" for p v
    using that sample_foreign
    by (auto simp: acceptable_offer_def sample_input_def mode_eligible_def blank_detail_def non_blank_def
        split: if_splits)
  have "Goodreads \<in> set (priority_list_for FDescription (in_priority_model sample_input))"
    by (simp add: order)
  with best [unfolded Let_def] sample_offer unranked obtain p v where
    "acceptable_offer to_ascii_lowercase sample_input FDescription p v"
    "update_value FDescription u = as_written to_ascii_lowercase FDescription v" by blast
  then have "update_value FDescription u = FV_Str (Some ''Zeit'')" using only by auto
  with u show ?thesis by simp
qed

theorem merge_never_loses_data_witness:
  "\<exists>u. o_work_update sample_out = Some u \<and> fv_is_some (update_value FTitle u)"
proof -
  obtain u where u: "o_work_update sample_out = Some u" using sample_update by blast
  have "non_blank_owned ''Momo'' = Some ''Momo''" by code_simp
  then have "fv_is_some (extract_current_field FTitle (current_work sample_input))"
    by (simp add: sample_input_def sample_work_def)
  with merge_never_loses_data [OF sample_merge u sample_fields(1)] u show ?thesis by blast
qed

theorem excluded_providers_have_no_influence_witness:
  "map_sum id (\<lambda>out. out\<lparr>o_dissents := []\<rparr>) (merge to_ascii_lowercase show_nat 0
       (sample_input\<lparr>provider_results := [hd (provider_results sample_input)]\<rparr>))
     = map_sum id (\<lambda>out. out\<lparr>o_dissents := []\<rparr>) (merge to_ascii_lowercase show_nat 0 sample_input)"
proof -
  have "same_for_merge to_ascii_lowercase (current_work sample_input) (provider_results sample_input)
      [hd (provider_results sample_input)]"
    using sample_foreign by (simp add: same_for_merge_def sample_input_def)
  from excluded_providers_have_no_influence [OF this] show ?thesis by blast
qed

theorem merge_fails_or_withholds_exactly_witness:
  "\<exists>out. merge_from_cached to_ascii_lowercase show_nat 0
      (Policy \<lparr>by_language = [(''en'', sample_policy)], generic = sample_policy\<rparr>) sample_work [] [] (Some ''de'')
     = Inr out"
proof -
  have "policy_validate \<lparr>by_language = [(''en'', sample_policy)], generic = sample_policy\<rparr> = None"
    by code_simp
  then show ?thesis
    using merge_fails_or_withholds_exactly [of to_ascii_lowercase show_nat 0 sample_input
        "\<lparr>by_language = [(''en'', sample_policy)], generic = sample_policy\<rparr>" sample_work "[]" "[]" "Some ''de''"]
    by blast
qed

end
