(* ===== verification/MergeApply.thy ===== *)
theory MergeApply
  imports MergeProperties
begin

text \<open>
  Persisting a merge: \<^verbatim>\<open>build_apply_request\<close> of \<^verbatim>\<open>merge_engine.rs\<close> and the transaction
  \<^verbatim>\<open>apply_enrichment_merge\<close> of \<^verbatim>\<open>crates/livrarr-db/src/sqlite_work.rs\<close>, with its compare-and-set on
  the row's merge generation.

  The database is the \<^verbatim>\<open>works\<close> table, by (work, user), and the provenance table, by its unique key (work,
  field). A transaction that fails or is superseded leaves both as they were. \<^verbatim>\<open>identity_key\<close> is a
  parameter here; the columns it feeds are read by nothing in this component. A NULL in the \<^verbatim>\<open>abridged\<close>
  column makes a row unreadable (\<open>read_work\<close>).
\<close>

record 'f apply_request =
  a_user_id :: int
  a_work_id :: int
  a_expected_merge_generation :: int
  a_work_update :: "'f work_update option"
  a_new_enrichment_status :: enrichment_status
  a_provenance_upserts :: "set_field_provenance_request list"
  a_provenance_deletes :: "work_field list"

definition build_apply_request :: "'f merge_output \<Rightarrow> int \<Rightarrow> int \<Rightarrow> int \<Rightarrow> 'f apply_request" where
  "build_apply_request out user_id work_id expected =
     \<lparr>a_user_id = user_id, a_work_id = work_id, a_expected_merge_generation = expected,
      a_work_update = o_work_update out, a_new_enrichment_status = o_enrichment_status out,
      a_provenance_upserts =
        map (\<lambda>p. p\<lparr>s_user_id := user_id, s_work_id := work_id\<rparr>) (o_provenance_upserts out),
      a_provenance_deletes = o_provenance_deletes out\<rparr>"

datatype apply_outcome = Applied | NoChange | Deferred | Superseded

datatype db_error = DbNotFound | DbConstraint string

record 'f work_row =
  row_work :: "'f work"
  row_abridged :: "bool option"
  row_normalized_title :: string
  row_normalized_author :: string
  row_merge_generation :: int

record 'f merge_db =
  db_works :: "int \<times> int \<rightharpoonup> 'f work_row"
  db_provenance :: "int \<times> work_field \<rightharpoonup> field_provenance"

definition read_work :: "'f work_row \<Rightarrow> 'f work option" where
  "read_work row = map_option (\<lambda>b. (row_work row)\<lparr>w_abridged := b\<rparr>) (row_abridged row)"

definition coalesce :: "'a option \<Rightarrow> 'a \<Rightarrow> 'a" where
  "coalesce new old = (case new of Some v \<Rightarrow> v | None \<Rightarrow> old)"

definition identity_columns ::
  "(string \<Rightarrow> string \<Rightarrow> string \<times> string) \<Rightarrow> string option \<Rightarrow> string option \<Rightarrow> string option \<times> string option" where
  "identity_columns identity_key title author =
     (case (title, author) of
        (Some t, Some a) \<Rightarrow> (Some (fst (identity_key t a)), Some (snd (identity_key t a)))
      | (Some t, None) \<Rightarrow> (Some (fst (identity_key t [])), None)
      | (None, Some a) \<Rightarrow> (None, Some (snd (identity_key [] a)))
      | (None, None) \<Rightarrow> (None, None))"

text \<open>The \<^verbatim>\<open>UPDATE works SET ...\<close> of the full path; \<open>won\<close> says whether a provider won the description.\<close>

definition update_row ::
  "(string \<Rightarrow> string \<Rightarrow> string \<times> string) \<Rightarrow> int \<Rightarrow> bool \<Rightarrow> enrichment_status \<Rightarrow> 'f work_update
     \<Rightarrow> 'f work_row \<Rightarrow> 'f work_row" where
  "update_row identity_key now won status u row =
     (let w = row_work row; cols = identity_columns identity_key (u_title u) (u_author_name u) in
      row\<lparr>row_work := w\<lparr>
            w_title := coalesce (u_title u) (w_title w),
            w_subtitle := u_subtitle u,
            w_original_title := u_original_title u,
            w_author_name := coalesce (u_author_name u) (w_author_name w),
            w_description := u_description u,
            w_description_truncated :=
              (if won \<and> w_description w \<noteq> u_description u then False else w_description_truncated w),
            w_year := u_year u,
            w_series_name := u_series_name u,
            w_series_position := u_series_position u,
            w_genres := u_genres u,
            w_language := (case u_language u of
                Some l \<Rightarrow> if l = [] then w_language w else Some l | None \<Rightarrow> w_language w),
            w_page_count := u_page_count u,
            w_duration_seconds := u_duration_seconds u,
            w_publisher := u_publisher u,
            w_publish_date := u_publish_date u,
            w_original_publish_date := u_original_publish_date u,
            w_narrator := u_narrator u,
            w_narration_type := u_narration_type u,
            w_rating := u_rating u,
            w_rating_count := u_rating_count u,
            w_enrichment_source := u_enrichment_source u,
            w_enrichment_status := status,
            w_enriched_at := Some now\<rparr>,
          row_abridged := u_abridged u,
          row_normalized_title := coalesce (fst cols) (row_normalized_title row),
          row_normalized_author := coalesce (snd cols) (row_normalized_author row),
          row_merge_generation := row_merge_generation row + 1\<rparr>)"

definition update_status :: "enrichment_status \<Rightarrow> 'f work_row \<Rightarrow> 'f work_row" where
  "update_status status row =
     row\<lparr>row_work := (row_work row)\<lparr>w_enrichment_status := status\<rparr>,
         row_merge_generation := row_merge_generation row + 1\<rparr>"

definition validate_upsert :: "set_field_provenance_request \<Rightarrow> db_error option" where
  "validate_upsert p =
     (if s_setter p = SetProvider then
        if s_source p = None then Some (DbConstraint ''provider setter requires a non-null source'')
        else if s_cleared p then Some (DbConstraint ''provider setter cannot have cleared=true'')
        else None
      else if s_source p \<noteq> None
        then Some (DbConstraint ''user/system/auto_added setter must not have a source'')
      else None)"

fun write_upserts ::
  "int \<Rightarrow> set_field_provenance_request list \<Rightarrow> (int \<times> work_field \<rightharpoonup> field_provenance)
     \<Rightarrow> db_error + (int \<times> work_field \<rightharpoonup> field_provenance)" where
  "write_upserts now [] table = Inr table"
| "write_upserts now (p # ps) table =
     (case validate_upsert p of
        Some err \<Rightarrow> Inl err
      | None \<Rightarrow> write_upserts now ps (table((s_work_id p, s_field p) \<mapsto>
            \<lparr>p_user_id = s_user_id p, p_work_id = s_work_id p, p_field = s_field p, p_source = s_source p,
             p_set_at = now, p_setter = s_setter p, p_cleared = s_cleared p\<rparr>)))"

definition write_deletes ::
  "int \<Rightarrow> work_field list \<Rightarrow> (int \<times> work_field \<rightharpoonup> field_provenance) \<Rightarrow> (int \<times> work_field \<rightharpoonup> field_provenance)" where
  "write_deletes work_id fs table = fold (\<lambda>f t. t((work_id, f) := None)) fs table"

definition apply_enrichment_merge ::
  "(string \<Rightarrow> string \<Rightarrow> string \<times> string) \<Rightarrow> int \<Rightarrow> 'f apply_request \<Rightarrow> 'f merge_db
     \<Rightarrow> (db_error + apply_outcome) \<times> 'f merge_db" where
  "apply_enrichment_merge identity_key now req db =
     (let key = (a_work_id req, a_user_id req) in
      case db_works db key of
        None \<Rightarrow> (Inl DbNotFound, db)
      | Some row \<Rightarrow>
          if row_merge_generation row \<noteq> a_expected_merge_generation req then (Inr Superseded, db)
          else
            let won = (\<exists>p\<in>set (a_provenance_upserts req). s_field p = FDescription);
                row' = (case a_work_update req of
                          Some u \<Rightarrow> update_row identity_key now won (a_new_enrichment_status req) u row
                        | None \<Rightarrow> update_status (a_new_enrichment_status req) row)
            in case write_upserts now (a_provenance_upserts req) (db_provenance db) of
                 Inl err \<Rightarrow> (Inl err, db)
               | Inr table \<Rightarrow>
                   (Inr Applied,
                    db\<lparr>db_works := (db_works db)(key \<mapsto> row'),
                       db_provenance := write_deletes (a_work_id req) (a_provenance_deletes req) table\<rparr>))"

section \<open>The compare-and-set\<close>

text \<open>What no enrichment may change: identity, anchors, covers and monitoring of a work.\<close>

definition protected_columns :: "'f work \<Rightarrow> _" where
  "protected_columns w =
     ((w_id w, w_user_id w, w_author_id w, w_series_id w),
      (w_ol_key w, w_hc_key w, w_gr_key w, w_isbn_13 w, w_asin w, w_identity_status w),
      (w_cover_url w, w_cover_manual w, w_cover_source w, w_cover_width w, w_cover_height w),
      (w_audiobook_cover_url w, w_audiobook_cover_source w, w_audiobook_cover_width w,
       w_audiobook_cover_height w),
      (w_monitor_ebook w, w_monitor_audiobook w, w_import_id w, w_added_at w, w_sort_title w))"

lemma update_row_protected:
  "protected_columns (row_work (update_row ik now won st u row)) = protected_columns (row_work row)"
  by (simp add: update_row_def protected_columns_def Let_def)

lemma update_row_generation:
  "row_merge_generation (update_row ik now won st u row) = row_merge_generation row + 1"
  by (simp add: update_row_def Let_def)

lemma update_status_protected:
  "protected_columns (row_work (update_status st row)) = protected_columns (row_work row)"
  "row_merge_generation (update_status st row) = row_merge_generation row + 1"
  by (simp_all add: update_status_def protected_columns_def)

text \<open>
  merges computed from the same generation of a work cannot overwrite each other: applying one
  raises the generation by one, every later request that expects the old generation is
  superseded and changes nothing, and so does any request that fails. An applied merge leaves the
  anchors, the identity status, the cover columns and the monitoring flags of the work, and every
  other work, as they were.
\<close>

theorem stale_merges_never_overwrite:
  assumes "apply_enrichment_merge ik now req db = (res, db')"
  shows "(res \<noteq> Inr Applied \<longrightarrow> db' = db)
    \<and> (res = Inr Applied \<longrightarrow>
        (\<exists>row row'. db_works db (a_work_id req, a_user_id req) = Some row
           \<and> db_works db' = (db_works db)((a_work_id req, a_user_id req) \<mapsto> row')
           \<and> row_merge_generation row = a_expected_merge_generation req
           \<and> row_merge_generation row' = row_merge_generation row + 1
           \<and> protected_columns (row_work row') = protected_columns (row_work row))
        \<and> (\<forall>req2 now2. a_work_id req2 = a_work_id req \<and> a_user_id req2 = a_user_id req
             \<and> a_expected_merge_generation req2 = a_expected_merge_generation req \<longrightarrow>
             apply_enrichment_merge ik now2 req2 db' = (Inr Superseded, db')))"
proof (cases "res = Inr Applied")
  case False
  with assms show ?thesis
    by (auto simp: apply_enrichment_merge_def Let_def split: option.splits if_splits sum.splits)
next
  case True
  let ?key = "(a_work_id req, a_user_id req)"
  from True assms obtain row table where
    row: "db_works db ?key = Some row" "row_merge_generation row = a_expected_merge_generation req"
    and db': "db' = db\<lparr>db_works := (db_works db)(?key \<mapsto>
        (case a_work_update req of
           Some u \<Rightarrow> update_row ik now (\<exists>p\<in>set (a_provenance_upserts req). s_field p = FDescription)
                       (a_new_enrichment_status req) u row
         | None \<Rightarrow> update_status (a_new_enrichment_status req) row)),
        db_provenance := write_deletes (a_work_id req) (a_provenance_deletes req) table\<rparr>"
    by (auto simp: apply_enrichment_merge_def Let_def split: option.splits if_splits sum.splits)
  define row' where "row' = (case a_work_update req of
      Some u \<Rightarrow> update_row ik now (\<exists>p\<in>set (a_provenance_upserts req). s_field p = FDescription)
                  (a_new_enrichment_status req) u row
    | None \<Rightarrow> update_status (a_new_enrichment_status req) row)"
  have gen: "row_merge_generation row' = row_merge_generation row + 1"
    and prot: "protected_columns (row_work row') = protected_columns (row_work row)"
    by (simp_all add: row'_def update_row_generation update_row_protected update_status_protected
        split: option.split)
  have works: "db_works db' = (db_works db)(?key \<mapsto> row')" by (simp add: db' row'_def)
  have "apply_enrichment_merge ik now2 req2 db' = (Inr Superseded, db')"
    if "a_work_id req2 = a_work_id req" "a_user_id req2 = a_user_id req"
      "a_expected_merge_generation req2 = a_expected_merge_generation req" for req2 :: "'a apply_request" and now2
    using that works gen row(2) by (simp add: apply_enrichment_merge_def)
  with True row works gen prot show ?thesis by blast
qed

section \<open>Merging again\<close>

text \<open>The provenance rows of a work, in whatever order the query lists them.\<close>

definition reads_provenance :: "'f merge_db \<Rightarrow> int \<Rightarrow> field_provenance list \<Rightarrow> bool" where
  "reads_provenance db work_id ps \<longleftrightarrow> prov_map ps = (\<lambda>f. db_provenance db (work_id, f))"

definition provenance_row :: "int \<Rightarrow> set_field_provenance_request \<Rightarrow> field_provenance" where
  "provenance_row now p =
     \<lparr>p_user_id = s_user_id p, p_work_id = s_work_id p, p_field = s_field p, p_source = s_source p,
      p_set_at = now, p_setter = s_setter p, p_cleared = s_cleared p\<rparr>"

lemma write_upserts_lookup:
  assumes "\<forall>p\<in>set ps. validate_upsert p = None \<and> s_work_id p = wid" and "distinct (map s_field ps)"
  shows "\<exists>table'. write_upserts now ps table = Inr table' \<and>
    (\<forall>p\<in>set ps. table' (wid, s_field p) = Some (provenance_row now p)) \<and>
    (\<forall>f. f \<notin> s_field ` set ps \<longrightarrow> table' (wid, f) = table (wid, f))"
  using assms
proof (induction ps arbitrary: table)
  case (Cons p ps)
  let ?t = "table((wid, s_field p) \<mapsto> provenance_row now p)"
  have "\<forall>p\<in>set ps. validate_upsert p = None \<and> s_work_id p = wid" "distinct (map s_field ps)"
    using Cons.prems by auto
  from Cons.IH [OF this, of ?t] obtain table' where
    t': "write_upserts now ps ?t = Inr table'"
    "\<forall>q\<in>set ps. table' (wid, s_field q) = Some (provenance_row now q)"
    "\<forall>f. f \<notin> s_field ` set ps \<longrightarrow> table' (wid, f) = ?t (wid, f)" by blast
  have "write_upserts now (p # ps) table = Inr table'"
    using Cons.prems t'(1) by (simp add: provenance_row_def)
  with t'(2,3) Cons.prems(2) show ?case by auto
qed simp

text \<open>A stored value is what a merge wrote, read back.\<close>

lemma name_not_blank:
  assumes "from_work_or_provider f (FV_Str (Some t))" and "f \<in> {FTitle, FAuthorName, FLanguage}"
  shows "trim t \<noteq> []"
  using assms
  by (auto simp: from_work_or_provider_def non_blank_def non_blank_owned_def split: option.splits if_splits)

lemma read_back:
  fixes inputs :: "'f merge_input"
  assumes u: "o_work_update (merge_result lower show_f now inputs) = Some u"
    and lang: "w_language (current_work inputs) = Some l" "trim l \<noteq> []" "normalize_language lower l = l"
    and row: "read_work row = Some (current_work inputs)"
    and row': "read_work (update_row ik now' won st u row) = Some w'"
    and f: "f \<in> set MERGE_FIELDS"
  shows "extract_current_field f w' = update_value f u"
proof -
  obtain z where z: "(row_work row)\<lparr>w_abridged := z\<rparr> = current_work inputs"
    using row by (auto simp: read_work_def)
  note w = z [symmetric]
  have keep: "fv_is_some (extract_current_field g (current_work inputs)) \<Longrightarrow> fv_is_some (decision_value (decision lower inputs g))"
    for g by (rule decision_keeps_some)
  have val: "g \<in> set MERGE_FIELDS \<Longrightarrow> g \<noteq> FLanguage \<Longrightarrow> update_value g u = decision_value (decision lower inputs g)" for g
    using merge_result_field [OF u, of g] by simp
  have src: "from_work_or_provider g (decision_value (decision lower inputs g))" for g
    by (simp add: decision_def decide_field_source)
  note row'' = row' [unfolded read_work_def update_row_def Let_def, simplified]
  consider "f = FTitle" | "f = FAuthorName" | "f = FLanguage" | "f = FAbridged"
    | "f \<notin> {FTitle, FAuthorName, FLanguage, FAbridged}" by blast
  then show ?thesis
  proof cases
    case 1
    have v: "FV_Str (u_title u) = decision_value (decision lower inputs FTitle)"
      using val [of FTitle] f 1 by simp
    show ?thesis
    proof (cases "u_title u")
      case None
      then have "non_blank_owned (w_title (current_work inputs)) = None"
        using keep [of FTitle] v by (cases "non_blank_owned (w_title (current_work inputs))") (auto simp: v [symmetric])
      moreover have "w_title w' = w_title (current_work inputs)"
        using row'' None by (auto simp: coalesce_def w)
      ultimately show ?thesis using None 1 by simp
    next
      case (Some t)
      then have "trim t \<noteq> []" using name_not_blank [of FTitle t] src [of FTitle] by (simp add: v [symmetric])
      moreover have "w_title w' = t" using row'' Some by (auto simp: coalesce_def)
      ultimately show ?thesis using Some 1 by (simp add: non_blank_owned_def)
    qed
  next
    case 2
    have v: "FV_Str (u_author_name u) = decision_value (decision lower inputs FAuthorName)"
      using val [of FAuthorName] f 2 by simp
    show ?thesis
    proof (cases "u_author_name u")
      case None
      then have "non_blank_owned (w_author_name (current_work inputs)) = None"
        using keep [of FAuthorName] v
        by (cases "non_blank_owned (w_author_name (current_work inputs))") (auto simp: v [symmetric])
      moreover have "w_author_name w' = w_author_name (current_work inputs)"
        using row'' None by (auto simp: coalesce_def w)
      ultimately show ?thesis using None 2 by simp
    next
      case (Some t)
      then have "trim t \<noteq> []" using name_not_blank [of FAuthorName t] src [of FAuthorName] by (simp add: v [symmetric])
      moreover have "w_author_name w' = t" using row'' Some by (auto simp: coalesce_def)
      ultimately show ?thesis using Some 2 by (simp add: non_blank_owned_def)
    qed
  next
    case 3
    have "field_locked inputs FLanguage" using lang by (simp add: field_locked_def non_blank_def)
    then have u_lang: "u_language u = Some l"
      using merge_result_field [OF u f] decision_locked [of inputs FLanguage lower] 3 lang
      by (simp add: non_blank_def)
    have "l \<noteq> []" using lang(2) by auto
    then have "w_language w' = Some l" using row'' u_lang by (auto simp: w)
    then show ?thesis using 3 u_lang lang(2) by (simp add: non_blank_def)
  next
    case 4
    then show ?thesis using row'' by auto
  next
    case 5
    with f row'' show ?thesis by (cases f) (auto simp: MERGE_FIELDS_def)
  qed
qed

section \<open>Applying a merge and merging again\<close>

lemma upserts_written:
  fixes inputs :: "'f merge_input"
  shows "\<exists>table'. write_upserts now'
      (a_provenance_upserts (build_apply_request (merge_result lower show_f now inputs) uid wid g)) table = Inr table'
    \<and> (\<forall>f\<in>set MERGE_FIELDS. case taken_from (decision lower inputs f) of
          Some p \<Rightarrow> (\<exists>fp. table' (wid, f) = Some fp \<and> p_source fp = Some p \<and> p_setter fp = SetProvider)
        | None \<Rightarrow> table' (wid, f) = table (wid, f))"
proof -
  let ?ups = "o_provenance_upserts (merge_result lower show_f now inputs)"
  let ?own = "\<lambda>p. p\<lparr>s_user_id := uid, s_work_id := wid\<rparr>"
  have "distinct (map s_field ?ups)" by (rule merge_result_upserts_distinct)
  then have "distinct (map s_field (map ?own ?ups))" by (simp add: o_def)
  moreover have "\<forall>p\<in>set (map ?own ?ups). validate_upsert p = None \<and> s_work_id p = wid"
    by (auto simp: merge_result_upsert upsert_for_def validate_upsert_def)
  ultimately obtain table' where t: "write_upserts now' (map ?own ?ups) table = Inr table'"
    "\<forall>p\<in>set (map ?own ?ups). table' (wid, s_field p) = Some (provenance_row now' p)"
    "\<forall>f. f \<notin> s_field ` set (map ?own ?ups) \<longrightarrow> table' (wid, f) = table (wid, f)"
    using write_upserts_lookup [of "map ?own ?ups" wid now' table] by blast
  have "case taken_from (decision lower inputs f) of
          Some p \<Rightarrow> (\<exists>fp. table' (wid, f) = Some fp \<and> p_source fp = Some p \<and> p_setter fp = SetProvider)
        | None \<Rightarrow> table' (wid, f) = table (wid, f)" if f: "f \<in> set MERGE_FIELDS" for f
  proof (cases "taken_from (decision lower inputs f)")
    case None
    then have "f \<notin> s_field ` set (map ?own ?ups)"
      by (auto simp: merge_result_upsert upsert_for_def)
    with t(3) None show ?thesis by simp
  next
    case (Some p)
    then have "upsert_for (current_work inputs) f p \<in> set ?ups" using f by (auto simp: merge_result_upsert)
    then have "?own (upsert_for (current_work inputs) f p) \<in> set (map ?own ?ups)" by simp
    with t(2) have "table' (wid, s_field (?own (upsert_for (current_work inputs) f p)))
        = Some (provenance_row now' (?own (upsert_for (current_work inputs) f p)))" by blast
    with Some show ?thesis by (simp add: upsert_for_def provenance_row_def)
  qed
  with t(1) show ?thesis by (auto simp: build_apply_request_def)
qed

lemma outranks_self: "\<not> incumbent_outranks order cur (Some fp) p" if "p_source fp = Some p"
  using that by (simp add: incumbent_outranks_def split: option.split)

text \<open>The second decision on a field repeats the first, once its outcome is stored.\<close>

lemma decision_again:
  fixes i j :: "'f merge_input"
  assumes el: "routed_eligible lower j = routed_eligible lower i"
    and inc: "routed_incompatible lower j = routed_incompatible lower i"
    and pm: "in_priority_model j = in_priority_model i"
    and cur: "extract_current_field f (current_work j) = decision_value (decision lower i f)"
    and kept: "taken_from (decision lower i f) = None \<Longrightarrow>
      prov_map (current_provenance j) f = prov_map (current_provenance i) f"
    and taken: "\<And>p. taken_from (decision lower i f) = Some p \<Longrightarrow>
      \<exists>fp. prov_map (current_provenance j) f = Some fp \<and> p_source fp = Some p \<and> p_setter fp = SetProvider"
  shows "decision_value (decision lower j f) = decision_value (decision lower i f)"
proof (rule decision_cases [of lower i f])
  assume keep: "decision lower i f = Keep (extract_current_field f (current_work i))"
  then have "extract_current_field f (current_work j) = extract_current_field f (current_work i)"
    and "prov_map (current_provenance j) f = prov_map (current_provenance i) f"
    using cur kept by simp_all
  then have "decision lower j f = decision lower i f"
    using el inc pm by (simp add: decision_def decide_field_def)
  then show ?thesis by simp
next
  fix p v
  assume take: "decision lower i f = Take p v"
    and win: "field_winner (priority_list_for f (in_priority_model i)) (routed_eligible lower i)
      (routed_incompatible lower i) f = Some (p, v)"
  from taken [of p] take obtain fp where fp: "prov_map (current_provenance j) f = Some fp"
    "p_source fp = Some p" "p_setter fp = SetProvider" by auto
  show ?thesis
  proof (cases "field_locked j f")
    case True
    then show ?thesis using decision_locked [OF True, of lower] cur by simp
  next
    case False
    then show ?thesis
      using decision_unlocked [OF False, of lower] win el inc pm fp take
      by (simp add: Let_def outranks_self)
  qed
qed

text \<open>
  C2 (invariant): For a work that already has a language, not blank and in normal form, a merge is a fixed point once it is
  stored: applying the merge's output to the database at the generation it was computed from succeeds,
  the stored row reads back exactly the values of the update, and merging the stored row again with
  the same provider results computes the same value for every field. A work without a stored language is left out, because there a
  provider can fill the language in, and the language decides which providers count in the second merge.
\<close>

theorem applied_merge_is_a_fixed_point:
  fixes inputs :: "'f merge_input"
  assumes stored: "db_works db (wid, uid) = Some row" "read_work row = Some (current_work inputs)"
      "reads_provenance db wid (current_provenance inputs)"
    and lang: "w_language (current_work inputs) = Some l" "trim l \<noteq> []" "normalize_language lower l = l"
    and merged: "merge lower show_f now inputs = Inr out" "o_work_update out = Some u"
    and applied: "apply_enrichment_merge ik now'
      (build_apply_request out uid wid (row_merge_generation row)) db = (res, db')"
  shows "res = Inr Applied \<and> (\<exists>row' w'. db_works db' (wid, uid) = Some row' \<and> read_work row' = Some w' \<and>
    (\<forall>ps. reads_provenance db' wid ps \<longrightarrow>
       (\<exists>out' u'. merge lower show_f now (inputs\<lparr>current_work := w', current_provenance := ps\<rparr>) = Inr out'
          \<and> o_work_update out' = Some u'
          \<and> (\<forall>f\<in>set MERGE_FIELDS. update_value f u' = update_value f u
                \<and> extract_current_field f w' = update_value f u))))"
proof -
  have out: "out = merge_result lower show_f now inputs" and ok: "model_ok (in_priority_model inputs)"
    using merged(1) by (simp_all add: merge_eq split: if_splits)
  have u: "o_work_update (merge_result lower show_f now inputs) = Some u" using merged(2) out by simp
  define req where "req = build_apply_request out uid wid (row_merge_generation row)"
  obtain table' where table': "write_upserts now' (a_provenance_upserts req) (db_provenance db) = Inr table'"
    "\<forall>f\<in>set MERGE_FIELDS. case taken_from (decision lower inputs f) of
        Some p \<Rightarrow> (\<exists>fp. table' (wid, f) = Some fp \<and> p_source fp = Some p \<and> p_setter fp = SetProvider)
      | None \<Rightarrow> table' (wid, f) = db_provenance db (wid, f)"
    using upserts_written unfolding req_def out by blast
  define row' where "row' = update_row ik now' (\<exists>p\<in>set (a_provenance_upserts req). s_field p = FDescription)
      (a_new_enrichment_status req) u row"
  have req: "a_work_id req = wid" "a_user_id req = uid" "a_expected_merge_generation req = row_merge_generation row"
    "a_work_update req = Some u" "a_provenance_deletes req = []"
    using merged(2) by (simp_all add: req_def build_apply_request_def out merge_result_def)
  have res: "res = Inr Applied" and db': "db' = db\<lparr>db_works := (db_works db)((wid, uid) \<mapsto> row'), db_provenance := table'\<rparr>"
    using applied stored(1) req table'(1)
    by (simp_all add: apply_enrichment_merge_def req_def [symmetric] row'_def write_deletes_def)
  have "fv_is_some (decision_value (decision lower inputs FAbridged))"
    by (rule decision_keeps_some) simp
  moreover have "FV_Bool (u_abridged u) = decision_value (decision lower inputs FAbridged)"
    using merge_result_field [OF u, of FAbridged] by (simp add: MERGE_FIELDS_def)
  ultimately obtain b where "u_abridged u = Some b" by (metis fv_is_some.simps(4) option.exhaust)
  then obtain w' where w': "read_work row' = Some w'" by (simp add: read_work_def row'_def update_row_def Let_def)
  have stored_values: "extract_current_field f w' = update_value f u" if "f \<in> set MERGE_FIELDS" for f
    using read_back [OF u lang stored(2) w' [unfolded row'_def] that] .
  have lang_locked: "decision lower inputs FLanguage = Keep (FV_Str (Some l))"
    using decision_locked [of inputs FLanguage lower] lang by (simp add: field_locked_def non_blank_def)
  have written: "update_value f u = decision_value (decision lower inputs f)" if "f \<in> set MERGE_FIELDS" for f
    using merge_result_field [OF u that] lang_locked lang(3) by (cases "f = FLanguage") simp_all
  have w'_lang: "w_language w' = Some l"
    using stored_values [of FLanguage] written [of FLanguage] lang_locked
    by (auto simp: MERGE_FIELDS_def non_blank_def split: option.splits if_splits)
  have again: "\<exists>out' u'. merge lower show_f now (inputs\<lparr>current_work := w', current_provenance := ps\<rparr>) = Inr out'
      \<and> o_work_update out' = Some u'
      \<and> (\<forall>f\<in>set MERGE_FIELDS. update_value f u' = update_value f u \<and> extract_current_field f w' = update_value f u)"
    if ps: "reads_provenance db' wid ps" for ps
  proof -
    let ?j = "inputs\<lparr>current_work := w', current_provenance := ps\<rparr>"
    have foreign: "is_foreign lower w' = is_foreign lower (current_work inputs)"
      using w'_lang lang(1) by (simp add: is_foreign_def)
    have el: "routed_eligible lower ?j = routed_eligible lower inputs"
      by (simp add: routed_eligible_def routed_def eligible_providers_def
          drop_language_incompatible_providers_def foreign)
    have inc: "routed_incompatible lower ?j = routed_incompatible lower inputs"
      by (simp add: routed_incompatible_def el language_incompatible_def foreign w'_lang lang(1)
          cong: option.case_cong)
    have prov: "prov_map ps f = table' (wid, f)" "prov_map (current_provenance inputs) f = db_provenance db (wid, f)" for f
      using ps stored(3) by (simp_all add: reads_provenance_def db')
    have same: "decision_value (decision lower ?j f) = decision_value (decision lower inputs f)"
      if "f \<in> set MERGE_FIELDS" for f
    proof (rule decision_again [OF el inc])
      show "extract_current_field f (current_work ?j) = decision_value (decision lower inputs f)"
        using stored_values [OF that] written [OF that] by simp
    qed (use bspec [OF table'(2) that] prov in simp_all)
    obtain u' where u': "o_work_update (merge_result lower show_f now ?j) = Some u'"
      using u by (auto simp: merge_result_def el split: if_splits)
    have "update_value f u' = update_value f u" if f: "f \<in> set MERGE_FIELDS" for f
      using merge_result_field [OF u' f] same [OF f] merge_result_field [OF u f] by simp
    moreover have "merge lower show_f now ?j = Inr (merge_result lower show_f now ?j)"
      using ok by (simp add: merge_eq)
    ultimately show ?thesis using u' stored_values by blast
  qed
  have "db_works db' (wid, uid) = Some row'" by (simp add: db')
  with res w' again show ?thesis by blast
qed

text \<open>A stored German work without metadata, and one result for it.\<close>

definition stored_work :: "nat work" where
  "stored_work = blank_work\<lparr>w_id := 7, w_user_id := 1, w_title := ''Momo'', w_language := Some ''de''\<rparr>"

definition stored_db :: "nat merge_db" where
  "stored_db =
     \<lparr>db_works = [(7, 1) \<mapsto> \<lparr>row_work = stored_work, row_abridged = Some False,
        row_normalized_title = [], row_normalized_author = [], row_merge_generation = 3\<rparr>],
      db_provenance = Map.empty\<rparr>"

definition stored_input :: "nat merge_input" where
  "stored_input =
     \<lparr>current_work = stored_work, current_provenance = [],
      provider_results = [(Goodreads, \<lparr>outcome_class = Success,
        payload = Some (blank_detail\<lparr>d_description := Some ''Zeit''\<rparr>)\<rparr>)],
      merge_mode = Background, in_priority_model = foreign_model\<rparr>"

abbreviation stored_request :: "int \<Rightarrow> nat apply_request" where
  "stored_request g \<equiv>
     build_apply_request (merge_result to_ascii_lowercase show_nat 0 stored_input) 1 7 g"

theorem stale_merges_never_overwrite_witness:
  "apply_enrichment_merge (\<lambda>t a. (t, a)) 0 (stored_request 2) stored_db = (Inr Superseded, stored_db)"
proof -
  have run: "apply_enrichment_merge (\<lambda>t a. (t, a)) 0 (stored_request 2) stored_db
      = (Inr Superseded, snd (apply_enrichment_merge (\<lambda>t a. (t, a)) 0 (stored_request 2) stored_db))"
    by (simp add: apply_enrichment_merge_def build_apply_request_def stored_db_def)
  from stale_merges_never_overwrite [OF run] run show ?thesis by (metis apply_outcome.distinct(5) sum.inject(2))
qed

theorem applied_merge_is_a_fixed_point_witness:
  "fst (apply_enrichment_merge (\<lambda>t a. (t, a)) 9 (stored_request 3) stored_db) = Inr Applied"
proof -
  let ?row = "\<lparr>row_work = stored_work, row_abridged = Some False, row_normalized_title = [],
    row_normalized_author = [], row_merge_generation = 3\<rparr>"
  have row: "db_works stored_db (7, 1) = Some ?row" by (simp add: stored_db_def)
  have read: "read_work ?row = Some (current_work stored_input)"
    by (simp add: read_work_def stored_input_def stored_work_def blank_work_def)
  have prov: "reads_provenance stored_db 7 (current_provenance stored_input)"
    by (auto simp: reads_provenance_def stored_db_def stored_input_def prov_map_def)
  have lang: "w_language (current_work stored_input) = Some ''de''"
    by (simp add: stored_input_def stored_work_def)
  have trim: "trim ''de'' \<noteq> []" by code_simp
  have normal: "normalize_language to_ascii_lowercase ''de'' = ''de''" by code_simp
  have merged: "merge to_ascii_lowercase show_nat 0 stored_input = Inr (merge_result to_ascii_lowercase show_nat 0 stored_input)"
    by (simp add: merge_eq model_ok_def stored_input_def foreign_model_def)
  have "routed_eligible to_ascii_lowercase stored_input \<noteq> []"
    by (simp add: routed_eligible_def routed_def eligible_providers_def stored_input_def
        drop_language_incompatible_providers_def mode_eligible_def)
  then obtain u where u: "o_work_update (merge_result to_ascii_lowercase show_nat 0 stored_input) = Some u"
    by (simp add: merge_result_def)
  have run: "apply_enrichment_merge (\<lambda>t a. (t, a)) 9 (build_apply_request
      (merge_result to_ascii_lowercase show_nat 0 stored_input) 1 7 (row_merge_generation ?row)) stored_db =
      (fst (apply_enrichment_merge (\<lambda>t a. (t, a)) 9 (stored_request 3) stored_db),
       snd (apply_enrichment_merge (\<lambda>t a. (t, a)) 9 (stored_request 3) stored_db))"
    by simp
  from applied_merge_is_a_fixed_point [OF row read prov lang trim normal merged u run] show ?thesis
    by blast
qed

end
