(* ===== verification/KeyedMutex.thy ===== *)
theory KeyedMutex
  imports Prelude
begin

text \<open>
  The per-key lock of \<^verbatim>\<open>crates/livrarr-domain/src/keyed_mutex.rs\<close>: a map from keys to shared locks, a
  semaphore that bounds the resident keys, and a guard that prunes its own entry when it is dropped.

  The state holds the map (key to lock address), the free capacity permits, the owner of each
  lock, and for each task the point it has reached in \<^verbatim>\<open>lock\<close> or in the guard's \<^verbatim>\<open>drop\<close>. A step is what a
  task does between two awaits, under one hold of the map lock where it takes it. A future can be
  dropped at any await. The strong count of an entry's lock is one for the map plus one for each
  task that has a clone of it.
\<close>

section \<open>State and steps\<close>

definition MAX_ACTIVE_KEYS :: nat where "MAX_ACTIVE_KEYS = 256"

text \<open>
  Where a task is: outside; waiting for a capacity permit for a new key; holding one, before the
  second look at the map; holding a clone of the key's lock and waiting for it; holding the guard;
  past the guard's release of the lock, before its prune.
\<close>

datatype 'k progress =
    Outside
  | AwaitsPermit 'k
  | HasPermit 'k
  | AwaitsLock 'k nat
  | Holds 'k nat
  | Dropping 'k

record 'k keyed_mutex =
  entries :: "'k \<rightharpoonup> nat"
  capacity :: nat
  owner :: "nat \<rightharpoonup> nat"
  tasks :: "nat \<Rightarrow> 'k progress"
  next_lock :: nat

definition km_new :: "'k keyed_mutex" where
  "km_new = \<lparr>entries = Map.empty, capacity = MAX_ACTIVE_KEYS, owner = Map.empty,
     tasks = (\<lambda>_. Outside), next_lock = 0\<rparr>"

fun clone_of :: "'k progress \<Rightarrow> nat option" where
  "clone_of (AwaitsLock k a) = Some a"
| "clone_of (Holds k a) = Some a"
| "clone_of _ = None"

definition cloned :: "'k keyed_mutex \<Rightarrow> nat \<Rightarrow> bool" where
  "cloned s a \<longleftrightarrow> (\<exists>t. clone_of (tasks s t) = Some a)"

definition set_task :: "nat \<Rightarrow> 'k progress \<Rightarrow> 'k keyed_mutex \<Rightarrow> 'k keyed_mutex" where
  "set_task t p s = s\<lparr>tasks := (tasks s)(t := p)\<rparr>"

text \<open>The fast path of \<^verbatim>\<open>lock\<close>: one look at the map.\<close>

definition lock_begin :: "nat \<Rightarrow> 'k \<Rightarrow> 'k keyed_mutex \<Rightarrow> 'k keyed_mutex" where
  "lock_begin t k s =
     (case entries s k of
        Some a \<Rightarrow> set_task t (AwaitsLock k a) s
      | None \<Rightarrow> set_task t (AwaitsPermit k) s)"

definition take_permit :: "nat \<Rightarrow> 'k \<Rightarrow> 'k keyed_mutex \<Rightarrow> 'k keyed_mutex" where
  "take_permit t k s = (set_task t (HasPermit k) s)\<lparr>capacity := capacity s - 1\<rparr>"

text \<open>The second look of \<^verbatim>\<open>insert_new_key\<close>, with a permit in hand.\<close>

definition insert_new_key :: "nat \<Rightarrow> 'k \<Rightarrow> 'k keyed_mutex \<Rightarrow> 'k keyed_mutex" where
  "insert_new_key t k s =
     (case entries s k of
        Some a \<Rightarrow> (set_task t (AwaitsLock k a) s)\<lparr>capacity := capacity s + 1\<rparr>
      | None \<Rightarrow>
          (set_task t (AwaitsLock k (next_lock s)) s)
            \<lparr>entries := (entries s)(k \<mapsto> next_lock s), next_lock := Suc (next_lock s)\<rparr>)"

definition take_lock :: "nat \<Rightarrow> 'k \<Rightarrow> nat \<Rightarrow> 'k keyed_mutex \<Rightarrow> 'k keyed_mutex" where
  "take_lock t k a s = (set_task t (Holds k a) s)\<lparr>owner := (owner s)(a \<mapsto> t)\<rparr>"

definition release_lock :: "nat \<Rightarrow> 'k \<Rightarrow> nat \<Rightarrow> 'k keyed_mutex \<Rightarrow> 'k keyed_mutex" where
  "release_lock t k a s = (set_task t (Dropping k) s)\<lparr>owner := (owner s)(a := None)\<rparr>"

text \<open>The guard's prune when \<^verbatim>\<open>try_lock\<close> wins: its own entry, if nobody else has a clone.\<close>

definition prune_own :: "nat \<Rightarrow> 'k \<Rightarrow> 'k keyed_mutex \<Rightarrow> 'k keyed_mutex" where
  "prune_own t k s =
     (case entries s k of
        Some a \<Rightarrow>
          (if cloned s a then set_task t Outside s
           else (set_task t Outside s)\<lparr>entries := (entries s)(k := None), capacity := capacity s + 1\<rparr>)
      | None \<Rightarrow> set_task t Outside s)"

definition idle_keys :: "'k keyed_mutex \<Rightarrow> 'k set" where
  "idle_keys s = {k. \<exists>a. entries s k = Some a \<and> \<not> cloned s a}"

text \<open>\<^verbatim>\<open>sweep\<close>: every entry nobody has a clone of is dropped, with its permit.\<close>

definition sweep_keys :: "'k keyed_mutex \<Rightarrow> 'k keyed_mutex" where
  "sweep_keys s =
     s\<lparr>entries := (entries s) |` (- idle_keys s), capacity := capacity s + card (idle_keys s)\<rparr>"

inductive km_step :: "'k keyed_mutex \<Rightarrow> 'k keyed_mutex \<Rightarrow> bool" where
  begin_lock: "tasks s t = Outside \<Longrightarrow> km_step s (lock_begin t k s)"
| permit: "tasks s t = AwaitsPermit k \<Longrightarrow> 0 < capacity s \<Longrightarrow> km_step s (take_permit t k s)"
| second_look: "tasks s t = HasPermit k \<Longrightarrow> km_step s (insert_new_key t k s)"
| acquire: "tasks s t = AwaitsLock k a \<Longrightarrow> owner s a = None \<Longrightarrow> km_step s (take_lock t k a s)"
| release: "tasks s t = Holds k a \<Longrightarrow> km_step s (release_lock t k a s)"
| prune: "tasks s t = Dropping k \<Longrightarrow> km_step s (prune_own t k s)"
| skip_prune: "tasks s t = Dropping k \<Longrightarrow> km_step s (set_task t Outside s)"
| cancel_permit_wait: "tasks s t = AwaitsPermit k \<Longrightarrow> km_step s (set_task t Outside s)"
| cancel_with_permit:
    "tasks s t = HasPermit k \<Longrightarrow> km_step s ((set_task t Outside s)\<lparr>capacity := capacity s + 1\<rparr>)"
| cancel_lock_wait: "tasks s t = AwaitsLock k a \<Longrightarrow> km_step s (set_task t Outside s)"
| sweep: "km_step s (sweep_keys s)"

inductive km_reach :: "'k keyed_mutex \<Rightarrow> bool" where
  start: "km_reach km_new"
| step: "km_reach s \<Longrightarrow> km_step s s' \<Longrightarrow> km_reach s'"

section \<open>Invariant\<close>

definition holding_permit :: "'k keyed_mutex \<Rightarrow> nat set" where
  "holding_permit s = {t. \<exists>k. tasks s t = HasPermit k}"

text \<open>
  Every clone is of the lock its key has in the map, a lock has the owner that holds it, and
  different keys have different locks.
\<close>

definition locks_ok :: "'k keyed_mutex \<Rightarrow> bool" where
  "locks_ok s \<longleftrightarrow>
     (\<forall>k a. entries s k = Some a \<longrightarrow> a < next_lock s)
     \<and> (\<forall>k k' a. entries s k = Some a \<and> entries s k' = Some a \<longrightarrow> k = k')
     \<and> (\<forall>t k a. tasks s t = AwaitsLock k a \<longrightarrow> entries s k = Some a)
     \<and> (\<forall>t k a. tasks s t = Holds k a \<longrightarrow> entries s k = Some a \<and> owner s a = Some t)
     \<and> (\<forall>a t. owner s a = Some t \<longrightarrow> (\<exists>k. tasks s t = Holds k a))"

definition permits_ok :: "'k keyed_mutex \<Rightarrow> bool" where
  "permits_ok s \<longleftrightarrow>
     finite (dom (entries s)) \<and> finite {t. tasks s t \<noteq> Outside}
     \<and> capacity s + card (dom (entries s)) + card (holding_permit s) = MAX_ACTIVE_KEYS"

lemma set_task_simps [simp]:
  "entries (set_task t p s) = entries s" "capacity (set_task t p s) = capacity s"
  "owner (set_task t p s) = owner s" "next_lock (set_task t p s) = next_lock s"
  "tasks (set_task t p s) = (tasks s)(t := p)"
  by (simp_all add: set_task_def)

lemma holding_permit_set:
  "holding_permit (s\<lparr>tasks := (tasks s)(t := p)\<rparr>) =
     (case p of HasPermit k \<Rightarrow> insert t (holding_permit s) | _ \<Rightarrow> holding_permit s - {t})"
  by (auto simp: holding_permit_def split: progress.split)

lemma finite_holding_permit: "permits_ok s \<Longrightarrow> finite (holding_permit s)"
  by (rule finite_subset [of _ "{t. tasks s t \<noteq> Outside}"]) (auto simp: permits_ok_def holding_permit_def)

lemma finite_tasks_upd:
  assumes "finite {t. f t \<noteq> Outside}"
  shows "finite {t'. (f(t := p)) t' \<noteq> Outside}"
  by (rule finite_subset [OF _ finite_insert [THEN iffD2, OF assms]]) auto

lemma cloned_iff: "cloned s a \<longleftrightarrow> (\<exists>t k. tasks s t = AwaitsLock k a \<or> tasks s t = Holds k a)"
proof -
  have "clone_of p = Some a \<longleftrightarrow> (\<exists>k. p = AwaitsLock k a \<or> p = Holds k a)" for p :: "'a progress"
    by (cases p) auto
  then show ?thesis by (auto simp: cloned_def)
qed

lemma locks_okI:
  assumes "\<And>k a. entries s k = Some a \<Longrightarrow> a < next_lock s"
    and "\<And>k k' a. entries s k = Some a \<Longrightarrow> entries s k' = Some a \<Longrightarrow> k = k'"
    and "\<And>t k a. tasks s t = AwaitsLock k a \<Longrightarrow> entries s k = Some a"
    and "\<And>t k a. tasks s t = Holds k a \<Longrightarrow> entries s k = Some a"
    and "\<And>t k a. tasks s t = Holds k a \<Longrightarrow> owner s a = Some t"
    and "\<And>a t. owner s a = Some t \<Longrightarrow> \<exists>k. tasks s t = Holds k a"
  shows "locks_ok s"
  using assms unfolding locks_ok_def by blast

lemma locks_okD:
  assumes "locks_ok s"
  shows "entries s k = Some a \<Longrightarrow> a < next_lock s"
    and "entries s k = Some a \<Longrightarrow> entries s k' = Some a \<Longrightarrow> k = k'"
    and "tasks s t = AwaitsLock k a \<Longrightarrow> entries s k = Some a"
    and "tasks s t = Holds k a \<Longrightarrow> entries s k = Some a"
    and "tasks s t = Holds k a \<Longrightarrow> owner s a = Some t"
    and "owner s a = Some t \<Longrightarrow> \<exists>k. tasks s t = Holds k a"
  using assms unfolding locks_ok_def by blast+

lemma not_owner: "locks_ok s \<Longrightarrow> (\<And>k a. tasks s t \<noteq> Holds k a) \<Longrightarrow> owner s a \<noteq> Some t"
  using locks_okD(6) by metis

text \<open>An entry that goes away is one nobody has a clone of.\<close>

lemma locks_ok_forget:
  assumes ok: "locks_ok s" and idle: "\<forall>k\<in>K. \<forall>a. entries s k = Some a \<longrightarrow> \<not> cloned s a"
  shows "locks_ok (s\<lparr>entries := entries s |` (- K), capacity := c\<rparr>)"
proof -
  have kept: "k \<notin> K" if "tasks s t = AwaitsLock k a \<or> tasks s t = Holds k a" for t k a
    using idle that locks_okD(3,4) [OF ok] unfolding cloned_iff by blast
  show ?thesis
    by (rule locks_okI) (use kept locks_okD [OF ok] in \<open>auto simp: restrict_map_def split: if_splits\<close>)
qed

lemma locks_ok_set_task:
  assumes ok: "locks_ok s" and "clone_of p = None" and free: "\<And>k a. tasks s t \<noteq> Holds k a"
  shows "locks_ok (set_task t p s)"
  by (rule locks_okI)
    (use locks_okD [OF ok] not_owner [OF ok free] assms(2) in \<open>auto split: if_splits\<close>)

lemma locks_ok_awaits:
  assumes ok: "locks_ok s" and free: "\<And>k a. tasks s t \<noteq> Holds k a" and e: "entries s k = Some a"
  shows "locks_ok (set_task t (AwaitsLock k a) s)"
  by (rule locks_okI)
    (use locks_okD [OF ok] not_owner [OF ok free] e in \<open>auto split: if_splits\<close>)

lemma locks_ok_capacity [simp]: "locks_ok (s\<lparr>capacity := c\<rparr>) = locks_ok s"
  by (simp add: locks_ok_def)

lemma fun_upd_restrict: "m(k := None) = m |` (- {k})"
  by (auto simp: restrict_map_def)

lemma locks_ok_new_entry:
  assumes ok: "locks_ok s" and none: "entries s k = None"
  shows "locks_ok (s\<lparr>entries := (entries s)(k \<mapsto> next_lock s), next_lock := Suc (next_lock s)\<rparr>)"
proof -
  have "entries s k' \<noteq> Some (next_lock s)" for k' using locks_okD(1) [OF ok, of k'] by blast
  then show ?thesis
    by (intro locks_okI) (use locks_okD [OF ok] none in \<open>auto simp: less_Suc_eq split: if_splits\<close>)
qed

lemma locks_ok_insert:
  assumes ok: "locks_ok s" and t: "tasks s t = HasPermit k"
  shows "locks_ok (insert_new_key t k s)"
proof (cases "entries s k")
  case None
  let ?s = "s\<lparr>entries := (entries s)(k \<mapsto> next_lock s), next_lock := Suc (next_lock s)\<rparr>"
  have "locks_ok (set_task t (AwaitsLock k (next_lock s)) ?s)"
    by (rule locks_ok_awaits [OF locks_ok_new_entry [OF ok None]]) (simp_all add: t)
  moreover have "insert_new_key t k s = set_task t (AwaitsLock k (next_lock s)) ?s"
    by (cases s) (use None in \<open>simp add: insert_new_key_def set_task_def\<close>)
  ultimately show ?thesis by simp
next
  case (Some a)
  then show ?thesis using locks_ok_awaits [OF ok _ Some, of t] t by (simp add: insert_new_key_def)
qed

lemma locks_ok_take:
  assumes ok: "locks_ok s" and t: "tasks s t = AwaitsLock k a" and free: "owner s a = None"
  shows "locks_ok (take_lock t k a s)"
proof (rule locks_okI)
  have "owner s b \<noteq> Some t" for b by (rule not_owner [OF ok]) (simp add: t)
  then show "\<exists>k'. tasks (take_lock t k a s) t' = Holds k' b" if "owner (take_lock t k a s) b = Some t'" for b t'
    using that locks_okD(6) [OF ok, of b t'] by (auto simp: take_lock_def split: if_splits)
qed (use locks_okD [OF ok] t free in \<open>auto simp: take_lock_def split: if_splits\<close>)

lemma locks_ok_release:
  assumes ok: "locks_ok s" and t: "tasks s t = Holds k a"
  shows "locks_ok (release_lock t k a s)"
proof (rule locks_okI)
  have owner: "owner s a = Some t" by (rule locks_okD(5) [OF ok t])
  have only: "b = a" if "owner s b = Some t" for b using locks_okD(6) [OF ok that] t by auto
  show "owner (release_lock t k a s) b = Some t'" if "tasks (release_lock t k a s) t' = Holds k' b" for b t' k'
    using that locks_okD(5) [OF ok, of t' k' b] owner by (auto simp: release_lock_def split: if_splits)
  show "\<exists>k'. tasks (release_lock t k a s) t' = Holds k' b" if "owner (release_lock t k a s) b = Some t'" for b t'
    using that locks_okD(6) [OF ok, of b t'] only by (auto simp: release_lock_def split: if_splits)
qed (use locks_okD [OF ok] t in \<open>auto simp: release_lock_def split: if_splits\<close>)

lemma cloned_leave: "clone_of (tasks s t) = None \<Longrightarrow> cloned (set_task t Outside s) a = cloned s a"
  by (auto simp: cloned_def) (metis option.distinct(1))

lemma km_step_locks_ok:
  assumes "km_step s s'" and "locks_ok s"
  shows "locks_ok s'"
  using assms
proof (induction rule: km_step.induct)
  case (prune s t k)
  then have ok: "locks_ok (set_task t Outside s)" by (intro locks_ok_set_task) auto
  show ?case
  proof (cases "entries s k")
    case (Some a)
    have "cloned (set_task t Outside s) a = cloned s a" using prune by (simp add: cloned_leave)
    then show ?thesis
      using locks_ok_forget [OF ok, of "{k}" "capacity s + 1"] ok Some
      by (simp add: prune_own_def fun_upd_restrict)
  qed (use ok in \<open>simp add: prune_own_def\<close>)
next
  case (sweep s)
  then show ?case unfolding sweep_keys_def by (intro locks_ok_forget) (auto simp: idle_keys_def)
next
  case (begin_lock s t k)
  then show ?case
    by (auto simp: lock_begin_def intro: locks_ok_awaits locks_ok_set_task split: option.split)
qed (auto intro: locks_ok_insert locks_ok_take locks_ok_release locks_ok_set_task simp: take_permit_def)

section \<open>Permits\<close>

lemma holding_permit_upd:
  "holding_permit (set_task t p s) =
     (if \<exists>k. p = HasPermit k then insert t (holding_permit s) else holding_permit s - {t})"
  by (auto simp: holding_permit_def)

lemma holding_permit_frame [simp]:
  "holding_permit (s\<lparr>entries := e\<rparr>) = holding_permit s"
  "holding_permit (s\<lparr>capacity := c\<rparr>) = holding_permit s"
  "holding_permit (s\<lparr>owner := w\<rparr>) = holding_permit s"
  "holding_permit (s\<lparr>next_lock := n\<rparr>) = holding_permit s"
  by (simp_all add: holding_permit_def)

lemma not_holding_permit: "(\<And>k. tasks s t \<noteq> HasPermit k) \<Longrightarrow> t \<notin> holding_permit s"
  by (auto simp: holding_permit_def)

lemma permits_ok_set_task:
  assumes "permits_ok s" and "\<And>k. tasks s t \<noteq> HasPermit k" and "\<And>k. p \<noteq> HasPermit k"
  shows "permits_ok (set_task t p s)"
  using assms not_holding_permit [of s t] finite_tasks_upd [of "tasks s" t p]
  by (simp add: permits_ok_def holding_permit_upd)

lemma card_held_permit:
  assumes "permits_ok s" and "tasks s t = HasPermit k"
  shows "card (holding_permit s) = Suc (card (holding_permit s - {t}))"
proof -
  have "t \<in> holding_permit s" using assms(2) by (auto simp: holding_permit_def)
  then show ?thesis using finite_holding_permit [OF assms(1)] by (metis card_Suc_Diff1)
qed

lemma permits_ok_leave_permit:
  assumes "permits_ok s" and "tasks s t = HasPermit k" and "\<And>k. p \<noteq> HasPermit k"
  shows "permits_ok ((set_task t p s)\<lparr>capacity := capacity s + 1\<rparr>)"
proof -
  note held = card_held_permit [OF assms(1,2)]
  show ?thesis
    using held assms finite_tasks_upd [of "tasks s" t p] by (simp add: permits_ok_def holding_permit_upd)
qed

lemma permits_ok_forget:
  assumes "permits_ok s" and "K \<subseteq> dom (entries s)"
  shows "permits_ok (s\<lparr>entries := entries s |` (- K), capacity := capacity s + card K\<rparr>)"
proof -
  have fin: "finite (dom (entries s))" using assms(1) by (simp add: permits_ok_def)
  have "dom (entries s |` (- K)) = dom (entries s) - K" by auto
  moreover have "card (dom (entries s) - K) + card K = card (dom (entries s))"
    using fin assms(2) finite_subset [OF assms(2) fin] card_mono [OF fin assms(2)]
    by (simp add: card_Diff_subset)
  ultimately show ?thesis using assms(1) by (simp add: permits_ok_def)
qed

lemma permits_ok_insert:
  assumes ok: "permits_ok s" and t: "tasks s t = HasPermit k"
  shows "permits_ok (insert_new_key t k s)"
proof (cases "entries s k")
  case None
  note card_held_permit [OF ok t]
  moreover have "card (insert k (dom (entries s))) = Suc (card (dom (entries s)))"
    using ok None by (simp add: permits_ok_def domIff card_insert_disjoint)
  ultimately show ?thesis
    using ok None finite_tasks_upd [of "tasks s" t "AwaitsLock k (next_lock s)"]
    by (simp add: permits_ok_def insert_new_key_def holding_permit_upd)
next
  case (Some a)
  then show ?thesis using permits_ok_leave_permit [OF ok t, of "AwaitsLock k a"]
    by (simp add: insert_new_key_def)
qed

lemma permits_ok_take:
  assumes ok: "permits_ok s" and "tasks s t = AwaitsPermit k" and "0 < capacity s"
  shows "permits_ok (take_permit t k s)"
proof -
  have "t \<notin> holding_permit s" using assms(2) by (simp add: not_holding_permit)
  then show ?thesis
    using assms finite_holding_permit [OF ok] finite_tasks_upd [of "tasks s" t "HasPermit k"]
    by (simp add: permits_ok_def take_permit_def holding_permit_upd)
qed

lemma permits_ok_owner [simp]: "permits_ok (s\<lparr>owner := w\<rparr>) = permits_ok s"
  by (simp add: permits_ok_def)

lemma km_step_permits_ok:
  assumes "km_step s s'" and "permits_ok s"
  shows "permits_ok s'"
  using assms
proof (induction rule: km_step.induct)
  case (prune s t k)
  then have ok: "permits_ok (set_task t Outside s)" by (intro permits_ok_set_task) auto
  show ?case
  proof (cases "entries s k")
    case (Some a)
    then show ?thesis
      using permits_ok_forget [OF ok, of "{k}"] ok
      by (auto simp: prune_own_def fun_upd_restrict)
  qed (use ok in \<open>simp add: prune_own_def\<close>)
next
  case (sweep s)
  then show ?case unfolding sweep_keys_def by (intro permits_ok_forget) (auto simp: idle_keys_def)
next
  case (begin_lock s t k)
  then show ?case by (auto simp: lock_begin_def intro: permits_ok_set_task split: option.split)
next
  case (cancel_with_permit s t k)
  then show ?case by (intro permits_ok_leave_permit) auto
qed (auto intro: permits_ok_insert permits_ok_take permits_ok_set_task
      simp: take_lock_def release_lock_def)

lemma km_reach_ok: "km_reach s \<Longrightarrow> locks_ok s \<and> permits_ok s"
proof (induction rule: km_reach.induct)
  case start
  show ?case by (simp add: km_new_def locks_ok_def permits_ok_def holding_permit_def)
next
  case (step s s')
  then show ?case using km_step_locks_ok km_step_permits_ok by blast
qed

section \<open>Properties\<close>

text \<open>
  C18 (safety): in every reachable state, with cancellations, skipped prunes and sweeps in any order, no two
  tasks hold the guard of the same key, every task that waits for or holds a key's lock uses the lock
  the map has for that key (an entry in use is never pruned), and at most 256 keys are resident:
  free permits, resident keys and permits in hand always add up to the capacity.
\<close>

theorem keyed_mutex_excludes_and_is_bounded:
  assumes "km_reach s"
  shows "(\<forall>t t' k a a'. tasks s t = Holds k a \<and> tasks s t' = Holds k a' \<longrightarrow> t = t' \<and> a = a')
    \<and> (\<forall>t k a. tasks s t = AwaitsLock k a \<or> tasks s t = Holds k a \<longrightarrow> entries s k = Some a)
    \<and> card (dom (entries s)) \<le> MAX_ACTIVE_KEYS
    \<and> capacity s + card (dom (entries s)) + card (holding_permit s) = MAX_ACTIVE_KEYS"
proof -
  have ok: "locks_ok s" "permits_ok s" using km_reach_ok [OF assms] by simp_all
  have "t = t' \<and> a = a'" if "tasks s t = Holds k a" "tasks s t' = Holds k a'" for t t' k a a'
    using locks_okD(4,5) [OF ok(1) that(1)] locks_okD(4,5) [OF ok(1) that(2)] by simp
  with ok locks_okD(3,4) [OF ok(1)] show ?thesis by (auto simp: permits_ok_def)
qed

theorem keyed_mutex_excludes_and_is_bounded_witness:
  "\<exists>s :: string keyed_mutex. tasks s 1 = Holds ''k'' 0 \<and> tasks s 2 = AwaitsLock ''k'' 0
     \<and> card (dom (entries s)) \<le> 256"
proof -
  let ?s1 = "lock_begin 1 ''k'' (km_new :: string keyed_mutex)"
  let ?s2 = "take_permit 1 ''k'' ?s1"
  let ?s3 = "insert_new_key 1 ''k'' ?s2"
  let ?s4 = "take_lock 1 ''k'' 0 ?s3"
  let ?s5 = "lock_begin 2 ''k'' ?s4"
  note defs = lock_begin_def take_permit_def insert_new_key_def take_lock_def km_new_def set_task_def
    MAX_ACTIVE_KEYS_def
  have "km_step km_new ?s1" by (rule begin_lock) (simp add: defs)
  moreover have "km_step ?s1 ?s2" by (rule permit) (simp_all add: defs)
  moreover have "km_step ?s2 ?s3" by (rule second_look) (simp add: defs)
  moreover have "km_step ?s3 ?s4" by (rule acquire) (simp_all add: defs)
  moreover have "km_step ?s4 ?s5" by (rule begin_lock) (simp add: defs)
  ultimately have "km_reach ?s5" by (meson km_reach.start km_reach.step)
  moreover have "tasks ?s5 1 = Holds ''k'' 0" "tasks ?s5 2 = AwaitsLock ''k'' 0" by (simp_all add: defs)
  ultimately show ?thesis
    using keyed_mutex_excludes_and_is_bounded [of ?s5] by (auto simp: MAX_ACTIVE_KEYS_def)
qed

text \<open>
  capacity is never lost. After a sweep every resident key is one some task is using, so a
  new key's caller still finds a free permit unless 256 slots are taken by tasks in progress; and a caller
  of a resident key goes on to its lock at once, however full the map is.
\<close>

theorem sweep_frees_all_idle_capacity:
  assumes "km_reach s" and swept: "s' = sweep_keys s"
  shows "(\<forall>k a. entries s' k = Some a \<longrightarrow> (\<exists>t. clone_of (tasks s' t) = Some a))
    \<and> (card {t. clone_of (tasks s' t) \<noteq> None} + card (holding_permit s') < MAX_ACTIVE_KEYS \<longrightarrow> 0 < capacity s')
    \<and> (\<forall>t k a. entries s k = Some a \<longrightarrow> tasks (lock_begin t k s) t = AwaitsLock k a)"
proof -
  have ok: "locks_ok s'" "permits_ok s'"
    using km_reach_ok [OF km_reach.step [OF assms(1) km_step.sweep]] swept by simp_all
  have used: "\<exists>t. clone_of (tasks s' t) = Some a" if "entries s' k = Some a" for k a
    using that
    by (auto simp: swept sweep_keys_def restrict_map_def idle_keys_def cloned_def split: if_splits)
  let ?users = "{t. clone_of (tasks s' t) \<noteq> None}"
  have fin: "finite ?users"
    by (rule finite_subset [of _ "{t. tasks s' t \<noteq> Outside}"]) (use ok(2) in \<open>auto simp: permits_ok_def\<close>)
  have "dom (entries s') \<subseteq> (\<lambda>t. case tasks s' t of AwaitsLock k a \<Rightarrow> k | Holds k a \<Rightarrow> k) ` ?users"
  proof
    fix k assume "k \<in> dom (entries s')"
    then obtain a t where a: "entries s' k = Some a" and t: "clone_of (tasks s' t) = Some a"
      using used by blast
    then have "tasks s' t = AwaitsLock k a \<or> tasks s' t = Holds k a"
      using locks_okD(2-4) [OF ok(1)] by (cases "tasks s' t") (auto dest: locks_okD(3,4) [OF ok(1)])
    with t show "k \<in> (\<lambda>t. case tasks s' t of AwaitsLock k a \<Rightarrow> k | Holds k a \<Rightarrow> k) ` ?users"
      by (force intro: image_eqI [of _ _ t])
  qed
  then have "card (dom (entries s')) \<le> card ?users" using fin by (meson card_image_le card_mono finite_imageI le_trans)
  then show ?thesis
    using used ok(2) by (auto simp: permits_ok_def lock_begin_def)
qed

theorem sweep_frees_all_idle_capacity_witness:
  "0 < capacity (sweep_keys (km_new :: nat keyed_mutex))"
proof -
  have none: "{t. clone_of (tasks (sweep_keys (km_new :: nat keyed_mutex)) t) \<noteq> None} = {}"
    "holding_permit (sweep_keys (km_new :: nat keyed_mutex)) = {}"
    by (simp_all add: sweep_keys_def km_new_def holding_permit_def)
  show ?thesis
    using sweep_frees_all_idle_capacity [OF km_reach.start refl, where 'a = nat]
    unfolding none by (simp add: MAX_ACTIVE_KEYS_def)
qed

end
