(* ===== verification/IpAddr.thy ===== *)
theory IpAddr
  imports Prelude
begin

text \<open>
  The parts of \<^verbatim>\<open>std::net\<close> the address checks use: IPv4 and IPv6 addresses as words, the octets and
  segments, the classification predicates, and the parser of the text form (dotted quads without
  leading zeros; hexadecimal groups with one \<^verbatim>\<open>::\<close> and an optional trailing dotted quad).
\<close>

section \<open>Addresses\<close>

datatype ip_addr = V4 u32 | V6 u128

fun is_ipv4 :: "ip_addr \<Rightarrow> bool" where
  "is_ipv4 (V4 _) = True"
| "is_ipv4 (V6 _) = False"

definition octet :: "nat \<Rightarrow> u32 \<Rightarrow> int" where
  "octet i a = uint a div 2 ^ (24 - 8 * i) mod 256"

definition segment :: "nat \<Rightarrow> u128 \<Rightarrow> int" where
  "segment i a = uint a div 2 ^ (112 - 16 * i) mod 65536"

definition v4_of_octets :: "int \<Rightarrow> int \<Rightarrow> int \<Rightarrow> int \<Rightarrow> u32" where
  "v4_of_octets a b c d = word_of_int (((a * 256 + b) * 256 + c) * 256 + d)"

definition v4_is_loopback :: "u32 \<Rightarrow> bool" where
  "v4_is_loopback a \<longleftrightarrow> octet 0 a = 127"

definition v4_is_private :: "u32 \<Rightarrow> bool" where
  "v4_is_private a \<longleftrightarrow> octet 0 a = 10 \<or> (octet 0 a = 172 \<and> 16 \<le> octet 1 a \<and> octet 1 a \<le> 31)
     \<or> (octet 0 a = 192 \<and> octet 1 a = 168)"

definition v4_is_link_local :: "u32 \<Rightarrow> bool" where
  "v4_is_link_local a \<longleftrightarrow> octet 0 a = 169 \<and> octet 1 a = 254"

definition v4_is_broadcast :: "u32 \<Rightarrow> bool" where
  "v4_is_broadcast a \<longleftrightarrow> a = - 1"

definition v4_is_unspecified :: "u32 \<Rightarrow> bool" where
  "v4_is_unspecified a \<longleftrightarrow> a = 0"

definition v4_is_multicast :: "u32 \<Rightarrow> bool" where
  "v4_is_multicast a \<longleftrightarrow> 224 \<le> octet 0 a \<and> octet 0 a \<le> 239"

definition v6_is_loopback :: "u128 \<Rightarrow> bool" where
  "v6_is_loopback a \<longleftrightarrow> a = 1"

definition v6_is_unspecified :: "u128 \<Rightarrow> bool" where
  "v6_is_unspecified a \<longleftrightarrow> a = 0"

definition v6_is_multicast :: "u128 \<Rightarrow> bool" where
  "v6_is_multicast a \<longleftrightarrow> uint a div 2 ^ 120 = 255"

text \<open>\<^verbatim>\<open>to_ipv4_mapped\<close>: the low 32 bits of an address of \<^verbatim>\<open>::ffff:0:0/96\<close>.\<close>

definition to_ipv4_mapped :: "u128 \<Rightarrow> u32 option" where
  "to_ipv4_mapped a = (if uint a div 2 ^ 32 = 65535 then Some (word_of_int (uint a mod 2 ^ 32)) else None)"

section \<open>The text form\<close>

definition digit_value :: "int \<Rightarrow> char \<Rightarrow> int option" where
  "digit_value radix c =
     (let n = of_char c :: int;
          v = (if 48 \<le> n \<and> n \<le> 57 then Some (n - 48)
               else if 97 \<le> n \<and> n \<le> 122 then Some (n - 87)
               else if 65 \<le> n \<and> n \<le> 90 then Some (n - 55)
               else None)
      in case v of Some d \<Rightarrow> if d < radix then Some d else None | None \<Rightarrow> None)"

text \<open>
  \<^verbatim>\<open>read_number\<close>: at most \<open>max_digits\<close> digits, no overflow beyond \<open>limit\<close>, optionally no leading zero.
\<close>

fun read_digits :: "int \<Rightarrow> nat \<Rightarrow> int \<Rightarrow> int \<Rightarrow> nat \<Rightarrow> string \<Rightarrow> (int \<times> nat \<times> string) option" where
  "read_digits radix max_digits limit value cnt [] = Some (value, cnt, [])"
| "read_digits radix max_digits limit value cnt (c # cs) =
     (case digit_value radix c of
        None \<Rightarrow> Some (value, cnt, c # cs)
      | Some d \<Rightarrow>
          if value * radix + d > limit \<or> Suc cnt > max_digits then None
          else read_digits radix max_digits limit (value * radix + d) (Suc cnt) cs)"

definition read_number :: "int \<Rightarrow> nat \<Rightarrow> int \<Rightarrow> bool \<Rightarrow> string \<Rightarrow> (int \<times> string) option" where
  "read_number radix max_digits limit allow_zero_prefix s =
     (case read_digits radix max_digits limit 0 0 s of
        None \<Rightarrow> None
      | Some (value, cnt, rest) \<Rightarrow>
          if cnt = 0 \<or> (\<not> allow_zero_prefix \<and> s \<noteq> [] \<and> hd s = CHR ''0'' \<and> cnt > 1) then None
          else Some (value, rest))"

fun read_given_char :: "char \<Rightarrow> string \<Rightarrow> string option" where
  "read_given_char c [] = None"
| "read_given_char c (x # xs) = (if x = c then Some xs else None)"

definition read_separated ::
  "char \<Rightarrow> nat \<Rightarrow> (string \<Rightarrow> ('a \<times> string) option) \<Rightarrow> string \<Rightarrow> ('a \<times> string) option" where
  "read_separated sep index inner s =
     (if index = 0 then inner s
      else case read_given_char sep s of None \<Rightarrow> None | Some rest \<Rightarrow> inner rest)"

definition read_octet :: "nat \<Rightarrow> string \<Rightarrow> (int \<times> string) option" where
  "read_octet i = read_separated (CHR ''.'') i (read_number 10 3 255 False)"

definition read_ipv4_addr :: "string \<Rightarrow> (u32 \<times> string) option" where
  "read_ipv4_addr s =
     (case read_octet 0 s of None \<Rightarrow> None | Some (a, s1) \<Rightarrow>
      case read_octet 1 s1 of None \<Rightarrow> None | Some (b, s2) \<Rightarrow>
      case read_octet 2 s2 of None \<Rightarrow> None | Some (c, s3) \<Rightarrow>
      case read_octet 3 s3 of None \<Rightarrow> None | Some (d, s4) \<Rightarrow> Some (v4_of_octets a b c d, s4))"

text \<open>
  \<^verbatim>\<open>read_groups\<close> with \<open>limit\<close> slots, from slot \<open>i\<close>: the groups read, whether they ended in a dotted
  quad, and the rest of the text.
\<close>

function read_groups :: "nat \<Rightarrow> nat \<Rightarrow> string \<Rightarrow> int list \<times> bool \<times> string" where
  "read_groups limit i s =
     (if i \<ge> limit then ([], False, s)
      else
        case (if Suc i < limit then read_separated (CHR '':'') i read_ipv4_addr s else None) of
          Some (v4, rest) \<Rightarrow> ([uint v4 div 65536, uint v4 mod 65536], True, rest)
        | None \<Rightarrow>
            (case read_separated (CHR '':'') i (read_number 16 4 65535 True) s of
               None \<Rightarrow> ([], False, s)
             | Some (g, rest) \<Rightarrow>
                 (case read_groups limit (Suc i) rest of (gs, v4, rest') \<Rightarrow> (g # gs, v4, rest'))))"
  by pat_completeness auto
termination
  by (relation "measure (\<lambda>(limit, i, s). limit - i)") auto

declare read_groups.simps [simp del]

definition v6_of_groups :: "int list \<Rightarrow> u128" where
  "v6_of_groups gs = word_of_int (foldl (\<lambda>n g. n * 65536 + g) 0 gs)"

definition read_ipv6_addr :: "string \<Rightarrow> (u128 \<times> string) option" where
  "read_ipv6_addr s =
     (case read_groups 8 0 s of
        (head, head_ipv4, s1) \<Rightarrow>
          if length head = 8 then Some (v6_of_groups head, s1)
          else if head_ipv4 then None
          else
            case read_given_char (CHR '':'') s1 of None \<Rightarrow> None | Some s2 \<Rightarrow>
            case read_given_char (CHR '':'') s2 of None \<Rightarrow> None | Some s3 \<Rightarrow>
              (case read_groups (8 - (length head + 1)) 0 s3 of
                 (tail, _, s4) \<Rightarrow>
                   Some (v6_of_groups (head @ replicate (8 - (length head + length tail)) 0 @ tail), s4)))"

text \<open>\<^verbatim>\<open>str::parse::<IpAddr>\<close>: an IPv4 address if one can be read, else an IPv6 one, and nothing after it.\<close>

definition parse_ip :: "string \<Rightarrow> ip_addr option" where
  "parse_ip s =
     (case read_ipv4_addr s of
        Some (a, rest) \<Rightarrow> if rest = [] then Some (V4 a) else None
      | None \<Rightarrow>
          (case read_ipv6_addr s of
             Some (a, rest) \<Rightarrow> if rest = [] then Some (V6 a) else None
           | None \<Rightarrow> None))"

text \<open>\<^verbatim>\<open>str::parse::<u8>\<close>: an optional plus sign, then decimal digits without overflow.\<close>

definition parse_u8 :: "string \<Rightarrow> int option" where
  "parse_u8 s =
     (let digits = (case s of c # cs \<Rightarrow> if c = CHR ''+'' then cs else s | [] \<Rightarrow> []) in
      if digits = [] then None
      else foldl (\<lambda>acc c. case (acc, digit_value 10 c) of
                    (Some n, Some d) \<Rightarrow> if n * 10 + d \<le> 255 then Some (n * 10 + d) else None
                  | _ \<Rightarrow> None) (Some 0) digits)"

section \<open>Octets and prefixes\<close>

text \<open>An address prefix is the quotient by the size of the host part.\<close>

lemma octet_bound [simp]: "0 \<le> octet i a" "octet i a < 256"
  by (simp_all add: octet_def)

lemma uint_u32: "uint (a :: u32) < 2 ^ 32"
  using uint_lt2p [of a] by simp

lemma uint_u128: "uint (a :: u128) < 2 ^ 128"
  using uint_lt2p [of a] by simp

lemma prefix_octet0: "uint (a :: u32) div 2 ^ 24 = octet 0 a"
proof -
  have "uint a div 2 ^ 24 \<le> (2 ^ 32 - 1) div 2 ^ 24"
    using uint_u32 [of a] by (intro zdiv_mono1) simp_all
  moreover have "0 \<le> uint a div 2 ^ 24" by (simp add: pos_imp_zdiv_nonneg_iff)
  ultimately show ?thesis by (simp add: octet_def mod_pos_pos_trivial)
qed

lemma prefix_octet1: "uint (a :: u32) div 2 ^ 16 = octet 0 a * 256 + octet 1 a"
proof -
  have "uint a div 2 ^ 24 = uint a div 2 ^ 16 div 256" by (simp add: zdiv_zmult2_eq [symmetric])
  then show ?thesis using prefix_octet0 [of a] by (simp add: octet_def)
qed

lemma prefix_octet2: "uint (a :: u32) div 2 ^ 8 = (octet 0 a * 256 + octet 1 a) * 256 + octet 2 a"
proof -
  have "uint a div 2 ^ 16 = uint a div 2 ^ 8 div 256" by (simp add: zdiv_zmult2_eq [symmetric])
  then show ?thesis using prefix_octet1 [of a] by (simp add: octet_def)
qed

text \<open>Equality under a network mask is equality of the quotients.\<close>

lemma mask_eq_iff_div:
  fixes a b :: "'a::len word"
  assumes "n \<le> LENGTH('a)"
  shows "a AND push_bit n (- 1) = b AND push_bit n (- 1) \<longleftrightarrow> uint a div 2 ^ n = uint b div 2 ^ n"
proof -
  have "x AND push_bit n (- 1) = push_bit n (drop_bit n x)" for x :: "'a word"
    by (simp add: bit_eq_iff bit_simps) auto
  then have start: "a AND push_bit n (- 1) = b AND push_bit n (- 1) \<longleftrightarrow> push_bit n (drop_bit n a) = push_bit n (drop_bit n b)"
    by simp
  have inj: "push_bit n (drop_bit n a) = push_bit n (drop_bit n b) \<longleftrightarrow> drop_bit n a = drop_bit n b"
  proof
    assume eq: "push_bit n (drop_bit n a) = push_bit n (drop_bit n b)"
    have "drop_bit n (push_bit n (drop_bit n x)) = drop_bit n x" for x :: "'a word"
      by (simp add: bit_eq_iff bit_simps) (auto dest: bit_imp_le_length)
    with eq show "drop_bit n a = drop_bit n b" by metis
  qed simp
  have div_at: "uint (drop_bit n x) = uint x div 2 ^ n" for x :: "'a word"
    by (subst unsigned_drop_bit_eq) (simp add: drop_bit_eq_div take_bit_int_eq_self)
  have "drop_bit n a = drop_bit n b \<longleftrightarrow> uint a div 2 ^ n = uint b div 2 ^ n"
    by (simp only: word_uint_eq_iff div_at)
  then show ?thesis by (simp only: start inj)
qed

end
