(* ===== verification/RateLimit.thy ===== *)
theory RateLimit
  imports IpAddr
begin

text \<open>
  The rate limiter's client key (\<^verbatim>\<open>livrarr-server/src/rate_limit.rs\<close>): CIDR ranges, the parsing of the
  trusted-proxy setting, and the choice of the address a request is counted under from the TCP
  peer and the proxy headers.
\<close>

section \<open>CIDR ranges\<close>

record ip_net =
  addr :: ip_addr
  prefix_len :: u8

definition contains :: "ip_net \<Rightarrow> ip_addr \<Rightarrow> bool" where
  "contains self ip =
     (case (addr self, ip) of
        (V4 net, V4 test) \<Rightarrow>
          if prefix_len self = 0 then True
          else if prefix_len self \<ge> 32 then net = test
          else (let mask = push_bit (unat (32 - prefix_len self)) (- 1) in net AND mask = test AND mask)
      | (V6 net, V6 test) \<Rightarrow>
          if prefix_len self = 0 then True
          else if prefix_len self \<ge> 128 then net = test
          else (let mask = push_bit (unat (128 - prefix_len self)) (- 1) in net AND mask = test AND mask)
      | _ \<Rightarrow> False)"

text \<open>\<^verbatim>\<open>str::split_once\<close> on one character.\<close>

fun split_once :: "char \<Rightarrow> string \<Rightarrow> (string \<times> string) option" where
  "split_once c [] = None"
| "split_once c (x # xs) =
     (if x = c then Some ([], xs) else map_option (\<lambda>(a, b). (x # a, b)) (split_once c xs))"

definition address_width :: "ip_addr \<Rightarrow> u8" where
  "address_width a = (if is_ipv4 a then 32 else 128)"

definition parse_net :: "string \<Rightarrow> ip_net option" where
  "parse_net s0 =
     (let s = trim s0 in
      case split_once (CHR ''/'') s of
        Some (addr_str, prefix_str) \<Rightarrow>
          (case parse_ip addr_str of
             None \<Rightarrow> None
           | Some a \<Rightarrow>
               (case parse_u8 prefix_str of
                  None \<Rightarrow> None
                | Some p \<Rightarrow>
                    if (word_of_int p :: u8) > address_width a then None
                    else Some \<lparr>addr = a, prefix_len = word_of_int p\<rparr>))
      | None \<Rightarrow>
          (case parse_ip s of
             None \<Rightarrow> None
           | Some a \<Rightarrow> Some \<lparr>addr = a, prefix_len = address_width a\<rparr>))"

definition parse_trusted_proxies :: "string list \<Rightarrow> ip_net list \<times> string list" where
  "parse_trusted_proxies entries =
     foldl (\<lambda>(accepted, rejected) entry.
              case parse_net entry of
                Some net \<Rightarrow> (accepted @ [net], rejected)
              | None \<Rightarrow> (accepted, rejected @ [entry]))
       ([], []) entries"

section \<open>The key of a request\<close>

record smart_ip_key_extractor =
  trusted_proxies :: "ip_net list"

definition is_trusted :: "smart_ip_key_extractor \<Rightarrow> ip_addr \<Rightarrow> bool" where
  "is_trusted self ip \<longleftrightarrow> (\<exists>net \<in> set (trusted_proxies self). contains net ip)"

text \<open>\<^verbatim>\<open>str::split\<close> on one character; \<^verbatim>\<open>rsplit\<close> yields the same pieces from the right.\<close>

fun split_at :: "char \<Rightarrow> string \<Rightarrow> string list" where
  "split_at c [] = [[]]"
| "split_at c (x # xs) =
     (if x = c then [] # split_at c xs
      else (case split_at c xs of p # ps \<Rightarrow> (x # p) # ps | [] \<Rightarrow> [[x]]))"

definition rsplit :: "char \<Rightarrow> string \<Rightarrow> string list" where
  "rsplit c s = rev (split_at c s)"

fun walk_xff :: "smart_ip_key_extractor \<Rightarrow> string list \<Rightarrow> ip_addr \<Rightarrow> ip_addr" where
  "walk_xff self [] peer_ip = peer_ip"
| "walk_xff self (entry # rest) peer_ip =
     (case parse_ip (trim entry) of
        Some ip \<Rightarrow> if \<not> is_trusted self ip then ip else walk_xff self rest peer_ip
      | None \<Rightarrow> walk_xff self rest peer_ip)"

definition extract_from_xff :: "smart_ip_key_extractor \<Rightarrow> string \<Rightarrow> ip_addr \<Rightarrow> ip_addr" where
  "extract_from_xff self header_value peer_ip = walk_xff self (rsplit (CHR '','') header_value) peer_ip"

text \<open>
  What the extractor reads of a request: the connection's peer address, if the server recorded it,
  and the first value of each of the two headers. \<^verbatim>\<open>HeaderValue::to_str\<close> succeeds when every byte is
  visible ASCII or a tab.
\<close>

record request =
  connect_info :: "ip_addr option"
  x_real_ip :: "string option"
  x_forwarded_for :: "string option"

definition to_str :: "string \<Rightarrow> string option" where
  "to_str v = (if \<forall>c \<in> set v. (32 \<le> (of_char c :: int) \<and> (of_char c :: int) < 127) \<or> c = CHR 0x09
               then Some v else None)"

datatype governor_error = UnableToExtractKey

definition extract_key :: "smart_ip_key_extractor \<Rightarrow> request \<Rightarrow> governor_error + ip_addr" where
  "extract_key self req =
     (case connect_info req of
        None \<Rightarrow> Inl UnableToExtractKey
      | Some peer_ip \<Rightarrow>
          if \<not> is_trusted self peer_ip then Inr peer_ip
          else
            (case Option.bind (Option.bind (x_real_ip req) to_str) (\<lambda>s. parse_ip (trim s)) of
               Some ip \<Rightarrow> Inr ip
             | None \<Rightarrow>
                 (case Option.bind (x_forwarded_for req) to_str of
                    Some s \<Rightarrow> Inr (extract_from_xff self s peer_ip)
                  | None \<Rightarrow> Inr peer_ip)))"

section \<open>Ranges are address prefixes\<close>

text \<open>
  The reference definition: the address family agrees and the first \<open>prefix_len\<close> bits of the two
  addresses do, a bit prefix being the quotient by the size of the host part.
\<close>

fun same_prefix :: "nat \<Rightarrow> ip_addr \<Rightarrow> ip_addr \<Rightarrow> bool" where
  "same_prefix n (V4 a) (V4 b) \<longleftrightarrow> uint a div 2 ^ (32 - n) = uint b div 2 ^ (32 - n)"
| "same_prefix n (V6 a) (V6 b) \<longleftrightarrow> uint a div 2 ^ (128 - n) = uint b div 2 ^ (128 - n)"
| "same_prefix n _ _ \<longleftrightarrow> False"

lemma unat_width_minus:
  assumes "p \<le> w" shows "unat (w - p) = unat w - unat (p :: u8)"
  using assms by (simp add: unat_sub)

lemma uint_div_whole: "uint (a :: u32) div 2 ^ 32 = 0" "uint (b :: u128) div 2 ^ 128 = 0"
  using uint_u32 [of a] uint_u128 [of b] by (simp_all add: div_pos_pos_trivial)

lemma contains_is_prefix:
  "contains net ip \<longleftrightarrow> same_prefix (unat (prefix_len net)) (addr net) ip"
proof (cases "addr net"; cases ip)
  fix a b :: u32
  assume *: "addr net = V4 a" "ip = V4 b"
  consider "prefix_len net = 0" | "32 \<le> prefix_len net" | "prefix_len net \<noteq> 0" "prefix_len net < 32" by fastforce
  then show ?thesis
  proof cases
    case 1 then show ?thesis using * uint_div_whole by (simp add: contains_def)
  next
    case 2
    then have "32 \<le> unat (prefix_len net)" by (simp add: word_le_nat_alt)
    moreover have "prefix_len net \<noteq> 0" using 2 by auto
    ultimately show ?thesis using * 2 by (simp add: contains_def word_uint_eq_iff)
  next
    case 3
    then have "unat (32 - prefix_len net) = 32 - unat (prefix_len net)"
      using unat_width_minus [of "prefix_len net" 32] by simp
    moreover have "\<not> 32 \<le> prefix_len net" using 3 by simp
    ultimately show ?thesis using * 3 mask_eq_iff_div [of "32 - unat (prefix_len net)" a b]
      by (simp add: contains_def)
  qed
next
  fix a b :: u128
  assume *: "addr net = V6 a" "ip = V6 b"
  consider "prefix_len net = 0" | "128 \<le> prefix_len net" | "prefix_len net \<noteq> 0" "prefix_len net < 128" by fastforce
  then show ?thesis
  proof cases
    case 1 then show ?thesis using * uint_div_whole by (simp add: contains_def)
  next
    case 2
    then have "128 \<le> unat (prefix_len net)" by (simp add: word_le_nat_alt)
    moreover have "prefix_len net \<noteq> 0" using 2 by auto
    ultimately show ?thesis using * 2 by (simp add: contains_def word_uint_eq_iff)
  next
    case 3
    then have "unat (128 - prefix_len net) = 128 - unat (prefix_len net)"
      using unat_width_minus [of "prefix_len net" 128] by simp
    moreover have "\<not> 128 \<le> prefix_len net" using 3 by simp
    ultimately show ?thesis using * 3 mask_eq_iff_div [of "128 - unat (prefix_len net)" a b]
      by (simp add: contains_def)
  qed
qed (auto simp: contains_def)

section \<open>The walk over X-Forwarded-For\<close>

text \<open>The address an entry contributes: the one it names, unless that is a trusted proxy.\<close>

definition untrusted_entry :: "smart_ip_key_extractor \<Rightarrow> string \<Rightarrow> ip_addr option" where
  "untrusted_entry self entry =
     (case parse_ip (trim entry) of
        Some ip \<Rightarrow> if is_trusted self ip then None else Some ip
      | None \<Rightarrow> None)"

lemma walk_xff_find_map:
  "walk_xff self entries peer = (case find_map (untrusted_entry self) entries of Some ip \<Rightarrow> ip | None \<Rightarrow> peer)"
  by (induction entries) (simp_all add: untrusted_entry_def split: option.split del: find_map_None)

lemma split_at_not_Nil [simp]: "split_at c s \<noteq> []"
  by (induction s) (auto split: list.splits)

lemma split_at_append: "split_at c (s @ c # t) = split_at c s @ split_at c t"
proof (induction s)
  case (Cons x s)
  then show ?case by (cases "split_at c s") auto
qed simp

lemma split_at_single: "c \<notin> set s \<Longrightarrow> split_at c s = [s]"
  by (induction s) auto

text \<open>A proxy that appends a comma and an address adds one entry at the end.\<close>

lemma split_at_appended: "c \<notin> set s \<Longrightarrow> split_at c (t @ c # s) = split_at c t @ [s]"
  by (simp add: split_at_append split_at_single)

lemma find_map_append:
  "find_map f (xs @ ys) = (case find_map f xs of Some y \<Rightarrow> Some y | None \<Rightarrow> find_map f ys)"
  by (induction xs) (simp_all split: option.split del: find_map_None)

lemma extract_from_xff_cut:
  assumes "split_at (CHR '','') v = claimed @ client # proxies" and "untrusted_entry self client = Some ip"
    and "\<forall>e \<in> set proxies. untrusted_entry self e = None"
  shows "extract_from_xff self v peer = ip"
  using assms by (simp add: extract_from_xff_def walk_xff_find_map rsplit_def find_map_append find_map_None [THEN iffD2])

section \<open>Parsing the setting\<close>

lemma parse_net_prefix:
  "parse_net s = Some net \<Longrightarrow> prefix_len net \<le> address_width (addr net)"
  by (auto simp: parse_net_def Let_def split: option.splits if_splits prod.splits)

lemma same_prefix_refl: "same_prefix n a a"
  by (cases a) auto

lemma parse_trusted_proxies_fold:
  "foldl (\<lambda>(accepted, rejected) entry.
            case parse_net entry of
              Some net \<Rightarrow> (accepted @ [net], rejected)
            | None \<Rightarrow> (accepted, rejected @ [entry])) (acc, rej) entries
   = (acc @ List.map_filter parse_net entries, rej @ filter (\<lambda>e. parse_net e = None) entries)"
  by (induction entries arbitrary: acc rej) (auto simp: List.map_filter_simps split: option.split)

section \<open>Properties\<close>

text \<open>
  a trusted-proxy entry the setting's parser accepts stands for exactly the
  addresses of its own family that share its first \<open>prefix_len\<close> bits. The shifted masks of
  \<^verbatim>\<open>contains\<close> compute that prefix test for every prefix length, 0 and the full width included, and an
  accepted entry never has a prefix wider than its address. The accepted ranges and the rejected
  entries are each in file order, and no entry is in neither list.
\<close>

theorem trusted_ranges_are_bit_prefixes:
  assumes "parse_trusted_proxies entries = (accepted, rejected)"
  shows "accepted = List.map_filter parse_net entries
    \<and> rejected = filter (\<lambda>e. parse_net e = None) entries
    \<and> length accepted + length rejected = length entries
    \<and> (\<forall>net \<in> set accepted. unat (prefix_len net) \<le> unat (address_width (addr net))
           \<and> (\<forall>ip. contains net ip \<longleftrightarrow> same_prefix (unat (prefix_len net)) (addr net) ip))"
proof (intro conjI)
  have split: "accepted = List.map_filter parse_net entries"
    "rejected = filter (\<lambda>e. parse_net e = None) entries"
    using assms by (simp_all add: parse_trusted_proxies_def parse_trusted_proxies_fold)
  show "accepted = List.map_filter parse_net entries" by (fact split(1))
  show "rejected = filter (\<lambda>e. parse_net e = None) entries" by (fact split(2))
  show "length accepted + length rejected = length entries"
    unfolding split by (induction entries) (auto simp: List.map_filter_simps split: option.split)
  show "\<forall>net \<in> set accepted. unat (prefix_len net) \<le> unat (address_width (addr net))
           \<and> (\<forall>ip. contains net ip \<longleftrightarrow> same_prefix (unat (prefix_len net)) (addr net) ip)"
    unfolding split
    by (auto simp: List.map_filter_def contains_is_prefix word_le_nat_alt [symmetric] intro: parse_net_prefix)
qed

text \<open>The \<^verbatim>\<open>X-Real-IP\<close> header of a request names the address; it names none when it is absent, not visible ASCII or no address.\<close>

definition names_real_ip :: "request \<Rightarrow> ip_addr \<Rightarrow> bool" where
  "names_real_ip req ip \<longleftrightarrow> (\<exists>s. x_real_ip req = Some s \<and> to_str s = Some s \<and> parse_ip (trim s) = Some ip)"

lemma to_str_same: "to_str v = Some s \<Longrightarrow> s = v"
  by (simp add: to_str_def split: if_splits)

lemma real_ip_Some: "Option.bind (Option.bind (x_real_ip req) to_str) (\<lambda>s. parse_ip (trim s)) = Some ip \<longleftrightarrow> names_real_ip req ip"
  by (auto simp: names_real_ip_def bind_eq_Some_conv dest: to_str_same)

lemma real_ip_None: "\<forall>ip. \<not> names_real_ip req ip \<Longrightarrow> Option.bind (Option.bind (x_real_ip req) to_str) (\<lambda>s. parse_ip (trim s)) = None"
  using real_ip_Some [of req] by (metis option.exhaust)

text \<open>
  C17 (safety): Under which address a request is counted. A peer that is not a trusted proxy is counted under its own address,
  whatever headers it sends. For a trusted peer an address in \<^verbatim>\<open>X-Real-IP\<close> decides, so such a proxy has to set that header or strip it. Where
  it names no address and the proxies have appended the address of the client and their own to \<^verbatim>\<open>X-Forwarded-For\<close>, the text that
  the client put in front of them never selects the key: it is the appended address of the client, the right-most that is not
  a trusted proxy's, or the peer itself when the client's text makes the header undecodable (bytes outside visible ASCII). With neither
  header the peer is counted.
\<close>

theorem headers_select_the_key_only_through_proxies:
  assumes "connect_info req = Some peer"
  shows "(\<not> is_trusted self peer \<longrightarrow> extract_key self req = Inr peer)
    \<and> (is_trusted self peer \<and> names_real_ip req ip \<longrightarrow> extract_key self req = Inr ip)
    \<and> (is_trusted self peer \<and> (\<forall>a. \<not> names_real_ip req a)
        \<and> x_forwarded_for req = Some v \<and> split_at (CHR '','') v = claimed @ client # proxies
        \<and> untrusted_entry self client = Some ip \<and> (\<forall>e \<in> set proxies. untrusted_entry self e = None)
       \<longrightarrow> extract_key self req = Inr (if to_str v = None then peer else ip))
    \<and> (is_trusted self peer \<and> (\<forall>a. \<not> names_real_ip req a) \<and> x_forwarded_for req = None \<longrightarrow> extract_key self req = Inr peer)"
proof (intro conjI impI, goal_cases)
  case 2
  then show ?case using assms real_ip_Some [of req ip] by (simp add: extract_key_def)
next
  case 3
  have real: "Option.bind (Option.bind (x_real_ip req) to_str) (\<lambda>s. parse_ip (trim s)) = None" using 3 by (intro real_ip_None) blast
  have "extract_from_xff self v peer = ip" using extract_from_xff_cut 3 by blast
  moreover have "to_str v = None \<or> to_str v = Some v" by (simp add: to_str_def)
  ultimately show ?case using assms 3 real by (auto simp: extract_key_def)
next
  case 4
  then have "Option.bind (Option.bind (x_real_ip req) to_str) (\<lambda>s. parse_ip (trim s)) = None" by (intro real_ip_None) blast
  then show ?case using assms 4 by (simp add: extract_key_def)
qed (use assms in \<open>simp add: extract_key_def\<close>)

theorem trusted_ranges_are_bit_prefixes_witness:
  "contains \<lparr>addr = V4 0x0A000000, prefix_len = 8\<rparr> (V4 0x0A010203)
   \<and> \<not> contains \<lparr>addr = V4 0x0A000000, prefix_len = 8\<rparr> (V4 0x0B010203)
   \<and> snd (parse_trusted_proxies [''10.0.0.0/8'', ''10.0.0.0/33'', '' fd00::/8'']) = [''10.0.0.0/33'']"
proof -
  let ?entries = "[''10.0.0.0/8'', ''10.0.0.0/33'', '' fd00::/8'']"
  have "parse_trusted_proxies ?entries =
     ([\<lparr>addr = V4 0x0A000000, prefix_len = 8\<rparr>, \<lparr>addr = V6 0xFD000000000000000000000000000000, prefix_len = 8\<rparr>],
      [''10.0.0.0/33''])"
    by code_simp
  note this [THEN trusted_ranges_are_bit_prefixes] this
  then show ?thesis by simp
qed

theorem headers_select_the_key_only_through_proxies_witness:
  "extract_key \<lparr>trusted_proxies = [\<lparr>addr = V4 0x0A000000, prefix_len = 8\<rparr>]\<rparr>
     \<lparr>connect_info = Some (V4 0x0A000001), x_real_ip = Some ''unknown'',
      x_forwarded_for = Some ''9.9.9.9, 8.8.8.8,10.0.0.2''\<rparr> = Inr (V4 0x08080808)
   \<and> extract_key \<lparr>trusted_proxies = [\<lparr>addr = V4 0x0A000000, prefix_len = 8\<rparr>]\<rparr>
     \<lparr>connect_info = Some (V4 0x01010101), x_real_ip = Some ''9.9.9.9'',
      x_forwarded_for = None\<rparr> = Inr (V4 0x01010101)"
proof -
  let ?self = "\<lparr>trusted_proxies = [\<lparr>addr = V4 0x0A000000, prefix_len = 8\<rparr>]\<rparr>"
  let ?req = "\<lparr>connect_info = Some (V4 0x0A000001), x_real_ip = Some ''unknown'',
      x_forwarded_for = Some ''9.9.9.9, 8.8.8.8,10.0.0.2''\<rparr>"
  let ?direct = "\<lparr>connect_info = Some (V4 0x01010101), x_real_ip = Some ''9.9.9.9'', x_forwarded_for = None\<rparr>"
  have evals: "is_trusted ?self (V4 0x0A000001)" "\<not> is_trusted ?self (V4 0x01010101)" "parse_ip (trim ''unknown'') = None"
    "to_str ''9.9.9.9, 8.8.8.8,10.0.0.2'' \<noteq> None"
    "split_at (CHR '','') ''9.9.9.9, 8.8.8.8,10.0.0.2'' = [''9.9.9.9''] @ '' 8.8.8.8'' # [''10.0.0.2'']"
    "untrusted_entry ?self '' 8.8.8.8'' = Some (V4 0x08080808)" "\<forall>e \<in> set [''10.0.0.2'']. untrusted_entry ?self e = None"
    by code_simp+
  have "\<forall>a. \<not> names_real_ip ?req a" using evals(3) by (simp add: names_real_ip_def)
  then have "extract_key ?self ?req = Inr (V4 0x08080808)"
    using evals headers_select_the_key_only_through_proxies
        [of ?req "V4 0x0A000001" ?self "V4 0x08080808" "''9.9.9.9, 8.8.8.8,10.0.0.2''" "[''9.9.9.9'']" "'' 8.8.8.8''" "[''10.0.0.2'']"]
    by simp
  moreover have "extract_key ?self ?direct = Inr (V4 0x01010101)"
    using evals(2) headers_select_the_key_only_through_proxies [of ?direct "V4 0x01010101" ?self] by simp
  ultimately show ?thesis by simp
qed

end
