(* ===== verification/Ssrf.thy ===== *)
theory Ssrf
  imports RateLimit
begin

text \<open>
  Protection against server-side request forgery (\<^verbatim>\<open>livrarr-http/src/ssrf.rs\<close>): the classification of
  addresses, the check of a URL before a request, the resolver that checks again when the client
  connects, and the registry of trusted origins.

  \<^verbatim>\<open>reqwest::Url::parse\<close> and the DNS lookup are parameters: \<open>parse_url\<close> gives a \<^emph>\<open>url\<close> record or the
  error's text, \<open>lookup_host\<close> the addresses of a \<^verbatim>\<open>host:port\<close> text or the error's text. A parsed URL's
  host is ASCII, so \<^verbatim>\<open>to_lowercase\<close> is the ASCII mapping on it.
\<close>

section \<open>Addresses that must not be reached\<close>

datatype ssrf_error = InvalidScheme | NoHost | PrivateIp | DnsError string | InvalidUrl string

definition is_private_v4 :: "u32 \<Rightarrow> bool" where
  "is_private_v4 v4 \<longleftrightarrow>
     v4_is_loopback v4
     \<or> v4_is_private v4
     \<or> v4_is_link_local v4
     \<or> v4_is_broadcast v4
     \<or> v4_is_unspecified v4
     \<or> v4_is_multicast v4
     \<or> octet 0 v4 = 0
     \<or> (octet 0 v4 = 100 \<and> octet 1 v4 AND 0xC0 = 64)
     \<or> (octet 0 v4 = 192 \<and> octet 1 v4 = 0 \<and> octet 2 v4 = 0)
     \<or> (octet 0 v4 = 198 \<and> octet 1 v4 AND 0xFE = 18)"

fun is_private_ip :: "ip_addr \<Rightarrow> bool" where
  "is_private_ip (V4 v4) = is_private_v4 v4"
| "is_private_ip (V6 v6) =
     (v6_is_loopback v6
      \<or> v6_is_unspecified v6
      \<or> v6_is_multicast v6
      \<or> segment 0 v6 AND 0xfe00 = 0xfc00
      \<or> segment 0 v6 AND 0xffc0 = 0xfe80
      \<or> (case to_ipv4_mapped v6 of Some v4 \<Rightarrow> is_private_v4 v4 | None \<Rightarrow> False))"

section \<open>Checking a URL\<close>

record url =
  scheme :: string
  username :: string
  password :: "string option"
  host_str :: "string option"
  port_or_known_default :: "u16 option"

definition port_of :: "url \<Rightarrow> u16" where
  "port_of u = (case port_or_known_default u of Some p \<Rightarrow> p | None \<Rightarrow> 80)"

definition http_scheme :: "url \<Rightarrow> bool" where
  "http_scheme u \<longleftrightarrow> scheme u = ''http'' \<or> scheme u = ''https''"

definition host_port :: "string \<Rightarrow> u16 \<Rightarrow> string" where
  "host_port host port = host @ '':'' @ show_nat (unat port)"

definition validate_url ::
  "(string \<Rightarrow> string + url) \<Rightarrow> (string \<Rightarrow> string + ip_addr list) \<Rightarrow> string \<Rightarrow> ssrf_error + unit" where
  "validate_url parse_url lookup_host s =
     (case parse_url s of
        Inl e \<Rightarrow> Inl (InvalidUrl e)
      | Inr parsed \<Rightarrow>
          if \<not> http_scheme parsed then Inl InvalidScheme
          else
            (case host_str parsed of
               None \<Rightarrow> Inl NoHost
             | Some host \<Rightarrow>
                 (let port = port_of parsed in
                  case parse_ip host of
                    Some ip \<Rightarrow> if is_private_ip ip then Inl PrivateIp else Inr ()
                  | None \<Rightarrow>
                      (case lookup_host (host_port host port) of
                         Inl e \<Rightarrow> Inl (DnsError e)
                       | Inr addrs \<Rightarrow>
                           if addrs = [] then Inl (DnsError ''no addresses resolved'')
                           else if \<exists>a \<in> set addrs. is_private_ip a then Inl PrivateIp
                           else Inr ()))))"

text \<open>The resolver attached to the HTTP client: it runs for every name the client connects to.\<close>

definition resolve :: "(string \<Rightarrow> string + ip_addr list) \<Rightarrow> string \<Rightarrow> string + ip_addr list" where
  "resolve lookup_host host =
     (case lookup_host (host_port host 0) of
        Inl e \<Rightarrow> Inl e
      | Inr addrs \<Rightarrow>
          if addrs = [] then Inl ''DNS resolution returned no addresses''
          else if \<exists>a \<in> set addrs. is_private_ip a
          then Inl ''resolved address includes a private/reserved IP (SSRF protection)''
          else Inr addrs)"

section \<open>Trusted origins\<close>

record trusted_origins =
  origins :: "(string \<times> u16) set"

definition trusted_origins_new :: trusted_origins where
  "trusted_origins_new = \<lparr>origins = {}\<rparr>"

definition origin_of :: "url \<Rightarrow> (string \<times> u16) option" where
  "origin_of u = map_option (\<lambda>host. (to_ascii_lowercase host, port_of u)) (host_str u)"

definition rebuild :: "(string \<Rightarrow> string + url) \<Rightarrow> string list \<Rightarrow> trusted_origins \<Rightarrow> trusted_origins" where
  "rebuild parse_url urls self =
     self \<lparr>origins :=
       foldl (\<lambda>acc s. case parse_url s of
                 Inl _ \<Rightarrow> acc
               | Inr parsed \<Rightarrow>
                   (case host_str parsed of
                      Some host \<Rightarrow> insert (to_ascii_lowercase host, port_of parsed) acc
                    | None \<Rightarrow> acc))
         {} urls\<rparr>"

definition origin_is_trusted :: "(string \<Rightarrow> string + url) \<Rightarrow> trusted_origins \<Rightarrow> string \<Rightarrow> bool" where
  "origin_is_trusted parse_url self s =
     (case parse_url s of
        Inl _ \<Rightarrow> False
      | Inr parsed \<Rightarrow>
          if \<not> http_scheme parsed then False
          else if username parsed \<noteq> [] \<or> password parsed \<noteq> None then False
          else
            (case host_str parsed of
               None \<Rightarrow> False
             | Some host \<Rightarrow> (to_ascii_lowercase host, port_of parsed) \<in> origins self))"

section \<open>The reserved ranges\<close>

text \<open>The ranges the comments of \<^verbatim>\<open>is_private_ip\<close> name, as CIDR networks.\<close>

definition v4_net :: "int \<Rightarrow> int \<Rightarrow> int \<Rightarrow> int \<Rightarrow> u8 \<Rightarrow> ip_net" where
  "v4_net a b c d n = \<lparr>addr = V4 (v4_of_octets a b c d), prefix_len = n\<rparr>"

definition reserved_v4 :: "ip_net list" where
  "reserved_v4 =
     [v4_net 0 0 0 0 8, v4_net 10 0 0 0 8, v4_net 100 64 0 0 10, v4_net 127 0 0 0 8,
      v4_net 169 254 0 0 16, v4_net 172 16 0 0 12, v4_net 192 0 0 0 24, v4_net 192 168 0 0 16,
      v4_net 198 18 0 0 15, v4_net 224 0 0 0 4, v4_net 255 255 255 255 32]"

definition reserved_v6 :: "ip_net list" where
  "reserved_v6 =
     [\<lparr>addr = V6 0, prefix_len = 128\<rparr>, \<lparr>addr = V6 1, prefix_len = 128\<rparr>,
      \<lparr>addr = V6 (0xfc00 * 2 ^ 112), prefix_len = 7\<rparr>,
      \<lparr>addr = V6 (0xfe80 * 2 ^ 112), prefix_len = 10\<rparr>,
      \<lparr>addr = V6 (0xff00 * 2 ^ 112), prefix_len = 8\<rparr>]"

text \<open>The IPv6 form \<^verbatim>\<open>::ffff:a.b.c.d\<close> of an IPv4 address.\<close>

definition v4_mapped :: "u32 \<Rightarrow> ip_addr" where
  "v4_mapped a = V6 (word_of_int (65535 * 2 ^ 32 + uint a))"

definition in_ranges :: "ip_net list \<Rightarrow> ip_addr \<Rightarrow> bool" where
  "in_ranges nets ip \<longleftrightarrow> (\<exists>net \<in> set nets. contains net ip)"

text \<open>A masked test of a small number is a test of its quotient.\<close>

lemma and_high_mask:
  fixes s :: int
  assumes "0 \<le> s" "s < 2 ^ m"
  shows "s AND (mask m AND NOT (mask n)) = s div 2 ^ n * 2 ^ n"
proof -
  have "s AND (mask m AND NOT (mask n)) = take_bit m s AND NOT (mask n)"
    by (simp add: take_bit_eq_mask ac_simps)
  also have "take_bit m s = s" using assms by (simp add: take_bit_int_eq_self)
  also have "s AND NOT (mask n) = push_bit n (drop_bit n s)"
    by (rule bit_eqI) (auto simp: bit_simps)
  finally show ?thesis by (simp add: push_bit_eq_mult drop_bit_eq_div)
qed

lemma masks_split:
  "(0xC0 :: int) = mask 8 AND NOT (mask 6)" "(0xFE :: int) = mask 8 AND NOT (mask 1)"
  "(0xfe00 :: int) = mask 16 AND NOT (mask 9)" "(0xffc0 :: int) = mask 16 AND NOT (mask 6)"
  by (simp_all add: mask_eq_exp_minus_1)

lemma octet_masks:
  "octet 1 a AND 0xC0 = 64 \<longleftrightarrow> octet 1 a div 64 = 1"
  "octet 1 a AND 0xFE = 18 \<longleftrightarrow> octet 1 a div 2 = 9"
  unfolding masks_split by (subst and_high_mask; simp; linarith)+

lemma segment_bound [simp]: "0 \<le> segment i a" "segment i a < 65536"
  by (simp_all add: segment_def)

lemma segment_masks:
  "segment 0 a AND 0xfe00 = 0xfc00 \<longleftrightarrow> segment 0 a div 512 = 126"
  "segment 0 a AND 0xffc0 = 0xfe80 \<longleftrightarrow> segment 0 a div 64 = 1018"
  unfolding masks_split by (subst and_high_mask; simp; linarith)+

text \<open>The quotients of an address at the prefix lengths of the ranges.\<close>

lemma v4_quotients:
  "uint a div 2 ^ 28 = octet 0 a div 16"
  "uint a div 2 ^ 22 = octet 0 a * 4 + octet 1 a div 64"
  "uint a div 2 ^ 20 = octet 0 a * 16 + octet 1 a div 16"
  "uint a div 2 ^ 17 = octet 0 a * 128 + octet 1 a div 2"
proof -
  have "uint a div 2 ^ 28 = uint a div 2 ^ 24 div 16" by (simp add: zdiv_zmult2_eq [symmetric])
  then show "uint a div 2 ^ 28 = octet 0 a div 16" by (simp only: prefix_octet0)
  have "uint a div 2 ^ 22 = uint a div 2 ^ 16 div 64" by (simp add: zdiv_zmult2_eq [symmetric])
  moreover have "(octet 0 a * 256 + octet 1 a) div 64 = octet 0 a * 4 + octet 1 a div 64"
    using div_mult_self3 [of 64 "octet 0 a * 4" "octet 1 a"] by simp
  ultimately show "uint a div 2 ^ 22 = octet 0 a * 4 + octet 1 a div 64" by (simp only: prefix_octet1)
  have "uint a div 2 ^ 20 = uint a div 2 ^ 16 div 16" by (simp add: zdiv_zmult2_eq [symmetric])
  moreover have "(octet 0 a * 256 + octet 1 a) div 16 = octet 0 a * 16 + octet 1 a div 16"
    using div_mult_self3 [of 16 "octet 0 a * 16" "octet 1 a"] by simp
  ultimately show "uint a div 2 ^ 20 = octet 0 a * 16 + octet 1 a div 16" by (simp only: prefix_octet1)
  have "uint a div 2 ^ 17 = uint a div 2 ^ 16 div 2" by (simp add: zdiv_zmult2_eq [symmetric])
  moreover have "(octet 0 a * 256 + octet 1 a) div 2 = octet 0 a * 128 + octet 1 a div 2"
    using div_mult_self3 [of 2 "octet 0 a * 128" "octet 1 a"] by simp
  ultimately show "uint a div 2 ^ 17 = octet 0 a * 128 + octet 1 a div 2" by (simp only: prefix_octet1)
qed

lemma contains_v4_net:
  assumes "0 \<le> a * 16777216 + b * 65536 + c * 256 + d" "a * 16777216 + b * 65536 + c * 256 + d < 4294967296"
  shows "contains (v4_net a b c d n) (V4 x) \<longleftrightarrow>
     uint x div 2 ^ (32 - unat n) = (a * 16777216 + b * 65536 + c * 256 + d) div 2 ^ (32 - unat n)"
proof -
  have "((a * 256 + b) * 256 + c) * 256 + d = a * 16777216 + b * 65536 + c * 256 + d" by (simp add: algebra_simps)
  with assms have "uint (v4_of_octets a b c d) = a * 16777216 + b * 65536 + c * 256 + d"
    by (simp only: v4_of_octets_def unsigned_of_int) (simp add: take_bit_int_eq_self)
  then show ?thesis by (auto simp: contains_is_prefix v4_net_def)
qed

lemma in_reserved_v4:
  "in_ranges reserved_v4 (V4 x) \<longleftrightarrow>
     uint x div 2 ^ 24 \<in> {0, 10, 127} \<or> uint x div 2 ^ 22 = 401 \<or> uint x div 2 ^ 16 \<in> {43518, 49320}
     \<or> uint x div 2 ^ 20 = 2753 \<or> uint x div 2 ^ 8 = 12582912 \<or> uint x div 2 ^ 17 = 25353
     \<or> uint x div 2 ^ 28 = 14 \<or> uint x = 4294967295"
  by (simp add: in_ranges_def reserved_v4_def contains_v4_net) blast

lemma uint_max_u32: "uint x = 4294967295 \<longleftrightarrow> x = (- 1 :: u32)"
  by (simp add: word_uint_eq_iff unsigned_minus_1_eq_mask mask_eq_exp_minus_1)

lemma octet_of_zero: "octet i 0 = 0"
  by (simp add: octet_def)

text \<open>A number written with two or three digits has those digits only.\<close>

lemma mixed_radix:
  fixes x y r :: int
  assumes "0 \<le> y" "y < r" "0 \<le> v" "v < r"
  shows "x * r + y = u * r + v \<longleftrightarrow> x = u \<and> y = v"
proof
  assume eq: "x * r + y = u * r + v"
  then have "(x * r + y) div r = (u * r + v) div r" "(x * r + y) mod r = (u * r + v) mod r" by simp_all
  with assms show "x = u \<and> y = v" by (simp add: div_pos_pos_trivial mod_pos_pos_trivial)
qed simp

lemma octet_quot: "0 \<le> octet i a div 64" "octet i a div 64 < 4" "0 \<le> octet i a div 16" "octet i a div 16 < 16"
    "0 \<le> octet i a div 2" "octet i a div 2 < 128"
  using octet_bound [of i a] by linarith+

lemma v4_ranges:
  "octet 0 a * 4 + octet 1 a div 64 = 401 \<longleftrightarrow> octet 0 a = 100 \<and> octet 1 a div 64 = 1"
  "octet 0 a * 256 + octet 1 a = 43518 \<longleftrightarrow> octet 0 a = 169 \<and> octet 1 a = 254"
  "octet 0 a * 16 + octet 1 a div 16 = 2753 \<longleftrightarrow> octet 0 a = 172 \<and> octet 1 a div 16 = 1"
  "(octet 0 a * 256 + octet 1 a) * 256 + octet 2 a = 12582912 \<longleftrightarrow> octet 0 a = 192 \<and> octet 1 a = 0 \<and> octet 2 a = 0"
  "octet 0 a * 256 + octet 1 a = 49320 \<longleftrightarrow> octet 0 a = 192 \<and> octet 1 a = 168"
  "octet 0 a * 128 + octet 1 a div 2 = 25353 \<longleftrightarrow> octet 0 a = 198 \<and> octet 1 a div 2 = 9"
  using mixed_radix [of "octet 1 a div 64" 4 1 "octet 0 a" 100] mixed_radix [of "octet 1 a" 256 254 "octet 0 a" 169]
    mixed_radix [of "octet 1 a div 16" 16 1 "octet 0 a" 172] mixed_radix [of "octet 1 a" 256 168 "octet 0 a" 192]
    mixed_radix [of "octet 2 a" 256 0 "octet 0 a * 256 + octet 1 a" 49152] mixed_radix [of "octet 1 a" 256 0 "octet 0 a" 192]
    mixed_radix [of "octet 1 a div 2" 128 9 "octet 0 a" 198]
  by (simp_all add: octet_quot)

lemma div16_ranges: "n div 16 = 14 \<longleftrightarrow> 224 \<le> n \<and> n \<le> 239" "n div 16 = 1 \<longleftrightarrow> 16 \<le> n \<and> n \<le> 31" for n :: int
  by linarith+

lemma private_v4_iff: "is_private_v4 a \<longleftrightarrow> in_ranges reserved_v4 (V4 a)"
proof -
  have "a = 0 \<Longrightarrow> octet 0 a = 0" by (simp add: octet_of_zero)
  then show ?thesis
    unfolding in_reserved_v4 prefix_octet0 prefix_octet1 prefix_octet2 v4_quotients uint_max_u32
      v4_ranges div16_ranges is_private_v4_def octet_masks v4_is_loopback_def v4_is_private_def
      v4_is_link_local_def v4_is_broadcast_def v4_is_unspecified_def v4_is_multicast_def insert_iff empty_iff
    by satx
qed

lemma prefix_segment0: "uint (a :: u128) div 2 ^ 112 = segment 0 a"
proof -
  have "uint a div 2 ^ 112 \<le> (2 ^ 128 - 1) div 2 ^ 112"
    using uint_u128 [of a] by (intro zdiv_mono1) simp_all
  moreover have "0 \<le> uint a div 2 ^ 112" by (simp add: pos_imp_zdiv_nonneg_iff)
  ultimately show ?thesis by (simp add: segment_def mod_pos_pos_trivial)
qed

lemma v6_quotients:
  "uint a div 2 ^ 121 = segment 0 a div 512" "uint a div 2 ^ 118 = segment 0 a div 64"
proof -
  have "uint a div 2 ^ 121 = uint a div 2 ^ 112 div 512" by (simp add: zdiv_zmult2_eq [symmetric])
  then show "uint a div 2 ^ 121 = segment 0 a div 512" by (simp only: prefix_segment0)
  have "uint a div 2 ^ 118 = uint a div 2 ^ 112 div 64" by (simp add: zdiv_zmult2_eq [symmetric])
  then show "uint a div 2 ^ 118 = segment 0 a div 64" by (simp only: prefix_segment0)
qed

lemma in_reserved_v6:
  "in_ranges reserved_v6 (V6 x) \<longleftrightarrow>
     x = 0 \<or> x = 1 \<or> uint x div 2 ^ 121 = 126 \<or> uint x div 2 ^ 118 = 1018 \<or> uint x div 2 ^ 120 = 255"
proof -
  have "uint x = 0 \<longleftrightarrow> x = 0" "uint x = 1 \<longleftrightarrow> x = 1"
    by (simp_all add: word_uint_eq_iff)
  then show ?thesis
    by (simp add: in_ranges_def reserved_v6_def contains_is_prefix)
qed

lemma ranges_by_family:
  "\<not> in_ranges reserved_v4 (V6 x)" "\<not> in_ranges reserved_v6 (V4 a)"
  by (simp_all add: in_ranges_def reserved_v4_def reserved_v6_def v4_net_def contains_def)

lemma to_ipv4_mapped_iff: "to_ipv4_mapped x = Some a \<longleftrightarrow> V6 x = v4_mapped a"
proof
  assume "to_ipv4_mapped x = Some a"
  then have hi: "uint x div 2 ^ 32 = 65535" and lo: "a = word_of_int (uint x mod 2 ^ 32)"
    by (simp_all add: to_ipv4_mapped_def split: if_splits)
  have "uint a = uint x mod 2 ^ 32"
    unfolding lo by (simp only: unsigned_of_int) (simp add: take_bit_int_eq_self)
  moreover have "uint x div 2 ^ 32 * 2 ^ 32 + uint x mod 2 ^ 32 = uint x" by (rule div_mult_mod_eq)
  ultimately have "65535 * 2 ^ 32 + uint a = uint x" by (simp only: hi)
  then have "word_of_int (65535 * 2 ^ 32 + uint a) = x" by (simp only: word_of_int_uint)
  then show "V6 x = v4_mapped a" by (simp only: v4_mapped_def)
next
  assume "V6 x = v4_mapped a"
  then have x: "x = word_of_int (65535 * 2 ^ 32 + uint a)" by (simp only: v4_mapped_def ip_addr.inject)
  have "uint x = 65535 * 2 ^ 32 + uint a"
    unfolding x using uint_u32 [of a] by (simp only: unsigned_of_int) (simp add: take_bit_int_eq_self)
  then have "uint x div 2 ^ 32 = 65535" "uint x mod 2 ^ 32 = uint a"
    using mixed_radix [of "uint x mod 2 ^ 32" "2 ^ 32" "uint a" "uint x div 2 ^ 32" 65535] uint_u32 [of a]
    by (simp_all only: div_mult_mod_eq) simp_all
  then show "to_ipv4_mapped x = Some a" by (simp add: to_ipv4_mapped_def)
qed

text \<open>The reference definition: an address in a reserved range, or the IPv6 form of one.\<close>

definition reserved :: "ip_addr \<Rightarrow> bool" where
  "reserved ip \<longleftrightarrow> in_ranges (reserved_v4 @ reserved_v6) ip
     \<or> (\<exists>a. ip = v4_mapped a \<and> in_ranges reserved_v4 (V4 a))"

lemma private_ip_iff: "is_private_ip ip \<longleftrightarrow> reserved ip"
proof (cases ip)
  case (V4 a)
  then show ?thesis
    using ranges_by_family(2) [of a]
    by (auto simp: reserved_def in_ranges_def private_v4_iff v4_mapped_def)
next
  case (V6 x)
  have "is_private_ip ip \<longleftrightarrow> in_ranges reserved_v6 (V6 x) \<or> (\<exists>a. V6 x = v4_mapped a \<and> in_ranges reserved_v4 (V4 a))"
    unfolding V6 is_private_ip.simps in_reserved_v6 v6_quotients segment_masks private_v4_iff
      v6_is_loopback_def v6_is_unspecified_def v6_is_multicast_def to_ipv4_mapped_iff [symmetric]
    by (auto split: option.splits)
  then show ?thesis
    using V6 ranges_by_family(1) [of x] by (auto simp: reserved_def in_ranges_def)
qed

section \<open>Properties\<close>

lemma private_in_list: "(\<exists>a \<in> set addrs. is_private_ip a) \<longleftrightarrow> (\<exists>a \<in> set addrs. reserved a)"
  by (simp add: private_ip_iff)

lemma rebuild_origins:
  "origins (rebuild parse_url urls self) =
     {o'. \<exists>t \<in> set urls. \<exists>u. parse_url t = Inr u \<and> origin_of u = Some o'}"
proof -
  have "foldl (\<lambda>acc s. case parse_url s of
                 Inl _ \<Rightarrow> acc
               | Inr parsed \<Rightarrow>
                   (case host_str parsed of
                      Some host \<Rightarrow> insert (to_ascii_lowercase host, port_of parsed) acc
                    | None \<Rightarrow> acc)) acc urls
        = acc \<union> {o'. \<exists>t \<in> set urls. \<exists>u. parse_url t = Inr u \<and> origin_of u = Some o'}" for acc
    by (induction urls arbitrary: acc) (auto simp: origin_of_def split: sum.split option.split)
  then show ?thesis by (simp add: rebuild_def)
qed

text \<open>
  C16 (equivalence): \<^verbatim>\<open>is_private_ip\<close>, a chain of octet tests and bit masks, is true of exactly the
  addresses in the sixteen reserved CIDR ranges and of the IPv6 forms \<^verbatim>\<open>::ffff:a.b.c.d\<close> of the
  reserved IPv4 addresses. So no reserved IPv4 address is let through by writing it as IPv6.
\<close>

theorem private_addresses_are_the_reserved_ranges:
  "is_private_ip ip \<longleftrightarrow>
     in_ranges (reserved_v4 @ reserved_v6) ip \<or> (\<exists>a. ip = v4_mapped a \<and> in_ranges reserved_v4 (V4 a))"
  unfolding private_ip_iff reserved_def ..

text \<open>
  C15 (safety): a URL passes the check exactly when it parses, has scheme http or https and a host,
  and the host is a public address literal or a name all of whose addresses (at least one) are
  public. The resolver the client connects through makes the same demand of its own lookup, so an
  answer that changes between the check and the connection, or a redirect to another name, still
  never leads to a reserved address.
\<close>

theorem no_reserved_address_is_dialled:
  "(validate_url parse_url lookup_host s = Inr () \<longleftrightarrow>
     (\<exists>u host. parse_url s = Inr u \<and> http_scheme u \<and> host_str u = Some host
        \<and> (case parse_ip host of
              Some ip \<Rightarrow> \<not> reserved ip
            | None \<Rightarrow> (\<exists>addrs. lookup_host (host_port host (port_of u)) = Inr addrs \<and> addrs \<noteq> []
                        \<and> \<not> (\<exists>a \<in> set addrs. reserved a)))))
   \<and> (resolve lookup_later name = Inr addrs \<longleftrightarrow>
        lookup_later (host_port name 0) = Inr addrs \<and> addrs \<noteq> [] \<and> \<not> (\<exists>a \<in> set addrs. reserved a))"
  unfolding validate_url_def resolve_def private_in_list private_ip_iff
  by (intro conjI) (auto simp: Let_def split: sum.splits option.splits if_splits)

text \<open>
  after the registry is rebuilt from the configured URLs, a URL is trusted exactly
  when it is http or https, carries no user name and no password, and its host and port are those
  of a configured URL that parses. Nothing of an earlier registry survives the rebuild, and the
  empty registry trusts nothing.
\<close>

theorem only_configured_origins_are_trusted:
  "(origin_is_trusted parse_url (rebuild parse_url urls old) s \<longleftrightarrow>
      (\<exists>u. parse_url s = Inr u \<and> http_scheme u \<and> username u = [] \<and> password u = None
         \<and> (\<exists>t \<in> set urls. \<exists>v. parse_url t = Inr v \<and> origin_of v = origin_of u \<and> origin_of u \<noteq> None)))
   \<and> \<not> origin_is_trusted parse_url trusted_origins_new s"
proof
  show "origin_is_trusted parse_url (rebuild parse_url urls old) s \<longleftrightarrow>
     (\<exists>u. parse_url s = Inr u \<and> http_scheme u \<and> username u = [] \<and> password u = None
        \<and> (\<exists>t \<in> set urls. \<exists>v. parse_url t = Inr v \<and> origin_of v = origin_of u \<and> origin_of u \<noteq> None))"
    unfolding origin_is_trusted_def rebuild_origins
    by (auto simp: origin_of_def split: sum.splits option.splits)
  show "\<not> origin_is_trusted parse_url trusted_origins_new s"
    by (auto simp: origin_is_trusted_def trusted_origins_new_def split: sum.splits option.splits)
qed

end
