(* ===== verification/Reconcile.thy ===== *)
theory Reconcile
  imports Complex_Main Prelude "HOL-Library.While_Combinator"
begin

text \<open>
  The reconciliation of extraction hypotheses (\<^verbatim>\<open>livrarr-matching/src/reconcile.rs\<close> and the types of
  \<^verbatim>\<open>types.rs\<close>): hypotheses about one book, read from a file's tags, its path and its name, are
  clustered by agreement with a union-find over their indices; each cluster gets a primary
  hypothesis whose missing fields the other members fill; clusters are ranked.

  The two similarities of \<^verbatim>\<open>m4_scoring\<close> are parameters: they rest on the rapidfuzz and
  unicode-normalization crates. They return finite 64-bit floats, which are rational numbers; the
  thresholds are the floats the literals denote. A series position (a float) is only copied, so
  its type is left open. The iteration order of a \<^verbatim>\<open>HashMap\<close> or \<^verbatim>\<open>HashSet\<close> is a parameter too, of
  which only that it is a permutation is known.
\<close>

section \<open>Hypotheses\<close>

datatype extraction_source = Embedded | Path | String | Synthetic

datatype confidence = Low | MediumLow | Medium | MediumHigh | High

fun confidence_rank :: "confidence \<Rightarrow> nat" where
  "confidence_rank Low = 0"
| "confidence_rank MediumLow = 1"
| "confidence_rank Medium = 2"
| "confidence_rank MediumHigh = 3"
| "confidence_rank High = 4"

lemma confidence_rank_inj [simp]: "confidence_rank a = confidence_rank b \<longleftrightarrow> a = b"
  by (cases a; cases b) simp_all

text \<open>The derived order of the enumeration is the order of the variants.\<close>

instantiation confidence :: linorder
begin

definition less_eq_confidence :: "confidence \<Rightarrow> confidence \<Rightarrow> bool" where
  "less_eq_confidence a b \<longleftrightarrow> confidence_rank a \<le> confidence_rank b"

definition less_confidence :: "confidence \<Rightarrow> confidence \<Rightarrow> bool" where
  "less_confidence a b \<longleftrightarrow> confidence_rank a < confidence_rank b"

instance
  by standard (auto simp: less_eq_confidence_def less_confidence_def)

end

record 'f extraction =
  title :: "string option"
  author :: "string option"
  year :: "int option"
  isbn :: "string option"
  language :: "string option"
  series :: "string option"
  series_position :: "'f option"
  narrator :: "string option"
  asin :: "string option"
  confidence :: confidence
  source :: extraction_source

definition non_empty :: "string option \<Rightarrow> bool" where
  "non_empty v \<longleftrightarrow> (case v of Some s \<Rightarrow> s \<noteq> [] | None \<Rightarrow> False)"

definition has_title :: "'f extraction \<Rightarrow> bool" where
  "has_title e \<longleftrightarrow> non_empty (title e)"

definition has_author :: "'f extraction \<Rightarrow> bool" where
  "has_author e \<longleftrightarrow> non_empty (author e)"

definition has_title_and_author :: "'f extraction \<Rightarrow> bool" where
  "has_title_and_author e \<longleftrightarrow> has_title e \<and> has_author e"

definition completeness :: "'f extraction \<Rightarrow> nat" where
  "completeness e =
     (if has_title e then 3 else 0) + (if has_author e then 2 else 0)
     + (if year e \<noteq> None then 1 else 0) + (if isbn e \<noteq> None then 1 else 0)
     + (if series e \<noteq> None then 1 else 0)"

section \<open>Agreement\<close>

text \<open>The float nearest to 0.80.\<close>

definition F64_0_80 :: rat where
  "F64_0_80 = 3602879701896397 / 4503599627370496"

definition unwrap_or_empty :: "string option \<Rightarrow> string" where
  "unwrap_or_empty v = (case v of Some s \<Rightarrow> s | None \<Rightarrow> [])"

definition extractions_agree ::
  "(string \<Rightarrow> string \<Rightarrow> rat) \<Rightarrow> (string \<Rightarrow> string \<Rightarrow> rat) \<Rightarrow> 'f extraction \<Rightarrow> 'f extraction \<Rightarrow> bool" where
  "extractions_agree string_similarity author_similarity a b =
     (let title_a = unwrap_or_empty (title a); title_b = unwrap_or_empty (title b) in
      if title_a = [] \<or> title_b = [] then False
      else if string_similarity title_a title_b < F64_0_80 then False
      else
        (case (author a, author b) of
           (Some aa, Some bb) \<Rightarrow>
             if aa \<noteq> [] \<and> bb \<noteq> [] then author_similarity aa bb > F64_0_80 else True
         | _ \<Rightarrow> True))"

section \<open>Union-find\<close>

text \<open>
  \<^verbatim>\<open>find\<close>: the first loop walks to the root, the second points every node of the walk at it. Both
  loops are \<^const>\<open>while_option\<close>, so not returning would be \<^const>\<open>None\<close>.
\<close>

definition find_root :: "nat list \<Rightarrow> nat \<Rightarrow> nat option" where
  "find_root parent i = while_option (\<lambda>r. parent ! r \<noteq> r) (\<lambda>r. parent ! r) i"

definition compress :: "nat \<Rightarrow> nat list \<Rightarrow> nat \<Rightarrow> nat list option" where
  "compress r parent i =
     map_option fst
       (while_option (\<lambda>(p, cur). p ! cur \<noteq> r) (\<lambda>(p, cur). (p[cur := r], p ! cur)) (parent, i))"

definition uf_find :: "nat list \<Rightarrow> nat \<Rightarrow> (nat \<times> nat list) option" where
  "uf_find parent i =
     (case find_root parent i of
        None \<Rightarrow> None
      | Some r \<Rightarrow> map_option (\<lambda>p. (r, p)) (compress r parent i))"

definition union_pair :: "nat \<times> nat \<Rightarrow> nat list \<Rightarrow> nat list option" where
  "union_pair ij parent =
     (case uf_find parent (fst ij) of
        None \<Rightarrow> None
      | Some (ri, p1) \<Rightarrow>
          (case uf_find p1 (snd ij) of
             None \<Rightarrow> None
           | Some (rj, p2) \<Rightarrow> Some (if ri \<noteq> rj then p2[ri := rj] else p2)))"

text \<open>
  The double loop over the pairs \<open>i < j\<close> and the collection of the indices under their roots. Both
  take the union-find operation they call as an argument.
\<close>

definition index_pairs :: "nat \<Rightarrow> (nat \<times> nat) list" where
  "index_pairs n = concat (map (\<lambda>i. map (Pair i) [Suc i..<n]) [0..<n])"

fun union_all ::
  "(nat \<times> nat \<Rightarrow> 's \<Rightarrow> 's option) \<Rightarrow> (nat \<times> nat \<Rightarrow> bool) \<Rightarrow> (nat \<times> nat) list \<Rightarrow> 's \<Rightarrow> 's option" where
  "union_all join_op agree [] p = Some p"
| "union_all join_op agree (ij # rest) p =
     (if agree ij
      then (case join_op ij p of None \<Rightarrow> None | Some p' \<Rightarrow> union_all join_op agree rest p')
      else union_all join_op agree rest p)"

text \<open>\<^verbatim>\<open>cluster_map.entry(root).or_default().push(i)\<close>.\<close>

fun entry_push :: "nat \<Rightarrow> nat \<Rightarrow> (nat \<times> nat list) list \<Rightarrow> (nat \<times> nat list) list" where
  "entry_push r i [] = [(r, [i])]"
| "entry_push r i ((k, v) # m) = (if k = r then (k, v @ [i]) # m else (k, v) # entry_push r i m)"

fun collect_clusters ::
  "('s \<Rightarrow> nat \<Rightarrow> (nat \<times> 's) option) \<Rightarrow> nat list \<Rightarrow> 's \<Rightarrow> (nat \<times> nat list) list \<Rightarrow> (nat \<times> nat list) list option" where
  "collect_clusters find_rep [] p m = Some m"
| "collect_clusters find_rep (i # is) p m =
     (case find_rep p i of
        None \<Rightarrow> None
      | Some (r, p') \<Rightarrow> collect_clusters find_rep is p' (entry_push r i m))"

section \<open>Clusters\<close>

record 'f cluster =
  primary :: "'f extraction"
  members :: "'f extraction list"
  cluster_confidence :: confidence

fun source_trust :: "extraction_source \<Rightarrow> nat" where
  "source_trust Embedded = 3"
| "source_trust Path = 2"
| "source_trust String = 1"
| "source_trust Synthetic = 0"

text \<open>\<^verbatim>\<open>Iterator::max_by\<close> with a comparison by key: of several maxima it returns the last.\<close>

fun max_by_key :: "('a \<Rightarrow> 'k::linorder) \<Rightarrow> 'a \<Rightarrow> 'a list \<Rightarrow> 'a" where
  "max_by_key f best [] = best"
| "max_by_key f best (x # xs) = max_by_key f (if f best > f x then best else x) xs"

definition primary_key :: "'f extraction \<Rightarrow> nat \<times> nat" where
  "primary_key e = (completeness e, source_trust (source e))"

definition fill :: "'a option \<Rightarrow> 'a option \<Rightarrow> 'a option" where
  "fill mine theirs = (case mine of None \<Rightarrow> theirs | Some v \<Rightarrow> Some v)"

definition fill_from :: "'f extraction \<Rightarrow> 'f extraction \<Rightarrow> 'f extraction" where
  "fill_from p m = p\<lparr>year := fill (year p) (year m), isbn := fill (isbn p) (isbn m),
     language := fill (language p) (language m), series := fill (series p) (series m),
     series_position := fill (series_position p) (series_position m),
     narrator := fill (narrator p) (narrator m), asin := fill (asin p) (asin m)\<rparr>"

definition build_cluster :: "'f extraction list \<Rightarrow> 'f cluster option" where
  "build_cluster ms =
     (case ms of
        [] \<Rightarrow> None
      | m # rest \<Rightarrow>
          (let p = foldl fill_from (max_by_key primary_key m rest) ms;
               agreement_count = length ms;
               conf = (if agreement_count \<ge> 3 \<or> (agreement_count = 2 \<and> has_title_and_author p) then High
                       else if has_title_and_author p then confidence p
                       else if has_title p then MediumLow
                       else Low)
           in Some \<lparr>primary = p, members = ms, cluster_confidence = conf\<rparr>))"

text \<open>
  The final stable sort: higher confidence first, then higher completeness of the primary. The
  descending comparison is the ascending one of the complements (completeness is at most 8).
\<close>

definition rank_key :: "'f cluster \<Rightarrow> nat \<times> nat" where
  "rank_key c = (4 - confidence_rank (cluster_confidence c), 8 - completeness (primary c))"

definition reconcile ::
  "(string \<Rightarrow> string \<Rightarrow> rat) \<Rightarrow> (string \<Rightarrow> string \<Rightarrow> rat) \<Rightarrow> ((nat \<times> nat list) list \<Rightarrow> (nat \<times> nat list) list) \<Rightarrow>
   'f extraction list \<Rightarrow> 'f cluster list option" where
  "reconcile string_similarity author_similarity hash_order extractions =
     (case extractions of
        [] \<Rightarrow> Some []
      | [e] \<Rightarrow> Some [\<lparr>primary = e, members = [e], cluster_confidence = confidence e\<rparr>]
      | _ \<Rightarrow>
          (let n = length extractions;
               agree = (\<lambda>(i, j). extractions_agree string_similarity author_similarity (extractions ! i) (extractions ! j))
           in case union_all union_pair agree (index_pairs n) [0..<n] of
                None \<Rightarrow> None
              | Some parent \<Rightarrow>
                  (case collect_clusters uf_find [0..<n] parent [] of
                     None \<Rightarrow> None
                   | Some cluster_map \<Rightarrow>
                       Some (sort_key rank_key
                         (List.map_filter (\<lambda>indices. build_cluster (map (nth extractions) indices))
                           (map snd (hash_order cluster_map)))))))"

section \<open>The combinatorial fallback\<close>

definition synthetic_extraction :: "string \<Rightarrow> string \<Rightarrow> 'f extraction" where
  "synthetic_extraction t a = \<lparr>title = Some t, author = Some a, year = None, isbn = None, language = None,
     series = None, series_position = None, narrator = None, asin = None, confidence = Low, source = Synthetic\<rparr>"

definition generate_synthetic :: "(string list \<Rightarrow> string list) \<Rightarrow> 'f extraction list \<Rightarrow> 'f extraction list" where
  "generate_synthetic set_order extractions =
     (let titles = set_order (remdups (filter (\<lambda>t. t \<noteq> []) (List.map_filter title extractions)));
          authors = set_order (remdups (filter (\<lambda>a. a \<noteq> []) (List.map_filter author extractions)))
      in if titles = [] \<or> authors = [] then []
         else concat (map (\<lambda>t.
                List.map_filter (\<lambda>a.
                  if \<exists>e \<in> set extractions. title e = Some t \<and> author e = Some a then None
                  else Some (synthetic_extraction t a)) authors) titles))"

section \<open>The union-find keeps a partition\<close>

text \<open>\<open>rep p i r\<close>: the walk from \<open>i\<close> along the parents ends in the root \<open>r\<close>.\<close>

inductive rep :: "nat list \<Rightarrow> nat \<Rightarrow> nat \<Rightarrow> bool" for p where
  at_root: "r < length p \<Longrightarrow> p ! r = r \<Longrightarrow> rep p r r"
| up: "i < length p \<Longrightarrow> p ! i \<noteq> i \<Longrightarrow> rep p (p ! i) r \<Longrightarrow> rep p i r"

inductive_cases rep_cases: "rep p i r"

definition forest :: "nat list \<Rightarrow> bool" where
  "forest p \<longleftrightarrow> (\<forall>i<length p. \<exists>r. rep p i r)"

definition rep_of :: "nat list \<Rightarrow> nat \<Rightarrow> nat" where
  "rep_of p i = (THE r. rep p i r)"

lemma rep_unique: "rep p i r \<Longrightarrow> rep p i s \<Longrightarrow> r = s"
  by (induction rule: rep.induct) (auto elim: rep_cases)

lemma rep_bounds: "rep p i r \<Longrightarrow> i < length p \<and> r < length p \<and> p ! r = r"
  by (induction rule: rep.induct) auto

lemma rep_of_eq: "rep p i r \<Longrightarrow> rep_of p i = r"
  unfolding rep_of_def by (rule the_equality) (auto intro: rep_unique)

lemma rep_rep_of: "forest p \<Longrightarrow> i < length p \<Longrightarrow> rep p i (rep_of p i)"
  using rep_of_eq by (fastforce simp: forest_def)

lemma find_root_rep: "rep p i r \<Longrightarrow> find_root p i = Some r"
  unfolding find_root_def
  by (induction rule: rep.induct) (subst while_option_unfold, simp)+

text \<open>Pointing a node at its own root changes no root.\<close>

lemma rep_elsewhere: "i < length p \<Longrightarrow> i \<noteq> c \<Longrightarrow> p ! i \<noteq> i \<Longrightarrow> rep (p[c := r]) (p ! i) s \<Longrightarrow> rep (p[c := r]) i s"
  using rep.up [of i "p[c := r]" s] by simp

lemma rep_here: "c < length p \<Longrightarrow> r \<noteq> c \<Longrightarrow> rep (p[c := r]) r s \<Longrightarrow> rep (p[c := r]) c s"
  using rep.up [of c "p[c := r]" s] by simp

lemma root_elsewhere: "rep p r r \<Longrightarrow> r \<noteq> c \<Longrightarrow> rep (p[c := d]) r r"
  using rep_bounds [of p r r] rep.at_root [of r "p[c := d]"] by simp

lemma rep_shortcut:
  assumes c: "rep p c r" and i: "rep p i s"
  shows "rep (p[c := r]) i s"
  using i
proof (induction rule: rep.induct)
  case (at_root s)
  show ?case
  proof (cases "s = c")
    case True
    then have "r = c" using at_root rep_unique [OF c] rep.at_root [of c p] by simp
    then show ?thesis using True at_root rep.at_root [of c "p[c := r]"] by simp
  next
    case False
    then show ?thesis using root_elsewhere [of p s c r] rep.at_root [OF at_root] by simp
  qed
next
  case (up i s)
  show ?case
  proof (cases "i = c")
    case True
    then have "s = r" using c up.hyps rep_unique [of p c] rep.up [of c p s] by simp
    have root: "rep p r r" "c < length p" using rep_bounds [OF c] by (auto intro: rep.at_root)
    then have "r \<noteq> c" using up.hyps True rep_bounds [OF c] by auto
    then show ?thesis unfolding True \<open>s = r\<close> using rep_here [OF root(2)] root_elsewhere [OF root(1)] by simp
  next
    case False
    then show ?thesis using rep_elsewhere [of i p c r s] up by simp
  qed
qed

lemma shortcut_forest:
  assumes "forest p" "rep p c r"
  shows "forest (p[c := r]) \<and> (\<forall>i<length p. rep_of (p[c := r]) i = rep_of p i)"
  using rep_shortcut [OF assms(2) rep_rep_of [OF assms(1)]] rep_of_eq by (auto simp: forest_def)

text \<open>The second loop of \<^verbatim>\<open>find\<close> returns, and keeps every root.\<close>

definition compress_inv :: "nat list \<Rightarrow> nat \<Rightarrow> nat list \<times> nat \<Rightarrow> bool" where
  "compress_inv p r s \<longleftrightarrow> forest (fst s) \<and> length (fst s) = length p
     \<and> (\<forall>j<length p. rep_of (fst s) j = rep_of p j) \<and> rep (fst s) (snd s) r"

definition unpointed :: "nat \<Rightarrow> nat list \<Rightarrow> nat" where
  "unpointed r q = card {j. j < length q \<and> q ! j \<noteq> r}"

lemma compress_step:
  assumes inv: "compress_inv p r (q, cur)" and more: "q ! cur \<noteq> r"
  shows "compress_inv p r (q[cur := r], q ! cur) \<and> unpointed r (q[cur := r]) < unpointed r q"
proof
  have q: "forest q" "length q = length p" "\<forall>j<length p. rep_of q j = rep_of p j" and cur: "rep q cur r"
    using inv by (simp_all add: compress_inv_def)
  have "rep q (q ! cur) r" using cur more by (auto elim: rep_cases)
  then have "rep (q[cur := r]) (q ! cur) r" by (rule rep_shortcut [OF cur])
  then show "compress_inv p r (q[cur := r], q ! cur)"
    using shortcut_forest [OF q(1) cur] q(2,3) by (simp add: compress_inv_def)
  have "cur < length q" using rep_bounds [OF cur] by simp
  then have "{j. j < length (q[cur := r]) \<and> q[cur := r] ! j \<noteq> r} \<subset> {j. j < length q \<and> q ! j \<noteq> r}"
    using more by (auto simp: nth_list_update split: if_splits)
  then show "unpointed r (q[cur := r]) < unpointed r q"
    unfolding unpointed_def by (intro psubset_card_mono) auto
qed

lemma compress_returns:
  assumes "rep p i r" "forest p"
  shows "\<exists>q. compress r p i = Some q \<and> forest q \<and> length q = length p
           \<and> (\<forall>j<length p. rep_of q j = rep_of p j)"
proof -
  let ?b = "\<lambda>(q, cur). q ! cur \<noteq> r" and ?c = "\<lambda>(q, cur). (q[cur := r], q ! cur)"
  have start: "compress_inv p r (p, i)" using assms by (simp add: compress_inv_def)
  have step: "compress_inv p r s \<Longrightarrow> ?b s \<Longrightarrow> compress_inv p r (?c s) \<and> unpointed r (fst (?c s)) < unpointed r (fst s)"
    for s :: "nat list \<times> nat"
    using compress_step [of p r "fst s" "snd s"] by (cases s) simp
  obtain q where q: "while_option ?b ?c (p, i) = Some q"
    using measure_while_option_Some [of "compress_inv p r" ?b ?c "\<lambda>s. unpointed r (fst s)" "(p, i)"] step start by blast
  have "compress_inv p r q"
    by (rule while_option_rule [OF _ q]) (use step start in blast)+
  then show ?thesis using q by (auto simp: compress_def compress_inv_def)
qed

lemma uf_find_returns:
  assumes "forest p" "i < length p"
  shows "\<exists>q. uf_find p i = Some (rep_of p i, q) \<and> forest q \<and> length q = length p
           \<and> (\<forall>j<length p. rep_of q j = rep_of p j)"
  using compress_returns [OF rep_rep_of [OF assms] assms(1)] find_root_rep [OF rep_rep_of [OF assms]]
  by (auto simp: uf_find_def)

text \<open>Linking one root under another joins their two trees and nothing else.\<close>

lemma rep_link:
  assumes a: "rep p a a" and b: "rep p b b" and "a \<noteq> b" and i: "rep p i r"
  shows "rep (p[a := b]) i (if r = a then b else r)"
  using i
proof (induction rule: rep.induct)
  case (at_root r)
  have root: "rep (p[a := b]) b b" using root_elsewhere [OF b] \<open>a \<noteq> b\<close> by simp
  show ?case
  proof (cases "r = a")
    case True
    then show ?thesis using root rep_here [of a p b b] rep_bounds [OF a] \<open>a \<noteq> b\<close> by simp
  next
    case False
    then show ?thesis using at_root root_elsewhere [of p r a b] rep.at_root [of r p] by simp
  qed
next
  case (up i r)
  have "i \<noteq> a" using rep_bounds [OF a] up.hyps by auto
  then show ?case using rep_elsewhere [of i p a b "if r = a then b else r"] up by simp
qed

lemma link_forest:
  assumes "forest p" "rep p a a" "rep p b b" "a \<noteq> b"
  shows "forest (p[a := b]) \<and> (\<forall>i<length p. rep_of (p[a := b]) i = (if rep_of p i = a then b else rep_of p i))"
proof -
  have "rep (p[a := b]) i (if rep_of p i = a then b else rep_of p i)" if "i < length p" for i
    by (rule rep_link [OF assms(2-4) rep_rep_of [OF assms(1) that]])
  then show ?thesis using rep_of_eq by (fastforce simp: forest_def)
qed

lemma rep_of_root: "forest p \<Longrightarrow> i < length p \<Longrightarrow> rep p (rep_of p i) (rep_of p i)"
  using rep_bounds [OF rep_rep_of] by (auto intro: rep.at_root)

lemma union_pair_returns:
  assumes p: "forest p" and ab: "a < length p" "b < length p"
  shows "\<exists>q. union_pair (a, b) p = Some q \<and> forest q \<and> length q = length p
     \<and> (\<forall>i<length p. rep_of q i = (if rep_of p i = rep_of p a then rep_of p b else rep_of p i))"
proof -
  obtain p1 where p1: "uf_find p a = Some (rep_of p a, p1)" "forest p1" "length p1 = length p"
    "\<forall>j<length p. rep_of p1 j = rep_of p j"
    using uf_find_returns [OF p ab(1)] by blast
  obtain p2 where p2: "uf_find p1 b = Some (rep_of p b, p2)" "forest p2" "length p2 = length p"
    "\<forall>j<length p. rep_of p2 j = rep_of p j"
    using uf_find_returns [OF p1(2), of b] p1(3,4) ab(2) by auto
  have "rep p2 (rep_of p a) (rep_of p a)" "rep p2 (rep_of p b) (rep_of p b)"
    using rep_of_root [OF p2(2)] p2(3,4) ab by metis+
  then show ?thesis
    using p1(1) p2 link_forest [OF p2(2), of "rep_of p a" "rep_of p b"]
    by (auto simp: union_pair_def)
qed

lemma fresh_forest: "forest [0..<n]" "i < n \<Longrightarrow> rep_of [0..<n] i = i"
  by (auto simp: forest_def intro!: rep.at_root exI rep_of_eq)

section \<open>The interface of a partition\<close>

text \<open>The equivalence a set of pairs generates.\<close>

definition eqc :: "('a \<times> 'a) set \<Rightarrow> ('a \<times> 'a) set" where
  "eqc E = (E \<union> E\<inverse>)\<^sup>*"

lemma eqc_refl [simp]: "(i, i) \<in> eqc E"
  by (simp add: eqc_def)

lemma eqc_sym: "(i, j) \<in> eqc E \<Longrightarrow> (j, i) \<in> eqc E"
proof -
  have "(E \<union> E\<inverse>)\<inverse> = E \<union> E\<inverse>" by auto
  then show "(i, j) \<in> eqc E \<Longrightarrow> (j, i) \<in> eqc E" unfolding eqc_def by (metis converse_iff rtrancl_converse)
qed

lemma eqc_trans: "(i, j) \<in> eqc E \<Longrightarrow> (j, k) \<in> eqc E \<Longrightarrow> (i, k) \<in> eqc E"
  unfolding eqc_def by (rule rtrancl_trans)

lemma eqc_mono: "(i, j) \<in> eqc E \<Longrightarrow> E \<subseteq> F \<Longrightarrow> (i, j) \<in> eqc F"
  unfolding eqc_def by (rule subsetD [OF rtrancl_mono]) auto

lemma eqc_insert_new: "(a, b) \<in> eqc (insert (a, b) E)" "(b, a) \<in> eqc (insert (a, b) E)"
  unfolding eqc_def by (auto intro: r_into_rtrancl)

lemma eqc_insert:
  "(i, j) \<in> eqc (insert (a, b) E) \<longleftrightarrow>
     (i, j) \<in> eqc E \<or> ((i, a) \<in> eqc E \<and> (b, j) \<in> eqc E) \<or> ((i, b) \<in> eqc E \<and> (a, j) \<in> eqc E)" (is "?l \<longleftrightarrow> ?r")
proof
  assume ?l
  then have "(i, j) \<in> (insert (a, b) E \<union> (insert (a, b) E)\<inverse>)\<^sup>*" by (simp add: eqc_def)
  then show ?r
  proof (induction rule: rtrancl_induct)
    case (step y z)
    consider "(y, z) \<in> eqc E" | "y = a" "z = b" | "y = b" "z = a"
      using step.hyps(2) unfolding eqc_def by blast
    then show ?case
    proof cases
      case 1
      with step.IH show ?thesis using eqc_trans by metis
    next
      case 2
      with step.IH show ?thesis using eqc_trans eqc_refl by metis
    next
      case 3
      with step.IH show ?thesis using eqc_trans eqc_refl by metis
    qed
  qed simp
next
  have old: "(x, y) \<in> eqc E \<Longrightarrow> (x, y) \<in> eqc (insert (a, b) E)" for x y by (rule eqc_mono) auto
  assume ?r
  then show ?l using old eqc_insert_new eqc_trans by metis
qed

text \<open>
  What the clustering relies on: a store with a representative for each index, a look-up that
  returns the representative and changes none, and a join that identifies the classes of two
  indices and no others.
\<close>

locale partition_store =
  fixes valid :: "'s \<Rightarrow> bool"
    and size_of :: "'s \<Rightarrow> nat"
    and rep_at :: "'s \<Rightarrow> nat \<Rightarrow> nat"
    and find_rep :: "'s \<Rightarrow> nat \<Rightarrow> (nat \<times> 's) option"
    and join_op :: "nat \<times> nat \<Rightarrow> 's \<Rightarrow> 's option"
    and fresh :: "nat \<Rightarrow> 's"
  assumes fresh_law: "valid (fresh n) \<and> size_of (fresh n) = n \<and> (\<forall>i<n. rep_at (fresh n) i = i)"
    and find_law: "valid s \<Longrightarrow> i < size_of s \<Longrightarrow>
      \<exists>t. find_rep s i = Some (rep_at s i, t) \<and> valid t \<and> size_of t = size_of s
        \<and> (\<forall>j < size_of s. rep_at t j = rep_at s j)"
    and join_law: "valid s \<Longrightarrow> a < size_of s \<Longrightarrow> b < size_of s \<Longrightarrow>
      \<exists>t. join_op (a, b) s = Some t \<and> valid t \<and> size_of t = size_of s
        \<and> (\<forall>i < size_of s. rep_at t i = (if rep_at s i = rep_at s a then rep_at s b else rep_at s i))"
begin

definition tells :: "'s \<Rightarrow> nat \<Rightarrow> (nat \<times> nat) set \<Rightarrow> bool" where
  "tells s n E \<longleftrightarrow> valid s \<and> size_of s = n
     \<and> (\<forall>i<n. \<forall>j<n. rep_at s i = rep_at s j \<longleftrightarrow> (i, j) \<in> eqc E)"

lemma fresh_tells: "tells (fresh n) n {}"
  using fresh_law [of n] by (auto simp: tells_def eqc_def)

lemma join_tells:
  assumes "tells s n E" "a < n" "b < n"
  shows "\<exists>t. join_op (a, b) s = Some t \<and> tells t n (insert (a, b) E)"
proof -
  have s: "valid s" "size_of s = n" and eq: "\<And>i j. i < n \<Longrightarrow> j < n \<Longrightarrow> rep_at s i = rep_at s j \<longleftrightarrow> (i, j) \<in> eqc E"
    using assms(1) by (simp_all add: tells_def)
  obtain t where t: "join_op (a, b) s = Some t" "valid t" "size_of t = n"
    "\<And>i. i < n \<Longrightarrow> rep_at t i = (if rep_at s i = rep_at s a then rep_at s b else rep_at s i)"
    using join_law [of s a b] s assms by auto
  have "rep_at t i = rep_at t j \<longleftrightarrow> (i, j) \<in> eqc (insert (a, b) E)" if "i < n" "j < n" for i j
  proof -
    have "(i, j) \<in> eqc (insert (a, b) E) \<longleftrightarrow>
        rep_at s i = rep_at s j \<or> (rep_at s i = rep_at s a \<and> rep_at s b = rep_at s j)
        \<or> (rep_at s i = rep_at s b \<and> rep_at s a = rep_at s j)"
      using that assms(2,3) by (simp only: eqc_insert eq)
    then show ?thesis unfolding t(4) [OF that(1)] t(4) [OF that(2)] by auto
  qed
  then show ?thesis using t by (auto simp: tells_def)
qed

lemma union_all_tells:
  "tells s n E \<Longrightarrow> \<forall>(a, b) \<in> set pairs. a < n \<and> b < n \<Longrightarrow>
     \<exists>t. union_all join_op agree pairs s = Some t \<and> tells t n (E \<union> {ij \<in> set pairs. agree ij})"
proof (induction pairs arbitrary: s E)
  case (Cons ij pairs)
  obtain a b where ij: "ij = (a, b)" by (cases ij)
  show ?case
  proof (cases "agree ij")
    case True
    obtain t where t: "join_op (a, b) s = Some t" "tells t n (insert (a, b) E)"
      using join_tells [of s n E a b] Cons.prems ij by auto
    have "insert (a, b) E \<union> {ij \<in> set pairs. agree ij} = E \<union> {x \<in> set (ij # pairs). agree x}" using True ij by auto
    then show ?thesis using Cons.IH [OF t(2)] Cons.prems(2) t(1) True ij by auto
  next
    case False
    then have "{x \<in> set (ij # pairs). agree x} = {x \<in> set pairs. agree x}" by auto
    then show ?thesis using Cons.IH [OF Cons.prems(1)] Cons.prems(2) False by simp
  qed
qed simp

lemma collect_clusters_fold:
  "tells s n E \<Longrightarrow> \<forall>i \<in> set is. i < n \<Longrightarrow>
     collect_clusters find_rep is s m = Some (foldl (\<lambda>m i. entry_push (rep_at s i) i m) m is)"
proof (induction "is" arbitrary: s m)
  case (Cons i "is")
  then have s: "valid s" "size_of s = n" by (simp_all add: tells_def)
  then obtain t where t: "find_rep s i = Some (rep_at s i, t)" "valid t" "size_of t = n" "\<forall>j<n. rep_at t j = rep_at s j"
    using find_law [of s i] Cons.prems by auto
  then have "tells t n E" using Cons.prems(1) by (simp add: tells_def)
  moreover have "foldl (\<lambda>m i. entry_push (rep_at t i) i m) m' is = foldl (\<lambda>m i. entry_push (rep_at s i) i m) m' is" for m'
    using t(4) Cons.prems(2) by (intro foldl_cong) auto
  ultimately show ?case using Cons.IH [of t] Cons.prems(2) t(1) by simp
qed simp

end

interpretation uf: partition_store forest length rep_of uf_find union_pair "\<lambda>n. [0..<n]"
  by unfold_locales (use fresh_forest uf_find_returns union_pair_returns in auto)

section \<open>From the partition to the groups\<close>

lemma entry_push_keys:
  "map fst (entry_push r i m) = (if r \<in> fst ` set m then map fst m else map fst m @ [r])"
  by (induction m rule: entry_push.induct [where ?a0.0 = r and ?a1.0 = i]) auto

lemma entry_push_set:
  "distinct (map fst m) \<Longrightarrow>
     (k, v) \<in> set (entry_push r i m) \<longleftrightarrow>
       (if k = r then (\<exists>w. (r, w) \<in> set m \<and> v = w @ [i]) \<or> (r \<notin> fst ` set m \<and> v = [i])
        else (k, v) \<in> set m)"
  by (induction m rule: entry_push.induct [where ?a0.0 = r and ?a1.0 = i])
    (auto simp: image_iff, (blast | force)+)

lemma fst_image: "fst ` set m = {k. \<exists>v. (k, v) \<in> set m}"
  by force

lemma snd_image: "snd ` set m = {v. \<exists>k. (k, v) \<in> set m}"
  by force

text \<open>Grouping a list of indices by a key collects, under each key, its indices in order.\<close>

lemma push_fold:
  "distinct (map fst (foldl (\<lambda>m i. entry_push (f i) i m) [] is))
   \<and> (\<forall>k v. (k, v) \<in> set (foldl (\<lambda>m i. entry_push (f i) i m) [] is) \<longleftrightarrow>
         k \<in> f ` set is \<and> v = filter (\<lambda>i. f i = k) is)"
proof (induction "is" rule: rev_induct)
  case (snoc i "is")
  let ?m = "foldl (\<lambda>m i. entry_push (f i) i m) [] is"
  have m: "distinct (map fst ?m)" "\<And>k v. (k, v) \<in> set ?m \<longleftrightarrow> k \<in> f ` set is \<and> v = filter (\<lambda>i. f i = k) is"
    using snoc.IH by blast+
  have keys: "fst ` set ?m = f ` set is" unfolding fst_image by (auto simp: m(2))
  have none: "f i \<notin> f ` set is \<Longrightarrow> filter (\<lambda>j. f j = f i) is = []" by (auto simp: filter_empty_conv image_iff)
  have "distinct (map fst (entry_push (f i) i ?m))" using m(1) by (auto simp: entry_push_keys)
  moreover have "(k, v) \<in> set (entry_push (f i) i ?m) \<longleftrightarrow>
      k \<in> f ` set (is @ [i]) \<and> v = filter (\<lambda>i. f i = k) (is @ [i])" for k v
    unfolding entry_push_set [OF m(1)] m(2) keys using none by auto
  ultimately show ?case by simp
qed simp

definition agreement :: "(string \<Rightarrow> string \<Rightarrow> rat) \<Rightarrow> (string \<Rightarrow> string \<Rightarrow> rat) \<Rightarrow> 'f extraction list \<Rightarrow> (nat \<times> nat) set" where
  "agreement ss as es = {(i, j). i < j \<and> j < length es \<and> extractions_agree ss as (es ! i) (es ! j)}"

text \<open>The groups are the connected components of the agreement graph.\<close>

definition components :: "(nat \<times> nat) set \<Rightarrow> nat \<Rightarrow> nat list list \<Rightarrow> bool" where
  "components E n groups \<longleftrightarrow>
     distinct groups
     \<and> (\<forall>g \<in> set groups. g \<noteq> [] \<and> sorted_wrt (<) g \<and> set g \<subseteq> {..<n})
     \<and> (\<forall>g \<in> set groups. \<forall>h \<in> set groups. g \<noteq> h \<longrightarrow> set g \<inter> set h = {})
     \<and> (\<forall>i<n. \<forall>j<n. (\<exists>g \<in> set groups. i \<in> set g \<and> j \<in> set g) \<longleftrightarrow> (i, j) \<in> eqc E)"

lemma set_index_pairs: "set (index_pairs n) = {(i, j). i < j \<and> j < n}"
  by (fastforce simp: index_pairs_def)

lemma groups_by_key:
  assumes m: "m = foldl (\<lambda>m i. entry_push (f i) i m) [] [0..<n]"
    and f: "\<And>i j. i < n \<Longrightarrow> j < n \<Longrightarrow> f i = f j \<longleftrightarrow> (i, j) \<in> eqc E"
    and m': "mset m' = mset m"
  shows "components E n (map snd m')"
proof -
  have dist: "distinct (map fst m)" and mem: "\<And>k v. (k, v) \<in> set m \<longleftrightarrow> k \<in> f ` {0..<n} \<and> v = filter (\<lambda>i. f i = k) [0..<n]"
    using push_fold [of f "[0..<n]"] unfolding m by simp_all
  have set': "set m' = set m" using m' by (rule mset_eq_setD)
  have groups: "set (map snd m') = (\<lambda>k. filter (\<lambda>i. f i = k) [0..<n]) ` f ` {0..<n}"
    unfolding set_map set' snd_image by (auto simp: mem)
  have "distinct (map fst m')" using dist m' by (metis mset_map mset_eq_imp_distinct_iff)
  moreover have key: "k = l" if "(k, v) \<in> set m" "(l, v) \<in> set m" for k l v
  proof -
    have v: "k \<in> f ` {0..<n}" "v = filter (\<lambda>i. f i = k) [0..<n]" "v = filter (\<lambda>i. f i = l) [0..<n]"
      using that mem by blast+
    then obtain i where "i < n" "f i = k" by auto
    then have "i \<in> set v" by (simp add: v(2))
    then have "f i = l" by (simp add: v(3))
    then show ?thesis using \<open>f i = k\<close> by simp
  qed
  have "inj_on snd (set m')" by (rule inj_onI) (use key set' in \<open>auto simp: prod_eq_iff\<close>)
  ultimately have "distinct (map snd m')" by (simp add: distinct_map)
  moreover have "\<forall>g \<in> set (map snd m'). g \<noteq> [] \<and> sorted_wrt (<) g \<and> set g \<subseteq> {..<n}"
    unfolding groups by (auto simp: filter_empty_conv intro!: sorted_wrt_filter)
  moreover have "\<forall>g \<in> set (map snd m'). \<forall>h \<in> set (map snd m'). g \<noteq> h \<longrightarrow> set g \<inter> set h = {}"
    unfolding groups by auto
  moreover have "\<forall>i<n. \<forall>j<n. (\<exists>g \<in> set (map snd m'). i \<in> set g \<and> j \<in> set g) \<longleftrightarrow> (i, j) \<in> eqc E"
    unfolding groups using f by (auto intro: eqc_sym)
  ultimately show ?thesis by (simp only: components_def)
qed

section \<open>Primary and ranking\<close>

lemma max_by_key_in: "max_by_key f b xs \<in> set (b # xs)"
  by (induction xs arbitrary: b) auto

lemma max_by_key_max: "x \<in> set (b # xs) \<Longrightarrow> f x \<le> f (max_by_key f b xs)"
proof (induction xs arbitrary: b x)
  case (Cons y ys)
  have "f b \<le> f (max_by_key f b (y # ys))" "f y \<le> f (max_by_key f b (y # ys))"
    using Cons.IH [of b b] Cons.IH [of y y] by (auto simp: not_less)
  then show ?case using Cons by auto
qed simp

lemma fill_assoc: "fill (fill a b) c = fill a (fill b c)"
  by (simp add: fill_def split: option.split)

lemma fill_find_map: "fill (f x) (find_map f xs) = find_map f (x # xs)"
  by (simp add: fill_def split: option.split)

text \<open>The fold over the members: what identifies a book is kept, what is missing is filled.\<close>

definition filled_from :: "'f extraction \<Rightarrow> 'f extraction list \<Rightarrow> 'f extraction \<Rightarrow> bool" where
  "filled_from best ms p \<longleftrightarrow>
     title p = title best \<and> author p = author best \<and> confidence p = confidence best \<and> source p = source best
     \<and> year p = fill (year best) (find_map year ms) \<and> isbn p = fill (isbn best) (find_map isbn ms)
     \<and> language p = fill (language best) (find_map language ms)
     \<and> series p = fill (series best) (find_map series ms)
     \<and> series_position p = fill (series_position best) (find_map series_position ms)
     \<and> narrator p = fill (narrator best) (find_map narrator ms) \<and> asin p = fill (asin best) (find_map asin ms)"

lemma fold_fill: "filled_from best ms (foldl fill_from best ms)"
proof (induction ms arbitrary: best)
  case Nil
  then show ?case by (simp add: filled_from_def fill_def split: option.split)
next
  case (Cons m ms)
  show ?case
    using Cons.IH [of "fill_from best m"]
    by (simp add: filled_from_def fill_from_def fill_assoc fill_find_map del: find_map.simps)
qed

lemma fill_not_None: "fill a b = None \<longleftrightarrow> a = None \<and> b = None"
  by (simp add: fill_def split: option.split)

lemma filled_complete: "filled_from best ms p \<Longrightarrow> completeness best \<le> completeness p"
  by (simp add: filled_from_def completeness_def has_title_def has_author_def fill_not_None)

lemma completeness_le: "completeness e \<le> 8"
  by (simp add: completeness_def)

lemma build_cluster_Some:
  assumes "ms \<noteq> []"
  shows "\<exists>c best. build_cluster ms = Some c \<and> members c = ms \<and> best \<in> set ms
           \<and> (\<forall>m \<in> set ms. primary_key m \<le> primary_key best) \<and> filled_from best ms (primary c)"
proof -
  obtain m rest where ms: "ms = m # rest" using assms by (cases ms) auto
  show ?thesis
    using max_by_key_in [of primary_key m rest] max_by_key_max [of _ m rest primary_key]
      fold_fill [of "max_by_key primary_key m rest" ms]
    by (intro exI [of _ "the (build_cluster ms)"] exI [of _ "max_by_key primary_key m rest"])
      (simp add: build_cluster_def ms Let_def)
qed

lemma filled_self: "filled_from e [e] e"
  by (simp add: filled_from_def fill_def split: option.split)

text \<open>The clusters of a list of groups, before the ranking.\<close>

lemma map_filter_all_Some: "\<forall>x \<in> set xs. f x = Some (h x) \<Longrightarrow> List.map_filter f xs = map h xs"
  by (induction xs) (auto simp: List.map_filter_simps)

definition cluster_ok :: "'f cluster \<Rightarrow> bool" where
  "cluster_ok c \<longleftrightarrow> (\<exists>best \<in> set (members c). (\<forall>m \<in> set (members c). primary_key m \<le> primary_key best)
     \<and> filled_from best (members c) (primary c))"

lemma map_filter_build:
  assumes "\<forall>g \<in> set gs. g \<noteq> []"
    and cs: "cs = List.map_filter (\<lambda>g. build_cluster (map (nth es) g)) gs"
  shows "map members cs = map (map (nth es)) gs" and "\<forall>c \<in> set cs. cluster_ok c"
proof -
  let ?b = "\<lambda>g. the (build_cluster (map (nth es) g))"
  have one: "build_cluster (map (nth es) g) = Some (?b g) \<and> members (?b g) = map (nth es) g \<and> cluster_ok (?b g)"
    if "g \<in> set gs" for g
  proof -
    have "map (nth es) g \<noteq> []" using assms(1) that by simp
    from build_cluster_Some [OF this] obtain c best where "build_cluster (map (nth es) g) = Some c"
      "members c = map (nth es) g" "best \<in> set (map (nth es) g)"
      "\<forall>m \<in> set (map (nth es) g). primary_key m \<le> primary_key best"
      "filled_from best (map (nth es) g) (primary c)" by blast
    then show ?thesis unfolding cluster_ok_def by (intro conjI bexI [of _ best]) simp_all
  qed
  then have cs': "cs = map ?b gs" unfolding cs by (intro map_filter_all_Some) blast
  show "map members cs = map (map (nth es)) gs" using one by (simp add: cs')
  show "\<forall>c \<in> set cs. cluster_ok c" using one by (auto simp: cs')
qed

lemma reconcile_general:
  assumes order: "\<And>m. mset (hash_order m) = mset m"
  shows "\<exists>cs groups. reconcile ss as hash_order es = Some cs
     \<and> components (agreement ss as es) (length es) groups
     \<and> mset (map members cs) = mset (map (map (nth es)) groups)
     \<and> (\<forall>c \<in> set cs. cluster_ok c) \<and> sorted (map rank_key cs)"
proof (cases es rule: remdups_adj.cases)
  case 1
  then show ?thesis by (intro exI [of _ "[]"]) (simp add: reconcile_def components_def)
next
  case (2 e)
  let ?c = "\<lparr>primary = e, members = [e], cluster_confidence = confidence e\<rparr>"
  have "components (agreement ss as es) (length es) [[0]]" using 2 by (simp add: components_def)
  moreover have "cluster_ok ?c" by (simp add: cluster_ok_def filled_self)
  ultimately show ?thesis
    using 2 by (intro exI [of _ "[?c]"] exI [of _ "[[0]]"]) (simp add: reconcile_def)
next
  case (3 e1 e2 rest)
  let ?n = "length es"
  let ?agree = "\<lambda>(i, j). extractions_agree ss as (es ! i) (es ! j)"
  have edges: "{} \<union> {ij \<in> set (index_pairs ?n). ?agree ij} = agreement ss as es"
    by (auto simp: set_index_pairs agreement_def)
  obtain p where p: "union_all union_pair ?agree (index_pairs ?n) [0..<?n] = Some p"
      "uf.tells p ?n (agreement ss as es)"
    using uf.union_all_tells [OF uf.fresh_tells, of "index_pairs ?n" ?n ?agree] unfolding edges
    by (auto simp: set_index_pairs)
  define m where "m = foldl (\<lambda>m i. entry_push (rep_of p i) i m) [] [0..<?n]"
  have m: "collect_clusters uf_find [0..<?n] p [] = Some m"
    unfolding m_def by (rule uf.collect_clusters_fold [OF p(2)]) simp
  let ?groups = "map snd (hash_order m)"
  have comps: "components (agreement ss as es) ?n ?groups"
    by (rule groups_by_key [OF m_def _ order]) (use p(2) in \<open>simp add: uf.tells_def\<close>)
  let ?cs = "List.map_filter (\<lambda>g. build_cluster (map (nth es) g)) ?groups"
  have "\<forall>g \<in> set ?groups. g \<noteq> []" using comps by (simp add: components_def)
  note built = map_filter_build [OF this refl, of es]
  have "reconcile ss as hash_order es = Some (sort_key rank_key ?cs)"
    using p(1) m 3 by (simp add: reconcile_def Let_def)
  moreover have "mset (map members (sort_key rank_key ?cs)) = mset (map (map (nth es)) ?groups)"
    using built(1) by (metis mset_map mset_sort)
  ultimately show ?thesis using comps built(2) by (metis set_sort sorted_sort_key)
qed

section \<open>Properties\<close>

lemma rank_key_le:
  "rank_key c \<le> rank_key d \<longleftrightarrow>
     cluster_confidence c > cluster_confidence d
     \<or> (cluster_confidence c = cluster_confidence d \<and> completeness (primary c) \<ge> completeness (primary d))"
proof -
  have "8 - completeness (primary c) \<le> 8 - completeness (primary d) \<longleftrightarrow> completeness (primary d) \<le> completeness (primary c)"
    using completeness_le [of "primary c"] completeness_le [of "primary d"] by linarith
  then show ?thesis
    by (cases "cluster_confidence c"; cases "cluster_confidence d")
      (simp_all add: rank_key_def less_eq_prod_def less_confidence_def)
qed

text \<open>
  C19 (refinement): reconciliation always returns, and its clusters are exactly the connected
  components of the agreement relation: two hypotheses end in one cluster if and only if a chain of
  pairwise agreements joins them, every hypothesis is in exactly one cluster, and the members keep
  their order. This holds for every pair of similarity functions and whatever order the hash map
  yields its entries in.
\<close>

theorem clusters_are_agreement_components:
  assumes "\<And>m. mset (hash_order m) = mset m"
  shows "\<exists>cs groups. reconcile string_similarity author_similarity hash_order es = Some cs
     \<and> components (agreement string_similarity author_similarity es) (length es) groups
     \<and> mset (map members cs) = mset (map (map (nth es)) groups)"
  using reconcile_general [OF assms, of string_similarity author_similarity es] by blast

definition example_similarity :: "string \<Rightarrow> string \<Rightarrow> rat" where
  "example_similarity a b = (if a = b then 1 else 0)"

definition example_extractions :: "nat extraction list" where
  "example_extractions =
     [synthetic_extraction ''Dune'' ''Herbert'', synthetic_extraction ''Emma'' ''Austen'',
      (synthetic_extraction ''Dune'' [])\<lparr>year := Some 1965\<rparr>]"

theorem clusters_are_agreement_components_witness:
  "\<exists>cs groups. reconcile example_similarity example_similarity (\<lambda>m. m) example_extractions = Some cs
     \<and> components (agreement example_similarity example_similarity example_extractions)
         (length example_extractions) groups
     \<and> mset (map members cs) = mset (map (map (nth example_extractions)) groups)"
  by (rule clusters_are_agreement_components) (rule refl)

text \<open>
  the clusters come ranked, by confidence and then by the completeness of the
  primary. The primary of a cluster is a member no other member beats on completeness and then on
  the trust of its source; its title, author, confidence and source are that member's own, and each
  other field is that member's value or else the first value a member has. So the primary is at
  least as complete as every member.
\<close>

theorem clusters_are_ranked_and_filled:
  assumes "\<And>m. mset (hash_order m) = mset m"
    and "reconcile string_similarity author_similarity hash_order es = Some cs"
  shows "sorted_wrt (\<lambda>c d. cluster_confidence c > cluster_confidence d
            \<or> (cluster_confidence c = cluster_confidence d \<and> completeness (primary c) \<ge> completeness (primary d))) cs
    \<and> (\<forall>c \<in> set cs. (\<forall>m \<in> set (members c). completeness m \<le> completeness (primary c))
         \<and> (\<exists>best \<in> set (members c).
               (\<forall>m \<in> set (members c). (completeness m, source_trust (source m)) \<le> (completeness best, source_trust (source best)))
               \<and> filled_from best (members c) (primary c)))"
proof -
  have cs: "\<forall>c \<in> set cs. cluster_ok c" "sorted (map rank_key cs)"
    using reconcile_general [OF assms(1), of string_similarity author_similarity es] assms(2) by auto
  have "sorted_wrt (\<lambda>c d. rank_key c \<le> rank_key d) cs" using cs(2) by (simp add: sorted_wrt_map)
  moreover have "\<forall>m \<in> set (members c). completeness m \<le> completeness (primary c)" if "cluster_ok c" for c :: "'a cluster"
  proof
    fix m assume "m \<in> set (members c)"
    then obtain best where "primary_key m \<le> primary_key best" "filled_from best (members c) (primary c)"
      using \<open>cluster_ok c\<close> by (auto simp: cluster_ok_def)
    then show "completeness m \<le> completeness (primary c)"
      using filled_complete [of best "members c" "primary c"] by (auto simp: primary_key_def less_eq_prod_def)
  qed
  ultimately show ?thesis using cs(1) by (simp add: rank_key_le cluster_ok_def primary_key_def)
qed

theorem clusters_are_ranked_and_filled_witness:
  "\<exists>cs. map_option (map (\<lambda>c. (title (primary c), year (primary c), cluster_confidence c)))
           (reconcile example_similarity example_similarity (\<lambda>m. m) example_extractions)
         = Some [(Some ''Dune'', Some 1965, High), (Some ''Emma'', None, Low)]
     \<and> reconcile example_similarity example_similarity (\<lambda>m. m) example_extractions = Some cs
     \<and> (\<forall>c \<in> set cs. \<forall>m \<in> set (members c). completeness m \<le> completeness (primary c))"
proof -
  let ?r = "reconcile example_similarity example_similarity (\<lambda>m. m) example_extractions"
  have eval: "map_option (map (\<lambda>c. (title (primary c), year (primary c), cluster_confidence c))) ?r
      = Some [(Some ''Dune'', Some 1965, High), (Some ''Emma'', None, Low)]"
    by code_simp
  then obtain cs where "?r = Some cs" by auto
  then show ?thesis
    using eval clusters_are_ranked_and_filled [OF refl, of example_similarity example_similarity example_extractions cs]
    by (intro exI [of _ cs] conjI) auto
qed

lemma map_filter_if:
  "List.map_filter (\<lambda>a. if P a then None else Some (g a)) xs = map g (filter (\<lambda>a. \<not> P a) xs)"
  by (induction xs) (simp_all add: List.map_filter_simps)

lemma product_filter:
  "concat (map (\<lambda>t. map (f t) (filter (Q t) as)) ts)
   = map (\<lambda>(t, a). f t a) (filter (\<lambda>(t, a). Q t a) (List.product ts as))"
  by (induction ts) (simp_all add: filter_map comp_def)

text \<open>
  The combinatorial fallback yields exactly the pairs of a known non-empty title
  and a known non-empty author that no hypothesis already states, each pair once, as synthetic
  hypotheses of low confidence, whatever order the hash sets yield their elements in.
\<close>

theorem synthetic_pairs_are_exactly_the_missing_ones:
  assumes "\<And>xs. mset (set_order xs) = mset xs"
  shows "set (generate_synthetic set_order es) =
      {synthetic_extraction t a | t a. t \<noteq> [] \<and> a \<noteq> []
         \<and> (\<exists>e \<in> set es. title e = Some t) \<and> (\<exists>e \<in> set es. author e = Some a)
         \<and> \<not> (\<exists>e \<in> set es. title e = Some t \<and> author e = Some a)}
    \<and> distinct (generate_synthetic set_order es)"
proof -
  let ?ts = "set_order (remdups (filter (\<lambda>t. t \<noteq> []) (List.map_filter title es)))"
  let ?as = "set_order (remdups (filter (\<lambda>a. a \<noteq> []) (List.map_filter author es)))"
  let ?known = "\<lambda>t a. \<exists>e \<in> set es. title e = Some t \<and> author e = Some a"
  have sets: "set ?ts = {t. t \<noteq> [] \<and> (\<exists>e \<in> set es. title e = Some t)}"
    "set ?as = {a. a \<noteq> [] \<and> (\<exists>e \<in> set es. author e = Some a)}"
    using mset_eq_setD [OF assms] by (auto simp: List.map_filter_def) (force intro!: image_eqI)+
  have dist: "distinct ?ts" "distinct ?as"
    using assms mset_eq_imp_distinct_iff distinct_remdups by metis+
  have list: "generate_synthetic set_order es =
      map (\<lambda>(t, a). synthetic_extraction t a) (filter (\<lambda>(t, a). \<not> ?known t a) (List.product ?ts ?as))"
    unfolding generate_synthetic_def Let_def map_filter_if product_filter [symmetric] by auto
  have "inj_on (\<lambda>(t, a). synthetic_extraction t a) X" for X
    by (auto simp: inj_on_def synthetic_extraction_def)
  then have "distinct (generate_synthetic set_order es)"
    unfolding list using dist by (simp add: distinct_map distinct_product)
  moreover have "set (generate_synthetic set_order es) =
      {synthetic_extraction t a | t a. t \<in> set ?ts \<and> a \<in> set ?as \<and> \<not> ?known t a}"
    unfolding list by auto
  ultimately show ?thesis unfolding sets by auto
qed

theorem synthetic_pairs_are_exactly_the_missing_ones_witness:
  "generate_synthetic (\<lambda>xs. xs) example_extractions =
     [synthetic_extraction ''Emma'' ''Herbert'', synthetic_extraction ''Dune'' ''Austen'']
   \<and> distinct (generate_synthetic (\<lambda>xs. xs) example_extractions)"
proof
  show "generate_synthetic (\<lambda>xs. xs) example_extractions =
     [synthetic_extraction ''Emma'' ''Herbert'', synthetic_extraction ''Dune'' ''Austen'']"
    by code_simp
  show "distinct (generate_synthetic (\<lambda>xs. xs) example_extractions)"
    using synthetic_pairs_are_exactly_the_missing_ones [OF refl, of example_extractions] by (rule conjunct2)
qed

end
