(* ===== verification/Routes.thy ===== *)
theory Routes
  imports Prelude
begin

text \<open>
  Identity routes (\<^verbatim>\<open>livrarr-domain/src/identity_layer/route.rs\<close>, \<^verbatim>\<open>shared.rs\<close>): which provider knows a work
  or edition under which id. The projection of a work's routes to the identifier fields of the
  public record (\<^verbatim>\<open>status.rs\<close>), and the plan of the enrichment calls a work's routes allow
  (\<^verbatim>\<open>livrarr-enrichment/src/identity_layer.rs\<close>).

  Ids are 64-bit integers and times are nanoseconds since the epoch; both are only compared, so
  they are integers here.
\<close>

section \<open>Vocabulary\<close>

datatype identity_provider = OpenLibrary | Goodreads | Hardcover | IsbnRegistry | Amazon | Other string

datatype route_scope = WorkScope | EditionScope

datatype route_kind =
    OpenLibraryWork | GoodreadsWork | HardcoverWork | Isbn13Edition | AsinEdition
  | GoodreadsBookEdition | Undeclared string route_scope

datatype route_owner = OwnerWork int | OwnerEdition int

datatype work_route_state = Active | Retired int

record file_revision =
  size_bytes :: u64
  modified_ns :: int
  sha256 :: "u8 list"

datatype route_provenance =
    UserChoice
  | OwnedFile "int option" file_revision
  | Provider identity_provider
  | SearchFallback identity_provider route_kind
  | TextDecisiveSearchFallback identity_provider
  | Migrated string
  | MergeCoalesced

record work_route =
  r_id :: int
  r_user_id :: int
  r_owner :: route_owner
  r_resolved_work_id :: int
  r_provider :: identity_provider
  r_kind :: route_kind
  r_provider_scoped_id :: string
  r_state :: work_route_state
  r_provenance :: route_provenance
  r_user_confirmed :: bool
  r_observed_at :: int

record route_key =
  k_provider :: identity_provider
  k_kind :: route_kind
  k_value :: string

section \<open>Identifier projection\<close>

record work_identifier_projection =
  ol_key :: "string option"
  hc_key :: "string option"
  gr_key :: "string option"
  isbn_13 :: "string option"
  asin :: "string option"

fun provenance_rank :: "route_provenance \<Rightarrow> nat" where
  "provenance_rank UserChoice = 5"
| "provenance_rank (OwnedFile _ _) = 4"
| "provenance_rank (Provider _) = 3"
| "provenance_rank (SearchFallback _ _) = 3"
| "provenance_rank (TextDecisiveSearchFallback _) = 3"
| "provenance_rank MergeCoalesced = 2"
| "provenance_rank (Migrated _) = 1"

definition better :: "work_route \<Rightarrow> work_route \<Rightarrow> bool" where
  "better candidate cur \<longleftrightarrow>
     (r_user_confirmed candidate \<and> \<not> r_user_confirmed cur)
     \<or> (r_user_confirmed candidate = r_user_confirmed cur
        \<and> (provenance_rank (r_provenance candidate) > provenance_rank (r_provenance cur)
           \<or> (provenance_rank (r_provenance candidate) = provenance_rank (r_provenance cur)
              \<and> (r_observed_at candidate > r_observed_at cur
                 \<or> (r_observed_at candidate = r_observed_at cur
                    \<and> (r_provider_scoped_id candidate < r_provider_scoped_id cur
                       \<or> (r_provider_scoped_id candidate = r_provider_scoped_id cur
                          \<and> r_id candidate < r_id cur)))))))"

definition is_active :: "work_route \<Rightarrow> bool" where
  "is_active route \<longleftrightarrow> r_state route = Active"

definition select_step :: "work_route option \<Rightarrow> work_route \<Rightarrow> work_route option" where
  "select_step selected route =
     (case selected of
        Some cur \<Rightarrow> if \<not> better route cur then Some cur else Some route
      | None \<Rightarrow> Some route)"

definition select_route :: "work_route list \<Rightarrow> string option" where
  "select_route routes =
     map_option r_provider_scoped_id (foldl select_step None (filter is_active routes))"

definition migrated_gr_key :: "work_route \<Rightarrow> bool" where
  "migrated_gr_key route \<longleftrightarrow> r_kind route = GoodreadsBookEdition
     \<and> (case r_provenance route of Migrated legacy_field \<Rightarrow> legacy_field = ''gr_key'' | _ \<Rightarrow> False)"

definition project_work_identifiers :: "work_route list \<Rightarrow> work_identifier_projection" where
  "project_work_identifiers routes =
     (let gr_work = select_route (filter (\<lambda>r. r_kind r = GoodreadsWork) routes);
          migrated_gr_edition = select_route (filter migrated_gr_key routes)
      in \<lparr>ol_key = select_route (filter (\<lambda>r. r_kind r = OpenLibraryWork) routes),
          hc_key = select_route (filter (\<lambda>r. r_kind r = HardcoverWork) routes),
          gr_key = (case gr_work of Some v \<Rightarrow> Some v | None \<Rightarrow> migrated_gr_edition),
          isbn_13 = select_route (filter (\<lambda>r. r_kind r = Isbn13Edition) routes),
          asin = select_route (filter (\<lambda>r. r_kind r = AsinEdition) routes)\<rparr>)"

section \<open>The plan of the enrichment calls\<close>

definition is_declared_fetch_route :: "identity_provider \<Rightarrow> route_kind \<Rightarrow> bool" where
  "is_declared_fetch_route p k \<longleftrightarrow>
     (p, k) \<in> {(OpenLibrary, OpenLibraryWork), (Goodreads, GoodreadsBookEdition),
               (Hardcover, HardcoverWork), (IsbnRegistry, Isbn13Edition), (Amazon, AsinEdition)}"

definition fetch_key :: "work_route \<Rightarrow> identity_provider \<times> route_kind \<times> string" where
  "fetch_key route = (r_provider route, r_kind route, r_provider_scoped_id route)"

record 'p route_plan =
  usable_routes :: "work_route list"
  provider_calls :: "(work_route \<times> 'p) list"
  manual_search_only :: bool

fun plan_loop ::
  "work_route list \<Rightarrow> (identity_provider \<times> route_kind \<times> string) list \<Rightarrow> 'p route_plan \<Rightarrow> 'p route_plan" where
  "plan_loop [] seen plan = plan"
| "plan_loop (route # rest) seen plan =
     (if \<not> is_declared_fetch_route (r_provider route) (r_kind route)
      then plan_loop rest seen (plan\<lparr>manual_search_only := True\<rparr>)
      else if fetch_key route \<in> set seen then plan_loop rest seen plan
      else plan_loop rest (fetch_key route # seen) (plan\<lparr>usable_routes := usable_routes plan @ [route]\<rparr>))"

definition plan_from_routes :: "'p \<Rightarrow> work_route list \<Rightarrow> 'p route_plan" where
  "plan_from_routes priority active_routes =
     (let plan = plan_loop (filter is_active active_routes) []
                   \<lparr>usable_routes = [], provider_calls = [], manual_search_only = False\<rparr>
      in plan\<lparr>provider_calls := map (\<lambda>route. (route, priority)) (usable_routes plan)\<rparr>)"

section \<open>The preference is a strict order\<close>

text \<open>Two routes that differ in id are always comparable, so a best route is unique.\<close>

definition preference_key :: "work_route \<Rightarrow> bool \<times> nat \<times> int" where
  "preference_key r = (r_user_confirmed r, provenance_rank (r_provenance r), r_observed_at r)"

lemma better_irrefl: "\<not> better r r"
  by (simp add: better_def)

lemma better_asym: "better a b \<Longrightarrow> \<not> better b a"
  by (auto simp: better_def)

lemma better_trans: "better a b \<Longrightarrow> better b c \<Longrightarrow> better a c"
  by (auto simp: better_def intro: less_trans)

lemma better_total: "r_id a \<noteq> r_id b \<Longrightarrow> better a b \<or> better b a"
  by (auto simp: better_def)

lemma select_step_simps:
  "select_step None r = Some r"
  "select_step (Some c) r = (if better r c then Some r else Some c)"
  by (simp_all add: select_step_def)

text \<open>The fold keeps a route no other route beats.\<close>

lemma select_fold:
  "distinct (map r_id rs) \<Longrightarrow>
     (case foldl select_step None rs of
        None \<Rightarrow> rs = []
      | Some best \<Rightarrow> best \<in> set rs \<and> (\<forall>r \<in> set rs. r \<noteq> best \<longrightarrow> better best r))"
proof (induction rs rule: rev_induct)
  case (snoc x rs)
  show ?case
  proof (cases "foldl select_step None rs")
    case None
    with snoc have "rs = []" by simp
    then show ?thesis by (simp add: select_step_simps)
  next
    case (Some best)
    with snoc have best: "best \<in> set rs" "\<forall>r \<in> set rs. r \<noteq> best \<longrightarrow> better best r" by simp_all
    then have "r_id x \<noteq> r_id best" using snoc.prems by force
    then consider "better x best" | "better best x" using better_total by blast
    then show ?thesis
    proof cases
      case 1
      have "better x r" if "r \<in> set rs" for r
        using 1 best(2) that better_trans [of x best r] by (cases "r = best") auto
      then show ?thesis using Some 1 by (auto simp: select_step_simps)
    next
      case 2
      then have "\<not> better x best" by (rule better_asym)
      then show ?thesis using Some 2 best by (auto simp: select_step_simps)
    qed
  qed
qed simp

text \<open>The reference choice: a route of the list that satisfies the filter and beats all others that do.\<close>

definition best_among :: "(work_route \<Rightarrow> bool) \<Rightarrow> work_route list \<Rightarrow> work_route \<Rightarrow> bool" where
  "best_among P routes r \<longleftrightarrow> r \<in> set routes \<and> is_active r \<and> P r
     \<and> (\<forall>q \<in> set routes. is_active q \<and> P q \<and> q \<noteq> r \<longrightarrow> better r q)"

lemma best_among_unique: "best_among P rs a \<Longrightarrow> best_among P rs b \<Longrightarrow> a = b"
  using better_asym by (auto simp: best_among_def)

lemma select_route_best:
  assumes "distinct (map r_id routes)"
  shows "select_route (filter P routes) = Some v \<longleftrightarrow> (\<exists>r. best_among P routes r \<and> r_provider_scoped_id r = v)"
proof -
  let ?rs = "filter is_active (filter P routes)"
  have "distinct (map r_id ?rs)" using assms by (intro distinct_map_filter)
  note fold = select_fold [OF this]
  show ?thesis
  proof (cases "foldl select_step None ?rs")
    case None
    with fold have "?rs = []" by simp
    then have "\<not> best_among P routes r" for r by (auto simp: best_among_def filter_empty_conv)
    then show ?thesis using None by (simp add: select_route_def)
  next
    case (Some best)
    have "best \<in> set ?rs \<and> (\<forall>r \<in> set ?rs. r \<noteq> best \<longrightarrow> better best r)"
      using fold unfolding Some by simp
    then have best: "best_among P routes best" by (simp add: best_among_def)
    have sel: "select_route (filter P routes) = Some (r_provider_scoped_id best)"
      unfolding select_route_def Some by simp
    show ?thesis
    proof
      assume "\<exists>r. best_among P routes r \<and> r_provider_scoped_id r = v"
      then obtain r where "best_among P routes r" "r_provider_scoped_id r = v" by blast
      then show "select_route (filter P routes) = Some v" using sel best_among_unique [OF best] by simp
    qed (use sel best in auto)
  qed
qed

lemma best_among_set: "set routes' = set routes \<Longrightarrow> best_among P routes' r \<longleftrightarrow> best_among P routes r"
  by (simp add: best_among_def)

lemma select_route_order:
  assumes "distinct (map r_id routes)" "mset routes' = mset routes"
  shows "select_route (filter P routes') = select_route (filter P routes)"
proof -
  have "mset (map r_id routes') = mset (map r_id routes)" using assms(2) by simp
  then have "distinct (map r_id routes')" using assms(1) mset_eq_imp_distinct_iff by blast
  then have "select_route (filter P routes') = Some v \<longleftrightarrow> select_route (filter P routes) = Some v" for v
    unfolding select_route_best [OF assms(1)] by (simp only: select_route_best best_among_set [OF mset_eq_setD [OF assms(2)]])
  then show ?thesis
    by (cases "select_route (filter P routes)"; cases "select_route (filter P routes')") auto
qed

section \<open>The plan keeps each declared route once\<close>

fun keep_new :: "('a \<Rightarrow> 'k) \<Rightarrow> 'k list \<Rightarrow> 'a list \<Rightarrow> 'a list" where
  "keep_new key seen [] = []"
| "keep_new key seen (x # xs) =
     (if key x \<in> set seen then keep_new key seen xs else x # keep_new key (key x # seen) xs)"

lemma keep_new_spec:
  "distinct (map key (keep_new key seen xs)) \<and> set (keep_new key seen xs) \<subseteq> set xs
   \<and> key ` set (keep_new key seen xs) = key ` set xs - set seen"
  by (induction key seen xs rule: keep_new.induct) auto

definition declared :: "work_route \<Rightarrow> bool" where
  "declared r \<longleftrightarrow> is_declared_fetch_route (r_provider r) (r_kind r)"

lemma plan_loop_result:
  "plan_loop rs seen plan =
     plan\<lparr>usable_routes := usable_routes plan @ keep_new fetch_key seen (filter declared rs),
          manual_search_only := manual_search_only plan \<or> (\<exists>r \<in> set rs. \<not> declared r)\<rparr>"
  by (induction rs arbitrary: seen plan) (simp_all add: declared_def)

section \<open>Properties\<close>

text \<open>
  the identifiers shown for a work depend on its routes and not on the order they
  are stored in. Each identifier is the id of the active route of its kind that beats every other
  active route of the kind (user confirmation, then provenance, then the newest observation, then
  the smallest id text and id), and is absent only when there is none. A Goodreads work route
  outranks the migrated edition route.
\<close>

theorem identifiers_come_from_the_best_active_routes:
  assumes "distinct (map r_id routes)" and "mset routes' = mset routes"
  shows "project_work_identifiers routes' = project_work_identifiers routes
    \<and> (\<forall>v. ol_key (project_work_identifiers routes) = Some v \<longleftrightarrow>
          (\<exists>r. best_among (\<lambda>r. r_kind r = OpenLibraryWork) routes r \<and> r_provider_scoped_id r = v))
    \<and> (\<forall>v. hc_key (project_work_identifiers routes) = Some v \<longleftrightarrow>
          (\<exists>r. best_among (\<lambda>r. r_kind r = HardcoverWork) routes r \<and> r_provider_scoped_id r = v))
    \<and> (\<forall>v. isbn_13 (project_work_identifiers routes) = Some v \<longleftrightarrow>
          (\<exists>r. best_among (\<lambda>r. r_kind r = Isbn13Edition) routes r \<and> r_provider_scoped_id r = v))
    \<and> (\<forall>v. asin (project_work_identifiers routes) = Some v \<longleftrightarrow>
          (\<exists>r. best_among (\<lambda>r. r_kind r = AsinEdition) routes r \<and> r_provider_scoped_id r = v))
    \<and> (\<forall>v. gr_key (project_work_identifiers routes) = Some v \<longleftrightarrow>
          (\<exists>r. best_among (\<lambda>r. r_kind r = GoodreadsWork) routes r \<and> r_provider_scoped_id r = v)
          \<or> (\<not> (\<exists>r. best_among (\<lambda>r. r_kind r = GoodreadsWork) routes r)
             \<and> (\<exists>r. best_among migrated_gr_key routes r \<and> r_provider_scoped_id r = v)))"
proof (intro conjI)
  show "project_work_identifiers routes' = project_work_identifiers routes"
    unfolding project_work_identifiers_def by (simp only: select_route_order [OF assms])
  note best = select_route_best [OF assms(1)]
  have none: "select_route (filter P routes) = None \<longleftrightarrow> \<not> (\<exists>r. best_among P routes r)" for P
    using best [of P] by (metis not_None_eq option.distinct(1))
  show "\<forall>v. gr_key (project_work_identifiers routes) = Some v \<longleftrightarrow>
          (\<exists>r. best_among (\<lambda>r. r_kind r = GoodreadsWork) routes r \<and> r_provider_scoped_id r = v)
          \<or> (\<not> (\<exists>r. best_among (\<lambda>r. r_kind r = GoodreadsWork) routes r)
             \<and> (\<exists>r. best_among migrated_gr_key routes r \<and> r_provider_scoped_id r = v))"
    unfolding none [symmetric] best [symmetric]
    by (auto simp: project_work_identifiers_def Let_def split: option.split)
qed (simp_all add: project_work_identifiers_def Let_def select_route_best [OF assms(1)])

definition example_route :: "int \<Rightarrow> route_kind \<Rightarrow> string \<Rightarrow> bool \<Rightarrow> work_route" where
  "example_route i k v confirmed =
     \<lparr>r_id = i, r_user_id = 1, r_owner = OwnerWork 7, r_resolved_work_id = 7, r_provider = OpenLibrary,
      r_kind = k, r_provider_scoped_id = v, r_state = Active, r_provenance = UserChoice,
      r_user_confirmed = confirmed, r_observed_at = i\<rparr>"

theorem identifiers_come_from_the_best_active_routes_witness:
  "ol_key (project_work_identifiers
      [example_route 1 OpenLibraryWork ''OL1W'' True, example_route 2 OpenLibraryWork ''OL2W'' False]) = Some ''OL1W''
   \<and> project_work_identifiers
      [example_route 2 OpenLibraryWork ''OL2W'' False, example_route 1 OpenLibraryWork ''OL1W'' True]
     = project_work_identifiers
      [example_route 1 OpenLibraryWork ''OL1W'' True, example_route 2 OpenLibraryWork ''OL2W'' False]"
proof
  let ?rs = "[example_route 1 OpenLibraryWork ''OL1W'' True, example_route 2 OpenLibraryWork ''OL2W'' False]"
  have d: "distinct (map r_id ?rs)" by (simp add: example_route_def)
  show "ol_key (project_work_identifiers ?rs) = Some ''OL1W''" by code_simp
  have "mset [example_route 2 OpenLibraryWork ''OL2W'' False, example_route 1 OpenLibraryWork ''OL1W'' True] = mset ?rs"
    by simp
  from identifiers_come_from_the_best_active_routes [OF d this]
  show "project_work_identifiers
      [example_route 2 OpenLibraryWork ''OL2W'' False, example_route 1 OpenLibraryWork ''OL1W'' True]
     = project_work_identifiers ?rs" by (rule conjunct1)
qed

text \<open>
  The enrichment plan calls exactly the declared fetch routes among the active
  ones, each provider, kind and id once, in the stored order; it asks for a manual search exactly
  when some active route is of another kind. In particular a Goodreads work route, which is no
  fetch address, is never called.
\<close>

theorem plan_calls_each_declared_route_once:
  "distinct (map fetch_key (usable_routes (plan_from_routes priority routes)))
   \<and> fetch_key ` set (usable_routes (plan_from_routes priority routes))
       = fetch_key ` {r \<in> set routes. is_active r \<and> declared r}
   \<and> set (usable_routes (plan_from_routes priority routes)) \<subseteq> {r \<in> set routes. is_active r \<and> r_kind r \<noteq> GoodreadsWork}
   \<and> provider_calls (plan_from_routes priority routes)
       = map (\<lambda>r. (r, priority)) (usable_routes (plan_from_routes priority routes))
   \<and> (manual_search_only (plan_from_routes priority routes) \<longleftrightarrow> (\<exists>r \<in> set routes. is_active r \<and> \<not> declared r))"
proof -
  have "declared r \<Longrightarrow> r_kind r \<noteq> GoodreadsWork" for r
    by (auto simp: declared_def is_declared_fetch_route_def)
  then show ?thesis
    using keep_new_spec [of fetch_key "[]" "filter declared (filter is_active routes)"]
    by (auto simp: plan_from_routes_def plan_loop_result Let_def)
qed

end
