(* ===== verification/SearchFallback.thy ===== *)
theory SearchFallback
  imports Routes ProviderPolicy
begin

text \<open>
  The route-finding side of the provider queue (\<^verbatim>\<open>livrarr-enrichment/src/provider_queue.rs\<close>): which anchor
  a provider is asked by, the title and author search a provider without a route of its own runs,
  and the pass-level accounting of the legs (\<^verbatim>\<open>livrarr-domain/src/services/enrichment.rs\<close>).

  The clients' search and probe calls are parameters, as is the pick among the candidates
  (\<^verbatim>\<open>classify_search_fallback\<close>, for which \<^verbatim>\<open>SearchGuarantees\<close> puts the model of \<^verbatim>\<open>IdentityVerdicts\<close>) and
  \<^verbatim>\<open>strip_isbn_punctuation\<close> (the Unicode alphanumeric table).
\<close>

section \<open>Ledger accounting\<close>

datatype ledger_pass_accounting = Idle | CardOrMiss | Settled | LegFailed

fun combine :: "ledger_pass_accounting \<Rightarrow> ledger_pass_accounting \<Rightarrow> ledger_pass_accounting" where
  "combine LegFailed _ = LegFailed"
| "combine _ LegFailed = LegFailed"
| "combine Settled _ = Settled"
| "combine _ Settled = Settled"
| "combine CardOrMiss _ = CardOrMiss"
| "combine _ CardOrMiss = CardOrMiss"
| "combine Idle Idle = Idle"

definition is_burnable :: "ledger_pass_accounting \<Rightarrow> bool" where
  "is_burnable a \<longleftrightarrow> a = CardOrMiss"

definition leg_failed :: "ledger_pass_accounting \<Rightarrow> bool" where
  "leg_failed a \<longleftrightarrow> a = LegFailed"

section \<open>Anchors\<close>

datatype anchor_query = Isbn13 string | GrKey string | HcKey string | OlKey string | Asin string

definition find_anchor :: "work_route list \<Rightarrow> identity_provider \<Rightarrow> route_kind \<Rightarrow> string option" where
  "find_anchor routes ip k =
     map_option (\<lambda>route. trim (r_provider_scoped_id route))
       (find (\<lambda>route. is_active route \<and> r_provider route = ip \<and> r_kind route = k
                \<and> trim (r_provider_scoped_id route) \<noteq> []) routes)"

definition or_else :: "'a option \<Rightarrow> 'a option \<Rightarrow> 'a option" where
  "or_else a b = (case a of Some v \<Rightarrow> Some v | None \<Rightarrow> b)"

fun derive_route_anchor_query :: "metadata_provider \<Rightarrow> work_route list \<Rightarrow> anchor_query option" where
  "derive_route_anchor_query metadata_provider.Goodreads routes =
     map_option GrKey (find_anchor routes identity_provider.Goodreads GoodreadsBookEdition)"
| "derive_route_anchor_query metadata_provider.OpenLibrary routes =
     or_else (map_option OlKey (find_anchor routes identity_provider.OpenLibrary OpenLibraryWork))
       (map_option Isbn13 (find_anchor routes IsbnRegistry Isbn13Edition))"
| "derive_route_anchor_query metadata_provider.Hardcover routes =
     or_else (map_option HcKey (find_anchor routes identity_provider.Hardcover HardcoverWork))
       (map_option Isbn13 (find_anchor routes IsbnRegistry Isbn13Edition))"
| "derive_route_anchor_query GoogleBooks routes =
     map_option Isbn13 (find_anchor routes IsbnRegistry Isbn13Edition)"
| "derive_route_anchor_query Audnexus routes = map_option Asin (find_anchor routes Amazon AsinEdition)"
| "derive_route_anchor_query Audible routes = map_option Asin (find_anchor routes Amazon AsinEdition)"
| "derive_route_anchor_query Llm routes = None"
| "derive_route_anchor_query Readarr routes = None"

fun anchor_cache_key :: "anchor_query \<Rightarrow> string \<times> string" where
  "anchor_cache_key (Isbn13 v) = (''isbn13'', v)"
| "anchor_cache_key (GrKey v) = (''gr_key'', v)"
| "anchor_cache_key (HcKey v) = (''hc_key'', v)"
| "anchor_cache_key (OlKey v) = (''ol_key'', v)"
| "anchor_cache_key (Asin v) = (''asin'', v)"

fun search_route_kind :: "metadata_provider \<Rightarrow> (identity_provider \<times> route_kind) option" where
  "search_route_kind metadata_provider.OpenLibrary = Some (identity_provider.OpenLibrary, OpenLibraryWork)"
| "search_route_kind metadata_provider.Goodreads = Some (identity_provider.Goodreads, GoodreadsWork)"
| "search_route_kind metadata_provider.Hardcover = Some (identity_provider.Hardcover, HardcoverWork)"
| "search_route_kind _ = None"

definition has_provider_work_route :: "metadata_provider \<Rightarrow> work_route list \<Rightarrow> bool" where
  "has_provider_work_route p routes =
     (case search_route_kind p of
        None \<Rightarrow> False
      | Some (ip, k) \<Rightarrow> (\<exists>route \<in> set routes. is_active route \<and> r_provider route = ip \<and> r_kind route = k))"

section \<open>One search leg\<close>

type_synonym search_identifier = "route_kind \<times> string"

datatype identity_search_probe = GoodreadsBook string | HardcoverWorkProbe int

record search_candidate =
  c_title :: string
  c_author :: string
  c_work_id :: string
  c_edition_identifiers :: "search_identifier list"
  c_probe :: "identity_search_probe option"

datatype search_fallback_decision = AutoLink nat | Propose nat | Abstain

fun candidate_index :: "search_fallback_decision \<Rightarrow> nat option" where
  "candidate_index (AutoLink i) = Some i"
| "candidate_index (Propose i) = Some i"
| "candidate_index Abstain = None"

datatype evidence_provenance =
  AnchorPayload | EvidenceSearchFallback route_kind | EvidenceTextDecisive

record provider_identity_evidence =
  ev_provider :: identity_provider
  ev_route :: route_key
  ev_provenance :: evidence_provenance

record search_fallback_capture =
  provider_identity :: "provider_identity_evidence list"
  route_proposals :: "route_key list"
  accounting :: ledger_pass_accounting

definition capture_default :: search_fallback_capture where
  "capture_default = \<lparr>provider_identity = [], route_proposals = [], accounting = Idle\<rparr>"

definition honest_miss :: search_fallback_capture where
  "honest_miss = capture_default\<lparr>accounting := CardOrMiss\<rparr>"

definition capture_leg_failed :: search_fallback_capture where
  "capture_leg_failed = capture_default\<lparr>accounting := LegFailed\<rparr>"

definition text_decisive_search_capture :: "identity_provider \<Rightarrow> route_key \<Rightarrow> search_fallback_capture" where
  "text_decisive_search_capture ip route =
     \<lparr>provider_identity = [\<lparr>ev_provider = ip, ev_route = route, ev_provenance = EvidenceTextDecisive\<rparr>],
      route_proposals = [], accounting = Settled\<rparr>"

definition proposal_capture :: "route_key \<Rightarrow> search_fallback_capture" where
  "proposal_capture route = \<lparr>provider_identity = [], route_proposals = [route], accounting = CardOrMiss\<rparr>"

definition edition_identifier_matches ::
  "(string \<Rightarrow> string) \<Rightarrow> work_route \<Rightarrow> search_identifier \<Rightarrow> bool" where
  "edition_identifier_matches strip_isbn route identifier =
     (if \<not> is_active route \<or> r_kind route \<noteq> fst identifier then False
      else if fst identifier = Isbn13Edition
      then strip_isbn (r_provider_scoped_id route) = strip_isbn (snd identifier)
      else if fst identifier = AsinEdition \<or> fst identifier = GoodreadsBookEdition
      then trim (r_provider_scoped_id route) = trim (snd identifier)
      else False)"

definition can_corroborate :: "work_route list \<Rightarrow> bool" where
  "can_corroborate routes \<longleftrightarrow>
     (\<exists>route \<in> set routes. is_active route \<and> r_kind route \<in> {AsinEdition, Isbn13Edition, GoodreadsBookEdition})"

text \<open>A client's two identity calls; \<^const>\<open>None\<close> is a failed call.\<close>

record search_client =
  search_identity_candidates :: "string \<Rightarrow> string \<Rightarrow> string option \<Rightarrow> search_candidate list option"
  probe_identity_candidate :: "identity_search_probe \<Rightarrow> string option \<Rightarrow> search_identifier list option"

text \<open>The settled branch: the work route, and the Goodreads book the probe named, with their provenance.\<close>

definition corroborated_capture ::
  "identity_provider \<Rightarrow> route_key \<Rightarrow> route_kind \<Rightarrow> string option \<Rightarrow> search_fallback_capture" where
  "corroborated_capture ip work_route k book =
     \<lparr>provider_identity =
        \<lparr>ev_provider = ip, ev_route = work_route, ev_provenance = EvidenceSearchFallback k\<rparr>
        # (case book of
             None \<Rightarrow> []
           | Some book_id \<Rightarrow>
               [\<lparr>ev_provider = identity_provider.Goodreads,
                 ev_route = \<lparr>k_provider = identity_provider.Goodreads, k_kind = GoodreadsBookEdition, k_value = book_id\<rparr>,
                 ev_provenance = EvidenceSearchFallback k\<rparr>]),
      route_proposals = [], accounting = Settled\<rparr>"

definition corroborate ::
  "(string \<Rightarrow> string) \<Rightarrow> work_route list \<Rightarrow> search_identifier list \<Rightarrow> route_kind option" where
  "corroborate strip_isbn routes ids =
     find_map (\<lambda>i. if \<exists>route \<in> set routes. edition_identifier_matches strip_isbn route i then Some (fst i) else None) ids"

definition conclude ::
  "(string \<Rightarrow> string) \<Rightarrow> work_route list \<Rightarrow> bool \<Rightarrow> identity_provider \<Rightarrow> route_key \<Rightarrow> string option
     \<Rightarrow> search_identifier list \<Rightarrow> search_fallback_capture" where
  "conclude strip_isbn routes text_decisive ip work_route book ids =
     (case corroborate strip_isbn routes ids of
        Some k \<Rightarrow> corroborated_capture ip work_route k book
      | None \<Rightarrow> if text_decisive then text_decisive_search_capture ip work_route else proposal_capture work_route)"

text \<open>
  The whole leg. \<^const>\<open>None\<close> is a task that panicked (an index outside the candidates); the
  caller counts it as failed.
\<close>

definition run_identity_search_fallback ::
  "(string \<Rightarrow> string) \<Rightarrow> (string \<Rightarrow> string \<Rightarrow> search_candidate list \<Rightarrow> search_fallback_decision)
     \<Rightarrow> search_client \<Rightarrow> metadata_provider \<Rightarrow> string \<Rightarrow> string \<Rightarrow> string option \<Rightarrow> work_route list
     \<Rightarrow> search_fallback_capture option" where
  "run_identity_search_fallback strip_isbn classify client p seed_title seed_author language routes =
     (case search_identity_candidates client seed_title seed_author language of
        None \<Rightarrow> Some capture_leg_failed
      | Some candidates \<Rightarrow>
          (let decision = classify seed_title seed_author candidates in
           case candidate_index decision of
             None \<Rightarrow> Some honest_miss
           | Some index \<Rightarrow>
               if index \<ge> length candidates then None
               else
                 (let text_decisive = (case decision of AutoLink _ \<Rightarrow> True | _ \<Rightarrow> False);
                      candidate = candidates ! index
                  in case search_route_kind p of
                       None \<Rightarrow> Some capture_default
                     | Some (ip, k) \<Rightarrow>
                         (let work_route = \<lparr>k_provider = ip, k_kind = k, k_value = trim (c_work_id candidate)\<rparr> in
                          if \<not> can_corroborate routes
                          then Some (if text_decisive then text_decisive_search_capture ip work_route
                                     else proposal_capture work_route)
                          else
                            case c_probe candidate of
                              None \<Rightarrow>
                                Some (conclude strip_isbn routes text_decisive ip work_route None
                                        (c_edition_identifiers candidate))
                            | Some probe \<Rightarrow>
                                (let book = (case probe of GoodreadsBook b \<Rightarrow> Some b | _ \<Rightarrow> None);
                                     ids = c_edition_identifiers candidate
                                       @ (case book of Some b \<Rightarrow> [(GoodreadsBookEdition, b)] | None \<Rightarrow> [])
                                 in case probe_identity_candidate client probe language of
                                      None \<Rightarrow>
                                        Some (if text_decisive
                                              then (text_decisive_search_capture ip work_route)\<lparr>accounting := LegFailed\<rparr>
                                              else capture_leg_failed)
                                    | Some probed \<Rightarrow>
                                        Some (conclude strip_isbn routes text_decisive ip work_route book (ids @ probed)))))))"

section \<open>A wave of legs\<close>

text \<open>The fold over the joined tasks, in the order they complete.\<close>

definition fold_leg :: "search_fallback_capture \<Rightarrow> search_fallback_capture option \<Rightarrow> search_fallback_capture" where
  "fold_leg folded joined =
     (case joined of
        Some capture \<Rightarrow>
          \<lparr>provider_identity = provider_identity folded @ provider_identity capture,
           route_proposals = route_proposals folded @ route_proposals capture,
           accounting = combine (accounting folded) (accounting capture)\<rparr>
      | None \<Rightarrow> folded\<lparr>accounting := combine (accounting folded) LegFailed\<rparr>)"

definition run_search_legs :: "search_fallback_capture option list \<Rightarrow> search_fallback_capture" where
  "run_search_legs joined = foldl fold_leg capture_default joined"

section \<open>The accounting is a fold without order\<close>

lemma combine_comm: "combine a b = combine b a"
  by (cases a; cases b) simp_all

lemma combine_assoc: "combine (combine a b) c = combine a (combine b c)"
  by (cases a; cases b; cases c) simp_all

lemma combine_idle [simp]: "combine Idle a = a" "combine a Idle = a"
  by (cases a; simp)+

definition leg_accounting :: "search_fallback_capture option \<Rightarrow> ledger_pass_accounting" where
  "leg_accounting joined = (case joined of Some capture \<Rightarrow> accounting capture | None \<Rightarrow> LegFailed)"

lemma run_search_legs_accounting:
  "accounting (run_search_legs joined) = foldr combine (map leg_accounting joined) Idle"
proof -
  have "accounting (foldl fold_leg c joined) = combine (accounting c) (foldr combine (map leg_accounting joined) Idle)" for c
    by (induction joined arbitrary: c)
      (simp_all add: fold_leg_def leg_accounting_def combine_assoc split: option.split)
  then show ?thesis by (simp add: run_search_legs_def capture_default_def)
qed

lemma foldr_combine:
  "foldr combine as Idle =
     (if LegFailed \<in> set as then LegFailed else if Settled \<in> set as then Settled
      else if CardOrMiss \<in> set as then CardOrMiss else Idle)"
proof (induction as)
  case (Cons a as)
  then show ?case by (cases a) auto
qed simp

lemma foldr_combine_burnable:
  "is_burnable (foldr combine as Idle) \<longleftrightarrow> CardOrMiss \<in> set as \<and> Settled \<notin> set as \<and> LegFailed \<notin> set as"
  by (simp add: foldr_combine is_burnable_def)

end
