(* ===== verification/RetryState.thy ===== *)
theory RetryState
  imports MergeApply "HOL-Library.AList"
begin

text \<open>
  What the provider queue remembers between passes: the retry standing of each provider for each
  work (\<^verbatim>\<open>livrarr-db/src/sqlite_retry_state.rs\<close>) and the cache of provider responses
  (\<^verbatim>\<open>livrarr-db/src/sqlite_provider_cache.rs\<close>).

  A table is an association list from its primary key to its other columns, in the order of the
  hidden row ids: an upsert of a present key replaces the row in place, a new key goes to the end.
  Rows hold times as integers; the stored RFC 3339 texts compare as the times do. The statements
  are total apart from the foreign-key and constraint errors, which are values.
\<close>

section \<open>Retry standing\<close>

record retry_row =
  row_user_id :: int
  attempts :: int
  last_outcome :: "outcome_class option"
  last_attempt_at :: "int option"
  next_attempt_at :: "int option"
  normalized_payload_json :: "string option"

type_synonym retry_key = "int \<times> metadata_provider"

record work_owner =
  owner_id :: int
  added_at :: int

record retry_db =
  user_ids :: "int set"
  work_rows :: "(int \<times> work_owner) list"
  retry_rows :: "(retry_key \<times> retry_row) list"

text \<open>The record the queries return.\<close>

record provider_retry_state =
  st_user_id :: int
  st_work_id :: int
  st_provider :: metadata_provider
  st_attempts :: u32
  st_last_outcome :: "outcome_class option"
  st_next_attempt_at :: "int option"
  st_payload :: "string option"

definition row_to_retry_state :: "retry_key \<Rightarrow> retry_row \<Rightarrow> provider_retry_state" where
  "row_to_retry_state k r =
     \<lparr>st_user_id = row_user_id r, st_work_id = fst k, st_provider = snd k,
      st_attempts = word_of_int (attempts r), st_last_outcome = last_outcome r,
      st_next_attempt_at = next_attempt_at r, st_payload = normalized_payload_json r\<rparr>"

definition owns :: "retry_db \<Rightarrow> int \<Rightarrow> int \<Rightarrow> bool" where
  "owns db user_id work_id \<longleftrightarrow> map_option owner_id (map_of (work_rows db) work_id) = Some user_id"

definition get_retry_state :: "int \<Rightarrow> int \<Rightarrow> metadata_provider \<Rightarrow> retry_db \<Rightarrow> provider_retry_state option" where
  "get_retry_state user_id work_id provider db =
     (if owns db user_id work_id
      then map_option (row_to_retry_state (work_id, provider)) (map_of (retry_rows db) (work_id, provider))
      else None)"

definition list_retry_states :: "int \<Rightarrow> int \<Rightarrow> retry_db \<Rightarrow> provider_retry_state list" where
  "list_retry_states user_id work_id db =
     (if owns db user_id work_id
      then map (\<lambda>(k, r). row_to_retry_state k r) (filter (\<lambda>(k, r). fst k = work_id) (retry_rows db))
      else [])"

text \<open>
  \<^verbatim>\<open>INSERT \<dots> ON CONFLICT(work_id, provider) DO UPDATE\<close>. The foreign keys are checked when the row
  is inserted.
\<close>

definition upsert_row ::
  "int \<Rightarrow> retry_key \<Rightarrow> retry_row \<Rightarrow> (retry_row \<Rightarrow> retry_row) \<Rightarrow> retry_db \<Rightarrow> db_error + retry_db" where
  "upsert_row user_id key fresh upd db =
     (case map_of (retry_rows db) key of
        Some r \<Rightarrow> Inr (db\<lparr>retry_rows := AList.update key (upd r) (retry_rows db)\<rparr>)
      | None \<Rightarrow>
          if user_id \<in> user_ids db \<and> map_of (work_rows db) (fst key) \<noteq> None
          then Inr (db\<lparr>retry_rows := AList.update key fresh (retry_rows db)\<rparr>)
          else Inl (DbConstraint ''FOREIGN KEY constraint failed''))"

definition read_back ::
  "int \<Rightarrow> retry_key \<Rightarrow> db_error + retry_db \<Rightarrow> retry_db \<Rightarrow> (db_error + provider_retry_state) \<times> retry_db" where
  "read_back user_id key written db =
     (case written of
        Inl e \<Rightarrow> (Inl e, db)
      | Inr db' \<Rightarrow>
          (case get_retry_state user_id (fst key) (snd key) db' of
             Some st \<Rightarrow> (Inr st, db')
           | None \<Rightarrow> (Inl DbNotFound, db')))"

definition record_will_retry ::
  "int \<Rightarrow> int \<Rightarrow> int \<Rightarrow> metadata_provider \<Rightarrow> int \<Rightarrow> retry_db \<Rightarrow> (db_error + provider_retry_state) \<times> retry_db" where
  "record_will_retry now user_id work_id provider next_at db =
     read_back user_id (work_id, provider)
       (upsert_row user_id (work_id, provider)
          \<lparr>row_user_id = user_id, attempts = 1, last_outcome = Some WillRetry, last_attempt_at = Some now,
           next_attempt_at = Some next_at, normalized_payload_json = None\<rparr>
          (\<lambda>r. r\<lparr>attempts := attempts r + 1, next_attempt_at := Some next_at, normalized_payload_json := None,
                 last_attempt_at := Some now, last_outcome := Some WillRetry\<rparr>) db) db"

definition record_will_retry_paused ::
  "int \<Rightarrow> int \<Rightarrow> int \<Rightarrow> metadata_provider \<Rightarrow> int \<Rightarrow> retry_db \<Rightarrow> (db_error + provider_retry_state) \<times> retry_db" where
  "record_will_retry_paused now user_id work_id provider next_at db =
     read_back user_id (work_id, provider)
       (upsert_row user_id (work_id, provider)
          \<lparr>row_user_id = user_id, attempts = 0, last_outcome = Some WillRetry, last_attempt_at = Some now,
           next_attempt_at = Some next_at, normalized_payload_json = None\<rparr>
          (\<lambda>r. r\<lparr>next_attempt_at := Some next_at, normalized_payload_json := None,
                 last_attempt_at := Some now, last_outcome := Some WillRetry\<rparr>) db) db"

definition is_phase2_terminal :: "outcome_class \<Rightarrow> bool" where
  "is_phase2_terminal oc \<longleftrightarrow> oc \<in> {Success, NotFound, PermanentFailure, Conflict, NotConfigured}"

fun debug_outcome :: "outcome_class \<Rightarrow> string" where
  "debug_outcome Success = ''Success''"
| "debug_outcome NotFound = ''NotFound''"
| "debug_outcome NotConfigured = ''NotConfigured''"
| "debug_outcome WillRetry = ''WillRetry''"
| "debug_outcome PermanentFailure = ''PermanentFailure''"
| "debug_outcome Conflict = ''Conflict''"

definition validate_terminal :: "outcome_class \<Rightarrow> string option \<Rightarrow> db_error option" where
  "validate_terminal oc json =
     (if \<not> is_phase2_terminal oc
      then Some (DbConstraint (''outcome '' @ debug_outcome oc @ '' is not terminal ''
                   @ [CHR 0xE2, CHR 0x80, CHR 0x94] @ '' use record_will_retry''))
      else if oc = Success
      then (if json = None then Some (DbConstraint ''Success outcome requires normalized_payload_json'') else None)
      else (if json \<noteq> None
            then Some (DbConstraint (''non-Success outcome '' @ debug_outcome oc @ '' must not have normalized_payload_json''))
            else None))"

definition record_terminal_outcome ::
  "int \<Rightarrow> int \<Rightarrow> int \<Rightarrow> metadata_provider \<Rightarrow> outcome_class \<Rightarrow> string option \<Rightarrow> retry_db
     \<Rightarrow> (db_error + unit) \<times> retry_db" where
  "record_terminal_outcome now user_id work_id provider oc json db =
     (case validate_terminal oc json of
        Some e \<Rightarrow> (Inl e, db)
      | None \<Rightarrow>
          (case upsert_row user_id (work_id, provider)
                  \<lparr>row_user_id = user_id, attempts = 0, last_outcome = Some oc, last_attempt_at = Some now,
                   next_attempt_at = None, normalized_payload_json = json\<rparr>
                  (\<lambda>r. r\<lparr>last_outcome := Some oc, normalized_payload_json := json, next_attempt_at := None,
                         last_attempt_at := Some now\<rparr>) db of
             Inl e \<Rightarrow> (Inl e, db)
           | Inr db' \<Rightarrow> (Inr (), db')))"

definition reset_all_retry_states :: "int \<Rightarrow> int \<Rightarrow> retry_db \<Rightarrow> retry_db" where
  "reset_all_retry_states user_id work_id db =
     db\<lparr>retry_rows := filter (\<lambda>(k, r). \<not> (fst k = work_id \<and> row_user_id r = user_id)) (retry_rows db)\<rparr>"

definition reset_not_configured_outcomes :: "metadata_provider \<Rightarrow> retry_db \<Rightarrow> nat \<times> retry_db" where
  "reset_not_configured_outcomes provider db =
     (let gone = (\<lambda>(k, r). snd k = provider \<and> last_outcome r = Some NotConfigured) in
      (length (filter gone (retry_rows db)), db\<lparr>retry_rows := filter (\<lambda>x. \<not> gone x) (retry_rows db)\<rparr>))"

text \<open>
  The rows due: the work's age orders them. Two providers of one work tie in the query; the model
  keeps them in row order.
\<close>

definition list_works_due_for_retry :: "int \<Rightarrow> int \<Rightarrow> retry_db \<Rightarrow> retry_key list" where
  "list_works_due_for_retry user_id now db =
     sort_key (\<lambda>(w, p). (case map_of (work_rows db) w of Some o' \<Rightarrow> added_at o' | None \<Rightarrow> 0, w))
       (map fst (filter (\<lambda>(k, r). owns db user_id (fst k)
                    \<and> (case next_attempt_at r of Some t \<Rightarrow> t \<le> now | None \<Rightarrow> False)) (retry_rows db)))"

definition settled_outcome :: "outcome_class option \<Rightarrow> bool" where
  "settled_outcome oc \<longleftrightarrow> oc \<in> {Some Success, Some NotFound, Some PermanentFailure}"

fun group_by_work :: "retry_key list \<Rightarrow> (int \<times> metadata_provider list) list \<Rightarrow> (int \<times> metadata_provider list) list" where
  "group_by_work [] acc = acc"
| "group_by_work ((w, p) # rest) acc =
     group_by_work rest
       (case map_of acc w of Some ps \<Rightarrow> AList.update w (ps @ [p]) acc | None \<Rightarrow> acc @ [(w, [p])])"

definition list_works_with_terminal_provider_rows :: "int \<Rightarrow> retry_db \<Rightarrow> (int \<times> metadata_provider list) list" where
  "list_works_with_terminal_provider_rows user_id db =
     group_by_work
       (sort_key fst
          (map fst (filter (\<lambda>(k, r). owns db user_id (fst k) \<and> settled_outcome (last_outcome r)
              \<and> \<not> (\<exists>(k2, r2) \<in> set (retry_rows db). fst k2 = fst k \<and> \<not> settled_outcome (last_outcome r2)))
            (retry_rows db)))) []"

section \<open>The response cache\<close>

type_synonym cache_key = "metadata_provider \<times> string \<times> string"

record cache_row =
  payload_json :: string
  fetched_at :: int

type_synonym response_cache = "(cache_key \<times> cache_row) list"

definition get_provider_cache_entry :: "cache_key \<Rightarrow> response_cache \<Rightarrow> cache_row option" where
  "get_provider_cache_entry key cache = map_of cache key"

definition upsert_provider_cache_entry :: "cache_key \<Rightarrow> cache_row \<Rightarrow> response_cache \<Rightarrow> response_cache" where
  "upsert_provider_cache_entry key entry cache = AList.update key entry cache"

definition evict_provider_cache_to_cap :: "int \<Rightarrow> response_cache \<Rightarrow> nat \<times> response_cache" where
  "evict_provider_cache_to_cap max_rows cache =
     (let excess = int (length cache) - max_rows in
      if excess > 0
      then (let victims = take (nat excess) (sort_key (\<lambda>(k, r). fetched_at r) cache)
            in (length victims, filter (\<lambda>x. x \<notin> set victims) cache))
      else (0, cache))"

section \<open>Well-formed standing\<close>

text \<open>
  A row is waiting exactly when it has a time for its next attempt, and carries a payload exactly
  when it records a success.
\<close>

definition retry_row_wf :: "retry_row \<Rightarrow> bool" where
  "retry_row_wf r \<longleftrightarrow> 0 \<le> attempts r \<and> last_outcome r \<noteq> None
     \<and> (next_attempt_at r \<noteq> None \<longleftrightarrow> last_outcome r = Some WillRetry)
     \<and> (normalized_payload_json r \<noteq> None \<longleftrightarrow> last_outcome r = Some Success)"

definition retry_wf :: "retry_db \<Rightarrow> bool" where
  "retry_wf db \<longleftrightarrow> distinct (map fst (retry_rows db)) \<and> (\<forall>(k, r) \<in> set (retry_rows db). retry_row_wf r)"

lemma retry_wf_lookup:
  "retry_wf db \<Longrightarrow> map_of (retry_rows db) k = Some r \<Longrightarrow> retry_row_wf r"
  by (auto simp: retry_wf_def dest: map_of_SomeD)

lemma set_update: "set (AList.update k v al) \<subseteq> insert (k, v) (set al)"
  by (induction al) auto

lemma upsert_wf:
  assumes "retry_wf db" "upsert_row u key fresh upd db = Inr db'"
    and "retry_row_wf fresh" and "\<And>r. retry_row_wf r \<Longrightarrow> retry_row_wf (upd r)"
  shows "retry_wf db'"
proof -
  have keep: "\<forall>(k, r) \<in> set (AList.update key v (retry_rows db)). retry_row_wf r" if "retry_row_wf v" for v
    using assms(1) that set_update [of key v "retry_rows db"] by (fastforce simp: retry_wf_def)
  have "\<exists>v. retry_row_wf v \<and> db' = db\<lparr>retry_rows := AList.update key v (retry_rows db)\<rparr>"
  proof (cases "map_of (retry_rows db) key")
    case None
    then show ?thesis using assms(2,3) by (auto simp: upsert_row_def split: if_splits)
  next
    case (Some r)
    then have "retry_row_wf (upd r)" using assms(1,4) retry_wf_lookup [of db key r] by simp
    then show ?thesis using Some assms(2) by (auto simp: upsert_row_def)
  qed
  then obtain v where "retry_row_wf v" "db' = db\<lparr>retry_rows := AList.update key v (retry_rows db)\<rparr>" by blast
  then show ?thesis using keep [of v] assms(1) by (simp add: retry_wf_def distinct_update)
qed

lemma filter_wf: "retry_wf db \<Longrightarrow> retry_wf (db\<lparr>retry_rows := filter P (retry_rows db)\<rparr>)"
  by (auto simp: retry_wf_def distinct_map_filter)

lemma read_back_db: "snd (read_back u key w db) = (case w of Inl _ \<Rightarrow> db | Inr db' \<Rightarrow> db')"
  by (simp add: read_back_def split: sum.split option.split)

text \<open>Every statement that writes the table, as a step.\<close>

inductive retry_step :: "retry_db \<Rightarrow> retry_db \<Rightarrow> bool" where
  will_retry: "retry_step db (snd (record_will_retry now u w p next_at db))"
| will_retry_paused: "retry_step db (snd (record_will_retry_paused now u w p next_at db))"
| terminal: "retry_step db (snd (record_terminal_outcome now u w p oc json db))"
| reset_all: "retry_step db (reset_all_retry_states u w db)"
| reset_not_configured: "retry_step db (snd (reset_not_configured_outcomes p db))"

inductive retry_reach :: "retry_db \<Rightarrow> bool" where
  start: "retry_rows db = [] \<Longrightarrow> retry_reach db"
| step: "retry_reach db \<Longrightarrow> retry_step db db' \<Longrightarrow> retry_reach db'"

lemma retry_step_wf: "retry_step db db' \<Longrightarrow> retry_wf db \<Longrightarrow> retry_wf db'"
proof (induction rule: retry_step.induct)
  case (terminal db now u w p oc json)
  then show ?case
    by (auto simp: record_terminal_outcome_def validate_terminal_def is_phase2_terminal_def
        split: option.splits sum.splits if_splits elim!: upsert_wf simp: retry_row_wf_def)
qed (auto simp: record_will_retry_def record_will_retry_paused_def read_back_db reset_all_retry_states_def
    reset_not_configured_outcomes_def Let_def intro!: filter_wf split: sum.split elim!: upsert_wf simp: retry_row_wf_def)

lemma retry_reach_wf: "retry_reach db \<Longrightarrow> retry_wf db"
proof (induction rule: retry_reach.induct)
  case (start db)
  then show ?case by (simp add: retry_wf_def)
next
  case (step db db')
  then show ?case by (blast intro: retry_step_wf)
qed

section \<open>Properties\<close>

text \<open>
  C20 (type): in every state the table can reach, each provider of a work has one row; a row with a
  scheduled time is exactly one whose last outcome was a retryable failure, a row with a payload
  exactly one whose last outcome was a success. Hence the retry job picks up exactly the user's
  waiting rows whose time has come, oldest work first, and never one with a final outcome.
\<close>

theorem retry_standing_is_well_formed:
  assumes "retry_reach db"
  shows "distinct (map fst (retry_rows db))
    \<and> (\<forall>(k, r) \<in> set (retry_rows db). 0 \<le> attempts r
         \<and> (next_attempt_at r \<noteq> None \<longleftrightarrow> last_outcome r = Some WillRetry)
         \<and> (normalized_payload_json r \<noteq> None \<longleftrightarrow> last_outcome r = Some Success))
    \<and> (\<forall>k. k \<in> set (list_works_due_for_retry user_id now db) \<longleftrightarrow>
          (\<exists>r t. map_of (retry_rows db) k = Some r \<and> owns db user_id (fst k)
             \<and> last_outcome r = Some WillRetry \<and> next_attempt_at r = Some t \<and> t \<le> now))
    \<and> sorted (map (\<lambda>(w, p). (case map_of (work_rows db) w of Some o' \<Rightarrow> added_at o' | None \<Rightarrow> 0, w))
        (list_works_due_for_retry user_id now db))"
proof (intro conjI)
  have wf: "retry_wf db" using assms by (rule retry_reach_wf)
  then show dist: "distinct (map fst (retry_rows db))"
    and "\<forall>(k, r) \<in> set (retry_rows db). 0 \<le> attempts r
         \<and> (next_attempt_at r \<noteq> None \<longleftrightarrow> last_outcome r = Some WillRetry)
         \<and> (normalized_payload_json r \<noteq> None \<longleftrightarrow> last_outcome r = Some Success)"
    by (fastforce simp: retry_wf_def retry_row_wf_def)+
  have due: "k \<in> set (list_works_due_for_retry user_id now db) \<longleftrightarrow>
      (\<exists>r t. (k, r) \<in> set (retry_rows db) \<and> owns db user_id (fst k) \<and> next_attempt_at r = Some t \<and> t \<le> now)" for k
    by (force simp: list_works_due_for_retry_def split: option.splits)
  have row: "(k, r) \<in> set (retry_rows db) \<longleftrightarrow> map_of (retry_rows db) k = Some r" for k r
    using dist by (simp add: map_of_eq_Some_iff)
  have waiting: "map_of (retry_rows db) k = Some r \<Longrightarrow> next_attempt_at r = Some t \<Longrightarrow> last_outcome r = Some WillRetry" for k r t
    using retry_wf_lookup [OF wf, of k r] by (simp add: retry_row_wf_def)
  show "\<forall>k. k \<in> set (list_works_due_for_retry user_id now db) \<longleftrightarrow>
          (\<exists>r t. map_of (retry_rows db) k = Some r \<and> owns db user_id (fst k)
             \<and> last_outcome r = Some WillRetry \<and> next_attempt_at r = Some t \<and> t \<le> now)"
    unfolding due row using waiting by blast
qed (simp add: list_works_due_for_retry_def)

definition example_retry_db :: retry_db where
  "example_retry_db = \<lparr>user_ids = {1}, work_rows = [(7, \<lparr>owner_id = 1, added_at = 0\<rparr>)], retry_rows = []\<rparr>"

theorem retry_standing_is_well_formed_witness:
  "list_works_due_for_retry 1 60
     (snd (record_terminal_outcome 5 1 7 Goodreads NotFound None
        (snd (record_will_retry 5 1 7 OpenLibrary 50 example_retry_db)))) = [(7, OpenLibrary)]
   \<and> distinct (map fst (retry_rows
     (snd (record_terminal_outcome 5 1 7 Goodreads NotFound None
        (snd (record_will_retry 5 1 7 OpenLibrary 50 example_retry_db))))))"
proof -
  let ?db = "snd (record_terminal_outcome 5 1 7 Goodreads NotFound None
        (snd (record_will_retry 5 1 7 OpenLibrary 50 example_retry_db)))"
  have "retry_reach ?db"
    by (rule retry_reach.step [OF retry_reach.step [OF retry_reach.start retry_step.will_retry] retry_step.terminal])
      (simp add: example_retry_db_def)
  then have "distinct (map fst (retry_rows ?db))"
    using retry_standing_is_well_formed [of ?db 1 60] by blast
  moreover have "list_works_due_for_retry 1 60 ?db = [(7, OpenLibrary)]" by code_simp
  ultimately show ?thesis by blast
qed

end
