(* ===== verification/ProviderQueue.thy ===== *)
theory ProviderQueue
  imports SearchFallback RetryState
begin

text \<open>
  The scatter-gather queue (\<^verbatim>\<open>livrarr-enrichment/src/provider_queue.rs\<close>, \<^verbatim>\<open>DefaultProviderQueue\<close>): one pass
  partitions the registered providers into skipped, searched, cache-served and fetched ones, fetches,
  applies the retry budget, records every outcome durably, runs the search legs and derives the
  flags of the result.

  A pass runs in an environment: the registered providers in the order the hash map yields them, the
  policy, the clients' answers (\<^const>\<open>None\<close> for a task that panicked), the reads of the identity
  tables, the clock and the JSON codec, of which nothing is assumed (floating-point fields need not come back as they were). The state is the retry table and the response cache; the
  list of the fetches made and the skip records are kept with it.
\<close>

section \<open>Outcomes\<close>

datatype will_retry_reason = Timeout | RateLimit | ServerError | AntiBotBlock | CircuitOpen | QueueFull

datatype permanent_failure_reason =
  ProviderPanic | RetryBudgetExhausted | InvalidResponse | Unsupported | IdentityMismatch

datatype 'p provider_outcome =
    OSuccess 'p
  | ONotFound
  | ONotConfigured
  | OWillRetry will_retry_reason int
  | OPermanentFailure permanent_failure_reason
  | OConflict string

fun outcome_class_of :: "'p provider_outcome \<Rightarrow> outcome_class" where
  "outcome_class_of (OSuccess _) = Success"
| "outcome_class_of ONotFound = NotFound"
| "outcome_class_of ONotConfigured = NotConfigured"
| "outcome_class_of (OWillRetry _ _) = WillRetry"
| "outcome_class_of (OPermanentFailure _) = PermanentFailure"
| "outcome_class_of (OConflict _) = Conflict"

definition outcome_can_merge :: "'p provider_outcome \<Rightarrow> bool" where
  "outcome_can_merge oc \<longleftrightarrow> can_merge (outcome_class_of oc)"

datatype freshness = PreferCache | Bypass

record enrichment_context =
  cx_mode :: enrichment_mode
  cx_freshness :: freshness
  cx_search_only :: bool

datatype queue_error = QueueDb db_error | IdentityRouteRead string

datatype skip_reason = SkippedPolicy | SkippedNoAnchor

record captured_identity =
  ci_title_main :: string
  ci_primary_author_id :: int
  ci_active_routes :: "work_route list"

record 'p queue_env =
  env_providers :: "(metadata_provider \<times> u32) list"
  env_applicable :: "metadata_provider \<Rightarrow> bool"
  env_search_available :: "metadata_provider \<Rightarrow> bool"
  env_fetch :: "metadata_provider \<Rightarrow> anchor_query \<Rightarrow> 'p provider_outcome option"
  env_search_client :: "metadata_provider \<Rightarrow> search_client"
  env_classify :: "string \<Rightarrow> string \<Rightarrow> search_candidate list \<Rightarrow> search_fallback_decision"
  env_strip_isbn :: "string \<Rightarrow> string"
  env_join_order :: "metadata_provider list \<Rightarrow> metadata_provider list"
  env_captured_identity :: "string + captured_identity"
  env_author_names :: "int \<Rightarrow> string + string list"
  env_to_json :: "'p \<Rightarrow> string"
  env_from_json :: "string \<Rightarrow> 'p option"
  env_now :: int
  env_cache_ttl :: int
  env_cache_max_rows :: int

record queue_state =
  q_retry :: retry_db
  q_cache :: response_cache
  q_calls :: "(metadata_provider \<times> anchor_query) list"
  q_skips :: "(metadata_provider \<times> skip_reason) list"

section \<open>Budget, persistence and cache\<close>

definition is_pause :: "will_retry_reason \<Rightarrow> bool" where
  "is_pause reason \<longleftrightarrow> reason = CircuitOpen \<or> reason = QueueFull"

definition prior_attempts :: "int \<Rightarrow> int \<Rightarrow> metadata_provider \<Rightarrow> retry_db \<Rightarrow> u32" where
  "prior_attempts user_id work_id p db =
     (case get_retry_state user_id work_id p db of Some st \<Rightarrow> st_attempts st | None \<Rightarrow> 0)"

definition apply_budget_rules ::
  "int \<Rightarrow> int \<Rightarrow> metadata_provider \<Rightarrow> u32 \<Rightarrow> 'p provider_outcome \<Rightarrow> retry_db \<Rightarrow> 'p provider_outcome" where
  "apply_budget_rules user_id work_id p max_attempts oc db =
     (case oc of
        OWillRetry reason next_at \<Rightarrow>
          if is_pause reason then OWillRetry reason next_at
          else if saturating_add (prior_attempts user_id work_id p db) 1 \<ge> max_attempts
          then OPermanentFailure RetryBudgetExhausted
          else OWillRetry reason next_at
      | other \<Rightarrow> other)"

definition persist_phase1_outcome ::
  "('p \<Rightarrow> string) \<Rightarrow> int \<Rightarrow> int \<Rightarrow> int \<Rightarrow> metadata_provider \<Rightarrow> 'p provider_outcome \<Rightarrow> retry_db
     \<Rightarrow> (queue_error + unit) \<times> retry_db" where
  "persist_phase1_outcome to_json now user_id work_id p oc db =
     (case oc of
        OWillRetry reason next_at \<Rightarrow>
          (case (if is_pause reason then record_will_retry_paused now user_id work_id p next_at db
                 else record_will_retry now user_id work_id p next_at db) of
             (Inl e, db') \<Rightarrow> (Inl (QueueDb e), db')
           | (Inr _, db') \<Rightarrow> (Inr (), db'))
      | _ \<Rightarrow>
          (case record_terminal_outcome now user_id work_id p (outcome_class_of oc)
                  (case oc of OSuccess d \<Rightarrow> Some (to_json d) | _ \<Rightarrow> None) db of
             (Inl e, db') \<Rightarrow> (Inl (QueueDb e), db')
           | (Inr _, db') \<Rightarrow> (Inr (), db')))"

definition cache_key_of :: "metadata_provider \<Rightarrow> anchor_query \<Rightarrow> cache_key" where
  "cache_key_of p anchor = (case anchor_cache_key anchor of (t, v) \<Rightarrow> (p, t, v))"

definition cached_success ::
  "'p queue_env \<Rightarrow> metadata_provider \<Rightarrow> anchor_query \<Rightarrow> response_cache \<Rightarrow> 'p option" where
  "cached_success env p anchor cache =
     (case get_provider_cache_entry (cache_key_of p anchor) cache of
        None \<Rightarrow> None
      | Some entry \<Rightarrow>
          if env_now env - fetched_at entry \<ge> env_cache_ttl env then None
          else env_from_json env (payload_json entry))"

definition cache_write ::
  "'p queue_env \<Rightarrow> metadata_provider \<Rightarrow> anchor_query \<Rightarrow> 'p \<Rightarrow> response_cache \<Rightarrow> response_cache" where
  "cache_write env p anchor d cache =
     upsert_provider_cache_entry (cache_key_of p anchor)
       \<lparr>payload_json = env_to_json env d, fetched_at = env_now env\<rparr> cache"

definition existing_terminal_outcome :: "int \<Rightarrow> int \<Rightarrow> metadata_provider \<Rightarrow> retry_db \<Rightarrow> outcome_class option" where
  "existing_terminal_outcome user_id work_id p db =
     (case get_retry_state user_id work_id p db of
        None \<Rightarrow> None
      | Some st \<Rightarrow>
          (case st_last_outcome st of
             Some oc \<Rightarrow> if is_phase2_terminal oc then Some oc else None
           | None \<Rightarrow> None))"

datatype 'p preview_fetch_outcome = Resolved 'p | PreviewNotFound | PreviewNotConfigured | Unavailable

text \<open>
  \<^verbatim>\<open>preview_fetch\<close> outside a pass: the registry's client is asked directly, and no state changes. The
  caller awaits it in its own task, so a panic is the caller's and has no value here.
\<close>

definition preview_fetch :: "'p queue_env \<Rightarrow> metadata_provider \<Rightarrow> anchor_query \<Rightarrow> 'p preview_fetch_outcome option" where
  "preview_fetch env p query =
     (if map_of (env_providers env) p = None then Some PreviewNotConfigured
      else map_option (\<lambda>oc. case oc of
             OSuccess d \<Rightarrow> Resolved d
           | ONotFound \<Rightarrow> PreviewNotFound
           | ONotConfigured \<Rightarrow> PreviewNotConfigured
           | _ \<Rightarrow> Unavailable) (env_fetch env p query))"

section \<open>Partition of the providers\<close>

record dispatch_entry =
  d_provider :: metadata_provider
  d_max_attempts :: u32
  d_anchor :: anchor_query
  d_search_eligible :: bool

record 'p partition =
  pt_outcomes :: "(metadata_provider \<times> 'p provider_outcome) list"
  pt_dispatch :: "dispatch_entry list"
  pt_search :: "metadata_provider list"
  pt_cached :: "(metadata_provider \<times> 'p) list"
  pt_skips :: "(metadata_provider \<times> skip_reason) list"

definition partition_empty :: "'p partition" where
  "partition_empty = \<lparr>pt_outcomes = [], pt_dispatch = [], pt_search = [], pt_cached = [], pt_skips = []\<rparr>"

definition search_eligible ::
  "'p queue_env \<Rightarrow> (string \<times> string) option \<Rightarrow> work_route list \<Rightarrow> metadata_provider \<Rightarrow> bool" where
  "search_eligible env seed active_routes p \<longleftrightarrow>
     seed \<noteq> None \<and> search_route_kind p \<noteq> None \<and> \<not> has_provider_work_route p active_routes
     \<and> env_search_available env p"

definition partition_one ::
  "'p queue_env \<Rightarrow> int \<Rightarrow> int \<Rightarrow> enrichment_context \<Rightarrow> (string \<times> string) option \<Rightarrow> work_route list
     \<Rightarrow> work_route list \<Rightarrow> queue_state \<Rightarrow> 'p partition \<Rightarrow> metadata_provider \<times> u32 \<Rightarrow> 'p partition" where
  "partition_one env user_id work_id cx seed active_routes usable s pt entry =
     (let p = fst entry; eligible = search_eligible env seed active_routes p in
      if \<not> env_applicable env p then pt\<lparr>pt_skips := pt_skips pt @ [(p, SkippedPolicy)]\<rparr>
      else
        case derive_route_anchor_query p usable of
          None \<Rightarrow>
            if eligible
            then pt\<lparr>pt_search := pt_search pt @ [p], pt_outcomes := AList.update p ONotFound (pt_outcomes pt)\<rparr>
            else pt\<lparr>pt_skips := pt_skips pt @ [(p, SkippedNoAnchor)],
                    pt_outcomes := AList.update p ONotFound (pt_outcomes pt)\<rparr>
        | Some anchor \<Rightarrow>
            (let terminal = existing_terminal_outcome user_id work_id p (q_retry s) in
             if terminal = Some NotFound \<and> eligible
             then pt\<lparr>pt_search := pt_search pt @ [p], pt_outcomes := AList.update p ONotFound (pt_outcomes pt)\<rparr>
             else if terminal \<noteq> None then pt
             else if cx_search_only cx then pt
             else
               (let cached = (if cx_freshness cx = PreferCache then cached_success env p anchor (q_cache s) else None)
                in pt\<lparr>pt_cached := (case cached of Some d \<Rightarrow> pt_cached pt @ [(p, d)] | None \<Rightarrow> pt_cached pt),
                      pt_dispatch := pt_dispatch pt
                        @ [\<lparr>d_provider = p, d_max_attempts = snd entry, d_anchor = anchor, d_search_eligible = eligible\<rparr>]\<rparr>)))"

section \<open>Finalisation of the fetched providers\<close>

record 'p gather =
  g_outcomes :: "(metadata_provider \<times> 'p provider_outcome) list"
  g_ledger :: ledger_pass_accounting
  g_wrote_cache :: bool

definition leg_contribution :: "'p provider_outcome \<Rightarrow> ledger_pass_accounting" where
  "leg_contribution oc = (case oc of OWillRetry _ _ \<Rightarrow> LegFailed | OPermanentFailure _ \<Rightarrow> LegFailed | _ \<Rightarrow> Idle)"

text \<open>The provider's final outcome: cache-served, returned or panicked, with the budget applied.\<close>

definition final_outcome ::
  "'p queue_env \<Rightarrow> int \<Rightarrow> int \<Rightarrow> (metadata_provider \<times> 'p) list \<Rightarrow> dispatch_entry \<Rightarrow> retry_db \<Rightarrow> 'p provider_outcome" where
  "final_outcome env user_id work_id cached d db =
     (case map_of cached (d_provider d) of
        Some detail \<Rightarrow> apply_budget_rules user_id work_id (d_provider d) (d_max_attempts d) (OSuccess detail) db
      | None \<Rightarrow>
          (case env_fetch env (d_provider d) (d_anchor d) of
             None \<Rightarrow> OPermanentFailure ProviderPanic
           | Some oc \<Rightarrow> apply_budget_rules user_id work_id (d_provider d) (d_max_attempts d) oc db))"

fun finalize ::
  "'p queue_env \<Rightarrow> int \<Rightarrow> int \<Rightarrow> (metadata_provider \<times> 'p) list \<Rightarrow> dispatch_entry list \<Rightarrow> queue_state \<Rightarrow> 'p gather
     \<Rightarrow> (queue_error + 'p gather) \<times> queue_state" where
  "finalize env user_id work_id cached [] s g = (Inr g, s)"
| "finalize env user_id work_id cached (d # ds) s g =
     (let p = d_provider d;
          oc = final_outcome env user_id work_id cached d (q_retry s)
      in case persist_phase1_outcome (env_to_json env) (env_now env) user_id work_id p oc (q_retry s) of
           (Inl e, db') \<Rightarrow> (Inl e, s\<lparr>q_retry := db'\<rparr>)
         | (Inr _, db') \<Rightarrow>
             (let real = (case (map_of cached p, oc) of (None, OSuccess detail) \<Rightarrow> Some detail | _ \<Rightarrow> None);
                  s' = s\<lparr>q_retry := db',
                         q_cache := (case real of Some detail \<Rightarrow> cache_write env p (d_anchor d) detail (q_cache s)
                                     | None \<Rightarrow> q_cache s)\<rparr>
              in finalize env user_id work_id cached ds s'
                   \<lparr>g_outcomes = AList.update p oc (g_outcomes g),
                    g_ledger = combine (g_ledger g) (leg_contribution oc),
                    g_wrote_cache = (g_wrote_cache g \<or> real \<noteq> None)\<rparr>))"

section \<open>A pass\<close>

record 'p scatter_gather_result =
  sg_work_id :: int
  sg_outcomes :: "(metadata_provider \<times> 'p provider_outcome) list"
  sg_merge_eligible :: bool
  sg_deferred :: bool
  sg_provider_chase_attempted :: bool
  sg_search_leg_fired :: bool
  sg_ledger_accounting :: ledger_pass_accounting
  sg_search_provider_identity :: "provider_identity_evidence list"
  sg_search_route_proposals :: "route_key list"

definition search_wave ::
  "'p queue_env \<Rightarrow> string option \<Rightarrow> work_route list \<Rightarrow> (string \<times> string) option \<Rightarrow> metadata_provider list
     \<Rightarrow> search_fallback_capture" where
  "search_wave env language active_routes seed ps =
     (case seed of
        None \<Rightarrow> capture_default
      | Some (t, a) \<Rightarrow>
          run_search_legs
            (map (\<lambda>p. run_identity_search_fallback (env_strip_isbn env) (env_classify env) (env_search_client env p)
                        p t a language active_routes) (env_join_order env ps)))"

definition conflict_present :: "(metadata_provider \<times> 'p provider_outcome) list \<Rightarrow> bool" where
  "conflict_present outcomes \<longleftrightarrow> (\<exists>(p, oc) \<in> set outcomes. outcome_class_of oc = Conflict)"

definition deferred :: "enrichment_mode \<Rightarrow> (metadata_provider \<times> 'p provider_outcome) list \<Rightarrow> bool" where
  "deferred mode outcomes =
     (if conflict_present outcomes then False
      else case mode of
             Background \<Rightarrow> (\<exists>(p, oc) \<in> set outcomes. \<not> outcome_can_merge oc)
           | Manual \<Rightarrow> False
           | HardRefresh \<Rightarrow> False)"

definition needs_search_seed :: "'p queue_env \<Rightarrow> work_route list \<Rightarrow> bool" where
  "needs_search_seed env active_routes \<longleftrightarrow>
     (\<exists>(p, m) \<in> set (env_providers env). search_route_kind p \<noteq> None \<and> env_search_available env p
        \<and> \<not> has_provider_work_route p active_routes)"

definition search_seed :: "'p queue_env \<Rightarrow> captured_identity \<Rightarrow> string + (string \<times> string) option" where
  "search_seed env identity =
     (if needs_search_seed env (ci_active_routes identity)
      then (case env_author_names env (ci_primary_author_id identity) of
              Inl e \<Rightarrow> Inl e
            | Inr names \<Rightarrow>
                Inr (case names of [] \<Rightarrow> None | author # _ \<Rightarrow> Some (ci_title_main identity, author)))
      else Inr None)"

definition partition_all ::
  "'p queue_env \<Rightarrow> int \<Rightarrow> int \<Rightarrow> enrichment_context \<Rightarrow> (string \<times> string) option \<Rightarrow> work_route list \<Rightarrow> queue_state
     \<Rightarrow> 'p partition" where
  "partition_all env user_id work_id cx seed routes s =
     foldl (partition_one env user_id work_id cx seed routes (usable_routes (plan_from_routes () routes)) s)
       partition_empty (env_providers env)"

text \<open>The providers really fetched: the dispatched ones without a cache hit.\<close>

definition fetched_entries :: "'p partition \<Rightarrow> dispatch_entry list" where
  "fetched_entries pt = filter (\<lambda>d. map_of (pt_cached pt) (d_provider d) = None) (pt_dispatch pt)"

definition post_miss :: "dispatch_entry list \<Rightarrow> (metadata_provider \<times> 'p provider_outcome) list \<Rightarrow> metadata_provider list" where
  "post_miss ds outcomes =
     map d_provider (filter (\<lambda>d. d_search_eligible d
       \<and> (case map_of outcomes (d_provider d) of Some ONotFound \<Rightarrow> True | _ \<Rightarrow> False)) ds)"

definition dispatch_enrichment ::
  "'p queue_env \<Rightarrow> int \<Rightarrow> int \<Rightarrow> string option \<Rightarrow> enrichment_context \<Rightarrow> queue_state
     \<Rightarrow> (queue_error + 'p scatter_gather_result) \<times> queue_state" where
  "dispatch_enrichment env user_id work_id language cx s0 =
     (case env_captured_identity env of
        Inl e \<Rightarrow> (Inl (IdentityRouteRead e), s0)
      | Inr identity \<Rightarrow>
          (case search_seed env identity of
             Inl e \<Rightarrow> (Inl (IdentityRouteRead e), s0)
           | Inr seed \<Rightarrow>
               (let routes = ci_active_routes identity;
                    pt = partition_all env user_id work_id cx seed routes s0;
                    wave1 = search_wave env language routes seed (pt_search pt);
                    s1 = s0\<lparr>q_calls := q_calls s0 @ map (\<lambda>d. (d_provider d, d_anchor d)) (fetched_entries pt),
                            q_skips := q_skips s0 @ pt_skips pt\<rparr>
                in case finalize env user_id work_id (pt_cached pt) (pt_dispatch pt) s1
                          \<lparr>g_outcomes = pt_outcomes pt, g_ledger = combine Idle (accounting wave1),
                           g_wrote_cache = False\<rparr> of
                     (Inl e, s2) \<Rightarrow> (Inl e, s2)
                   | (Inr g, s2) \<Rightarrow>
                       (let missed = post_miss (pt_dispatch pt) (g_outcomes g);
                            second = seed \<noteq> None \<and> missed \<noteq> [];
                            wave2 = (if second then search_wave env language routes seed missed else capture_default);
                            s3 = (if g_wrote_cache g
                                  then s2\<lparr>q_cache := snd (evict_provider_cache_to_cap (env_cache_max_rows env) (q_cache s2))\<rparr>
                                  else s2)
                        in (Inr \<lparr>sg_work_id = work_id,
                                 sg_outcomes = g_outcomes g,
                                 sg_merge_eligible = (\<not> conflict_present (g_outcomes g)),
                                 sg_deferred = deferred (cx_mode cx) (g_outcomes g),
                                 sg_provider_chase_attempted =
                                   ((seed \<noteq> None \<and> pt_search pt \<noteq> []) \<or> fetched_entries pt \<noteq> [] \<or> second),
                                 sg_search_leg_fired = (pt_search pt \<noteq> [] \<or> second),
                                 sg_ledger_accounting = combine (g_ledger g) (accounting wave2),
                                 sg_search_provider_identity = provider_identity wave1 @ provider_identity wave2,
                                 sg_search_route_proposals = route_proposals wave1 @ route_proposals wave2\<rparr>, s3)))))"

end
