(* ===== verification/EnrichWork.thy ===== *)
theory EnrichWork
  imports MergeApply ProviderQueue
begin

text \<open>
  The enrichment workflow (\<^verbatim>\<open>livrarr-enrichment/src/lib.rs\<close>, \<^verbatim>\<open>EnrichmentServiceImpl\<close>): a pass reads the work,
  tries the payloads an earlier discovery left in the transport cache
  (\<^verbatim>\<open>livrarr-external-data/src/transport_cache.rs\<close>), otherwise asks the provider queue, rebuilds the
  outcomes from the retry table, merges, and stores the merge with a compare-and-set that is tried three
  times. Dissents (\<^verbatim>\<open>sqlite_field_dissents.rs\<close>) and observed author names are recorded on the way.

  The pass is one of many writers. Each of its database accesses is a point of the program, and a
  \<open>world\<close> says what the other writers did to the database just before each point. The
  theorems quantify over the world. A history of the stored merges, with the work each was computed
  from and the row it replaced, is kept with the state.
\<close>

section \<open>State\<close>

record 'f source_provider_data =
  sd_description :: "string option"
  sd_isbn :: "string option"
  sd_asin :: "string option"
  sd_publisher :: "string option"
  sd_genres :: "string list option"
  sd_page_count :: "int option"
  sd_rating :: "'f option"
  sd_rating_count :: "int option"
  sd_cover_url :: "string option"
  sd_series_name :: "string option"
  sd_series_position :: "string option"

type_synonym 'f payloads = "(metadata_provider \<times> 'f normalized_work_detail) list"

type_synonym author_name_observation = "metadata_provider \<times> string"

record dissent_row =
  dr_user_id :: int
  dr_dissent :: field_dissent

record 'f spine =
  sp_db :: "'f merge_db"
  sp_queue :: queue_state
  sp_dissents :: "dissent_row list"
  sp_sources :: "(int \<times> int \<times> 'f source_provider_data) list"
  sp_transport :: "((int \<times> string) \<times> 'f payloads \<times> int) list"
  sp_names :: "(int \<times> int \<times> author_name_observation list) list"
  sp_cached_calls :: "(string \<times> int) list"
  sp_history :: "('f work \<times> 'f work_row) list"

datatype enrichment_error =
    WorkNotFound
  | EDb db_error
  | EUnreadableRow
  | EQueue queue_error
  | EMerge merge_error
  | MergeSuperseded
  | CorruptRetryPayload int metadata_provider

text \<open>The accesses of a pass; the number is the attempt of the compare-and-set loop.\<close>

datatype point =
    AtWork | AtReuseGeneration | AtReuseProvenance | AtReuseApply | AtReuseDissents | AtReuseResult
  | AtGeneration | AtDispatch | AtFreshWork | AtFreshProvenance | AtDeferred
  | AtReadBack metadata_provider
  | AtApply nat | AtDissents nat | AtResult nat
  | AtRetryWork nat | AtRetryGeneration nat | AtRetryProvenance nat

type_synonym 'f world = "point \<Rightarrow> 'f spine \<Rightarrow> 'f spine"

record 'f spine_env =
  en_lower :: "string \<Rightarrow> string"
  en_show_f :: "'f \<Rightarrow> string"
  en_parse_f :: "string \<Rightarrow> 'f option"
  en_identity_key :: "string \<Rightarrow> string \<Rightarrow> string \<times> string"
  en_now :: int
  en_priorities :: priority_source
  en_transport_ttl :: "int option"
  en_observes_names :: bool
  en_queue :: "'f normalized_work_detail queue_env"

section \<open>Transport cache, dissents, names\<close>

definition cache_put ::
  "int \<Rightarrow> int \<Rightarrow> string \<Rightarrow> 'f payloads \<Rightarrow> ((int \<times> string) \<times> 'f payloads \<times> int) list
     \<Rightarrow> ((int \<times> string) \<times> 'f payloads \<times> int) list" where
  "cache_put now user_id cid ps cache = AList.update (user_id, cid) (ps, now) cache"

text \<open>Removes the entry and returns it unless it has expired.\<close>

definition cache_take ::
  "int \<Rightarrow> int \<Rightarrow> int \<Rightarrow> string \<Rightarrow> ((int \<times> string) \<times> 'f payloads \<times> int) list
     \<Rightarrow> 'f payloads option \<times> ((int \<times> string) \<times> 'f payloads \<times> int) list" where
  "cache_take ttl now user_id cid cache =
     (case map_of cache (user_id, cid) of
        None \<Rightarrow> (None, cache)
      | Some (ps, created_at) \<Rightarrow>
          (if now - created_at \<le> ttl then Some ps else None, AList.delete (user_id, cid) cache))"

definition record_field_dissents :: "int \<Rightarrow> int \<Rightarrow> field_dissent list \<Rightarrow> dissent_row list \<Rightarrow> dissent_row list" where
  "record_field_dissents user_id work_id dissents rows =
     (if dissents = []
      then filter (\<lambda>r. \<not> (dr_user_id r = user_id \<and> fd_work_id (dr_dissent r) = work_id)) rows
      else
        (let generation = Max (set (map fd_merge_generation dissents)) in
         filter (\<lambda>r. \<not> (dr_user_id r = user_id \<and> fd_work_id (dr_dissent r) = work_id
                         \<and> fd_merge_generation (dr_dissent r) < generation)) rows
         @ map (\<lambda>d. \<lparr>dr_user_id = user_id, dr_dissent = d\<lparr>fd_work_id := work_id\<rparr>\<rparr>) dissents))"

definition list_field_dissents :: "int \<Rightarrow> int \<Rightarrow> dissent_row list \<Rightarrow> field_dissent list" where
  "list_field_dissents user_id work_id rows =
     (let own = filter (\<lambda>r. dr_user_id r = user_id \<and> fd_work_id (dr_dissent r) = work_id) rows;
          latest = Max (set (map (\<lambda>r. fd_merge_generation (dr_dissent r)) own))
      in map dr_dissent (filter (\<lambda>r. fd_merge_generation (dr_dissent r) = latest) own))"

definition persist_dissents ::
  "int \<Rightarrow> int \<Rightarrow> int \<Rightarrow> field_dissent list \<Rightarrow> 'f spine \<Rightarrow> field_dissent list \<times> 'f spine" where
  "persist_dissents user_id work_id generation dissents s =
     (let stamped = map (\<lambda>d. d\<lparr>fd_merge_generation := generation\<rparr>) dissents in
      (stamped, s\<lparr>sp_dissents := record_field_dissents user_id work_id stamped (sp_dissents s)\<rparr>))"

text \<open>The provider's name source, for the providers that are one, and the trimmed name.\<close>

definition observed_author_name ::
  "metadata_provider \<Rightarrow> 'f normalized_work_detail \<Rightarrow> author_name_observation option" where
  "observed_author_name p detail =
     (if p \<in> {Audnexus, Audible, Llm} then None
      else case d_author_name detail of
             None \<Rightarrow> None
           | Some name \<Rightarrow> if trim name = [] then None else Some (p, trim name))"

definition observe_author_names ::
  "'f spine_env \<Rightarrow> int \<Rightarrow> int \<Rightarrow> 'f payloads \<Rightarrow> 'f spine \<Rightarrow> 'f spine" where
  "observe_author_names env user_id work_id ps s =
     (if \<not> en_observes_names env then s
      else
        (let observations = List.map_filter (\<lambda>(p, d). observed_author_name p d) ps in
         if observations = [] then s
         else s\<lparr>sp_names := sp_names s @ [(user_id, work_id, observations)]\<rparr>))"

section \<open>Identities the payloads carry\<close>

definition identity_candidates :: "'f normalized_work_detail \<Rightarrow> route_key list" where
  "identity_candidates d =
     List.map_filter (\<lambda>(ip, k, v). map_option (\<lambda>value. \<lparr>k_provider = ip, k_kind = k, k_value = trim value\<rparr>) v)
       [(identity_provider.OpenLibrary, OpenLibraryWork, d_ol_key d),
        (identity_provider.Goodreads, GoodreadsWork, d_gr_work_key d),
        (identity_provider.Hardcover, HardcoverWork, d_hc_key d)]"

fun capture_loop :: "route_key list \<Rightarrow> route_key list \<Rightarrow> route_key list" where
  "capture_loop [] seen = []"
| "capture_loop (c # cs) seen =
     (if k_value c = [] \<or> c \<in> set seen then capture_loop cs seen
      else c # capture_loop cs (c # seen))"

definition captured_work_identities :: "'f payloads \<Rightarrow> provider_identity_evidence list" where
  "captured_work_identities ps =
     map (\<lambda>c. \<lparr>ev_provider = k_provider c, ev_route = c, ev_provenance = AnchorPayload\<rparr>)
       (capture_loop (concat (map (identity_candidates \<circ> snd) ps)) [])"

definition detail_from_source :: "(string \<Rightarrow> 'f option) \<Rightarrow> 'f source_provider_data \<Rightarrow> 'f normalized_work_detail" where
  "detail_from_source parse_f src =
     \<lparr>d_title = None, d_subtitle = None, d_original_title = None, d_author_name = None,
      d_description = sd_description src, d_year = None, d_series_name = sd_series_name src,
      d_series_position = (case sd_series_position src of Some s \<Rightarrow> parse_f s | None \<Rightarrow> None),
      d_genres = sd_genres src, d_language = None, d_page_count = sd_page_count src,
      d_duration_seconds = None, d_publisher = sd_publisher src, d_publish_date = None,
      d_original_publish_date = None, d_unclassified_publish_date = None, d_hc_key = None, d_gr_key = None,
      d_gr_work_key = None, d_ol_key = None, d_isbn_13 = sd_isbn src, d_asin = sd_asin src,
      d_narrator = None, d_narration_type = None, d_abridged = None, d_rating = sd_rating src,
      d_rating_count = sd_rating_count src, d_cover_url = sd_cover_url src,
      d_additional_isbns = [], d_additional_asins = []\<rparr>"

section \<open>Database reads\<close>

definition get_work :: "int \<Rightarrow> int \<Rightarrow> 'f spine \<Rightarrow> enrichment_error + 'f work" where
  "get_work user_id work_id s =
     (case db_works (sp_db s) (work_id, user_id) of
        None \<Rightarrow> Inl (EDb DbNotFound)
      | Some row \<Rightarrow> (case read_work row of None \<Rightarrow> Inl EUnreadableRow | Some w \<Rightarrow> Inr w))"

definition get_merge_generation :: "int \<Rightarrow> int \<Rightarrow> 'f spine \<Rightarrow> enrichment_error + int" where
  "get_merge_generation user_id work_id s =
     (case db_works (sp_db s) (work_id, user_id) of
        None \<Rightarrow> Inl (EDb DbNotFound)
      | Some row \<Rightarrow> Inr (row_merge_generation row))"

definition ALL_FIELDS :: "work_field list" where
  "ALL_FIELDS = [FTitle, FSortTitle, FSubtitle, FOriginalTitle, FAuthorName, FDescription, FYear, FSeriesName,
     FSeriesPosition, FGenres, FLanguage, FPageCount, FDurationSeconds, FPublisher, FPublishDate,
     FOriginalPublishDate, FOlKey, FHcKey, FGrKey, FIsbn13, FAsin, FNarrator, FNarrationType, FAbridged,
     FRating, FRatingCount, FCoverUrl]"

text \<open>The join with \<^verbatim>\<open>works\<close>: rows of the work, when the user owns it.\<close>

definition list_work_provenance :: "int \<Rightarrow> int \<Rightarrow> 'f spine \<Rightarrow> field_provenance list" where
  "list_work_provenance user_id work_id s =
     (if db_works (sp_db s) (work_id, user_id) = None then []
      else List.map_filter (\<lambda>f. db_provenance (sp_db s) (work_id, f)) ALL_FIELDS)"

definition content_changed :: "'f work \<Rightarrow> 'f work \<Rightarrow> bool" where
  "content_changed before after \<longleftrightarrow>
     before\<lparr>w_enrichment_status := w_enrichment_status after, w_enriched_at := w_enriched_at after,
            w_enrichment_source := w_enrichment_source after\<rparr> \<noteq> after"

section \<open>Storing a merge\<close>

text \<open>\<^verbatim>\<open>apply_enrichment_merge\<close>, with the history of what was stored.\<close>

definition apply_merge ::
  "'f spine_env \<Rightarrow> 'f work \<Rightarrow> 'f apply_request \<Rightarrow> 'f spine \<Rightarrow> (db_error + apply_outcome) \<times> 'f spine" where
  "apply_merge env w req s =
     (case apply_enrichment_merge (en_identity_key env) (en_now env) req (sp_db s) of
        (res, db') \<Rightarrow>
          (res, s\<lparr>sp_db := db',
                  sp_history := (case (res, db_works (sp_db s) (a_work_id req, a_user_id req)) of
                      (Inr Applied, Some row) \<Rightarrow> sp_history s @ [(w, row)]
                    | _ \<Rightarrow> sp_history s)\<rparr>))"

text \<open>The two flags of \<^verbatim>\<open>EnrichmentResult\<close> that every pass leaves false, \<^verbatim>\<open>identity_not_found\<close> and \<^verbatim>\<open>llm_task_spawned\<close>, are left out.\<close>

record 'f enrichment_result =
  er_enrichment_status :: enrichment_status
  er_enrichment_source :: "string option"
  er_work :: "'f work"
  er_merge_deferred :: bool
  er_provider_outcomes :: "(metadata_provider \<times> outcome_class) list"
  er_cover_resolution :: "cover_resolution option"
  er_audiobook_cover_resolution :: "cover_resolution option"
  er_changed :: bool
  er_dissents :: "field_dissent list"
  er_attempted :: bool
  er_captured_provider_identity :: "provider_identity_evidence list"
  er_captured_route_proposals :: "route_key list"
  er_provider_chase_attempted :: bool
  er_search_leg_fired :: bool
  er_ledger_accounting :: ledger_pass_accounting

section \<open>Reuse of a discovery\<close>

text \<open>After the cache gave payloads that fit; \<^const>\<open>None\<close> falls through to the network.\<close>

definition reuse_merge ::
  "'f spine_env \<Rightarrow> 'f world \<Rightarrow> int \<Rightarrow> int \<Rightarrow> 'f work \<Rightarrow> 'f payloads \<Rightarrow> 'f spine
     \<Rightarrow> 'f enrichment_result option \<times> 'f spine" where
  "reuse_merge env world user_id work_id work ps s0 =
     (let s1 = world AtReuseGeneration s0 in
      case get_merge_generation user_id work_id s1 of
        Inl _ \<Rightarrow> (None, s1)
      | Inr generation \<Rightarrow>
          (let s2 = world AtReuseProvenance s1 in
           case merge_from_cached (en_lower env) (en_show_f env) (en_now env) (en_priorities env) work ps
                  (list_work_provenance user_id work_id s2) (w_language work) of
             Inl _ \<Rightarrow> (None, s2)
           | Inr out \<Rightarrow>
               (case apply_merge env work (build_apply_request out user_id work_id generation) (world AtReuseApply s2) of
                  (Inl _, s3) \<Rightarrow> (None, s3)
                | (Inr Superseded, s3) \<Rightarrow> (None, s3)
                | (Inr _, s3) \<Rightarrow>
                    (case persist_dissents user_id work_id (generation + 1) (o_dissents out) (world AtReuseDissents s3) of
                       (dissents, s4) \<Rightarrow>
                         (let s5 = world AtReuseResult s4 in
                          case get_work user_id work_id s5 of
                            Inl _ \<Rightarrow> (None, s5)
                          | Inr result_work \<Rightarrow>
                              (Some \<lparr>er_enrichment_status = o_enrichment_status out,
                                     er_enrichment_source = o_enrichment_source out,
                                     er_work = result_work, er_merge_deferred = False, er_provider_outcomes = [],
                                     er_cover_resolution = o_cover_resolution out,
                                     er_audiobook_cover_resolution = o_audiobook_cover_resolution out,
                                     er_changed = (content_changed work result_work \<or> o_cover_resolution out \<noteq> None
                                        \<or> o_audiobook_cover_resolution out \<noteq> None),
                                     er_dissents = dissents, er_attempted = True,
                                     er_captured_provider_identity = captured_work_identities ps,
                                     er_captured_route_proposals = [],
                                     er_provider_chase_attempted = False, er_search_leg_fired = False,
                                     er_ledger_accounting = Idle\<rparr>,
                               observe_author_names env user_id work_id ps s5))))))"

definition reuse ::
  "'f spine_env \<Rightarrow> 'f world \<Rightarrow> int \<Rightarrow> int \<Rightarrow> string option \<Rightarrow> 'f work \<Rightarrow> 'f spine
     \<Rightarrow> 'f enrichment_result option \<times> 'f spine" where
  "reuse env world user_id work_id candidate_id work s =
     (case (candidate_id, en_transport_ttl env) of
        (Some cid, Some ttl) \<Rightarrow>
          (case cache_take ttl (en_now env) user_id cid (sp_transport s) of
             (taken, cache) \<Rightarrow>
               (let s' = s\<lparr>sp_transport := cache\<rparr> in
                case taken of
                  None \<Rightarrow> (None, s')
                | Some ps \<Rightarrow>
                    if \<not> cached_payloads_match_work work ps then (None, s')
                    else reuse_merge env world user_id work_id work ps
                           (s'\<lparr>sp_cached_calls := sp_cached_calls s' @ map (\<lambda>(p, d). (record_key p, work_id)) ps\<rparr>)))
      | _ \<Rightarrow> (None, s))"

section \<open>Rebuilding the outcomes\<close>

fun reconstruct ::
  "'f spine_env \<Rightarrow> 'f world \<Rightarrow> int \<Rightarrow> int \<Rightarrow> (metadata_provider \<times> 'f normalized_work_detail provider_outcome) list
     \<Rightarrow> 'f spine \<Rightarrow> (enrichment_error + (metadata_provider \<times> 'f reconstructed_outcome) list) \<times> 'f spine" where
  "reconstruct env world user_id work_id [] s = (Inr [], s)"
| "reconstruct env world user_id work_id ((p, oc) # rest) s =
     (case (case oc of
              OSuccess in_mem \<Rightarrow>
                (let s' = world (AtReadBack p) s in
                 (case get_retry_state user_id work_id p (q_retry (sp_queue s')) of
                    None \<Rightarrow> Inr (Some in_mem)
                  | Some st \<Rightarrow>
                      (case st_payload st of
                         None \<Rightarrow> Inr (Some in_mem)
                       | Some json \<Rightarrow>
                           (case env_from_json (en_queue env) json of
                              None \<Rightarrow> Inl (CorruptRetryPayload work_id p)
                            | Some detail \<Rightarrow> Inr (Some detail))), s'))
            | _ \<Rightarrow> (Inr None, s)) of
        (Inl e, s') \<Rightarrow> (Inl e, s')
      | (Inr pl, s') \<Rightarrow>
          (case reconstruct env world user_id work_id rest s' of
             (Inl e, s'') \<Rightarrow> (Inl e, s'')
           | (Inr results, s'') \<Rightarrow>
               (Inr ((p, \<lparr>outcome_class = outcome_class_of oc, payload = pl\<rparr>) # results), s'')))"

section \<open>The compare-and-set loop\<close>

record 'f pass =
  ps_mode :: enrichment_mode
  ps_reconstructed :: "(metadata_provider \<times> 'f reconstructed_outcome) list"
  ps_model :: priority_model

definition MAX_CAS_ATTEMPTS :: nat where "MAX_CAS_ATTEMPTS = 3"

text \<open>
  The attempts from number \<open>attempt\<close> on, with \<open>n\<close> left. The result of a stored merge is the output, the
  work it was computed from, the work read back and the stamped dissents.
\<close>

fun cas_loop ::
  "'f spine_env \<Rightarrow> 'f world \<Rightarrow> int \<Rightarrow> int \<Rightarrow> 'f pass \<Rightarrow> nat \<Rightarrow> nat \<Rightarrow> 'f work \<Rightarrow> int \<Rightarrow> field_provenance list
     \<Rightarrow> 'f spine
     \<Rightarrow> (enrichment_error + 'f merge_output \<times> 'f work \<times> 'f work \<times> field_dissent list) \<times> 'f spine" where
  "cas_loop env world user_id work_id pass attempt 0 work generation provenance s = (Inl MergeSuperseded, s)"
| "cas_loop env world user_id work_id pass attempt (Suc n) work generation provenance s =
     (case merge (en_lower env) (en_show_f env) (en_now env)
             \<lparr>current_work = work, current_provenance = provenance, provider_results = ps_reconstructed pass,
              merge_mode = ps_mode pass, in_priority_model = ps_model pass\<rparr> of
        Inl e \<Rightarrow> (Inl (EMerge e), s)
      | Inr merged \<Rightarrow>
          (let out = merged\<lparr>o_enrichment_status := resolve_status (o_enrichment_status merged) (ps_reconstructed pass)\<rparr> in
           case apply_merge env work (build_apply_request out user_id work_id generation) (world (AtApply attempt) s) of
             (Inl e, s1) \<Rightarrow> (Inl (EDb e), s1)
           | (Inr Superseded, s1) \<Rightarrow>
               if n = 0 then (Inl MergeSuperseded, s1)
               else
                 (let s2 = world (AtRetryWork attempt) s1 in
                  case get_work user_id work_id s2 of
                    Inl e \<Rightarrow> (Inl e, s2)
                  | Inr work' \<Rightarrow>
                      (let s3 = world (AtRetryGeneration attempt) s2 in
                       case get_merge_generation user_id work_id s3 of
                         Inl e \<Rightarrow> (Inl e, s3)
                       | Inr generation' \<Rightarrow>
                           (let s4 = world (AtRetryProvenance attempt) s3 in
                            cas_loop env world user_id work_id pass (Suc attempt) n work' generation'
                              (list_work_provenance user_id work_id s4) s4)))
           | (Inr _, s1) \<Rightarrow>
               (case persist_dissents user_id work_id (generation + 1) (o_dissents out) (world (AtDissents attempt) s1) of
                  (dissents, s2) \<Rightarrow>
                    (let s3 = world (AtResult attempt) s2 in
                     case get_work user_id work_id s3 of
                       Inl e \<Rightarrow> (Inl e, s3)
                     | Inr result_work \<Rightarrow> (Inr (out, work, result_work, dissents), s3)))))"

section \<open>The pass\<close>

definition successes :: "(metadata_provider \<times> 'f normalized_work_detail provider_outcome) list \<Rightarrow> 'f payloads" where
  "successes outcomes =
     List.map_filter (\<lambda>(p, oc). case oc of OSuccess d \<Rightarrow> Some (p, d) | _ \<Rightarrow> None) outcomes"

text \<open>The injected source data of the work, taken from the store, as one more outcome.\<close>

definition append_source ::
  "'f spine_env \<Rightarrow> int \<Rightarrow> int \<Rightarrow> (metadata_provider \<times> 'f normalized_work_detail provider_outcome) list \<Rightarrow> 'f spine
     \<Rightarrow> (metadata_provider \<times> 'f normalized_work_detail provider_outcome) list \<times> 'f spine" where
  "append_source env user_id work_id outcomes s =
     (case find (\<lambda>(u, w, d). u = user_id \<and> w = work_id) (sp_sources s) of
        None \<Rightarrow> (outcomes, s)
      | Some (_, _, d) \<Rightarrow>
          (AList.update Readarr (OSuccess (detail_from_source (en_parse_f env) d)) outcomes,
           s\<lparr>sp_sources := filter (\<lambda>(u, w, d). \<not> (u = user_id \<and> w = work_id)) (sp_sources s)\<rparr>))"

definition finish_pass ::
  "'f spine_env \<Rightarrow> 'f world \<Rightarrow> int \<Rightarrow> int \<Rightarrow> enrichment_mode \<Rightarrow> int
     \<Rightarrow> 'f normalized_work_detail scatter_gather_result
     \<Rightarrow> (metadata_provider \<times> 'f normalized_work_detail provider_outcome) list
     \<Rightarrow> 'f work \<Rightarrow> field_provenance list \<Rightarrow> 'f spine
     \<Rightarrow> (enrichment_error + 'f enrichment_result) \<times> 'f spine" where
  "finish_pass env world user_id work_id mode generation scatter outcomes cur provenance s =
     (let captured = captured_work_identities (successes outcomes) @ sg_search_provider_identity scatter;
          classes = map (\<lambda>(p, oc). (p, outcome_class_of oc)) outcomes;
          merge_deferred = (sg_deferred scatter \<and> mode = Background)
      in if merge_deferred
         then
           (let s1 = world AtDeferred s in
            case get_work user_id work_id s1 of
              Inl e \<Rightarrow> (Inl e, s1)
            | Inr result_work \<Rightarrow>
                (Inr \<lparr>er_enrichment_status = w_enrichment_status result_work,
                      er_enrichment_source = w_enrichment_source result_work, er_work = result_work,
                      er_merge_deferred = True, er_provider_outcomes = classes, er_cover_resolution = None,
                      er_audiobook_cover_resolution = None, er_changed = False, er_dissents = [],
                      er_attempted = True, er_captured_provider_identity = captured,
                      er_captured_route_proposals = sg_search_route_proposals scatter,
                      er_provider_chase_attempted = sg_provider_chase_attempted scatter,
                      er_search_leg_fired = sg_search_leg_fired scatter,
                      er_ledger_accounting = sg_ledger_accounting scatter\<rparr>,
                 observe_author_names env user_id work_id (successes outcomes) s1))
         else
           (case reconstruct env world user_id work_id outcomes s of
              (Inl e, s1) \<Rightarrow> (Inl e, s1)
            | (Inr reconstructed, s1) \<Rightarrow>
                (case cas_loop env world user_id work_id
                        \<lparr>ps_mode = mode, ps_reconstructed = reconstructed,
                         ps_model = engine_priority_model (en_lower env) (en_priorities env) (w_language cur)\<rparr>
                        0 MAX_CAS_ATTEMPTS cur generation provenance s1 of
                   (Inl e, s2) \<Rightarrow> (Inl e, s2)
                 | (Inr (out, work, result_work, dissents), s2) \<Rightarrow>
                     (let changed = (content_changed work result_work \<or> o_cover_resolution out \<noteq> None
                                     \<or> o_audiobook_cover_resolution out \<noteq> None)
                      in (Inr \<lparr>er_enrichment_status = o_enrichment_status out,
                               er_enrichment_source = o_enrichment_source out, er_work = result_work,
                               er_merge_deferred = False, er_provider_outcomes = classes,
                               er_cover_resolution = o_cover_resolution out,
                               er_audiobook_cover_resolution = o_audiobook_cover_resolution out,
                               er_changed = changed, er_dissents = dissents,
                               er_attempted = (outcomes \<noteq> [] \<or> changed),
                               er_captured_provider_identity = captured,
                               er_captured_route_proposals = sg_search_route_proposals scatter,
                               er_provider_chase_attempted = sg_provider_chase_attempted scatter,
                               er_search_leg_fired = sg_search_leg_fired scatter,
                               er_ledger_accounting = sg_ledger_accounting scatter\<rparr>,
                          observe_author_names env user_id work_id (successes outcomes) s2)))))"

definition network_pass ::
  "'f spine_env \<Rightarrow> 'f world \<Rightarrow> int \<Rightarrow> int \<Rightarrow> enrichment_mode \<Rightarrow> freshness \<Rightarrow> 'f work \<Rightarrow> 'f spine
     \<Rightarrow> (enrichment_error + 'f enrichment_result) \<times> 'f spine" where
  "network_pass env world user_id work_id mode fresh work s0 =
     (let s1 = world AtGeneration s0 in
      case get_merge_generation user_id work_id s1 of
        Inl e \<Rightarrow> (Inl e, s1)
      | Inr generation \<Rightarrow>
          (let s2 = world AtDispatch s1 in
           case dispatch_enrichment (en_queue env) user_id work_id (w_language work)
                  \<lparr>cx_mode = mode, cx_freshness = fresh, cx_search_only = False\<rparr> (sp_queue s2) of
             (Inl e, q) \<Rightarrow> (Inl (EQueue e), s2\<lparr>sp_queue := q\<rparr>)
           | (Inr scatter, q) \<Rightarrow>
               (case append_source env user_id work_id (sg_outcomes scatter) (s2\<lparr>sp_queue := q\<rparr>) of
                  (outcomes, s3) \<Rightarrow>
                    (let s4 = world AtFreshWork s3 in
                     case get_work user_id work_id s4 of
                       Inl e \<Rightarrow> (Inl e, s4)
                     | Inr cur \<Rightarrow>
                         (let s5 = world AtFreshProvenance s4 in
                          finish_pass env world user_id work_id mode generation scatter outcomes cur
                            (list_work_provenance user_id work_id s5) s5)))))"

definition enrich_work ::
  "'f spine_env \<Rightarrow> 'f world \<Rightarrow> int \<Rightarrow> int \<Rightarrow> enrichment_mode \<Rightarrow> string option \<Rightarrow> freshness \<Rightarrow> 'f spine
     \<Rightarrow> (enrichment_error + 'f enrichment_result) \<times> 'f spine" where
  "enrich_work env world user_id work_id mode candidate_id fresh s0 =
     (let s1 = world AtWork s0 in
      case get_work user_id work_id s1 of
        Inl e \<Rightarrow> (Inl (if e = EDb DbNotFound then WorkNotFound else e), s1)
      | Inr work \<Rightarrow>
          (case reuse env world user_id work_id candidate_id work s1 of
             (Some result, s2) \<Rightarrow> (Inr result, s2)
           | (None, s2) \<Rightarrow> network_pass env world user_id work_id mode fresh work s2))"

section \<open>The other entry points\<close>

record identity_route_search_result =
  rs_captured_provider_identity :: "provider_identity_evidence list"
  rs_captured_route_proposals :: "route_key list"
  rs_provider_chase_attempted :: bool
  rs_search_leg_fired :: bool
  rs_ledger_accounting :: ledger_pass_accounting

definition search_work_routes ::
  "'f spine_env \<Rightarrow> 'f world \<Rightarrow> int \<Rightarrow> int \<Rightarrow> 'f spine \<Rightarrow> (enrichment_error + identity_route_search_result) \<times> 'f spine" where
  "search_work_routes env world user_id work_id s0 =
     (let s1 = world AtWork s0 in
      case get_work user_id work_id s1 of
        Inl e \<Rightarrow> (Inl (if e = EDb DbNotFound then WorkNotFound else e), s1)
      | Inr work \<Rightarrow>
          (let s2 = world AtDispatch s1 in
           case dispatch_enrichment (en_queue env) user_id work_id (w_language work)
                  \<lparr>cx_mode = Background, cx_freshness = Bypass, cx_search_only = True\<rparr> (sp_queue s2) of
             (Inl e, q) \<Rightarrow> (Inl (EQueue e), s2\<lparr>sp_queue := q\<rparr>)
           | (Inr r, q) \<Rightarrow>
               (Inr \<lparr>rs_captured_provider_identity = sg_search_provider_identity r,
                     rs_captured_route_proposals = sg_search_route_proposals r,
                     rs_provider_chase_attempted = sg_provider_chase_attempted r,
                     rs_search_leg_fired = sg_search_leg_fired r,
                     rs_ledger_accounting = sg_ledger_accounting r\<rparr>, s2\<lparr>sp_queue := q\<rparr>)))"

fun persisted_results ::
  "'f spine_env \<Rightarrow> int \<Rightarrow> provider_retry_state list \<Rightarrow> (metadata_provider \<times> 'f reconstructed_outcome) list
     \<Rightarrow> enrichment_error + (metadata_provider \<times> 'f reconstructed_outcome) list" where
  "persisted_results env work_id [] acc = Inr acc"
| "persisted_results env work_id (st # sts) acc =
     (case st_payload st of
        None \<Rightarrow> persisted_results env work_id sts acc
      | Some json \<Rightarrow>
          (case env_from_json (en_queue env) json of
             None \<Rightarrow> Inl (CorruptRetryPayload work_id (st_provider st))
           | Some d \<Rightarrow>
               persisted_results env work_id sts
                 (AList.update (st_provider st) \<lparr>outcome_class = Success, payload = Some d\<rparr> acc)))"

definition reselect_covers_from_persisted_payloads ::
  "'f spine_env \<Rightarrow> int \<Rightarrow> int \<Rightarrow> 'f spine \<Rightarrow> enrichment_error + cover_resolution option \<times> cover_resolution option" where
  "reselect_covers_from_persisted_payloads env user_id work_id s =
     (case get_work user_id work_id s of
        Inl e \<Rightarrow> Inl (if e = EDb DbNotFound then WorkNotFound else e)
      | Inr work \<Rightarrow>
          (case persisted_results env work_id (list_retry_states user_id work_id (q_retry (sp_queue s))) [] of
             Inl e \<Rightarrow> Inl e
           | Inr results \<Rightarrow>
               (case merge (en_lower env) (en_show_f env) (en_now env)
                       \<lparr>current_work = work, current_provenance = list_work_provenance user_id work_id s,
                        provider_results = results, merge_mode = Background,
                        in_priority_model = engine_priority_model (en_lower env) (en_priorities env) (w_language work)\<rparr> of
                  Inl e \<Rightarrow> Inl (EMerge e)
                | Inr out \<Rightarrow> Inr (o_cover_resolution out, o_audiobook_cover_resolution out))))"

text \<open>
  \<^verbatim>\<open>reset_for_manual_refresh\<close> once identities have moved to the identity tables (the identity columns of the row
  stay as they are), and \<^verbatim>\<open>pre_inject_source_data\<close>.
\<close>

definition reset_for_manual_refresh :: "int \<Rightarrow> int \<Rightarrow> 'f spine \<Rightarrow> (enrichment_error + unit) \<times> 'f spine" where
  "reset_for_manual_refresh user_id work_id s =
     (case db_works (sp_db s) (work_id, user_id) of
        None \<Rightarrow> (Inl (EDb DbNotFound), s)
      | Some row \<Rightarrow>
          (Inr (),
           s\<lparr>sp_db := (sp_db s)\<lparr>db_works := (db_works (sp_db s))((work_id, user_id) \<mapsto>
                 row\<lparr>row_work := (row_work row)\<lparr>w_enrichment_status := Unenriched, w_enriched_at := None\<rparr>,
                     row_merge_generation := row_merge_generation row + 1\<rparr>)\<rparr>,
             sp_queue := (sp_queue s)\<lparr>q_retry := reset_all_retry_states user_id work_id (q_retry (sp_queue s))\<rparr>\<rparr>))"

definition pre_inject_source_data :: "int \<Rightarrow> int \<Rightarrow> 'f source_provider_data \<Rightarrow> 'f spine \<Rightarrow> 'f spine" where
  "pre_inject_source_data user_id work_id d s =
     s\<lparr>sp_sources := (user_id, work_id, d) # filter (\<lambda>(u, w, d). \<not> (u = user_id \<and> w = work_id)) (sp_sources s)\<rparr>"

section \<open>User edits\<close>

record 'f user_fields_request =
  uf_title :: "string option"
  uf_author_name :: "string option"
  uf_normalized_title :: "string option"
  uf_normalized_author :: "string option"
  uf_series_name :: "string option option"
  uf_series_position :: "'f option option"
  uf_monitor_ebook :: "bool option"
  uf_monitor_audiobook :: "bool option"

text \<open>
  \<^verbatim>\<open>update_work_user_fields\<close>: the values missing in the request are read from the row; the normalised
  keys of the request are not written.
\<close>

definition update_work_user_fields ::
  "int \<Rightarrow> int \<Rightarrow> 'f user_fields_request \<Rightarrow> 'f spine \<Rightarrow> (enrichment_error + 'f work) \<times> 'f spine" where
  "update_work_user_fields user_id work_id req s =
     (case (get_work user_id work_id s, db_works (sp_db s) (work_id, user_id)) of
        (Inr cur, Some row) \<Rightarrow>
          (let enrichable_changed = (uf_title req \<noteq> None \<or> uf_author_name req \<noteq> None
                 \<or> uf_series_name req \<noteq> None \<or> uf_series_position req \<noteq> None);
               row' = row\<lparr>row_work := (row_work row)\<lparr>
                   w_title := coalesce (uf_title req) (w_title cur),
                   w_author_name := coalesce (uf_author_name req) (w_author_name cur),
                   w_series_name := coalesce (uf_series_name req) (w_series_name cur),
                   w_series_position := coalesce (uf_series_position req) (w_series_position cur),
                   w_monitor_ebook := coalesce (uf_monitor_ebook req) (w_monitor_ebook cur),
                   w_monitor_audiobook := coalesce (uf_monitor_audiobook req) (w_monitor_audiobook cur)\<rparr>,
                 row_merge_generation := row_merge_generation row + (if enrichable_changed then 1 else 0)\<rparr>;
               s' = s\<lparr>sp_db := (sp_db s)\<lparr>db_works := (db_works (sp_db s))((work_id, user_id) \<mapsto> row')\<rparr>\<rparr>
           in (get_work user_id work_id s', s'))
      | (Inl e, _) \<Rightarrow> (Inl e, s)
      | (_, None) \<Rightarrow> (Inl (EDb DbNotFound), s))"

end
