(* ===== verification/QueueGuarantees.thy ===== *)
theory QueueGuarantees
  imports ProviderQueue
begin

text \<open>
  What a pass of the provider queue guarantees: which providers it fetches, that every outcome is
  recorded, that failing fetches are bounded by the retry budget and pauses are free, and what the
  flags of the result mean.
\<close>

section \<open>The rows a pass writes\<close>

definition known :: "retry_db \<Rightarrow> int \<Rightarrow> int \<Rightarrow> bool" where
  "known db u w \<longleftrightarrow> owns db u w \<and> u \<in> user_ids db"

definition consuming :: "'p provider_outcome \<Rightarrow> bool" where
  "consuming oc = (case oc of OWillRetry reason _ \<Rightarrow> \<not> is_pause reason | _ \<Rightarrow> False)"

definition old_attempts :: "retry_row option \<Rightarrow> int" where
  "old_attempts old = (case old of Some r \<Rightarrow> attempts r | None \<Rightarrow> 0)"

lemma old_attempts_simps [simp]: "old_attempts None = 0" "old_attempts (Some r) = attempts r"
  by (simp_all add: old_attempts_def)

definition next_row :: "('p \<Rightarrow> string) \<Rightarrow> int \<Rightarrow> int \<Rightarrow> 'p provider_outcome \<Rightarrow> retry_row option \<Rightarrow> retry_row" where
  "next_row to_json now u oc old =
     \<lparr>row_user_id = (case old of Some r \<Rightarrow> row_user_id r | None \<Rightarrow> u),
      attempts = old_attempts old + (if consuming oc then 1 else 0),
      last_outcome = Some (outcome_class_of oc), last_attempt_at = Some now,
      next_attempt_at = (case oc of OWillRetry _ t \<Rightarrow> Some t | _ \<Rightarrow> None),
      normalized_payload_json = (case oc of OSuccess d \<Rightarrow> Some (to_json d) | _ \<Rightarrow> None)\<rparr>"

definition put_row :: "retry_key \<Rightarrow> retry_row \<Rightarrow> retry_db \<Rightarrow> retry_db" where
  "put_row key r db = db\<lparr>retry_rows := AList.update key r (retry_rows db)\<rparr>"

lemma put_row_simps [simp]:
  "user_ids (put_row key r db) = user_ids db" "work_rows (put_row key r db) = work_rows db"
  "map_of (retry_rows (put_row key r db)) = (map_of (retry_rows db))(key \<mapsto> r)"
  by (simp_all add: put_row_def update_conv')

lemma put_row_owns [simp]: "owns (put_row key r db) = owns db" "known (put_row key r db) = known db"
  by (simp_all add: owns_def known_def fun_eq_iff)

lemma known_work: "known db u w \<Longrightarrow> map_of (work_rows db) w \<noteq> None"
  by (auto simp: known_def owns_def)

lemma upsert_known:
  assumes "known db u w"
  shows "upsert_row u (w, p) fresh upd db =
    Inr (put_row (w, p) (case map_of (retry_rows db) (w, p) of Some r \<Rightarrow> upd r | None \<Rightarrow> fresh) db)"
  using assms known_work [OF assms] by (auto simp: upsert_row_def put_row_def known_def split: option.split)

lemma read_back_known:
  "known db u w \<Longrightarrow>
     \<exists>st. read_back u (w, p) (Inr (put_row (w, p) r db)) db = (Inr st, put_row (w, p) r db)"
  by (simp add: read_back_def get_retry_state_def known_def)

lemma overwritten_row:
  fixes r :: retry_row
  shows "r\<lparr>last_outcome := a, normalized_payload_json := b, next_attempt_at := c, last_attempt_at := d\<rparr>
    = \<lparr>row_user_id = row_user_id r, attempts = attempts r, last_outcome = a, last_attempt_at = d,
       next_attempt_at = c, normalized_payload_json = b\<rparr>"
  by (cases r) simp

lemma persist_known:
  assumes "known db u w"
  shows "persist_phase1_outcome to_json now u w p oc db =
     (Inr (), put_row (w, p) (next_row to_json now u oc (map_of (retry_rows db) (w, p))) db)"
proof (cases oc)
  case (OWillRetry reason t)
  let ?old = "map_of (retry_rows db) (w, p)"
  have rows: "(case ?old of Some r \<Rightarrow> r\<lparr>attempts := attempts r + 1, next_attempt_at := Some t, normalized_payload_json := None,
        last_attempt_at := Some now, last_outcome := Some WillRetry\<rparr>
      | None \<Rightarrow> \<lparr>row_user_id = u, attempts = 1, last_outcome = Some WillRetry, last_attempt_at = Some now,
           next_attempt_at = Some t, normalized_payload_json = None\<rparr>) = next_row to_json now u oc ?old" if "\<not> is_pause reason"
    using that OWillRetry by (simp add: next_row_def old_attempts_def consuming_def split: option.split)
  have paused: "(case ?old of Some r \<Rightarrow> r\<lparr>next_attempt_at := Some t, normalized_payload_json := None,
        last_attempt_at := Some now, last_outcome := Some WillRetry\<rparr>
      | None \<Rightarrow> \<lparr>row_user_id = u, attempts = 0, last_outcome = Some WillRetry, last_attempt_at = Some now,
           next_attempt_at = Some t, normalized_payload_json = None\<rparr>) = next_row to_json now u oc ?old" if "is_pause reason"
    using that OWillRetry by (simp add: next_row_def old_attempts_def consuming_def split: option.split)
  obtain st where "read_back u (w, p) (Inr (put_row (w, p) (next_row to_json now u oc ?old) db)) db
      = (Inr st, put_row (w, p) (next_row to_json now u oc ?old) db)"
    using read_back_known [OF assms] by blast
  then show ?thesis
    using rows paused OWillRetry
    by (simp add: persist_phase1_outcome_def record_will_retry_def record_will_retry_paused_def upsert_known [OF assms])
qed (use assms in \<open>simp_all add: persist_phase1_outcome_def record_terminal_outcome_def validate_terminal_def
    is_phase2_terminal_def upsert_known next_row_def consuming_def overwritten_row split: option.split\<close>)

section \<open>Budget\<close>

text \<open>
  How many more failing fetches a provider may make: none once its standing is final, otherwise one
  more than the attempts still free below the last.
\<close>

definition budget_left :: "u32 \<Rightarrow> int \<Rightarrow> int \<Rightarrow> metadata_provider \<Rightarrow> retry_db \<Rightarrow> nat" where
  "budget_left m u w p db =
     (if existing_terminal_outcome u w p db \<noteq> None then 0
      else Suc (unat m - 1 - unat (prior_attempts u w p db)))"

lemma prior_known: "known db u w \<Longrightarrow>
    prior_attempts u w p db = word_of_int (old_attempts (map_of (retry_rows db) (w, p)))"
  by (simp add: prior_attempts_def get_retry_state_def known_def old_attempts_def row_to_retry_state_def
      split: option.split)

lemma terminal_known: "known db u w \<Longrightarrow>
    existing_terminal_outcome u w p db =
      (case map_of (retry_rows db) (w, p) of
         Some r \<Rightarrow> (case last_outcome r of Some oc \<Rightarrow> if is_phase2_terminal oc then Some oc else None | None \<Rightarrow> None)
       | None \<Rightarrow> None)"
  by (simp add: existing_terminal_outcome_def get_retry_state_def known_def row_to_retry_state_def split: option.split)

lemma phase2_terminal_iff: "is_phase2_terminal oc \<longleftrightarrow> oc \<noteq> WillRetry"
  by (cases oc) (simp_all add: is_phase2_terminal_def)

lemma consuming_WillRetry: "consuming oc \<Longrightarrow> outcome_class_of oc = WillRetry"
  by (cases oc) (simp_all add: consuming_def)

text \<open>One recorded outcome: the budget never grows, and a consuming one spends of it.\<close>

lemma budget_after:
  assumes k: "known db u w"
    and open': "existing_terminal_outcome u w p db = None"
    and oc'_def: "oc' = apply_budget_rules u w p m oc db"
    and db'_def: "db' = put_row (w, p) (next_row to_json now u oc' (map_of (retry_rows db) (w, p))) db"
  shows "budget_left m u w p db' \<le> budget_left m u w p db"
    and "consuming oc \<Longrightarrow> budget_left m u w p db' < budget_left m u w p db"
proof -
  let ?n = "prior_attempts u w p db"
  have k': "known db' u w" using k by (simp add: db'_def)
  have row: "map_of (retry_rows db') (w, p) = Some (next_row to_json now u oc' (map_of (retry_rows db) (w, p)))"
    by (simp add: db'_def)
  have before: "budget_left m u w p db = Suc (unat m - 1 - unat ?n)"
    using open' by (simp add: budget_left_def)
  have after: "budget_left m u w p db' =
      (if outcome_class_of oc' \<noteq> WillRetry then 0
       else Suc (unat m - 1 - unat (?n + (if consuming oc' then 1 else 0))))"
    using prior_known [OF k'] prior_known [OF k] terminal_known [OF k', of p] row
    by (simp add: budget_left_def next_row_def phase2_terminal_iff)
  have spend: "unat (?n + 1) = unat ?n + 1 \<and> unat ?n + 1 < unat m" if c: "consuming oc'"
  proof -
    obtain reason t where oc': "oc' = OWillRetry reason t" "\<not> is_pause reason"
      using c by (cases oc') (auto simp: consuming_def)
    then have "\<not> saturating_add ?n 1 \<ge> m"
      unfolding oc'_def by (auto simp: apply_budget_rules_def split: provider_outcome.splits if_splits)
    then have less: "min (unat ?n + 1) (2 ^ 32 - 1) < unat m"
      by (simp add: word_le_nat_alt not_le unat_saturating_add)
    have "unat m \<le> 2 ^ 32 - 1" using unsigned_less [of m, where ?'a = nat] by simp
    then have "unat ?n + 1 < unat m" "unat ?n + 1 < 2 ^ 32" using less by (simp_all add: min_def split: if_splits)
    then show ?thesis by (simp add: unat_word_ariths)
  qed
  show "budget_left m u w p db' \<le> budget_left m u w p db"
    unfolding before after using spend by auto
  show "budget_left m u w p db' < budget_left m u w p db" if "consuming oc"
  proof (cases "consuming oc'")
    case True
    then show ?thesis unfolding before after using spend [OF True] by auto
  next
    case False
    then have "outcome_class_of oc' \<noteq> WillRetry"
      using that unfolding oc'_def
      by (auto simp: apply_budget_rules_def consuming_def split: provider_outcome.splits if_splits)
    then show ?thesis unfolding before after by simp
  qed
qed

lemma budget_other: "p \<noteq> q \<Longrightarrow> budget_left m u w p (put_row (w, q) r db) = budget_left m u w p db"
  by (simp add: budget_left_def existing_terminal_outcome_def prior_attempts_def get_retry_state_def)

section \<open>Which providers a pass fetches\<close>

definition due ::
  "'p queue_env \<Rightarrow> int \<Rightarrow> int \<Rightarrow> enrichment_context \<Rightarrow> work_route list \<Rightarrow> queue_state
     \<Rightarrow> metadata_provider \<Rightarrow> anchor_query option" where
  "due env u w cx routes s p =
     (if env_applicable env p \<and> existing_terminal_outcome u w p (q_retry s) = None \<and> \<not> cx_search_only cx
      then derive_route_anchor_query p (usable_routes (plan_from_routes () routes)) else None)"

definition cache_hit ::
  "'p queue_env \<Rightarrow> int \<Rightarrow> int \<Rightarrow> enrichment_context \<Rightarrow> work_route list \<Rightarrow> queue_state
     \<Rightarrow> metadata_provider \<Rightarrow> 'p option" where
  "cache_hit env u w cx routes s p =
     (case due env u w cx routes s p of
        Some a \<Rightarrow> if cx_freshness cx = PreferCache then cached_success env p a (q_cache s) else None
      | None \<Rightarrow> None)"

definition missed_route ::
  "'p queue_env \<Rightarrow> int \<Rightarrow> int \<Rightarrow> (string \<times> string) option \<Rightarrow> work_route list \<Rightarrow> queue_state
     \<Rightarrow> metadata_provider \<Rightarrow> bool" where
  "missed_route env u w seed routes s p \<longleftrightarrow>
     env_applicable env p
     \<and> (derive_route_anchor_query p (usable_routes (plan_from_routes () routes)) = None
        \<or> existing_terminal_outcome u w p (q_retry s) = Some NotFound \<and> search_eligible env seed routes p)"

abbreviation entry_of where
  "entry_of env u w cx seed routes s \<equiv>
     (\<lambda>(p, m). map_option (\<lambda>a. \<lparr>d_provider = p, d_max_attempts = m, d_anchor = a,
                 d_search_eligible = search_eligible env seed routes p\<rparr>) (due env u w cx routes s p))"

lemma map_filter_snoc [simp]:
  "List.map_filter f (xs @ [x]) = List.map_filter f xs @ (case f x of Some y \<Rightarrow> [y] | None \<Rightarrow> [])"
  by (simp add: List.map_filter_def split: option.split)

lemma partition_one_dispatch:
  "pt_dispatch (partition_one env u w cx seed routes (usable_routes (plan_from_routes () routes)) s pt e)
     = pt_dispatch pt @ (case entry_of env u w cx seed routes s e of Some d \<Rightarrow> [d] | None \<Rightarrow> [])"
  by (cases e) (auto simp: partition_one_def due_def Let_def split: option.split)

lemma partition_one_cached:
  "pt_cached (partition_one env u w cx seed routes (usable_routes (plan_from_routes () routes)) s pt e)
     = pt_cached pt @ (case map_option (Pair (fst e)) (cache_hit env u w cx routes s (fst e)) of Some h \<Rightarrow> [h] | None \<Rightarrow> [])"
  by (cases e) (auto simp: partition_one_def due_def cache_hit_def Let_def split: option.split)

lemma partition_one_outcomes:
  "map_of (pt_outcomes (partition_one env u w cx seed routes (usable_routes (plan_from_routes () routes)) s pt e)) p
     = (if p = fst e \<and> missed_route env u w seed routes s p then Some ONotFound else map_of (pt_outcomes pt) p)"
  by (cases e) (auto simp: partition_one_def missed_route_def Let_def update_conv' split: option.split)

lemma partition_all_dispatch:
  "pt_dispatch (partition_all env u w cx seed routes s)
     = List.map_filter (entry_of env u w cx seed routes s) (env_providers env)"
proof -
  have "pt_dispatch (foldl (partition_one env u w cx seed routes (usable_routes (plan_from_routes () routes)) s)
      partition_empty es) = List.map_filter (entry_of env u w cx seed routes s) es" for es
    by (induction es rule: rev_induct) (simp_all add: partition_one_dispatch partition_empty_def List.map_filter_simps)
  then show ?thesis by (simp add: partition_all_def)
qed

lemma partition_all_cached:
  "pt_cached (partition_all env u w cx seed routes s)
     = List.map_filter (\<lambda>e. map_option (Pair (fst e)) (cache_hit env u w cx routes s (fst e))) (env_providers env)"
proof -
  have "pt_cached (foldl (partition_one env u w cx seed routes (usable_routes (plan_from_routes () routes)) s)
      partition_empty es)
    = List.map_filter (\<lambda>e. map_option (Pair (fst e)) (cache_hit env u w cx routes s (fst e))) es" for es
    by (induction es rule: rev_induct) (simp_all add: partition_one_cached partition_empty_def List.map_filter_simps)
  then show ?thesis by (simp add: partition_all_def)
qed

lemma partition_all_outcomes:
  "map_of (pt_outcomes (partition_all env u w cx seed routes s)) p
     = (if p \<in> fst ` set (env_providers env) \<and> missed_route env u w seed routes s p then Some ONotFound else None)"
proof -
  have "map_of (pt_outcomes (foldl (partition_one env u w cx seed routes (usable_routes (plan_from_routes () routes)) s)
      partition_empty es)) p
    = (if p \<in> fst ` set es \<and> missed_route env u w seed routes s p then Some ONotFound else None)" for es
    by (induction es rule: rev_induct) (simp_all add: partition_one_outcomes partition_empty_def)
  then show ?thesis by (simp add: partition_all_def)
qed

section \<open>Recording the outcomes\<close>

lemma final_outcome_put_other:
  "d_provider d \<noteq> q \<Longrightarrow> final_outcome env u w cached d (put_row (w, q) r db) = final_outcome env u w cached d db"
proof -
  assume "d_provider d \<noteq> q"
  then have "prior_attempts u w (d_provider d) (put_row (w, q) r db) = prior_attempts u w (d_provider d) db"
    by (simp add: prior_attempts_def get_retry_state_def)
  then show ?thesis by (simp only: final_outcome_def apply_budget_rules_def)
qed

definition entry_for :: "dispatch_entry list \<Rightarrow> metadata_provider \<Rightarrow> dispatch_entry option" where
  "entry_for ds q = find (\<lambda>d. d_provider d = q) ds"

lemma entry_for_simps [simp]:
  "entry_for [] q = None"
  "entry_for (d # ds) q = (if d_provider d = q then Some d else entry_for ds q)"
  by (simp_all add: entry_for_def)

lemma entry_for_provider: "entry_for ds q = Some d \<Longrightarrow> d_provider d = q"
  by (auto simp: entry_for_def find_Some_iff)

lemma entry_for_notin: "q \<notin> d_provider ` set ds \<Longrightarrow> entry_for ds q = None"
  by (induction ds) auto

definition rows_after where
  "rows_after env u w cached ds db key =
     (case (if fst key = w then entry_for ds (snd key) else None) of
        None \<Rightarrow> map_of (retry_rows db) key
      | Some d \<Rightarrow> Some (next_row (env_to_json env) (env_now env) u (final_outcome env u w cached d db)
                    (map_of (retry_rows db) key)))"

definition outcomes_after where
  "outcomes_after env u w cached ds db outcomes q =
     (case entry_for ds q of
        None \<Rightarrow> map_of outcomes q
      | Some d \<Rightarrow> Some (final_outcome env u w cached d db))"

lemma rows_after_Cons:
  assumes "d_provider d \<notin> d_provider ` set ds"
    and "db' = put_row (w, d_provider d) (next_row (env_to_json env) (env_now env) u
           (final_outcome env u w cached d db) (map_of (retry_rows db) (w, d_provider d))) db"
  shows "rows_after env u w cached ds db' key = rows_after env u w cached (d # ds) db key"
proof (cases "key = (w, d_provider d)")
  case True
  then show ?thesis using assms by (simp add: rows_after_def entry_for_notin)
next
  case False
  have "final_outcome env u w cached e db' = final_outcome env u w cached e db"
    if "entry_for ds (snd key) = Some e" "fst key = w" for e
    using that False entry_for_provider [OF that(1)] assms(2)
    by (cases key) (simp add: final_outcome_put_other)
  then show ?thesis
    using False assms(2) by (cases key) (auto simp: rows_after_def split: option.split)
qed

lemma outcomes_after_Cons:
  assumes "d_provider d \<notin> d_provider ` set ds" and "db' = put_row (w, d_provider d) r db"
  shows "outcomes_after env u w cached ds db' (AList.update (d_provider d) (final_outcome env u w cached d db) outcomes) q
    = outcomes_after env u w cached (d # ds) db outcomes q"
proof (cases "q = d_provider d")
  case True
  then show ?thesis using assms by (simp add: outcomes_after_def entry_for_notin update_conv')
next
  case False
  have "final_outcome env u w cached e db' = final_outcome env u w cached e db" if "entry_for ds q = Some e" for e
    using False entry_for_provider [OF that] assms(2) by (simp add: final_outcome_put_other)
  then show ?thesis using False by (simp add: outcomes_after_def update_conv' split: option.split)
qed

text \<open>For a known user and work the recording never fails, and its effect is exact.\<close>

lemma finalize_known:
  assumes "known (q_retry s) u w" and "distinct (map d_provider ds)"
  shows "\<exists>g' s'. finalize env u w cached ds s g = (Inr g', s')
    \<and> q_calls s' = q_calls s \<and> known (q_retry s') u w
    \<and> map_of (retry_rows (q_retry s')) = rows_after env u w cached ds (q_retry s)
    \<and> map_of (g_outcomes g') = outcomes_after env u w cached ds (q_retry s) (g_outcomes g)
    \<and> g_ledger g' = combine (g_ledger g)
        (foldr combine (map (\<lambda>d. leg_contribution (final_outcome env u w cached d (q_retry s))) ds) Idle)"
  using assms
proof (induction ds arbitrary: s g)
  case Nil
  then show ?case by (simp add: rows_after_def outcomes_after_def fun_eq_iff)
next
  case (Cons d ds)
  let ?p = "d_provider d" and ?oc = "final_outcome env u w cached d (q_retry s)"
  define db' where "db' = put_row (w, ?p) (next_row (env_to_json env) (env_now env) u ?oc
      (map_of (retry_rows (q_retry s)) (w, ?p))) (q_retry s)"
  have k': "known db' u w" using Cons.prems(1) by (simp add: db'_def)
  have step: "persist_phase1_outcome (env_to_json env) (env_now env) u w ?p ?oc (q_retry s) = (Inr (), db')"
    using persist_known [OF Cons.prems(1)] by (simp add: db'_def)
  have same: "final_outcome env u w cached e db' = final_outcome env u w cached e (q_retry s)" if "e \<in> set ds" for e
    using that Cons.prems(2) unfolding db'_def by (intro final_outcome_put_other) (metis distinct.simps(2) image_eqI list.simps(9) list.set_map)
  define s' where "s' = s\<lparr>q_retry := db', q_cache := (case (case (map_of cached ?p, ?oc) of (None, OSuccess detail) \<Rightarrow> Some detail | _ \<Rightarrow> None) of
      Some detail \<Rightarrow> cache_write env ?p (d_anchor d) detail (q_cache s) | None \<Rightarrow> q_cache s)\<rparr>"
  define g' where "g' = \<lparr>g_outcomes = AList.update ?p ?oc (g_outcomes g),
      g_ledger = combine (g_ledger g) (leg_contribution ?oc),
      g_wrote_cache = (g_wrote_cache g \<or> (case (map_of cached ?p, ?oc) of (None, OSuccess detail) \<Rightarrow> Some detail | _ \<Rightarrow> None) \<noteq> None)\<rparr>"
  have fold: "finalize env u w cached (d # ds) s g = finalize env u w cached ds s' g'"
    by (simp add: step Let_def s'_def g'_def)
  have s': "q_retry s' = db'" "q_calls s' = q_calls s" by (simp_all add: s'_def)
  have IH: "\<exists>g'' s''. finalize env u w cached ds s' g' = (Inr g'', s'')
    \<and> q_calls s'' = q_calls s' \<and> known (q_retry s'') u w
    \<and> map_of (retry_rows (q_retry s'')) = rows_after env u w cached ds (q_retry s')
    \<and> map_of (g_outcomes g'') = outcomes_after env u w cached ds (q_retry s') (g_outcomes g')
    \<and> g_ledger g'' = combine (g_ledger g')
        (foldr combine (map (\<lambda>d. leg_contribution (final_outcome env u w cached d (q_retry s'))) ds) Idle)"
    using Cons.IH [of s' g'] k' s' Cons.prems(2) by simp
  have rows: "rows_after env u w cached ds (q_retry s') = rows_after env u w cached (d # ds) (q_retry s)"
    using Cons.prems(2) s' by (simp add: fun_eq_iff rows_after_Cons [OF _ db'_def])
  have outcomes: "outcomes_after env u w cached ds (q_retry s') (g_outcomes g')
      = outcomes_after env u w cached (d # ds) (q_retry s) (g_outcomes g)"
    using Cons.prems(2) s' by (simp add: fun_eq_iff g'_def outcomes_after_Cons [OF _ db'_def])
  have ledger: "combine (g_ledger g') (foldr combine (map (\<lambda>d. leg_contribution (final_outcome env u w cached d (q_retry s'))) ds) Idle)
      = combine (g_ledger g) (foldr combine (map (\<lambda>d. leg_contribution (final_outcome env u w cached d (q_retry s))) (d # ds)) Idle)"
    using same s' by (simp add: g'_def combine_assoc cong: map_cong)
  show ?case using IH unfolding fold rows outcomes ledger s'(2) .
qed

section \<open>A whole pass\<close>

text \<open>What one pass leaves for a provider: its outcome, as the partition and the finalisation give it.\<close>

definition outcome_of_pass ::
  "'p queue_env \<Rightarrow> int \<Rightarrow> int \<Rightarrow> enrichment_context \<Rightarrow> work_route list \<Rightarrow> queue_state \<Rightarrow> metadata_provider \<Rightarrow> u32
     \<Rightarrow> anchor_query \<Rightarrow> 'p provider_outcome" where
  "outcome_of_pass env u w cx routes s p m a =
     (case cache_hit env u w cx routes s p of
        Some d \<Rightarrow> OSuccess d
      | None \<Rightarrow>
          (case env_fetch env p a of
             None \<Rightarrow> OPermanentFailure ProviderPanic
           | Some oc \<Rightarrow> apply_budget_rules u w p m oc (q_retry s)))"

lemma map_of_map_filter:
  "distinct (map fst es) \<Longrightarrow> map_of (List.map_filter (\<lambda>e. map_option (Pair (fst e)) (h (fst e))) es) p =
     (if p \<in> fst ` set es then h p else None)"
proof (induction es arbitrary: p)
  case (Cons e es)
  have "map_of (List.map_filter (\<lambda>e. map_option (Pair (fst e)) (h (fst e))) es) (fst e) = None"
    using Cons by simp
  with Cons show ?case by (simp add: List.map_filter_simps split: option.split)
qed (simp add: List.map_filter_simps)

lemma entry_for_map_filter:
  "distinct (map fst es) \<Longrightarrow>
     entry_for (List.map_filter (entry_of env u w cx seed routes s) es) p =
       (case map_of es p of None \<Rightarrow> None | Some m \<Rightarrow> entry_of env u w cx seed routes s (p, m))"
proof (induction es)
  case (Cons e es)
  then show ?case
    by (cases e; cases "due env u w cx routes s (fst e)")
      (auto simp: List.map_filter_simps map_of_eq_None_iff split: option.split)
qed (simp add: List.map_filter_simps)

lemma distinct_map_filter_entries:
  "distinct (map fst es) \<Longrightarrow> distinct (map d_provider (List.map_filter (entry_of env u w cx seed routes s) es))"
proof (induction es)
  case (Cons e es)
  then show ?case
    by (cases e; cases "due env u w cx routes s (fst e)")
      (force simp: List.map_filter_simps List.map_filter_def)+
qed (simp add: List.map_filter_simps)

lemma final_outcome_of_pass:
  assumes "distinct (map fst (env_providers env))" and "map_of (env_providers env) p = Some m"
    and "due env u w cx routes s p = Some a"
  shows "final_outcome env u w (pt_cached (partition_all env u w cx seed routes s))
      \<lparr>d_provider = p, d_max_attempts = m, d_anchor = a, d_search_eligible = e\<rparr> (q_retry s)
    = outcome_of_pass env u w cx routes s p m a"
proof -
  have "p \<in> fst ` set (env_providers env)" using assms(2) by (force dest: map_of_SomeD)
  then have "map_of (pt_cached (partition_all env u w cx seed routes s)) p = cache_hit env u w cx routes s p"
    by (simp add: partition_all_cached map_of_map_filter [OF assms(1)])
  then show ?thesis
    by (simp add: final_outcome_def outcome_of_pass_def apply_budget_rules_def split: option.split)
qed

definition readable :: "'p queue_env \<Rightarrow> captured_identity \<Rightarrow> (string \<times> string) option \<Rightarrow> bool" where
  "readable env identity seed \<longleftrightarrow> env_captured_identity env = Inr identity \<and> search_seed env identity = Inr seed"

text \<open>The calls a pass adds, given what it could read.\<close>

definition new_calls ::
  "'p queue_env \<Rightarrow> int \<Rightarrow> int \<Rightarrow> enrichment_context \<Rightarrow> work_route list \<Rightarrow> queue_state
     \<Rightarrow> (metadata_provider \<times> anchor_query) list" where
  "new_calls env u w cx routes s =
     List.map_filter (\<lambda>e. if cache_hit env u w cx routes s (fst e) = None
        then map_option (Pair (fst e)) (due env u w cx routes s (fst e)) else None) (env_providers env)"

lemma fetched_new_calls:
  assumes "distinct (map fst (env_providers env))"
  shows "map (\<lambda>d. (d_provider d, d_anchor d)) (fetched_entries (partition_all env u w cx seed routes s))
    = new_calls env u w cx routes s"
proof -
  have hits: "map_of (pt_cached (partition_all env u w cx seed routes s)) p = cache_hit env u w cx routes s p"
    if "p \<in> fst ` set (env_providers env)" for p
    using that by (simp add: partition_all_cached map_of_map_filter [OF assms])
  have "map (\<lambda>d. (d_provider d, d_anchor d))
      (filter (\<lambda>d. map_of (pt_cached (partition_all env u w cx seed routes s)) (d_provider d) = None)
        (List.map_filter (entry_of env u w cx seed routes s) es))
    = List.map_filter (\<lambda>e. if cache_hit env u w cx routes s (fst e) = None
        then map_option (Pair (fst e)) (due env u w cx routes s (fst e)) else None) es"
    if "set es \<subseteq> set (env_providers env)" for es
    using that
  proof (induction es)
    case (Cons e es)
    then have "fst e \<in> fst ` set (env_providers env)" by simp
    with Cons show ?case
      by (cases e; cases "due env u w cx routes s (fst e)") (simp_all add: List.map_filter_simps hits)
  qed (simp add: List.map_filter_simps)
  from this [OF order_refl] show ?thesis
    by (simp add: fetched_entries_def new_calls_def partition_all_dispatch)
qed

lemma dispatch_known:
  assumes "known (q_retry s) u w" and "distinct (map fst (env_providers env))"
    and "readable env identity seed"
  defines "routes \<equiv> ci_active_routes identity"
  shows "\<exists>r s'. dispatch_enrichment env u w language cx s = (Inr r, s')
    \<and> q_calls s' = q_calls s @ new_calls env u w cx routes s \<and> known (q_retry s') u w
    \<and> (\<forall>w' p. map_of (retry_rows (q_retry s')) (w', p) =
         (case (if w' = w then map_of (env_providers env) p else None) of
            None \<Rightarrow> map_of (retry_rows (q_retry s)) (w', p)
          | Some m \<Rightarrow>
              (case due env u w cx routes s p of
                 None \<Rightarrow> map_of (retry_rows (q_retry s)) (w', p)
               | Some a \<Rightarrow> Some (next_row (env_to_json env) (env_now env) u
                   (outcome_of_pass env u w cx routes s p m a) (map_of (retry_rows (q_retry s)) (w', p))))))
    \<and> (\<forall>p. map_of (sg_outcomes r) p =
         (case map_of (env_providers env) p of
            None \<Rightarrow> None
          | Some m \<Rightarrow>
              (case due env u w cx routes s p of
                 Some a \<Rightarrow> Some (outcome_of_pass env u w cx routes s p m a)
               | None \<Rightarrow> if missed_route env u w seed routes s p then Some ONotFound else None)))
    \<and> sg_merge_eligible r = (\<not> conflict_present (sg_outcomes r))
    \<and> sg_deferred r = deferred (cx_mode cx) (sg_outcomes r)"
proof -
  let ?pt = "partition_all env u w cx seed routes s"
  let ?s1 = "s\<lparr>q_calls := q_calls s @ map (\<lambda>d. (d_provider d, d_anchor d)) (fetched_entries ?pt),
      q_skips := q_skips s @ pt_skips ?pt\<rparr>"
  let ?g = "\<lparr>g_outcomes = pt_outcomes ?pt, g_ledger = combine Idle (accounting (search_wave env language routes seed (pt_search ?pt))),
      g_wrote_cache = False\<rparr>"
  have k1: "known (q_retry ?s1) u w" using assms(1) by simp
  have dist: "distinct (map d_provider (pt_dispatch ?pt))"
    unfolding partition_all_dispatch by (rule distinct_map_filter_entries [OF assms(2)])
  obtain g s2 where fin: "finalize env u w (pt_cached ?pt) (pt_dispatch ?pt) ?s1 ?g = (Inr g, s2)"
    and calls: "q_calls s2 = q_calls ?s1" and k2: "known (q_retry s2) u w"
    and rows: "map_of (retry_rows (q_retry s2)) = rows_after env u w (pt_cached ?pt) (pt_dispatch ?pt) (q_retry ?s1)"
    and outs: "map_of (g_outcomes g) = outcomes_after env u w (pt_cached ?pt) (pt_dispatch ?pt) (q_retry ?s1) (g_outcomes ?g)"
    using finalize_known [OF k1 dist, of env "pt_cached ?pt" ?g] by blast
  note entry = entry_for_map_filter [OF assms(2)]
  note fo = final_outcome_of_pass [OF assms(2)]
  have r: "map_of (retry_rows (q_retry s2)) (w', p) =
         (case (if w' = w then map_of (env_providers env) p else None) of
            None \<Rightarrow> map_of (retry_rows (q_retry s)) (w', p)
          | Some m \<Rightarrow>
              (case due env u w cx routes s p of
                 None \<Rightarrow> map_of (retry_rows (q_retry s)) (w', p)
               | Some a \<Rightarrow> Some (next_row (env_to_json env) (env_now env) u
                   (outcome_of_pass env u w cx routes s p m a) (map_of (retry_rows (q_retry s)) (w', p)))))" for w' p
    using fo [of p] by (simp add: rows rows_after_def partition_all_dispatch entry split: option.split)
  have o': "map_of (g_outcomes g) p =
         (case map_of (env_providers env) p of
            None \<Rightarrow> None
          | Some m \<Rightarrow>
              (case due env u w cx routes s p of
                 Some a \<Rightarrow> Some (outcome_of_pass env u w cx routes s p m a)
               | None \<Rightarrow> if missed_route env u w seed routes s p then Some ONotFound else None))" for p
    using fo [of p] by (auto simp: outs outcomes_after_def partition_all_dispatch partition_all_outcomes entry
        map_of_eq_None_iff split: option.split dest: map_of_SomeD intro: rev_image_eqI)
  have "env_captured_identity env = Inr identity" "search_seed env identity = Inr seed"
    using assms(3) by (simp_all add: readable_def)
  then show ?thesis
    using fin calls k2 fetched_new_calls [OF assms(2), where u = u and w = w and cx = cx and seed = seed and routes = routes and s = s]
    by (simp add: dispatch_enrichment_def Let_def routes_def [symmetric] r o')
qed

section \<open>Passes one after another\<close>

type_synonym 'p pass = "'p queue_env \<times> string option \<times> enrichment_context"

definition after_pass :: "int \<Rightarrow> int \<Rightarrow> 'p pass \<Rightarrow> queue_state \<Rightarrow> queue_state" where
  "after_pass u w pass s = (case pass of (env, language, cx) \<Rightarrow> snd (dispatch_enrichment env u w language cx s))"

definition failing_fetch :: "int \<Rightarrow> int \<Rightarrow> metadata_provider \<Rightarrow> 'p pass \<Rightarrow> queue_state \<Rightarrow> bool" where
  "failing_fetch u w p pass s \<longleftrightarrow>
     (\<exists>(q, a) \<in> set (drop (length (q_calls s)) (q_calls (after_pass u w pass s))).
        q = p \<and> (case env_fetch (fst pass) p a of Some oc \<Rightarrow> consuming oc | None \<Rightarrow> False))"

fun failing_fetches :: "int \<Rightarrow> int \<Rightarrow> metadata_provider \<Rightarrow> 'p pass list \<Rightarrow> queue_state \<Rightarrow> nat" where
  "failing_fetches u w p [] s = 0"
| "failing_fetches u w p (pass # passes) s =
     (if failing_fetch u w p pass s then 1 else 0) + failing_fetches u w p passes (after_pass u w pass s)"

definition registers :: "metadata_provider \<Rightarrow> u32 \<Rightarrow> 'p queue_env \<Rightarrow> bool" where
  "registers p m env \<longleftrightarrow> distinct (map fst (env_providers env)) \<and> map_of (env_providers env) p = Some m"

lemma budget_left_cong:
  "map_of (retry_rows db) (w, p) = map_of (retry_rows db') (w, p) \<Longrightarrow> known db u w \<Longrightarrow> known db' u w
     \<Longrightarrow> budget_left m u w p db = budget_left m u w p db'"
  by (simp add: budget_left_def prior_known terminal_known)

lemma budget_left_alt:
  "budget_left m u w p db =
     (if existing_terminal_outcome u w p db \<noteq> None then 0 else max 1 (unat m - unat (prior_attempts u w p db)))"
  by (auto simp: budget_left_def max_def)

text \<open>A pass whose identity cannot be read changes nothing.\<close>

lemma unreadable_pass:
  "\<nexists>identity seed. readable env identity seed \<Longrightarrow> snd (dispatch_enrichment env u w language cx s) = s"
  by (auto simp: readable_def dispatch_enrichment_def split: sum.split)

lemma set_new_calls_iff:
  "(q, a) \<in> set (new_calls env u w cx routes s) \<longleftrightarrow>
     q \<in> fst ` set (env_providers env) \<and> due env u w cx routes s q = Some a \<and> cache_hit env u w cx routes s q = None"
  by (force simp: new_calls_def List.map_filter_def split: if_splits)

lemma set_new_calls:
  "(q, a) \<in> set (new_calls env u w cx routes s) \<Longrightarrow>
     due env u w cx routes s q = Some a \<and> cache_hit env u w cx routes s q = None"
  by (simp add: set_new_calls_iff)

lemma pass_budget:
  assumes k: "known (q_retry s) u w" and reg: "registers p m env"
    and s'_def: "s' = after_pass u w (env, language, cx) s"
  shows "known (q_retry s') u w
    \<and> budget_left m u w p (q_retry s') + (if failing_fetch u w p (env, language, cx) s then 1 else 0)
        \<le> budget_left m u w p (q_retry s)"
proof (cases "\<exists>identity seed. readable env identity seed")
  case False
  then have "s' = s" using s'_def by (simp add: after_pass_def unreadable_pass)
  then show ?thesis using k s'_def by (simp add: failing_fetch_def)
next
  case True
  then obtain identity seed where rd: "readable env identity seed" by blast
  let ?routes = "ci_active_routes identity"
  have dist: "distinct (map fst (env_providers env))" and m: "map_of (env_providers env) p = Some m"
    using reg by (simp_all add: registers_def)
  let ?old = "map_of (retry_rows (q_retry s)) (w, p)"
  have k': "known (q_retry s') u w"
    and calls: "q_calls s' = q_calls s @ new_calls env u w cx ?routes s"
    and row: "map_of (retry_rows (q_retry s')) (w, p) =
      (case due env u w cx ?routes s p of
         None \<Rightarrow> ?old
       | Some a \<Rightarrow> Some (next_row (env_to_json env) (env_now env) u
           (outcome_of_pass env u w cx ?routes s p m a) ?old))"
    using dispatch_known [OF k dist rd, of language cx] m s'_def by (auto simp: after_pass_def)
  have fail: "\<exists>a oc. due env u w cx ?routes s p = Some a \<and> cache_hit env u w cx ?routes s p = None
      \<and> env_fetch env p a = Some oc \<and> consuming oc" if "failing_fetch u w p (env, language, cx) s"
    using that calls s'_def
    by (fastforce simp: failing_fetch_def dest: set_new_calls split: option.splits)
  show ?thesis
  proof (cases "due env u w cx ?routes s p")
    case None
    then show ?thesis
      using fail row k k' budget_left_cong [OF _ k' k, of p m] by auto
  next
    case (Some a)
    then have open': "existing_terminal_outcome u w p (q_retry s) = None" by (auto simp: due_def split: if_splits)
    let ?oc = "outcome_of_pass env u w cx ?routes s p m a"
    obtain oc where oc: "?oc = apply_budget_rules u w p m oc (q_retry s)"
      and spends: "failing_fetch u w p (env, language, cx) s \<Longrightarrow> consuming oc"
    proof (cases "cache_hit env u w cx ?routes s p = None \<and> env_fetch env p a \<noteq> None")
      case True
      then show thesis using that fail Some by (fastforce simp: outcome_of_pass_def)
    next
      case False
      then have "?oc = apply_budget_rules u w p m ?oc (q_retry s)"
        by (auto simp: outcome_of_pass_def apply_budget_rules_def split: option.split)
      then show thesis using that fail Some False by fastforce
    qed
    let ?db = "put_row (w, p) (next_row (env_to_json env) (env_now env) u ?oc ?old) (q_retry s)"
    have "budget_left m u w p (q_retry s') = budget_left m u w p ?db"
      using row Some k k' by (intro budget_left_cong) simp_all
    then show ?thesis
      using budget_after [OF k open' oc refl, of "env_to_json env" "env_now env"] spends k' by auto
  qed
qed

lemma failing_fetches_budget:
  "known (q_retry s) u w \<Longrightarrow> \<forall>(env, rest) \<in> set passes. registers p m env
     \<Longrightarrow> failing_fetches u w p passes s \<le> budget_left m u w p (q_retry s)"
proof (induction passes arbitrary: s)
  case (Cons pass passes)
  obtain env language cx where pass: "pass = (env, language, cx)" by (cases pass) auto
  have "known (q_retry (after_pass u w pass s)) u w"
    and le: "budget_left m u w p (q_retry (after_pass u w pass s)) + (if failing_fetch u w p pass s then 1 else 0)
        \<le> budget_left m u w p (q_retry s)"
    using pass_budget [OF Cons.prems(1), of p m env _ language cx] Cons.prems(2) pass by auto
  then have "failing_fetches u w p passes (after_pass u w pass s) \<le> budget_left m u w p (q_retry (after_pass u w pass s))"
    using Cons by auto
  then show ?case using le by simp
qed simp

section \<open>Guarantees\<close>

lemma new_calls_providers:
  "map fst (new_calls env u w cx routes s) =
     filter (\<lambda>p. cache_hit env u w cx routes s p = None \<and> due env u w cx routes s p \<noteq> None) (map fst (env_providers env))"
proof -
  have "map fst (List.map_filter (\<lambda>e. if cache_hit env u w cx routes s (fst e) = None
        then map_option (Pair (fst e)) (due env u w cx routes s (fst e)) else None) es)
      = filter (\<lambda>p. cache_hit env u w cx routes s p = None \<and> due env u w cx routes s p \<noteq> None) (map fst es)"
    for es :: "(metadata_provider \<times> u32) list"
    by (induction es) (auto simp: List.map_filter_simps split: option.split)
  then show ?thesis by (simp add: new_calls_def)
qed

lemma finalize_calls: "finalize env u w cached ds s g = (r, s') \<Longrightarrow> q_calls s' = q_calls s"
  by (induction ds arbitrary: s g) (fastforce simp: Let_def split: prod.splits sum.splits)+

lemma dispatch_calls:
  "distinct (map fst (env_providers env)) \<Longrightarrow> readable env identity seed \<Longrightarrow>
     q_calls (snd (dispatch_enrichment env u w language cx s))
       = q_calls s @ new_calls env u w cx (ci_active_routes identity) s"
  by (auto simp: dispatch_enrichment_def readable_def Let_def fetched_new_calls dest: finalize_calls
      split: prod.split sum.split)

text \<open>
  C21 (bounds): The retry budget bounds failing work. Over any sequence of passes for a work of a known user, with
  whatever answers, freshness, modes and routes, the number of fetches of a provider that end in a
  retryable failure (timeout, rate limit, server error, anti-bot block) is at most what its budget
  leaves: nothing once its standing is final, otherwise the configured maximum less the attempts on
  record, and at least one. Pauses (circuit open, queue full) are free.
\<close>

theorem retry_budget_bounds_failing_fetches:
  assumes "known (q_retry s) u w"
    and "\<forall>(env, rest) \<in> set passes. registers p m env"
  shows "failing_fetches u w p passes s \<le>
     (if existing_terminal_outcome u w p (q_retry s) \<noteq> None then 0
      else max 1 (unat m - unat (prior_attempts u w p (q_retry s))))"
  using failing_fetches_budget [OF assms] unfolding budget_left_alt .

definition example_queue_route :: work_route where
  "example_queue_route =
     \<lparr>r_id = 1, r_user_id = 1, r_owner = OwnerWork 7, r_resolved_work_id = 7, r_provider = identity_provider.OpenLibrary,
      r_kind = OpenLibraryWork, r_provider_scoped_id = ''OL1W'', r_state = Active, r_provenance = UserChoice,
      r_user_confirmed = True, r_observed_at = 0\<rparr>"

definition example_queue_env :: "string queue_env" where
  "example_queue_env =
     \<lparr>env_providers = [(metadata_provider.OpenLibrary, 3)], env_applicable = (\<lambda>_. True),
      env_search_available = (\<lambda>_. False), env_fetch = (\<lambda>_ _. Some (OWillRetry Timeout 100)),
      env_search_client = (\<lambda>_. \<lparr>search_identity_candidates = (\<lambda>_ _ _. None), probe_identity_candidate = (\<lambda>_ _. None)\<rparr>),
      env_classify = (\<lambda>_ _ _. Abstain), env_strip_isbn = (\<lambda>v. v), env_join_order = (\<lambda>ps. ps),
      env_captured_identity = Inr \<lparr>ci_title_main = ''Dune'', ci_primary_author_id = 3,
        ci_active_routes = [example_queue_route]\<rparr>,
      env_author_names = (\<lambda>_. Inr [''Frank Herbert'']), env_to_json = (\<lambda>v. v), env_from_json = Some,
      env_now = 10, env_cache_ttl = 60, env_cache_max_rows = 5\<rparr>"

definition example_queue_context :: enrichment_context where
  "example_queue_context = \<lparr>cx_mode = Background, cx_freshness = PreferCache, cx_search_only = False\<rparr>"

definition example_queue_state :: queue_state where
  "example_queue_state = \<lparr>q_retry = example_retry_db, q_cache = [], q_calls = [], q_skips = []\<rparr>"

lemma example_known: "known (q_retry example_queue_state) 1 7"
  by (simp add: known_def owns_def example_queue_state_def example_retry_db_def)

theorem retry_budget_bounds_failing_fetches_witness:
  "failing_fetches 1 7 metadata_provider.OpenLibrary (replicate 5 (example_queue_env, None, example_queue_context))
     example_queue_state \<le> 3"
proof -
  have "failing_fetches 1 7 metadata_provider.OpenLibrary (replicate 5 (example_queue_env, None, example_queue_context))
     example_queue_state \<le> (if existing_terminal_outcome 1 7 metadata_provider.OpenLibrary (q_retry example_queue_state) \<noteq> None then 0
      else max 1 (unat (3 :: u32) - unat (prior_attempts 1 7 metadata_provider.OpenLibrary (q_retry example_queue_state))))"
    by (rule retry_budget_bounds_failing_fetches [OF example_known]) (simp add: registers_def example_queue_env_def)
  then show ?thesis by (auto split: if_splits)
qed

text \<open>
  C22 (safety): A pass fetches exactly what is due. It adds one call for every registered provider
  that the policy admits, that has an anchor among the usable routes, whose standing is not final
  and that no fresh cached answer serves, when the pass is not for searches only; it adds no other
  call, and none twice, whatever the clients answer.
\<close>

theorem pass_fetches_exactly_what_is_due:
  assumes "distinct (map fst (env_providers env))" and "readable env identity seed"
  shows "\<exists>new. q_calls (snd (dispatch_enrichment env u w language cx s)) = q_calls s @ new
    \<and> distinct (map fst new)
    \<and> (\<forall>p a. (p, a) \<in> set new \<longleftrightarrow>
         p \<in> fst ` set (env_providers env) \<and> env_applicable env p \<and> \<not> cx_search_only cx
         \<and> derive_route_anchor_query p (usable_routes (plan_from_routes () (ci_active_routes identity))) = Some a
         \<and> existing_terminal_outcome u w p (q_retry s) = None
         \<and> (cx_freshness cx = Bypass \<or> cached_success env p a (q_cache s) = None))"
proof (intro exI conjI allI)
  let ?new = "new_calls env u w cx (ci_active_routes identity) s"
  show "q_calls (snd (dispatch_enrichment env u w language cx s)) = q_calls s @ ?new"
    by (rule dispatch_calls [OF assms])
  show "distinct (map fst ?new)" using assms(1) by (simp add: new_calls_providers)
  show "(p, a) \<in> set ?new \<longleftrightarrow>
         p \<in> fst ` set (env_providers env) \<and> env_applicable env p \<and> \<not> cx_search_only cx
         \<and> derive_route_anchor_query p (usable_routes (plan_from_routes () (ci_active_routes identity))) = Some a
         \<and> existing_terminal_outcome u w p (q_retry s) = None
         \<and> (cx_freshness cx = Bypass \<or> cached_success env p a (q_cache s) = None)" for p a
    unfolding set_new_calls_iff by (cases "cx_freshness cx") (auto simp: due_def cache_hit_def split: if_splits option.splits)
qed

theorem pass_fetches_exactly_what_is_due_witness:
  "\<exists>new. q_calls (snd (dispatch_enrichment example_queue_env 1 7 None example_queue_context example_queue_state)) = new
     \<and> distinct (map fst new)"
  using pass_fetches_exactly_what_is_due [of example_queue_env
      "\<lparr>ci_title_main = ''Dune'', ci_primary_author_id = 3, ci_active_routes = [example_queue_route]\<rparr>" None 1 7 None
      example_queue_context example_queue_state]
  by (auto simp: example_queue_env_def example_queue_state_def readable_def search_seed_def needs_search_seed_def)

text \<open>
  C23 (functional): For a known user and work a readable pass always returns, and nothing it learns is lost.
  Every registered provider that was due has its outcome in the result (the cached or the fetched answer, a panic
  as a permanent failure, a failure past the budget as exhausted) and in its row of the retry table, with the attempt counted when
  the failure consumes budget; a provider without an anchor or with a recorded miss open to search is reported as not found,
  others are not reported; no other row changes. The result is open to merging exactly when no provider reports a conflict, and only
  a background pass is deferred, when some outcome cannot be merged yet.
\<close>

theorem pass_records_every_outcome:
  assumes "known (q_retry s) u w" and "distinct (map fst (env_providers env))" and "readable env identity seed"
  shows "\<exists>r s'. dispatch_enrichment env u w language cx s = (Inr r, s')
    \<and> (\<forall>w' p. map_of (retry_rows (q_retry s')) (w', p) =
         (case (if w' = w then map_of (env_providers env) p else None) of
            None \<Rightarrow> map_of (retry_rows (q_retry s)) (w', p)
          | Some m \<Rightarrow>
              (case due env u w cx (ci_active_routes identity) s p of
                 None \<Rightarrow> map_of (retry_rows (q_retry s)) (w', p)
               | Some a \<Rightarrow> Some (next_row (env_to_json env) (env_now env) u
                   (outcome_of_pass env u w cx (ci_active_routes identity) s p m a) (map_of (retry_rows (q_retry s)) (w', p))))))
    \<and> (\<forall>p. map_of (sg_outcomes r) p =
         (case map_of (env_providers env) p of
            None \<Rightarrow> None
          | Some m \<Rightarrow>
              (case due env u w cx (ci_active_routes identity) s p of
                 Some a \<Rightarrow> Some (outcome_of_pass env u w cx (ci_active_routes identity) s p m a)
               | None \<Rightarrow> if missed_route env u w seed (ci_active_routes identity) s p then Some ONotFound else None)))
    \<and> sg_merge_eligible r = (\<forall>(p, oc) \<in> set (sg_outcomes r). outcome_class_of oc \<noteq> Conflict)
    \<and> sg_deferred r = (sg_merge_eligible r \<and> cx_mode cx = Background
        \<and> (\<exists>(p, oc) \<in> set (sg_outcomes r). \<not> can_merge (outcome_class_of oc)))"
proof -
  have flags: "(\<not> conflict_present ocs) = (\<forall>(p, oc) \<in> set ocs. outcome_class_of oc \<noteq> Conflict)"
    "deferred mode ocs = (\<not> conflict_present ocs \<and> mode = Background \<and> (\<exists>(p, oc) \<in> set ocs. \<not> can_merge (outcome_class_of oc)))"
    for ocs :: "(metadata_provider \<times> 'a provider_outcome) list" and mode
    by (auto simp: conflict_present_def deferred_def outcome_can_merge_def split: enrichment_mode.split)
  from dispatch_known [OF assms, of language cx] show ?thesis unfolding flags by (elim exE conjE) (intro exI conjI; assumption?; simp add: flags)
qed

theorem pass_records_every_outcome_witness:
  "\<exists>r s'. dispatch_enrichment example_queue_env 1 7 None example_queue_context example_queue_state = (Inr r, s')
     \<and> map_of (sg_outcomes r) metadata_provider.OpenLibrary = Some (OWillRetry Timeout 100)"
proof -
  let ?id = "\<lparr>ci_title_main = ''Dune'', ci_primary_author_id = 3, ci_active_routes = [example_queue_route]\<rparr>"
  have rd: "readable example_queue_env ?id None"
    by (simp add: example_queue_env_def readable_def search_seed_def needs_search_seed_def)
  have dist: "distinct (map fst (env_providers example_queue_env))" by (simp add: example_queue_env_def)
  have reg: "map_of (env_providers example_queue_env) metadata_provider.OpenLibrary = Some 3"
    by (simp add: example_queue_env_def)
  have due: "due example_queue_env 1 7 example_queue_context [example_queue_route] example_queue_state
      metadata_provider.OpenLibrary = Some (OlKey ''OL1W'')" by code_simp
  have "outcome_of_pass example_queue_env 1 7 example_queue_context [example_queue_route] example_queue_state
      metadata_provider.OpenLibrary 3 (OlKey ''OL1W'') = OWillRetry Timeout 100"
    using due by (simp add: outcome_of_pass_def cache_hit_def cached_success_def get_provider_cache_entry_def
        apply_budget_rules_def prior_attempts_def get_retry_state_def saturating_add_def word_le_nat_alt
        example_queue_env_def example_queue_state_def example_retry_db_def is_pause_def)
  then show ?thesis
    using pass_records_every_outcome [OF example_known dist rd, of None example_queue_context] reg due
    by (elim exE conjE) (rule exI, rule exI, rule conjI, assumption, simp)
qed

end
