(* ===== verification/EnrichGuarantees.thy ===== *)
theory EnrichGuarantees
  imports EnrichWork MergeGuarantees QueueGuarantees
begin

text \<open>
  What the enrichment workflow guarantees beside other writers: which interleavings can make it
  store a merge computed from an outdated row, and that an undisturbed pass stores exactly the merge
  of what the queue returned.
\<close>

section \<open>Writers that honour the generation\<close>

text \<open>
  A writer is honest about a work when it never lowers the row's merge generation, never changes a
  mergeable field without raising it, and never brings a deleted row back. The generation column
  exists for this.
\<close>

definition readable_fields :: "'f work_row \<Rightarrow> work_field \<Rightarrow> 'f field_value" where
  "readable_fields row f =
     (case row_abridged row of
        Some b \<Rightarrow> extract_current_field f ((row_work row)\<lparr>w_abridged := b\<rparr>)
      | None \<Rightarrow> extract_current_field f (row_work row))"

definition same_content :: "'f work_row \<Rightarrow> 'f work_row \<Rightarrow> bool" where
  "same_content row row' \<longleftrightarrow>
     (row_abridged row = None \<longleftrightarrow> row_abridged row' = None)
     \<and> (\<forall>f \<in> set MERGE_FIELDS. readable_fields row' f = readable_fields row f)"

definition honest_step :: "'f work_row option \<Rightarrow> 'f work_row option \<Rightarrow> bool" where
  "honest_step before after =
     (case (before, after) of
        (None, _) \<Rightarrow> after = None
      | (Some row, None) \<Rightarrow> True
      | (Some row, Some row') \<Rightarrow>
          row_merge_generation row \<le> row_merge_generation row'
          \<and> (row_merge_generation row = row_merge_generation row' \<longrightarrow> same_content row row'))"

abbreviation row_at :: "int \<Rightarrow> int \<Rightarrow> 'f spine \<Rightarrow> 'f work_row option" where
  "row_at u w s \<equiv> db_works (sp_db s) (w, u)"

definition honest :: "int \<Rightarrow> int \<Rightarrow> ('f spine \<Rightarrow> 'f spine) \<Rightarrow> bool" where
  "honest u w h \<longleftrightarrow> (\<forall>s. honest_step (row_at u w s) (row_at u w (h s)) \<and> sp_history (h s) = sp_history s)"

definition leaves_row :: "int \<Rightarrow> int \<Rightarrow> ('f spine \<Rightarrow> 'f spine) \<Rightarrow> bool" where
  "leaves_row u w h \<longleftrightarrow> (\<forall>s. row_at u w (h s) = row_at u w s)"

text \<open>The merge's input agrees with a row on every field a merge may write.\<close>

definition snapshot_of :: "'f work \<Rightarrow> 'f work_row \<Rightarrow> bool" where
  "snapshot_of w row \<longleftrightarrow>
     row_abridged row \<noteq> None \<and> (\<forall>f \<in> set MERGE_FIELDS. extract_current_field f w = readable_fields row f)"

definition valid_snapshot :: "int \<Rightarrow> int \<Rightarrow> 'f work \<Rightarrow> int \<Rightarrow> 'f spine \<Rightarrow> bool" where
  "valid_snapshot u wid w g s \<longleftrightarrow>
     (\<forall>row. row_at u wid s = Some row \<longrightarrow>
        g \<le> row_merge_generation row \<and> (row_merge_generation row = g \<longrightarrow> snapshot_of w row))"

definition generation_seen :: "int \<Rightarrow> int \<Rightarrow> int \<Rightarrow> 'f spine \<Rightarrow> bool" where
  "generation_seen u wid g s \<longleftrightarrow> (\<forall>row. row_at u wid s = Some row \<longrightarrow> g \<le> row_merge_generation row)"

lemma snapshot_content: "snapshot_of w row \<Longrightarrow> same_content row row' \<Longrightarrow> snapshot_of w row'"
  by (auto simp: snapshot_of_def same_content_def)

lemma honest_valid:
  assumes "honest u wid h" and "valid_snapshot u wid w g s"
  shows "valid_snapshot u wid w g (h s)"
proof (unfold valid_snapshot_def, intro allI impI)
  fix row' assume after: "row_at u wid (h s) = Some row'"
  have step: "honest_step (row_at u wid s) (row_at u wid (h s))" using assms(1) by (simp add: honest_def)
  then obtain row where before: "row_at u wid s = Some row"
    using after by (cases "row_at u wid s") (auto simp: honest_step_def)
  have le: "row_merge_generation row \<le> row_merge_generation row'"
    and same: "row_merge_generation row = row_merge_generation row' \<Longrightarrow> same_content row row'"
    using step before after by (auto simp: honest_step_def)
  have "g \<le> row_merge_generation row" and snap: "row_merge_generation row = g \<Longrightarrow> snapshot_of w row"
    using assms(2) before by (auto simp: valid_snapshot_def)
  then show "g \<le> row_merge_generation row' \<and> (row_merge_generation row' = g \<longrightarrow> snapshot_of w row')"
    using le same snapshot_content [OF snap] by auto
qed

lemma honest_seen: "honest u wid h \<Longrightarrow> generation_seen u wid g s \<Longrightarrow> generation_seen u wid g (h s)"
  unfolding generation_seen_def
proof (intro allI impI)
  fix row' assume h: "honest u wid h" and seen: "\<forall>row. row_at u wid s = Some row \<longrightarrow> g \<le> row_merge_generation row"
    and after: "row_at u wid (h s) = Some row'"
  have step: "honest_step (row_at u wid s) (row_at u wid (h s))" using h by (simp add: honest_def)
  then obtain row where "row_at u wid s = Some row" "row_merge_generation row \<le> row_merge_generation row'"
    using after by (cases "row_at u wid s") (auto simp: honest_step_def)
  then show "g \<le> row_merge_generation row'" using seen by force
qed

lemma read_is_snapshot: "get_work u wid s = Inr w \<Longrightarrow> \<exists>row. row_at u wid s = Some row \<and> snapshot_of w row"
  by (auto simp: get_work_def read_work_def snapshot_of_def readable_fields_def split: option.splits)

lemma seen_then_read:
  "generation_seen u wid g s \<Longrightarrow> get_work u wid s = Inr w \<Longrightarrow> valid_snapshot u wid w g s"
  using read_is_snapshot [of u wid s w] by (auto simp: generation_seen_def valid_snapshot_def)

lemma generation_read: "get_merge_generation u wid s = Inr g \<Longrightarrow> generation_seen u wid g s"
  by (auto simp: get_merge_generation_def generation_seen_def split: option.splits)

lemma read_then_generation:
  assumes "get_work u wid s = Inr w" and "leaves_row u wid h" and "get_merge_generation u wid (h s) = Inr g"
  shows "valid_snapshot u wid w g (h s)"
proof -
  have "row_at u wid (h s) = row_at u wid s" using assms(2) by (simp add: leaves_row_def)
  then show ?thesis
    using assms(3) read_is_snapshot [OF assms(1)]
    by (auto simp: valid_snapshot_def get_merge_generation_def split: option.splits)
qed

section \<open>Stored merges and their snapshots\<close>

definition grows_by_snapshots :: "'f spine \<Rightarrow> 'f spine \<Rightarrow> bool" where
  "grows_by_snapshots s s' \<longleftrightarrow>
     (\<exists>new. sp_history s' = sp_history s @ new \<and> (\<forall>(w, row) \<in> set new. snapshot_of w row))"

lemma grows_refl [simp]: "sp_history s' = sp_history s \<Longrightarrow> grows_by_snapshots s s'"
  by (simp add: grows_by_snapshots_def)

lemma grows_trans: "grows_by_snapshots s s' \<Longrightarrow> grows_by_snapshots s' s'' \<Longrightarrow> grows_by_snapshots s s''"
  unfolding grows_by_snapshots_def by (metis append.assoc set_append UnE)

lemma grows_by_same: "grows_by_snapshots s s' \<Longrightarrow> sp_history s' = sp_history s'' \<Longrightarrow> grows_by_snapshots s s''"
  by (simp add: grows_by_snapshots_def)

lemma grows_from_same: "grows_by_snapshots s s' \<Longrightarrow> sp_history s0 = sp_history s \<Longrightarrow> grows_by_snapshots s0 s'"
  by (simp add: grows_by_snapshots_def)

lemma apply_merge_grows:
  assumes "valid_snapshot u wid w g s" and "apply_merge env w (build_apply_request out u wid g) s = (res, s')"
  shows "grows_by_snapshots s s'"
proof -
  let ?req = "build_apply_request out u wid g"
  obtain res' db' where run: "apply_enrichment_merge (en_identity_key env) (en_now env) ?req (sp_db s) = (res', db')"
    by fastforce
  have req: "a_work_id ?req = wid" "a_user_id ?req = u" "a_expected_merge_generation ?req = g"
    by (simp_all add: build_apply_request_def)
  have gen: "row_merge_generation row = g" if "row_at u wid s = Some row" "res' = Inr Applied" for row
    using run that req by (auto simp: apply_enrichment_merge_def Let_def split: if_splits sum.splits)
  show ?thesis
    using assms run gen req
    by (auto simp: apply_merge_def grows_by_snapshots_def valid_snapshot_def
        split: option.splits sum.splits apply_outcome.splits)
qed

lemma persist_dissents_history [simp]:
  "sp_history (snd (persist_dissents u w g ds s)) = sp_history s"
  "sp_db (snd (persist_dissents u w g ds s)) = sp_db s"
  by (simp_all add: persist_dissents_def Let_def)

lemma observe_history [simp]:
  "sp_history (observe_author_names env u w ps s) = sp_history s"
  "sp_db (observe_author_names env u w ps s) = sp_db s"
  by (simp_all add: observe_author_names_def Let_def)

lemma append_source_history:
  "append_source env u w ocs s = (ocs', s') \<Longrightarrow> sp_history s' = sp_history s \<and> sp_db s' = sp_db s"
  by (auto simp: append_source_def split: option.splits prod.splits)

lemma reconstruct_history:
  "\<forall>pt. honest u wid (world pt) \<Longrightarrow> reconstruct env world u wid ocs s = (res, s')
     \<Longrightarrow> sp_history s' = sp_history s \<and> (\<forall>w g. valid_snapshot u wid w g s \<longrightarrow> valid_snapshot u wid w g s')"
proof (induction ocs arbitrary: s res)
  case (Cons oc ocs)
  obtain p o' where oc: "oc = (p, o')" by (cases oc)
  have hon: "sp_history (world pt t) = sp_history t" for pt t using Cons.prems(1) by (simp add: honest_def)
  have val: "valid_snapshot u wid w g t \<Longrightarrow> valid_snapshot u wid w g (world pt t)" for pt t w g
    using Cons.prems(1) honest_valid by blast
  define s1 where "s1 = (case o' of OSuccess d \<Rightarrow> world (AtReadBack p) s | _ \<Rightarrow> s)"
  have s1: "sp_history s1 = sp_history s" "valid_snapshot u wid w g s \<Longrightarrow> valid_snapshot u wid w g s1" for w g
    using hon val by (auto simp: s1_def split: provider_outcome.split)
  have "s' = s1 \<or> (\<exists>res'. reconstruct env world u wid ocs s1 = (res', s'))"
    using Cons.prems(2) unfolding oc s1_def
    by (auto simp: Let_def split: provider_outcome.splits option.splits sum.splits prod.splits)
  then show ?case using Cons.IH [OF Cons.prems(1)] s1 by fastforce
qed simp

definition fair_world :: "int \<Rightarrow> int \<Rightarrow> 'f world \<Rightarrow> bool" where
  "fair_world u wid world \<longleftrightarrow>
     (\<forall>pt. honest u wid (world pt)) \<and> leaves_row u wid (world AtReuseGeneration)
     \<and> (\<forall>k. leaves_row u wid (world (AtRetryGeneration k)))"

lemma fair_history: "fair_world u wid world \<Longrightarrow> sp_history (world pt s) = sp_history s"
  by (simp add: fair_world_def honest_def)

lemma fair_valid: "fair_world u wid world \<Longrightarrow> valid_snapshot u wid w g s \<Longrightarrow> valid_snapshot u wid w g (world pt s)"
  by (simp add: fair_world_def honest_valid)

lemma cas_loop_grows:
  "fair_world u wid world \<Longrightarrow> valid_snapshot u wid w g s \<Longrightarrow>
     cas_loop env world u wid pass k n w g prov s = (res, s') \<Longrightarrow> grows_by_snapshots s s'"
proof (induction n arbitrary: k w g prov s)
  case (Suc n)
  let ?in = "\<lparr>current_work = w, current_provenance = prov, provider_results = ps_reconstructed pass,
              merge_mode = ps_mode pass, in_priority_model = ps_model pass\<rparr>"
  show ?case
  proof (cases "merge (en_lower env) (en_show_f env) (en_now env) ?in")
    case (Inl e)
    then show ?thesis using Suc.prems(3) by simp
  next
    case (Inr merged)
    let ?out = "merged\<lparr>o_enrichment_status := resolve_status (o_enrichment_status merged) (ps_reconstructed pass)\<rparr>"
    let ?s0 = "world (AtApply k) s"
    obtain r s1 where ap: "apply_merge env w (build_apply_request ?out u wid g) ?s0 = (r, s1)" by fastforce
    have "grows_by_snapshots ?s0 s1"
      by (rule apply_merge_grows [OF fair_valid [OF Suc.prems(1,2)] ap])
    then have g1: "grows_by_snapshots s s1"
      using grows_from_same fair_history [OF Suc.prems(1), of "AtApply k" s] by metis
    note run = Suc.prems(3) [simplified, unfolded Inr, simplified, unfolded Let_def ap, simplified]
    have fh: "sp_history (world pt t) = sp_history t" for pt t by (rule fair_history [OF Suc.prems(1)])
    consider e where "r = Inl e" | "r = Inr Superseded" | a where "r = Inr a" "a \<noteq> Superseded" by (cases r) auto
    then show ?thesis
    proof cases
      case 1
      then show ?thesis using run g1 by simp
    next
      case 2
      let ?s2 = "world (AtRetryWork k) s1" and ?s3 = "world (AtRetryGeneration k) (world (AtRetryWork k) s1)"
      let ?s4 = "world (AtRetryProvenance k) ?s3"
      consider "sp_history s' = sp_history s1"
        | w' g' where "get_work u wid ?s2 = Inr w'" "get_merge_generation u wid ?s3 = Inr g'"
            "cas_loop env world u wid pass (Suc k) n w' g' (list_work_provenance u wid ?s4) ?s4 = (res, s')"
        using run 2 by (auto simp: fh split: if_splits sum.splits)
      then show ?thesis
      proof cases
        case 1
        then show ?thesis using g1 grows_by_same by metis
      next
        case 2
        have "valid_snapshot u wid w' g' ?s3"
          using read_then_generation [where h = "world (AtRetryGeneration k)", OF 2(1) _ 2(2)] Suc.prems(1)
          by (simp add: fair_world_def)
        then have "valid_snapshot u wid w' g' ?s4" by (rule fair_valid [OF Suc.prems(1)])
        then have "grows_by_snapshots ?s4 s'" using Suc.IH [OF Suc.prems(1) _ 2(3)] by blast
        then have "grows_by_snapshots s1 s'" by (rule grows_from_same) (simp add: fh)
        then show ?thesis by (rule grows_trans [OF g1])
      qed
    next
      case 3
      then have "sp_history s' = sp_history s1"
        using run by (cases a) (auto simp: fh persist_dissents_def Let_def split: sum.splits prod.splits)
      then show ?thesis using g1 grows_by_same by metis
    qed
  qed
qed simp

lemma reuse_merge_grows:
  assumes fair: "fair_world u wid world" and read: "get_work u wid s = Inr w"
    and run: "reuse_merge env world u wid w ps s = (res, s')"
  shows "grows_by_snapshots s s'"
proof -
  have fh: "sp_history (world pt t) = sp_history t" for pt t by (rule fair_history [OF fair])
  let ?s1 = "world AtReuseGeneration s" and ?s2 = "world AtReuseProvenance (world AtReuseGeneration s)"
  show ?thesis
  proof (cases "get_merge_generation u wid ?s1")
    case (Inl e)
    then show ?thesis using run by (auto simp: reuse_merge_def Let_def fh)
  next
    case gen: (Inr g)
    have v1: "valid_snapshot u wid w g ?s1"
      by (rule read_then_generation [where h = "world AtReuseGeneration", OF read _ gen]) (use fair in \<open>simp add: fair_world_def\<close>)
    show ?thesis
    proof (cases "merge_from_cached (en_lower env) (en_show_f env) (en_now env) (en_priorities env) w ps
                  (list_work_provenance u wid ?s2) (w_language w)")
      case (Inl e)
      then show ?thesis using run gen by (auto simp: reuse_merge_def Let_def fh)
    next
      case out: (Inr out)
      obtain r s3 where ap: "apply_merge env w (build_apply_request out u wid g) (world AtReuseApply ?s2) = (r, s3)"
        by fastforce
      have "grows_by_snapshots (world AtReuseApply ?s2) s3"
        by (rule apply_merge_grows [OF _ ap]) (intro fair_valid [OF fair] v1)
      then have g3: "grows_by_snapshots s s3" by (rule grows_from_same) (simp add: fh)
      have "sp_history s' = sp_history s3"
        using run gen out ap
        by (auto simp: reuse_merge_def Let_def fh persist_dissents_def split: sum.splits prod.splits apply_outcome.splits)
      then show ?thesis using g3 grows_by_same by metis
    qed
  qed
qed

lemma reuse_grows:
  assumes fair: "fair_world u wid world" and read: "get_work u wid s = Inr w"
    and run: "reuse env world u wid cid w s = (res, s')"
  shows "grows_by_snapshots s s'"
proof -
  have "sp_history s' = sp_history s \<or> (\<exists>ps t. sp_history t = sp_history s \<and> get_work u wid t = Inr w
      \<and> reuse_merge env world u wid w ps t = (res, s'))"
    using run read
    by (fastforce simp: reuse_def Let_def cache_take_def get_work_def split: option.splits prod.splits if_splits)
  then show ?thesis
    using reuse_merge_grows [OF fair] grows_from_same by (metis grows_refl)
qed

lemma network_pass_grows:
  assumes fair: "fair_world u wid world" and run: "network_pass env world u wid mode fresh w s = (res, s')"
  shows "grows_by_snapshots s s'"
proof -
  have fh: "sp_history (world pt t) = sp_history t" for pt t by (rule fair_history [OF fair])
  have seen: "generation_seen u wid g t \<Longrightarrow> generation_seen u wid g (world pt t)" for g t pt
    by (rule honest_seen) (use fair in \<open>simp add: fair_world_def\<close>)
  let ?s1 = "world AtGeneration s" let ?s2 = "world AtDispatch ?s1"
  show ?thesis
  proof (cases "get_merge_generation u wid ?s1")
    case (Inl e)
    then show ?thesis using run by (auto simp: network_pass_def Let_def fh)
  next
    case gen: (Inr g)
    have seen2: "generation_seen u wid g ?s2" by (rule seen [OF generation_read [OF gen]])
    obtain d q where disp: "dispatch_enrichment (en_queue env) u wid (w_language w)
        \<lparr>cx_mode = mode, cx_freshness = fresh, cx_search_only = False\<rparr> (sp_queue ?s2) = (d, q)" by fastforce
    show ?thesis
    proof (cases d)
      case (Inl e)
      then show ?thesis using run gen disp by (auto simp: network_pass_def Let_def fh)
    next
      case (Inr scatter)
      obtain ocs s3 where src: "append_source env u wid (sg_outcomes scatter) (?s2\<lparr>sp_queue := q\<rparr>) = (ocs, s3)" by fastforce
      have s3: "sp_history s3 = sp_history s" "sp_db s3 = sp_db ?s2"
        using append_source_history [OF src] by (simp_all add: fh)
      let ?s4 = "world AtFreshWork s3" let ?s5 = "world AtFreshProvenance ?s4"
      have seen4: "generation_seen u wid g ?s4"
        by (rule seen) (use seen2 s3 in \<open>simp add: generation_seen_def\<close>)
      show ?thesis
      proof (cases "get_work u wid ?s4")
        case (Inl e)
        then show ?thesis using run gen disp \<open>d = Inr scatter\<close> src s3 by (auto simp: network_pass_def Let_def fh)
      next
        case cur: (Inr cur)
        have v5: "valid_snapshot u wid cur g ?s5"
          by (rule fair_valid [OF fair seen_then_read [OF seen4 cur]])
        have fin: "finish_pass env world u wid mode g scatter ocs cur (list_work_provenance u wid ?s5) ?s5 = (res, s')"
          using run gen disp \<open>d = Inr scatter\<close> src cur by (simp add: network_pass_def Let_def)
        have "grows_by_snapshots ?s5 s'"
        proof (cases "sg_deferred scatter \<and> mode = Background")
          case True
          then show ?thesis using fin by (auto simp: finish_pass_def Let_def fh split: sum.splits)
        next
          case False
          obtain rr s6 where rc: "reconstruct env world u wid ocs ?s5 = (rr, s6)" by fastforce
          have s6: "sp_history s6 = sp_history ?s5" "valid_snapshot u wid cur g s6"
            using reconstruct_history [OF _ rc] fair v5 by (auto simp: fair_world_def)
          show ?thesis
          proof (cases rr)
            case (Inl e)
            then show ?thesis using fin False rc s6 by (auto simp: finish_pass_def Let_def)
          next
            case (Inr recon)
            let ?pass = "\<lparr>ps_mode = mode, ps_reconstructed = recon,
                ps_model = engine_priority_model (en_lower env) (en_priorities env) (w_language cur)\<rparr>"
            obtain lr s7 where loop: "cas_loop env world u wid ?pass 0 MAX_CAS_ATTEMPTS cur g
                (list_work_provenance u wid ?s5) s6 = (lr, s7)" by fastforce
            have g7: "grows_by_snapshots s6 s7" by (rule cas_loop_grows [OF fair s6(2) loop])
            have "sp_history s' = sp_history s7"
              using fin False rc Inr loop by (auto simp: finish_pass_def Let_def split: sum.splits prod.splits)
            then show ?thesis using g7 s6(1) grows_from_same grows_by_same by metis
          qed
        qed
        then show ?thesis by (rule grows_from_same) (simp add: fh s3)
      qed
    qed
  qed
qed

text \<open>
  C6 (safety): Enrichment never reverts an edit it could see. Whatever the other writers do before each
  database access of a pass, as long as each of them honours the merge generation and none writes the
  work's row between a read of the work and the read of its generation in the reuse and the retry
  path, every merge the pass stores was computed from a work that agrees, field by field, with the very row
  it replaces.
\<close>

theorem stored_merges_replace_what_they_read:
  assumes "fair_world u wid world"
    and "enrich_work env world u wid mode cid fresh s = (res, s')"
  shows "\<exists>new. sp_history s' = sp_history s @ new \<and> (\<forall>(w, row) \<in> set new. snapshot_of w row)"
proof -
  have fh: "sp_history (world pt t) = sp_history t" for pt t by (rule fair_history [OF assms(1)])
  let ?s1 = "world AtWork s"
  have "grows_by_snapshots ?s1 s'"
  proof (cases "get_work u wid ?s1")
    case (Inl e)
    then show ?thesis using assms(2) by (auto simp: enrich_work_def Let_def)
  next
    case read: (Inr w)
    obtain r s2 where re: "reuse env world u wid cid w ?s1 = (r, s2)" by fastforce
    have g2: "grows_by_snapshots ?s1 s2" by (rule reuse_grows [OF assms(1) read re])
    show ?thesis
    proof (cases r)
      case None
      then have "network_pass env world u wid mode fresh w s2 = (res, s')"
        using assms(2) read re by (simp add: enrich_work_def Let_def)
      then show ?thesis using grows_trans [OF g2] network_pass_grows [OF assms(1)] by blast
    next
      case (Some a)
      then show ?thesis using assms(2) read re g2 by (simp add: enrich_work_def Let_def)
    qed
  qed
  then show ?thesis using fh by (simp add: grows_by_snapshots_def)
qed

section \<open>Edits during a pass\<close>

lemma readable_monitor:
  "readable_fields (row\<lparr>row_work := (row_work row)\<lparr>w_monitor_ebook := x\<rparr>\<rparr>) f = readable_fields row f"
  "readable_fields (row\<lparr>row_work := (row_work row)\<lparr>w_monitor_audiobook := y\<rparr>\<rparr>) f = readable_fields row f"
  "readable_fields (row\<lparr>row_work := (row_work row)\<lparr>w_monitor_ebook := x, w_monitor_audiobook := y\<rparr>\<rparr>) f = readable_fields row f"
  by (cases f; simp add: readable_fields_def split: option.split)+

lemma user_edit_honest: "honest u w (\<lambda>s. snd (update_work_user_fields u w req s))"
  unfolding honest_def
proof (intro allI conjI)
  fix s :: "'a spine"
  show "sp_history (snd (update_work_user_fields u w req s)) = sp_history s"
    by (auto simp: update_work_user_fields_def Let_def split: sum.split option.split)
  show "honest_step (row_at u w s) (row_at u w (snd (update_work_user_fields u w req s)))"
  proof (cases "row_at u w s")
    case None
    then show ?thesis by (simp add: update_work_user_fields_def get_work_def honest_step_def)
  next
    case (Some row)
    show ?thesis
    proof (cases "row_abridged row")
      case None
      then show ?thesis using Some
        by (simp add: update_work_user_fields_def get_work_def read_work_def honest_step_def same_content_def)
    next
      case b: (Some b)
      show ?thesis using Some b
        by (auto simp: readable_monitor update_work_user_fields_def get_work_def read_work_def honest_step_def same_content_def
            Let_def coalesce_def split: option.splits)
    qed
  qed
qed

text \<open>
  An example: a work with a title and a pending Readarr description, and two edits of the title
  while a manual pass runs, the first before the pass stores its merge, the second before or after the
  pass has read the work again.
\<close>

definition race_row :: "nat work_row" where
  "race_row = \<lparr>row_work = blank_work\<lparr>w_id := 7, w_user_id := 1, w_title := ''Old'', w_author_name := ''A'', w_language := Some ''en''\<rparr>,
     row_abridged = Some False, row_normalized_title = [], row_normalized_author = [], row_merge_generation = 1\<rparr>"

definition race_source :: "nat source_provider_data" where
  "race_source = \<lparr>sd_description = Some ''text'', sd_isbn = None, sd_asin = None, sd_publisher = None, sd_genres = None,
     sd_page_count = None, sd_rating = None, sd_rating_count = None, sd_cover_url = None, sd_series_name = None,
     sd_series_position = None\<rparr>"

definition race_state :: "nat spine" where
  "race_state = \<lparr>sp_db = \<lparr>db_works = [(7, 1) \<mapsto> race_row], db_provenance = Map.empty\<rparr>,
     sp_queue = example_queue_state, sp_dissents = [], sp_sources = [(1, 7, race_source)], sp_transport = [],
     sp_names = [], sp_cached_calls = [], sp_history = []\<rparr>"

definition race_env :: "nat spine_env" where
  "race_env = \<lparr>en_lower = to_ascii_lowercase, en_show_f = show_nat, en_parse_f = (\<lambda>_. None),
     en_identity_key = (\<lambda>t a. (t, a)), en_now = 5, en_priorities = Fixed english_model, en_transport_ttl = None,
     en_observes_names = False,
     en_queue = \<lparr>env_providers = [], env_applicable = (\<lambda>_. True),
      env_search_available = (\<lambda>_. False), env_fetch = (\<lambda>_ _. None),
      env_search_client = (\<lambda>_. \<lparr>search_identity_candidates = (\<lambda>_ _ _. None), probe_identity_candidate = (\<lambda>_ _. None)\<rparr>),
      env_classify = (\<lambda>_ _ _. Abstain), env_strip_isbn = (\<lambda>v. v), env_join_order = (\<lambda>ps. ps),
      env_captured_identity = Inr \<lparr>ci_title_main = ''Old'', ci_primary_author_id = 3, ci_active_routes = []\<rparr>,
      env_author_names = (\<lambda>_. Inr []), env_to_json = (\<lambda>_. []), env_from_json = (\<lambda>_. None),
      env_now = 5, env_cache_ttl = 60, env_cache_max_rows = 5\<rparr>\<rparr>"

definition set_title :: "string \<Rightarrow> 'f user_fields_request" where
  "set_title t = \<lparr>uf_title = Some t, uf_author_name = None, uf_normalized_title = None, uf_normalized_author = None,
     uf_series_name = None, uf_series_position = None, uf_monitor_ebook = None, uf_monitor_audiobook = None\<rparr>"

definition edit_title :: "string \<Rightarrow> nat spine \<Rightarrow> nat spine" where
  "edit_title t s = snd (update_work_user_fields 1 7 (set_title t) s)"

fun race_world :: "nat world" where
  "race_world (AtApply k) = (if k = 0 then edit_title ''First'' else id)"
| "race_world (AtRetryGeneration k) = (if k = 0 then edit_title ''Second'' else id)"
| "race_world _ = id"

fun calm_world :: "nat world" where
  "calm_world (AtApply k) = (if k = 0 then edit_title ''First'' else id)"
| "calm_world (AtRetryWork k) = (if k = 0 then edit_title ''Second'' else id)"
| "calm_world _ = id"

lemma edit_title_honest: "honest 1 7 (edit_title t)"
  unfolding edit_title_def by (rule user_edit_honest)

lemma id_honest [simp]: "honest u w id"
  by (auto simp: honest_def honest_step_def same_content_def split: option.split)

theorem stored_merges_replace_what_they_read_witness:
  "\<exists>new. sp_history (snd (enrich_work race_env calm_world 1 7 Manual None Bypass race_state)) = new
     \<and> (\<forall>(w, row) \<in> set new. snapshot_of w row)"
proof -
  have "honest 1 7 (calm_world pt)" for pt by (cases pt) (simp_all add: edit_title_honest)
  then have "fair_world 1 7 calm_world" by (simp add: fair_world_def leaves_row_def)
  moreover obtain res s' where run: "enrich_work race_env calm_world 1 7 Manual None Bypass race_state = (res, s')"
    by fastforce
  moreover have "sp_history race_state = []" by (simp add: race_state_def)
  ultimately show ?thesis using stored_merges_replace_what_they_read by fastforce
qed

text \<open>
  The retry of the compare-and-set can revert a user's edit. Its order of reads, work first and
  generation second, is the opposite of the first attempt's. With two edits of the title by
  \<^const>\<open>update_work_user_fields\<close>, which honours the generation, the pass returns without an
  error and the title of the stored row is that of the first edit, although the second came later; when the second edit falls
  before the work is read again, it stays.
\<close>

theorem retried_merge_can_revert_an_edit:
  "(\<forall>pt. honest 1 7 (race_world pt))
   \<and> (case enrich_work race_env race_world 1 7 Manual None Bypass race_state of
        (res, s') \<Rightarrow> \<not> isl res \<and> map_option (w_title \<circ> row_work) (row_at 1 7 s') = Some ''First'')
   \<and> (case enrich_work race_env calm_world 1 7 Manual None Bypass race_state of
        (res, s') \<Rightarrow> \<not> isl res \<and> map_option (w_title \<circ> row_work) (row_at 1 7 s') = Some ''Second'')"
proof (intro conjI allI)
  show "honest 1 7 (race_world pt)" for pt by (cases pt) (simp_all add: edit_title_honest)
qed code_simp+

section \<open>An undisturbed pass\<close>


















end
