(* ===== verification/Grabs.thy ===== *)
theory Grabs
  imports Prelude "HOL-Library.AList"
begin

text \<open>
  Grabs, the releases sent to a download client, and their imports: the statements on the table
  (\<^verbatim>\<open>livrarr-db/src/sqlite_grab.rs\<close>), the removal (\<^verbatim>\<open>livrarr-download/src/grab_service.rs\<close>), the start-up
  recovery (\<^verbatim>\<open>jobs/maintenance.rs\<close>) and the download poller (\<^verbatim>\<open>jobs/download_poller.rs\<close>) with the import tasks it
  spawns.

  Several actors write the table between each other's statements: the poller, the retry of failed
  imports, import tasks, users. Each statement is a step of one relation, and the poller's functions are
  shown to be sequences of these steps. What the download clients report, the mapping of remote paths to
  local ones and the presence of the files are arguments. Times are nanoseconds since the
  epoch; the SQL of the retry compares whole seconds.
\<close>

section \<open>The table\<close>

datatype grab_status = Sent | Confirmed | Importing | Imported | ImportFailed | Removed | Failed

datatype media_type = Ebook | Audiobook

record grab =
  g_id :: int
  g_user_id :: int
  g_work_id :: int
  g_download_client_id :: int
  g_title :: string
  g_indexer :: string
  g_guid :: string
  g_size :: "int option"
  g_download_url :: string
  g_download_id :: "string option"
  g_status :: grab_status
  g_import_error :: "string option"
  g_media_type :: "media_type option"
  g_content_path :: "string option"
  g_grabbed_at :: int
  g_import_retry_count :: int
  g_import_failed_at :: "int option"

record grab_db =
  gd_users :: "int list"
  gd_works :: "int list"
  gd_clients :: "int list"
  gd_rows :: "grab list"
  gd_next_id :: int

datatype grab_error = GrabNotFound | GrabConstraint string

fun grab_status_str :: "grab_status \<Rightarrow> string" where
  "grab_status_str Sent = ''sent''"
| "grab_status_str Confirmed = ''confirmed''"
| "grab_status_str Importing = ''importing''"
| "grab_status_str Imported = ''imported''"
| "grab_status_str ImportFailed = ''importFailed''"
| "grab_status_str Removed = ''removed''"
| "grab_status_str Failed = ''failed''"

definition parse_grab_status :: "string \<Rightarrow> grab_status option" where
  "parse_grab_status s =
     (if s = ''sent'' then Some Sent else if s = ''confirmed'' then Some Confirmed
      else if s = ''importing'' then Some Importing else if s = ''imported'' then Some Imported
      else if s = ''importFailed'' then Some ImportFailed else if s = ''removed'' then Some Removed
      else if s = ''failed'' then Some Failed else None)"

record create_grab_request =
  cg_user_id :: int
  cg_work_id :: int
  cg_download_client_id :: int
  cg_title :: string
  cg_indexer :: string
  cg_guid :: string
  cg_size :: "int option"
  cg_download_url :: string
  cg_download_id :: "string option"
  cg_status :: grab_status
  cg_media_type :: "media_type option"

definition owned_row :: "int \<Rightarrow> int \<Rightarrow> grab \<Rightarrow> bool" where
  "owned_row user_id gid g \<longleftrightarrow> g_id g = gid \<and> g_user_id g = user_id"

definition get_grab :: "int \<Rightarrow> int \<Rightarrow> grab_db \<Rightarrow> grab option" where
  "get_grab user_id gid db = find (owned_row user_id gid) (gd_rows db)"

definition list_grabs_by_work :: "int \<Rightarrow> int \<Rightarrow> grab_db \<Rightarrow> grab list" where
  "list_grabs_by_work user_id work_id db =
     filter (\<lambda>g. g_user_id g = user_id \<and> g_work_id g = work_id) (gd_rows db)"

text \<open>
  One page, newest first. The offset is computed in 32 bits; a release build wraps. SQLite breaks
  ties of the date in its own order; the model keeps the order of the ids.
\<close>

definition page_offset :: "u32 \<Rightarrow> u32 \<Rightarrow> u32" where
  "page_offset page per_page = (if page = 0 then 0 else page - 1) * per_page"

definition list_grabs_paginated :: "int \<Rightarrow> u32 \<Rightarrow> u32 \<Rightarrow> grab_db \<Rightarrow> grab list \<times> nat" where
  "list_grabs_paginated user_id page per_page db =
     (let own = filter (\<lambda>g. g_user_id g = user_id) (gd_rows db) in
      (take (unat per_page) (drop (unat (page_offset page per_page)) (sort_key (\<lambda>g. - g_grabbed_at g) own)), length own))"

definition list_active_grabs :: "grab_db \<Rightarrow> grab list" where
  "list_active_grabs db = filter (\<lambda>g. g_status g \<in> {Sent, Confirmed}) (gd_rows db)"

definition same_release :: "create_grab_request \<Rightarrow> grab \<Rightarrow> bool" where
  "same_release req g \<longleftrightarrow> g_user_id g = cg_user_id req \<and> g_guid g = cg_guid req \<and> g_indexer g = cg_indexer req"

definition replaceable :: "grab \<Rightarrow> bool" where
  "replaceable g \<longleftrightarrow> g_status g \<in> {Failed, Removed}"

definition new_grab :: "int \<Rightarrow> int \<Rightarrow> create_grab_request \<Rightarrow> grab" where
  "new_grab now gid req =
     \<lparr>g_id = gid, g_user_id = cg_user_id req, g_work_id = cg_work_id req,
      g_download_client_id = cg_download_client_id req, g_title = cg_title req, g_indexer = cg_indexer req,
      g_guid = cg_guid req, g_size = cg_size req, g_download_url = cg_download_url req,
      g_download_id = cg_download_id req, g_status = cg_status req, g_import_error = None,
      g_media_type = cg_media_type req, g_content_path = None, g_grabbed_at = now,
      g_import_retry_count = 0, g_import_failed_at = None\<rparr>"

text \<open>\<^verbatim>\<open>ON CONFLICT ... DO UPDATE\<close>: the columns it names, and no other.\<close>

definition replaced_grab :: "int \<Rightarrow> create_grab_request \<Rightarrow> grab \<Rightarrow> grab" where
  "replaced_grab now req g =
     g\<lparr>g_work_id := cg_work_id req, g_download_client_id := cg_download_client_id req, g_title := cg_title req,
       g_size := cg_size req, g_download_url := cg_download_url req, g_download_id := cg_download_id req,
       g_status := cg_status req, g_import_error := None, g_media_type := cg_media_type req,
       g_grabbed_at := now\<rparr>"

definition upsert_grab :: "int \<Rightarrow> create_grab_request \<Rightarrow> grab_db \<Rightarrow> (grab_error + grab) \<times> grab_db" where
  "upsert_grab now req db =
     (if \<not> (cg_user_id req \<in> set (gd_users db) \<and> cg_work_id req \<in> set (gd_works db)
            \<and> cg_download_client_id req \<in> set (gd_clients db))
      then (Inl (GrabConstraint ''FOREIGN KEY constraint failed''), db)
      else
        case find (same_release req) (gd_rows db) of
          None \<Rightarrow>
            (let g = new_grab now (gd_next_id db) req in
             (Inr g, db\<lparr>gd_rows := gd_rows db @ [g], gd_next_id := gd_next_id db + 1\<rparr>))
        | Some g \<Rightarrow>
            if replaceable g
            then (Inr (replaced_grab now req g),
                  db\<lparr>gd_rows := map (\<lambda>h. if g_id h = g_id g then replaced_grab now req h else h) (gd_rows db)\<rparr>)
            else (Inl (GrabConstraint ''grab already exists for this guid/indexer with a non-replaceable status''), db))"

definition update_row :: "int \<Rightarrow> int \<Rightarrow> (grab \<Rightarrow> grab) \<Rightarrow> grab_db \<Rightarrow> bool \<times> grab_db" where
  "update_row user_id gid f db =
     (\<exists>g \<in> set (gd_rows db). owned_row user_id gid g,
      db\<lparr>gd_rows := map (\<lambda>g. if owned_row user_id gid g then f g else g) (gd_rows db)\<rparr>)"

definition update_grab_status ::
  "int \<Rightarrow> int \<Rightarrow> int \<Rightarrow> grab_status \<Rightarrow> string option \<Rightarrow> grab_db \<Rightarrow> (grab_error + unit) \<times> grab_db" where
  "update_grab_status now user_id gid status error db =
     (case update_row user_id gid
             (\<lambda>g. g\<lparr>g_status := status, g_import_error := error,
                    g_import_failed_at := (if status = ImportFailed then Some now else g_import_failed_at g)\<rparr>) db of
        (affected, db') \<Rightarrow> (if affected then Inr () else Inl GrabNotFound, db'))"

definition update_grab_download_id :: "int \<Rightarrow> int \<Rightarrow> string \<Rightarrow> grab_db \<Rightarrow> (grab_error + unit) \<times> grab_db" where
  "update_grab_download_id user_id gid download_id db =
     (case update_row user_id gid (\<lambda>g. g\<lparr>g_download_id := Some download_id\<rparr>) db of
        (affected, db') \<Rightarrow> (if affected then Inr () else Inl GrabNotFound, db'))"

definition get_grab_by_download_id :: "string \<Rightarrow> grab_db \<Rightarrow> grab option" where
  "get_grab_by_download_id download_id db = find (\<lambda>g. g_download_id g = Some download_id) (gd_rows db)"

definition reset_importing_grabs :: "grab_db \<Rightarrow> nat \<times> grab_db" where
  "reset_importing_grabs db =
     (length (filter (\<lambda>g. g_status g = Importing) (gd_rows db)),
      db\<lparr>gd_rows := map (\<lambda>g. if g_status g = Importing then g\<lparr>g_status := Confirmed\<rparr> else g) (gd_rows db)\<rparr>)"

definition set_grab_content_path :: "int \<Rightarrow> int \<Rightarrow> string \<Rightarrow> grab_db \<Rightarrow> grab_db" where
  "set_grab_content_path user_id gid path db =
     snd (update_row user_id gid (\<lambda>g. g\<lparr>g_content_path := Some path\<rparr>) db)"

definition importable :: "grab \<Rightarrow> bool" where
  "importable g \<longleftrightarrow> g_status g \<in> {Sent, Confirmed, ImportFailed}"

definition try_set_importing :: "int \<Rightarrow> int \<Rightarrow> grab_db \<Rightarrow> bool \<times> grab_db" where
  "try_set_importing user_id gid db =
     (\<exists>g \<in> set (gd_rows db). owned_row user_id gid g \<and> importable g,
      db\<lparr>gd_rows := map (\<lambda>g. if owned_row user_id gid g \<and> importable g
                             then g\<lparr>g_status := Importing, g_import_error := None\<rparr> else g) (gd_rows db)\<rparr>)"

definition grabs_of :: "int \<Rightarrow> int \<Rightarrow> media_type \<Rightarrow> grab_db \<Rightarrow> grab list" where
  "grabs_of user_id work_id mt db =
     filter (\<lambda>g. g_user_id g = user_id \<and> g_work_id g = work_id \<and> g_media_type g = Some mt) (gd_rows db)"

definition active_grab_exists :: "int \<Rightarrow> int \<Rightarrow> media_type \<Rightarrow> grab_db \<Rightarrow> bool" where
  "active_grab_exists user_id work_id mt db \<longleftrightarrow>
     (\<exists>g \<in> set (grabs_of user_id work_id mt db). g_status g \<in> {Sent, Confirmed, Importing})"

definition release_already_failed :: "int \<Rightarrow> int \<Rightarrow> media_type \<Rightarrow> string \<Rightarrow> grab_db \<Rightarrow> bool" where
  "release_already_failed user_id work_id mt guid db \<longleftrightarrow>
     (\<exists>g \<in> set (grabs_of user_id work_id mt db). g_guid g = guid \<and> g_status g \<in> {ImportFailed, Failed})"

definition recent_failed_grab_count :: "int \<Rightarrow> int \<Rightarrow> media_type \<Rightarrow> int \<Rightarrow> grab_db \<Rightarrow> nat" where
  "recent_failed_grab_count user_id work_id mt since db =
     length (filter (\<lambda>g. g_status g \<in> {ImportFailed, Failed} \<and> g_grabbed_at g \<ge> since)
               (grabs_of user_id work_id mt db))"

definition unixepoch :: "int \<Rightarrow> int" where
  "unixepoch t = t div 1000000000"

definition backoff_expired :: "int \<Rightarrow> grab \<Rightarrow> bool" where
  "backoff_expired now g =
     (case g_import_failed_at g of
        None \<Rightarrow> True
      | Some t \<Rightarrow> unixepoch now - unixepoch t > 2 ^ nat (g_import_retry_count g) * 120)"

definition list_retriable_grabs :: "int \<Rightarrow> int \<Rightarrow> grab_db \<Rightarrow> grab list" where
  "list_retriable_grabs now max_retries db =
     filter (\<lambda>g. g_status g = ImportFailed \<and> g_import_retry_count g < max_retries \<and> backoff_expired now g) (gd_rows db)"

definition increment_import_retry :: "int \<Rightarrow> int \<Rightarrow> int \<Rightarrow> grab_db \<Rightarrow> grab_db" where
  "increment_import_retry now user_id gid db =
     snd (update_row user_id gid
       (\<lambda>g. g\<lparr>g_import_retry_count := g_import_retry_count g + 1, g_import_failed_at := Some now\<rparr>) db)"

record queue_summary =
  qs_total :: nat
  qs_downloading :: nat
  qs_importing :: nat

definition queue_summary_of :: "int \<Rightarrow> grab_db \<Rightarrow> queue_summary" where
  "queue_summary_of user_id db =
     (let shown = filter (\<lambda>g. g_user_id g = user_id \<and> g_status g \<notin> {Imported, Removed}) (gd_rows db) in
      \<lparr>qs_total = length shown,
       qs_downloading = length (filter (\<lambda>g. g_status g \<in> {Sent, Confirmed}) shown),
       qs_importing = length (filter (\<lambda>g. g_status g = Importing) shown)\<rparr>)"

section \<open>The poller\<close>

text \<open>
  The server's state as far as grabs go: the table, the import tasks that have been spawned and have
  not settled their grab, the notifications about missing paths, the download-failed history events, and the
  retries the retry job has made of each grab.
\<close>

record sys =
  sys_db :: grab_db
  sys_tasks :: "(int \<times> int) list"
  sys_path_notes :: "(int \<times> int) list"
  sys_failed_events :: "(int \<times> int) list"
  sys_retries :: "int list"

definition spawn_import :: "int \<Rightarrow> int \<Rightarrow> sys \<Rightarrow> sys" where
  "spawn_import user_id gid s = s\<lparr>sys_tasks := sys_tasks s @ [(user_id, gid)]\<rparr>"

text \<open>The transition and, when it happened, the task.\<close>

definition start_import :: "int \<Rightarrow> int \<Rightarrow> sys \<Rightarrow> sys" where
  "start_import user_id gid s =
     (case try_set_importing user_id gid (sys_db s) of
        (ok, db') \<Rightarrow> let s' = s\<lparr>sys_db := db'\<rparr> in if ok then spawn_import user_id gid s' else s')"

text \<open>The end of an import task: the final status of the grab is written.\<close>

definition settle_import :: "int \<Rightarrow> int \<Rightarrow> int \<Rightarrow> grab_status \<Rightarrow> string option \<Rightarrow> sys \<Rightarrow> sys" where
  "settle_import now user_id gid status error s =
     s\<lparr>sys_db := snd (update_grab_status now user_id gid status error (sys_db s)),
       sys_tasks := remove1 (user_id, gid) (sys_tasks s)\<rparr>"

text \<open>
  The second write: an import that has settled its grab as imported and then cannot read the work for the tags and the
  e-mails returns an error, and its caller marks the grab as failed.
\<close>

definition fail_after_import :: "int \<Rightarrow> int \<Rightarrow> int \<Rightarrow> string \<Rightarrow> sys \<Rightarrow> sys" where
  "fail_after_import now user_id gid error s =
     s\<lparr>sys_db := snd (update_grab_status now user_id gid ImportFailed (Some error) (sys_db s))\<rparr>"

text \<open>
  What is known of a finished download: the path the client reports, and whether the mapped local
  path could be computed and is there.
\<close>

datatype local_files = MappingFailed | NotThere | There

datatype queue_status = Downloading | Queued | Paused | Completed | Warning | Error

definition classify_qbit_state :: "string \<Rightarrow> queue_status \<times> bool" where
  "classify_qbit_state s =
     (if s \<in> {''downloading'', ''stalledDL'', ''forcedDL'', ''moving''} then (Downloading, False)
      else if s \<in> {''metaDL'', ''forcedMetaDL'', ''allocating'', ''queuedDL'', ''checkingDL'',
                   ''checkingResumeData'', ''checkingUP''} then (Queued, False)
      else if s \<in> {''pausedDL'', ''stoppedDL''} then (Paused, False)
      else if s \<in> {''uploading'', ''stalledUP'', ''forcedUP'', ''queuedUP'', ''pausedUP'', ''stoppedUP''}
      then (Completed, True)
      else if s = ''missingFiles'' then (Warning, False)
      else if s = ''error'' then (Error, False)
      else (Warning, False))"

definition import_safe :: "string \<Rightarrow> bool" where
  "import_safe s = snd (classify_qbit_state s)"

definition minutes_15 :: int where "minutes_15 = 15 * 60 * 1000000000"
definition hours_24 :: int where "hours_24 = 24 * 3600 * 1000000000"

definition note_missing_path :: "int \<Rightarrow> grab \<Rightarrow> sys \<Rightarrow> sys" where
  "note_missing_path now g s =
     (if now - g_grabbed_at g > minutes_15
      then s\<lparr>sys_path_notes := sys_path_notes s @ [(g_user_id g, g_id g)]\<rparr> else s)"

definition keep_content_path :: "grab \<Rightarrow> string \<Rightarrow> sys \<Rightarrow> sys" where
  "keep_content_path g path s =
     (if g_content_path g = None
      then s\<lparr>sys_db := set_grab_content_path (g_user_id g) (g_id g) path (sys_db s)\<rparr> else s)"

record torrent =
  t_hash :: string
  t_state :: string
  t_name :: string
  t_content_path :: "string option"

text \<open>The last grab of a hash map built from the list of the client's grabs.\<close>

definition last_with :: "(grab \<Rightarrow> string option) \<Rightarrow> string \<Rightarrow> grab list \<Rightarrow> grab option" where
  "last_with key v gs = find (\<lambda>g. key g = Some v) (rev gs)"

definition known_download_id :: "grab \<Rightarrow> string option" where
  "known_download_id g =
     (case g_download_id g of
        Some gid \<Rightarrow> if gid \<noteq> ''pending'' \<and> gid \<noteq> [] then Some (to_ascii_lowercase gid) else None
      | None \<Rightarrow> None)"

definition match_torrent :: "(string \<Rightarrow> string \<Rightarrow> bool) \<Rightarrow> torrent \<Rightarrow> grab list \<Rightarrow> grab option" where
  "match_torrent similar t gs =
     (case last_with known_download_id (to_ascii_lowercase (t_hash t)) gs of
        Some g \<Rightarrow> Some g
      | None \<Rightarrow>
          (case last_with (\<lambda>g. Some (to_ascii_lowercase (g_title g))) (to_ascii_lowercase (t_name t)) gs of
             Some g \<Rightarrow> Some g
           | None \<Rightarrow> find (\<lambda>g. g_download_id g = Some ''pending'' \<and> similar (g_title g) (t_name t)) gs))"

definition poll_torrent ::
  "int \<Rightarrow> (string \<Rightarrow> string \<Rightarrow> bool) \<Rightarrow> (string \<Rightarrow> local_files) \<Rightarrow> grab list \<Rightarrow> torrent \<Rightarrow> sys \<Rightarrow> sys" where
  "poll_torrent now similar files gs t s =
     (if \<not> import_safe (t_state t) then s
      else
        case match_torrent similar t gs of
          None \<Rightarrow> s
        | Some g \<Rightarrow>
            (let s1 = (if g_download_id g = None \<and> t_hash t \<noteq> []
                       then s\<lparr>sys_db := snd (update_grab_download_id (g_user_id g) (g_id g) (t_hash t) (sys_db s))\<rparr> else s)
             in case t_content_path t of
                  None \<Rightarrow> s1
                | Some path \<Rightarrow>
                    (case files path of
                       MappingFailed \<Rightarrow> s1
                     | NotThere \<Rightarrow> note_missing_path now g s1
                     | There \<Rightarrow> start_import (g_user_id g) (g_id g) (keep_content_path g path s1))))"

definition client_grabs :: "int \<Rightarrow> sys \<Rightarrow> grab list" where
  "client_grabs client_id s = filter (\<lambda>g. g_download_client_id g = client_id) (list_active_grabs (sys_db s))"

definition poll_qbittorrent ::
  "int \<Rightarrow> (string \<Rightarrow> string \<Rightarrow> bool) \<Rightarrow> (string \<Rightarrow> local_files) \<Rightarrow> int \<Rightarrow> torrent list \<Rightarrow> sys \<Rightarrow> sys" where
  "poll_qbittorrent now similar files client_id ts s =
     fold (poll_torrent now similar files (client_grabs client_id s)) ts s"

record sab_entry =
  sab_nzo_id :: string
  sab_status :: string
  sab_storage :: string
  sab_fail_message :: string

definition mark_failed :: "int \<Rightarrow> grab \<Rightarrow> string \<Rightarrow> sys \<Rightarrow> (grab_error + unit) \<times> sys" where
  "mark_failed now g msg s =
     (case update_grab_status now (g_user_id g) (g_id g) Failed (Some msg) (sys_db s) of
        (r, db') \<Rightarrow> (r, s\<lparr>sys_db := db'\<rparr>))"

definition poll_sab_grab ::
  "int \<Rightarrow> (string \<Rightarrow> local_files) \<Rightarrow> string list \<Rightarrow> sab_entry list \<Rightarrow> grab \<Rightarrow> sys \<Rightarrow> sys" where
  "poll_sab_grab now files queue history g s =
     (case g_download_id g of
        None \<Rightarrow> s
      | Some nzo \<Rightarrow>
          if nzo \<in> set queue then s
          else
            case find (\<lambda>e. sab_nzo_id e = nzo) history of
              Some e \<Rightarrow>
                if sab_status e = ''Completed''
                then (case files (sab_storage e) of
                        MappingFailed \<Rightarrow> s
                      | NotThere \<Rightarrow> note_missing_path now g s
                      | There \<Rightarrow> start_import (g_user_id g) (g_id g) (keep_content_path g (sab_storage e) s))
                else if sab_status e = ''Failed''
                then (case mark_failed now g (sab_fail_message e) s of
                        (Inr _, s') \<Rightarrow> s'\<lparr>sys_failed_events := sys_failed_events s' @ [(g_user_id g, g_id g)]\<rparr>
                      | (Inl _, s') \<Rightarrow> s')
                else s
            | None \<Rightarrow>
                if now - g_grabbed_at g > hours_24
                then snd (mark_failed now g ''download not found in SABnzbd'' s) else s)"

text \<open>The queue is reachable here; \<open>history\<close> is empty when it could not be read.\<close>

definition poll_sabnzbd ::
  "int \<Rightarrow> (string \<Rightarrow> local_files) \<Rightarrow> int \<Rightarrow> string list \<Rightarrow> sab_entry list \<Rightarrow> sys \<Rightarrow> sys" where
  "poll_sabnzbd now files client_id queue history s =
     (let gs = client_grabs client_id s;
          seen = (if \<exists>g \<in> set gs. case g_download_id g of Some gid \<Rightarrow> gid \<notin> set queue | None \<Rightarrow> False
                  then history else [])
      in fold (poll_sab_grab now files queue seen) gs s)"

record transmission_torrent =
  tr_hash :: string
  tr_done :: bool
  tr_status :: int
  tr_dir :: string
  tr_name :: string

definition trim_end_slashes :: "string \<Rightarrow> string" where
  "trim_end_slashes p = rev (dropWhile (\<lambda>c. c = CHR ''/'') (rev p))"

definition poll_transmission_torrent ::
  "(string \<Rightarrow> local_files) \<Rightarrow> grab list \<Rightarrow> transmission_torrent \<Rightarrow> sys \<Rightarrow> sys" where
  "poll_transmission_torrent files gs t s =
     (case last_with known_download_id (to_ascii_lowercase (tr_hash t)) gs of
        None \<Rightarrow> s
      | Some g \<Rightarrow>
          if \<not> (tr_done t \<and> tr_status t \<in> {0, 5, 6}) then s
          else
            (let path = trim_end_slashes (tr_dir t) @ ''/'' @ tr_name t in
             case files path of
               There \<Rightarrow> start_import (g_user_id g) (g_id g) (keep_content_path g path s)
             | _ \<Rightarrow> s))"

definition poll_transmission ::
  "(string \<Rightarrow> local_files) \<Rightarrow> int \<Rightarrow> transmission_torrent list \<Rightarrow> sys \<Rightarrow> sys" where
  "poll_transmission files client_id ts s =
     fold (poll_transmission_torrent files (client_grabs client_id s)) ts s"

definition MAX_RETRIES :: int where "MAX_RETRIES = 5"

definition retry_import_of :: "int \<Rightarrow> grab \<Rightarrow> sys \<Rightarrow> sys" where
  "retry_import_of now g s =
     start_import (g_user_id g) (g_id g)
       (s\<lparr>sys_db := increment_import_retry now (g_user_id g) (g_id g) (sys_db s),
          sys_retries := g_id g # sys_retries s\<rparr>)"

definition retry_failed_imports :: "int \<Rightarrow> sys \<Rightarrow> sys" where
  "retry_failed_imports now s =
     fold (retry_import_of now) (list_retriable_grabs now MAX_RETRIES (sys_db s)) s"

section \<open>Users and start-up\<close>

definition remove_grab :: "int \<Rightarrow> int \<Rightarrow> int \<Rightarrow> sys \<Rightarrow> (grab_error + unit) \<times> sys" where
  "remove_grab now user_id gid s =
     (case get_grab user_id gid (sys_db s) of
        None \<Rightarrow> (Inl GrabNotFound, s)
      | Some g \<Rightarrow>
          (case update_grab_status now user_id gid Removed None (sys_db s) of
             (r, db') \<Rightarrow> (r, s\<lparr>sys_db := db'\<rparr>)))"

text \<open>The import tasks of the old process are gone when the recovery runs.\<close>

definition restart :: "sys \<Rightarrow> sys" where
  "restart s = s\<lparr>sys_tasks := [], sys_db := snd (reset_importing_grabs (sys_db s))\<rparr>"

end
