(* ===== verification/GrabGuarantees.thy ===== *)
theory GrabGuarantees
  imports Grabs
begin

text \<open>
  What holds of grabs under any interleaving of the actors: the table stays well formed, an import
  claims its grab exclusively as long as nobody else overwrites the status of a running import, and the
  retry job's attempts are bounded for the life of a row.
\<close>

section \<open>Claims\<close>

text \<open>
  The contract the import tasks rely on: a claim succeeds on a key that is not busy and makes exactly
  that key busy, settling frees exactly its key.
\<close>

locale import_claims =
  fixes inv :: "'s \<Rightarrow> bool"
    and busy :: "'s \<Rightarrow> 'k \<Rightarrow> bool"
    and claim :: "'k \<Rightarrow> 's \<Rightarrow> bool \<times> 's"
    and settle :: "'k \<Rightarrow> 'v \<Rightarrow> 's \<Rightarrow> 's"
  assumes claim_fresh: "inv s \<Longrightarrow> claim k s = (True, s') \<Longrightarrow> \<not> busy s k"
    and claim_busy: "inv s \<Longrightarrow> claim k s = (True, s') \<Longrightarrow> busy s' k' \<longleftrightarrow> busy s k' \<or> k' = k"
    and claim_fails: "inv s \<Longrightarrow> claim k s = (False, s') \<Longrightarrow> busy s' = busy s"
    and settle_others: "inv s \<Longrightarrow> k' \<noteq> k \<Longrightarrow> busy (settle k v s) k' = busy s k'"
begin

definition exclusive :: "'s \<Rightarrow> 'k list \<Rightarrow> bool" where
  "exclusive s ts \<longleftrightarrow> distinct ts \<and> (\<forall>k \<in> set ts. busy s k)"

lemma exclusive_claim:
  "inv s \<Longrightarrow> exclusive s ts \<Longrightarrow> claim k s = (True, s') \<Longrightarrow> exclusive s' (ts @ [k])"
  using claim_fresh claim_busy by (auto simp: exclusive_def)

lemma exclusive_no_claim: "inv s \<Longrightarrow> exclusive s ts \<Longrightarrow> claim k s = (False, s') \<Longrightarrow> exclusive s' ts"
  using claim_fails by (simp add: exclusive_def)

lemma exclusive_settle: "inv s \<Longrightarrow> exclusive s ts \<Longrightarrow> exclusive (settle k v s) (remove1 k ts)"
  using settle_others by (auto simp: exclusive_def)

lemma exclusive_other: "inv s \<Longrightarrow> exclusive s ts \<Longrightarrow> k \<notin> set ts \<Longrightarrow> exclusive (settle k v s) ts"
  using exclusive_settle [of s ts k v] by (simp add: remove1_idem)

lemma exclusive_mono: "exclusive s ts \<Longrightarrow> \<forall>k \<in> set ts. busy s k \<longrightarrow> busy s' k \<Longrightarrow> exclusive s' ts"
  by (simp add: exclusive_def)

lemma exclusive_empty: "exclusive s []"
  by (simp add: exclusive_def)

end

section \<open>Well-formed tables\<close>

definition release_key :: "grab \<Rightarrow> int \<times> string \<times> string" where
  "release_key g = (g_user_id g, g_guid g, g_indexer g)"

definition wf_grabs :: "grab_db \<Rightarrow> bool" where
  "wf_grabs db \<longleftrightarrow>
     distinct (map g_id (gd_rows db)) \<and> distinct (map release_key (gd_rows db))
     \<and> (\<forall>g \<in> set (gd_rows db). g_id g < gd_next_id db
          \<and> (g_status g = ImportFailed \<longrightarrow> g_import_failed_at g \<noteq> None))"

definition keeps_key :: "(grab \<Rightarrow> grab) \<Rightarrow> bool" where
  "keeps_key f \<longleftrightarrow> (\<forall>g. g_id (f g) = g_id g \<and> release_key (f g) = release_key g)"

lemma wf_map_rows:
  assumes "wf_grabs db" and "keeps_key f"
    and "\<And>g. g \<in> set (gd_rows db) \<Longrightarrow> g_status (f g) = ImportFailed \<Longrightarrow> g_import_failed_at (f g) \<noteq> None"
  shows "wf_grabs (db\<lparr>gd_rows := map f (gd_rows db)\<rparr>)"
proof -
  have "g_id \<circ> f = g_id" "release_key \<circ> f = release_key"
    using assms(2) by (simp_all add: keeps_key_def fun_eq_iff)
  then show ?thesis using assms by (simp add: wf_grabs_def keeps_key_def)
qed

lemma wf_row_unique:
  "wf_grabs db \<Longrightarrow> g \<in> set (gd_rows db) \<Longrightarrow> h \<in> set (gd_rows db) \<Longrightarrow> g_id g = g_id h \<Longrightarrow> g = h"
  by (auto simp: wf_grabs_def distinct_map inj_on_def)

lemma wf_update_row:
  assumes "wf_grabs db" and "keeps_key f"
    and "\<And>g. g_status (f g) = ImportFailed \<Longrightarrow> g_import_failed_at (f g) = None \<Longrightarrow>
           g_status g = ImportFailed \<and> g_import_failed_at g = None"
  shows "wf_grabs (snd (update_row u i f db))"
proof -
  have "wf_grabs (db\<lparr>gd_rows := map (\<lambda>g. if owned_row u i g then f g else g) (gd_rows db)\<rparr>)"
  proof (rule wf_map_rows [OF assms(1)])
    show "keeps_key (\<lambda>g. if owned_row u i g then f g else g)" using assms(2) by (simp add: keeps_key_def)
    show "g_import_failed_at (if owned_row u i g then f g else g) \<noteq> None"
      if "g \<in> set (gd_rows db)" "g_status (if owned_row u i g then f g else g) = ImportFailed" for g
      using that assms(1) assms(3) [of g]
      by (cases "g_import_failed_at (f g)") (auto simp: wf_grabs_def split: if_splits)
  qed
  then show ?thesis by (simp add: update_row_def)
qed

lemma wf_status: "wf_grabs db \<Longrightarrow> wf_grabs (snd (update_grab_status now u i st e db))"
  using wf_update_row [of db "\<lambda>g. g\<lparr>g_status := st, g_import_error := e,
      g_import_failed_at := (if st = ImportFailed then Some now else g_import_failed_at g)\<rparr>" u i]
  by (auto simp: update_grab_status_def keeps_key_def release_key_def split: prod.split if_splits)

lemma wf_download_id: "wf_grabs db \<Longrightarrow> wf_grabs (snd (update_grab_download_id u i d db))"
  using wf_update_row [of db "\<lambda>g. g\<lparr>g_download_id := Some d\<rparr>" u i]
  by (auto simp: update_grab_download_id_def keeps_key_def release_key_def split: prod.split)

lemma wf_content_path: "wf_grabs db \<Longrightarrow> wf_grabs (set_grab_content_path u i p db)"
  using wf_update_row [of db "\<lambda>g. g\<lparr>g_content_path := Some p\<rparr>" u i]
  by (auto simp: set_grab_content_path_def keeps_key_def release_key_def)

lemma wf_increment: "wf_grabs db \<Longrightarrow> wf_grabs (increment_import_retry now u i db)"
  using wf_update_row [of db "\<lambda>g. g\<lparr>g_import_retry_count := g_import_retry_count g + 1, g_import_failed_at := Some now\<rparr>" u i]
  by (auto simp: increment_import_retry_def keeps_key_def release_key_def)

lemma wf_importing:
  assumes "wf_grabs db" shows "wf_grabs (snd (try_set_importing u i db))"
  unfolding try_set_importing_def snd_conv
  by (rule wf_map_rows [OF assms])
    (use assms in \<open>auto simp: keeps_key_def release_key_def wf_grabs_def split: if_splits\<close>)

lemma wf_reset:
  assumes "wf_grabs db" shows "wf_grabs (snd (reset_importing_grabs db))"
  unfolding reset_importing_grabs_def snd_conv
  by (rule wf_map_rows [OF assms])
    (use assms in \<open>auto simp: keeps_key_def release_key_def wf_grabs_def split: if_splits\<close>)

lemma same_release_key: "same_release req g \<longleftrightarrow> release_key g = (cg_user_id req, cg_guid req, cg_indexer req)"
  by (auto simp: same_release_def release_key_def)

lemma wf_upsert:
  assumes "wf_grabs db" and "cg_status req \<noteq> ImportFailed"
  shows "wf_grabs (snd (upsert_grab now req db))"
proof (cases "find (same_release req) (gd_rows db)")
  case None
  then have "(cg_user_id req, cg_guid req, cg_indexer req) \<notin> release_key ` set (gd_rows db)"
    by (auto simp: find_None_iff same_release_key)
  then show ?thesis
    using assms None
    by (fastforce simp: upsert_grab_def Let_def wf_grabs_def new_grab_def release_key_def)
next
  case (Some g)
  have "wf_grabs (db\<lparr>gd_rows := map (\<lambda>h. if g_id h = g_id g then replaced_grab now req h else h) (gd_rows db)\<rparr>)"
  proof -
    have g: "g \<in> set (gd_rows db)" "release_key g = (cg_user_id req, cg_guid req, cg_indexer req)"
      using Some by (auto simp: find_Some_iff same_release_key)
    have keep: "keeps_key (\<lambda>h. if g_id h = g_id g then replaced_grab now req h else h)"
      by (simp add: keeps_key_def replaced_grab_def release_key_def)
    show ?thesis
      by (rule wf_map_rows [OF assms(1) keep]) (use assms in \<open>auto simp: replaced_grab_def wf_grabs_def split: if_splits\<close>)
  qed
  then show ?thesis using assms Some by (simp add: upsert_grab_def)
qed

lemmas wf_statements = wf_status wf_download_id wf_content_path wf_increment wf_importing wf_reset

section \<open>The grab table as a claim store\<close>

definition busy_grab :: "grab_db \<Rightarrow> int \<times> int \<Rightarrow> bool" where
  "busy_grab db k \<longleftrightarrow> (\<exists>g \<in> set (gd_rows db). owned_row (fst k) (snd k) g \<and> g_status g = Importing)"

definition set_status :: "int \<times> int \<Rightarrow> int \<times> grab_status \<times> string option \<Rightarrow> grab_db \<Rightarrow> grab_db" where
  "set_status k v db = snd (update_grab_status (fst v) (fst k) (snd k) (fst (snd v)) (snd (snd v)) db)"

definition claim_grab :: "int \<times> int \<Rightarrow> grab_db \<Rightarrow> bool \<times> grab_db" where
  "claim_grab k db = try_set_importing (fst k) (snd k) db"

interpretation claims: import_claims wf_grabs busy_grab claim_grab set_status
proof
  fix s s' :: grab_db and k k' :: "int \<times> int" and v
  assume wf: "wf_grabs s"
  show "\<not> busy_grab s k" if c: "claim_grab k s = (True, s')"
  proof
    assume "busy_grab s k"
    then obtain g where g: "g \<in> set (gd_rows s)" "owned_row (fst k) (snd k) g" "g_status g = Importing"
      by (auto simp: busy_grab_def)
    obtain h where h: "h \<in> set (gd_rows s)" "owned_row (fst k) (snd k) h" "importable h"
      using c by (auto simp: claim_grab_def try_set_importing_def)
    have "g = h" using wf_row_unique [OF wf g(1) h(1)] g(2) h(2) by (simp add: owned_row_def)
    then show False using g(3) h(3) by (simp add: importable_def)
  qed
  show "busy_grab s' k' \<longleftrightarrow> busy_grab s k' \<or> k' = k" if c: "claim_grab k s = (True, s')"
  proof -
    obtain h where h: "h \<in> set (gd_rows s)" "owned_row (fst k) (snd k) h" "importable h"
      and s': "s' = s\<lparr>gd_rows := map (\<lambda>g. if owned_row (fst k) (snd k) g \<and> importable g
          then g\<lparr>g_status := Importing, g_import_error := None\<rparr> else g) (gd_rows s)\<rparr>"
      using c by (auto simp: claim_grab_def try_set_importing_def)
    define f where "f = (\<lambda>g. if owned_row (fst k) (snd k) g \<and> importable g
          then g\<lparr>g_status := Importing, g_import_error := None\<rparr> else g)"
    have row: "owned_row (fst k') (snd k') (f g) \<longleftrightarrow> owned_row (fst k') (snd k') g"
      "g_status (f g) = Importing \<longleftrightarrow> g_status g = Importing \<or> owned_row (fst k) (snd k) g \<and> importable g" for g
      by (auto simp: owned_row_def f_def)
    have "busy_grab s' k' \<longleftrightarrow> (\<exists>g \<in> set (gd_rows s). owned_row (fst k') (snd k') g
        \<and> (g_status g = Importing \<or> owned_row (fst k) (snd k) g \<and> importable g))"
      by (simp add: s' [folded f_def] busy_grab_def row)
    moreover have "owned_row (fst k') (snd k') g \<Longrightarrow> owned_row (fst k) (snd k) g \<Longrightarrow> k' = k" for g
      by (simp add: owned_row_def prod_eq_iff)
    ultimately show ?thesis using h unfolding busy_grab_def by blast
  qed
  show "busy_grab s' = busy_grab s" if c: "claim_grab k s = (False, s')"
  proof -
    have "\<forall>g \<in> set (gd_rows s). \<not> (owned_row (fst k) (snd k) g \<and> importable g)"
      and s': "s' = s\<lparr>gd_rows := map (\<lambda>g. if owned_row (fst k) (snd k) g \<and> importable g
          then g\<lparr>g_status := Importing, g_import_error := None\<rparr> else g) (gd_rows s)\<rparr>"
      using c by (auto simp: claim_grab_def try_set_importing_def)
    then have "gd_rows s' = gd_rows s" by (auto intro!: map_idI)
    then show ?thesis by (simp add: busy_grab_def fun_eq_iff)
  qed
  show "busy_grab (set_status k v s) k' = busy_grab s k'" if "k' \<noteq> k"
    using that
    by (fastforce simp: busy_grab_def set_status_def update_grab_status_def update_row_def owned_row_def prod_eq_iff
        split: prod.split)
qed

section \<open>The actors\<close>

text \<open>
  The statements the actors execute, in any order. A calm run is one in which the removal by a user,
  the failure mark of the poller and the second write of an earlier import only hit grabs without a running import.
\<close>

inductive gstep :: "bool \<Rightarrow> sys \<Rightarrow> sys \<Rightarrow> bool" for calm :: bool where
  grab: "cg_status req = Sent \<Longrightarrow> gstep calm s (s\<lparr>sys_db := snd (upsert_grab now req (sys_db s))\<rparr>)"
| download_id: "gstep calm s (s\<lparr>sys_db := snd (update_grab_download_id u i d (sys_db s))\<rparr>)"
| content_path: "gstep calm s (s\<lparr>sys_db := set_grab_content_path u i p (sys_db s)\<rparr>)"
| start: "gstep calm s (start_import u i s)"
| retry: "g \<in> set (gd_rows (sys_db s)) \<Longrightarrow> g_import_retry_count g < MAX_RETRIES \<Longrightarrow>
    gstep calm s (s\<lparr>sys_db := increment_import_retry now (g_user_id g) (g_id g) (sys_db s),
                    sys_retries := g_id g # sys_retries s\<rparr>)"
| settle: "(u, i) \<in> set (sys_tasks s) \<Longrightarrow> st \<in> {Imported, ImportFailed} \<Longrightarrow>
    gstep calm s (settle_import now u i st e s)"
| late: "(calm \<Longrightarrow> (u, i) \<notin> set (sys_tasks s)) \<Longrightarrow> gstep calm s (fail_after_import now u i msg s)"
| fail: "(calm \<Longrightarrow> (g_user_id g, g_id g) \<notin> set (sys_tasks s)) \<Longrightarrow> gstep calm s (snd (mark_failed now g msg s))"
| remove: "(calm \<Longrightarrow> (u, i) \<notin> set (sys_tasks s)) \<Longrightarrow> gstep calm s (snd (remove_grab now u i s))"
| note_path: "gstep calm s (s\<lparr>sys_path_notes := ns\<rparr>)"
| note_failed: "gstep calm s (s\<lparr>sys_failed_events := es\<rparr>)"
| restarted: "gstep calm s (restart s)"

definition fresh_sys :: "sys \<Rightarrow> bool" where
  "fresh_sys s \<longleftrightarrow> gd_rows (sys_db s) = [] \<and> sys_tasks s = [] \<and> sys_retries s = []"

inductive greach :: "bool \<Rightarrow> sys \<Rightarrow> bool" for calm :: bool where
  fresh: "fresh_sys s \<Longrightarrow> greach calm s"
| step: "greach calm s \<Longrightarrow> gstep calm s s' \<Longrightarrow> greach calm s'"

inductive_cases greachE: "greach calm s"

section \<open>The table stays well formed\<close>

lemma start_import_db: "sys_db (start_import u i s) = snd (try_set_importing u i (sys_db s))"
  by (simp add: start_import_def spawn_import_def Let_def split: prod.split)

lemma start_import_retries [simp]: "sys_retries (start_import u i s) = sys_retries s"
  by (simp add: start_import_def spawn_import_def Let_def split: prod.split)

lemma mark_failed_sys: "snd (mark_failed now g msg s) =
    s\<lparr>sys_db := set_status (g_user_id g, g_id g) (now, Failed, Some msg) (sys_db s)\<rparr>"
  by (simp add: mark_failed_def set_status_def split: prod.split)

lemma remove_grab_sys: "snd (remove_grab now u i s) = s \<or>
    snd (remove_grab now u i s) = s\<lparr>sys_db := set_status (u, i) (now, Removed, None) (sys_db s)\<rparr>"
  by (simp add: remove_grab_def set_status_def split: option.split prod.split)

lemma late_sys: "fail_after_import now u i msg s = s\<lparr>sys_db := set_status (u, i) (now, ImportFailed, Some msg) (sys_db s)\<rparr>"
  by (simp add: fail_after_import_def set_status_def)

lemma wf_set_status: "wf_grabs db \<Longrightarrow> wf_grabs (set_status k v db)"
  by (simp add: set_status_def wf_status)

lemma gstep_wf: "gstep calm s s' \<Longrightarrow> wf_grabs (sys_db s) \<Longrightarrow> wf_grabs (sys_db s')"
proof (induction rule: gstep.induct)
  case (remove u i s now)
  then show ?case using remove_grab_sys [of now u i s] by (auto simp: wf_set_status)
qed (simp_all add: wf_upsert wf_statements start_import_db settle_import_def mark_failed_sys late_sys wf_set_status restart_def)

lemma greach_wf: "greach calm s \<Longrightarrow> wf_grabs (sys_db s)"
  by (induction rule: greach.induct) (auto simp: fresh_sys_def wf_grabs_def dest: gstep_wf)

section \<open>Imports are exclusive in calm runs\<close>

lemma busy_map:
  assumes "keeps_key f" and "\<And>g. g_status (f g) = g_status g"
  shows "busy_grab (db\<lparr>gd_rows := map f (gd_rows db)\<rparr>) = busy_grab db"
proof -
  have "owned_row u i (f g) = owned_row u i g" for u i g
    using assms(1) by (simp add: keeps_key_def owned_row_def release_key_def)
  then show ?thesis using assms(2) by (simp add: busy_grab_def fun_eq_iff)
qed

lemma busy_update_row:
  assumes "keeps_key f" and "\<And>g. g_status (f g) = g_status g"
  shows "busy_grab (snd (update_row u i f db)) = busy_grab db"
  unfolding update_row_def snd_conv
  by (rule busy_map) (use assms in \<open>simp_all add: keeps_key_def\<close>)

lemma busy_quiet_statements:
  "busy_grab (snd (update_grab_download_id u i d db)) = busy_grab db"
  "busy_grab (set_grab_content_path u i p db) = busy_grab db"
  "busy_grab (increment_import_retry now u i db) = busy_grab db"
proof -
  show "busy_grab (snd (update_grab_download_id u i d db)) = busy_grab db"
    using busy_update_row [of "\<lambda>g. g\<lparr>g_download_id := Some d\<rparr>" u i db]
    by (simp add: update_grab_download_id_def keeps_key_def release_key_def case_prod_beta')
qed (simp_all add: set_grab_content_path_def increment_import_retry_def busy_update_row keeps_key_def release_key_def)

lemma busy_upsert:
  assumes "wf_grabs db" and "busy_grab db k"
  shows "busy_grab (snd (upsert_grab now req db)) k"
proof -
  obtain h where h: "h \<in> set (gd_rows db)" "owned_row (fst k) (snd k) h" "g_status h = Importing"
    using assms(2) by (auto simp: busy_grab_def)
  have other: "g_id h \<noteq> g_id g" if g: "find (same_release req) (gd_rows db) = Some g" "replaceable g" for g
  proof
    assume "g_id h = g_id g"
    moreover have "g \<in> set (gd_rows db)" using g(1) by (auto simp: find_Some_iff)
    ultimately have "h = g" using wf_row_unique [OF assms(1) h(1)] by simp
    then show False using h(3) g(2) by (simp add: replaceable_def)
  qed
  show ?thesis
    using h other by (auto simp: upsert_grab_def busy_grab_def Let_def split: option.split)
qed

lemma gstep_exclusive:
  assumes "gstep True s s'" and wf: "wf_grabs (sys_db s)" and ex: "claims.exclusive (sys_db s) (sys_tasks s)"
  shows "claims.exclusive (sys_db s') (sys_tasks s')"
  using assms
proof (induction rule: gstep.induct)
  case (grab req s now)
  show ?case
    by (rule claims.exclusive_mono [where s = "sys_db s"])
      (use grab busy_upsert [OF grab(2)] in simp_all)
next
  case (start s u i)
  obtain ok db' where c: "claim_grab (u, i) (sys_db s) = (ok, db')" by fastforce
  show ?case
  proof (cases ok)
    case True
    then show ?thesis
      using claims.exclusive_claim [OF start(1,2), of "(u, i)"] c
      by (simp add: start_import_def spawn_import_def claim_grab_def)
  next
    case False
    then show ?thesis
      using claims.exclusive_no_claim [OF start(1,2), of "(u, i)"] c by (simp add: start_import_def claim_grab_def)
  qed
next
  case (settle u i s st now e)
  then show ?case
    using claims.exclusive_settle [OF settle(3,4), of "(u, i)" "(now, st, e)"]
    by (simp add: settle_import_def set_status_def)
next
  case (late u i s now msg)
  then show ?case using claims.exclusive_other [OF late(2,3), of "(u, i)"] by (simp add: late_sys)
next
  case (fail g s now msg)
  then show ?case
    using claims.exclusive_other [OF fail(2,3), of "(g_user_id g, g_id g)"] by (simp add: mark_failed_sys)
next
  case (remove u i s now)
  then show ?case
    using claims.exclusive_other [OF remove(2,3), of "(u, i)"] remove_grab_sys [of now u i s] by auto
qed (simp_all add: busy_quiet_statements restart_def claims.exclusive_def)

lemma greach_exclusive: "greach True s \<Longrightarrow> claims.exclusive (sys_db s) (sys_tasks s)"
  by (induction rule: greach.induct)
    (auto simp: fresh_sys_def claims.exclusive_empty dest: gstep_exclusive [rotated 2] greach_wf)

section \<open>Retries are bounded\<close>

definition counts_ok :: "sys \<Rightarrow> bool" where
  "counts_ok s \<longleftrightarrow>
     (\<forall>g \<in> set (gd_rows (sys_db s)).
        g_import_retry_count g = int (count_list (sys_retries s) (g_id g))
        \<and> int (count_list (sys_retries s) (g_id g)) \<le> MAX_RETRIES)
     \<and> set (sys_retries s) \<subseteq> g_id ` set (gd_rows (sys_db s))"

definition keeps_count :: "(grab \<Rightarrow> grab) \<Rightarrow> bool" where
  "keeps_count f \<longleftrightarrow> (\<forall>g. g_id (f g) = g_id g \<and> g_import_retry_count (f g) = g_import_retry_count g)"

lemma counts_map:
  assumes "counts_ok s" and "keeps_count f"
    and "gd_rows (sys_db s') = map f (gd_rows (sys_db s))" and "sys_retries s' = sys_retries s"
  shows "counts_ok s'"
proof -
  have "g_id ` set (gd_rows (sys_db s')) = g_id ` set (gd_rows (sys_db s))"
    using assms(2,3) by (simp add: keeps_count_def image_image)
  then show ?thesis using assms by (simp add: counts_ok_def keeps_count_def)
qed

lemma counts_update_row:
  assumes "counts_ok s" and "keeps_count f"
  shows "counts_ok (s\<lparr>sys_db := snd (update_row u i f (sys_db s))\<rparr>)"
  by (rule counts_map [OF assms(1), where f = "\<lambda>g. if owned_row u i g then f g else g"])
    (use assms(2) in \<open>simp_all add: keeps_count_def update_row_def\<close>)

lemma counts_status: "counts_ok s \<Longrightarrow> counts_ok (s\<lparr>sys_db := set_status k v (sys_db s)\<rparr>)"
  using counts_update_row [of s "\<lambda>g. g\<lparr>g_status := fst (snd v), g_import_error := snd (snd v),
      g_import_failed_at := (if fst (snd v) = ImportFailed then Some (fst v) else g_import_failed_at g)\<rparr>" "fst k" "snd k"]
  by (simp add: set_status_def update_grab_status_def keeps_count_def case_prod_beta')

lemma counts_tasks: "counts_ok (s\<lparr>sys_tasks := ts\<rparr>) = counts_ok s" "counts_ok (s\<lparr>sys_path_notes := ns\<rparr>) = counts_ok s"
  "counts_ok (s\<lparr>sys_failed_events := es\<rparr>) = counts_ok s"
  by (simp_all add: counts_ok_def)

lemma counts_retry:
  assumes ok: "counts_ok s" and wf: "wf_grabs (sys_db s)" and g: "g \<in> set (gd_rows (sys_db s))"
    and less: "g_import_retry_count g < MAX_RETRIES"
  shows "counts_ok (s\<lparr>sys_db := increment_import_retry now (g_user_id g) (g_id g) (sys_db s),
                      sys_retries := g_id g # sys_retries s\<rparr>)"
proof -
  define f where "f = (\<lambda>h. if owned_row (g_user_id g) (g_id g) h
      then h\<lparr>g_import_retry_count := g_import_retry_count h + 1, g_import_failed_at := Some now\<rparr> else h)"
  have rows: "gd_rows (increment_import_retry now (g_user_id g) (g_id g) (sys_db s)) = map f (gd_rows (sys_db s))"
    by (simp add: increment_import_retry_def update_row_def f_def)
  have f_id [simp]: "g_id (f h) = g_id h" for h by (simp add: f_def)
  have f_count: "g_import_retry_count (f h) = g_import_retry_count h + (if g_id h = g_id g then 1 else 0)"
    if h: "h \<in> set (gd_rows (sys_db s))" for h
    using wf_row_unique [OF wf h g] by (auto simp: owned_row_def f_def)
  have less': "int (count_list (sys_retries s) (g_id g)) < MAX_RETRIES"
    using ok g less by (auto simp: counts_ok_def)
  have row: "g_import_retry_count (f h) = int (count_list (g_id g # sys_retries s) (g_id h))
      \<and> int (count_list (g_id g # sys_retries s) (g_id h)) \<le> MAX_RETRIES"
    if h: "h \<in> set (gd_rows (sys_db s))" for h
    using h ok less' f_count [OF h] by (auto simp: counts_ok_def)
  have ids: "set (g_id g # sys_retries s) \<subseteq> g_id ` set (gd_rows (sys_db s))"
    using ok g by (auto simp: counts_ok_def)
  show ?thesis
    unfolding counts_ok_def using row ids by (simp add: rows image_image del: count_list.simps)
qed

lemma counts_upsert:
  assumes "counts_ok s" and "wf_grabs (sys_db s)"
  shows "counts_ok (s\<lparr>sys_db := snd (upsert_grab now req (sys_db s))\<rparr>)"
proof (cases "find (same_release req) (gd_rows (sys_db s))")
  case None
  have fresh: "count_list (sys_retries s) (gd_next_id (sys_db s)) = 0"
    using assms by (fastforce simp: counts_ok_def wf_grabs_def count_list_0_iff)
  show ?thesis
    using None assms(1) fresh
    by (auto simp: upsert_grab_def Let_def counts_ok_def new_grab_def MAX_RETRIES_def)
next
  case (Some g)
  let ?f = "\<lambda>h. if g_id h = g_id g then replaced_grab now req h else h"
  have keep: "keeps_count ?f" by (simp add: keeps_count_def replaced_grab_def)
  have "counts_ok (s\<lparr>sys_db := (sys_db s)\<lparr>gd_rows := map ?f (gd_rows (sys_db s))\<rparr>\<rparr>)"
    by (rule counts_map [OF assms(1) keep]) simp_all
  then show ?thesis using Some assms(1) by (simp add: upsert_grab_def)
qed

lemma gstep_counts:
  assumes "gstep calm s s'" and "wf_grabs (sys_db s)" and "counts_ok s"
  shows "counts_ok s'"
  using assms
proof (induction rule: gstep.induct)
  case (download_id s u i d)
  then show ?case using counts_update_row [of s "\<lambda>g. g\<lparr>g_download_id := Some d\<rparr>" u i]
    by (simp add: update_grab_download_id_def keeps_count_def case_prod_beta')
next
  case (content_path s u i p)
  then show ?case using counts_update_row [of s "\<lambda>g. g\<lparr>g_content_path := Some p\<rparr>" u i]
    by (simp add: set_grab_content_path_def keeps_count_def)
next
  case (start s u i)
  show ?case
    by (rule counts_map [OF start(2), where f = "\<lambda>g. if owned_row u i g \<and> importable g
          then g\<lparr>g_status := Importing, g_import_error := None\<rparr> else g"])
      (simp_all add: keeps_count_def start_import_db try_set_importing_def)
next
  case (settle u i s st now e)
  then show ?case using counts_status [OF settle(4), of "(u, i)" "(now, st, e)"]
    by (simp add: settle_import_def set_status_def counts_ok_def)
next
  case (remove u i s now)
  then show ?case using remove_grab_sys [of now u i s] counts_status by auto
next
  case (restarted s)
  show ?case
    by (rule counts_map [OF restarted(2), where f = "\<lambda>g. if g_status g = Importing then g\<lparr>g_status := Confirmed\<rparr> else g"])
      (simp_all add: keeps_count_def restart_def reset_importing_grabs_def)
qed (simp_all add: counts_upsert counts_retry counts_tasks mark_failed_sys late_sys counts_status)

lemma greach_counts: "greach calm s \<Longrightarrow> counts_ok s"
proof (induction rule: greach.induct)
  case (step s s')
  then show ?case using gstep_counts greach_wf by blast
qed (simp add: fresh_sys_def counts_ok_def)


section \<open>The jobs are sequences of these statements\<close>

lemma greach_fold:
  "greach calm s \<Longrightarrow> (\<And>x s. x \<in> set xs \<Longrightarrow> greach calm s \<Longrightarrow> greach calm (f x s)) \<Longrightarrow> greach calm (fold f xs s)"
  by (induction xs arbitrary: s) auto

lemma greach_statements:
  "greach calm s \<Longrightarrow> greach calm (s\<lparr>sys_db := snd (update_grab_download_id u i d (sys_db s))\<rparr>)"
  "greach calm s \<Longrightarrow> greach calm (start_import u i s)"
  "greach calm s \<Longrightarrow> greach calm (note_missing_path now g s)"
  "greach calm s \<Longrightarrow> greach calm (keep_content_path g p s)"
  by (auto simp: note_missing_path_def keep_content_path_def intro: greach.step gstep.intros)

lemma greach_poll_qbittorrent: "greach calm s \<Longrightarrow> greach calm (poll_qbittorrent now similar files c ts s)"
  unfolding poll_qbittorrent_def
  by (erule greach_fold)
    (auto simp: poll_torrent_def Let_def greach_statements split: option.split local_files.split)

lemma greach_poll_transmission: "greach calm s \<Longrightarrow> greach calm (poll_transmission files c ts s)"
  unfolding poll_transmission_def
  by (erule greach_fold)
    (auto simp: poll_transmission_torrent_def Let_def greach_statements split: option.split local_files.split)

text \<open>The retry job still sees, for each grab it has listed, the count it listed it with.\<close>

definition listed_with :: "sys \<Rightarrow> grab \<Rightarrow> bool" where
  "listed_with s g \<longleftrightarrow> (\<exists>h \<in> set (gd_rows (sys_db s)). g_id h = g_id g \<and> g_user_id h = g_user_id g
     \<and> g_import_retry_count h = g_import_retry_count g)"

lemma listed_after_retry:
  assumes "listed_with s g" and "g_id g \<noteq> g_id g'"
  shows "listed_with (retry_import_of now g' s) g"
proof -
  obtain h where h: "h \<in> set (gd_rows (sys_db s))" "g_id h = g_id g" "g_user_id h = g_user_id g"
      "g_import_retry_count h = g_import_retry_count g"
    using assms(1) by (auto simp: listed_with_def)
  then have "h \<in> set (gd_rows (sys_db (retry_import_of now g' s)))"
    using assms(2)
    by (simp add: retry_import_of_def start_import_db try_set_importing_def increment_import_retry_def
        update_row_def owned_row_def rev_image_eqI)
  then show ?thesis using h unfolding listed_with_def by blast
qed

lemma greach_retry_of:
  assumes "greach calm s" and "listed_with s g" and "g_import_retry_count g < MAX_RETRIES"
  shows "greach calm (retry_import_of now g s)"
proof -
  obtain h where h: "h \<in> set (gd_rows (sys_db s))" "g_id h = g_id g" "g_user_id h = g_user_id g"
      "g_import_retry_count h < MAX_RETRIES"
    using assms(2,3) by (auto simp: listed_with_def)
  have "greach calm (s\<lparr>sys_db := increment_import_retry now (g_user_id g) (g_id g) (sys_db s),
                      sys_retries := g_id g # sys_retries s\<rparr>)"
    using greach.step [OF assms(1) gstep.retry [OF h(1,4)]] h(2,3) by simp
  then show ?thesis by (simp add: retry_import_of_def greach_statements)
qed

lemma distinct_map_head: "distinct (map f (x # xs)) \<Longrightarrow> y \<in> set xs \<Longrightarrow> f y \<noteq> f x"
  by (metis distinct.simps(2) image_eqI list.map(2) list.set_map)

lemma greach_retries:
  "greach calm s \<Longrightarrow> distinct (map g_id gs) \<Longrightarrow>
   (\<And>g. g \<in> set gs \<Longrightarrow> listed_with s g \<and> g_import_retry_count g < MAX_RETRIES) \<Longrightarrow>
   greach calm (fold (retry_import_of now) gs s)"
proof (induction gs arbitrary: s)
  case (Cons g gs)
  have "greach calm (retry_import_of now g s)"
    using greach_retry_of [OF Cons.prems(1)] Cons.prems(3) by simp
  moreover have "listed_with (retry_import_of now g s) h" if h: "h \<in> set gs" for h
    using listed_after_retry [of s h g now] Cons.prems(3) [of h] distinct_map_head [OF Cons.prems(2) h] h by simp
  ultimately show ?case using Cons.IH Cons.prems(2,3) by simp
qed simp

lemma distinct_ids_filter: "wf_grabs db \<Longrightarrow> distinct (map g_id (filter P (gd_rows db)))"
  by (simp add: wf_grabs_def distinct_map_filter)

lemma greach_retry_failed_imports: "greach calm s \<Longrightarrow> greach calm (retry_failed_imports now s)"
  unfolding retry_failed_imports_def
  by (rule greach_retries)
    (auto simp: list_retriable_grabs_def distinct_ids_filter listed_with_def dest: greach_wf)

text \<open>An active grab has no running import, and the poll of one grab starts no import of another.\<close>

lemma start_import_tasks: "t \<in> set (sys_tasks (start_import u i s)) \<Longrightarrow> t = (u, i) \<or> t \<in> set (sys_tasks s)"
  by (auto simp: start_import_def spawn_import_def Let_def split: prod.splits if_splits)

lemma mark_failed_tasks [simp]: "sys_tasks (snd (mark_failed now g msg s)) = sys_tasks s"
  by (simp add: mark_failed_sys)

lemma keep_content_path_tasks [simp]: "sys_tasks (keep_content_path g p s) = sys_tasks s"
  by (simp add: keep_content_path_def)

lemma note_missing_path_tasks [simp]: "sys_tasks (note_missing_path now g s) = sys_tasks s"
  by (simp add: note_missing_path_def)

lemma poll_sab_tasks:
  "t \<in> set (sys_tasks (poll_sab_grab now files q h g s)) \<Longrightarrow> t = (g_user_id g, g_id g) \<or> t \<in> set (sys_tasks s)"
  by (auto simp: poll_sab_grab_def case_prod_beta' split: option.splits local_files.splits sum.splits if_splits
      dest!: start_import_tasks)

lemma greach_failed:
  assumes "greach calm s" and "(g_user_id g, g_id g) \<notin> set (sys_tasks s)"
  shows "greach calm (snd (mark_failed now g msg s))"
    and "mark_failed now g msg s = (r, s') \<Longrightarrow> greach calm s'"
    and "mark_failed now g msg s = (r, s') \<Longrightarrow> greach calm (s'\<lparr>sys_failed_events := es\<rparr>)"
proof -
  show marked: "greach calm (snd (mark_failed now g msg s))"
    using assms by (auto intro: greach.step gstep.fail)
  show "greach calm s'" if r: "mark_failed now g msg s = (r, s')"
    using marked r by simp
  show "greach calm (s'\<lparr>sys_failed_events := es\<rparr>)" if r: "mark_failed now g msg s = (r, s')"
    using marked r by (auto intro: greach.step gstep.note_failed)
qed

lemma greach_poll_sab_grab:
  assumes "greach calm s" and "(g_user_id g, g_id g) \<notin> set (sys_tasks s)"
  shows "greach calm (poll_sab_grab now files q h g s)"
  using assms greach_failed(1) [OF assms, of now "''download not found in SABnzbd''"]
  by (auto simp: poll_sab_grab_def greach_statements
      split: option.split local_files.split sum.split prod.split intro: greach_failed)

lemma greach_poll_sab_grabs:
  "greach calm s \<Longrightarrow> distinct (map g_id gs) \<Longrightarrow> (\<And>g. g \<in> set gs \<Longrightarrow> (g_user_id g, g_id g) \<notin> set (sys_tasks s)) \<Longrightarrow>
   greach calm (fold (poll_sab_grab now files q h) gs s)"
proof (induction gs arbitrary: s)
  case (Cons g gs)
  have "(g_user_id g', g_id g') \<notin> set (sys_tasks (poll_sab_grab now files q h g s))" if g': "g' \<in> set gs" for g'
    using Cons.prems(3) [of g'] g' distinct_map_head [OF Cons.prems(2) g']
      poll_sab_tasks [of "(g_user_id g', g_id g')" now files q h g s] by auto
  then show ?case using Cons greach_poll_sab_grab [of calm s g now files q h] by simp
qed simp

lemma active_not_imported:
  assumes "greach True s" and "g \<in> set (client_grabs c s)"
  shows "(g_user_id g, g_id g) \<notin> set (sys_tasks s)"
proof
  assume "(g_user_id g, g_id g) \<in> set (sys_tasks s)"
  then obtain h where h: "h \<in> set (gd_rows (sys_db s))" "owned_row (g_user_id g) (g_id g) h" "g_status h = Importing"
    using greach_exclusive [OF assms(1)] by (fastforce simp: claims.exclusive_def busy_grab_def)
  have g: "g \<in> set (gd_rows (sys_db s))" "g_status g \<noteq> Importing"
    using assms(2) by (auto simp: client_grabs_def list_active_grabs_def)
  have "g = h" using wf_row_unique [OF greach_wf [OF assms(1)] g(1) h(1)] h(2) by (simp add: owned_row_def)
  then show False using g(2) h(3) by simp
qed

lemma greach_poll_sabnzbd: "greach True s \<Longrightarrow> greach True (poll_sabnzbd now files c q h s)"
  unfolding poll_sabnzbd_def Let_def
  by (rule greach_poll_sab_grabs)
    (auto simp: client_grabs_def list_active_grabs_def distinct_ids_filter dest: greach_wf
        intro: active_not_imported [unfolded client_grabs_def list_active_grabs_def, THEN notE])

lemmas greach_jobs = greach_poll_qbittorrent greach_poll_transmission greach_retry_failed_imports greach_poll_sabnzbd


section \<open>Properties\<close>

definition exclusive_imports :: "sys \<Rightarrow> bool" where
  "exclusive_imports s \<longleftrightarrow> distinct (sys_tasks s) \<and> (\<forall>t \<in> set (sys_tasks s). busy_grab (sys_db s) t)"

lemma exclusive_imports_claims: "exclusive_imports s = claims.exclusive (sys_db s) (sys_tasks s)"
  by (simp add: exclusive_imports_def claims.exclusive_def)

text \<open>
  C24 (safety): As long as neither a user nor the poller nor the late error of an earlier import overwrites the status of a grab whose import is running, no grab ever
  has two import tasks and every task's grab is in the state importing, whatever the order in which
  requests, import tasks, users and jobs execute their statements; this also holds after each poll of a download
  client and each run of the retry job from such a state.
\<close>

theorem imports_are_exclusive:
  assumes "greach True s"
    and "s' \<in> {s, poll_qbittorrent now similar files c ts s, poll_transmission files c trs s,
               poll_sabnzbd now files c q h s, retry_failed_imports now s}"
  shows "exclusive_imports s'"
proof -
  have "greach True s'" using assms by (auto simp: greach_jobs)
  then show ?thesis by (simp add: exclusive_imports_claims greach_exclusive)
qed

definition ex_request :: create_grab_request where
  "ex_request = \<lparr>cg_user_id = 1, cg_work_id = 2, cg_download_client_id = 3, cg_title = ''A Book'',
     cg_indexer = ''idx'', cg_guid = ''g1'', cg_size = None, cg_download_url = ''http://x'',
     cg_download_id = Some ''ABC'', cg_status = Sent, cg_media_type = Some Ebook\<rparr>"

definition ex_empty :: sys where
  "ex_empty = \<lparr>sys_db = \<lparr>gd_users = [1], gd_works = [2], gd_clients = [3], gd_rows = [], gd_next_id = 1\<rparr>,
     sys_tasks = [], sys_path_notes = [], sys_failed_events = [], sys_retries = []\<rparr>"

definition ex_grabbed :: sys where
  "ex_grabbed = ex_empty\<lparr>sys_db := snd (upsert_grab 0 ex_request (sys_db ex_empty))\<rparr>"

definition ex_torrents :: "torrent list" where
  "ex_torrents = replicate 2 \<lparr>t_hash = ''abc'', t_state = ''stalledUP'', t_name = ''A Book'', t_content_path = Some ''/d''\<rparr>"

lemma greach_ex_empty: "greach calm ex_empty"
  by (rule greach.fresh) (simp add: fresh_sys_def ex_empty_def)

lemma greach_ex_grabbed: "greach calm ex_grabbed"
  unfolding ex_grabbed_def
  by (rule greach.step [OF greach_ex_empty gstep.grab]) (simp add: ex_request_def)

theorem imports_are_exclusive_witness:
  "exclusive_imports (poll_qbittorrent 5 (=) (\<lambda>_. There) 3 ex_torrents ex_grabbed)
   \<and> sys_tasks (poll_qbittorrent 5 (=) (\<lambda>_. There) 3 ex_torrents ex_grabbed) = [(1, 1)]"
proof
  show "exclusive_imports (poll_qbittorrent 5 (=) (\<lambda>_. There) 3 ex_torrents ex_grabbed)"
    by (rule imports_are_exclusive [OF greach_ex_grabbed, where now = 5 and similar = "(=)" and files = "\<lambda>_. There"
          and c = 3 and ts = ex_torrents]) simp
  show "sys_tasks (poll_qbittorrent 5 (=) (\<lambda>_. There) 3 ex_torrents ex_grabbed) = [(1, 1)]"
    by code_simp
qed

text \<open>
  Without that proviso the exclusion fails: a user who removes a grab during its import and grabs the release
  again gets a second import task for the same row while the first still runs, because the
  removal overwrites any status and the re-grab makes the row importable again.
\<close>

theorem removal_lets_a_second_import_start:
  "\<exists>s. greach False s \<and> \<not> exclusive_imports s \<and> sys_tasks s = [(1, 1), (1, 1)]"
proof -
  define s1 where "s1 = start_import 1 1 ex_grabbed"
  define s2 where "s2 = snd (remove_grab 7 1 1 s1)"
  define s3 where "s3 = s2\<lparr>sys_db := snd (upsert_grab 8 ex_request (sys_db s2))\<rparr>"
  define s4 where "s4 = start_import 1 1 s3"
  have "greach False s2"
    unfolding s2_def s1_def
    by (rule greach.step [OF greach_statements(2) [OF greach_ex_grabbed] gstep.remove]) simp
  then have "greach False s3"
    unfolding s3_def by (rule greach.step [OF _ gstep.grab]) (simp add: ex_request_def)
  then have "greach False s4" by (simp add: s4_def greach_statements)
  moreover have "sys_tasks s4 = [(1, 1), (1, 1)]"
    unfolding s4_def s3_def s2_def s1_def by code_simp
  ultimately show ?thesis by (auto simp: exclusive_imports_def)
qed

text \<open>
  The retry job attempts the import of a grab at most five times over the whole life of its row, under any
  interleaving; the stored counter is the number of attempts made, and a grab whose attempts are used up is never listed
  for a retry again.
\<close>

theorem automatic_retries_are_bounded:
  assumes "greach calm s"
  shows "count_list (sys_retries s) i \<le> 5
    \<and> (\<forall>g \<in> set (gd_rows (sys_db s)). g_import_retry_count g = int (count_list (sys_retries s) (g_id g)))
    \<and> (count_list (sys_retries s) i = 5 \<longrightarrow> i \<notin> g_id ` set (list_retriable_grabs now MAX_RETRIES (sys_db s)))"
proof -
  have ok: "counts_ok s" by (rule greach_counts [OF assms])
  have "count_list (sys_retries s) i \<le> 5"
  proof (cases "i \<in> set (sys_retries s)")
    case True
    then show ?thesis using ok by (fastforce simp: counts_ok_def MAX_RETRIES_def)
  next
    case False
    then show ?thesis by simp
  qed
  then show ?thesis using ok by (auto simp: counts_ok_def list_retriable_grabs_def MAX_RETRIES_def)
qed

definition ex_failed :: sys where
  "ex_failed = settle_import 0 1 1 ImportFailed (Some ''disk full'') (start_import 1 1 ex_grabbed)"

lemma greach_ex_failed: "greach calm ex_failed"
  unfolding ex_failed_def
  by (rule greach.step [OF greach_statements(2) [OF greach_ex_grabbed] gstep.settle]) (code_simp, simp)

theorem automatic_retries_are_bounded_witness:
  "count_list (sys_retries (retry_failed_imports 200000000000 ex_failed)) 1 \<le> 5
   \<and> count_list (sys_retries (retry_failed_imports 200000000000 ex_failed)) 1 = 1
   \<and> list_retriable_grabs 200000000000 MAX_RETRIES (sys_db ex_failed) \<noteq> []"
proof (intro conjI)
  show "count_list (sys_retries (retry_failed_imports 200000000000 ex_failed)) 1 \<le> 5"
    using automatic_retries_are_bounded [OF greach_retry_failed_imports [OF greach_ex_failed [where calm = True]],
        where i = 1] by simp
qed code_simp+

text \<open>
  Grabbing a removed or failed release again keeps the row's retry counter and its content path. The
  counter is never reset, so a row whose attempts were used up is not retried however often the new download's import fails; and
  because the poller only fills an empty content path, the import of the new download keeps reading the old
  one's location.
\<close>

theorem regrab_keeps_retries_and_path:
  assumes "wf_grabs db" and "upsert_grab now req db = (Inr g, db')"
    and "find (same_release req) (gd_rows db) = Some h"
  shows "g_import_retry_count g = g_import_retry_count h
    \<and> (g_content_path h \<noteq> None \<longrightarrow> g_content_path g = g_content_path h \<and> keep_content_path g path s = s)
    \<and> (g_import_retry_count h \<ge> MAX_RETRIES \<longrightarrow>
         g_id g \<notin> g_id ` set (list_retriable_grabs later MAX_RETRIES
           (snd (update_grab_status t (g_user_id g) (g_id g) ImportFailed e db'))))"
proof -
  have h: "h \<in> set (gd_rows db)" using assms(3) by (auto simp: find_Some_iff)
  have g: "g = replaced_grab now req h"
    and db': "gd_rows db' = map (\<lambda>x. if g_id x = g_id h then replaced_grab now req x else x) (gd_rows db)"
    using assms(2,3) by (auto simp: upsert_grab_def split: if_splits)
  have "g_import_retry_count x = g_import_retry_count h"
    if x: "x \<in> set (gd_rows (snd (update_grab_status t (g_user_id g) (g_id g) ImportFailed e db')))" "g_id x = g_id h" for x
  proof -
    obtain y where "y \<in> set (gd_rows db)" "g_id y = g_id x" "g_import_retry_count x = g_import_retry_count y"
      using x(1) by (auto simp: update_grab_status_def update_row_def db' replaced_grab_def split: if_splits)
    then show ?thesis using wf_row_unique [OF assms(1) _ h, of y] x(2) by simp
  qed
  then show ?thesis
    by (force simp: g replaced_grab_def keep_content_path_def list_retriable_grabs_def)
qed


definition ex_used_up :: grab_db where
  "ex_used_up = (sys_db ex_empty)\<lparr>gd_rows := [(new_grab 0 1 ex_request)\<lparr>g_status := Removed,
     g_import_retry_count := 5, g_content_path := Some ''/old''\<rparr>], gd_next_id := 2\<rparr>"

theorem regrab_keeps_retries_and_path_witness:
  "(case upsert_grab 9 ex_request ex_used_up of
      (Inr g, db') \<Rightarrow> g_status g = Sent \<and> g_import_retry_count g = 5 \<and> g_content_path g = Some ''/old''
        \<and> g_id g \<notin> g_id ` set (list_retriable_grabs 900 MAX_RETRIES
            (snd (update_grab_status 10 (g_user_id g) (g_id g) ImportFailed None db')))
    | _ \<Rightarrow> False)"
proof -
  obtain g db' where up: "upsert_grab 9 ex_request ex_used_up = (Inr g, db')" and st: "g_status g = Sent"
    by (simp add: upsert_grab_def ex_used_up_def ex_empty_def ex_request_def new_grab_def same_release_def
        replaceable_def replaced_grab_def)
  obtain h where h: "find (same_release ex_request) (gd_rows ex_used_up) = Some h"
      and hist: "g_import_retry_count h = 5" "g_content_path h = Some ''/old''"
    by (simp add: ex_used_up_def ex_request_def new_grab_def same_release_def)
  have wf: "wf_grabs ex_used_up"
    by (simp add: wf_grabs_def ex_used_up_def new_grab_def)
  show ?thesis
    using regrab_keeps_retries_and_path [OF wf up h, where later = 900 and t = 10 and e = None] up st hist
    by (simp add: MAX_RETRIES_def)
qed


text \<open>
  A history that could not be read counts as one without entries: a download that left the
  queue and is older than a day is marked as failed, finished or not.
\<close>

lemma unread_history_fails_old_grabs:
  assumes "g_download_id g = Some nzo" and "nzo \<notin> set q" and "now - g_grabbed_at g > hours_24"
    and "g \<in> set (gd_rows (sys_db s))"
  shows "\<exists>h \<in> set (gd_rows (sys_db (poll_sab_grab now files q [] g s))).
           g_id h = g_id g \<and> g_status h = Failed \<and> g_import_error h = Some ''download not found in SABnzbd''"
proof -
  let ?h = "g\<lparr>g_status := Failed, g_import_error := Some ''download not found in SABnzbd''\<rparr>"
  have "?h \<in> set (gd_rows (sys_db (poll_sab_grab now files q [] g s)))"
    using assms
    by (auto simp: poll_sab_grab_def mark_failed_def update_grab_status_def update_row_def owned_row_def
        case_prod_beta' intro!: rev_image_eqI [of g])
  then show ?thesis by (rule bexI [rotated]) simp
qed

end
