(* ===== verification/Titles.thy ===== *)
theory Titles
  imports Complex_Main Prelude
begin

text \<open>
  Text at the level of characters: the normalisation helpers of \<^verbatim>\<open>livrarr-domain/src/text_norm.rs\<close>, the
  add-time clean-up of \<^verbatim>\<open>title_cleanup.rs\<close> and the title parser of \<^verbatim>\<open>identity_matching.rs\<close>.

  These functions look at characters, so a Rust string is here the list of its code points. The
  Unicode tables (case mapping, character classes, compatibility decomposition), the regular
  expression engine and the decimal reading and printing of floats are code outside the repository: they
  are the fields of a record. The engine is a function of the pattern, which is kept as it stands in the source, and
  of the text; its offsets are counted in characters. A 64-bit float is its value: a rational, an infinity or
  not a number.
\<close>

section \<open>Characters\<close>

type_synonym cp = nat
type_synonym utext = "cp list"

definition tx :: "string \<Rightarrow> utext" where
  "tx s = map of_char s"

definition is_whitespace :: "cp \<Rightarrow> bool" where
  "is_whitespace c \<longleftrightarrow> 9 \<le> c \<and> c \<le> 13 \<or> c = 32 \<or> c = 133 \<or> c = 160 \<or> c = 5760
     \<or> 8192 \<le> c \<and> c \<le> 8202 \<or> c = 8232 \<or> c = 8233 \<or> c = 8239 \<or> c = 8287 \<or> c = 12288"

definition is_ascii_digit :: "cp \<Rightarrow> bool" where
  "is_ascii_digit c \<longleftrightarrow> 48 \<le> c \<and> c \<le> 57"

definition is_ascii_alphanumeric :: "cp \<Rightarrow> bool" where
  "is_ascii_alphanumeric c \<longleftrightarrow> is_ascii_digit c \<or> 65 \<le> c \<and> c \<le> 90 \<or> 97 \<le> c \<and> c \<le> 122"

definition text_ascii_lower :: "utext \<Rightarrow> utext" where
  "text_ascii_lower s = map (\<lambda>c. if 65 \<le> c \<and> c \<le> 90 then c + 32 else c) s"

definition text_trim_start :: "utext \<Rightarrow> utext" where
  "text_trim_start s = dropWhile is_whitespace s"

definition text_trim_end :: "utext \<Rightarrow> utext" where
  "text_trim_end s = rev (dropWhile is_whitespace (rev s))"

definition text_trim :: "utext \<Rightarrow> utext" where
  "text_trim s = text_trim_end (text_trim_start s)"

text \<open>\<^verbatim>\<open>str::split\<close> with a character predicate, empty pieces included, and without them.\<close>

fun split_on :: "(cp \<Rightarrow> bool) \<Rightarrow> utext \<Rightarrow> utext list" where
  "split_on p [] = [[]]"
| "split_on p (c # cs) =
     (if p c then [] # split_on p cs
      else case split_on p cs of [] \<Rightarrow> [[c]] | w # ws \<Rightarrow> (c # w) # ws)"

definition words_by :: "(cp \<Rightarrow> bool) \<Rightarrow> utext \<Rightarrow> utext list" where
  "words_by p s = filter (\<lambda>w. w \<noteq> []) (split_on p s)"

definition split_whitespace :: "utext \<Rightarrow> utext list" where
  "split_whitespace s = words_by is_whitespace s"

definition find_sub :: "utext \<Rightarrow> utext \<Rightarrow> nat option" where
  "find_sub pat s = find (\<lambda>i. take (length pat) (drop i s) = pat) [0..<Suc (length s)]"

text \<open>Lengths of Rust strings are in UTF-8 bytes.\<close>

definition utf8_width :: "cp \<Rightarrow> nat" where
  "utf8_width c = (if c < 0x80 then 1 else if c < 0x800 then 2 else if c < 0x10000 then 3 else 4)"

definition utf8_len :: "utext \<Rightarrow> nat" where
  "utf8_len s = sum_list (map utf8_width s)"

section \<open>The environment\<close>

datatype f64 = Finite rat | Infinite bool | NaN

record captures =
  cap_start :: nat
  cap_end :: nat
  cap_groups :: "utext option list"

record text_env =
  u_lower :: "utext \<Rightarrow> utext"
  u_upper :: "cp \<Rightarrow> utext"
  u_is_alphanumeric :: "cp \<Rightarrow> bool"
  u_is_alphabetic :: "cp \<Rightarrow> bool"
  u_is_lowercase :: "cp \<Rightarrow> bool"
  u_is_uppercase :: "cp \<Rightarrow> bool"
  u_nfkd :: "utext \<Rightarrow> utext"
  u_is_combining_mark :: "cp \<Rightarrow> bool"
  re_captures :: "string \<Rightarrow> utext \<Rightarrow> captures option"
  re_replace_all :: "string \<Rightarrow> utext \<Rightarrow> utext \<Rightarrow> utext"
  f_parse :: "utext \<Rightarrow> f64 option"
  f_show :: "f64 \<Rightarrow> utext"

definition re_is_match :: "text_env \<Rightarrow> string \<Rightarrow> utext \<Rightarrow> bool" where
  "re_is_match env pat s \<longleftrightarrow> re_captures env pat s \<noteq> None"

definition cap_get :: "captures \<Rightarrow> nat \<Rightarrow> utext option" where
  "cap_get c i = (if 1 \<le> i \<and> i \<le> length (cap_groups c) then cap_groups c ! (i - 1) else None)"

text \<open>\<^verbatim>\<open>Regex::replace\<close> by the empty string: the leftmost match is cut out.\<close>

definition re_remove :: "text_env \<Rightarrow> string \<Rightarrow> utext \<Rightarrow> utext" where
  "re_remove env pat s =
     (case re_captures env pat s of None \<Rightarrow> s | Some c \<Rightarrow> take (cap_start c) s @ drop (cap_end c) s)"

section \<open>Normalisation\<close>

definition TITLE_STOPWORDS :: "utext list" where
  "TITLE_STOPWORDS = map tx [''a'', ''an'', ''the'', ''of'', ''and'', ''in'', ''on'', ''for'', ''to'']"

definition AUTHOR_SUFFIX_STOPWORDS :: "utext list" where
  "AUTHOR_SUFFIX_STOPWORDS = map tx [''jr'', ''sr'', ''iii'', ''iv'']"

definition is_cjk_char :: "cp \<Rightarrow> bool" where
  "is_cjk_char c \<longleftrightarrow> 0x4E00 \<le> c \<and> c \<le> 0x9FFF \<or> 0x3040 \<le> c \<and> c \<le> 0x309F
     \<or> 0x30A0 \<le> c \<and> c \<le> 0x30FF \<or> 0xAC00 \<le> c \<and> c \<le> 0xD7AF"

definition has_cjk :: "utext \<Rightarrow> bool" where
  "has_cjk s \<longleftrightarrow> (\<exists>c \<in> set s. is_cjk_char c)"

definition cjk_bigrams :: "text_env \<Rightarrow> utext \<Rightarrow> utext set" where
  "cjk_bigrams env s =
     (let chars = filter (\<lambda>c. \<not> is_whitespace c \<and> (is_cjk_char c \<or> u_is_alphanumeric env c)) s in
      case chars of
        [] \<Rightarrow> {}
      | [c] \<Rightarrow> {[c]}
      | _ \<Rightarrow> set (map (\<lambda>(x, y). [x, y]) (zip chars (tl chars))))"

definition strip_combining_marks :: "text_env \<Rightarrow> utext \<Rightarrow> utext" where
  "strip_combining_marks env s = filter (\<lambda>c. \<not> u_is_combining_mark env c) (u_nfkd env s)"

definition alnum_words :: "text_env \<Rightarrow> utext \<Rightarrow> utext list" where
  "alnum_words env s = words_by (\<lambda>c. \<not> u_is_alphanumeric env c) s"

section \<open>Clean-up\<close>

text \<open>The patterns of the source, with a tilde for the backslash.\<close>

definition re_lit :: "string \<Rightarrow> string" where
  "re_lit s = map (\<lambda>c. if c = CHR ''~'' then CHR 0x5C else c) s"

definition RE_TRAILING_PAREN :: string where
  "RE_TRAILING_PAREN = re_lit ''~s*~(([^()]+)~)~s*$''"

definition RE_SERIES_PAREN :: string where
  "RE_SERIES_PAREN = re_lit ''(?i)^.+,?~s*#~s*~d+(~.~d+)?$|^Book~s+~w+~s+of~s+.+$|^.+~s+series$''"

definition RE_FORMAT_PAREN :: string where
  "RE_FORMAT_PAREN = re_lit ''(?i)^(audiobook|unabridged|abridged|ebook|kindle~s+edition|hardcover|paperback|mass~s+market|illustrated|annotated)$''"

definition RE_YEAR_PAREN :: string where
  "RE_YEAR_PAREN = re_lit ''^~d{4}(~s+~w+)?$''"

definition RE_EDITION_PAREN :: string where
  "RE_EDITION_PAREN = re_lit ''(?i)^(original|reissue|anniversary|deluxe|special|director\\'?s~s+cut|revised|updated|expanded|collector\\'?s|definitive)~s+edition$''"

definition RE_COLON_SERIES_MARKER :: string where
  "RE_COLON_SERIES_MARKER = re_lit ''(?i)~s*:~s*(book|volume|vol~.?)~s+(~d+|[ivxlc]+|one|two|three|four|five|six|seven|eight|nine|ten)(~s+(of|in)~s+(the~s+)?.+)?$''"

definition RE_COLON_NOVEL_MARKER :: string where
  "RE_COLON_NOVEL_MARKER = re_lit ''(?i)~s*:~s*a~s+(novel|memoir|novella|story|tale|poem)s?~s*$''"

definition RE_WHITESPACE :: string where
  "RE_WHITESPACE = re_lit ''~s+''"

definition SMALL_WORDS :: "utext list" where
  "SMALL_WORDS = map tx [''a'', ''an'', ''and'', ''as'', ''at'', ''but'', ''by'', ''for'', ''from'', ''in'', ''into'',
     ''of'', ''on'', ''or'', ''the'', ''to'', ''vs'', ''vs.'', ''via'', ''with'', ''nor'', ''yet'', ''so'', ''if'']"

definition collapse_whitespace :: "text_env \<Rightarrow> utext \<Rightarrow> utext" where
  "collapse_whitespace env s = re_replace_all env RE_WHITESPACE (text_trim s) [32]"

definition capitalize_first :: "text_env \<Rightarrow> utext \<Rightarrow> utext" where
  "capitalize_first env s = (case s of [] \<Rightarrow> [] | c # cs \<Rightarrow> u_upper env c @ cs)"

definition title_case_word :: "text_env \<Rightarrow> utext \<Rightarrow> bool \<Rightarrow> utext" where
  "title_case_word env word edge =
     (let has_lower = (\<exists>c \<in> set word. u_is_lowercase env c);
          has_internal_upper = (\<exists>c \<in> set (drop 1 word). u_is_alphabetic env c \<and> u_is_uppercase env c)
      in if has_lower \<and> has_internal_upper then word
         else if 46 \<in> set word then word
         else let lower = u_lower env word in
              if \<not> edge \<and> lower \<in> set SMALL_WORDS then lower else capitalize_first env lower)"

definition title_case :: "text_env \<Rightarrow> utext \<Rightarrow> utext" where
  "title_case env s =
     (let words = split_whitespace s; last_idx = length words - 1 in
      join [32] (map (\<lambda>(i, w). title_case_word env w (i = 0 \<or> i = last_idx)) (enumerate 0 words)))"

definition strip_trailing_paren_if_match :: "text_env \<Rightarrow> utext \<Rightarrow> utext" where
  "strip_trailing_paren_if_match env s =
     (case re_captures env RE_TRAILING_PAREN s of
        None \<Rightarrow> s
      | Some c \<Rightarrow>
          (let inner = (case cap_get c 1 of Some m \<Rightarrow> text_trim m | None \<Rightarrow> []) in
           if re_is_match env RE_SERIES_PAREN inner \<or> re_is_match env RE_FORMAT_PAREN inner
              \<or> re_is_match env RE_YEAR_PAREN inner \<or> re_is_match env RE_EDITION_PAREN inner
           then text_trim (re_remove env RE_TRAILING_PAREN s) else s))"

definition strip_colon_series_marker :: "text_env \<Rightarrow> utext \<Rightarrow> utext" where
  "strip_colon_series_marker env s = text_trim (re_remove env RE_COLON_SERIES_MARKER s)"

definition strip_colon_novel_marker :: "text_env \<Rightarrow> utext \<Rightarrow> utext" where
  "strip_colon_novel_marker env s = text_trim (re_remove env RE_COLON_NOVEL_MARKER s)"

definition clean_title :: "text_env \<Rightarrow> utext \<Rightarrow> utext" where
  "clean_title env raw =
     (let s = collapse_whitespace env raw in
      if s = [] then s
      else collapse_whitespace env (strip_colon_novel_marker env (strip_colon_series_marker env
             (strip_trailing_paren_if_match env (title_case env s)))))"

definition normalize_last_first :: "utext \<Rightarrow> utext" where
  "normalize_last_first s =
     (if length (filter (\<lambda>c. c = 44) s) \<noteq> 1 then s
      else
        let last = text_trim (takeWhile (\<lambda>c. c \<noteq> 44) s);
            first_etc = text_trim (drop 1 (dropWhile (\<lambda>c. c \<noteq> 44) s))
        in if last = [] \<or> first_etc = [] then s
           else if text_ascii_lower first_etc \<in> set (map tx [''jr.'', ''jr'', ''sr.'', ''sr'', ''ii'', ''iii'', ''iv'', ''v'']) then s
           else first_etc @ [32] @ last)"

definition clean_author :: "text_env \<Rightarrow> utext \<Rightarrow> utext" where
  "clean_author env raw =
     (let s = collapse_whitespace env raw in
      if s = [] then s else collapse_whitespace env (title_case env (normalize_last_first s)))"

section \<open>Token sets\<close>

definition title_tokens :: "text_env \<Rightarrow> utext \<Rightarrow> utext set" where
  "title_tokens env raw =
     (let trimmed = text_trim raw in
      if trimmed = [] then {}
      else let cleaned = clean_title env trimmed in
           if has_cjk cleaned then cjk_bigrams env (u_lower env cleaned)
           else set (filter (\<lambda>w. length w \<ge> 2 \<and> w \<notin> set TITLE_STOPWORDS)
                  (alnum_words env (u_lower env (strip_combining_marks env cleaned)))))"

definition author_tokens :: "text_env \<Rightarrow> utext \<Rightarrow> utext set" where
  "author_tokens env raw =
     (let trimmed = text_trim raw in
      if trimmed = [] then {}
      else if has_cjk trimmed then cjk_bigrams env (u_lower env trimmed)
      else set (filter (\<lambda>w. w \<notin> set AUTHOR_SUFFIX_STOPWORDS)
             (alnum_words env (u_lower env (strip_combining_marks env trimmed)))))"

text \<open>
  The quotient of two small counts is compared with 0.75 and with other such quotients only; rounding
  to a float changes none of these comparisons.
\<close>

definition jaccard :: "utext set \<Rightarrow> utext set \<Rightarrow> rat" where
  "jaccard a b =
     (if a = {} \<or> b = {} then 0
      else of_nat (card (a \<inter> b)) / of_nat (card a + card b - card (a \<inter> b)))"


section \<open>An instance\<close>

text \<open>
  ASCII text without a match of any pattern: the instance on which the development evaluates. Numbers are
  read from digits and printed as a quotient.
\<close>

definition digits_value :: "utext \<Rightarrow> nat" where
  "digits_value s = foldl (\<lambda>a c. 10 * a + (c - 48)) 0 s"

definition show_int_text :: "int \<Rightarrow> utext" where
  "show_int_text i = (if i < 0 then 45 # tx (show_nat (nat (- i))) else tx (show_nat (nat i)))"

fun show_f64 :: "f64 \<Rightarrow> utext" where
  "show_f64 (Finite r) = join [47] [show_int_text (fst (quotient_of r)), show_int_text (snd (quotient_of r))]"
| "show_f64 (Infinite neg) = (if neg then tx ''-inf'' else tx ''inf'')"
| "show_f64 NaN = tx ''NaN''"

definition ascii_env :: text_env where
  "ascii_env =
     \<lparr>u_lower = text_ascii_lower, u_upper = (\<lambda>c. if 97 \<le> c \<and> c \<le> 122 then [c - 32] else [c]),
      u_is_alphanumeric = is_ascii_alphanumeric, u_is_alphabetic = (\<lambda>c. is_ascii_alphanumeric c \<and> \<not> is_ascii_digit c),
      u_is_lowercase = (\<lambda>c. 97 \<le> c \<and> c \<le> 122), u_is_uppercase = (\<lambda>c. 65 \<le> c \<and> c \<le> 90),
      u_nfkd = (\<lambda>s. s), u_is_combining_mark = (\<lambda>_. False),
      re_captures = (\<lambda>_ _. None), re_replace_all = (\<lambda>_ s _. s),
      f_parse = (\<lambda>s. if s \<noteq> [] \<and> (\<forall>c \<in> set s. is_ascii_digit c) then Some (Finite (of_nat (digits_value s))) else None),
      f_show = show_f64\<rparr>"


lemmas ascii_eval = ascii_env_def tx_def collapse_whitespace_def text_trim_def text_trim_start_def text_trim_end_def
  is_whitespace_def normalize_last_first_def strip_combining_marks_def text_ascii_lower_def alnum_words_def words_by_def
  is_ascii_alphanumeric_def is_ascii_digit_def AUTHOR_SUFFIX_STOPWORDS_def

section \<open>Splitting and decimals\<close>

lemma split_on_nonempty [simp]: "split_on p s \<noteq> []"
  by (cases s) (auto split: list.split)

lemma split_on_word: "\<forall>c \<in> set w. \<not> p c \<Longrightarrow> split_on p w = [w]"
  by (induction w) auto

lemma digits_value_snoc: "digits_value (s @ [c]) = 10 * digits_value s + (c - 48)"
  by (simp add: digits_value_def)

lemma digit_cp: "d < 10 \<Longrightarrow> of_char (char_of (48 + d) :: char) = (48 + d :: nat)"
  by simp

lemma show_nat_value: "digits_value (tx (show_nat n)) = n"
proof (induction n rule: show_nat.induct)
  case (1 n)
  show ?case
  proof (cases "n < 10")
    case True
    then show ?thesis by (subst show_nat.simps) (simp add: tx_def digits_value_def)
  next
    case False
    have "tx (show_nat n) = tx (show_nat (n div 10)) @ [48 + n mod 10]"
      using False digit_cp [of "n mod 10"] by (subst show_nat.simps) (simp add: tx_def)
    then show ?thesis using 1 False by (simp add: digits_value_snoc)
  qed
qed

lemma show_nat_digits: "\<forall>c \<in> set (tx (show_nat n)). 48 \<le> c \<and> c \<le> 57"
proof (induction n rule: show_nat.induct)
  case (1 n)
  have "tx (show_nat n) = (if n < 10 then [48 + n] else tx (show_nat (n div 10)) @ [48 + n mod 10])"
    using digit_cp [of n] digit_cp [of "n mod 10"] by (subst show_nat.simps) (simp add: tx_def)
  then show ?case using 1 by auto
qed

lemma show_nat_nonempty: "tx (show_nat n) \<noteq> []"
  by (subst show_nat.simps) (simp add: tx_def)

lemma show_nat_inject: "tx (show_nat m) = tx (show_nat n) \<Longrightarrow> m = n"
  using show_nat_value by metis

end
