(* ===== verification/IdentityTitles.thy ===== *)
theory IdentityTitles
  imports Titles
begin

text \<open>
  The title parser and the stored identity keys of \<^verbatim>\<open>livrarr-domain/src/identity_matching.rs\<close>. A
  title is decomposed into a main title, a subtitle, volume markers and edition junk; the stored key
  is assembled from the first three.
\<close>

section \<open>Volume numbers\<close>

text \<open>
  \<open>(x - y).abs() < 1e-9\<close>: false as soon as one side is infinite or not a number. A finite number is the rational that it stands for, the difference is
  exact and the two zeros are one; volume numbers are read from a few digits and lie far apart compared with the rounding of a difference.
\<close>

fun same_volume :: "f64 \<Rightarrow> f64 \<Rightarrow> bool" where
  "same_volume (Finite x) (Finite y) \<longleftrightarrow> \<bar>x - y\<bar> < 1 / 1000000000"
| "same_volume _ _ \<longleftrightarrow> False"

text \<open>\<open>partial_cmp\<close> is less; the flag of an infinity is set for the negative one.\<close>

fun f64_less :: "f64 \<Rightarrow> f64 \<Rightarrow> bool" where
  "f64_less (Finite x) (Finite y) \<longleftrightarrow> x < y"
| "f64_less (Infinite neg) (Finite _) \<longleftrightarrow> neg"
| "f64_less (Finite _) (Infinite neg) \<longleftrightarrow> \<not> neg"
| "f64_less (Infinite neg) (Infinite neg') \<longleftrightarrow> neg \<and> \<not> neg'"
| "f64_less _ _ \<longleftrightarrow> False"

fun insert_volume :: "f64 \<Rightarrow> f64 list \<Rightarrow> f64 list" where
  "insert_volume x [] = [x]"
| "insert_volume x (y # ys) = (if f64_less y x then y # insert_volume x ys else x # y # ys)"

definition sort_volumes :: "f64 list \<Rightarrow> f64 list" where
  "sort_volumes xs = foldr insert_volume xs []"

text \<open>\<^verbatim>\<open>Vec::dedup_by\<close>: an element close to the last one kept is dropped.\<close>

fun dedup_after :: "f64 \<Rightarrow> f64 list \<Rightarrow> f64 list" where
  "dedup_after x [] = []"
| "dedup_after x (y # ys) = (if same_volume y x then dedup_after x ys else y # dedup_after y ys)"

fun dedup_volumes :: "f64 list \<Rightarrow> f64 list" where
  "dedup_volumes [] = []"
| "dedup_volumes (x # xs) = x # dedup_after x xs"

definition rendered_volumes :: "text_env \<Rightarrow> f64 list \<Rightarrow> utext list" where
  "rendered_volumes env vs = map (f_show env) (dedup_volumes (sort_volumes vs))"

definition SPELLED :: "utext list" where
  "SPELLED = map tx [''one'', ''two'', ''three'', ''four'', ''five'', ''six'', ''seven'', ''eight'', ''nine'', ''ten'',
     ''eleven'', ''twelve'', ''thirteen'', ''fourteen'', ''fifteen'', ''sixteen'', ''seventeen'', ''eighteen'', ''nineteen'',
     ''twenty'']"

definition ROMAN :: "utext list" where
  "ROMAN = map tx [''i'', ''ii'', ''iii'', ''iv'', ''v'', ''vi'', ''vii'', ''viii'', ''ix'', ''x'', ''xi'', ''xii'', ''xiii'',
     ''xiv'', ''xv'', ''xvi'', ''xvii'', ''xviii'', ''xix'', ''xx'']"

definition parse_volume_number :: "text_env \<Rightarrow> utext \<Rightarrow> f64 option" where
  "parse_volume_number env token =
     (let t = rev (dropWhile (\<lambda>c. c = 46) (rev (text_trim token))) in
      if t = [] then None
      else if \<forall>c \<in> set t. is_ascii_digit c \<or> c = 46 then f_parse env t
      else let lower = u_lower env t in
           case position (\<lambda>w. w = lower) SPELLED of
             Some i \<Rightarrow> Some (Finite (of_nat (i + 1)))
           | None \<Rightarrow> map_option (\<lambda>i. Finite (of_nat (i + 1))) (position (\<lambda>w. w = lower) ROMAN))"

section \<open>Parsed titles\<close>

record series_marker =
  sm_series :: "utext option"
  sm_number :: f64

record parsed_title =
  pt_main :: utext
  pt_subtitle :: "utext option"
  pt_markers :: "series_marker list"
  pt_junk :: "utext list"

definition volume_numbers :: "parsed_title \<Rightarrow> f64 list" where
  "volume_numbers p = map sm_number (pt_markers p)"

definition RE_SERIES_VOLUME :: string where
  "RE_SERIES_VOLUME = re_lit ''(?i)^(?:(.+?),~s*)?(?:book|volume|vol~.?|part|no~.|#)~s*([a-z0-9.]+)(?:~s+(?:of|in)~s+(?:the~s+)?(.+?))?$''"

definition RE_HASH_SERIES :: string where
  "RE_HASH_SERIES = re_lit ''(?i)^(?:(.+?)~s+)?#~s*([0-9.]+)$''"

definition RE_BARE_NUMBER :: string where
  "RE_BARE_NUMBER = re_lit ''^~d+(~.~d+)?$''"

definition RE_COMMA_VOLUME :: string where
  "RE_COMMA_VOLUME = re_lit ''(?i),~s*(?:book|volume|vol~.?|part|no~.|#)~s*([a-z0-9.]+)~s*$''"

definition JUNK_VOCAB :: "utext list" where
  "JUNK_VOCAB = map tx [''a novel'', ''a memoir'', ''a novella'', ''a story'', ''a tale'', ''a poem'', ''unabridged'',
     ''abridged'', ''large print'', ''annotated'', ''illustrated'', ''complete'', ''tie in'', ''special edition'',
     ''deluxe edition'', ''collectors edition'', ''anniversary edition'', ''expanded edition'', ''audiobook'', ''ebook'',
     ''kindle edition'', ''hardcover'', ''paperback'', ''mass market'', ''original edition'', ''reissue edition'',
     ''revised edition'', ''updated edition'', ''definitive edition'', ''directors cut edition'']"

definition is_junk_phrase :: "utext \<Rightarrow> bool" where
  "is_junk_phrase normalized \<longleftrightarrow> normalized \<in> set JUNK_VOCAB"

definition normalize_vocab :: "text_env \<Rightarrow> utext \<Rightarrow> utext" where
  "normalize_vocab env s =
     (let lower = u_lower env (strip_combining_marks env s);
          no_apostrophe = filter (\<lambda>c. c \<noteq> 39 \<and> c \<noteq> 8217) lower
      in join [32] (alnum_words env no_apostrophe))"

definition fold_conjunction_symbol :: "utext \<Rightarrow> utext" where
  "fold_conjunction_symbol lower = concat (map (\<lambda>c. if c = 38 then tx '' and '' else [c]) lower)"

definition IDENTITY_ARTICLES :: "utext list" where
  "IDENTITY_ARTICLES = map tx [''a'', ''an'', ''the'']"

definition is_identity_article :: "utext \<Rightarrow> bool" where
  "is_identity_article token \<longleftrightarrow> token \<in> set IDENTITY_ARTICLES"

definition strip_leading_identity_article :: "utext \<Rightarrow> utext" where
  "strip_leading_identity_article normalized_main =
     (case split_whitespace normalized_main of
        [] \<Rightarrow> normalized_main
      | first # _ \<Rightarrow>
          (let remainder = text_trim_start (drop (length first) normalized_main) in
           if remainder \<noteq> [] \<and> is_identity_article first then remainder else normalized_main))"

definition canonical_phrase :: "text_env \<Rightarrow> utext \<Rightarrow> utext" where
  "canonical_phrase env s =
     (if has_cjk s then u_lower env (filter (u_is_alphanumeric env) s)
      else strip_leading_identity_article
             (join [32] (alnum_words env (fold_conjunction_symbol (u_lower env (strip_combining_marks env s))))))"

text \<open>The first separator wins; of two at one place, the one listed first.\<close>

definition split_main_tail :: "utext \<Rightarrow> utext \<times> utext option" where
  "split_main_tail s =
     (let candidates = List.map_filter id
            [map_option (\<lambda>i. (i, 1)) (find_sub [58] s),
             map_option (\<lambda>i. (i, 3)) (find_sub [32, 45, 32] s),
             map_option (\<lambda>i. (i, 1)) (find_sub [8212] s)]
      in case sort_key fst candidates of
           [] \<Rightarrow> (s, None)
         | (i, len) # _ \<Rightarrow>
             (let tail = text_trim_start (drop (i + len) s) in
              (text_trim_end (take i s), if tail = [] then None else Some tail)))"

definition nonempty :: "utext option \<Rightarrow> utext option" where
  "nonempty v = (case v of Some (c # cs) \<Rightarrow> Some (c # cs) | _ \<Rightarrow> None)"

definition parse_series_marker :: "text_env \<Rightarrow> utext \<Rightarrow> series_marker option" where
  "parse_series_marker env txt =
     (let t = text_trim txt in
      if t = [] then None
      else if re_is_match env RE_BARE_NUMBER t
      then (if length (hd (split_on (\<lambda>c. c = 46) t)) \<le> 3
            then map_option (\<lambda>n. \<lparr>sm_series = None, sm_number = n\<rparr>) (f_parse env t) else None)
      else
        let volume = (case re_captures env RE_SERIES_VOLUME t of
                        None \<Rightarrow> None
                      | Some c \<Rightarrow>
                          map_option (\<lambda>n. \<lparr>sm_series = nonempty (map_option (canonical_phrase env)
                              (case cap_get c 1 of Some m \<Rightarrow> Some m | None \<Rightarrow> cap_get c 3)), sm_number = n\<rparr>)
                            (Option.bind (cap_get c 2) (parse_volume_number env)))
        in case volume of
             Some m \<Rightarrow> Some m
           | None \<Rightarrow>
               (case re_captures env RE_HASH_SERIES t of
                  None \<Rightarrow> None
                | Some c \<Rightarrow>
                    map_option (\<lambda>n. \<lparr>sm_series = nonempty (map_option (canonical_phrase env) (cap_get c 1)), sm_number = n\<rparr>)
                      (Option.bind (cap_get c 2) (parse_volume_number env))))"

definition extract_comma_marker :: "text_env \<Rightarrow> utext \<Rightarrow> (utext \<times> series_marker) option" where
  "extract_comma_marker env s =
     (case re_captures env RE_COMMA_VOLUME s of
        None \<Rightarrow> None
      | Some c \<Rightarrow>
          map_option (\<lambda>n. (text_trim_end (take (cap_start c) s), \<lparr>sm_series = None, sm_number = n\<rparr>))
            (Option.bind (cap_get c 1) (parse_volume_number env)))"

text \<open>What the tails have been classified as so far: markers, junk and pieces of a subtitle.\<close>

record tails =
  tl_markers :: "series_marker list"
  tl_junk :: "utext list"
  tl_subtitle_parts :: "utext list"

definition classify_tail :: "text_env \<Rightarrow> utext \<Rightarrow> tails \<Rightarrow> tails" where
  "classify_tail env tail acc =
     (case parse_series_marker env tail of
        Some m \<Rightarrow> acc\<lparr>tl_markers := tl_markers acc @ [m]\<rparr>
      | None \<Rightarrow>
          (let normalized = normalize_vocab env tail in
           if normalized \<noteq> [] \<and> is_junk_phrase normalized then acc\<lparr>tl_junk := tl_junk acc @ [normalized]\<rparr>
           else acc\<lparr>tl_subtitle_parts := tl_subtitle_parts acc @ [tail]\<rparr>))"

definition classify_paren :: "text_env \<Rightarrow> utext \<Rightarrow> tails \<Rightarrow> tails" where
  "classify_paren env inner acc =
     (if inner = [] then acc
      else
        let normalized = normalize_vocab env inner in
        if re_is_match env RE_YEAR_PAREN inner then acc\<lparr>tl_junk := tl_junk acc @ [normalized]\<rparr>
        else
          case parse_series_marker env inner of
            Some m \<Rightarrow> acc\<lparr>tl_markers := tl_markers acc @ [m]\<rparr>
          | None \<Rightarrow>
              if re_is_match env RE_SERIES_PAREN inner \<or> re_is_match env RE_FORMAT_PAREN inner
                 \<or> re_is_match env RE_EDITION_PAREN inner \<or> is_junk_phrase normalized
              then acc\<lparr>tl_junk := tl_junk acc @ [normalized]\<rparr>
              else acc\<lparr>tl_subtitle_parts := tl_subtitle_parts acc @ [inner]\<rparr>)"

text \<open>
  The loop that peels parentheticals off the end. A match starts inside the text, so every round but the last
  shortens it: the length of the text bounds the rounds.
\<close>

fun peel_parens :: "text_env \<Rightarrow> nat \<Rightarrow> tails \<Rightarrow> utext \<Rightarrow> tails \<times> utext" where
  "peel_parens env 0 acc rest = (acc, rest)"
| "peel_parens env (Suc n) acc rest =
     (case re_captures env RE_TRAILING_PAREN rest of
        None \<Rightarrow> (acc, rest)
      | Some c \<Rightarrow>
          (let inner = (case cap_get c 1 of Some m \<Rightarrow> text_trim m | None \<Rightarrow> []);
               acc' = classify_paren env inner acc;
               rest' = text_trim_end (take (cap_start c) rest)
           in if rest' = [] then (acc', rest') else peel_parens env n acc' rest'))"

definition parse_title :: "text_env \<Rightarrow> utext \<Rightarrow> parsed_title" where
  "parse_title env raw =
     (let start = collapse_whitespace env raw;
          (peeled, rest) = peel_parens env (length start) \<lparr>tl_markers = [], tl_junk = [], tl_subtitle_parts = []\<rparr> start;
          (main_part, tail_part) = split_main_tail rest;
          (main_raw, bound) = (case extract_comma_marker env main_part of
             Some (prefix, m) \<Rightarrow> (prefix, peeled\<lparr>tl_markers := tl_markers peeled @ [m]\<rparr>)
           | None \<Rightarrow> (main_part, peeled));
          acc = (case tail_part of Some tail \<Rightarrow> classify_tail env tail bound | None \<Rightarrow> bound)
      in \<lparr>pt_main = canonical_phrase env main_raw,
          pt_subtitle = nonempty (Some (canonical_phrase env (join [32] (tl_subtitle_parts acc)))),
          pt_markers = tl_markers acc,
          pt_junk = tl_junk acc\<rparr>)"

section \<open>Authors\<close>

record canonical_name =
  cn_given :: "utext list"
  cn_surname :: utext

definition RE_AUTHOR_PAREN :: string where
  "RE_AUTHOR_PAREN = re_lit ''~([^)]*~)''"

definition canonical_author_name :: "text_env \<Rightarrow> utext \<Rightarrow> canonical_name option" where
  "canonical_author_name env raw =
     (let no_parens = re_replace_all env RE_AUTHOR_PAREN raw [32];
          reordered = normalize_last_first (collapse_whitespace env no_parens);
          lower = u_lower env (strip_combining_marks env reordered);
          tokens = filter (\<lambda>t. t \<notin> set AUTHOR_SUFFIX_STOPWORDS) (alnum_words env lower)
      in if tokens = [] then None else Some \<lparr>cn_given = butlast tokens, cn_surname = last tokens\<rparr>)"

definition canonical_author_key :: "text_env \<Rightarrow> utext \<Rightarrow> utext" where
  "canonical_author_key env author =
     (case canonical_author_name env author of
        Some name \<Rightarrow> join [32] (cn_given name @ [cn_surname name])
      | None \<Rightarrow> [])"

fun dedupe_names_from :: "text_env \<Rightarrow> utext set \<Rightarrow> utext list \<Rightarrow> utext list" where
  "dedupe_names_from env seen [] = []"
| "dedupe_names_from env seen (name # names) =
     (let trimmed = text_trim name; key = canonical_author_key env trimmed in
      if trimmed = [] then dedupe_names_from env seen names
      else if key \<in> seen then dedupe_names_from env seen names
      else trimmed # dedupe_names_from env (insert key seen) names)"

definition dedupe_associated_names :: "text_env \<Rightarrow> utext list \<Rightarrow> utext list" where
  "dedupe_associated_names env names = dedupe_names_from env {} names"

section \<open>Keys\<close>

fun drop_trailing_empty :: "utext list \<Rightarrow> utext list" where
  "drop_trailing_empty segments =
     (if length segments > 1 \<and> last segments = [] then drop_trailing_empty (butlast segments) else segments)"

declare drop_trailing_empty.simps [simp del]

definition KEY_SEPARATOR :: cp where "KEY_SEPARATOR = 1"

definition assemble_title_key :: "text_env \<Rightarrow> parsed_title \<Rightarrow> f64 option \<Rightarrow> utext" where
  "assemble_title_key env parsed explicit_volume =
     (let volumes = volume_numbers parsed @ (case explicit_volume of Some v \<Rightarrow> [v] | None \<Rightarrow> []);
          segments = [pt_main parsed,
                      (case pt_subtitle parsed of Some s \<Rightarrow> s | None \<Rightarrow> []),
                      join [44] (rendered_volumes env volumes)]
      in join [KEY_SEPARATOR] (drop_trailing_empty segments))"

definition identity_key :: "text_env \<Rightarrow> utext \<Rightarrow> utext \<Rightarrow> utext \<times> utext" where
  "identity_key env title author =
     (assemble_title_key env (parse_title env title) None, canonical_author_key env author)"

definition parse_stored_title :: "text_env \<Rightarrow> utext \<Rightarrow> utext option \<Rightarrow> parsed_title" where
  "parse_stored_title env main_title subtitle =
     (let inline = parse_title env main_title in
      case nonempty (map_option text_trim subtitle) of
        None \<Rightarrow> inline
      | Some separate \<Rightarrow>
          if pt_subtitle inline = Some (canonical_phrase env separate) then inline
          else parse_title env (main_title @ [58, 32] @ separate))"

definition stored_identity_title_key ::
  "text_env \<Rightarrow> utext \<Rightarrow> utext option \<Rightarrow> utext option \<Rightarrow> utext option" where
  "stored_identity_title_key env main_title subtitle volume =
     (case nonempty (map_option text_trim volume) of
        None \<Rightarrow> Some (assemble_title_key env (parse_stored_title env main_title subtitle) None)
      | Some raw \<Rightarrow>
          map_option (\<lambda>v. assemble_title_key env (parse_stored_title env main_title subtitle) (Some v)) (f_parse env raw))"

definition identity_key_flat :: "text_env \<Rightarrow> utext \<Rightarrow> utext \<Rightarrow> utext \<times> utext" where
  "identity_key_flat env title author =
     (let parsed = parse_title env title;
          joined = pt_main parsed @ [32] @ (case pt_subtitle parsed of Some s \<Rightarrow> s | None \<Rightarrow> []) @ [32]
                   @ join [32] (rendered_volumes env (volume_numbers parsed))
      in (join [32] (filter (\<lambda>t. \<not> is_identity_article t) (split_whitespace joined)),
          canonical_author_key env author))"

end
