(* ===== verification/IdentityVerdicts.thy ===== *)
theory IdentityVerdicts
  imports IdentityTitles SearchFallback
begin

text \<open>
  The verdicts of \<^verbatim>\<open>livrarr-domain/src/identity_matching.rs\<close> on whether two records describe one book: by
  title, authors, language and identifiers, the pick among a provider's candidates and the classification
  of a search result, and the adoption of an author name.
\<close>

section \<open>Titles\<close>

datatype grey_cause = OneSidedSubtitle | SubtitleDisagreement | VolumeAsymmetry | NearMain

datatype title_verdict_t = TitleSame | TitleGrey rat grey_cause | TitleDifferent | VetoVolume

definition TITLE_GREY_FLOOR :: rat where
  "TITLE_GREY_FLOOR = 3 / 4"

definition volumes_conflict :: "f64 list \<Rightarrow> f64 list \<Rightarrow> bool" where
  "volumes_conflict a b \<longleftrightarrow> a \<noteq> [] \<and> b \<noteq> [] \<and> \<not> (\<exists>x \<in> set a. \<exists>y \<in> set b. same_volume x y)"

definition position_volume :: "f64 option \<Rightarrow> f64 list" where
  "position_volume p = (case p of Some v \<Rightarrow> [v] | None \<Rightarrow> [])"

definition title_verdict_with_positions ::
  "text_env \<Rightarrow> parsed_title \<Rightarrow> f64 option \<Rightarrow> parsed_title \<Rightarrow> f64 option \<Rightarrow> title_verdict_t" where
  "title_verdict_with_positions env a a_position b b_position =
     (let volumes_a = volume_numbers a @ position_volume a_position;
          volumes_b = volume_numbers b @ position_volume b_position
      in if volumes_conflict volumes_a volumes_b then VetoVolume
         else if pt_main a = [] \<or> pt_main b = [] then TitleDifferent
         else
           let score = jaccard (title_tokens env (pt_main a)) (title_tokens env (pt_main b)) in
           if pt_main a = pt_main b then
             (let one_sided_volume = ((volumes_a = []) \<noteq> (volumes_b = []));
                  subtitles_demote = (case (pt_subtitle a, pt_subtitle b) of
                    (Some x, Some y) \<Rightarrow> x \<noteq> y | (None, None) \<Rightarrow> False | _ \<Rightarrow> True)
              in if one_sided_volume \<or> subtitles_demote
                 then TitleGrey score
                        (if one_sided_volume then VolumeAsymmetry
                         else if pt_subtitle a \<noteq> None \<and> pt_subtitle b \<noteq> None then SubtitleDisagreement
                         else OneSidedSubtitle)
                 else TitleSame)
           else if score \<ge> TITLE_GREY_FLOOR then TitleGrey score NearMain
           else TitleDifferent)"

definition title_verdict :: "text_env \<Rightarrow> parsed_title \<Rightarrow> parsed_title \<Rightarrow> title_verdict_t" where
  "title_verdict env a b = title_verdict_with_positions env a None b None"

section \<open>Authors\<close>

datatype author_verdict_t = AuthorAgree | AuthorGrey | AuthorDisagree | AuthorAbstain

definition given_token_compatible :: "utext \<Rightarrow> utext \<Rightarrow> bool" where
  "given_token_compatible a b \<longleftrightarrow>
     (if length a = 1 \<or> length b = 1 then take 1 a = take 1 b else a = b)"

definition full_name_match :: "canonical_name \<Rightarrow> canonical_name \<Rightarrow> bool" where
  "full_name_match a b \<longleftrightarrow>
     (if cn_surname a \<noteq> cn_surname b then False
      else if cn_given a = [] \<and> cn_given b = [] then True
      else if cn_given a = [] \<or> cn_given b = [] then False
      else \<forall>(x, y) \<in> set (zip (cn_given a) (cn_given b)). given_token_compatible x y)"

definition AUTHOR_VERDICT_MAX_NAMES_PER_SIDE :: nat where
  "AUTHOR_VERDICT_MAX_NAMES_PER_SIDE = 256"

text \<open>
  The counters of the comparison loop. With at most 256 names on a side the saturating addition of
  the counters never saturates.
\<close>

record match_counts =
  row_counts :: "nat list"
  col_counts :: "nat list"
  row_first_match :: "nat option list"
  any_match :: bool

definition count_match :: "nat \<Rightarrow> nat \<Rightarrow> match_counts \<Rightarrow> match_counts" where
  "count_match i j st =
     st\<lparr>row_counts := (row_counts st)[i := row_counts st ! i + 1],
        col_counts := (col_counts st)[j := col_counts st ! j + 1],
        row_first_match := (row_first_match st)[i := (case row_first_match st ! i of None \<Rightarrow> Some j | Some k \<Rightarrow> Some k)],
        any_match := True\<rparr>"

definition count_matches :: "canonical_name list \<Rightarrow> canonical_name list \<Rightarrow> match_counts" where
  "count_matches ca cb =
     fold (\<lambda>(i, x). fold (\<lambda>(j, y) st. if full_name_match x y then count_match i j st else st) (enumerate 0 cb))
       (enumerate 0 ca)
       \<lparr>row_counts = replicate (length ca) 0, col_counts = replicate (length cb) 0,
        row_first_match = replicate (length ca) None, any_match = False\<rparr>"

definition author_verdict :: "text_env \<Rightarrow> utext list \<Rightarrow> utext list \<Rightarrow> author_verdict_t" where
  "author_verdict env a b =
     (if length a > AUTHOR_VERDICT_MAX_NAMES_PER_SIDE \<or> length b > AUTHOR_VERDICT_MAX_NAMES_PER_SIDE then AuthorAbstain
      else
        let ca = List.map_filter (canonical_author_name env) a; cb = List.map_filter (canonical_author_name env) b in
        if ca = [] \<or> cb = [] then AuthorAbstain
        else
          let st = count_matches ca cb;
              agrees = (\<exists>i \<in> set [0..<length ca]. row_counts st ! i = 1
                 \<and> (case row_first_match st ! i of Some j \<Rightarrow> col_counts st ! j = 1 | None \<Rightarrow> False))
          in if agrees then AuthorAgree
             else if any_match st then AuthorGrey
             else if \<exists>x \<in> set ca. \<exists>y \<in> set cb. cn_surname x = cn_surname y then AuthorGrey
             else AuthorDisagree)"

section \<open>Adoption of an author name\<close>

definition try_glued_side :: "text_env \<Rightarrow> utext list \<Rightarrow> utext list \<Rightarrow> bool option" where
  "try_glued_side env glued other =
     (case glued of
        [chars] \<Rightarrow>
          if \<not> (2 \<le> length chars \<and> length chars \<le> 4) \<or> \<not> (\<forall>c \<in> set chars. u_is_alphabetic env c) then None
          else if length chars \<noteq> length other then None
          else Some (\<forall>(c, name) \<in> set (zip chars other). given_token_compatible [c] name)
      | _ \<Rightarrow> None)"

definition glued_initials_match :: "text_env \<Rightarrow> utext list \<Rightarrow> utext list \<Rightarrow> bool option" where
  "glued_initials_match env a b =
     (case try_glued_side env a b of Some r \<Rightarrow> Some r | None \<Rightarrow> try_glued_side env b a)"

definition exact_prefix_match :: "utext list \<Rightarrow> utext list \<Rightarrow> bool" where
  "exact_prefix_match a b \<longleftrightarrow>
     (let (shorter, longer) = (if length a < length b then (a, b) else (b, a)) in
      \<forall>(x, y) \<in> set (zip shorter longer). length x > 1 \<and> x = y)"

definition adoption_match :: "text_env \<Rightarrow> canonical_name \<Rightarrow> canonical_name \<Rightarrow> bool" where
  "adoption_match env x y \<longleftrightarrow>
     (if cn_surname x \<noteq> cn_surname y then False
      else if cn_given x = [] \<and> cn_given y = [] then True
      else if cn_given x = [] \<or> cn_given y = [] then False
      else if length (cn_given x) = length (cn_given y)
      then \<forall>(a, b) \<in> set (zip (cn_given x) (cn_given y)). given_token_compatible a b
      else case glued_initials_match env (cn_given x) (cn_given y) of
             Some matched \<Rightarrow> matched
           | None \<Rightarrow> exact_prefix_match (cn_given x) (cn_given y))"

definition adopts :: "text_env \<Rightarrow> canonical_name \<Rightarrow> utext \<Rightarrow> bool" where
  "adopts env candidate_name name =
     (case canonical_author_name env name of Some n \<Rightarrow> adoption_match env candidate_name n | None \<Rightarrow> False)"

definition unambiguous_author_match :: "text_env \<Rightarrow> utext \<Rightarrow> utext list \<Rightarrow> nat option" where
  "unambiguous_author_match env candidate stored =
     (case canonical_author_name env candidate of
        None \<Rightarrow> None
      | Some candidate_name \<Rightarrow>
          (case filter (\<lambda>(i, name). adopts env candidate_name name) (enumerate 0 stored) of
             [(i, _)] \<Rightarrow> Some i
           | _ \<Rightarrow> None))"

section \<open>The pick among candidates\<close>

definition author_of :: "text_env \<Rightarrow> utext \<Rightarrow> utext \<Rightarrow> author_verdict_t" where
  "author_of env seed_author cand_author = author_verdict env [seed_author] [cand_author]"

definition candidate_tier :: "text_env \<Rightarrow> parsed_title \<Rightarrow> utext \<Rightarrow> bool \<Rightarrow> utext \<times> utext \<Rightarrow> (nat \<times> rat) option" where
  "candidate_tier env seed_parsed seed_author accept_grey cand =
     (case title_verdict env seed_parsed (parse_title env (fst cand)) of
        TitleSame \<Rightarrow>
          if author_of env seed_author (snd cand) \<in> {AuthorAgree, AuthorAbstain} then Some (2, 1) else None
      | TitleGrey score _ \<Rightarrow>
          if accept_grey \<and> author_of env seed_author (snd cand) = AuthorAgree then Some (1, score) else None
      | _ \<Rightarrow> None)"

definition beats :: "nat \<times> rat \<Rightarrow> (nat \<times> nat \<times> rat) option \<Rightarrow> bool" where
  "beats ts best =
     (case best of
        None \<Rightarrow> True
      | Some (_, best_tier, best_score) \<Rightarrow>
          fst ts > best_tier \<or> fst ts = best_tier \<and> snd ts > best_score)"

definition pick_step ::
  "text_env \<Rightarrow> parsed_title \<Rightarrow> utext \<Rightarrow> bool \<Rightarrow> nat \<times> utext \<times> utext \<Rightarrow> (nat \<times> nat \<times> rat) option \<Rightarrow> (nat \<times> nat \<times> rat) option" where
  "pick_step env seed_parsed seed_author accept_grey ic best =
     (case candidate_tier env seed_parsed seed_author accept_grey (snd ic) of
        None \<Rightarrow> best
      | Some ts \<Rightarrow> if beats ts best then Some (fst ic, ts) else best)"

definition pick_best_candidate ::
  "text_env \<Rightarrow> utext \<Rightarrow> utext \<Rightarrow> (utext \<times> utext) list \<Rightarrow> bool \<Rightarrow> nat option" where
  "pick_best_candidate env seed_title seed_author candidates accept_grey =
     map_option fst (fold (pick_step env (parse_title env seed_title) seed_author accept_grey) (enumerate 0 candidates) None)"

record search_fallback_candidate =
  sc_title :: utext
  sc_author :: utext
  sc_provider_work_id :: utext

definition decisive :: "text_env \<Rightarrow> utext \<Rightarrow> utext \<Rightarrow> search_fallback_candidate \<Rightarrow> bool" where
  "decisive env seed_title seed_author c \<longleftrightarrow>
     title_verdict env (parse_title env seed_title) (parse_title env (sc_title c)) = TitleSame
     \<and> author_of env seed_author (sc_author c) = AuthorAgree"

definition classify_search_fallback ::
  "text_env \<Rightarrow> utext \<Rightarrow> utext \<Rightarrow> search_fallback_candidate list \<Rightarrow> bool \<Rightarrow> search_fallback_decision" where
  "classify_search_fallback env seed_title seed_author candidates accept_grey =
     (let routable = filter (\<lambda>(i, c). text_trim (sc_provider_work_id c) \<noteq> []) (enumerate 0 candidates) in
      case pick_best_candidate env seed_title seed_author (map (\<lambda>(i, c). (sc_title c, sc_author c)) routable) accept_grey of
        None \<Rightarrow> Abstain
      | Some routable_index \<Rightarrow>
          (let winner_index = fst (routable ! routable_index); winner = candidates ! winner_index in
           if \<not> decisive env seed_title seed_author winner then Propose winner_index
           else if \<exists>(index, other) \<in> set (enumerate 0 candidates).
                     index \<noteq> winner_index
                     \<and> text_trim (sc_provider_work_id other) \<noteq> []
                     \<and> text_trim (sc_provider_work_id other) \<noteq> text_trim (sc_provider_work_id winner)
                     \<and> decisive env seed_title seed_author other
           then Propose winner_index
           else AutoLink winner_index))"

section \<open>Languages and identifiers\<close>

datatype language_verdict_t = LanguageVeto | LanguageGrey | LanguageNeutral

definition language_verdict :: "text_env \<Rightarrow> utext option \<Rightarrow> utext option \<Rightarrow> utext \<Rightarrow> language_verdict_t" where
  "language_verdict env work payload user_default =
     (let norm = (\<lambda>v. nonempty (map_option (\<lambda>s. u_lower env (text_trim s)) v));
          dflt = u_lower env (text_trim user_default)
      in case (norm work, norm payload) of
           (Some w, Some p) \<Rightarrow> if w \<noteq> p then LanguageVeto else LanguageNeutral
         | (None, None) \<Rightarrow> LanguageNeutral
         | (Some lang, None) \<Rightarrow> if lang = dflt then LanguageNeutral else LanguageGrey
         | (None, Some lang) \<Rightarrow> if lang = dflt then LanguageNeutral else LanguageGrey)"

record id_evidence =
  ie_ol_key :: "utext option"
  ie_gr_key :: "utext option"
  ie_hc_key :: "utext option"
  ie_isbn_13 :: "utext option"
  ie_asin :: "utext option"

datatype id_verdict_t = WorkKeyEqual | WorkKeyContradiction | EditionBridge | NoEvidence

definition present_id :: "utext option \<Rightarrow> utext option" where
  "present_id v = nonempty (map_option text_trim v)"

definition id_eq :: "utext option \<Rightarrow> utext option \<Rightarrow> bool" where
  "id_eq x y = (case (present_id x, present_id y) of (Some p, Some q) \<Rightarrow> p = q | _ \<Rightarrow> False)"

definition id_differs :: "utext option \<Rightarrow> utext option \<Rightarrow> bool" where
  "id_differs x y = (case (present_id x, present_id y) of (Some p, Some q) \<Rightarrow> p \<noteq> q | _ \<Rightarrow> False)"

definition work_key_contradiction :: "id_evidence \<Rightarrow> id_evidence \<Rightarrow> bool" where
  "work_key_contradiction a b \<longleftrightarrow>
     id_differs (ie_ol_key a) (ie_ol_key b) \<or> id_differs (ie_gr_key a) (ie_gr_key b) \<or> id_differs (ie_hc_key a) (ie_hc_key b)"

definition id_verdict :: "id_evidence \<Rightarrow> id_evidence \<Rightarrow> id_verdict_t" where
  "id_verdict a b =
     (if id_eq (ie_ol_key a) (ie_ol_key b) \<or> id_eq (ie_gr_key a) (ie_gr_key b) \<or> id_eq (ie_hc_key a) (ie_hc_key b)
      then WorkKeyEqual
      else if work_key_contradiction a b then WorkKeyContradiction
      else if id_eq (ie_isbn_13 a) (ie_isbn_13 b) \<or> id_eq (ie_asin a) (ie_asin b) then EditionBridge
      else NoEvidence)"

definition title_id_trust :: "title_verdict_t \<Rightarrow> id_evidence \<Rightarrow> id_evidence \<Rightarrow> bool" where
  "title_id_trust title a b =
     (if work_key_contradiction a b then False
      else case title of
             TitleSame \<Rightarrow> True
           | TitleGrey _ OneSidedSubtitle \<Rightarrow> True
           | _ \<Rightarrow> False)"

end
