(* ===== verification/AuthorGuarantees.thy ===== *)
theory AuthorGuarantees
  imports IdentityVerdicts
begin

text \<open>
  What the author verdict of \<^verbatim>\<open>identity_matching.rs\<close> computes: the counting loop with one pass and linear memory agrees
  with the definition by pairs it replaces, it does not depend on the order of its arguments, and how the
  tighter-looking adoption rule relates to it.
\<close>

section \<open>The loop over all pairs\<close>

lemma enumerate_upt: "enumerate 0 xs = map (\<lambda>i. (i, xs ! i)) [0..<length xs]"
  by (rule nth_equalityI) (simp_all add: nth_enumerate_eq)

lemma fold_product: "fold (\<lambda>x. fold (f x) ys) xs s = fold (\<lambda>(x, y). f x y) (List.product xs ys) s"
  by (induction xs arbitrary: s) (simp_all add: fold_map comp_def)

lemma find_snoc: "find P (xs @ [x]) = (case find P xs of None \<Rightarrow> if P x then Some x else None | Some y \<Rightarrow> Some y)"
  by (induction xs) auto

lemma update_map_upt:
  "i < n \<Longrightarrow> (map f [0..<n])[i := v] = map (\<lambda>k. if k = i then v else f k) [0..<n]"
  by (rule nth_equalityI) auto

definition pair_match :: "canonical_name list \<Rightarrow> canonical_name list \<Rightarrow> nat \<times> nat \<Rightarrow> bool" where
  "pair_match ca cb p \<longleftrightarrow> full_name_match (ca ! fst p) (cb ! snd p)"

definition counts_of :: "nat \<Rightarrow> nat \<Rightarrow> (nat \<times> nat \<Rightarrow> bool) \<Rightarrow> (nat \<times> nat) list \<Rightarrow> match_counts" where
  "counts_of n m M ps =
     \<lparr>row_counts = map (\<lambda>i. length (filter (\<lambda>p. fst p = i \<and> M p) ps)) [0..<n],
      col_counts = map (\<lambda>j. length (filter (\<lambda>p. snd p = j \<and> M p) ps)) [0..<m],
      row_first_match = map (\<lambda>i. map_option snd (find (\<lambda>p. fst p = i \<and> M p) ps)) [0..<n],
      any_match = (\<exists>p \<in> set ps. M p)\<rparr>"

lemma counts_of_Nil:
  "counts_of n m M [] = \<lparr>row_counts = replicate n 0, col_counts = replicate m 0,
     row_first_match = replicate n None, any_match = False\<rparr>"
  by (simp add: counts_of_def map_replicate_const)

lemma counts_of_snoc:
  assumes "fst p < n" "snd p < m"
  shows "counts_of n m M (ps @ [p]) = (if M p then count_match (fst p) (snd p) (counts_of n m M ps) else counts_of n m M ps)"
proof (cases "M p")
  case True
  then show ?thesis
    using assms
    by (simp add: counts_of_def count_match_def update_map_upt find_snoc)
      (auto split: option.split)
next
  case False
  then show ?thesis by (auto simp: counts_of_def find_snoc split: option.split)
qed

lemma fold_counts:
  "set ps \<subseteq> {0..<n} \<times> {0..<m} \<Longrightarrow>
   fold (\<lambda>p st. if M p then count_match (fst p) (snd p) st else st) ps (counts_of n m M []) = counts_of n m M ps"
proof (induction ps rule: rev_induct)
  case (snoc p ps)
  then have "fst p < n" "snd p < m" by auto
  then show ?case using snoc by (simp add: counts_of_snoc)
qed simp

lemma count_matches_pairs:
  "count_matches ca cb =
     counts_of (length ca) (length cb) (pair_match ca cb) (List.product [0..<length ca] [0..<length cb])"
proof -
  have "count_matches ca cb =
      fold (\<lambda>p st. if pair_match ca cb p then count_match (fst p) (snd p) st else st)
        (List.product [0..<length ca] [0..<length cb]) (counts_of (length ca) (length cb) (pair_match ca cb) [])"
    by (simp add: count_matches_def enumerate_upt fold_map comp_def fold_product counts_of_Nil pair_match_def
        fold_product [where f = "\<lambda>i j st. if full_name_match (ca ! i) (cb ! j) then count_match i j st else st"] case_prod_beta' cong: if_cong)
  also have "\<dots> = counts_of (length ca) (length cb) (pair_match ca cb) (List.product [0..<length ca] [0..<length cb])"
    by (rule fold_counts) auto
  finally show ?thesis .
qed

section \<open>The definition by pairs\<close>

definition unambiguous_pair :: "canonical_name list \<Rightarrow> canonical_name list \<Rightarrow> nat \<Rightarrow> nat \<Rightarrow> bool" where
  "unambiguous_pair ca cb i j \<longleftrightarrow>
     i < length ca \<and> j < length cb \<and> full_name_match (ca ! i) (cb ! j)
     \<and> (\<forall>j' < length cb. full_name_match (ca ! i) (cb ! j') \<longrightarrow> j' = j)
     \<and> (\<forall>i' < length ca. full_name_match (ca ! i') (cb ! j) \<longrightarrow> i' = i)"

lemma singleton_iff: "card {x. P x} = 1 \<longleftrightarrow> (\<exists>x. P x \<and> (\<forall>y. P y \<longrightarrow> y = x))"
  by (auto simp: card_1_singleton_iff set_eq_iff)

lemma count_pairs:
  assumes "inj f"
    and "{p. Q p} \<inter> {0..<n} \<times> {0..<m} = f ` {k. P k}"
  shows "length (filter Q (List.product [0..<n] [0..<m])) = card {k. P k}"
proof -
  have "length (filter Q (List.product [0..<n] [0..<m])) = card (f ` {k. P k})"
    using distinct_length_filter [of "List.product [0..<n] [0..<m]" Q] assms(2) by (simp add: distinct_product)
  then show ?thesis using assms(1) by (simp add: card_image inj_on_subset)
qed

lemma row_count_1:
  assumes "i < n"
  shows "row_counts (counts_of n m M (List.product [0..<n] [0..<m])) ! i = 1 \<longleftrightarrow>
     (\<exists>j. (j < m \<and> M (i, j)) \<and> (\<forall>j'. j' < m \<and> M (i, j') \<longrightarrow> j' = j))"
proof -
  have "row_counts (counts_of n m M (List.product [0..<n] [0..<m])) ! i = card {j. j < m \<and> M (i, j)}"
  proof -
    have "{p. fst p = i \<and> M p} \<inter> {0..<n} \<times> {0..<m} = Pair i ` {j. j < m \<and> M (i, j)}" using assms by auto
    then show ?thesis using assms count_pairs [of "Pair i"] by (simp add: counts_of_def inj_on_def)
  qed
  then show ?thesis by (simp only: singleton_iff)
qed

lemma col_count_1:
  assumes "j < m"
  shows "col_counts (counts_of n m M (List.product [0..<n] [0..<m])) ! j = 1 \<longleftrightarrow>
     (\<exists>i. (i < n \<and> M (i, j)) \<and> (\<forall>i'. i' < n \<and> M (i', j) \<longrightarrow> i' = i))"
proof -
  have "col_counts (counts_of n m M (List.product [0..<n] [0..<m])) ! j = card {i. i < n \<and> M (i, j)}"
  proof -
    have "{p. snd p = j \<and> M p} \<inter> {0..<n} \<times> {0..<m} = (\<lambda>i. (i, j)) ` {i. i < n \<and> M (i, j)}" using assms by auto
    then show ?thesis using assms count_pairs [of "\<lambda>i. (i, j)"] by (simp add: counts_of_def inj_on_def)
  qed
  then show ?thesis by (simp only: singleton_iff)
qed

lemma first_match:
  assumes "i < n" and "row_first_match (counts_of n m M (List.product [0..<n] [0..<m])) ! i = r"
  shows "case r of None \<Rightarrow> \<forall>j < m. \<not> M (i, j) | Some j \<Rightarrow> j < m \<and> M (i, j)"
proof -
  have r: "r = map_option snd (find (\<lambda>p. fst p = i \<and> M p) (List.product [0..<n] [0..<m]))"
    using assms by (simp add: counts_of_def)
  show ?thesis
  proof (cases "find (\<lambda>p. fst p = i \<and> M p) (List.product [0..<n] [0..<m])")
    case None
    then have "\<forall>j < m. \<not> M (i, j)" using assms(1) by (auto simp: find_None_iff)
    then show ?thesis using r None by simp
  next
    case (Some p)
    then have "p \<in> set (List.product [0..<n] [0..<m])" "fst p = i \<and> M p"
      by (metis (mono_tags, lifting) find_Some_iff nth_mem)+
    then have "snd p < m" "M (i, snd p)" by auto
    then show ?thesis using r Some by simp
  qed
qed

lemma agrees_iff:
  fixes ca cb
  defines "st \<equiv> count_matches ca cb"
  shows "(\<exists>i \<in> set [0..<length ca]. row_counts st ! i = 1
            \<and> (case row_first_match st ! i of Some j \<Rightarrow> col_counts st ! j = 1 | None \<Rightarrow> False))
         \<longleftrightarrow> (\<exists>i j. unambiguous_pair ca cb i j)" (is "?L \<longleftrightarrow> ?R")
proof
  let ?n = "length ca" and ?m = "length cb" and ?M = "pair_match ca cb"
  note st = st_def count_matches_pairs
  assume ?L
  then obtain i j where i: "i < ?n" "row_counts st ! i = 1" and j: "row_first_match st ! i = Some j" "col_counts st ! j = 1"
    by (auto split: option.splits)
  have jm: "j < ?m" "?M (i, j)" using first_match [OF i(1), of ?m ?M "Some j"] j(1) by (simp_all add: st)
  have "unambiguous_pair ca cb i j"
    using i(2) j(2) jm
    unfolding st row_count_1 [OF i(1)] col_count_1 [OF jm(1)] unambiguous_pair_def
    using i(1) by (auto simp: pair_match_def)
  then show ?R by blast
next
  let ?n = "length ca" and ?m = "length cb" and ?M = "pair_match ca cb"
  note st = st_def count_matches_pairs
  assume ?R
  then obtain i j where u: "unambiguous_pair ca cb i j" by blast
  then have ij: "i < ?n" "j < ?m" by (simp_all add: unambiguous_pair_def)
  have row: "row_counts st ! i = 1" and col: "col_counts st ! j = 1"
    unfolding st row_count_1 [OF ij(1)] col_count_1 [OF ij(2)]
    using u by (auto simp: unambiguous_pair_def pair_match_def)
  have "row_first_match st ! i = Some j"
  proof (cases "row_first_match st ! i")
    case None
    then show ?thesis
      using first_match [OF ij(1), of ?m ?M None] u by (auto simp: st unambiguous_pair_def pair_match_def)
  next
    case (Some k)
    then show ?thesis
      using first_match [OF ij(1), of ?m ?M "Some k"] u by (auto simp: st unambiguous_pair_def pair_match_def)
  qed
  then show ?L using ij row col by force
qed

lemma any_match_iff: "any_match (count_matches ca cb) \<longleftrightarrow> (\<exists>x \<in> set ca. \<exists>y \<in> set cb. full_name_match x y)"
proof -
  have "any_match (count_matches ca cb) \<longleftrightarrow> (\<exists>i < length ca. \<exists>j < length cb. full_name_match (ca ! i) (cb ! j))"
    by (simp add: count_matches_pairs counts_of_def pair_match_def) (meson atLeastLessThan_iff le0)
  then show ?thesis by (metis in_set_conv_nth)
qed

lemma match_surname: "full_name_match x y \<Longrightarrow> cn_surname x = cn_surname y"
  by (simp add: full_name_match_def split: if_splits)

text \<open>The verdict by pairs of canonical names.\<close>

definition names_verdict :: "canonical_name list \<Rightarrow> canonical_name list \<Rightarrow> author_verdict_t" where
  "names_verdict ca cb =
     (if ca = [] \<or> cb = [] then AuthorAbstain
      else if \<exists>i j. unambiguous_pair ca cb i j then AuthorAgree
      else if \<exists>x \<in> set ca. \<exists>y \<in> set cb. cn_surname x = cn_surname y then AuthorGrey
      else AuthorDisagree)"

lemma author_verdict_names:
  "length a \<le> 256 \<Longrightarrow> length b \<le> 256 \<Longrightarrow>
   author_verdict env a b =
     names_verdict (List.map_filter (canonical_author_name env) a) (List.map_filter (canonical_author_name env) b)"
  unfolding author_verdict_def names_verdict_def Let_def agrees_iff any_match_iff
  using match_surname by (simp add: AUTHOR_VERDICT_MAX_NAMES_PER_SIDE_def) blast

section \<open>Symmetry\<close>

lemma given_compatible_sym: "given_token_compatible a b = given_token_compatible b a"
  by (auto simp: given_token_compatible_def)

lemma zip_all_sym: "(\<And>x y. P x y = P y x) \<Longrightarrow> (\<forall>(x, y) \<in> set (zip xs ys). P x y) = (\<forall>(x, y) \<in> set (zip ys xs). P x y)"
  by (simp add: zip_commute [of xs ys] case_prod_beta')

lemma full_name_match_sym: "full_name_match a b = full_name_match b a"
  using zip_all_sym [of given_token_compatible "cn_given a" "cn_given b", OF given_compatible_sym]
  by (auto simp: full_name_match_def)

lemma unambiguous_pair_sym: "unambiguous_pair ca cb i j = unambiguous_pair cb ca j i"
  by (auto simp: unambiguous_pair_def full_name_match_sym)

lemma names_verdict_sym: "names_verdict ca cb = names_verdict cb ca"
proof -
  have "(\<exists>i j. unambiguous_pair ca cb i j) = (\<exists>i j. unambiguous_pair cb ca i j)"
    by (metis unambiguous_pair_sym)
  moreover have "(\<exists>x \<in> set ca. \<exists>y \<in> set cb. cn_surname x = cn_surname y) = (\<exists>x \<in> set cb. \<exists>y \<in> set ca. cn_surname x = cn_surname y)"
    by metis
  ultimately show ?thesis by (auto simp: names_verdict_def)
qed

lemma author_verdict_sym: "author_verdict env a b = author_verdict env b a"
proof (cases "length a \<le> 256 \<and> length b \<le> 256")
  case True
  then show ?thesis by (simp add: author_verdict_names names_verdict_sym)
next
  case False
  then show ?thesis by (auto simp: author_verdict_def AUTHOR_VERDICT_MAX_NAMES_PER_SIDE_def)
qed


section \<open>Adoption\<close>

lemma try_glued_lengths: "try_glued_side env a b = Some r \<Longrightarrow> length a = 1 \<and> length b \<noteq> 1"
  by (auto simp: try_glued_side_def split: list.splits if_splits)

lemma glued_sym: "glued_initials_match env a b = glued_initials_match env b a"
  using try_glued_lengths [of env a b] try_glued_lengths [of env b a]
  by (auto simp: glued_initials_match_def split: option.split)

lemma exact_prefix_sym: "length a \<noteq> length b \<Longrightarrow> exact_prefix_match a b = exact_prefix_match b a"
  by (simp add: exact_prefix_match_def)

lemma adoption_sym: "adoption_match env x y = adoption_match env y x"
  using zip_all_sym [of given_token_compatible "cn_given x" "cn_given y", OF given_compatible_sym]
    glued_sym [of env "cn_given x" "cn_given y"] exact_prefix_sym [of "cn_given x" "cn_given y"]
  by (auto simp: adoption_match_def split: option.split)

lemma exact_prefix_compatible:
  assumes "exact_prefix_match a b" and "(x, y) \<in> set (zip a b)"
  shows "given_token_compatible x y"
proof -
  have "x = y"
  proof (cases "length a < length b")
    case True
    then show ?thesis using assms by (auto simp: exact_prefix_match_def)
  next
    case False
    have "(y, x) \<in> set (zip b a)" using assms(2) by (force simp: set_zip)
    then show ?thesis using assms(1) False by (auto simp: exact_prefix_match_def)
  qed
  then show ?thesis by (simp add: given_token_compatible_def)
qed

lemma adoption_full:
  assumes "adoption_match env x y"
  shows "full_name_match x y \<or> glued_initials_match env (cn_given x) (cn_given y) = Some True"
  using assms exact_prefix_compatible [of "cn_given x" "cn_given y"]
  by (auto simp: adoption_match_def full_name_match_def split: if_splits option.splits)

lemma set_singleton_list: "set xs = {a} \<Longrightarrow> distinct xs \<Longrightarrow> xs = [a]"
  by (cases xs; cases "tl xs") auto

lemma filter_enumerate_1:
  "filter (\<lambda>(i, x). P x) (enumerate 0 xs) = [(i, x)] \<longleftrightarrow>
     i < length xs \<and> x = xs ! i \<and> P x \<and> (\<forall>j < length xs. P (xs ! j) \<longrightarrow> j = i)" (is "?F = _ \<longleftrightarrow> ?R")
proof
  assume F: "?F = [(i, x)]"
  have in_iff: "(j, y) \<in> {(i, x)} \<longleftrightarrow> j < length xs \<and> y = xs ! j \<and> P y" for j y
  proof -
    have "(j, y) \<in> set ?F \<longleftrightarrow> j < length xs \<and> y = xs ! j \<and> P y" by (auto simp: enumerate_upt)
    then show ?thesis by (simp add: F)
  qed
  have "i < length xs \<and> x = xs ! i \<and> P x" using in_iff [of i x] by blast
  moreover have "j = i" if "j < length xs" "P (xs ! j)" for j using in_iff [of j "xs ! j"] that by blast
  ultimately show ?R by blast
next
  assume R: ?R
  have "p \<in> set ?F \<longleftrightarrow> fst p < length xs \<and> snd p = xs ! fst p \<and> P (snd p)" for p
    by (cases p) (auto simp: enumerate_upt)
  then have "p \<in> set ?F \<longleftrightarrow> p = (i, x)" for p using R by (metis fst_conv prod.collapse snd_conv)
  then have "set ?F = {(i, x)}" by blast
  moreover have "distinct ?F" by (simp add: enumerate_upt distinct_map inj_on_def)
  ultimately show "?F = [(i, x)]" by (rule set_singleton_list)
qed


section \<open>Properties\<close>

text \<open>
  C26 (equivalence): The author verdict, computed in one pass over all pairs with counters per row and column, is the verdict by
  its definition: a list of more than 256 names or without a usable name abstains, an unambiguous full-name match
  agrees, a shared surname alone is grey and anything else disagrees; and it does not depend on
  which list comes first.
\<close>

theorem author_verdict_is_the_pairwise_verdict:
  "author_verdict env a b =
     (if length a > 256 \<or> length b > 256 then AuthorAbstain
      else names_verdict (List.map_filter (canonical_author_name env) a) (List.map_filter (canonical_author_name env) b))
   \<and> author_verdict env a b = author_verdict env b a"
proof (cases "length a \<le> 256 \<and> length b \<le> 256")
  case True
  then show ?thesis by (simp add: author_verdict_names names_verdict_sym)
next
  case False
  then show ?thesis using author_verdict_sym [of env a b]
    by (auto simp: author_verdict_def AUTHOR_VERDICT_MAX_NAMES_PER_SIDE_def)
qed

text \<open>
  A name is adopted exactly when it matches one stored name and no other; the rule is symmetric, and it
  is stricter than a full-name match except where one given name is read as glued initials.
\<close>

theorem adoption_is_unambiguous:
  "(unambiguous_author_match env candidate stored = Some i \<longleftrightarrow>
      (\<exists>n. canonical_author_name env candidate = Some n \<and> i < length stored \<and> adopts env n (stored ! i)
         \<and> (\<forall>j < length stored. adopts env n (stored ! j) \<longrightarrow> j = i)))
   \<and> adoption_match env x y = adoption_match env y x
   \<and> (adoption_match env x y \<longrightarrow>
        full_name_match x y \<or> glued_initials_match env (cn_given x) (cn_given y) = Some True)"
proof -
  have "unambiguous_author_match env candidate stored = Some i \<longleftrightarrow>
      (\<exists>n nm. canonical_author_name env candidate = Some n
         \<and> filter (\<lambda>(i, name). adopts env n name) (enumerate 0 stored) = [(i, nm)])"
    by (auto simp: unambiguous_author_match_def split: option.split list.split)
  also have "\<dots> \<longleftrightarrow> (\<exists>n. canonical_author_name env candidate = Some n \<and> i < length stored \<and> adopts env n (stored ! i)
         \<and> (\<forall>j < length stored. adopts env n (stored ! j) \<longrightarrow> j = i))"
    unfolding filter_enumerate_1 by blast
  finally show ?thesis using adoption_sym [of env x y] adoption_full [of env x y] by simp
qed

theorem adoption_is_unambiguous_witness:
  "unambiguous_author_match ascii_env (tx ''JK B'') [tx ''Jo K B'', tx ''C''] = Some 0
   \<and> full_name_match \<lparr>cn_given = [tx ''jo''], cn_surname = tx ''b''\<rparr> \<lparr>cn_given = [tx ''j''], cn_surname = tx ''b''\<rparr>"
proof -
  let ?x = "\<lparr>cn_given = [tx ''jo''], cn_surname = tx ''b''\<rparr>"
  let ?y = "\<lparr>cn_given = [tx ''j''], cn_surname = tx ''b''\<rparr>"
  note adoption_eval = adopts_def adoption_match_def glued_initials_match_def try_glued_side_def
    given_token_compatible_def exact_prefix_match_def
  have u: "unambiguous_author_match ascii_env (tx ''JK B'') [tx ''Jo K B'', tx ''C''] = Some 0"
    by (simp add: unambiguous_author_match_def canonical_author_name_def adoption_eval ascii_eval)
  have a: "adoption_match ascii_env ?x ?y" by (simp add: adoption_eval tx_def)
  have g: "glued_initials_match ascii_env (cn_given ?x) (cn_given ?y) \<noteq> Some True"
    by (simp add: adoption_eval tx_def)
  show ?thesis
    using adoption_is_unambiguous [of ascii_env "tx ''JK B''" "[tx ''Jo K B'', tx ''C'']" 0 ?x ?y] u a g by blast
qed

text \<open>The reading of glued initials adopts names that no full-name match relates.\<close>

lemma adoption_is_not_contained_in_full_match:
  fixes env
  defines "jk \<equiv> \<lparr>cn_given = [tx ''jk''], cn_surname = tx ''rowling''\<rparr>"
    and "full \<equiv> \<lparr>cn_given = [tx ''joanne'', tx ''kathleen''], cn_surname = tx ''rowling''\<rparr>"
  assumes "u_is_alphabetic env 106" and "u_is_alphabetic env 107"
  shows "adoption_match env jk full \<and> \<not> full_name_match jk full"
  using assms
  by (simp add: adoption_match_def full_name_match_def glued_initials_match_def try_glued_side_def tx_def
      given_token_compatible_def)

end
