(* ===== verification/TitleGuarantees.thy ===== *)
theory TitleGuarantees
  imports IdentityVerdicts
begin

text \<open>
  What the stored identity keys and the title verdict of \<^verbatim>\<open>identity_matching.rs\<close> promise: the key of a title determines
  everything the verdict looks at, so two titles with one key are the same title; and the
  loop that peels parentheticals ends.
\<close>

section \<open>Splitting and joining\<close>

lemma split_on_append: "\<forall>c \<in> set w. \<not> p c \<Longrightarrow> p s \<Longrightarrow> split_on p (w @ s # rest) = w # split_on p rest"
  by (induction w) auto

lemma split_on_join:
  "ws \<noteq> [] \<Longrightarrow> \<forall>w \<in> set ws. \<forall>c \<in> set w. \<not> p c \<Longrightarrow> p s \<Longrightarrow> split_on p (join [s] ws) = ws"
  by (induction "[s]" ws rule: join.induct) (simp_all add: split_on_word split_on_append)

lemma join_eq_Nil: "\<forall>w \<in> set ws. w \<noteq> [] \<Longrightarrow> join sep ws = [] \<longleftrightarrow> ws = []"
  by (induction sep ws rule: join.induct) auto

lemma join_inject:
  fixes xs ys :: "utext list"
  assumes "\<forall>w \<in> set xs \<union> set ys. w \<noteq> [] \<and> s \<notin> set w" and "join [s] xs = join [s] ys"
  shows "xs = ys"
proof (cases "xs = [] \<or> ys = []")
  case True
  then show ?thesis using assms join_eq_Nil [of xs "[s]"] join_eq_Nil [of ys "[s]"] by auto
next
  case False
  have split: "split_on (\<lambda>c. c = s) (join [s] zs) = zs" if "zs \<noteq> []" "\<forall>w \<in> set zs. s \<notin> set w" for zs
    by (rule split_on_join) (use that in auto)
  have "xs = split_on (\<lambda>c. c = s) (join [s] xs)" by (rule split [symmetric]) (use assms(1) False in auto)
  also have "\<dots> = split_on (\<lambda>c. c = s) (join [s] ys)" by (simp only: assms(2))
  also have "\<dots> = ys" by (rule split) (use assms(1) False in auto)
  finally show ?thesis .
qed

lemma join_avoids: "c \<notin> set sep \<Longrightarrow> \<forall>w \<in> set ws. c \<notin> set w \<Longrightarrow> c \<notin> set (join sep ws)"
  by (induction sep ws rule: join.induct) auto

lemma set_split_on: "\<forall>w \<in> set (split_on p s). \<forall>c \<in> set w. c \<in> set s \<and> \<not> p c"
proof (induction s)
  case (Cons x xs)
  then show ?case by (cases "split_on p xs") auto
qed simp

lemma set_alnum_words: "w \<in> set (alnum_words env s) \<Longrightarrow> c \<in> set w \<Longrightarrow> u_is_alphanumeric env c"
  using set_split_on [of "\<lambda>c. \<not> u_is_alphanumeric env c" s] by (auto simp: alnum_words_def words_by_def)

section \<open>Clean segments\<close>

text \<open>
  What the keys rely on: U+0001 is not alphanumeric and lower-casing does not produce it, and printed
  floats are non-empty, differ for different values and have neither a comma nor U+0001.
\<close>

definition key_env :: "text_env \<Rightarrow> bool" where
  "key_env env \<longleftrightarrow>
     \<not> u_is_alphanumeric env KEY_SEPARATOR \<and> (\<forall>s. KEY_SEPARATOR \<notin> set s \<longrightarrow> KEY_SEPARATOR \<notin> set (u_lower env s))
     \<and> inj (f_show env) \<and> (\<forall>x. f_show env x \<noteq> [] \<and> KEY_SEPARATOR \<notin> set (f_show env x) \<and> 44 \<notin> set (f_show env x))"

lemma separator_other [simp]: "KEY_SEPARATOR \<noteq> 32" "KEY_SEPARATOR \<noteq> 44"
  by (simp_all add: KEY_SEPARATOR_def)

lemma set_text_trim_start: "set (text_trim_start s) \<subseteq> set s"
  by (auto simp: text_trim_start_def dest: set_dropWhileD)

lemma set_strip_article: "set (strip_leading_identity_article s) \<subseteq> set s"
proof -
  have "set (text_trim_start (drop n s)) \<subseteq> set s" for n
    using set_text_trim_start [of "drop n s"] set_drop_subset [of n s] by blast
  then show ?thesis by (simp add: strip_leading_identity_article_def Let_def split: list.split)
qed

lemma canonical_phrase_clean: "key_env env \<Longrightarrow> KEY_SEPARATOR \<notin> set (canonical_phrase env s)"
proof (cases "has_cjk s")
  case True
  assume "key_env env"
  moreover from this have "KEY_SEPARATOR \<notin> set (filter (u_is_alphanumeric env) s)" by (simp add: key_env_def)
  ultimately show ?thesis using True by (simp add: canonical_phrase_def key_env_def)
next
  case False
  assume env: "key_env env"
  define ws where "ws = alnum_words env (fold_conjunction_symbol (u_lower env (strip_combining_marks env s)))"
  have "KEY_SEPARATOR \<notin> set w" if "w \<in> set ws" for w
    using that set_alnum_words [of w env] env unfolding ws_def key_env_def by blast
  then have "KEY_SEPARATOR \<notin> set (join [32] ws)" by (intro join_avoids) auto
  then have "KEY_SEPARATOR \<notin> set (strip_leading_identity_article (join [32] ws))"
    using set_strip_article by blast
  then show ?thesis using False by (simp add: canonical_phrase_def ws_def)
qed

definition clean_parsed :: "parsed_title \<Rightarrow> bool" where
  "clean_parsed p \<longleftrightarrow> KEY_SEPARATOR \<notin> set (pt_main p) \<and> (\<forall>s. pt_subtitle p = Some s \<longrightarrow> s \<noteq> [] \<and> KEY_SEPARATOR \<notin> set s)"

lemma nonempty_Some [simp]: "nonempty v = Some s \<longleftrightarrow> v = Some s \<and> s \<noteq> []"
  by (auto simp: nonempty_def split: option.split list.split)

lemma nonempty_simps: "nonempty None = None" "nonempty (Some s) = (if s = [] then None else Some s)"
  by (auto simp: nonempty_def split: list.split)

lemma parse_title_clean: "key_env env \<Longrightarrow> clean_parsed (parse_title env raw)"
  by (auto simp: clean_parsed_def parse_title_def Let_def canonical_phrase_clean split: prod.split)

lemma parse_stored_clean: "key_env env \<Longrightarrow> clean_parsed (parse_stored_title env m s)"
  by (simp add: parse_stored_title_def Let_def parse_title_clean split: option.split)

section \<open>Volumes\<close>

lemma set_insert_volume [simp]: "set (insert_volume x ys) = insert x (set ys)"
  by (induction ys) auto

lemma set_sort_volumes [simp]: "set (sort_volumes vs) = set vs"
  unfolding sort_volumes_def by (induction vs) auto

lemma sort_volumes_Nil [simp]: "sort_volumes vs = [] \<longleftrightarrow> vs = []"
  using set_sort_volumes [of vs] by (metis set_empty)

lemma dedup_volumes_Nil [simp]: "dedup_volumes vs = [] \<longleftrightarrow> vs = []"
  by (cases vs) auto

lemma hd_dedup_volumes: "vs \<noteq> [] \<Longrightarrow> hd (dedup_volumes vs) = hd vs"
  by (cases vs) auto

lemma rendered_head:
  assumes "dedup_volumes (sort_volumes vs) = dedup_volumes (sort_volumes ws)" and "vs \<noteq> []"
  obtains x where "x \<in> set vs" "x \<in> set ws"
proof -
  have "ws \<noteq> []" using assms by (metis dedup_volumes_Nil sort_volumes_Nil)
  then have "hd (sort_volumes vs) = hd (sort_volumes ws)"
    using assms hd_dedup_volumes by (metis sort_volumes_Nil)
  then show ?thesis
    using that [of "hd (sort_volumes vs)"] assms(2) \<open>ws \<noteq> []\<close>
    by (metis hd_in_set set_sort_volumes sort_volumes_Nil)
qed

lemma rendered_inject:
  assumes "key_env env" and "join [44] (rendered_volumes env vs) = join [44] (rendered_volumes env ws)"
  shows "dedup_volumes (sort_volumes vs) = dedup_volumes (sort_volumes ws)"
proof -
  have "rendered_volumes env vs = rendered_volumes env ws"
    by (rule join_inject [OF _ assms(2)]) (use assms(1) in \<open>auto simp: key_env_def rendered_volumes_def\<close>)
  then show ?thesis using assms(1) by (simp add: rendered_volumes_def key_env_def inj_map_eq_map)
qed

lemma finite_same_volume: "same_volume (Finite r) (Finite r)"
  by simp

section \<open>Keys\<close>

lemma drop_trailing_3:
  "drop_trailing_empty [a, b, c] = (if c \<noteq> [] then [a, b, c] else if b \<noteq> [] then [a, b] else [a])"
  by (simp add: drop_trailing_empty.simps)

lemma join_segments_inject:
  assumes "join [KEY_SEPARATOR] (drop_trailing_empty [a, b, c]) = join [KEY_SEPARATOR] (drop_trailing_empty [a', b', c'])"
    and "KEY_SEPARATOR \<notin> set a \<union> set b \<union> set c \<union> set a' \<union> set b' \<union> set c'"
  shows "a = a' \<and> b = b' \<and> c = c'"
proof -
  have s: "split_on (\<lambda>x. x = KEY_SEPARATOR) (join [KEY_SEPARATOR] (drop_trailing_empty [x, y, z])) = drop_trailing_empty [x, y, z]"
    if "KEY_SEPARATOR \<notin> set x" "KEY_SEPARATOR \<notin> set y" "KEY_SEPARATOR \<notin> set z" for x y z :: utext
  proof (rule split_on_join)
    show "\<forall>w \<in> set (drop_trailing_empty [x, y, z]). \<forall>c \<in> set w. c \<noteq> KEY_SEPARATOR"
      using that by (auto simp: drop_trailing_3)
  qed (simp_all add: drop_trailing_3)
  have "drop_trailing_empty [a, b, c] = drop_trailing_empty [a', b', c']"
    by (subst s [symmetric]) (use assms s [of a' b' c'] in simp_all)
  then show ?thesis unfolding drop_trailing_3 by (cases "c = []"; cases "b = []"; cases "c' = []"; cases "b' = []") simp_all
qed

definition key_volumes :: "parsed_title \<Rightarrow> f64 option \<Rightarrow> f64 list" where
  "key_volumes p v = volume_numbers p @ position_volume v"

lemma rendered_clean: "key_env env \<Longrightarrow> KEY_SEPARATOR \<notin> set (join [44] (rendered_volumes env vs))"
  by (rule join_avoids) (auto simp: key_env_def rendered_volumes_def)

lemma assemble_inject:
  assumes env: "key_env env" and "clean_parsed p" "clean_parsed q"
    and eq: "assemble_title_key env p v = assemble_title_key env q w"
  shows "pt_main p = pt_main q \<and> pt_subtitle p = pt_subtitle q
    \<and> dedup_volumes (sort_volumes (key_volumes p v)) = dedup_volumes (sort_volumes (key_volumes q w))"
proof -
  define sub :: "parsed_title \<Rightarrow> utext" where "sub r = (case pt_subtitle r of Some s \<Rightarrow> s | None \<Rightarrow> [])" for r
  define vol where "vol vs = join [44] (rendered_volumes env vs)" for vs
  have key: "assemble_title_key env r u = join [KEY_SEPARATOR] (drop_trailing_empty [pt_main r, sub r, vol (key_volumes r u)])" for r u
    by (simp add: assemble_title_key_def Let_def sub_def vol_def key_volumes_def position_volume_def)
  have "KEY_SEPARATOR \<notin> set (sub p)" "KEY_SEPARATOR \<notin> set (sub q)" "KEY_SEPARATOR \<notin> set (pt_main p)" "KEY_SEPARATOR \<notin> set (pt_main q)"
    using assms(2,3) by (auto simp: sub_def clean_parsed_def split: option.split)
  moreover have "KEY_SEPARATOR \<notin> set (vol vs)" for vs using rendered_clean [OF env] by (simp add: vol_def)
  ultimately have "pt_main p = pt_main q \<and> sub p = sub q \<and> vol (key_volumes p v) = vol (key_volumes q w)"
    using join_segments_inject [OF eq [unfolded key]] by simp
  moreover from this have "sub p = sub q" by simp
  then have "pt_subtitle p = pt_subtitle q"
    using assms(2,3) by (cases "pt_subtitle p"; cases "pt_subtitle q") (simp_all add: sub_def clean_parsed_def)
  ultimately show ?thesis using rendered_inject [OF env, of "key_volumes p v" "key_volumes q w"] unfolding vol_def by blast
qed

section \<open>The title verdict\<close>

lemma same_volume_sym: "same_volume x y = same_volume y x"
  by (cases x; cases y) (auto simp: abs_minus_commute)

lemma volumes_conflict_sym: "volumes_conflict a b = volumes_conflict b a"
  using same_volume_sym by (auto simp: volumes_conflict_def)

lemma jaccard_sym: "jaccard a b = jaccard b a"
  by (simp add: jaccard_def Int_commute add.commute)

definition same_titles :: "parsed_title \<Rightarrow> f64 list \<Rightarrow> parsed_title \<Rightarrow> f64 list \<Rightarrow> bool" where
  "same_titles a vs b ws \<longleftrightarrow> pt_main a = pt_main b \<and> pt_main a \<noteq> [] \<and> pt_subtitle a = pt_subtitle b
     \<and> (vs = [] \<and> ws = [] \<or> (\<exists>x \<in> set vs. \<exists>y \<in> set ws. same_volume x y))"

lemma verdict_same_iff:
  "title_verdict_with_positions env a v b w = TitleSame \<longleftrightarrow> same_titles a (key_volumes a v) b (key_volumes b w)"
  unfolding title_verdict_with_positions_def Let_def key_volumes_def [symmetric] same_titles_def volumes_conflict_def
  by (auto split: option.split if_splits)

lemma verdict_sym: "title_verdict_with_positions env a v b w = title_verdict_with_positions env b w a v"
proof -
  have j: "jaccard (title_tokens env (pt_main b)) (title_tokens env (pt_main a)) = jaccard (title_tokens env (pt_main a)) (title_tokens env (pt_main b))"
    by (rule jaccard_sym)
  show ?thesis
    unfolding title_verdict_with_positions_def Let_def j volumes_conflict_sym [of "volume_numbers b @ position_volume w"]
    by (cases "pt_main a = pt_main b"; cases "pt_subtitle a"; cases "pt_subtitle b") auto
qed


section \<open>The instance is one\<close>

lemma show_int_digits: "\<forall>c \<in> set (show_int_text i). c = 45 \<or> 48 \<le> c \<and> c \<le> 57"
  using show_nat_digits by (auto simp: show_int_text_def)

lemma show_int_inject: "show_int_text i = show_int_text j \<Longrightarrow> i = j"
proof -
  have nn: "tx (show_nat m) \<noteq> 45 # s" for m s
    using show_nat_digits [of m] by auto
  have eq: "m = n" if "tx (show_nat m) = tx (show_nat n)" for m n
    using that show_nat_value by metis
  assume "show_int_text i = show_int_text j"
  then show ?thesis
    using nn nn [symmetric] eq [of "nat i" "nat j"] eq [of "nat (- i)" "nat (- j)"]
    by (auto simp: show_int_text_def split: if_splits)
qed

lemma show_finite_split:
  "split_on (\<lambda>c. c = 47) (show_f64 (Finite r)) = [show_int_text (fst (quotient_of r)), show_int_text (snd (quotient_of r))]"
  unfolding show_f64.simps
  by (rule split_on_join) (use show_int_digits in fastforce)+

lemma show_finite_47: "47 \<in> set (show_f64 (Finite r))"
  by simp

lemma show_other_47: "47 \<notin> set (show_f64 (Infinite neg))" "47 \<notin> set (show_f64 NaN)"
  by (simp_all add: tx_def)

lemma show_f64_inject: "show_f64 x = show_f64 y \<Longrightarrow> x = y"
proof -
  assume eq: "show_f64 x = show_f64 y"
  show ?thesis
  proof (cases x)
    case (Finite r)
    then obtain q where q: "y = Finite q" using eq show_finite_47 [of r] show_other_47 by (cases y) (auto simp del: show_f64.simps)
    have "quotient_of r = quotient_of q"
      using arg_cong [OF eq, of "split_on (\<lambda>c. c = 47)"] show_int_inject Finite q
      by (simp add: show_finite_split prod_eq_iff del: show_f64.simps)
    then show ?thesis using Finite q by (simp add: quotient_of_inject)
  next
    case (Infinite n)
    then show ?thesis using eq show_other_47(1) [of n] show_finite_47 by (cases y) (auto simp: tx_def split: if_splits)
  next
    case NaN
    then show ?thesis using eq show_other_47(2) show_finite_47 by (cases y) (auto simp: tx_def split: if_splits)
  qed
qed

lemma show_f64_chars: "c \<in> set (show_f64 x) \<Longrightarrow> c = 45 \<or> c = 47 \<or> 48 \<le> c \<and> c \<le> 57 \<or> 65 \<le> c"
  using show_int_digits by (cases x) (auto simp: tx_def split: if_splits)

lemma show_f64_nonempty: "show_f64 x \<noteq> []"
  by (cases x) (auto simp: tx_def)

lemma key_env_ascii: "key_env ascii_env"
proof -
  have "KEY_SEPARATOR \<notin> set (show_f64 x)" "44 \<notin> set (show_f64 x)" for x
    using show_f64_chars [of _ x] by (force simp: KEY_SEPARATOR_def)+
  moreover have "KEY_SEPARATOR \<notin> set s \<Longrightarrow> KEY_SEPARATOR \<notin> set (text_ascii_lower s)" for s
    by (auto simp: text_ascii_lower_def KEY_SEPARATOR_def)
  moreover have "inj show_f64" by (rule injI) (rule show_f64_inject)
  ultimately show ?thesis
    by (auto simp: key_env_def ascii_env_def show_f64_nonempty is_ascii_alphanumeric_def is_ascii_digit_def KEY_SEPARATOR_def)
qed


section \<open>The parentheticals\<close>

text \<open>A match of the trailing parenthetical holds at least its brackets, so it starts inside the text.\<close>

definition paren_env :: "text_env \<Rightarrow> bool" where
  "paren_env env \<longleftrightarrow> (\<forall>s c. re_captures env RE_TRAILING_PAREN s = Some c \<longrightarrow> cap_start c < length s)"

lemma length_text_trim_end: "length (text_trim_end s) \<le> length s"
  unfolding text_trim_end_def length_rev using length_dropWhile_le [of is_whitespace "rev s"] by simp

lemma paren_env_Nil: "paren_env env \<Longrightarrow> re_captures env RE_TRAILING_PAREN [] = None"
  by (cases "re_captures env RE_TRAILING_PAREN []") (force simp: paren_env_def)+

lemma peel_shorter:
  "paren_env env \<Longrightarrow> re_captures env RE_TRAILING_PAREN rest = Some c \<Longrightarrow>
   length (text_trim_end (take (cap_start c) rest)) < length rest"
  using length_text_trim_end [of "take (cap_start c) rest"] by (fastforce simp: paren_env_def)

lemma peel_enough:
  "paren_env env \<Longrightarrow> length rest \<le> n \<Longrightarrow> peel_parens env (n + k) acc rest = peel_parens env n acc rest"
proof (induction n arbitrary: acc rest)
  case 0
  then have "re_captures env RE_TRAILING_PAREN rest = None" using paren_env_Nil by simp
  then show ?case by (cases k) simp_all
next
  case (Suc n)
  show ?case
  proof (cases "re_captures env RE_TRAILING_PAREN rest")
    case (Some c)
    then have "length (text_trim_end (take (cap_start c) rest)) \<le> n"
      using peel_shorter [OF Suc.prems(1) Some] Suc.prems(2) by simp
    then show ?thesis using Some Suc.IH [OF Suc.prems(1)] by (simp add: Let_def)
  qed simp
qed

lemma peel_ends:
  "paren_env env \<Longrightarrow> length rest \<le> n \<Longrightarrow> peel_parens env n acc rest = (acc', rest') \<Longrightarrow>
   rest' = [] \<or> re_captures env RE_TRAILING_PAREN rest' = None"
proof (induction n arbitrary: acc rest)
  case (Suc n)
  show ?case
  proof (cases "re_captures env RE_TRAILING_PAREN rest")
    case (Some c)
    then have "length (text_trim_end (take (cap_start c) rest)) \<le> n"
      using peel_shorter [OF Suc.prems(1) Some] Suc.prems(2) by simp
    then show ?thesis using Some Suc.IH [OF Suc.prems(1)] Suc.prems(3) by (auto simp: Let_def split: if_splits)
  qed (use Suc.prems in simp)
qed simp

section \<open>Properties\<close>

definition stored_volume :: "text_env \<Rightarrow> utext option \<Rightarrow> f64 option" where
  "stored_volume env v = Option.bind (nonempty (map_option text_trim v)) (f_parse env)"

lemma stored_key_assembled:
  "stored_identity_title_key env m s v = Some k \<Longrightarrow>
   assemble_title_key env (parse_stored_title env m s) (stored_volume env v) = k"
  by (cases v) (auto simp: stored_identity_title_key_def stored_volume_def nonempty_simps split: if_splits)

lemma identity_key_stored: "stored_identity_title_key env t None None = Some (fst (identity_key env t a))"
  by (simp add: stored_identity_title_key_def identity_key_def parse_stored_title_def nonempty_def)

text \<open>
  C25 (safety): Two stored titles with the same identity key are the same title for the verdict: the stored key, which backs
  a unique index, never makes two titles collide that differ in main title, subtitle or volume. This holds for
  titles with a main title and finite volume numbers.
\<close>

theorem equal_keys_mean_same_title:
  assumes "key_env env"
    and "stored_identity_title_key env m s v = Some k" and "stored_identity_title_key env m' s' v' = Some k"
    and "pt_main (parse_stored_title env m s) \<noteq> []"
    and "\<forall>x \<in> set (key_volumes (parse_stored_title env m s) (stored_volume env v)). \<exists>r. x = Finite r"
  shows "title_verdict_with_positions env (parse_stored_title env m s) (stored_volume env v)
           (parse_stored_title env m' s') (stored_volume env v') = TitleSame"
proof -
  let ?p = "parse_stored_title env m s" and ?q = "parse_stored_title env m' s'"
  let ?vs = "key_volumes ?p (stored_volume env v)" and ?ws = "key_volumes ?q (stored_volume env v')"
  have eq: "pt_main ?p = pt_main ?q" "pt_subtitle ?p = pt_subtitle ?q"
    and vol: "dedup_volumes (sort_volumes ?vs) = dedup_volumes (sort_volumes ?ws)"
    using assemble_inject [OF assms(1) parse_stored_clean [OF assms(1)] parse_stored_clean [OF assms(1)]]
      stored_key_assembled [OF assms(2)] stored_key_assembled [OF assms(3)] by metis+
  have "?vs = [] \<and> ?ws = [] \<or> (\<exists>x \<in> set ?vs. \<exists>y \<in> set ?ws. same_volume x y)"
  proof (cases "?vs = []")
    case True
    then show ?thesis using vol by (metis dedup_volumes_Nil sort_volumes_Nil)
  next
    case False
    then obtain x where x: "x \<in> set ?vs" "x \<in> set ?ws" using rendered_head [OF vol] by blast
    then obtain r where "x = Finite r" using assms(5) by blast
    then show ?thesis using x finite_same_volume by blast
  qed
  then show ?thesis using eq assms(4) by (simp add: verdict_same_iff same_titles_def)
qed

lemma one_letter_no_junk: "is_junk_phrase [c] = False"
proof -
  have "length (tx s) = length s" for s by (simp add: tx_def)
  then have "\<forall>w \<in> set JUNK_VOCAB. length w \<noteq> 1" by (simp add: JUNK_VOCAB_def)
  then show ?thesis by (auto simp: is_junk_phrase_def)
qed

theorem equal_keys_mean_same_title_witness:
  "title_verdict_with_positions ascii_env
     (parse_stored_title ascii_env (tx ''A D: S'') None) (stored_volume ascii_env (Some (tx ''1'')))
     (parse_stored_title ascii_env (tx ''D'') (Some (tx '' s ''))) (stored_volume ascii_env (Some (tx ''01''))) = TitleSame"
proof -
  note eval = ascii_eval parse_title_def peel_parens.simps split_main_tail_def find_sub_def List.map_filter_def extract_comma_marker_def
    classify_tail_def parse_series_marker_def re_is_match_def normalize_vocab_def one_letter_no_junk
    canonical_phrase_def has_cjk_def is_cjk_char_def fold_conjunction_symbol_def strip_leading_identity_article_def
    split_whitespace_def is_identity_article_def IDENTITY_ARTICLES_def nonempty_def upt_rec
  have inline: "parse_title ascii_env (tx ''A D: S'') =
      \<lparr>pt_main = tx ''d'', pt_subtitle = Some (tx ''s''), pt_markers = [], pt_junk = []\<rparr>"
    by (simp add: eval)
  have bare: "parse_title ascii_env (tx ''D'') = \<lparr>pt_main = tx ''d'', pt_subtitle = None, pt_markers = [], pt_junk = []\<rparr>"
    by (simp add: eval)
  have joined: "parse_title ascii_env (tx ''D: s'') =
      \<lparr>pt_main = tx ''d'', pt_subtitle = Some (tx ''s''), pt_markers = [], pt_junk = []\<rparr>"
    by (simp add: eval)
  have sub: "nonempty (Some (text_trim (tx '' s ''))) = Some (tx ''s'')" by (simp add: eval)
  have glue: "tx ''D'' @ [58, 32] @ tx ''s'' = tx ''D: s''" by (simp add: tx_def)
  have p: "parse_stored_title ascii_env (tx ''A D: S'') None =
      \<lparr>pt_main = tx ''d'', pt_subtitle = Some (tx ''s''), pt_markers = [], pt_junk = []\<rparr>"
    by (simp add: parse_stored_title_def inline nonempty_def)
  have q: "parse_stored_title ascii_env (tx ''D'') (Some (tx '' s '')) =
      \<lparr>pt_main = tx ''d'', pt_subtitle = Some (tx ''s''), pt_markers = [], pt_junk = []\<rparr>"
    using glue by (simp add: parse_stored_title_def bare sub joined)
  have v: "stored_volume ascii_env (Some (tx ''1'')) = Some (Finite 1)" "stored_volume ascii_env (Some (tx ''01'')) = Some (Finite 1)"
    by (simp_all add: stored_volume_def eval digits_value_def)
  obtain k where k: "stored_identity_title_key ascii_env (tx ''A D: S'') None (Some (tx ''1'')) = Some k"
      "stored_identity_title_key ascii_env (tx ''D'') (Some (tx '' s '')) (Some (tx ''01'')) = Some k"
    using v by (auto simp: stored_identity_title_key_def stored_volume_def p q nonempty_simps split: if_splits)
  show ?thesis
    by (rule equal_keys_mean_same_title [OF key_env_ascii k])
      (unfold p v, simp_all add: key_volumes_def volume_numbers_def position_volume_def, simp add: tx_def)
qed

text \<open>
  The title verdict does not depend on the order of its arguments, and it is same exactly for equal, non-empty main titles
  with equal subtitles whose volume evidence is absent on both sides or shares a number.
\<close>

theorem title_verdict_is_symmetric:
  "title_verdict_with_positions env a v b w = title_verdict_with_positions env b w a v
   \<and> (title_verdict_with_positions env a v b w = TitleSame \<longleftrightarrow>
        pt_main a = pt_main b \<and> pt_main a \<noteq> [] \<and> pt_subtitle a = pt_subtitle b
        \<and> (key_volumes a v = [] \<and> key_volumes b w = []
           \<or> (\<exists>x \<in> set (key_volumes a v). \<exists>y \<in> set (key_volumes b w). same_volume x y)))
   \<and> (title_verdict_with_positions env a v b w = VetoVolume \<longleftrightarrow>
        key_volumes a v \<noteq> [] \<and> key_volumes b w \<noteq> []
        \<and> (\<nexists>x. x \<in> set (key_volumes a v) \<and> (\<exists>y \<in> set (key_volumes b w). same_volume x y)))"
proof -
  have "title_verdict_with_positions env a v b w = VetoVolume \<longleftrightarrow> volumes_conflict (key_volumes a v) (key_volumes b w)"
    by (simp add: title_verdict_with_positions_def Let_def key_volumes_def)
  then show ?thesis
    using verdict_sym [of env a v b w] verdict_same_iff [of env a v b w]
    by (simp add: same_titles_def volumes_conflict_def Bex_def)
qed

text \<open>
  The loop that peels trailing parentheticals off a title ends: with the length of the text as a bound on its
  rounds it stops because the text is used up or has no parenthetical left, and a higher bound changes nothing.
\<close>

theorem peeling_ends:
  assumes "paren_env env" and "peel_parens env (length rest) acc rest = (acc', rest')"
  shows "(rest' = [] \<or> re_captures env RE_TRAILING_PAREN rest' = None)
    \<and> peel_parens env (length rest + k) acc rest = (acc', rest')"
  using peel_ends [OF assms(1) order_refl assms(2)] peel_enough [OF assms(1) order_refl, of rest k acc] assms(2) by simp

text \<open>An instance in which a closing bracket ends a parenthetical that starts at the first opening one.\<close>

definition bracket_env :: text_env where
  "bracket_env = ascii_env\<lparr>re_captures := (\<lambda>pat s.
     if pat = RE_TRAILING_PAREN \<and> 40 \<in> set s \<and> last s = 41
     then Some \<lparr>cap_start = length (takeWhile (\<lambda>c. c \<noteq> 40) s), cap_end = length s,
                cap_groups = [Some (butlast (tl (dropWhile (\<lambda>c. c \<noteq> 40) s)))]\<rparr>
     else None)\<rparr>"

theorem peeling_ends_witness:
  "snd (peel_parens bracket_env 4 \<lparr>tl_markers = [], tl_junk = [], tl_subtitle_parts = []\<rparr> (tx ''a(b)'')) = tx ''a''
   \<and> re_captures bracket_env RE_TRAILING_PAREN (tx ''a'') = None"
proof -
  let ?acc = "\<lparr>tl_markers = [], tl_junk = [], tl_subtitle_parts = []\<rparr>"
  have env: "paren_env bracket_env"
  proof -
    have "length (takeWhile (\<lambda>c. c \<noteq> 40) s) < length s" if "40 \<in> set s" for s :: utext
      using that by (induction s) auto
    then show ?thesis by (auto simp: paren_env_def bracket_env_def split: if_splits)
  qed
  obtain acc' rest' where r: "peel_parens bracket_env 4 ?acc (tx ''a(b)'') = (acc', rest')" by fastforce
  have four: "(4::nat) = Suc (Suc (Suc (Suc 0)))" by simp
  have rest: "rest' = tx ''a''"
    using r unfolding four
    by (simp add: bracket_env_def tx_def text_trim_end_def is_whitespace_def cap_get_def Let_def)
  have len: "length (tx ''a(b)'') = 4" by (simp add: tx_def)
  have "rest' = [] \<or> re_captures bracket_env RE_TRAILING_PAREN rest' = None"
    by (rule conjunct1 [OF peeling_ends [OF env r [folded len]]])
  moreover have "rest' \<noteq> []" by (simp add: rest tx_def)
  ultimately show ?thesis by (simp add: r rest)
qed

text \<open>A volume that is not finite conflicts with itself, while its key is printed like any other.\<close>

lemma infinite_volume_conflicts_with_itself: "volumes_conflict [NaN] [NaN]" "volumes_conflict [Infinite neg] [Infinite neg]"
  by (simp_all add: volumes_conflict_def)

end
