(* ===== verification/SearchGuarantees.thy ===== *)
theory SearchGuarantees
  imports IdentityVerdicts
begin

text \<open>
  The pick among a provider's candidates (\<^verbatim>\<open>identity_matching.rs\<close>) and the search leg of the provider queue that
  uses it: the pick is the best candidate, a link without a question rests on a decisive and
  unrivalled one, and a leg never indexes outside its candidates.
\<close>

section \<open>The best candidate\<close>

lemma beats_less: "beats ts (Some (i, bt)) \<longleftrightarrow> bt < ts"
  by (cases bt; cases ts) (auto simp: beats_def less_prod_def)

definition best_of :: "('a \<Rightarrow> (nat \<times> rat) option) \<Rightarrow> 'a list \<Rightarrow> (nat \<times> nat \<times> rat) option \<Rightarrow> bool" where
  "best_of tier xs best =
     (case best of
        None \<Rightarrow> \<forall>x \<in> set xs. tier x = None
      | Some (i, ts) \<Rightarrow> i < length xs \<and> tier (xs ! i) = Some ts
          \<and> (\<forall>j < length xs. \<forall>ts'. tier (xs ! j) = Some ts' \<longrightarrow> ts' \<le> ts \<and> (ts' = ts \<longrightarrow> i \<le> j)))"

lemma best_of_snoc:
  assumes "best_of tier xs best"
  shows "best_of tier (xs @ [x])
    (case tier x of None \<Rightarrow> best | Some ts \<Rightarrow> if beats ts best then Some (length xs, ts) else best)"
proof (cases "tier x")
  case None
  then show ?thesis using assms by (auto simp: best_of_def nth_append less_Suc_eq split: option.splits)
next
  case (Some ts)
  show ?thesis
  proof (cases best)
    case None
    then show ?thesis
      using assms Some by (auto simp: best_of_def beats_def nth_append less_Suc_eq)
  next
    case best: (Some b)
    obtain i bt where b: "b = (i, bt)" by (cases b)
    show ?thesis
    proof (cases "bt < ts")
      case True
      have "ts' \<le> ts \<and> (ts' = ts \<longrightarrow> length xs \<le> j)" if "j < length (xs @ [x])" "tier ((xs @ [x]) ! j) = Some ts'" for j ts'
      proof (cases "j < length xs")
        case j: True
        then have "ts' \<le> bt" using assms that best b by (cases ts') (auto simp: best_of_def nth_append)
        then show ?thesis using True by auto
      next
        case False
        then show ?thesis using that Some by (auto simp: nth_append less_Suc_eq)
      qed
      then show ?thesis using Some best b True by (simp add: best_of_def beats_less)
    next
      case False
      then show ?thesis
        using assms Some best b by (auto simp: best_of_def beats_less nth_append less_Suc_eq not_less)
    qed
  qed
qed

lemma pick_fold:
  "best_of (candidate_tier env p a g) cs (fold (pick_step env p a g) (enumerate 0 cs) None)"
proof (induction cs rule: rev_induct)
  case Nil
  show ?case by (simp add: best_of_def)
next
  case (snoc c cs)
  have "pick_step env p a g (length cs, c) best =
      (case candidate_tier env p a g c of None \<Rightarrow> best | Some ts \<Rightarrow> if beats ts best then Some (length cs, ts) else best)" for best
    by (simp add: pick_step_def split: option.split)
  then show ?case using best_of_snoc [OF snoc, of c] by (simp add: enumerate_append_eq)
qed

lemma pick_Some:
  "pick_best_candidate env t a cs g = Some i \<Longrightarrow>
   i < length cs \<and> (\<exists>ts. candidate_tier env (parse_title env t) a g (cs ! i) = Some ts
     \<and> (\<forall>j < length cs. \<forall>ts'. candidate_tier env (parse_title env t) a g (cs ! j) = Some ts' \<longrightarrow>
          ts' \<le> ts \<and> (ts' = ts \<longrightarrow> i \<le> j)))"
  using pick_fold [of env "parse_title env t" a g cs] by (auto simp: pick_best_candidate_def best_of_def)

lemma pick_None:
  "pick_best_candidate env t a cs g = None \<longleftrightarrow> (\<forall>c \<in> set cs. candidate_tier env (parse_title env t) a g c = None)"
proof -
  obtain best where best: "fold (pick_step env (parse_title env t) a g) (enumerate 0 cs) None = best" by simp
  have inv: "best_of (candidate_tier env (parse_title env t) a g) cs best" using pick_fold best by metis
  show ?thesis
    using inv nth_mem [of _ cs] by (cases best) (fastforce simp: pick_best_candidate_def best best_of_def)+
qed

section \<open>Classification of a search\<close>

definition routable :: "search_fallback_candidate \<Rightarrow> bool" where
  "routable c \<longleftrightarrow> text_trim (sc_provider_work_id c) \<noteq> []"

definition fallback_tier :: "text_env \<Rightarrow> utext \<Rightarrow> utext \<Rightarrow> bool \<Rightarrow> search_fallback_candidate \<Rightarrow> (nat \<times> rat) option" where
  "fallback_tier env t a g c = candidate_tier env (parse_title env t) a g (sc_title c, sc_author c)"

lemma decisive_tier: "decisive env t a c \<Longrightarrow> fallback_tier env t a g c = Some (2, 1)"
  by (simp add: decisive_def fallback_tier_def candidate_tier_def)

lemma routable_nth:
  assumes "r = filter (\<lambda>(i, c). routable c) (enumerate 0 cs)" and "k < length r"
  shows "fst (r ! k) < length cs \<and> snd (r ! k) = cs ! fst (r ! k) \<and> routable (cs ! fst (r ! k))"
proof -
  have "r ! k \<in> set r" using assms(2) by simp
  then show ?thesis using assms(1) by (auto simp: in_set_enumerate_eq case_prod_beta')
qed

lemma set_routable: "set (map snd (filter (\<lambda>(i, c). routable c) (enumerate 0 cs))) = {c \<in> set cs. routable c}"
proof -
  have "map snd (filter (\<lambda>(i, c). routable c) (enumerate n cs)) = filter routable cs" for n
    by (induction cs arbitrary: n) auto
  then show ?thesis by simp
qed

definition unrivalled :: "text_env \<Rightarrow> utext \<Rightarrow> utext \<Rightarrow> search_fallback_candidate list \<Rightarrow> nat \<Rightarrow> bool" where
  "unrivalled env t a cs i \<longleftrightarrow>
     (\<forall>c \<in> set cs. routable c \<and> decisive env t a c \<longrightarrow>
        text_trim (sc_provider_work_id c) = text_trim (sc_provider_work_id (cs ! i)))"

lemma classify_decision:
  fixes cs :: "search_fallback_candidate list" and env t a g
  defines "d \<equiv> classify_search_fallback env t a cs g"
  shows "(case d of
            Abstain \<Rightarrow> \<forall>c \<in> set cs. routable c \<longrightarrow> fallback_tier env t a g c = None
          | Propose i \<Rightarrow> i < length cs \<and> routable (cs ! i) \<and> fallback_tier env t a g (cs ! i) \<noteq> None
              \<and> \<not> (decisive env t a (cs ! i) \<and> unrivalled env t a cs i)
          | AutoLink i \<Rightarrow> i < length cs \<and> routable (cs ! i) \<and> decisive env t a (cs ! i) \<and> unrivalled env t a cs i)"
proof -
  define r where "r = filter (\<lambda>(i, c). routable c) (enumerate 0 cs)"
  define inputs where "inputs = map (\<lambda>(i, c). (sc_title c, sc_author c)) r"
  have d: "d = (case pick_best_candidate env t a inputs g of
        None \<Rightarrow> Abstain
      | Some k \<Rightarrow> (let i = fst (r ! k) in
          if \<not> decisive env t a (cs ! i) then Propose i
          else if \<exists>(j, c) \<in> set (enumerate 0 cs). j \<noteq> i \<and> routable c
               \<and> text_trim (sc_provider_work_id c) \<noteq> text_trim (sc_provider_work_id (cs ! i)) \<and> decisive env t a c
          then Propose i else AutoLink i))"
    unfolding d_def classify_search_fallback_def r_def inputs_def routable_def Let_def by (rule refl)
  show ?thesis
  proof (cases "pick_best_candidate env t a inputs g")
    case None
    then have "\<forall>c \<in> set (map snd r). fallback_tier env t a g c = None"
      by (auto simp: pick_None inputs_def fallback_tier_def)
    then have "\<forall>c \<in> {c \<in> set cs. routable c}. fallback_tier env t a g c = None"
      unfolding r_def set_routable .
    then show ?thesis using d None by simp
  next
    case (Some k)
    define i where "i = fst (r ! k)"
    have k: "k < length r" using pick_Some [OF Some] by (simp add: inputs_def)
    have i: "i < length cs" "routable (cs ! i)" and snd: "snd (r ! k) = cs ! i"
      using routable_nth [OF r_def k] by (simp_all add: i_def)
    have tier: "fallback_tier env t a g (cs ! i) \<noteq> None"
      using pick_Some [OF Some] k snd by (auto simp: inputs_def fallback_tier_def case_prod_beta')
    have rival: "(\<exists>(j, c) \<in> set (enumerate 0 cs). j \<noteq> i \<and> routable c
               \<and> text_trim (sc_provider_work_id c) \<noteq> text_trim (sc_provider_work_id (cs ! i)) \<and> decisive env t a c)
        \<longleftrightarrow> \<not> unrivalled env t a cs i"
    proof -
      have mem: "(j, c) \<in> set (enumerate 0 cs) \<longleftrightarrow> j < length cs \<and> cs ! j = c" for j c
        by (simp add: in_set_enumerate_eq)
      show ?thesis unfolding unrivalled_def Bex_def split_paired_Ex mem prod.case by (metis in_set_conv_nth)
    qed
    show ?thesis using d Some i tier rival by (simp add: Let_def flip: i_def)
  qed
qed


section \<open>The search leg with this classification\<close>

text \<open>
  The queue's candidates as the classification sees them; \<open>chars\<close> decodes a string into its characters. The
  queue accepts no grey title.
\<close>

definition fallback_candidate :: "(string \<Rightarrow> utext) \<Rightarrow> search_candidate \<Rightarrow> search_fallback_candidate" where
  "fallback_candidate chars c =
     \<lparr>sc_title = chars (c_title c), sc_author = chars (c_author c), sc_provider_work_id = chars (c_work_id c)\<rparr>"

definition queue_classify ::
  "text_env \<Rightarrow> (string \<Rightarrow> utext) \<Rightarrow> string \<Rightarrow> string \<Rightarrow> search_candidate list \<Rightarrow> search_fallback_decision" where
  "queue_classify env chars t a cs =
     classify_search_fallback env (chars t) (chars a) (map (fallback_candidate chars) cs) False"

lemma queue_index:
  "candidate_index (queue_classify env chars t a cs) = Some i \<Longrightarrow> i < length cs"
  using classify_decision [where env = env and t = "chars t" and a = "chars a" and cs = "map (fallback_candidate chars) cs" and g = False]
  by (auto simp: queue_classify_def split: search_fallback_decision.splits)

definition text_decided ::
  "text_env \<Rightarrow> (string \<Rightarrow> utext) \<Rightarrow> string \<Rightarrow> string \<Rightarrow> search_candidate list \<Rightarrow> string \<Rightarrow> bool" where
  "text_decided env chars t a cs work_id \<longleftrightarrow>
     (\<exists>i < length cs. work_id = trim (c_work_id (cs ! i))
        \<and> decisive env (chars t) (chars a) (fallback_candidate chars (cs ! i))
        \<and> unrivalled env (chars t) (chars a) (map (fallback_candidate chars) cs) i)"

text \<open>
  What is known of a candidate's editions: the identifiers it came with, the Goodreads book that its probe names, and
  those that the probe returned. A candidate is corroborated by one of them that names the same edition as an active route.
\<close>

definition candidate_identifiers :: "search_client \<Rightarrow> string option \<Rightarrow> search_candidate \<Rightarrow> search_identifier list" where
  "candidate_identifiers client lang c = c_edition_identifiers c @ (case c_probe c of
       None \<Rightarrow> []
     | Some probe \<Rightarrow>
         (case probe of GoodreadsBook b \<Rightarrow> [(GoodreadsBookEdition, b)] | _ \<Rightarrow> [])
         @ (case probe_identity_candidate client probe lang of Some probed \<Rightarrow> probed | None \<Rightarrow> []))"

definition matched :: "(string \<Rightarrow> string) \<Rightarrow> work_route list \<Rightarrow> route_kind \<Rightarrow> search_identifier list \<Rightarrow> bool" where
  "matched strip_isbn routes k ids \<longleftrightarrow>
     (\<exists>i \<in> set ids. fst i = k \<and> (\<exists>route \<in> set routes. edition_identifier_matches strip_isbn route i))"

definition corroborated_by ::
  "(string \<Rightarrow> string) \<Rightarrow> search_client \<Rightarrow> string option \<Rightarrow> work_route list \<Rightarrow> route_kind \<Rightarrow> search_candidate \<Rightarrow> bool" where
  "corroborated_by strip_isbn client lang routes k c \<longleftrightarrow> matched strip_isbn routes k (candidate_identifiers client lang c)"

definition names_candidate :: "search_candidate \<Rightarrow> string \<Rightarrow> bool" where
  "names_candidate c v \<longleftrightarrow> v = trim (c_work_id c) \<or> c_probe c = Some (GoodreadsBook v)"

lemma corroborate_Some: "corroborate strip_isbn routes ids = Some k \<Longrightarrow> matched strip_isbn routes k ids"
  by (auto simp: corroborate_def matched_def find_map_Some split: if_splits)

lemma conclude_evidence:
  assumes "e \<in> set (provider_identity (conclude strip_isbn routes dec ip wr book ids))"
  shows "(ev_provenance e = EvidenceTextDecisive \<and> dec \<and> ev_route e = wr)
    \<or> (\<exists>k. ev_provenance e = EvidenceSearchFallback k \<and> matched strip_isbn routes k ids
         \<and> (ev_route e = wr \<or> book = Some (k_value (ev_route e))))"
  using assms corroborate_Some [of strip_isbn routes ids]
  by (auto simp: conclude_def corroborated_capture_def text_decisive_search_capture_def proposal_capture_def
      split: option.splits if_splits)

lemma leg_evidence:
  assumes "run_identity_search_fallback strip_isbn classify client p t a lang routes = Some capture"
    and "e \<in> set (provider_identity capture)"
  shows "\<exists>cs i. search_identity_candidates client t a lang = Some cs \<and> i < length cs \<and> candidate_index (classify t a cs) = Some i
    \<and> ((ev_provenance e = EvidenceTextDecisive \<and> classify t a cs = AutoLink i \<and> k_value (ev_route e) = trim (c_work_id (cs ! i)))
       \<or> (\<exists>k. ev_provenance e = EvidenceSearchFallback k \<and> corroborated_by strip_isbn client lang routes k (cs ! i)
            \<and> names_candidate (cs ! i) (k_value (ev_route e))))"
proof -
  obtain cs where cs: "search_identity_candidates client t a lang = Some cs"
    using assms by (cases "search_identity_candidates client t a lang")
      (auto simp: run_identity_search_fallback_def capture_leg_failed_def capture_default_def)
  obtain i where i: "candidate_index (classify t a cs) = Some i" "i < length cs"
    using assms cs by (cases "candidate_index (classify t a cs)")
      (auto simp: run_identity_search_fallback_def honest_miss_def capture_default_def Let_def split: if_splits)
  define dec where "dec = (case classify t a cs of AutoLink _ \<Rightarrow> True | _ \<Rightarrow> False)"
  have auto_link: "classify t a cs = AutoLink i" if dec using that i(1) by (auto simp: dec_def split: search_fallback_decision.splits)
  obtain ip k where ipk: "search_route_kind p = Some (ip, k)"
    using assms cs i by (cases "search_route_kind p")
      (auto simp: run_identity_search_fallback_def capture_default_def Let_def)
  define wr where "wr = \<lparr>k_provider = ip, k_kind = k, k_value = trim (c_work_id (cs ! i))\<rparr>"
  note run = assms(1) [unfolded run_identity_search_fallback_def Let_def, simplified cs i ipk option.case prod.case not_le if_False if_True,
      folded dec_def wr_def]
  let ?book = "case c_probe (cs ! i) of Some (GoodreadsBook b) \<Rightarrow> Some b | _ \<Rightarrow> None"
  have concluded: "capture = conclude strip_isbn routes dec ip wr ?book (candidate_identifiers client lang (cs ! i))
      \<or> (\<forall>e \<in> set (provider_identity capture). ev_provenance e = EvidenceTextDecisive \<and> dec \<and> ev_route e = wr)"
    using run
    by (auto simp: candidate_identifiers_def text_decisive_search_capture_def proposal_capture_def capture_leg_failed_def capture_default_def
        split: if_splits option.splits identity_search_probe.splits)
  have "(ev_provenance e = EvidenceTextDecisive \<and> dec \<and> ev_route e = wr)
      \<or> (\<exists>k. ev_provenance e = EvidenceSearchFallback k \<and> matched strip_isbn routes k (candidate_identifiers client lang (cs ! i))
           \<and> (ev_route e = wr \<or> ?book = Some (k_value (ev_route e))))"
    using concluded assms(2) conclude_evidence by blast
  moreover have "names_candidate (cs ! i) v" if "v = k_value wr \<or> ?book = Some v" for v
    using that by (auto simp: names_candidate_def wr_def split: option.splits identity_search_probe.splits)
  ultimately have "(ev_provenance e = EvidenceTextDecisive \<and> classify t a cs = AutoLink i \<and> k_value (ev_route e) = trim (c_work_id (cs ! i)))
       \<or> (\<exists>k. ev_provenance e = EvidenceSearchFallback k \<and> corroborated_by strip_isbn client lang routes k (cs ! i)
            \<and> names_candidate (cs ! i) (k_value (ev_route e)))"
    unfolding corroborated_by_def using auto_link by (auto simp: wr_def)
  then show ?thesis using cs i by blast
qed

section \<open>Properties\<close>

text \<open>
  The picker returns the best acceptable candidate: none exactly when no candidate clears the title and author
  bar, and otherwise one whose tier and score no other exceeds, the first of equals.
\<close>

theorem picker_returns_the_best_candidate:
  "(pick_best_candidate env t a cs g = None \<longleftrightarrow> (\<forall>c \<in> set cs. candidate_tier env (parse_title env t) a g c = None))
   \<and> (\<forall>i. pick_best_candidate env t a cs g = Some i \<longrightarrow>
        i < length cs \<and> (\<exists>ts. candidate_tier env (parse_title env t) a g (cs ! i) = Some ts
          \<and> (\<forall>j < length cs. \<forall>ts'. candidate_tier env (parse_title env t) a g (cs ! j) = Some ts' \<longrightarrow>
               ts' \<le> ts \<and> (ts' = ts \<longrightarrow> i \<le> j))))"
  using pick_None pick_Some by blast

text \<open>
  C27 (safety): A search leg that classifies with the identity authority never indexes outside its candidates, and captures evidence
  only for the candidate that it decided for and on two grounds: by text, where that candidate's title is the same and its author agrees and every
  other such candidate with a work id names the same work; or by corroboration, where an edition identifier of that
  candidate, its own, its probed book's or one that the probe returned, is the identifier of an active edition route of the work. The captured
  route is the candidate's work, or the Goodreads book that it was probed by.
\<close>

theorem search_leg_links_only_what_is_decided:
  shows "\<exists>capture. run_identity_search_fallback strip_isbn (queue_classify env chars) client p t a lang routes = Some capture
    \<and> (\<forall>e \<in> set (provider_identity capture).
         \<exists>cs. search_identity_candidates client t a lang = Some cs
           \<and> (ev_provenance e = EvidenceTextDecisive \<and> text_decided env chars t a cs (k_value (ev_route e))
              \<or> (\<exists>k i. ev_provenance e = EvidenceSearchFallback k \<and> i < length cs
                   \<and> candidate_index (queue_classify env chars t a cs) = Some i
                   \<and> corroborated_by strip_isbn client lang routes k (cs ! i) \<and> names_candidate (cs ! i) (k_value (ev_route e)))))"
proof -
  let ?run = "run_identity_search_fallback strip_isbn (queue_classify env chars) client p t a lang routes"
  have "?run \<noteq> None"
    using queue_index [of env chars t a]
    by (fastforce simp: run_identity_search_fallback_def Let_def split: option.splits prod.splits)
  then obtain capture where c: "?run = Some capture" by blast
  have decided: "text_decided env chars t a cs (trim (c_work_id (cs ! i)))"
    if "i < length cs" "queue_classify env chars t a cs = AutoLink i" for cs i
    using that classify_decision [where env = env and t = "chars t" and a = "chars a" and cs = "map (fallback_candidate chars) cs" and g = False]
    by (auto simp: text_decided_def queue_classify_def)
  show ?thesis
    using c leg_evidence [OF c] decided by (intro exI [of _ capture] conjI ballI) (metis+)
qed

section \<open>An example\<close>

definition ex_client :: search_client where
  "ex_client = \<lparr>search_identity_candidates = (\<lambda>_ _ _. Some
       [\<lparr>c_title = ''E'', c_author = ''B'', c_work_id = ''W0'', c_edition_identifiers = [], c_probe = None\<rparr>,
        \<lparr>c_title = ''d'', c_author = ''b'', c_work_id = ''W1'', c_edition_identifiers = [], c_probe = None\<rparr>]),
     probe_identity_candidate = (\<lambda>_ _. None)\<rparr>"

lemmas title_eval = ascii_eval parse_title_def peel_parens.simps split_main_tail_def find_sub_def List.map_filter_def
  extract_comma_marker_def canonical_phrase_def has_cjk_def is_cjk_char_def fold_conjunction_symbol_def
  strip_leading_identity_article_def split_whitespace_def nonempty_def upt_rec

lemma ex_titles:
  "parse_title ascii_env (tx ''d'') = \<lparr>pt_main = tx ''d'', pt_subtitle = None, pt_markers = [], pt_junk = []\<rparr>"
  "parse_title ascii_env (tx ''D'') = \<lparr>pt_main = tx ''d'', pt_subtitle = None, pt_markers = [], pt_junk = []\<rparr>"
  "parse_title ascii_env (tx ''E'') = \<lparr>pt_main = tx ''e'', pt_subtitle = None, pt_markers = [], pt_junk = []\<rparr>"
  by (simp_all add: title_eval)

lemma ex_tokens: "title_tokens ascii_env (tx ''d'') = {}" "title_tokens ascii_env (tx ''e'') = {}"
  by (simp_all add: title_tokens_def clean_title_def strip_colon_novel_marker_def strip_colon_series_marker_def
      strip_trailing_paren_if_match_def re_remove_def title_case_def title_case_word_def capitalize_first_def
      title_eval)

lemma ex_names:
  "canonical_author_name ascii_env (tx ''B'') = Some \<lparr>cn_given = [], cn_surname = tx ''b''\<rparr>"
  "canonical_author_name ascii_env (tx ''b'') = Some \<lparr>cn_given = [], cn_surname = tx ''b''\<rparr>"
  by (simp_all add: canonical_author_name_def ascii_eval)

lemma ex_authors: "author_of ascii_env (tx ''B'') (tx ''b'') = AuthorAgree" "author_of ascii_env (tx ''B'') (tx ''B'') = AuthorAgree"
  by (simp_all add: author_of_def author_verdict_def AUTHOR_VERDICT_MAX_NAMES_PER_SIDE_def ex_names List.map_filter_def
      count_matches_def count_match_def full_name_match_def)

lemma ex_letters: "tx ''d'' \<noteq> []" "tx ''e'' \<noteq> []" "tx ''d'' \<noteq> tx ''e''"
  by (simp_all add: tx_def)

lemma ex_verdicts:
  "title_verdict ascii_env (parse_title ascii_env (tx ''D'')) (parse_title ascii_env (tx ''E'')) = TitleDifferent"
  "title_verdict ascii_env (parse_title ascii_env (tx ''D'')) (parse_title ascii_env (tx ''d'')) = TitleSame"
  by (simp_all add: title_verdict_def title_verdict_with_positions_def ex_titles ex_tokens ex_letters
      volume_numbers_def position_volume_def volumes_conflict_def jaccard_def TITLE_GREY_FLOOR_def)

lemma ex_tier:
  "candidate_tier ascii_env (parse_title ascii_env (tx ''D'')) (tx ''B'') False (tx ''E'', tx ''B'') = None"
  "candidate_tier ascii_env (parse_title ascii_env (tx ''D'')) (tx ''B'') False (tx ''d'', tx ''b'') = Some (2, 1)"
  by (simp_all add: candidate_tier_def ex_verdicts ex_authors)

theorem picker_returns_the_best_candidate_witness:
  "pick_best_candidate ascii_env (tx ''D'') (tx ''B'') [(tx ''E'', tx ''B''), (tx ''d'', tx ''b'')] False = Some 1"
proof -
  let ?cs = "[(tx ''E'', tx ''B''), (tx ''d'', tx ''b'')]"
  note best = picker_returns_the_best_candidate [of ascii_env "tx ''D''" "tx ''B''" ?cs False]
  have "\<not> (\<forall>c \<in> set ?cs. candidate_tier ascii_env (parse_title ascii_env (tx ''D'')) (tx ''B'') False c = None)"
    using ex_tier(2) by auto
  then obtain i where i: "pick_best_candidate ascii_env (tx ''D'') (tx ''B'') ?cs False = Some i" using best by auto
  then have "i < 2" "\<exists>ts. candidate_tier ascii_env (parse_title ascii_env (tx ''D'')) (tx ''B'') False (?cs ! i) = Some ts"
    using best by (simp_all, blast)
  then show ?thesis using i ex_tier(1) by (cases i) (auto simp: less_2_cases_iff)
qed

lemma ex_pick: "pick_best_candidate ascii_env (tx ''D'') (tx ''B'') [(tx ''E'', tx ''B''), (tx ''d'', tx ''b'')] False = Some 1"
  by (simp add: pick_best_candidate_def pick_step_def ex_tier beats_def)

lemma ex_classify:
  "queue_classify ascii_env tx ''D'' ''B'' (the (search_identity_candidates ex_client t a l)) = AutoLink 1"
proof -
  have ids: "text_trim (tx ''W0'') = tx ''W0''" "text_trim (tx ''W1'') = tx ''W1''" "tx ''W0'' \<noteq> []" "tx ''W1'' \<noteq> []"
    by (simp_all add: ascii_eval)
  have dec: "decisive ascii_env (tx ''D'') (tx ''B'') \<lparr>sc_title = tx ''d'', sc_author = tx ''b'', sc_provider_work_id = w\<rparr>"
    "\<not> decisive ascii_env (tx ''D'') (tx ''B'') \<lparr>sc_title = tx ''E'', sc_author = tx ''B'', sc_provider_work_id = w\<rparr>" for w
    by (simp_all add: decisive_def ex_verdicts ex_authors)
  show ?thesis
    using ex_pick
    by (simp add: queue_classify_def classify_search_fallback_def fallback_candidate_def ex_client_def ids dec)
qed

theorem search_leg_links_only_what_is_decided_witness:
  "\<exists>capture. run_identity_search_fallback (\<lambda>v. v) (queue_classify ascii_env tx) ex_client metadata_provider.OpenLibrary
       ''D'' ''B'' None [] = Some capture
     \<and> map (\<lambda>e. k_value (ev_route e)) (provider_identity capture) = [''W1'']
     \<and> text_decided ascii_env tx ''D'' ''B'' (the (search_identity_candidates ex_client ''D'' ''B'' None)) ''W1''"
proof -
  let ?run = "run_identity_search_fallback (\<lambda>v. v) (queue_classify ascii_env tx) ex_client metadata_provider.OpenLibrary ''D'' ''B'' None []"
  obtain cs where cs: "search_identity_candidates ex_client ''D'' ''B'' None = Some cs" and len: "length cs = 2"
    and id: "c_work_id (cs ! 1) = ''W1''"
    by (simp add: ex_client_def)
  have trim: "trim ''W1'' = ''W1''" by code_simp
  have "queue_classify ascii_env tx ''D'' ''B'' cs = AutoLink 1"
    using ex_classify [of "''D''" "''B''" None] cs by simp
  then obtain ip k where run: "?run = Some (text_decisive_search_capture ip \<lparr>k_provider = ip, k_kind = k, k_value = ''W1''\<rparr>)"
    using len id trim
    by (simp add: run_identity_search_fallback_def cs can_corroborate_def)
  define e where "e = \<lparr>ev_provider = ip, ev_route = \<lparr>k_provider = ip, k_kind = k, k_value = ''W1''\<rparr>, ev_provenance = EvidenceTextDecisive\<rparr>"
  obtain capture where c: "?run = Some capture"
    and ev: "\<forall>e \<in> set (provider_identity capture). \<exists>cs. search_identity_candidates ex_client ''D'' ''B'' None = Some cs
           \<and> (ev_provenance e = EvidenceTextDecisive \<and> text_decided ascii_env tx ''D'' ''B'' cs (k_value (ev_route e))
              \<or> (\<exists>k i. ev_provenance e = EvidenceSearchFallback k \<and> i < length cs
                   \<and> candidate_index (queue_classify ascii_env tx ''D'' ''B'' cs) = Some i
                   \<and> corroborated_by (\<lambda>v. v) ex_client None [] k (cs ! i) \<and> names_candidate (cs ! i) (k_value (ev_route e))))"
    using search_leg_links_only_what_is_decided [of "\<lambda>v. v" ascii_env tx ex_client metadata_provider.OpenLibrary "''D''" "''B''" None "[]"]
    by blast
  have cap: "provider_identity capture = [e]"
    using c run by (auto simp: text_decisive_search_capture_def e_def)
  then show ?thesis using c ev cs by (auto simp: e_def)
qed

end
