(* ===== verification/Identifiers.thy ===== *)
theory Identifiers
  imports Language
begin

text \<open>
  Book identifiers: normalisation and checksums (\<^verbatim>\<open>livrarr-domain/src/normalization.rs\<close>), the classification of a pasted
  identifier or provider URL (\<^verbatim>\<open>identity_edit.rs\<close>) and the sanitising of a harvested seed
  (\<^verbatim>\<open>identity.rs\<close>).

  Strings are UTF-8 bytes. A slice that cuts a character panics in Rust; functions that slice return an option, and
  \<^const>\<open>None\<close> is the panic.
\<close>

section \<open>Bytes\<close>

definition is_digit :: "char \<Rightarrow> bool" where
  "is_digit c \<longleftrightarrow> 48 \<le> (of_char c :: nat) \<and> (of_char c :: nat) \<le> 57"

definition is_letter :: "char \<Rightarrow> bool" where
  "is_letter c \<longleftrightarrow> 65 \<le> (of_char c :: nat) \<and> (of_char c :: nat) \<le> 90 \<or> 97 \<le> (of_char c :: nat) \<and> (of_char c :: nat) \<le> 122"

definition is_alnum :: "char \<Rightarrow> bool" where
  "is_alnum c \<longleftrightarrow> is_digit c \<or> is_letter c"

definition to_digit :: "char \<Rightarrow> nat" where
  "to_digit c = of_char c - 48"

definition ascii_upper :: "char \<Rightarrow> char" where
  "ascii_upper c = (if 97 \<le> (of_char c :: nat) \<and> (of_char c :: nat) \<le> 122 then char_of ((of_char c :: nat) - 32) else c)"

definition to_ascii_uppercase :: "string \<Rightarrow> string" where
  "to_ascii_uppercase s = map ascii_upper s"

text \<open>A position is a boundary unless it holds a continuation byte.\<close>

definition is_char_boundary :: "string \<Rightarrow> nat \<Rightarrow> bool" where
  "is_char_boundary s i \<longleftrightarrow>
     i \<le> length s \<and> (i = 0 \<or> i = length s \<or> \<not> (128 \<le> (of_char (s ! i) :: nat) \<and> (of_char (s ! i) :: nat) < 192))"

definition find_str :: "string \<Rightarrow> string \<Rightarrow> nat option" where
  "find_str pat s = find (\<lambda>i. take (length pat) (drop i s) = pat) [0..<Suc (length s)]"

definition find_any :: "char list \<Rightarrow> string \<Rightarrow> nat option" where
  "find_any cs s = position (\<lambda>c. c \<in> set cs) s"

definition rsplit_once :: "char \<Rightarrow> string \<Rightarrow> (string \<times> string) option" where
  "rsplit_once c s =
     (case position (\<lambda>x. x = c) (rev s) of
        None \<Rightarrow> None
      | Some i \<Rightarrow> Some (take (length s - i - 1) s, drop (length s - i) s))"

definition starts_with :: "string \<Rightarrow> string \<Rightarrow> bool" where
  "starts_with p s \<longleftrightarrow> take (length p) s = p"

definition ends_with :: "string \<Rightarrow> string \<Rightarrow> bool" where
  "ends_with p s \<longleftrightarrow> length p \<le> length s \<and> drop (length s - length p) s = p"

section \<open>ISBN and ASIN\<close>

definition isbn13_sum :: "string \<Rightarrow> nat" where
  "isbn13_sum s = sum_list (map (\<lambda>(i, c). if i mod 2 = 0 then to_digit c else to_digit c * 3) (enumerate 0 s))"

definition isbn10_sum :: "string \<Rightarrow> nat" where
  "isbn10_sum body = sum_list (map (\<lambda>(i, c). to_digit c * (10 - i)) (enumerate 0 body))"

definition digit_char :: "nat \<Rightarrow> char" where
  "digit_char d = char_of (48 + d)"

definition normalize_isbn13 :: "string \<Rightarrow> string option" where
  "normalize_isbn13 raw =
     (let cleaned = map (\<lambda>c. if c = CHR ''x'' then CHR ''X'' else c) (filter is_alnum raw) in
      if length cleaned = 10 then
        (let body = take 9 cleaned; check_char = cleaned ! 9 in
         if \<not> list_all is_digit body then None
         else if \<not> is_digit check_char \<and> check_char \<noteq> CHR ''X'' then None
         else
           let check_val = (if check_char = CHR ''X'' then 10 else to_digit check_char) in
           if (isbn10_sum body + check_val) mod 11 \<noteq> 0 then None
           else
             let prefix = ''978'' @ body; check13 = (10 - isbn13_sum prefix mod 10) mod 10 in
             Some (prefix @ [digit_char check13]))
      else if length cleaned = 13 then
        (if \<not> list_all is_digit cleaned then None
         else if isbn13_sum cleaned mod 10 \<noteq> 0 then None
         else Some cleaned)
      else None)"

datatype asin_norm = AsinIsbn13 string | AsinOk string | AsinInvalid

definition normalize_asin :: "string \<Rightarrow> asin_norm option" where
  "normalize_asin raw =
     (let s = to_ascii_uppercase (trim raw) in
      if s = [] then Some AsinInvalid
      else if length s = 10 \<and> \<not> is_char_boundary s 9 then None
      else if length s = 10 \<and> list_all is_digit (take 9 s) \<and> (is_digit (s ! 9) \<or> s ! 9 = CHR ''X'')
      then Some (case normalize_isbn13 s of Some isbn13 \<Rightarrow> AsinIsbn13 isbn13 | None \<Rightarrow> AsinOk s)
      else if length s = 10 \<and> list_all is_alnum s then Some (AsinOk s)
      else Some AsinInvalid)"

definition normalize_gr_key :: "string \<Rightarrow> string option" where
  "normalize_gr_key raw = (let digits = takeWhile is_digit (trim raw) in if digits = [] then None else Some digits)"

section \<open>Classification of a pasted identifier\<close>

type_synonym anchor_type = string

definition OL_WORK :: anchor_type where "OL_WORK = ''ol_work''"
definition ISBN_13 :: anchor_type where "ISBN_13 = ''isbn_13''"
definition ASIN :: anchor_type where "ASIN = ''asin''"
definition GR_WORK :: anchor_type where "GR_WORK = ''gr_work''"

datatype classify_error = EditionKey | WrongSlot anchor_type anchor_type | Unrecognized

datatype ol_key_kind_t = OlWork string | OlEdition | NotOl

definition ol_key_kind :: "string \<Rightarrow> ol_key_kind_t option" where
  "ol_key_kind candidate =
     (let upper = to_ascii_uppercase candidate in
      if \<not> starts_with ''OL'' upper then Some NotOl
      else
        let body = drop 2 upper in
        if length body < 2 then Some NotOl
        else if \<not> is_char_boundary body (length body - 1) then None
        else
          let digits = take (length body - 1) body; tail = drop (length body - 1) body in
          if digits = [] \<or> \<not> list_all is_digit digits then Some NotOl
          else if tail = ''W'' then Some (OlWork upper)
          else if tail = ''M'' then Some OlEdition
          else Some NotOl)"

definition host_matches :: "string \<Rightarrow> string \<Rightarrow> bool" where
  "host_matches host candidate =
     (if ends_with ''.'' host
      then starts_with host candidate \<or> find_str (''.'' @ host) candidate \<noteq> None
      else candidate = host \<or> ends_with (''.'' @ host) candidate)"

fun first_segment :: "string \<Rightarrow> string \<Rightarrow> nat \<Rightarrow> string list \<Rightarrow> string option" where
  "first_segment input path path_start [] = None"
| "first_segment input path path_start (marker # markers) =
     (case find_str marker path of
        None \<Rightarrow> first_segment input path path_start markers
      | Some pos \<Rightarrow>
          (let rest = drop (path_start + pos + length marker) input;
               seg = take (case find_any ''/?#'' rest of Some e \<Rightarrow> e | None \<Rightarrow> length rest) rest
           in if seg \<noteq> [] then Some seg else first_segment input path path_start markers))"

definition url_segment :: "string \<Rightarrow> string \<Rightarrow> string list \<Rightarrow> string option" where
  "url_segment input host markers =
     (let lower = to_ascii_lowercase input;
          after = (case find_str ''://'' lower of
                     Some pos \<Rightarrow> if take pos lower \<in> {''http'', ''https''} then Some (drop (pos + 3) lower) else None
                   | None \<Rightarrow> Some lower)
      in case after of
           None \<Rightarrow> None
         | Some after_scheme \<Rightarrow>
             (let scheme_len = length lower - length after_scheme;
                  authority_end = (case find_any ''/?#'' after_scheme of Some e \<Rightarrow> e | None \<Rightarrow> length after_scheme);
                  authority = take authority_end after_scheme;
                  host_port = (case rsplit_once CHR ''@'' authority of Some (_, h) \<Rightarrow> h | None \<Rightarrow> authority);
                  candidate = (case rsplit_once CHR '':'' host_port of Some (h, _) \<Rightarrow> h | None \<Rightarrow> host_port)
              in if \<not> host_matches host candidate then None
                 else
                   let path_start = scheme_len + authority_end;
                       full = drop path_start lower;
                       path = take (case find_any ''?#'' full of Some e \<Rightarrow> e | None \<Rightarrow> length full) full
                   in first_segment input path path_start markers))"

type_synonym classified = "classify_error + (anchor_type \<times> string)"

text \<open>A panic ends the whole classification: \<^const>\<open>Option.bind\<close> threads it.\<close>

definition classify_url :: "string \<Rightarrow> (classify_error + (anchor_type \<times> string) option) option" where
  "classify_url input =
     (case url_segment input ''goodreads.com'' [''/book/show/''] of
        Some seg \<Rightarrow> Some (case normalize_gr_key seg of Some key \<Rightarrow> Inr (Some (GR_WORK, key)) | None \<Rightarrow> Inl Unrecognized)
      | None \<Rightarrow>
          (case url_segment input ''openlibrary.org'' [''/works/'', ''/books/''] of
             Some seg \<Rightarrow>
               map_option (\<lambda>k. case k of OlWork key \<Rightarrow> Inr (Some (OL_WORK, key)) | OlEdition \<Rightarrow> Inl EditionKey | NotOl \<Rightarrow> Inl Unrecognized)
                 (ol_key_kind seg)
           | None \<Rightarrow>
               (case url_segment input ''amazon.'' [''/dp/'', ''/gp/product/''] of
                  Some seg \<Rightarrow>
                    map_option (\<lambda>a. case a of AsinOk asin \<Rightarrow> Inr (Some (ASIN, asin)) | AsinIsbn13 isbn \<Rightarrow> Inr (Some (ISBN_13, isbn))
                                          | AsinInvalid \<Rightarrow> Inl Unrecognized)
                      (normalize_asin seg)
                | None \<Rightarrow> Some (Inr None))))"

definition classify_bare_asin :: "string \<Rightarrow> classified option" where
  "classify_bare_asin input =
     (if length input = 10 \<and> list_all is_alnum input \<and> (\<exists>c \<in> set input. is_letter c)
      then map_option (\<lambda>a. case a of AsinOk asin \<Rightarrow> Inr (ASIN, asin) | AsinIsbn13 isbn \<Rightarrow> Inr (ISBN_13, isbn)
                                   | AsinInvalid \<Rightarrow> Inl Unrecognized)
             (normalize_asin input)
      else Some (Inl Unrecognized))"

definition classify_free :: "string \<Rightarrow> classified option" where
  "classify_free input =
     Option.bind (classify_url input) (\<lambda>u.
       case u of
         Inl e \<Rightarrow> Some (Inl e)
       | Inr (Some r) \<Rightarrow> Some (Inr r)
       | Inr None \<Rightarrow>
           (case normalize_isbn13 input of
              Some isbn \<Rightarrow> Some (Inr (ISBN_13, isbn))
            | None \<Rightarrow>
                if list_all is_digit input \<and> normalize_gr_key input \<noteq> None
                then Some (Inr (GR_WORK, the (normalize_gr_key input)))
                else
                  Option.bind (ol_key_kind input) (\<lambda>k.
                    case k of
                      OlWork key \<Rightarrow> Some (Inr (OL_WORK, key))
                    | OlEdition \<Rightarrow> Some (Inl EditionKey)
                    | NotOl \<Rightarrow> classify_bare_asin input)))"

text \<open>The forms a hinted slot accepts: a value, none, or the error of an edition key.\<close>

definition hinted_value :: "string \<Rightarrow> anchor_type \<Rightarrow> (classify_error + string option) option" where
  "hinted_value input hinted =
     (if hinted = GR_WORK then
        Some (Inr (case Option.bind (url_segment input ''goodreads.com'' [''/book/show/'']) normalize_gr_key of
                     Some key \<Rightarrow> Some key
                   | None \<Rightarrow> if list_all is_digit input then normalize_gr_key input else None))
      else if hinted = OL_WORK then
        (let candidate = (case url_segment input ''openlibrary.org'' [''/works/''] of Some seg \<Rightarrow> seg | None \<Rightarrow> input) in
         map_option (\<lambda>k. case k of OlWork key \<Rightarrow> Inr (Some key) | OlEdition \<Rightarrow> Inl EditionKey | NotOl \<Rightarrow> Inr None)
           (ol_key_kind candidate))
      else if hinted = ASIN then
        (let candidate = (case url_segment input ''amazon.'' [''/dp/'', ''/gp/product/''] of Some seg \<Rightarrow> seg | None \<Rightarrow> input) in
         map_option (\<lambda>a. case a of
             AsinOk asin \<Rightarrow> Inr (if length candidate = 10 \<and> (\<exists>c \<in> set candidate. is_letter c) then Some asin else None)
           | _ \<Rightarrow> Inr None)
           (normalize_asin candidate))
      else if hinted = ISBN_13 then Some (Inr (normalize_isbn13 input))
      else Some (Inr None))"

definition classify_hinted :: "string \<Rightarrow> anchor_type \<Rightarrow> classified option" where
  "classify_hinted input hinted =
     Option.bind (hinted_value input hinted) (\<lambda>r.
       case r of
         Inl e \<Rightarrow> Some (Inl e)
       | Inr (Some v) \<Rightarrow> Some (Inr (hinted, v))
       | Inr None \<Rightarrow>
           map_option (\<lambda>c. case c of
               Inr (slot, v) \<Rightarrow> if slot = hinted then Inr (slot, v) else Inl (WrongSlot hinted slot)
             | Inl e \<Rightarrow> Inl e)
             (classify_free input))"

definition classify_identifier_input :: "string \<Rightarrow> anchor_type option \<Rightarrow> classified option" where
  "classify_identifier_input input hint =
     (let trimmed = trim input in
      if trimmed = [] then Some (Inl Unrecognized)
      else case hint of None \<Rightarrow> classify_free trimmed | Some hinted \<Rightarrow> classify_hinted trimmed hinted)"

section \<open>Seeds\<close>

record raw_harvest =
  rh_ol_key :: "string option"
  rh_gr_key :: "string option"
  rh_hc_key :: "string option"
  rh_isbn :: "string option"
  rh_asin :: "string option"
  rh_title :: "string option"
  rh_author_name :: "string option"
  rh_language :: "string option"
  rh_series_name :: "string option"
  rh_year :: "int option"
  rh_user_confirmed :: bool

record work_seed =
  ws_ol_key :: "string option"
  ws_gr_key :: "string option"
  ws_hc_key :: "string option"
  ws_isbn_13 :: "string option"
  ws_asin :: "string option"
  ws_title :: "string option"
  ws_author_name :: "string option"
  ws_language :: "string option"
  ws_series_name :: "string option"
  ws_year :: "int option"
  ws_user_confirmed :: bool

datatype seed_error = EmptySeed

definition not_blank :: "string option \<Rightarrow> string option" where
  "not_blank v = (case v of Some s \<Rightarrow> if trim s \<noteq> [] then Some s else None | None \<Rightarrow> None)"

definition seed_isbn_asin :: "string option \<Rightarrow> asin_norm option \<Rightarrow> string option \<times> string option" where
  "seed_isbn_asin isbn_from_field a =
     (case a of
        Some (AsinIsbn13 i13) \<Rightarrow> ((case isbn_from_field of Some i \<Rightarrow> Some i | None \<Rightarrow> Some i13), None)
      | Some (AsinOk asin) \<Rightarrow> (isbn_from_field, Some asin)
      | _ \<Rightarrow> (isbn_from_field, None))"

definition seed_of :: "(string \<Rightarrow> string) \<Rightarrow> raw_harvest \<Rightarrow> asin_norm option \<Rightarrow> seed_error + work_seed" where
  "seed_of lower raw a =
     (let (isbn_13, asin) = seed_isbn_asin (Option.bind (rh_isbn raw) normalize_isbn13) a;
          gr_key = Option.bind (rh_gr_key raw) normalize_gr_key;
          ol_key = not_blank (rh_ol_key raw);
          hc_key = not_blank (rh_hc_key raw);
          language = Option.bind (rh_language raw) (normalize_language_tag lower);
          has_identifier = (isbn_13 \<noteq> None \<or> asin \<noteq> None \<or> gr_key \<noteq> None \<or> ol_key \<noteq> None \<or> hc_key \<noteq> None);
          has_title_author = (rh_title raw \<noteq> None \<and> rh_author_name raw \<noteq> None)
      in if \<not> has_identifier \<and> \<not> has_title_author then Inl EmptySeed
         else Inr \<lparr>ws_ol_key = ol_key, ws_gr_key = gr_key, ws_hc_key = hc_key, ws_isbn_13 = isbn_13, ws_asin = asin,
                   ws_title = rh_title raw, ws_author_name = rh_author_name raw, ws_language = language,
                   ws_series_name = rh_series_name raw, ws_year = rh_year raw, ws_user_confirmed = rh_user_confirmed raw\<rparr>)"

definition sanitized :: "(string \<Rightarrow> string) \<Rightarrow> raw_harvest \<Rightarrow> (seed_error + work_seed) option" where
  "sanitized lower raw =
     (case rh_asin raw of
        None \<Rightarrow> Some (seed_of lower raw None)
      | Some a \<Rightarrow> map_option (\<lambda>n. seed_of lower raw (Some n)) (normalize_asin a))"

record captured_identity =
  ci_ol_key :: "string option"
  ci_gr_key :: "string option"
  ci_hc_key :: "string option"
  ci_isbn_13 :: "string option"
  ci_asin :: "string option"
  ci_title :: string
  ci_author_name :: string
  ci_language :: "string option"

definition fill :: "'a option \<Rightarrow> 'a option \<Rightarrow> 'a option" where
  "fill mine theirs = (case mine of None \<Rightarrow> theirs | Some v \<Rightarrow> Some v)"

definition merge_missing :: "captured_identity \<Rightarrow> captured_identity \<Rightarrow> captured_identity" where
  "merge_missing self incoming =
     self\<lparr>ci_ol_key := fill (ci_ol_key self) (ci_ol_key incoming),
          ci_gr_key := fill (ci_gr_key self) (ci_gr_key incoming),
          ci_hc_key := fill (ci_hc_key self) (ci_hc_key incoming),
          ci_isbn_13 := fill (ci_isbn_13 self) (ci_isbn_13 incoming),
          ci_asin := fill (ci_asin self) (ci_asin incoming)\<rparr>"

end
