(* ===== verification/IdentifierGuarantees.thy ===== *)
theory IdentifierGuarantees
  imports Identifiers
begin

text \<open>
  What holds of book identifiers: an accepted ISBN is valid, canonical and rejects every one-digit error; a classified
  identifier is canonical for its slot and a hint is never silently switched; which inputs
  make the classification panic.
\<close>

section \<open>Checksums\<close>

definition weight :: "nat \<Rightarrow> nat" where
  "weight i = (if i mod 2 = 0 then 1 else 3)"

lemma isbn13_sum_nth: "isbn13_sum s = (\<Sum>i < length s. weight i * to_digit (s ! i))"
  unfolding isbn13_sum_def sum_list_sum_nth length_map length_enumerate atLeast0LessThan
  by (rule sum.cong) (simp_all add: nth_enumerate_eq weight_def)

lemma isbn13_sum_snoc: "isbn13_sum (s @ [c]) = isbn13_sum s + weight (length s) * to_digit c"
proof -
  have "(\<Sum>i < length s. weight i * to_digit ((s @ [c]) ! i)) = (\<Sum>i < length s. weight i * to_digit (s ! i))"
    by (rule sum.cong) (simp_all add: nth_append)
  then show ?thesis by (simp add: isbn13_sum_nth)
qed

definition valid_isbn13 :: "string \<Rightarrow> bool" where
  "valid_isbn13 s \<longleftrightarrow> length s = 13 \<and> list_all is_digit s \<and> isbn13_sum s mod 10 = 0"

lemma digit_value: "is_digit c \<Longrightarrow> to_digit c < 10" "is_digit c \<Longrightarrow> is_digit d \<Longrightarrow> to_digit c = to_digit d \<longleftrightarrow> c = d"
proof -
  show "is_digit c \<Longrightarrow> to_digit c < 10" by (auto simp: is_digit_def to_digit_def)
  assume "is_digit c" "is_digit d"
  then have "to_digit c = to_digit d \<longleftrightarrow> (of_char c :: nat) = of_char d" unfolding is_digit_def to_digit_def by linarith
  then show "to_digit c = to_digit d \<longleftrightarrow> c = d" by simp
qed

lemma digit_char_facts: "d < 10 \<Longrightarrow> is_digit (digit_char d) \<and> to_digit (digit_char d) = d"
  by (simp add: digit_char_def is_digit_def to_digit_def)

lemma check_digit_completes: "(n + (10 - n mod 10) mod 10) mod 10 = (0::nat)"
  by (cases "n mod 10 = 0") (simp_all add: mod_add_eq [symmetric], presburger)

lemma digit_not_x: "is_digit c \<Longrightarrow> c \<noteq> CHR ''x'' \<and> is_alnum c"
  by (auto simp: is_digit_def is_alnum_def)

lemma cleaned_digits: "list_all is_digit s \<Longrightarrow> map (\<lambda>c. if c = CHR ''x'' then CHR ''X'' else c) (filter is_alnum s) = s"
  by (induction s) (auto dest: digit_not_x)

lemma valid_is_canonical: "valid_isbn13 s \<Longrightarrow> normalize_isbn13 s = Some s"
  by (simp add: valid_isbn13_def normalize_isbn13_def Let_def cleaned_digits)

lemma normalized_is_valid:
  assumes "normalize_isbn13 raw = Some t"
  shows "valid_isbn13 t"
proof -
  define cleaned where "cleaned = map (\<lambda>c. if c = CHR ''x'' then CHR ''X'' else c) (filter is_alnum raw)"
  consider "length cleaned = 10" | "length cleaned = 13"
    using assms by (auto simp: normalize_isbn13_def Let_def cleaned_def split: if_splits)
  then show ?thesis
  proof cases
    case 1
    define prefix where "prefix = ''978'' @ take 9 cleaned"
    define check where "check = (10 - isbn13_sum prefix mod 10) mod 10"
    have t: "t = prefix @ [digit_char check]" and body: "list_all is_digit (take 9 cleaned)"
      using assms 1 by (auto simp: normalize_isbn13_def Let_def cleaned_def [symmetric] prefix_def check_def split: if_splits)
    have len: "length prefix = 12" using 1 by (simp add: prefix_def)
    have "check < 10" by (simp add: check_def)
    then have "is_digit (digit_char check)" "to_digit (digit_char check) = check" using digit_char_facts by simp_all
    moreover have "list_all is_digit prefix" using body by (simp add: prefix_def is_digit_def)
    moreover have "isbn13_sum t mod 10 = 0"
      using \<open>to_digit (digit_char check) = check\<close> check_digit_completes [of "isbn13_sum prefix"]
      by (simp add: t isbn13_sum_snoc len weight_def check_def)
    ultimately show ?thesis using len by (simp add: valid_isbn13_def t)
  next
    case 2
    then show ?thesis
      using assms by (auto simp: normalize_isbn13_def Let_def cleaned_def [symmetric] valid_isbn13_def split: if_splits)
  qed
qed

lemma one_digit_sum:
  assumes "i < length s"
  shows "isbn13_sum (s[i := d]) + weight i * to_digit (s ! i) = isbn13_sum s + weight i * to_digit d"
proof -
  have split: "(\<Sum>j < length s. f j) = f i + (\<Sum>j \<in> {..<length s} - {i}. f j)" for f :: "nat \<Rightarrow> nat"
    using assms by (simp add: sum.remove [of "{..<length s}" i])
  have "(\<Sum>j \<in> {..<length s} - {i}. weight j * to_digit (s[i := d] ! j)) = (\<Sum>j \<in> {..<length s} - {i}. weight j * to_digit (s ! j))"
    by (rule sum.cong) auto
  then show ?thesis
    using split [of "\<lambda>j. weight j * to_digit (s[i := d] ! j)"] split [of "\<lambda>j. weight j * to_digit (s ! j)"] assms
    by (simp add: isbn13_sum_nth)
qed

lemma weight_cancel:
  assumes "a < 10" "b < 10" "(weight i * a) mod 10 = (weight i * b) mod (10::nat)"
  shows "a = b"
proof -
  define inv where "inv = (if i mod 2 = 0 then 1 else 7 :: nat)"
  have undo: "(inv * ((weight i * x) mod 10)) mod 10 = x" if "x < 10" for x
  proof -
    have "(inv * ((weight i * x) mod 10)) mod 10 = (x + 10 * (if i mod 2 = 0 then 0 else 2 * x)) mod 10"
    proof (cases "i mod 2 = 0")
      case False
      have "7 * (3 * x) = x + 10 * (2 * x)" by simp
      then have "7 * (3 * x mod 10) mod 10 = (x + 10 * (2 * x)) mod 10" by (metis mod_mult_right_eq)
      then show ?thesis using False by (simp add: inv_def weight_def)
    qed (simp add: inv_def weight_def)
    also have "\<dots> = x" by (subst mod_mult_self2) (rule mod_less [OF that])
    finally show ?thesis .
  qed
  show ?thesis by (metis undo [OF assms(1)] undo [OF assms(2)] assms(3))
qed

lemma one_digit_error:
  assumes "valid_isbn13 s" and "i < 13" and "is_digit d" and "d \<noteq> s ! i"
  shows "normalize_isbn13 (s[i := d]) = None"
proof -
  have s: "length s = 13" "list_all is_digit s" "isbn13_sum s mod 10 = 0" using assms(1) by (simp_all add: valid_isbn13_def)
  have digits: "list_all is_digit (s[i := d])"
    using s(2) assms(3) by (auto simp: list_all_iff dest: set_update_subset_insert [THEN subsetD])
  have si: "is_digit (s ! i)" using s(1,2) assms(2) by (simp add: list_all_length)
  have "isbn13_sum (s[i := d]) mod 10 \<noteq> 0"
  proof
    assume z: "isbn13_sum (s[i := d]) mod 10 = 0"
    have sum: "isbn13_sum (s[i := d]) + weight i * to_digit (s ! i) = isbn13_sum s + weight i * to_digit d"
      using one_digit_sum [of i s d] assms(2) s(1) by simp
    have "(weight i * to_digit (s ! i)) mod 10 = (isbn13_sum (s[i := d]) + weight i * to_digit (s ! i)) mod 10"
      using z by (metis add_0 mod_add_left_eq)
    also have "\<dots> = (isbn13_sum s + weight i * to_digit d) mod 10" by (simp only: sum)
    also have "\<dots> = (weight i * to_digit d) mod 10" using s(3) by (metis add_0 mod_add_left_eq)
    finally have "to_digit (s ! i) = to_digit d"
      using weight_cancel [of "to_digit (s ! i)" "to_digit d" i] digit_value(1) si assms(3) by simp
    then show False using digit_value(2) [OF si assms(3)] assms(4) by simp
  qed
  then show ?thesis using s(1) digits by (simp add: normalize_isbn13_def Let_def cleaned_digits)
qed

text \<open>
  C28 (roundtrip): Every accepted ISBN normalises to a valid ISBN-13, which is a fixed point of the normalisation, and no change of one
  digit of it is accepted.
\<close>

theorem isbn_normal_form_is_stable_and_detects_errors:
  assumes "normalize_isbn13 raw = Some t"
  shows "valid_isbn13 t \<and> normalize_isbn13 t = Some t
    \<and> (\<forall>i < 13. \<forall>d. is_digit d \<and> d \<noteq> t ! i \<longrightarrow> normalize_isbn13 (t[i := d]) = None)"
  using normalized_is_valid [OF assms] valid_is_canonical one_digit_error by blast

theorem isbn_normal_form_is_stable_and_detects_errors_witness:
  "normalize_isbn13 ''0-441-17271-7'' = Some ''9780441172719'' \<and> normalize_isbn13 ''9780441172718'' = None"
proof
  show n: "normalize_isbn13 ''0-441-17271-7'' = Some ''9780441172719''"
    by (simp add: normalize_isbn13_def is_alnum_def is_digit_def is_letter_def isbn10_sum_def isbn13_sum_def to_digit_def digit_char_def
        Let_def char_of_eq_iff)
  have "normalize_isbn13 (''9780441172719''[12 := CHR ''8'']) = None"
    using isbn_normal_form_is_stable_and_detects_errors [OF n, THEN conjunct2, THEN conjunct2, rule_format, of 12 "CHR ''8''"]
    by (simp add: is_digit_def)
  then show "normalize_isbn13 ''9780441172718'' = None" by simp
qed


section \<open>Canonical values\<close>

lemma letter_bytes: "is_alnum c \<Longrightarrow> (of_char c :: nat) < 128 \<and> (of_char c :: nat) > 32"
  by (auto simp: is_alnum_def is_digit_def is_letter_def)

lemma ws_len_ascii: "a < 128 \<Longrightarrow> 32 < a \<Longrightarrow> ws_len (a # r) = 0"
  by simp

lemma trim_start_ascii: "list_all is_alnum s \<Longrightarrow> trim_start s = s"
proof (cases s)
  case (Cons c cs)
  assume "list_all is_alnum s"
  then have "ws_len (bytes s) = 0" using letter_bytes [of c] Cons by (simp add: bytes_def)
  then show ?thesis by (simp add: trim_start.simps [of s])
qed simp

lemma ws_len_end_ascii: "list_all is_alnum s \<Longrightarrow> ws_len_end s = 0"
proof -
  assume alnum: "list_all is_alnum s"
  have "ws_len (drop k (bytes s)) = 0" for k
  proof (cases "drop k (bytes s)")
    case (Cons a r)
    then have "a \<in> set (bytes s)" by (metis in_set_dropD list.set_intros(1))
    then obtain c where "c \<in> set s" "a = of_char c" by (auto simp: bytes_def)
    then have "a < 128" "32 < a" using alnum letter_bytes [of c] by (simp_all add: list_all_iff)
    then show ?thesis using ws_len_ascii Cons by simp
  qed simp
  then show ?thesis by (simp add: ws_len_end_def Let_def)
qed

lemma trim_ascii: "list_all is_alnum s \<Longrightarrow> trim s = s"
  by (simp add: trim_def trim_start_ascii trim_end.simps [of s] ws_len_end_ascii)

lemma upper_upper: "ascii_upper (ascii_upper c) = ascii_upper c"
proof (cases "97 \<le> (of_char c :: nat) \<and> (of_char c :: nat) \<le> 122")
  case True
  then have "((of_char c :: nat) - 32) mod 256 = of_char c - 32" by (intro mod_less) linarith
  then have "of_char (ascii_upper c) = (of_char c :: nat) - 32" using True by (simp add: ascii_upper_def)
  moreover have "\<not> 97 \<le> (of_char c :: nat) - 32" using True by linarith
  ultimately show ?thesis by (simp add: ascii_upper_def [of "ascii_upper c"])
qed (auto simp: ascii_upper_def)

lemma alnum_boundary: "list_all is_alnum s \<Longrightarrow> i \<le> length s \<Longrightarrow> is_char_boundary s i"
  using letter_bytes [of "s ! i"] by (cases "i < length s") (auto simp: is_char_boundary_def list_all_length)

definition canonical_asin :: "string \<Rightarrow> bool" where
  "canonical_asin v \<longleftrightarrow> length v = 10 \<and> list_all is_alnum v \<and> to_ascii_uppercase v = v \<and> normalize_asin v = Some (AsinOk v)"

lemma asin_alnum:
  assumes "normalize_asin raw = Some (AsinOk v)"
  shows "length v = 10 \<and> list_all is_alnum v \<and> to_ascii_uppercase v = v"
proof -
  define s where "s = to_ascii_uppercase (trim raw)"
  have v: "v = s" "length s = 10"
    and shape: "list_all is_digit (take 9 s) \<and> (is_digit (s ! 9) \<or> s ! 9 = CHR ''X'') \<or> list_all is_alnum s"
    using assms by (auto simp: normalize_asin_def s_def [symmetric] Let_def split: if_splits option.splits)
  have "list_all is_alnum s"
  proof (cases "list_all is_alnum s")
    case False
    then have s: "list_all is_digit (take 9 s)" "is_digit (s ! 9) \<or> s ! 9 = CHR ''X''" using shape by auto
    have "s = take 9 s @ [s ! 9]" using v(2) by (simp add: take_Suc_conv_app_nth [of 9 s, symmetric])
    moreover have "is_alnum (s ! 9)" using s(2) by (auto simp: is_alnum_def is_letter_def)
    moreover have "list_all is_alnum (take 9 s)" using s(1) by (auto simp: list_all_iff is_alnum_def)
    ultimately show ?thesis by (metis list.pred_inject list_all_append)
  qed simp
  then show ?thesis using v by (simp add: s_def to_ascii_uppercase_def upper_upper)
qed

lemma asin_canonical:
  assumes "normalize_asin raw = Some (AsinOk v)"
  shows "canonical_asin v"
proof -
  have a: "length v = 10" "list_all is_alnum v" "to_ascii_uppercase v = v" using asin_alnum [OF assms] by simp_all
  have eval: "normalize_asin v =
      (if list_all is_digit (take 9 v) \<and> (is_digit (v ! 9) \<or> v ! 9 = CHR ''X'')
       then Some (case normalize_isbn13 v of Some isbn13 \<Rightarrow> AsinIsbn13 isbn13 | None \<Rightarrow> AsinOk v) else Some (AsinOk v))"
    using a alnum_boundary [OF a(2), of 9] trim_ascii [OF a(2)] by (auto simp: normalize_asin_def Let_def)
  moreover have "normalize_isbn13 v = None" if "list_all is_digit (take 9 v) \<and> (is_digit (v ! 9) \<or> v ! 9 = CHR ''X'')"
    using assms that by (auto simp: normalize_asin_def Let_def split: if_splits option.splits)
  ultimately have "normalize_asin v = Some (AsinOk v)" by simp
  then show ?thesis using a by (simp add: canonical_asin_def)
qed

lemma asin_isbn_valid: "normalize_asin raw = Some (AsinIsbn13 i) \<Longrightarrow> valid_isbn13 i"
  using normalized_is_valid by (auto simp: normalize_asin_def Let_def split: if_splits option.splits)

lemma gr_key_digits: "normalize_gr_key raw = Some k \<Longrightarrow> k \<noteq> [] \<and> list_all is_digit k"
  by (auto simp: normalize_gr_key_def Let_def list_all_iff dest: set_takeWhileD split: if_splits)

definition canonical_ol :: "string \<Rightarrow> bool" where
  "canonical_ol v \<longleftrightarrow> (\<exists>ds. ds \<noteq> [] \<and> list_all is_digit ds \<and> v = ''OL'' @ ds @ ''W'')"

lemma ol_work_canonical: "ol_key_kind c = Some (OlWork k) \<Longrightarrow> canonical_ol k"
proof -
  assume a: "ol_key_kind c = Some (OlWork k)"
  define upper where "upper = to_ascii_uppercase c"
  define ds where "ds = take (length (drop 2 upper) - 1) (drop 2 upper)"
  have k: "k = upper" "starts_with ''OL'' upper" "ds \<noteq> []" "list_all is_digit ds"
      "drop (length (drop 2 upper) - 1) (drop 2 upper) = ''W''"
    using a by (auto simp: ol_key_kind_def Let_def upper_def ds_def split: if_splits)
  have "upper = ''OL'' @ drop 2 upper"
    using k(2) append_take_drop_id [of 2 upper] by (simp add: starts_with_def numeral_2_eq_2)
  also have "drop 2 upper = ds @ ''W''"
    unfolding ds_def k(5) [symmetric] by (rule append_take_drop_id [symmetric])
  finally show ?thesis using k by (auto simp: canonical_ol_def)
qed

definition canonical_value :: "anchor_type \<Rightarrow> string \<Rightarrow> bool" where
  "canonical_value slot v \<longleftrightarrow>
     slot = GR_WORK \<and> v \<noteq> [] \<and> list_all is_digit v \<or> slot = ISBN_13 \<and> valid_isbn13 v
     \<or> slot = ASIN \<and> canonical_asin v \<or> slot = OL_WORK \<and> canonical_ol v"

lemma canonical_values:
  "normalize_gr_key raw = Some k \<Longrightarrow> canonical_value GR_WORK k"
  "normalize_isbn13 raw = Some k \<Longrightarrow> canonical_value ISBN_13 k"
  "normalize_asin raw = Some (AsinOk k) \<Longrightarrow> canonical_value ASIN k"
  "normalize_asin raw = Some (AsinIsbn13 k) \<Longrightarrow> canonical_value ISBN_13 k"
  "ol_key_kind raw = Some (OlWork k) \<Longrightarrow> canonical_value OL_WORK k"
  using gr_key_digits normalized_is_valid asin_canonical asin_isbn_valid ol_work_canonical
  by (simp_all add: canonical_value_def)

lemma classify_url_canonical: "classify_url input = Some (Inr (Some (slot, v))) \<Longrightarrow> canonical_value slot v"
proof -
  have asin: "canonical_value slot v" if "normalize_asin seg = Some a" "(case a of AsinOk asin \<Rightarrow> Inr (Some (ASIN, asin))
      | AsinIsbn13 isbn \<Rightarrow> Inr (Some (ISBN_13, isbn)) | AsinInvalid \<Rightarrow> Inl Unrecognized) = Inr (Some (slot, v))" for seg a
    using that canonical_values by (cases a) auto
  have ol: "canonical_value slot v" if "ol_key_kind seg = Some k" "(case k of OlWork key \<Rightarrow> Inr (Some (OL_WORK, key))
      | OlEdition \<Rightarrow> Inl EditionKey | NotOl \<Rightarrow> Inl Unrecognized) = Inr (Some (slot, v))" for seg k
    using that canonical_values by (cases k) auto
  assume "classify_url input = Some (Inr (Some (slot, v)))"
  then show ?thesis
    by (auto simp: classify_url_def split: option.splits dest: asin ol intro: canonical_values)
qed

lemma bare_asin_canonical: "classify_bare_asin input = Some (Inr (slot, v)) \<Longrightarrow> canonical_value slot v"
proof -
  have asin: "canonical_value slot v" if "normalize_asin seg = Some a" "(case a of AsinOk asin \<Rightarrow> Inr (ASIN, asin)
      | AsinIsbn13 isbn \<Rightarrow> Inr (ISBN_13, isbn) | AsinInvalid \<Rightarrow> Inl Unrecognized) = Inr (slot, v)" for seg a
    using that canonical_values by (cases a) auto
  assume "classify_bare_asin input = Some (Inr (slot, v))"
  then show ?thesis by (auto simp: classify_bare_asin_def split: if_splits dest: asin)
qed

lemma classify_free_canonical:
  assumes "classify_free input = Some (Inr (slot, v))"
  shows "canonical_value slot v"
proof -
  obtain u where u: "classify_url input = Some u" using assms by (cases "classify_url input") (auto simp: classify_free_def)
  show ?thesis
  proof (cases "normalize_isbn13 input")
    case None
    have ol: "canonical_value slot v"
      if "ol_key_kind input = Some k" "(case k of OlWork key \<Rightarrow> Some (Inr (OL_WORK, key)) | OlEdition \<Rightarrow> Some (Inl EditionKey)
          | NotOl \<Rightarrow> classify_bare_asin input) = Some (Inr (slot, v))" for k
      using that canonical_values bare_asin_canonical by (cases k) auto
    show ?thesis
      using assms u None classify_url_canonical [of input]
      by (auto simp: classify_free_def bind_eq_Some_conv split: sum.splits option.splits if_splits
          dest: ol intro: canonical_values)
  next
    case (Some isbn)
    then show ?thesis
      using assms u classify_url_canonical [of input]
      by (auto simp: classify_free_def split: sum.splits option.splits intro: canonical_values)
  qed
qed

lemma hinted_canonical:
  assumes "hinted_value input hinted = Some (Inr (Some v))"
  shows "canonical_value hinted v"
proof -
  have asin: "canonical_value ASIN v" if "normalize_asin c = Some a" "(case a of
       AsinOk asin \<Rightarrow> Inr (if P then Some asin else None) | _ \<Rightarrow> Inr None) = (Inr (Some v) :: classify_error + string option)" for c a P
    using that canonical_values by (cases a) (auto split: if_splits)
  have ol: "canonical_value OL_WORK v" if "ol_key_kind c = Some k" "(case k of OlWork key \<Rightarrow> Inr (Some key)
      | OlEdition \<Rightarrow> Inl EditionKey | NotOl \<Rightarrow> Inr None) = Inr (Some v)" for c k
    using that canonical_values by (cases k) auto
  show ?thesis
    using assms
    by (auto simp: hinted_value_def Let_def split: if_splits dest: asin ol)
      (auto simp: bind_eq_Some_conv split: option.splits if_splits intro: canonical_values)
qed

lemma classify_hinted_canonical:
  "classify_hinted input hinted = Some (Inr (slot, v)) \<Longrightarrow> slot = hinted \<and> canonical_value slot v"
proof -
  assume a: "classify_hinted input hinted = Some (Inr (slot, v))"
  then obtain r where r: "hinted_value input hinted = Some r" by (cases "hinted_value input hinted") (auto simp: classify_hinted_def)
  have free: "slot = hinted \<and> canonical_value slot v" if "classify_free input = Some c" "(case c of
      Inr (slot, v) \<Rightarrow> if slot = hinted then Inr (slot, v) else Inl (WrongSlot hinted slot) | Inl e \<Rightarrow> Inl e) = Inr (slot, v)" for c
    using that classify_free_canonical by (cases c) (auto split: if_splits)
  show ?thesis
  proof (cases r)
    case (Inr w)
    then show ?thesis using a r free hinted_canonical by (cases w) (auto simp: classify_hinted_def)
  qed (use a r in \<open>simp add: classify_hinted_def\<close>)
qed

text \<open>
  A pasted identifier that is accepted comes back canonical for its slot: digits for Goodreads, a valid ISBN-13, a ten-character
  upper-case ASIN that is no ISBN, an OpenLibrary work key; and with a hint the slot is the hinted one, never
  silently another.
\<close>

theorem classified_identifiers_are_canonical:
  assumes "classify_identifier_input input hint = Some (Inr (slot, v))"
  shows "canonical_value slot v \<and> (\<forall>h. hint = Some h \<longrightarrow> slot = h)"
  using assms classify_free_canonical classify_hinted_canonical
  by (auto simp: classify_identifier_input_def Let_def split: if_splits option.splits)

theorem classified_identifiers_are_canonical_witness:
  "classify_identifier_input '' ol7w'' (Some OL_WORK) = Some (Inr (OL_WORK, ''OL7W'')) \<and> canonical_value OL_WORK ''OL7W''"
proof
  show c: "classify_identifier_input '' ol7w'' (Some OL_WORK) = Some (Inr (OL_WORK, ''OL7W''))"
    by code_simp
  show "canonical_value OL_WORK ''OL7W''" using classified_identifiers_are_canonical [OF c] by blast
qed

section \<open>Panics\<close>

definition ascii :: "string \<Rightarrow> bool" where
  "ascii s \<longleftrightarrow> (\<forall>c \<in> set s. (of_char c :: nat) < 128)"

lemma ascii_subset: "set t \<subseteq> set s \<Longrightarrow> ascii s \<Longrightarrow> ascii t"
  by (auto simp: ascii_def)

lemma ascii_boundary: "ascii s \<Longrightarrow> i \<le> length s \<Longrightarrow> is_char_boundary s i"
  by (cases "i < length s") (auto simp: is_char_boundary_def ascii_def dest!: bspec [of _ _ "s ! i"])

lemma set_trim_start: "set (trim_start s) \<subseteq> set s"
proof (induction s rule: trim_start.induct)
  case (1 s)
  then show ?case
    by (subst trim_start.simps) (auto simp: Let_def dest: in_set_dropD)
qed

lemma set_trim_end: "set (trim_end s) \<subseteq> set s"
proof (induction s rule: trim_end.induct)
  case (1 s)
  then show ?case
    by (subst trim_end.simps) (auto simp: Let_def dest: in_set_takeD)
qed

lemma ascii_trim: "ascii s \<Longrightarrow> ascii (trim s)"
  using set_trim_start [of s] set_trim_end [of "trim_start s"] by (auto simp: trim_def intro: ascii_subset)

lemma ascii_upper_ascii: "ascii s \<Longrightarrow> ascii (to_ascii_uppercase s)"
  by (auto simp: ascii_def to_ascii_uppercase_def ascii_upper_def)

lemma asin_total: "ascii raw \<Longrightarrow> normalize_asin raw \<noteq> None"
  using ascii_boundary [OF ascii_upper_ascii [OF ascii_trim], of raw 9]
  by (auto simp: normalize_asin_def Let_def)

lemma ol_total: "ascii c \<Longrightarrow> ol_key_kind c \<noteq> None"
proof -
  assume "ascii c"
  then have "ascii (drop 2 (to_ascii_uppercase c))" using ascii_upper_ascii ascii_subset set_drop_subset by metis
  then show ?thesis
    using ascii_boundary [of "drop 2 (to_ascii_uppercase c)"] by (auto simp: ol_key_kind_def Let_def)
qed

lemma set_first_segment: "first_segment input path n ms = Some seg \<Longrightarrow> set seg \<subseteq> set input"
  by (induction ms) (auto simp: Let_def dest!: in_set_takeD in_set_dropD split: option.splits if_splits)

lemma ascii_segment: "ascii input \<Longrightarrow> url_segment input host ms = Some seg \<Longrightarrow> ascii seg"
proof -
  assume a: "ascii input" and "url_segment input host ms = Some seg"
  then obtain path n where "first_segment input path n ms = Some seg"
    by (auto simp: url_segment_def Let_def split: option.splits if_splits)
  then show ?thesis using set_first_segment ascii_subset a by blast
qed

lemma classify_free_total: "ascii input \<Longrightarrow> classify_free input \<noteq> None"
proof -
  assume a: "ascii input"
  have "classify_url input \<noteq> None"
    by (auto simp: classify_url_def split: option.split dest: ascii_segment [OF a] ol_total asin_total)
  moreover have "classify_bare_asin input \<noteq> None" using asin_total [OF a] by (simp add: classify_bare_asin_def)
  ultimately show ?thesis
    using ol_total [OF a] by (auto simp: classify_free_def split: sum.split option.split ol_key_kind_t.split)
qed

lemma hinted_total: "ascii input \<Longrightarrow> hinted_value input hinted \<noteq> None"
  by (auto simp: hinted_value_def Let_def split: option.splits dest: ascii_segment ol_total asin_total)

lemma classify_hinted_total: "ascii input \<Longrightarrow> classify_hinted input hinted \<noteq> None"
  using classify_free_total [of input] hinted_total [of input hinted]
  by (auto simp: classify_hinted_def split: sum.split option.split)

text \<open>
  C29 (error): On ASCII input the classification always returns. It does not on every string: an OpenLibrary key that ends in a
  two-byte character, and with an ASIN hint eight letters and such a character, cut a character and panic.
\<close>

theorem classification_panics_only_outside_ascii:
  "(ascii input \<longrightarrow> classify_identifier_input input hint \<noteq> None)
   \<and> classify_identifier_input (''OL1'' @ [char_of (195 :: nat), char_of (169 :: nat)]) None = None
   \<and> classify_identifier_input (''ABCDEFGH'' @ [char_of (195 :: nat), char_of (169 :: nat)]) (Some ASIN) = None"
proof (intro conjI impI)
  assume "ascii input"
  then have "ascii (trim input)" by (rule ascii_trim)
  then show "classify_identifier_input input hint \<noteq> None"
    using classify_free_total classify_hinted_total by (simp add: classify_identifier_input_def Let_def split: option.split)
qed code_simp+

theorem classification_panics_only_outside_ascii_witness:
  "classify_identifier_input ''OL1'' (Some GR_WORK) \<noteq> None"
  using classification_panics_only_outside_ascii [of "''OL1''" "Some GR_WORK"] by (simp add: ascii_def)

end
