(* ===== verification/Accounts.thy ===== *)
theory Accounts
  imports Titles
begin

text \<open>
  The tables of users and sessions and every statement on them (\<^verbatim>\<open>livrarr-db/src/sqlite_user.rs\<close>,
  \<^verbatim>\<open>sqlite_session.rs\<close>, schema in migration 001).

  Each statement is a function from the tables to the tables and a result. The unique index on the
  lower-cased user name, the unique API key hash, the primary key of sessions, their foreign key and its cascade are
  part of the statements they guard. SQLite's \<^verbatim>\<open>LOWER\<close> maps ASCII only. Times are nanoseconds; the stored
  RFC 3339 texts compare like the times.
\<close>

section \<open>Rows\<close>

datatype user_role = RoleAdmin | RoleUser

record user =
  us_id :: int
  us_username :: utext
  us_password_hash :: utext
  us_role :: user_role
  us_api_key_hash :: utext
  us_setup_pending :: bool
  us_created_at :: int
  us_updated_at :: int

record session =
  se_token_hash :: utext
  se_user_id :: int
  se_persistent :: bool
  se_created_at :: int
  se_expires_at :: int

record accounts_db =
  db_users :: "user list"
  db_sessions :: "session list"
  db_next_user_id :: int

datatype db_error = DbNotFound | DbConstraint | DbLastAdmin | DbIo

type_synonym 'a db_result = "accounts_db \<times> (db_error + 'a)"

definition same_username :: "utext \<Rightarrow> utext \<Rightarrow> bool" where
  "same_username a b \<longleftrightarrow> text_ascii_lower a = text_ascii_lower b"

text \<open>A row that would break one of the two unique indexes of the user table.\<close>

definition violates_unique :: "user list \<Rightarrow> user \<Rightarrow> bool" where
  "violates_unique users u \<longleftrightarrow>
     (\<exists>v \<in> set users. us_id v \<noteq> us_id u
        \<and> (same_username (us_username v) (us_username u) \<or> us_api_key_hash v = us_api_key_hash u))"

definition replace_user :: "user \<Rightarrow> accounts_db \<Rightarrow> accounts_db" where
  "replace_user u db = db\<lparr>db_users := map (\<lambda>v. if us_id v = us_id u then u else v) (db_users db)\<rparr>"

section \<open>Users\<close>

definition get_user :: "accounts_db \<Rightarrow> int \<Rightarrow> db_error + user" where
  "get_user db uid = (case find (\<lambda>u. us_id u = uid) (db_users db) of Some u \<Rightarrow> Inr u | None \<Rightarrow> Inl DbNotFound)"

definition get_user_by_username :: "accounts_db \<Rightarrow> utext \<Rightarrow> db_error + user" where
  "get_user_by_username db username =
     (case find (\<lambda>u. same_username (us_username u) username) (db_users db) of Some u \<Rightarrow> Inr u | None \<Rightarrow> Inl DbNotFound)"

definition get_user_by_api_key_hash :: "accounts_db \<Rightarrow> utext \<Rightarrow> db_error + user" where
  "get_user_by_api_key_hash db hash =
     (case find (\<lambda>u. us_api_key_hash u = hash) (db_users db) of Some u \<Rightarrow> Inr u | None \<Rightarrow> Inl DbNotFound)"

definition list_users :: "accounts_db \<Rightarrow> user list" where
  "list_users db = sort_key us_id (db_users db)"

record create_user_db_request =
  cu_username :: utext
  cu_password_hash :: utext
  cu_role :: user_role
  cu_api_key_hash :: utext

definition create_user :: "int \<Rightarrow> create_user_db_request \<Rightarrow> accounts_db \<Rightarrow> user db_result" where
  "create_user now req db =
     (let u = \<lparr>us_id = db_next_user_id db, us_username = cu_username req, us_password_hash = cu_password_hash req,
               us_role = cu_role req, us_api_key_hash = cu_api_key_hash req, us_setup_pending = False,
               us_created_at = now, us_updated_at = now\<rparr>
      in if violates_unique (db_users db) u then (db, Inl DbConstraint)
         else
           let db' = db\<lparr>db_users := db_users db @ [u], db_next_user_id := db_next_user_id db + 1\<rparr>
           in (db', get_user db' (us_id u)))"

definition count_admins :: "accounts_db \<Rightarrow> nat" where
  "count_admins db = length (filter (\<lambda>u. us_role u = RoleAdmin) (db_users db))"

record update_user_db_request =
  uu_username :: "utext option"
  uu_password_hash :: "utext option"
  uu_role :: "user_role option"

definition coalesce :: "'a option \<Rightarrow> 'a \<Rightarrow> 'a" where
  "coalesce v old = (case v of Some x \<Rightarrow> x | None \<Rightarrow> old)"

text \<open>Which error a statement that touched no row reports.\<close>

definition untouched_error :: "accounts_db \<Rightarrow> int \<Rightarrow> db_error" where
  "untouched_error db uid = (case get_user db uid of Inr _ \<Rightarrow> DbLastAdmin | Inl _ \<Rightarrow> DbNotFound)"

definition update_user :: "int \<Rightarrow> int \<Rightarrow> update_user_db_request \<Rightarrow> accounts_db \<Rightarrow> user db_result" where
  "update_user now uid req db =
     (case find (\<lambda>u. us_id u = uid
                   \<and> (us_role u \<noteq> RoleAdmin \<or> coalesce (uu_role req) (us_role u) \<noteq> RoleUser \<or> count_admins db > 1)) (db_users db) of
        None \<Rightarrow> (db, Inl (untouched_error db uid))
      | Some u \<Rightarrow>
          (let u' = u\<lparr>us_username := coalesce (uu_username req) (us_username u),
                      us_password_hash := coalesce (uu_password_hash req) (us_password_hash u),
                      us_role := coalesce (uu_role req) (us_role u), us_updated_at := now\<rparr>
           in if violates_unique (db_users db) u' then (db, Inl DbConstraint)
              else let db' = replace_user u' db in (db', get_user db' uid)))"

definition delete_user :: "int \<Rightarrow> accounts_db \<Rightarrow> unit db_result" where
  "delete_user uid db =
     (case find (\<lambda>u. us_id u = uid \<and> (us_role u \<noteq> RoleAdmin \<or> count_admins db > 1)) (db_users db) of
        None \<Rightarrow> (db, Inl (untouched_error db uid))
      | Some u \<Rightarrow>
          (db\<lparr>db_users := filter (\<lambda>v. us_id v \<noteq> uid) (db_users db),
              db_sessions := filter (\<lambda>s. se_user_id s \<noteq> uid) (db_sessions db)\<rparr>, Inr ()))"

definition has_pending_setup :: "accounts_db \<Rightarrow> bool" where
  "has_pending_setup db \<longleftrightarrow> length (filter us_setup_pending (db_users db)) > 0"

record complete_setup_db_request =
  cs_username :: utext
  cs_password_hash :: utext
  cs_api_key_hash :: utext

text \<open>\<^verbatim>\<open>claim_setup\<close> is two statements; another writer may act between them.\<close>

definition claim_select :: "accounts_db \<Rightarrow> db_error + int" where
  "claim_select db =
     (case sort_key us_id (filter us_setup_pending (db_users db)) of u # _ \<Rightarrow> Inr (us_id u) | [] \<Rightarrow> Inl DbConstraint)"

definition claim_update :: "int \<Rightarrow> int \<Rightarrow> complete_setup_db_request \<Rightarrow> accounts_db \<Rightarrow> int db_result" where
  "claim_update now user_id req db =
     (case find (\<lambda>u. us_id u = user_id \<and> us_setup_pending u) (db_users db) of
        None \<Rightarrow> (db, Inl DbConstraint)
      | Some u \<Rightarrow>
          (let u' = u\<lparr>us_username := cs_username req, us_password_hash := cs_password_hash req,
                      us_api_key_hash := cs_api_key_hash req, us_setup_pending := False, us_updated_at := now\<rparr>
           in if violates_unique (db_users db) u' then (db, Inl DbConstraint) else (replace_user u' db, Inr user_id)))"

definition claim_setup :: "int \<Rightarrow> complete_setup_db_request \<Rightarrow> accounts_db \<Rightarrow> int db_result" where
  "claim_setup now req db =
     (case claim_select db of Inl e \<Rightarrow> (db, Inl e) | Inr user_id \<Rightarrow> claim_update now user_id req db)"

definition update_api_key_hash :: "int \<Rightarrow> int \<Rightarrow> utext \<Rightarrow> accounts_db \<Rightarrow> unit db_result" where
  "update_api_key_hash now user_id hash db =
     (case find (\<lambda>u. us_id u = user_id) (db_users db) of
        None \<Rightarrow> (db, Inl DbNotFound)
      | Some u \<Rightarrow>
          (let u' = u\<lparr>us_api_key_hash := hash, us_updated_at := now\<rparr>
           in if violates_unique (db_users db) u' then (db, Inl DbConstraint) else (replace_user u' db, Inr ())))"

section \<open>Sessions\<close>

definition get_session :: "int \<Rightarrow> accounts_db \<Rightarrow> utext \<Rightarrow> session option" where
  "get_session now db token_hash = find (\<lambda>s. se_token_hash s = token_hash \<and> se_expires_at s > now) (db_sessions db)"

definition create_session :: "session \<Rightarrow> accounts_db \<Rightarrow> unit db_result" where
  "create_session s db =
     (if (\<exists>t \<in> set (db_sessions db). se_token_hash t = se_token_hash s) \<or> (\<nexists>u. u \<in> set (db_users db) \<and> us_id u = se_user_id s)
      then (db, Inl DbConstraint)
      else (db\<lparr>db_sessions := db_sessions db @ [s]\<rparr>, Inr ()))"

definition delete_session :: "utext \<Rightarrow> accounts_db \<Rightarrow> accounts_db" where
  "delete_session token_hash db = db\<lparr>db_sessions := filter (\<lambda>s. se_token_hash s \<noteq> token_hash) (db_sessions db)\<rparr>"

definition extend_session :: "utext \<Rightarrow> int \<Rightarrow> accounts_db \<Rightarrow> accounts_db" where
  "extend_session token_hash new_expires_at db =
     db\<lparr>db_sessions := map (\<lambda>s. if se_token_hash s = token_hash then s\<lparr>se_expires_at := new_expires_at\<rparr> else s) (db_sessions db)\<rparr>"

definition delete_user_sessions :: "int \<Rightarrow> accounts_db \<Rightarrow> accounts_db \<times> nat" where
  "delete_user_sessions user_id db =
     (db\<lparr>db_sessions := filter (\<lambda>s. se_user_id s \<noteq> user_id) (db_sessions db)\<rparr>,
      length (filter (\<lambda>s. se_user_id s = user_id) (db_sessions db)))"

definition delete_expired_sessions :: "int \<Rightarrow> accounts_db \<Rightarrow> accounts_db \<times> nat" where
  "delete_expired_sessions now db =
     (db\<lparr>db_sessions := filter (\<lambda>s. \<not> se_expires_at s \<le> now) (db_sessions db)\<rparr>,
      length (filter (\<lambda>s. se_expires_at s \<le> now) (db_sessions db)))"

end
