(* ===== verification/Authentication.thy ===== *)
theory Authentication
  imports Accounts "HOL-Library.AList"
begin

text \<open>
  The authentication service (\<^verbatim>\<open>livrarr-server/src/auth_service.rs\<close>), the middleware that authenticates a request
  (\<^verbatim>\<open>middleware.rs\<close>) and the first-run setup token (\<^verbatim>\<open>setup_token.rs\<close>).

  Argon2, SHA-256 and the random source are the fields of \<open>auth_crypto\<close>; \<^const>\<open>None\<close> is their error. Each handler takes the
  readings of the clock it makes, in order, and the order in which the lock-out map is iterated.
  The parts of a handler between which another request can act are functions of their own; the handler
  composes them.
\<close>

section \<open>Service state\<close>

datatype auth_error =
  InvalidCredentials | AccountLocked | SetupCompleted | SetupTokenRejected | SetupRequired | CannotDeleteSelf | LastAdmin
  | UserNotFound | UsernameTaken | InvalidUsername string | InvalidPassword string | SessionExpired | Forbidden | AuthDb db_error

record auth_crypto =
  c_hash_password :: "utext \<Rightarrow> utext option"
  c_verify_password :: "utext \<Rightarrow> utext \<Rightarrow> bool option"
  c_generate_token :: "nat \<Rightarrow> utext option"
  c_hash_token :: "utext \<Rightarrow> utext option"

record setup_token =
  tok_value :: utext
  tok_file :: utext

datatype setup_token_state = TokenAbsent | TokenActive setup_token | TokenConsumed

record lockout_state =
  failures :: nat
  locked_until :: "int option"

type_synonym lockout_map = "(utext \<times> lockout_state) list"

record auth_service =
  as_db :: accounts_db
  as_lockouts :: lockout_map
  as_setup_token :: setup_token_state

definition MAX_LOCKOUT_ENTRIES :: nat where "MAX_LOCKOUT_ENTRIES = 10000"

definition EVICT_COUNT :: nat where "EVICT_COUNT = 1000"

definition minutes :: "int \<Rightarrow> int" where "minutes n = n * 60 * 1000000000"

definition hours :: "int \<Rightarrow> int" where "hours n = 60 * minutes n"

definition days :: "int \<Rightarrow> int" where "days n = 24 * hours n"

definition service_new :: "accounts_db \<Rightarrow> auth_service" where
  "service_new db = \<lparr>as_db = db, as_lockouts = [], as_setup_token = TokenAbsent\<rparr>"

definition with_setup_token :: "setup_token \<Rightarrow> auth_service \<Rightarrow> auth_service" where
  "with_setup_token token svc = svc\<lparr>as_setup_token := TokenActive token\<rparr>"

section \<open>Setup token\<close>

definition TOKEN_HEX_LEN :: nat where "TOKEN_HEX_LEN = 32"

definition is_well_formed :: "utext \<Rightarrow> bool" where
  "is_well_formed token \<longleftrightarrow>
     length token = TOKEN_HEX_LEN \<and> list_all (\<lambda>b. 48 \<le> b \<and> b \<le> 57 \<or> 97 \<le> b \<and> b \<le> 102) token"

text \<open>
  What is found at the token path: a regular file with its contents as UTF-8 bytes, or anything else. The file is read
  up to one byte more than a token is long.
\<close>

datatype token_path = RegularFile utext | OtherEntry | NoEntry

definition reusable_token :: "token_path \<Rightarrow> utext option" where
  "reusable_token entry =
     (case entry of
        RegularFile contents \<Rightarrow>
          (let token = take (TOKEN_HEX_LEN + 1) contents in if is_well_formed token then Some token else None)
      | _ \<Rightarrow> None)"

text \<open>\<open>generated\<close> is the fresh token, \<open>written\<close> whether the private write and rename succeeded.\<close>

definition issue_setup_token :: "utext \<Rightarrow> token_path \<Rightarrow> utext option \<Rightarrow> bool \<Rightarrow> setup_token option" where
  "issue_setup_token path entry generated written =
     (case (case reusable_token entry of Some value \<Rightarrow> Some value | None \<Rightarrow> generated) of
        None \<Rightarrow> None
      | Some value \<Rightarrow> if written then Some \<lparr>tok_value = value, tok_file = path\<rparr> else None)"

text \<open>
  The start of the service. \<^const>\<open>None\<close>: the process exits because no token could be issued.
\<close>

definition prepare_setup_token ::
  "accounts_db \<Rightarrow> utext \<Rightarrow> token_path \<Rightarrow> utext option \<Rightarrow> bool \<Rightarrow> setup_token option option" where
  "prepare_setup_token db path entry generated written =
     (if \<not> has_pending_setup db then Some None
      else map_option Some (issue_setup_token path entry generated written))"

definition build_db_and_auth :: "accounts_db \<Rightarrow> setup_token option \<Rightarrow> auth_service" where
  "build_db_and_auth db token =
     (case token of Some t \<Rightarrow> with_setup_token t (service_new db) | None \<Rightarrow> service_new db)"

definition check_setup_token :: "setup_token_state \<Rightarrow> utext option \<Rightarrow> auth_error option" where
  "check_setup_token state offered =
     (case state of
        TokenConsumed \<Rightarrow> Some SetupCompleted
      | TokenAbsent \<Rightarrow> Some SetupTokenRejected
      | TokenActive token \<Rightarrow>
          (let offered = (case offered of Some s \<Rightarrow> text_trim s | None \<Rightarrow> [])
           in if offered = [] \<or> offered \<noteq> tok_value token then Some SetupTokenRejected else None))"

definition consume_setup_token :: "auth_service \<Rightarrow> auth_service" where
  "consume_setup_token svc = svc\<lparr>as_setup_token := TokenConsumed\<rparr>"

section \<open>Validation\<close>

definition validate_username :: "text_env \<Rightarrow> utext \<Rightarrow> auth_error option" where
  "validate_username env username =
     (if utf8_len username < 3 then Some (InvalidUsername ''minimum 3 characters'')
      else if utf8_len username > 50 then Some (InvalidUsername ''maximum 50 characters'')
      else if \<not> list_all (\<lambda>c. u_is_alphanumeric env c \<or> c = 95 \<or> c = 45) username
      then Some (InvalidUsername ''only alphanumeric, underscore, and hyphen allowed'')
      else None)"

definition validate_password :: "utext \<Rightarrow> auth_error option" where
  "validate_password password =
     (if length password < 8 then Some (InvalidPassword ''minimum 8 characters'')
      else if utf8_len password > 1024 then Some (InvalidPassword ''maximum 1024 characters'')
      else None)"

definition validate_optional :: "('a \<Rightarrow> auth_error option) \<Rightarrow> 'a option \<Rightarrow> auth_error option" where
  "validate_optional check v = (case v of Some x \<Rightarrow> check x | None \<Rightarrow> None)"

record user_response =
  ur_id :: int
  ur_username :: utext
  ur_role :: user_role
  ur_created_at :: int
  ur_updated_at :: int

definition user_to_response :: "user \<Rightarrow> user_response" where
  "user_to_response u = \<lparr>ur_id = us_id u, ur_username = us_username u, ur_role = us_role u,
     ur_created_at = us_created_at u, ur_updated_at = us_updated_at u\<rparr>"

section \<open>Lock-out\<close>

definition evictable :: "int \<Rightarrow> lockout_map \<Rightarrow> utext \<Rightarrow> bool" where
  "evictable now lockouts key \<longleftrightarrow>
     (case map_of lockouts key of
        Some s \<Rightarrow> (case locked_until s of None \<Rightarrow> True | Some t \<Rightarrow> t \<le> now)
      | None \<Rightarrow> False)"

definition evict :: "utext list \<Rightarrow> int \<Rightarrow> lockout_map \<Rightarrow> lockout_map" where
  "evict iter now lockouts =
     (if length lockouts \<ge> MAX_LOCKOUT_ENTRIES
      then fold AList.delete (take EVICT_COUNT (filter (evictable now lockouts) iter)) lockouts
      else lockouts)"

text \<open>The counter is a \<^verbatim>\<open>u32\<close>.\<close>

definition count_failure :: "int \<Rightarrow> lockout_state \<Rightarrow> lockout_state" where
  "count_failure now s =
     (let s1 = s\<lparr>failures := (failures s + 1) mod 2 ^ 32\<rparr> in
      if failures s1 \<ge> 5 \<and> locked_until s1 = None then s1\<lparr>locked_until := Some (now + minutes 15)\<rparr> else s1)"

definition record_failure :: "utext list \<Rightarrow> int \<Rightarrow> int \<Rightarrow> utext \<Rightarrow> lockout_map \<Rightarrow> lockout_map" where
  "record_failure iter now1 now2 username lockouts =
     (let kept = evict iter now1 lockouts;
          state = (case map_of kept username of Some s \<Rightarrow> s | None \<Rightarrow> \<lparr>failures = 0, locked_until = None\<rparr>)
      in AList.update username (count_failure now2 state) kept)"

definition locked_out :: "int \<Rightarrow> lockout_map \<Rightarrow> utext \<Rightarrow> bool" where
  "locked_out now lockouts key \<longleftrightarrow>
     (case map_of lockouts key of
        Some s \<Rightarrow> failures s \<ge> 5 \<and> (case locked_until s of Some t \<Rightarrow> now < t | None \<Rightarrow> False)
      | None \<Rightarrow> False)"

section \<open>Login\<close>

record login_request =
  lr_username :: utext
  lr_password :: utext
  lr_remember_me :: bool

definition check_password :: "auth_crypto \<Rightarrow> accounts_db \<Rightarrow> utext \<Rightarrow> utext \<Rightarrow> auth_error + user" where
  "check_password crypto db username password =
     (case get_user_by_username db username of
        Inl DbNotFound \<Rightarrow> Inl InvalidCredentials
      | Inl e \<Rightarrow> Inl (AuthDb e)
      | Inr u \<Rightarrow>
          (case c_verify_password crypto password (us_password_hash u) of
             None \<Rightarrow> Inl (AuthDb DbIo)
           | Some False \<Rightarrow> Inl InvalidCredentials
           | Some True \<Rightarrow> Inr u))"

definition clear_lockout :: "utext \<Rightarrow> auth_service \<Rightarrow> auth_service" where
  "clear_lockout key svc = svc\<lparr>as_lockouts := AList.delete key (as_lockouts svc)\<rparr>"

definition fail_login :: "utext list \<Rightarrow> int \<Rightarrow> int \<Rightarrow> utext \<Rightarrow> auth_service \<Rightarrow> auth_service" where
  "fail_login iter now1 now2 key svc = svc\<lparr>as_lockouts := record_failure iter now1 now2 key (as_lockouts svc)\<rparr>"

text \<open>The end of a login and of the setup: draw a token, store its hash, return the token.\<close>

definition open_session ::
  "auth_crypto \<Rightarrow> nat \<Rightarrow> int \<Rightarrow> bool \<Rightarrow> int \<Rightarrow> int \<Rightarrow> auth_service \<Rightarrow> auth_service \<times> (auth_error + utext)" where
  "open_session crypto draw user_id persistent expires_at created_at svc =
     (case c_generate_token crypto draw of
        None \<Rightarrow> (svc, Inl (AuthDb DbIo))
      | Some token \<Rightarrow>
          (case c_hash_token crypto token of
             None \<Rightarrow> (svc, Inl (AuthDb DbIo))
           | Some token_hash \<Rightarrow>
               (case create_session \<lparr>se_token_hash = token_hash, se_user_id = user_id, se_persistent = persistent,
                                     se_created_at = created_at, se_expires_at = expires_at\<rparr> (as_db svc) of
                  (db, Inl e) \<Rightarrow> (svc\<lparr>as_db := db\<rparr>, Inl (AuthDb e))
                | (db, Inr _) \<Rightarrow> (svc\<lparr>as_db := db\<rparr>, Inr token))))"

definition session_expiry :: "bool \<Rightarrow> int \<Rightarrow> int" where
  "session_expiry remember_me now = (if remember_me then now + days 30 else now + hours 24)"

definition login ::
  "text_env \<Rightarrow> auth_crypto \<Rightarrow> (nat \<Rightarrow> int) \<Rightarrow> utext list \<Rightarrow> login_request \<Rightarrow> auth_service \<Rightarrow> auth_service \<times> (auth_error + utext)" where
  "login env crypto clock iter req svc =
     (let username_lower = u_lower env (lr_username req) in
      if locked_out (clock 0) (as_lockouts svc) username_lower then (svc, Inl InvalidCredentials)
      else
        case check_password crypto (as_db svc) (lr_username req) (lr_password req) of
          Inl InvalidCredentials \<Rightarrow> (fail_login iter (clock 1) (clock 2) username_lower svc, Inl InvalidCredentials)
        | Inl e \<Rightarrow> (svc, Inl e)
        | Inr u \<Rightarrow>
            open_session crypto 0 (us_id u) (lr_remember_me req) (session_expiry (lr_remember_me req) (clock 1)) (clock 2)
              (clear_lockout username_lower svc))"

definition logout :: "utext \<Rightarrow> auth_service \<Rightarrow> auth_service" where
  "logout token_hash svc = svc\<lparr>as_db := delete_session token_hash (as_db svc)\<rparr>"

section \<open>Setup\<close>

record setup_request =
  sr_username :: utext
  sr_password :: utext
  sr_setup_token :: "utext option"

definition is_setup_complete :: "auth_service \<Rightarrow> bool" where
  "is_setup_complete svc \<longleftrightarrow> \<not> has_pending_setup (as_db svc)"

definition claim_error :: "db_error \<Rightarrow> auth_error" where
  "claim_error e = (case e of DbConstraint \<Rightarrow> SetupCompleted | other \<Rightarrow> AuthDb other)"

text \<open>The secrets of the account: the password hash, the API key and its hash.\<close>

definition account_secrets :: "auth_crypto \<Rightarrow> utext \<Rightarrow> auth_error + (utext \<times> utext \<times> utext)" where
  "account_secrets crypto password =
     (case c_hash_password crypto password of
        None \<Rightarrow> Inl (AuthDb DbIo)
      | Some password_hash \<Rightarrow>
          (case c_generate_token crypto 0 of
             None \<Rightarrow> Inl (AuthDb DbIo)
           | Some api_key \<Rightarrow>
               (case c_hash_token crypto api_key of
                  None \<Rightarrow> Inl (AuthDb DbIo)
                | Some api_key_hash \<Rightarrow> Inr (password_hash, api_key, api_key_hash))))"

text \<open>The checks of the request before any hashing.\<close>

definition setup_checks :: "text_env \<Rightarrow> setup_request \<Rightarrow> auth_service \<Rightarrow> auth_error option" where
  "setup_checks env req svc =
     (case validate_username env (sr_username req) of
        Some e \<Rightarrow> Some e
      | None \<Rightarrow>
          (case validate_password (sr_password req) of
             Some e \<Rightarrow> Some e
           | None \<Rightarrow>
               if is_setup_complete svc then Some SetupCompleted
               else check_setup_token (as_setup_token svc) (sr_setup_token req)))"

definition setup_db_request :: "setup_request \<Rightarrow> utext \<Rightarrow> utext \<Rightarrow> complete_setup_db_request" where
  "setup_db_request req password_hash api_key_hash =
     \<lparr>cs_username = sr_username req, cs_password_hash = password_hash, cs_api_key_hash = api_key_hash\<rparr>"

definition complete_setup ::
  "text_env \<Rightarrow> auth_crypto \<Rightarrow> (nat \<Rightarrow> int) \<Rightarrow> setup_request \<Rightarrow> auth_service \<Rightarrow> auth_service \<times> (auth_error + (utext \<times> utext))" where
  "complete_setup env crypto clock req svc =
     (case setup_checks env req svc of
        Some e \<Rightarrow> (svc, Inl e)
      | None \<Rightarrow>
          (case account_secrets crypto (sr_password req) of
             Inl e \<Rightarrow> (svc, Inl e)
           | Inr (password_hash, api_key, api_key_hash) \<Rightarrow>
               (case claim_setup (clock 0) (setup_db_request req password_hash api_key_hash) (as_db svc) of
                  (db, Inl e) \<Rightarrow> (svc\<lparr>as_db := db\<rparr>, Inl (claim_error e))
                | (db, Inr user_id) \<Rightarrow>
                    (case open_session crypto 1 user_id False (clock 2 + hours 24) (clock 1)
                            (consume_setup_token (svc\<lparr>as_db := db\<rparr>)) of
                       (svc', Inl e) \<Rightarrow> (svc', Inl e)
                     | (svc', Inr token) \<Rightarrow> (svc', Inr (api_key, token))))))"

section \<open>Profiles and administration\<close>

record update_profile_request =
  pr_username :: "utext option"
  pr_password :: "utext option"

definition not_found_error :: "db_error \<Rightarrow> auth_error" where
  "not_found_error e = (case e of DbNotFound \<Rightarrow> UserNotFound | other \<Rightarrow> AuthDb other)"

definition admin_error :: "db_error \<Rightarrow> auth_error" where
  "admin_error e = (case e of DbNotFound \<Rightarrow> UserNotFound | DbLastAdmin \<Rightarrow> LastAdmin | other \<Rightarrow> AuthDb other)"

text \<open>The update with the new password hash, if the request has a password; no state is touched yet.\<close>

definition prepare_update ::
  "text_env \<Rightarrow> auth_crypto \<Rightarrow> utext option \<Rightarrow> utext option \<Rightarrow> user_role option \<Rightarrow> auth_error + update_user_db_request" where
  "prepare_update env crypto username password role =
     (case validate_optional (validate_username env) username of
        Some e \<Rightarrow> Inl e
      | None \<Rightarrow>
          (case password of
             None \<Rightarrow> Inr \<lparr>uu_username = username, uu_password_hash = None, uu_role = role\<rparr>
           | Some pw \<Rightarrow>
               (case validate_password pw of
                  Some e \<Rightarrow> Inl e
                | None \<Rightarrow>
                    (case c_hash_password crypto pw of
                       None \<Rightarrow> Inl (AuthDb DbIo)
                     | Some hash \<Rightarrow> Inr \<lparr>uu_username = username, uu_password_hash = Some hash, uu_role = role\<rparr>))))"

definition drop_sessions :: "int \<Rightarrow> auth_service \<Rightarrow> auth_service" where
  "drop_sessions user_id svc = svc\<lparr>as_db := fst (delete_user_sessions user_id (as_db svc))\<rparr>"

definition store_update ::
  "(db_error \<Rightarrow> auth_error) \<Rightarrow> int \<Rightarrow> int \<Rightarrow> update_user_db_request \<Rightarrow> auth_service \<Rightarrow> auth_service \<times> (auth_error + user_response)" where
  "store_update err now user_id db_req svc =
     (case update_user now user_id db_req (as_db svc) of
        (db, Inl e) \<Rightarrow> (svc\<lparr>as_db := db\<rparr>, Inl (err e))
      | (db, Inr u) \<Rightarrow> (svc\<lparr>as_db := db\<rparr>, Inr (user_to_response u)))"

definition update_profile ::
  "text_env \<Rightarrow> auth_crypto \<Rightarrow> int \<Rightarrow> int \<Rightarrow> update_profile_request \<Rightarrow> auth_service \<Rightarrow> auth_service \<times> (auth_error + user_response)" where
  "update_profile env crypto now user_id req svc =
     (case prepare_update env crypto (pr_username req) (pr_password req) None of
        Inl e \<Rightarrow> (svc, Inl e)
      | Inr db_req \<Rightarrow>
          store_update not_found_error now user_id db_req
            (if uu_password_hash db_req \<noteq> None then drop_sessions user_id svc else svc))"

record admin_update_user_request =
  au_username :: "utext option"
  au_password :: "utext option"
  au_role :: "user_role option"

definition admin_update_user ::
  "text_env \<Rightarrow> auth_crypto \<Rightarrow> int \<Rightarrow> int \<Rightarrow> admin_update_user_request \<Rightarrow> auth_service \<Rightarrow> auth_service \<times> (auth_error + user_response)" where
  "admin_update_user env crypto now user_id req svc =
     (case prepare_update env crypto (au_username req) (au_password req) (au_role req) of
        Inl e \<Rightarrow> (svc, Inl e)
      | Inr db_req \<Rightarrow>
          (case store_update admin_error now user_id db_req svc of
             (svc', Inl e) \<Rightarrow> (svc', Inl e)
           | (svc', Inr r) \<Rightarrow> (if au_password req \<noteq> None then drop_sessions user_id svc' else svc', Inr r)))"

definition regenerate_api_key :: "auth_crypto \<Rightarrow> int \<Rightarrow> int \<Rightarrow> auth_service \<Rightarrow> auth_service \<times> (auth_error + utext)" where
  "regenerate_api_key crypto now user_id svc =
     (case c_generate_token crypto 0 of
        None \<Rightarrow> (svc, Inl (AuthDb DbIo))
      | Some key \<Rightarrow>
          (case c_hash_token crypto key of
             None \<Rightarrow> (svc, Inl (AuthDb DbIo))
           | Some hash \<Rightarrow>
               (case update_api_key_hash now user_id hash (as_db svc) of
                  (db, Inl e) \<Rightarrow> (svc\<lparr>as_db := db\<rparr>, Inl (not_found_error e))
                | (db, Inr _) \<Rightarrow> (svc\<lparr>as_db := db\<rparr>, Inr key))))"

record admin_create_user_request =
  ac_username :: utext
  ac_password :: utext
  ac_role :: user_role

definition taken_error :: "db_error \<Rightarrow> auth_error" where
  "taken_error e = (case e of DbConstraint \<Rightarrow> UsernameTaken | other \<Rightarrow> AuthDb other)"

definition admin_create_user ::
  "text_env \<Rightarrow> auth_crypto \<Rightarrow> int \<Rightarrow> admin_create_user_request \<Rightarrow> auth_service \<Rightarrow> auth_service \<times> (auth_error + user_response)" where
  "admin_create_user env crypto now req svc =
     (case validate_username env (ac_username req) of
        Some e \<Rightarrow> (svc, Inl e)
      | None \<Rightarrow>
          (case validate_password (ac_password req) of
             Some e \<Rightarrow> (svc, Inl e)
           | None \<Rightarrow>
               (case account_secrets crypto (ac_password req) of
                  Inl e \<Rightarrow> (svc, Inl e)
                | Inr (password_hash, api_key, api_key_hash) \<Rightarrow>
                    (case create_user now \<lparr>cu_username = ac_username req, cu_password_hash = password_hash,
                                           cu_role = ac_role req, cu_api_key_hash = api_key_hash\<rparr> (as_db svc) of
                       (db, Inl e) \<Rightarrow> (svc\<lparr>as_db := db\<rparr>, Inl (taken_error e))
                     | (db, Inr u) \<Rightarrow> (svc\<lparr>as_db := db\<rparr>, Inr (user_to_response u))))))"

definition admin_list_users :: "auth_service \<Rightarrow> user_response list" where
  "admin_list_users svc = map user_to_response (list_users (as_db svc))"

definition admin_get_user :: "int \<Rightarrow> auth_service \<Rightarrow> auth_error + user_response" where
  "admin_get_user user_id svc =
     (case get_user (as_db svc) user_id of Inl e \<Rightarrow> Inl (not_found_error e) | Inr u \<Rightarrow> Inr (user_to_response u))"

definition admin_delete_user :: "int \<Rightarrow> int \<Rightarrow> auth_service \<Rightarrow> auth_service \<times> (auth_error + unit)" where
  "admin_delete_user requesting_user_id target_user_id svc =
     (if requesting_user_id = target_user_id then (svc, Inl CannotDeleteSelf)
      else case delete_user target_user_id (as_db svc) of
             (db, Inl e) \<Rightarrow> (svc\<lparr>as_db := db\<rparr>, Inl (admin_error e))
           | (db, Inr _) \<Rightarrow> (svc\<lparr>as_db := db\<rparr>, Inr ()))"

text \<open>The basic authentication of the OPDS feeds; it neither reads nor writes the lock-out map.\<close>

definition verify_credentials :: "auth_crypto \<Rightarrow> utext \<Rightarrow> utext \<Rightarrow> auth_service \<Rightarrow> auth_error + user" where
  "verify_credentials crypto username password svc = check_password crypto (as_db svc) username password"

definition verify_token :: "auth_crypto \<Rightarrow> int \<Rightarrow> utext \<Rightarrow> auth_service \<Rightarrow> auth_error + int" where
  "verify_token crypto now token svc =
     (case c_hash_token crypto token of
        None \<Rightarrow> Inl InvalidCredentials
      | Some token_hash \<Rightarrow>
          (case get_session now (as_db svc) token_hash of None \<Rightarrow> Inl InvalidCredentials | Some s \<Rightarrow> Inr (se_user_id s)))"

section \<open>Middleware\<close>

datatype auth_type = AuthSession | AuthApiKey

record auth_context =
  ac_user :: user
  ac_auth_type :: auth_type
  ac_session_token_hash :: "utext option"

datatype status_code = Unauthorized | InternalServerError

text \<open>A request by its two headers, as far as they are text.\<close>

record auth_headers =
  h_authorization :: "utext option"
  h_x_api_key :: "utext option"

definition extract_bearer :: "auth_headers \<Rightarrow> utext option" where
  "extract_bearer h =
     (case h_authorization h of
        None \<Rightarrow> None
      | Some v \<Rightarrow> if take 7 v = tx ''Bearer '' then Some (drop 7 v) else None)"

text \<open>Session and user are read by two statements.\<close>

definition find_session :: "auth_crypto \<Rightarrow> int \<Rightarrow> utext \<Rightarrow> accounts_db \<Rightarrow> status_code + (utext \<times> int)" where
  "find_session crypto now token db =
     (case c_hash_token crypto token of
        None \<Rightarrow> Inl InternalServerError
      | Some token_hash \<Rightarrow>
          (case get_session now db token_hash of None \<Rightarrow> Inl Unauthorized | Some s \<Rightarrow> Inr (token_hash, se_user_id s)))"

definition user_error :: "db_error \<Rightarrow> status_code" where
  "user_error e = (case e of DbNotFound \<Rightarrow> Unauthorized | _ \<Rightarrow> InternalServerError)"

definition session_context :: "accounts_db \<Rightarrow> utext \<Rightarrow> int \<Rightarrow> status_code + auth_context" where
  "session_context db token_hash user_id =
     (case get_user db user_id of
        Inr u \<Rightarrow> Inr \<lparr>ac_user = u, ac_auth_type = AuthSession, ac_session_token_hash = Some token_hash\<rparr>
      | Inl e \<Rightarrow> Inl (user_error e))"

definition api_key_context :: "auth_crypto \<Rightarrow> utext \<Rightarrow> accounts_db \<Rightarrow> status_code + auth_context" where
  "api_key_context crypto api_key db =
     (case c_hash_token crypto api_key of
        None \<Rightarrow> Inl InternalServerError
      | Some key_hash \<Rightarrow>
          (case get_user_by_api_key_hash db key_hash of
             Inr u \<Rightarrow> Inr \<lparr>ac_user = u, ac_auth_type = AuthApiKey, ac_session_token_hash = None\<rparr>
           | Inl e \<Rightarrow> Inl (user_error e)))"

definition auth_middleware :: "auth_crypto \<Rightarrow> int \<Rightarrow> auth_headers \<Rightarrow> accounts_db \<Rightarrow> status_code + auth_context" where
  "auth_middleware crypto now h db =
     (case extract_bearer h of
        Some token \<Rightarrow>
          (case find_session crypto now token db of
             Inl e \<Rightarrow> Inl e
           | Inr (token_hash, user_id) \<Rightarrow> session_context db token_hash user_id)
      | None \<Rightarrow>
          (case h_x_api_key h of
             None \<Rightarrow> Inl Unauthorized
           | Some api_key \<Rightarrow> api_key_context crypto api_key db))"

definition require_admin :: "auth_context \<Rightarrow> bool" where
  "require_admin ctx \<longleftrightarrow> us_role (ac_user ctx) = RoleAdmin"

end
