(* ===== verification/AuthSystem.thy ===== *)
theory AuthSystem
  imports Authentication
begin

text \<open>
  All requests to the authentication service, cut where another request can act, as one step relation; the
  invariant of the tables, kept by every statement and hence by every handler; and the
  invariant of the whole system from a fresh installation on, across restarts.
\<close>

section \<open>The tables stay well formed\<close>

definition db_ok :: "accounts_db \<Rightarrow> bool" where
  "db_ok db \<longleftrightarrow>
     distinct (map us_id (db_users db)) \<and> (\<forall>u \<in> set (db_users db). us_id u < db_next_user_id db)
     \<and> distinct (map (\<lambda>u. text_ascii_lower (us_username u)) (db_users db)) \<and> distinct (map us_api_key_hash (db_users db))
     \<and> distinct (map se_token_hash (db_sessions db))
     \<and> (\<forall>s \<in> set (db_sessions db). se_user_id s \<in> us_id ` set (db_users db))
     \<and> (\<exists>u \<in> set (db_users db). us_role u = RoleAdmin)"

text \<open>A property of the tables that every statement keeps is kept by every handler.\<close>

locale kept_by_statements =
  fixes ok :: "accounts_db \<Rightarrow> bool"
  assumes create_user_keeps: "ok db \<Longrightarrow> ok (fst (create_user now creq db))"
    and update_user_keeps: "ok db \<Longrightarrow> ok (fst (update_user now uid ureq db))"
    and delete_user_keeps: "ok db \<Longrightarrow> ok (fst (delete_user uid db))"
    and claim_update_keeps: "ok db \<Longrightarrow> ok (fst (claim_update now uid sreq db))"
    and api_key_keeps: "ok db \<Longrightarrow> ok (fst (update_api_key_hash now uid hash db))"
    and create_session_keeps: "ok db \<Longrightarrow> ok (fst (create_session s db))"
    and delete_session_keeps: "ok db \<Longrightarrow> ok (delete_session th db)"
    and delete_user_sessions_keeps: "ok db \<Longrightarrow> ok (fst (delete_user_sessions uid db))"
    and delete_expired_keeps: "ok db \<Longrightarrow> ok (fst (delete_expired_sessions now db))"
begin

lemma open_session_keeps: "ok (as_db svc) \<Longrightarrow> ok (as_db (fst (open_session crypto n uid pers e c svc)))"
  using create_session_keeps by (auto simp: open_session_def split: option.splits prod.splits sum.splits) (metis fst_conv)+

lemma login_keeps: "ok (as_db svc) \<Longrightarrow> ok (as_db (fst (login env crypto clock iter req svc)))"
  using open_session_keeps [of "clear_lockout key svc" for key]
  by (auto simp: login_def Let_def fail_login_def clear_lockout_def split: sum.split auth_error.split)

lemma logout_keeps: "ok (as_db svc) \<Longrightarrow> ok (as_db (logout th svc))"
  using delete_session_keeps by (simp add: logout_def)

lemma complete_setup_keeps:
  assumes "ok (as_db svc)"
  shows "ok (as_db (fst (complete_setup env crypto clock req svc)))"
proof (cases "setup_checks env req svc")
  case None
  show ?thesis
  proof (cases "account_secrets crypto (sr_password req)")
    case (Inr r)
    obtain ph k kh where r: "r = (ph, k, kh)" by (cases r)
    obtain db res where c: "claim_setup (clock 0) (setup_db_request req ph kh) (as_db svc) = (db, res)" by fastforce
    have "ok db" using c assms claim_update_keeps
      by (auto simp: claim_setup_def split: sum.splits) (metis fst_conv)
    then show ?thesis
      using None Inr r c open_session_keeps [of "consume_setup_token (svc\<lparr>as_db := db\<rparr>)" crypto 1 "projr res" False "clock 2 + hours 24" "clock 1"]
      by (auto simp: complete_setup_def consume_setup_token_def split: sum.split prod.split)
  qed (use None assms in \<open>simp add: complete_setup_def\<close>)
qed (use assms in \<open>simp add: complete_setup_def\<close>)

lemma drop_sessions_keeps: "ok (as_db svc) \<Longrightarrow> ok (as_db (drop_sessions uid svc))"
  using delete_user_sessions_keeps by (simp add: drop_sessions_def)

lemma store_update_keeps: "ok (as_db svc) \<Longrightarrow> ok (as_db (fst (store_update err now uid ureq svc)))"
  using update_user_keeps by (auto simp: store_update_def split: prod.split sum.split) (metis fst_conv)+

lemma update_profile_keeps: "ok (as_db svc) \<Longrightarrow> ok (as_db (fst (update_profile env crypto now uid req svc)))"
  using store_update_keeps drop_sessions_keeps by (auto simp: update_profile_def split: sum.split)

lemma admin_update_user_keeps: "ok (as_db svc) \<Longrightarrow> ok (as_db (fst (admin_update_user env crypto now uid req svc)))"
  using store_update_keeps drop_sessions_keeps
  by (auto simp: admin_update_user_def split: sum.split prod.split) (metis fst_conv)+

lemma regenerate_api_key_keeps: "ok (as_db svc) \<Longrightarrow> ok (as_db (fst (regenerate_api_key crypto now uid svc)))"
  using api_key_keeps by (auto simp: regenerate_api_key_def split: option.split prod.split sum.split) (metis fst_conv)+

lemma admin_create_user_keeps: "ok (as_db svc) \<Longrightarrow> ok (as_db (fst (admin_create_user env crypto now req svc)))"
  using create_user_keeps by (auto simp: admin_create_user_def split: option.split prod.split sum.split) (metis fst_conv)+

lemma admin_delete_user_keeps: "ok (as_db svc) \<Longrightarrow> ok (as_db (fst (admin_delete_user requesting target svc)))"
  using delete_user_keeps by (auto simp: admin_delete_user_def split: prod.split sum.split) (metis fst_conv)+

end

text \<open>The statements keep the tables well formed.\<close>

lemma find_SomeD: "find P xs = Some x \<Longrightarrow> x \<in> set xs \<and> P x"
  by (auto simp: find_Some_iff)

lemma distinct_map_replace:
  assumes "distinct (map k xs)" "distinct (map f xs)" "\<forall>v \<in> set xs. k v \<noteq> k u' \<longrightarrow> f v \<noteq> f u'"
  shows "distinct (map f (map (\<lambda>v. if k v = k u' then u' else v) xs))"
  using assms by (induction xs) (auto simp: image_iff)

lemma other_admin:
  assumes "db_ok db" and "u \<in> set (db_users db)" and "us_role u \<noteq> RoleAdmin \<or> count_admins db > 1"
  shows "\<exists>v \<in> set (db_users db). us_role v = RoleAdmin \<and> us_id v \<noteq> us_id u"
proof (rule ccontr)
  let ?admins = "filter (\<lambda>u. us_role u = RoleAdmin) (db_users db)"
  assume none: "\<not> ?thesis"
  have inj: "inj_on us_id (set (db_users db))" and "distinct (db_users db)" using assms(1) by (auto simp: db_ok_def distinct_map)
  have sub: "set ?admins \<subseteq> {u}" using none inj_onD [OF inj] assms(2) by fastforce
  then have "card (set ?admins) \<le> 1" using card_mono [OF _ sub] by simp
  then have "length ?admins \<le> 1" using distinct_card [OF distinct_filter [OF \<open>distinct (db_users db)\<close>]] by metis
  then have "us_role u \<noteq> RoleAdmin" using assms(3) by (simp add: count_admins_def)
  then show False using sub assms(1) by (auto simp: db_ok_def)
qed

lemma replace_user_ok:
  assumes "db_ok db" and "u \<in> set (db_users db)" and "us_id u' = us_id u" and "\<not> violates_unique (db_users db) u'"
    and "us_role u' = RoleAdmin \<or> us_role u \<noteq> RoleAdmin \<or> count_admins db > 1"
  shows "db_ok (replace_user u' db)"
proof -
  let ?us = "db_users db" and ?us' = "db_users (replace_user u' db)"
  have us': "?us' = map (\<lambda>v. if us_id v = us_id u' then u' else v) ?us" by (simp add: replace_user_def)
  have ids: "map us_id ?us' = map us_id ?us" by (simp add: us' comp_def cong: map_cong if_cong)
  have names: "distinct (map (\<lambda>u. text_ascii_lower (us_username u)) ?us')"
    unfolding us' using assms(1,4) by (intro distinct_map_replace) (auto simp: db_ok_def violates_unique_def same_username_def)
  have keys: "distinct (map us_api_key_hash ?us')"
    unfolding us' using assms(1,4) by (intro distinct_map_replace) (auto simp: db_ok_def violates_unique_def)
  have "\<exists>v \<in> set ?us'. us_role v = RoleAdmin"
  proof (cases "us_role u' = RoleAdmin")
    case True
    then show ?thesis using assms(2,3) by (auto simp: us')
  next
    case False
    then have "\<exists>v \<in> set ?us. us_role v = RoleAdmin \<and> us_id v \<noteq> us_id u"
      using other_admin [OF assms(1,2)] assms(5) by blast
    then show ?thesis using assms(3) by (auto simp: us' image_iff)
  qed
  moreover have img: "us_id ` set ?us' = us_id ` set ?us" using arg_cong [OF ids, of set] by (simp only: set_map)
  moreover have "us_id v < db_next_user_id db" if "v \<in> set ?us'" for v
    using imageI [OF that, of us_id] assms(1) unfolding img by (auto simp: db_ok_def)
  moreover have "db_sessions (replace_user u' db) = db_sessions db" "db_next_user_id (replace_user u' db) = db_next_user_id db"
    by (simp_all add: replace_user_def)
  ultimately show ?thesis
    using assms(1) names keys unfolding db_ok_def ids img by simp
qed

lemma untouched_user: "fst (update_user now uid req db) = db \<or>
    (\<exists>u u'. u \<in> set (db_users db) \<and> fst (update_user now uid req db) = replace_user u' db \<and> us_id u' = us_id u \<and> us_id u = uid
       \<and> \<not> violates_unique (db_users db) u' \<and> us_setup_pending u' = us_setup_pending u \<and> us_api_key_hash u' = us_api_key_hash u
       \<and> (us_role u' = RoleAdmin \<or> us_role u \<noteq> RoleAdmin \<or> count_admins db > 1))"
proof (cases "find (\<lambda>u. us_id u = uid \<and> (us_role u \<noteq> RoleAdmin \<or> coalesce (uu_role req) (us_role u) \<noteq> RoleUser \<or> count_admins db > 1)) (db_users db)")
  case (Some u)
  let ?u' = "u\<lparr>us_username := coalesce (uu_username req) (us_username u), us_password_hash := coalesce (uu_password_hash req) (us_password_hash u),
    us_role := coalesce (uu_role req) (us_role u), us_updated_at := now\<rparr>"
  have role: "us_role ?u' = RoleAdmin \<or> us_role u \<noteq> RoleAdmin \<or> count_admins db > 1"
    using find_SomeD [OF Some] by (cases "coalesce (uu_role req) (us_role u)") auto
  have "fst (update_user now uid req db) = (if violates_unique (db_users db) ?u' then db else replace_user ?u' db)"
    unfolding update_user_def Some by (simp add: Let_def)
  then show ?thesis
    using role find_SomeD [OF Some] by (cases "violates_unique (db_users db) ?u'") (simp, intro disjI2 exI [of _ u] exI [of _ ?u'], simp)
qed (simp add: update_user_def)

lemma claim_replaces: "claim_update now uid req db = (db', Inr r) \<Longrightarrow>
   \<exists>u \<in> set (db_users db). us_setup_pending u \<and> us_id u = uid \<and> r = uid
     \<and> \<not> violates_unique (db_users db) (u\<lparr>us_username := cs_username req, us_password_hash := cs_password_hash req,
            us_api_key_hash := cs_api_key_hash req, us_setup_pending := False, us_updated_at := now\<rparr>)
     \<and> db' = replace_user (u\<lparr>us_username := cs_username req, us_password_hash := cs_password_hash req,
                        us_api_key_hash := cs_api_key_hash req, us_setup_pending := False, us_updated_at := now\<rparr>) db"
  by (auto simp: claim_update_def Let_def split: option.splits if_splits dest: find_SomeD)

lemma claim_fails: "claim_update now uid req db = (db', Inl e) \<Longrightarrow> db' = db"
  by (auto simp: claim_update_def Let_def split: option.splits if_splits)

interpretation tables: kept_by_statements db_ok
proof
  fix db now creq
  assume "db_ok db"
  then show "db_ok (fst (create_user now creq db))"
    by (force simp: create_user_def Let_def db_ok_def violates_unique_def same_username_def)
next
  fix db now uid ureq
  assume "db_ok db"
  then show "db_ok (fst (update_user now uid ureq db))"
    using untouched_user [of now uid ureq db] replace_user_ok by metis
next
  fix db uid
  assume ok: "db_ok db"
  show "db_ok (fst (delete_user uid db))"
  proof (cases "find (\<lambda>u. us_id u = uid \<and> (us_role u \<noteq> RoleAdmin \<or> count_admins db > 1)) (db_users db)")
    case (Some u)
    have u: "u \<in> set (db_users db)" "us_id u = uid" "us_role u \<noteq> RoleAdmin \<or> count_admins db > 1"
      using find_SomeD [OF Some] by auto
    then show ?thesis
      using ok other_admin [OF ok u(1,3)] Some by (auto simp: delete_user_def db_ok_def distinct_map_filter image_iff) metis+
  qed (use ok in \<open>simp add: delete_user_def\<close>)
next
  fix db now uid sreq
  assume ok: "db_ok db"
  obtain db' r where c: "claim_update now uid sreq db = (db', r)" by fastforce
  show "db_ok (fst (claim_update now uid sreq db))"
  proof (cases r)
    case (Inr x)
    then show ?thesis using claim_replaces [of now uid sreq db db' x] c ok replace_user_ok by fastforce
  qed (use c ok in \<open>auto dest: claim_fails\<close>)
next
  fix db now uid hash
  assume ok: "db_ok db"
  then show "db_ok (fst (update_api_key_hash now uid hash db))"
    by (auto simp: update_api_key_hash_def Let_def split: option.split dest!: find_SomeD intro!: replace_user_ok)
next
  fix db s
  assume "db_ok db"
  then show "db_ok (fst (create_session s db))" by (auto simp: create_session_def db_ok_def) (metis imageI)
next
  fix db th
  assume "db_ok db"
  then show "db_ok (delete_session th db)" by (auto simp: delete_session_def db_ok_def distinct_map_filter)
next
  fix db uid
  assume "db_ok db"
  then show "db_ok (fst (delete_user_sessions uid db))" by (auto simp: delete_user_sessions_def db_ok_def distinct_map_filter)
next
  fix db now
  assume "db_ok db"
  then show "db_ok (fst (delete_expired_sessions now db))" by (auto simp: delete_expired_sessions_def db_ok_def distinct_map_filter)
qed

section \<open>Requests in flight\<close>

text \<open>
  A task is a request that waits between two of its statements, with what it holds. Claims and issued tokens are
  kept for the record only.
\<close>

datatype auth_task =
    LoginPassed login_request
  | LoginFailed utext
  | LoginVerified int bool utext
  | LoginCleared int bool
  | SetupObserved setup_request
  | SetupAllowed setup_request
  | SetupSelected setup_request int
  | SetupClaimed int
  | SetupConsumed int
  | SessionFound utext int
  | Authorized auth_context
  | ProfileStore int update_user_db_request
  | SessionsDrop int

record auth_sys =
  sys_svc :: auth_service
  sys_tasks :: "auth_task list"
  sys_claims :: "setup_request list"
  sys_issued :: "utext list"

abbreviation sys_db :: "auth_sys \<Rightarrow> accounts_db" where
  "sys_db s \<equiv> as_db (sys_svc s)"

definition move :: "auth_task \<Rightarrow> auth_task list \<Rightarrow> auth_service \<Rightarrow> auth_sys \<Rightarrow> auth_sys" where
  "move t ts svc s = s\<lparr>sys_svc := svc, sys_tasks := ts @ remove1 t (sys_tasks s)\<rparr>"

definition spawn :: "auth_task \<Rightarrow> auth_sys \<Rightarrow> auth_sys" where
  "spawn t s = s\<lparr>sys_tasks := t # sys_tasks s\<rparr>"

text \<open>
  Documented behaviour of the crates: the empty string is no PHC string, so no password verifies against it, and a hash
  of a token is never empty.
\<close>

definition crypto_ok :: "auth_crypto \<Rightarrow> bool" where
  "crypto_ok c \<longleftrightarrow> (\<forall>p. c_verify_password c p [] \<noteq> Some True) \<and> (\<forall>t. c_hash_token c t \<noteq> Some [])"

definition after_check :: "utext \<Rightarrow> bool \<Rightarrow> auth_error + user \<Rightarrow> auth_task list" where
  "after_check key remember_me r =
     (case r of
        Inl InvalidCredentials \<Rightarrow> [LoginFailed key]
      | Inl _ \<Rightarrow> []
      | Inr u \<Rightarrow> [LoginVerified (us_id u) remember_me key])"

inductive auth_step :: "text_env \<Rightarrow> auth_sys \<Rightarrow> auth_sys \<Rightarrow> bool" for env :: text_env where
  LoginGate: "\<not> locked_out now (as_lockouts (sys_svc s)) (u_lower env (lr_username req)) \<Longrightarrow>
    auth_step env s (spawn (LoginPassed req) s)"
| LoginCheck: "LoginPassed req \<in> set (sys_tasks s) \<Longrightarrow> crypto_ok crypto \<Longrightarrow>
    auth_step env s (move (LoginPassed req)
      (after_check (u_lower env (lr_username req)) (lr_remember_me req)
         (check_password crypto (sys_db s) (lr_username req) (lr_password req))) (sys_svc s) s)"
| LoginCount: "LoginFailed key \<in> set (sys_tasks s) \<Longrightarrow>
    auth_step env s (move (LoginFailed key) [] (fail_login iter now1 now2 key (sys_svc s)) s)"
| LoginClear: "LoginVerified uid pers key \<in> set (sys_tasks s) \<Longrightarrow>
    auth_step env s (move (LoginVerified uid pers key) [LoginCleared uid pers] (clear_lockout key (sys_svc s)) s)"
| LoginOpen: "LoginCleared uid pers \<in> set (sys_tasks s) \<Longrightarrow> crypto_ok crypto \<Longrightarrow>
    auth_step env s (move (LoginCleared uid pers) []
      (fst (open_session crypto 0 uid pers (session_expiry pers now1) now2 (sys_svc s))) s)"
| SetupBegin: "validate_username env (sr_username req) = None \<Longrightarrow> validate_password (sr_password req) = None \<Longrightarrow>
    \<not> is_setup_complete (sys_svc s) \<Longrightarrow> auth_step env s (spawn (SetupObserved req) s)"
| SetupCheck: "SetupObserved req \<in> set (sys_tasks s) \<Longrightarrow>
    check_setup_token (as_setup_token (sys_svc s)) (sr_setup_token req) = None \<Longrightarrow>
    auth_step env s (move (SetupObserved req) [SetupAllowed req] (sys_svc s) s)"
| SetupSelect: "SetupAllowed req \<in> set (sys_tasks s) \<Longrightarrow> claim_select (sys_db s) = Inr uid \<Longrightarrow>
    auth_step env s (move (SetupAllowed req) [SetupSelected req uid] (sys_svc s) s)"
| SetupClaim: "SetupSelected req uid \<in> set (sys_tasks s) \<Longrightarrow> crypto_ok crypto \<Longrightarrow>
    account_secrets crypto (sr_password req) = Inr (ph, k, kh) \<Longrightarrow>
    claim_update now uid (setup_db_request req ph kh) (sys_db s) = (db, Inr uid') \<Longrightarrow>
    auth_step env s ((move (SetupSelected req uid) [SetupClaimed uid'] ((sys_svc s)\<lparr>as_db := db\<rparr>) s)
      \<lparr>sys_claims := req # sys_claims s\<rparr>)"
| SetupConsume: "SetupClaimed uid \<in> set (sys_tasks s) \<Longrightarrow>
    auth_step env s (move (SetupClaimed uid) [SetupConsumed uid] (consume_setup_token (sys_svc s)) s)"
| SetupOpen: "SetupConsumed uid \<in> set (sys_tasks s) \<Longrightarrow> crypto_ok crypto \<Longrightarrow>
    auth_step env s (move (SetupConsumed uid) []
      (fst (open_session crypto 1 uid False (now2 + hours 24) now1 (sys_svc s))) s)"
| BearerFind: "crypto_ok crypto \<Longrightarrow> find_session crypto now token (sys_db s) = Inr (th, uid) \<Longrightarrow>
    auth_step env s (spawn (SessionFound th uid) s)"
| BearerLoad: "SessionFound th uid \<in> set (sys_tasks s) \<Longrightarrow> session_context (sys_db s) th uid = Inr ctx \<Longrightarrow>
    auth_step env s (move (SessionFound th uid) [Authorized ctx] (sys_svc s) s)"
| ApiKey: "crypto_ok crypto \<Longrightarrow> api_key_context crypto key (sys_db s) = Inr ctx \<Longrightarrow>
    auth_step env s (spawn (Authorized ctx) s)"
| Logout: "Authorized ctx \<in> set (sys_tasks s) \<Longrightarrow> ac_session_token_hash ctx = Some th \<Longrightarrow>
    auth_step env s (move (Authorized ctx) [] (logout th (sys_svc s)) s)"
| Profile: "Authorized ctx \<in> set (sys_tasks s) \<Longrightarrow> crypto_ok crypto \<Longrightarrow>
    prepare_update env crypto (pr_username (req :: update_profile_request)) (pr_password req) None = Inr db_req \<Longrightarrow>
    auth_step env s (move (Authorized ctx) [ProfileStore (us_id (ac_user ctx)) db_req]
      (if uu_password_hash db_req \<noteq> None then drop_sessions (us_id (ac_user ctx)) (sys_svc s) else sys_svc s) s)"
| ProfileWrite: "ProfileStore uid db_req \<in> set (sys_tasks s) \<Longrightarrow>
    auth_step env s (move (ProfileStore uid db_req) [] (fst (store_update not_found_error now uid db_req (sys_svc s))) s)"
| OwnApiKey: "Authorized ctx \<in> set (sys_tasks s) \<Longrightarrow> crypto_ok crypto \<Longrightarrow>
    auth_step env s (move (Authorized ctx) [] (fst (regenerate_api_key crypto now (us_id (ac_user ctx)) (sys_svc s))) s)"
| AdminApiKey: "Authorized ctx \<in> set (sys_tasks s) \<Longrightarrow> require_admin ctx \<Longrightarrow> crypto_ok crypto \<Longrightarrow>
    auth_step env s (move (Authorized ctx) [] (fst (regenerate_api_key crypto now uid (sys_svc s))) s)"
| AdminCreate: "Authorized ctx \<in> set (sys_tasks s) \<Longrightarrow> require_admin ctx \<Longrightarrow> crypto_ok crypto \<Longrightarrow>
    auth_step env s (move (Authorized ctx) [] (fst (admin_create_user env crypto now creq (sys_svc s))) s)"
| AdminDelete: "Authorized ctx \<in> set (sys_tasks s) \<Longrightarrow> require_admin ctx \<Longrightarrow>
    auth_step env s (move (Authorized ctx) [] (fst (admin_delete_user (us_id (ac_user ctx)) uid (sys_svc s))) s)"
| AdminUpdate: "Authorized ctx \<in> set (sys_tasks s) \<Longrightarrow> require_admin ctx \<Longrightarrow> crypto_ok crypto \<Longrightarrow>
    prepare_update env crypto (au_username (areq :: admin_update_user_request)) (au_password areq) (au_role areq) = Inr db_req \<Longrightarrow>
    store_update admin_error now uid db_req (sys_svc s) = (svc, r) \<Longrightarrow>
    auth_step env s (move (Authorized ctx) (if isl r \<or> au_password areq = None then [] else [SessionsDrop uid]) svc s)"
| AdminDrop: "SessionsDrop uid \<in> set (sys_tasks s) \<Longrightarrow>
    auth_step env s (move (SessionsDrop uid) [] (drop_sessions uid (sys_svc s)) s)"
| Cleanup: "auth_step env s (s\<lparr>sys_svc := (sys_svc s)\<lparr>as_db := fst (delete_expired_sessions now (sys_db s))\<rparr>\<rparr>)"
| TaskEnds: "t \<in> set (sys_tasks s) \<Longrightarrow> auth_step env s (move t [] (sys_svc s) s)"
| Restart: "prepare_setup_token (sys_db s) path entry generated written = Some token \<Longrightarrow>
    auth_step env s (s\<lparr>sys_svc := build_db_and_auth (sys_db s) token, sys_tasks := [],
      sys_issued := (case token of Some t \<Rightarrow> [tok_value t] | None \<Rightarrow> []) @ sys_issued s\<rparr>)"

text \<open>A fresh installation: the placeholder administrator of migration 001, before the first start.\<close>

definition placeholder_admin :: user where
  "placeholder_admin = \<lparr>us_id = 1, us_username = tx ''admin'', us_password_hash = [], us_role = RoleAdmin, us_api_key_hash = [],
     us_setup_pending = True, us_created_at = 0, us_updated_at = 0\<rparr>"

definition fresh_db :: accounts_db where
  "fresh_db = \<lparr>db_users = [placeholder_admin], db_sessions = [], db_next_user_id = 2\<rparr>"

definition fresh_sys :: auth_sys where
  "fresh_sys = \<lparr>sys_svc = service_new fresh_db, sys_tasks = [], sys_claims = [], sys_issued = []\<rparr>"

abbreviation auth_run :: "text_env \<Rightarrow> auth_sys \<Rightarrow> auth_sys \<Rightarrow> bool" where
  "auth_run env \<equiv> (auth_step env)\<^sup>*\<^sup>*"

section \<open>The system invariant\<close>

lemma pending_iff: "has_pending_setup db \<longleftrightarrow> (\<exists>u \<in> set (db_users db). us_setup_pending u)"
  by (auto simp: has_pending_setup_def filter_empty_conv)

lemma pending_replace: "\<not> us_setup_pending u' \<Longrightarrow> \<not> has_pending_setup db \<Longrightarrow> \<not> has_pending_setup (replace_user u' db)"
  by (auto simp: pending_iff replace_user_def split: if_splits)

interpretation settled: kept_by_statements "\<lambda>db. \<not> has_pending_setup db"
proof
  fix db now uid ureq
  assume a: "\<not> has_pending_setup db"
  show "\<not> has_pending_setup (fst (update_user now uid ureq db))"
    using untouched_user [of now uid ureq db] pending_replace a by (metis pending_iff)
next
  fix db now uid sreq
  assume a: "\<not> has_pending_setup db"
  obtain db' r where c: "claim_update now uid sreq db = (db', r)" by fastforce
  then show "\<not> has_pending_setup (fst (claim_update now uid sreq db))"
    using a claim_replaces [of now uid sreq db db'] claim_fails [of now uid sreq db db']
    by (cases r) (auto simp: pending_iff)
next
  fix db now uid hash
  assume "\<not> has_pending_setup db"
  then show "\<not> has_pending_setup (fst (update_api_key_hash now uid hash db))"
    by (auto simp: update_api_key_hash_def Let_def pending_iff split: option.split dest!: find_SomeD)
       (auto simp: replace_user_def split: if_splits)
qed (auto simp: pending_iff create_user_def delete_user_def create_session_def delete_session_def delete_user_sessions_def
       delete_expired_sessions_def Let_def split: option.split)

fun public_task :: "auth_task \<Rightarrow> bool" where
  "public_task (LoginPassed _) = True"
| "public_task (LoginFailed _) = True"
| "public_task (SetupObserved _) = True"
| "public_task (SetupAllowed _) = True"
| "public_task (SetupSelected _ _) = True"
| "public_task _ = False"

definition untouched :: "accounts_db \<Rightarrow> bool" where
  "untouched db \<longleftrightarrow> (\<exists>u. db_users db = [u] \<and> us_password_hash u = [] \<and> us_api_key_hash u = [] \<and> us_setup_pending u)
     \<and> db_sessions db = []"

definition setup_open :: "auth_sys \<Rightarrow> bool" where
  "setup_open s \<longleftrightarrow> untouched (sys_db s) \<and> list_all public_task (sys_tasks s) \<and> sys_claims s = []"

definition setup_closed :: "auth_sys \<Rightarrow> bool" where
  "setup_closed s \<longleftrightarrow> \<not> has_pending_setup (sys_db s) \<and> length (sys_claims s) = 1"

definition token_known :: "utext list \<Rightarrow> setup_request \<Rightarrow> bool" where
  "token_known issued req \<longleftrightarrow> (\<exists>t. sr_setup_token req = Some t \<and> text_trim t \<in> set issued)"

fun task_token_ok :: "utext list \<Rightarrow> auth_task \<Rightarrow> bool" where
  "task_token_ok issued (SetupAllowed req) = token_known issued req"
| "task_token_ok issued (SetupSelected req _) = token_known issued req"
| "task_token_ok issued _ = True"

definition tokens_ok :: "auth_sys \<Rightarrow> bool" where
  "tokens_ok s \<longleftrightarrow> (\<forall>t. as_setup_token (sys_svc s) = TokenActive t \<longrightarrow> tok_value t \<in> set (sys_issued s))
     \<and> list_all (task_token_ok (sys_issued s)) (sys_tasks s) \<and> list_all (token_known (sys_issued s)) (sys_claims s)"

definition sys_inv :: "auth_sys \<Rightarrow> bool" where
  "sys_inv s \<longleftrightarrow> db_ok (sys_db s) \<and> (setup_open s \<or> setup_closed s) \<and> tokens_ok s"

lemmas db_frame = fail_login_def clear_lockout_def consume_setup_token_def build_db_and_auth_def with_setup_token_def service_new_def

lemma step_db_ok:
  assumes "auth_step env s s'" and "db_ok (sys_db s)"
  shows "db_ok (sys_db s')"
  using assms
proof (induction rule: auth_step.induct)
  case (SetupClaim req uid s crypto ph k kh now db uid')
  then show ?case using tables.claim_update_keeps [of "sys_db s" now uid "setup_db_request req ph kh"] by (simp add: move_def)
next
  case (AdminUpdate ctx s crypto areq db_req now uid svc r)
  then show ?case using tables.store_update_keeps [of "sys_svc s" admin_error now uid db_req] by (simp add: move_def)
qed (auto simp: move_def spawn_def db_frame
       intro: tables.open_session_keeps tables.logout_keeps tables.drop_sessions_keeps tables.store_update_keeps
         tables.regenerate_api_key_keeps tables.admin_create_user_keeps tables.admin_delete_user_keeps tables.delete_expired_keeps
       split: option.split)

lemma list_all_move: "list_all P (sys_tasks s) \<Longrightarrow> list_all P ts \<Longrightarrow> list_all P (sys_tasks (move t ts svc s))"
  using set_remove1_subset [of t "sys_tasks s"] by (auto simp: move_def list_all_iff)

lemma move_simps [simp]:
  "sys_svc (move t ts svc s) = svc" "sys_claims (move t ts svc s) = sys_claims s" "sys_issued (move t ts svc s) = sys_issued s"
  by (simp_all add: move_def)

lemma spawn_simps [simp]:
  "sys_svc (spawn t s) = sys_svc s" "sys_claims (spawn t s) = sys_claims s" "sys_issued (spawn t s) = sys_issued s"
  "sys_tasks (spawn t s) = t # sys_tasks s"
  by (simp_all add: spawn_def)

lemma token_frame [simp]:
  "as_setup_token (fst (open_session crypto n uid pers e c svc)) = as_setup_token svc"
  "as_setup_token (logout th svc) = as_setup_token svc"
  "as_setup_token (drop_sessions uid svc) = as_setup_token svc"
  "as_setup_token (fst (store_update err now uid db_req svc)) = as_setup_token svc"
  "as_setup_token (fst (regenerate_api_key crypto now uid svc)) = as_setup_token svc"
  "as_setup_token (fst (admin_create_user env crypto now creq svc)) = as_setup_token svc"
  "as_setup_token (fst (admin_delete_user u v svc)) = as_setup_token svc"
  by (auto simp: open_session_def logout_def drop_sessions_def store_update_def regenerate_api_key_def admin_create_user_def
        admin_delete_user_def split: option.split prod.split sum.split)

lemma checked_token_known:
  "check_setup_token st offered = None \<Longrightarrow> (\<forall>t. st = TokenActive t \<longrightarrow> tok_value t \<in> set issued) \<Longrightarrow>
   sr_setup_token req = offered \<Longrightarrow> token_known issued req"
  by (auto simp: check_setup_token_def token_known_def Let_def split: setup_token_state.splits if_splits option.splits)

lemma token_known_mono: "token_known issued req \<Longrightarrow> token_known (fresh @ issued) req"
  by (auto simp: token_known_def)

lemma after_check_quiet: "list_all (task_token_ok issued) (after_check key rem r)"
  by (auto simp: after_check_def split: sum.split auth_error.split)

lemma tokens_ok_move:
  assumes "tokens_ok s" and "as_setup_token svc = as_setup_token (sys_svc s)" and "list_all (task_token_ok (sys_issued s)) ts"
  shows "tokens_ok (move t ts svc s)"
  using assms list_all_move by (simp add: tokens_ok_def)

lemma tokens_ok_spawn: "tokens_ok s \<Longrightarrow> task_token_ok (sys_issued s) t \<Longrightarrow> tokens_ok (spawn t s)"
  by (simp add: tokens_ok_def)

lemma tokens_ok_task: "tokens_ok s \<Longrightarrow> t \<in> set (sys_tasks s) \<Longrightarrow> task_token_ok (sys_issued s) t"
  by (auto simp: tokens_ok_def list_all_iff)

lemma step_tokens_ok:
  assumes "auth_step env s s'" and "tokens_ok s"
  shows "tokens_ok s'"
  using assms
proof (induction rule: auth_step.induct)
  case (SetupCheck req s)
  then have "token_known (sys_issued s) req" using checked_token_known by (auto simp: tokens_ok_def)
  then show ?case using SetupCheck by (auto intro: tokens_ok_move)
next
  case (SetupSelect req s uid)
  then show ?case using tokens_ok_task [of s "SetupAllowed req"] by (auto intro: tokens_ok_move)
next
  case (SetupClaim req uid s crypto ph k kh now db uid')
  then have "tokens_ok (move (SetupSelected req uid) [SetupClaimed uid'] (sys_svc s\<lparr>as_db := db\<rparr>) s)"
    by (intro tokens_ok_move) auto
  then show ?case using tokens_ok_task [of s "SetupSelected req uid"] SetupClaim by (simp add: tokens_ok_def)
next
  case (SetupConsume uid s)
  then show ?case using list_all_move [of "task_token_ok (sys_issued s)" s]
    by (simp add: tokens_ok_def consume_setup_token_def)
next
  case (AdminUpdate ctx s crypto areq db_req now uid svc r)
  then have "as_setup_token svc = as_setup_token (sys_svc s)" using token_frame(4) by (metis fst_conv)
  then show ?case using AdminUpdate by (intro tokens_ok_move) auto
next
  case (Restart s path entry generated written token)
  then have claims: "list_all (token_known (fresh @ sys_issued s)) (sys_claims s)" for fresh
    using token_known_mono unfolding tokens_ok_def list_all_iff by blast
  show ?case
    using claims [of "[]"] claims [of "[tok_value (the token)]"]
    by (cases token) (simp_all add: tokens_ok_def build_db_and_auth_def service_new_def with_setup_token_def)
qed (auto intro!: tokens_ok_move tokens_ok_spawn simp: after_check_quiet db_frame, simp_all add: tokens_ok_def)

lemma untouched_pending: "untouched db \<Longrightarrow> has_pending_setup db"
  by (auto simp: untouched_def pending_iff)

lemma untouched_no_login: "untouched db \<Longrightarrow> crypto_ok crypto \<Longrightarrow> check_password crypto db name pw \<noteq> Inr u"
  by (auto simp: untouched_def crypto_ok_def check_password_def get_user_by_username_def split: option.splits bool.splits if_splits)

lemma untouched_no_session: "untouched db \<Longrightarrow> find_session crypto now token db \<noteq> Inr r"
  by (auto simp: untouched_def find_session_def get_session_def split: option.splits)

lemma untouched_no_api_key: "untouched db \<Longrightarrow> crypto_ok crypto \<Longrightarrow> api_key_context crypto key db \<noteq> Inr ctx"
  by (auto simp: untouched_def crypto_ok_def api_key_context_def get_user_by_api_key_hash_def split: option.splits if_splits)

lemma after_check_public: "(\<And>u. r \<noteq> Inr u) \<Longrightarrow> list_all public_task (after_check key rem r)"
  by (cases r) (auto simp: after_check_def split: auth_error.split)

lemma untouched_claim:
  assumes "untouched db" and "claim_update now uid req db = (db', Inr r)"
  shows "\<not> has_pending_setup db'"
  using claim_replaces [OF assms(2)] assms(1) by (auto simp: untouched_def pending_iff replace_user_def)

lemma open_public: "setup_open s \<Longrightarrow> t \<in> set (sys_tasks s) \<Longrightarrow> public_task t"
  by (auto simp: setup_open_def list_all_iff)

lemma setup_open_move:
  "setup_open s \<Longrightarrow> list_all public_task ts \<Longrightarrow> as_db svc = sys_db s \<Longrightarrow> setup_open (move t ts svc s)"
  using list_all_move by (simp add: setup_open_def)

lemma step_setup_open:
  assumes "auth_step env s s'" and "setup_open s"
  shows "setup_open s' \<or> setup_closed s'"
  using assms
proof (induction rule: auth_step.induct)
  case (LoginCheck req s crypto)
  then have "list_all public_task (after_check (u_lower env (lr_username req)) (lr_remember_me req)
      (check_password crypto (sys_db s) (lr_username req) (lr_password req)))"
    by (intro after_check_public) (simp add: setup_open_def untouched_no_login)
  then show ?case using LoginCheck setup_open_move by simp
next
  case (SetupClaim req uid s crypto ph k kh now db uid')
  then show ?case using untouched_claim [OF _ SetupClaim(4)] by (simp add: setup_open_def setup_closed_def)
next
  case (BearerFind crypto now token s th uid)
  then show ?case using untouched_no_session by (fastforce simp: setup_open_def)
next
  case (ApiKey crypto key s ctx)
  then show ?case using untouched_no_api_key by (fastforce simp: setup_open_def)
next
  case (Cleanup s now)
  then show ?case by (simp add: setup_open_def untouched_def delete_expired_sessions_def)
next
  case (Restart s path entry generated written token)
  then show ?case by (cases token) (simp_all add: setup_open_def db_frame)
qed (auto simp: db_frame setup_open_def [of "spawn _ _"] dest: open_public intro: setup_open_move, auto simp: setup_open_def)

lemma step_setup_closed:
  assumes "auth_step env s s'" and "setup_closed s"
  shows "setup_closed s'"
  using assms
proof (induction rule: auth_step.induct)
  case (SetupClaim req uid s crypto ph k kh now db uid')
  then show ?case using claim_replaces [of now uid "setup_db_request req ph kh" "sys_db s" db uid']
    by (auto simp: setup_closed_def pending_iff)
next
  case (AdminUpdate ctx s crypto areq db_req now uid svc r)
  then show ?case using settled.store_update_keeps [of "sys_svc s" admin_error now uid db_req]
    by (simp add: setup_closed_def)
next
  case (Restart s path entry generated written token)
  then show ?case by (cases token) (simp_all add: setup_closed_def db_frame)
qed (auto simp: setup_closed_def db_frame settled.open_session_keeps settled.logout_keeps settled.drop_sessions_keeps
       settled.store_update_keeps settled.regenerate_api_key_keeps settled.admin_create_user_keeps settled.admin_delete_user_keeps
       settled.delete_expired_keeps)

lemma fresh_inv: "sys_inv fresh_sys"
  by (simp add: sys_inv_def fresh_sys_def service_new_def fresh_db_def placeholder_admin_def db_ok_def setup_open_def untouched_def
      tokens_ok_def)

lemma run_inv:
  assumes "auth_run env fresh_sys s"
  shows "sys_inv s"
  using assms
proof (induction rule: rtranclp_induct)
  case base
  show ?case by (rule fresh_inv)
next
  case (step s s')
  then show ?case
    using step_db_ok [OF step(2)] step_tokens_ok [OF step(2)] step_setup_open [OF step(2)] step_setup_closed [OF step(2)]
    by (auto simp: sys_inv_def)
qed

end
