(* ===== verification/AuthGuarantees.thy ===== *)
theory AuthGuarantees
  imports AuthSystem
begin

text \<open>
  What holds of the authentication service: nobody is let in before the setup, which one request with the printed token claims;
  the tables always have an administrator and no orphan session; when an account is locked, and that an expired
  lock never locks again; the life of a session; and what a change of the password does to sessions, also
  when a login overlaps it.
\<close>

section \<open>Handlers as runs\<close>

text \<open>Each handler that has several statements is a run of the step relation: the steps cover the code's paths.\<close>

lemma run_trans: "auth_step env s t \<Longrightarrow> auth_run env t u \<Longrightarrow> auth_run env s u"
  by (rule converse_rtranclp_into_rtranclp)

lemma move_front: "sys_tasks s = t # ts \<Longrightarrow> move t new svc s = s\<lparr>sys_svc := svc, sys_tasks := new @ ts\<rparr>"
  by (simp add: move_def)

lemma login_is_a_run:
  assumes "crypto_ok crypto"
  shows "auth_run env s (s\<lparr>sys_svc := fst (login env crypto clock iter req (sys_svc s))\<rparr>)"
proof -
  let ?key = "u_lower env (lr_username req)" and ?ts = "sys_tasks s"
  let ?pw = "check_password crypto (sys_db s) (lr_username req) (lr_password req)"
  let ?s1 = "spawn (LoginPassed req) s"
  have gate: "auth_step env s ?s1" if "\<not> locked_out (clock 0) (as_lockouts (sys_svc s)) ?key"
    using LoginGate that by blast
  have check: "auth_step env ?s1 (s\<lparr>sys_tasks := after_check ?key (lr_remember_me req) ?pw @ ?ts\<rparr>)"
    using LoginCheck [of req ?s1 crypto env] assms by (simp add: spawn_def move_def)
  consider (locked) "locked_out (clock 0) (as_lockouts (sys_svc s)) ?key"
    | (wrong) "\<not> locked_out (clock 0) (as_lockouts (sys_svc s)) ?key" "?pw = Inl InvalidCredentials"
    | (error) e where "\<not> locked_out (clock 0) (as_lockouts (sys_svc s)) ?key" "?pw = Inl e" "e \<noteq> InvalidCredentials"
    | (right) u where "\<not> locked_out (clock 0) (as_lockouts (sys_svc s)) ?key" "?pw = Inr u"
    by (cases ?pw) auto
  then show ?thesis
  proof cases
    case locked
    then show ?thesis by (simp add: login_def)
  next
    case wrong
    let ?s2 = "s\<lparr>sys_tasks := LoginFailed ?key # ?ts\<rparr>"
    have "auth_step env ?s1 ?s2" using check wrong by (simp add: after_check_def)
    moreover have "auth_step env ?s2 (s\<lparr>sys_svc := fail_login iter (clock 1) (clock 2) ?key (sys_svc s)\<rparr>)"
      using LoginCount [of ?key ?s2 env iter "clock 1" "clock 2"] by (simp add: move_def)
    ultimately show ?thesis using gate [OF wrong(1)] wrong by (simp add: login_def)
  next
    case error
    then have "auth_step env ?s1 s" using check by (auto simp: after_check_def split: auth_error.splits)
    then show ?thesis using gate [OF error(1)] error by (auto simp: login_def split: auth_error.split)
  next
    case right
    let ?s2 = "s\<lparr>sys_tasks := LoginVerified (us_id u) (lr_remember_me req) ?key # ?ts\<rparr>"
    let ?svc = "clear_lockout ?key (sys_svc s)"
    let ?s3 = "s\<lparr>sys_svc := ?svc, sys_tasks := LoginCleared (us_id u) (lr_remember_me req) # ?ts\<rparr>"
    have "auth_step env ?s1 ?s2" using check right by (simp add: after_check_def)
    moreover have "auth_step env ?s2 ?s3"
      using LoginClear [of "us_id u" "lr_remember_me req" ?key ?s2 env] by (simp add: move_def)
    moreover have "auth_step env ?s3 (s\<lparr>sys_svc := fst (open_session crypto 0 (us_id u) (lr_remember_me req)
        (session_expiry (lr_remember_me req) (clock 1)) (clock 2) ?svc)\<rparr>)"
      using LoginOpen [of "us_id u" "lr_remember_me req" ?s3 crypto env "clock 1" "clock 2"] assms by (simp add: move_def)
    ultimately show ?thesis using gate [OF right(1)] right by (simp add: login_def)
  qed
qed

lemma complete_setup_is_a_run:
  assumes "crypto_ok crypto"
  shows "\<exists>claims. auth_run env s (s\<lparr>sys_svc := fst (complete_setup env crypto clock req (sys_svc s)), sys_claims := claims @ sys_claims s\<rparr>)"
proof (cases "setup_checks env req (sys_svc s) = None \<and> (\<exists>ph k kh db uid. account_secrets crypto (sr_password req) = Inr (ph, k, kh)
    \<and> claim_setup (clock 0) (setup_db_request req ph kh) (sys_db s) = (db, Inr uid))")
  case True
  then obtain ph k kh db uid where c: "setup_checks env req (sys_svc s) = None"
      "account_secrets crypto (sr_password req) = Inr (ph, k, kh)"
      "claim_setup (clock 0) (setup_db_request req ph kh) (sys_db s) = (db, Inr uid)"
    by blast
  then obtain sel where sel: "claim_select (sys_db s) = Inr sel" "claim_update (clock 0) sel (setup_db_request req ph kh) (sys_db s) = (db, Inr uid)"
    by (auto simp: claim_setup_def split: sum.splits)
  have checks: "validate_username env (sr_username req) = None" "validate_password (sr_password req) = None"
      "\<not> is_setup_complete (sys_svc s)" "check_setup_token (as_setup_token (sys_svc s)) (sr_setup_token req) = None"
    using c(1) by (auto simp: setup_checks_def split: option.splits if_splits)
  let ?ts = "sys_tasks s" and ?svc = "(sys_svc s)\<lparr>as_db := db\<rparr>"
  let ?s1 = "s\<lparr>sys_tasks := SetupObserved req # ?ts\<rparr>" and ?s2 = "s\<lparr>sys_tasks := SetupAllowed req # ?ts\<rparr>"
    and ?s3 = "s\<lparr>sys_tasks := SetupSelected req sel # ?ts\<rparr>"
    and ?s4 = "s\<lparr>sys_svc := ?svc, sys_tasks := SetupClaimed uid # ?ts, sys_claims := req # sys_claims s\<rparr>"
    and ?s5 = "s\<lparr>sys_svc := consume_setup_token ?svc, sys_tasks := SetupConsumed uid # ?ts, sys_claims := req # sys_claims s\<rparr>"
    and ?s6 = "s\<lparr>sys_svc := fst (open_session crypto 1 uid False (clock 2 + hours 24) (clock 1) (consume_setup_token ?svc)), sys_claims := req # sys_claims s\<rparr>"
  have "auth_step env s ?s1" using SetupBegin [OF checks(1-3)] by (simp add: spawn_def)
  moreover have "auth_step env ?s1 ?s2" using SetupCheck [of req ?s1 env] checks(4) by (simp add: move_def)
  moreover have "auth_step env ?s2 ?s3" using SetupSelect [of req ?s2 sel env] sel(1) by (simp add: move_def)
  moreover have "auth_step env ?s3 ?s4"
    using SetupClaim [of req sel ?s3 crypto ph k kh "clock 0" db uid env] assms c(2) sel(2) by (simp add: move_def)
  moreover have "auth_step env ?s4 ?s5" using SetupConsume [of uid ?s4 env] by (cases s) (simp add: move_def)
  moreover have "auth_step env ?s5 ?s6"
    using SetupOpen [of uid ?s5 crypto env "clock 2" "clock 1"] assms by (cases s) (simp add: move_def)
  ultimately have "auth_run env s ?s6" by (meson rtranclp.rtrancl_into_rtrancl rtranclp.rtrancl_refl)
  moreover have "fst (complete_setup env crypto clock req (sys_svc s)) =
      fst (open_session crypto 1 uid False (clock 2 + hours 24) (clock 1) (consume_setup_token ?svc))"
    using c by (auto simp: complete_setup_def split: prod.split sum.split)
  ultimately show ?thesis by (metis append_Cons append_Nil)
next
  case False
  then have "fst (complete_setup env crypto clock req (sys_svc s)) = sys_svc s"
    using claim_fails
    by (auto simp: complete_setup_def claim_setup_def split: option.split sum.split prod.split)
  then show ?thesis by (intro exI [of _ "[]"]) simp
qed

lemma update_profile_is_a_run:
  assumes "crypto_ok crypto" and "sys_tasks s = Authorized ctx # ts"
  shows "auth_run env s (s\<lparr>sys_svc := fst (update_profile env crypto now (us_id (ac_user ctx)) req (sys_svc s)), sys_tasks := ts\<rparr>)"
proof (cases "prepare_update env crypto (pr_username req) (pr_password req) None")
  case (Inl e)
  then show ?thesis using TaskEnds [of "Authorized ctx" s env] assms(2) by (auto simp: update_profile_def move_def)
next
  case (Inr db_req)
  let ?uid = "us_id (ac_user ctx)"
  let ?svc = "if uu_password_hash db_req \<noteq> None then drop_sessions ?uid (sys_svc s) else sys_svc s"
  let ?s1 = "s\<lparr>sys_svc := ?svc, sys_tasks := ProfileStore ?uid db_req # ts\<rparr>"
  have "auth_step env s ?s1" using Profile [of ctx s crypto env req db_req] assms Inr by (simp add: move_def)
  moreover have "auth_step env ?s1 (s\<lparr>sys_svc := fst (store_update not_found_error now ?uid db_req ?svc), sys_tasks := ts\<rparr>)"
    using ProfileWrite [of ?uid db_req ?s1 env now] by (simp add: move_def)
  ultimately show ?thesis using Inr by (auto simp: update_profile_def)
qed

lemma admin_update_user_is_a_run:
  assumes "crypto_ok crypto" and "sys_tasks s = Authorized ctx # ts" and "require_admin ctx"
  shows "auth_run env s (s\<lparr>sys_svc := fst (admin_update_user env crypto now uid req (sys_svc s)), sys_tasks := ts\<rparr>)"
proof (cases "prepare_update env crypto (au_username req) (au_password req) (au_role req)")
  case (Inl e)
  then show ?thesis using TaskEnds [of "Authorized ctx" s env] assms(2) by (auto simp: admin_update_user_def move_def)
next
  case (Inr db_req)
  obtain svc r where st: "store_update admin_error now uid db_req (sys_svc s) = (svc, r)" by fastforce
  let ?rest = "if isl r \<or> au_password req = None then [] else [SessionsDrop uid]"
  let ?s1 = "s\<lparr>sys_svc := svc, sys_tasks := ?rest @ ts\<rparr>"
  have one: "auth_step env s ?s1"
    using AdminUpdate [of ctx s crypto env req db_req now uid svc r] assms Inr st by (simp add: move_def)
  show ?thesis
  proof (cases "isl r \<or> au_password req = None")
    case True
    then show ?thesis using one Inr st by (cases r) (auto simp: admin_update_user_def)
  next
    case False
    then have rest: "?rest = [SessionsDrop uid]" by simp
    have "auth_step env ?s1 (s\<lparr>sys_svc := drop_sessions uid svc, sys_tasks := ts\<rparr>)"
      unfolding rest using AdminDrop [of uid "s\<lparr>sys_svc := svc, sys_tasks := [SessionsDrop uid] @ ts\<rparr>" env] by (simp add: move_def)
    then have "auth_run env s (s\<lparr>sys_svc := drop_sessions uid svc, sys_tasks := ts\<rparr>)" using one by simp
    then show ?thesis using False Inr st by (cases r) (auto simp: admin_update_user_def)
  qed
qed

section \<open>Lock-out\<close>

text \<open>Failed logins of any accounts, each with the iteration order it met, its two readings of the clock and its account.\<close>

type_synonym failed_login = "utext list \<times> int \<times> int \<times> utext"

definition fail_all :: "failed_login list \<Rightarrow> lockout_map \<Rightarrow> lockout_map" where
  "fail_all fs lk = fold (\<lambda>(iter, now1, now2, k). record_failure iter now1 now2 k) fs lk"

definition of_account :: "utext \<Rightarrow> failed_login list \<Rightarrow> failed_login list" where
  "of_account k fs = filter (\<lambda>(_, _, _, u). u = k) fs"

lemma map_of_deletes: "map_of (fold AList.delete ks m) k = (if k \<in> set ks then None else map_of m k)"
  by (induction ks arbitrary: m) (auto simp: delete_conv')

lemma evict_keeps: "\<not> evictable now lk k \<Longrightarrow> map_of (evict iter now lk) k = map_of lk k"
  by (auto simp: evict_def map_of_deletes dest: in_set_takeD)

lemma evict_small: "length lk < MAX_LOCKOUT_ENTRIES \<Longrightarrow> evict iter now lk = lk"
  by (simp add: evict_def)

lemma length_update_le: "length (AList.update k v al) \<le> Suc (length al)"
  by (induction al) auto

lemma length_deletes: "length (fold AList.delete ks m) \<le> length m"
  by (induction ks arbitrary: m) (auto intro: order_trans [OF _ length_delete_le])

lemma length_record_failure: "length (record_failure iter n1 n2 k lk) \<le> Suc (length lk)"
  using length_update_le length_deletes by (fastforce simp: record_failure_def evict_def Let_def intro: order_trans)

lemma record_failure_at:
  "map_of (evict iter n1 lk) k = map_of lk k \<Longrightarrow>
   map_of (record_failure iter n1 n2 u lk) k =
     (if u = k then Some (count_failure n2 (case map_of lk k of Some s \<Rightarrow> s | None \<Rightarrow> \<lparr>failures = 0, locked_until = None\<rparr>)) else map_of lk k)"
  by (simp add: record_failure_def Let_def update_conv')

text \<open>What the entry of an account that is never evicted becomes.\<close>

definition entry_after :: "lockout_state option \<Rightarrow> failed_login list \<Rightarrow> lockout_state option" where
  "entry_after e fs = fold (\<lambda>(_, _, n2, _) e. Some (count_failure n2 (case e of Some s \<Rightarrow> s | None \<Rightarrow> \<lparr>failures = 0, locked_until = None\<rparr>))) fs e"

lemma entry_small:
  "length lk + length fs < MAX_LOCKOUT_ENTRIES \<Longrightarrow> map_of (fail_all fs lk) k = entry_after (map_of lk k) (of_account k fs)"
proof (induction fs arbitrary: lk)
  case (Cons f fs)
  obtain iter n1 n2 u where f: "f = (iter, n1, n2, u)" by (cases f) auto
  have "length (record_failure iter n1 n2 u lk) + length fs < MAX_LOCKOUT_ENTRIES"
    using Cons.prems length_record_failure [of iter n1 n2 u lk] by simp
  then show ?case
    using Cons.IH [of "record_failure iter n1 n2 u lk"] record_failure_at [of iter n1 lk k n2 u] evict_small [of lk iter n1] Cons.prems
    by (simp add: fail_all_def f of_account_def entry_after_def)
qed (simp add: fail_all_def of_account_def entry_after_def)

lemma count_locked: "locked_until s = Some t \<Longrightarrow> failures s + 1 < 2 ^ 32 \<Longrightarrow> count_failure n s = s\<lparr>failures := failures s + 1\<rparr>"
  by (simp add: count_failure_def Let_def)

lemma entry_locked:
  "locked_until s = Some t \<Longrightarrow> failures s + length fs < 2 ^ 32 \<Longrightarrow>
   entry_after (Some s) fs = Some (s\<lparr>failures := failures s + length fs\<rparr>)"
proof (induction fs arbitrary: s)
  case (Cons f fs)
  then show ?case
    using Cons.IH [of "s\<lparr>failures := failures s + 1\<rparr>"] count_locked [of s t]
    by (cases f) (auto simp: entry_after_def)
qed (simp add: entry_after_def)

lemma entry_fresh_4: "length fs \<le> 4 \<Longrightarrow>
   entry_after None fs = (if fs = [] then None else Some \<lparr>failures = length fs, locked_until = None\<rparr>)"
proof (induction fs rule: rev_induct)
  case (snoc f fs)
  then show ?case by (cases f) (auto simp: entry_after_def count_failure_def Let_def)
qed (simp add: entry_after_def)

lemma entry_fresh_5:
  assumes "5 \<le> length fs" and "length fs < 2 ^ 32"
  shows "entry_after None fs = Some \<lparr>failures = length fs, locked_until = Some (fst (snd (snd (fs ! 4))) + minutes 15)\<rparr>"
proof -
  let ?four = "take 4 fs" and ?rest = "drop 5 fs"
  obtain iter n1 n2 u where f: "fs ! 4 = (iter, n1, n2, u)" by (cases "fs ! 4") auto
  have fs: "fs = ?four @ fs ! 4 # ?rest" using assms(1) id_take_nth_drop [of 4 fs] by (simp add: numeral_eq_Suc)
  have "entry_after None (?four @ [fs ! 4]) = Some \<lparr>failures = 5, locked_until = Some (n2 + minutes 15)\<rparr>"
    using entry_fresh_4 [of ?four] assms(1) f by (auto simp: entry_after_def count_failure_def Let_def)
  moreover have "entry_after None fs = entry_after (entry_after None (?four @ [fs ! 4])) ?rest"
    by (subst fs) (simp add: entry_after_def)
  ultimately show ?thesis
    using entry_locked [of "\<lparr>failures = 5, locked_until = Some (n2 + minutes 15)\<rparr>" "n2 + minutes 15" ?rest] assms f by simp
qed

lemma of_account_le: "length (of_account k fs) \<le> length fs"
  by (simp add: of_account_def)

lemma small_table_counts: "length lk + length fs < MAX_LOCKOUT_ENTRIES \<Longrightarrow> length (of_account k fs) < 2 ^ 32"
  using of_account_le [of k fs] by (simp add: MAX_LOCKOUT_ENTRIES_def)

lemma locked_login:
  "locked_out (clock 0) (as_lockouts svc) (u_lower env (lr_username req)) \<Longrightarrow> login env crypto clock iter req svc = (svc, Inl InvalidCredentials)"
  by (simp add: login_def)

text \<open>
  C32 (safety): An account that has no failure record is locked by its fifth failed login, whatever other accounts fail in between and as long
  as the table of records stays below its bound of ten thousand, for exactly
  fifteen minutes: in that time every login is refused without a look at the password and nothing changes. (Beyond the bound records
  without a lock are thrown out; an account whose record is left from an expired lock is not locked again.)
\<close>

theorem five_failures_lock_the_account:
  assumes "as_lockouts svc = fail_all fs lk" and "map_of lk k = None" and "length lk + length fs < MAX_LOCKOUT_ENTRIES"
    and "u_lower env (lr_username req) = k"
  shows "(locked_out now (as_lockouts svc) k \<longleftrightarrow>
            5 \<le> length (of_account k fs) \<and> now < fst (snd (snd (of_account k fs ! 4))) + minutes 15)
    \<and> (locked_out (clock 0) (as_lockouts svc) k \<longrightarrow> login env crypto clock iter req svc = (svc, Inl InvalidCredentials))"
proof (intro conjI)
  let ?fk = "of_account k fs"
  have e: "map_of (as_lockouts svc) k = entry_after None ?fk" using entry_small [OF assms(3)] assms(1,2) by simp
  from e show "locked_out now (as_lockouts svc) k \<longleftrightarrow> 5 \<le> length ?fk \<and> now < fst (snd (snd (?fk ! 4))) + minutes 15"
  proof (cases "5 \<le> length ?fk")
    case True
    then show ?thesis using entry_fresh_5 [OF True small_table_counts [OF assms(3)]] e by (simp add: locked_out_def)
  next
    case False
    then show ?thesis using entry_fresh_4 [of ?fk] e by (auto simp: locked_out_def)
  qed
  show "locked_out (clock 0) (as_lockouts svc) k \<longrightarrow> login env crypto clock iter req svc = (svc, Inl InvalidCredentials)"
    using locked_login [of clock svc env req crypto iter] assms(4) by simp
qed

lemma locked_entry_kept:
  assumes "map_of lk k = Some s" and "locked_until s = Some t" and "failures s + length fs < 2 ^ 32"
    and "\<forall>(_, n1, _, _) \<in> set fs. n1 < t"
  shows "\<exists>s'. map_of (fail_all fs lk) k = Some s' \<and> locked_until s' = Some t \<and> failures s \<le> failures s'"
  using assms
proof (induction fs arbitrary: lk s)
  case (Cons f fs)
  obtain iter n1 n2 u where f: "f = (iter, n1, n2, u)" by (cases f) auto
  have "\<not> evictable n1 lk k" using Cons.prems f by (auto simp: evictable_def)
  then have at: "map_of (record_failure iter n1 n2 u lk) k = Some (if u = k then s\<lparr>failures := failures s + 1\<rparr> else s)"
    using record_failure_at [OF evict_keeps] count_locked [OF Cons.prems(2)] Cons.prems(1,3) by simp
  let ?s = "if u = k then s\<lparr>failures := failures s + 1\<rparr> else s"
  have "locked_until ?s = Some t" "failures ?s + length fs < 2 ^ 32" "failures s \<le> failures ?s" "\<forall>(_, n1, _, _) \<in> set fs. n1 < t"
    using Cons.prems by auto
  then show ?case using Cons.IH [OF at] f by (fastforce simp: fail_all_def)
qed (simp add: fail_all_def)

text \<open>
  A lock is kept until it ends but never renewed. Whatever accounts fail while it is active, the record is not thrown out and
  its end does not move; after its end any number of further failed logins of the account leaves it unlocked, as
  long as the record is not thrown out: from then on every guess is checked.
\<close>

theorem lock_is_kept_but_never_renewed:
  assumes "map_of lk k = Some s" and "locked_until s = Some t" and "5 \<le> failures s" and "failures s + length fs < 2 ^ 32"
    and "(\<forall>(_, n1, _, _) \<in> set fs. n1 < t) \<or> length lk + length fs < MAX_LOCKOUT_ENTRIES"
  shows "locked_out now (fail_all fs lk) k \<longleftrightarrow> now < t"
proof -
  have "\<exists>s'. map_of (fail_all fs lk) k = Some s' \<and> locked_until s' = Some t \<and> failures s \<le> failures s'"
    using assms(5)
  proof
    assume "\<forall>(_, n1, _, _) \<in> set fs. n1 < t"
    then show ?thesis using locked_entry_kept [OF assms(1,2,4)] by blast
  next
    assume small: "length lk + length fs < MAX_LOCKOUT_ENTRIES"
    have "failures s + length (of_account k fs) < 2 ^ 32"
      using of_account_le [of k fs] assms(4) by linarith
    then show ?thesis using entry_small [OF small, of k] entry_locked [OF assms(2)] assms(1,2) by simp
  qed
  then show ?thesis using assms(3) by (auto simp: locked_out_def)
qed

section \<open>Setup\<close>

text \<open>
  C31 (invariant): From a fresh installation on, under any interleaving of requests, restarts and crypto failures, user ids, names without
  case, API keys and session tokens are unique, every session belongs to a user, and there is an administrator.
\<close>

theorem accounts_stay_well_formed:
  assumes "auth_run env fresh_sys s"
  shows "db_ok (sys_db s)"
  using run_inv [OF assms] by (simp add: sys_inv_def)

text \<open>
  C30 (safety): The setup is claimed at most once, and exactly when it is no longer pending; the request that claimed it carried a token the
  server had issued. Until then no request is authenticated, by session or API key, no password is accepted
  and no session exists.
\<close>

theorem setup_is_claimed_once_with_the_token:
  assumes "auth_run env fresh_sys s" and "crypto_ok crypto"
  shows "length (sys_claims s) = (if has_pending_setup (sys_db s) then 0 else 1)
    \<and> list_all (token_known (sys_issued s)) (sys_claims s)
    \<and> (has_pending_setup (sys_db s) \<longrightarrow>
         isl (auth_middleware crypto now h (sys_db s)) \<and> isl (verify_credentials crypto name pw (sys_svc s)) \<and> db_sessions (sys_db s) = [])"
proof (intro conjI)
  have inv: "setup_open s \<or> setup_closed s" "tokens_ok s" using run_inv [OF assms(1)] by (simp_all add: sys_inv_def)
  show "length (sys_claims s) = (if has_pending_setup (sys_db s) then 0 else 1)"
    using inv(1) untouched_pending by (auto simp: setup_open_def setup_closed_def)
  show "list_all (token_known (sys_issued s)) (sys_claims s)" using inv(2) by (simp add: tokens_ok_def)
  show "has_pending_setup (sys_db s) \<longrightarrow>
      isl (auth_middleware crypto now h (sys_db s)) \<and> isl (verify_credentials crypto name pw (sys_svc s)) \<and> db_sessions (sys_db s) = []"
  proof
    assume "has_pending_setup (sys_db s)"
    then have u: "untouched (sys_db s)" using inv(1) by (simp add: setup_open_def setup_closed_def)
    have "isl (verify_credentials crypto name pw (sys_svc s))"
      using untouched_no_login [OF u assms(2), of name pw] by (cases "verify_credentials crypto name pw (sys_svc s)") (auto simp: verify_credentials_def)
    moreover have "isl (auth_middleware crypto now h (sys_db s))"
      using untouched_no_session [OF u, of crypto now] untouched_no_api_key [OF u assms(2)]
      by (cases "auth_middleware crypto now h (sys_db s)") (auto simp: auth_middleware_def split: option.splits sum.splits)
    ultimately show "isl (auth_middleware crypto now h (sys_db s)) \<and> isl (verify_credentials crypto name pw (sys_svc s)) \<and> db_sessions (sys_db s) = []"
      using u by (simp add: untouched_def)
  qed
qed

section \<open>Sessions\<close>

lemma open_session_Inr:
  assumes "open_session crypto n uid pers e c svc = (svc', Inr token)"
  shows "\<exists>th. c_hash_token crypto token = Some th \<and> (\<forall>s \<in> set (db_sessions (as_db svc)). se_token_hash s \<noteq> th)
    \<and> uid \<in> us_id ` set (db_users (as_db svc))
    \<and> svc' = svc\<lparr>as_db := (as_db svc)\<lparr>db_sessions := db_sessions (as_db svc) @
          [\<lparr>se_token_hash = th, se_user_id = uid, se_persistent = pers, se_created_at = c, se_expires_at = e\<rparr>]\<rparr>\<rparr>"
  using assms by (auto simp: open_session_def create_session_def split: option.splits if_splits)

lemma get_session_append:
  "\<forall>s \<in> set ss. se_token_hash s \<noteq> se_token_hash n \<Longrightarrow>
   get_session now (db\<lparr>db_sessions := ss @ [n]\<rparr>) th =
     (if th = se_token_hash n then if now < se_expires_at n then Some n else None else get_session now (db\<lparr>db_sessions := ss\<rparr>) th)"
  by (induction ss) (auto simp: get_session_def)

lemma get_session_deleted:
  "get_session now (delete_session th db) th' = (if th' = th then None else get_session now db th')"
proof -
  have "find (\<lambda>s. se_token_hash s = th' \<and> now < se_expires_at s) (filter (\<lambda>s. se_token_hash s \<noteq> th) ss) =
     (if th' = th then None else find (\<lambda>s. se_token_hash s = th' \<and> now < se_expires_at s) ss)" for ss
    by (induction ss) auto
  from this [of "db_sessions db"] show ?thesis unfolding get_session_def delete_session_def by simp
qed

text \<open>
  C33 (roundtrip): A token from a login belongs to the account whose password was given, until twenty-four hours or thirty days after the
  login, and after a logout no more; all other tokens keep their meaning through both.
\<close>

theorem session_lives_until_expiry_or_logout:
  assumes "login env crypto clock iter req svc = (svc', Inr token)"
  shows "\<exists>u th. check_password crypto (as_db svc) (lr_username req) (lr_password req) = Inr u \<and> c_hash_token crypto token = Some th
    \<and> (\<forall>now t. verify_token crypto now t svc' =
          (if c_hash_token crypto t = Some th
           then if now < clock 1 + (if lr_remember_me req then days 30 else hours 24) then Inr (us_id u) else Inl InvalidCredentials
           else verify_token crypto now t svc))
    \<and> (\<forall>now t. verify_token crypto now t (logout th svc') =
          (if c_hash_token crypto t = Some th then Inl InvalidCredentials else verify_token crypto now t svc))"
proof -
  let ?key = "u_lower env (lr_username req)"
  obtain u where u: "check_password crypto (as_db svc) (lr_username req) (lr_password req) = Inr u"
      "open_session crypto 0 (us_id u) (lr_remember_me req) (session_expiry (lr_remember_me req) (clock 1)) (clock 2) (clear_lockout ?key svc)
        = (svc', Inr token)"
    using assms by (auto simp: login_def Let_def split: if_splits sum.splits auth_error.splits)
  let ?new = "\<lambda>th. \<lparr>se_token_hash = th, se_user_id = us_id u, se_persistent = lr_remember_me req, se_created_at = clock 2,
    se_expires_at = session_expiry (lr_remember_me req) (clock 1)\<rparr>"
  obtain th where th: "c_hash_token crypto token = Some th" "\<forall>s \<in> set (db_sessions (as_db svc)). se_token_hash s \<noteq> th"
      "as_db svc' = (as_db svc)\<lparr>db_sessions := db_sessions (as_db svc) @ [?new th]\<rparr>"
    using open_session_Inr [OF u(2)] by (auto simp: clear_lockout_def)
  have get: "get_session now (as_db svc') x =
      (if x = th then if now < session_expiry (lr_remember_me req) (clock 1) then Some (?new th) else None
       else get_session now (as_db svc) x)" for now x
    using get_session_append [of "db_sessions (as_db svc)" "?new th" now "as_db svc" x] th(2,3) by simp
  have "verify_token crypto now t svc' =
      (if c_hash_token crypto t = Some th
       then if now < clock 1 + (if lr_remember_me req then days 30 else hours 24) then Inr (us_id u) else Inl InvalidCredentials
       else verify_token crypto now t svc)" for now t
    by (auto simp: verify_token_def get session_expiry_def split: option.split)
  moreover have "verify_token crypto now t (logout th svc') =
      (if c_hash_token crypto t = Some th then Inl InvalidCredentials else verify_token crypto now t svc)" for now t
    by (auto simp: verify_token_def logout_def get_session_deleted get split: option.split)
  ultimately show ?thesis using u(1) th(1) by blast
qed

section \<open>Changing the password\<close>

lemma prepare_password:
  "prepare_update env crypto name (Some pw) role = Inr db_req \<Longrightarrow> \<exists>h. c_hash_password crypto pw = Some h \<and> uu_password_hash db_req = Some h"
  by (auto simp: prepare_update_def split: option.splits)

lemma get_replaced: "us_id u' = uid \<Longrightarrow> (\<exists>v \<in> set (db_users db). us_id v = uid) \<Longrightarrow> get_user (replace_user u' db) uid = Inr u'"
proof -
  assume "us_id u' = uid" "\<exists>v \<in> set (db_users db). us_id v = uid"
  then have "find (\<lambda>u. us_id u = uid) (map (\<lambda>v. if us_id v = us_id u' then u' else v) us) = Some u'"
    if "\<exists>v \<in> set us. us_id v = uid" for us using that by (induction us) auto
  then show ?thesis using \<open>\<exists>v \<in> set (db_users db). us_id v = uid\<close> by (simp add: get_user_def replace_user_def)
qed

lemma update_user_cases:
  "(\<exists>e. update_user now uid req db = (db, Inl e))
   \<or> (\<exists>u'. update_user now uid req db = (replace_user u' db, Inr u') \<and> us_id u' = uid
         \<and> (\<exists>v \<in> set (db_users db). us_id v = uid) \<and> (\<forall>h. uu_password_hash req = Some h \<longrightarrow> us_password_hash u' = h))"
proof (cases "find (\<lambda>u. us_id u = uid \<and> (us_role u \<noteq> RoleAdmin \<or> coalesce (uu_role req) (us_role u) \<noteq> RoleUser \<or> count_admins db > 1)) (db_users db)")
  case (Some u)
  let ?u' = "u\<lparr>us_username := coalesce (uu_username req) (us_username u), us_password_hash := coalesce (uu_password_hash req) (us_password_hash u),
    us_role := coalesce (uu_role req) (us_role u), us_updated_at := now\<rparr>"
  have u: "u \<in> set (db_users db)" "us_id u = uid" using find_SomeD [OF Some] by auto
  have "get_user (replace_user ?u' db) uid = Inr ?u'" by (rule get_replaced) (use u in auto)
  then have "update_user now uid req db = (if violates_unique (db_users db) ?u' then (db, Inl DbConstraint) else (replace_user ?u' db, Inr ?u'))"
    unfolding update_user_def Some by (simp add: Let_def)
  moreover have "us_id ?u' = uid" "\<forall>h. uu_password_hash req = Some h \<longrightarrow> us_password_hash ?u' = h"
    using u by (simp_all add: coalesce_def)
  ultimately show ?thesis using u by (cases "violates_unique (db_users db) ?u'") (simp, metis)
qed (simp add: update_user_def)

lemma update_user_Inr:
  assumes "update_user now uid req db = (db', Inr u)"
  shows "db_sessions db' = db_sessions db \<and> us_id u = uid \<and> get_user db' uid = Inr u
    \<and> (\<forall>h. uu_password_hash req = Some h \<longrightarrow> us_password_hash u = h)"
  using update_user_cases [of now uid req db] get_replaced [of u uid db] assms by (auto simp: replace_user_def)

lemma update_user_Inl: "update_user now uid req db = (db', Inl e) \<Longrightarrow> db' = db"
  using update_user_cases [of now uid req db] by auto

lemma store_update_Inr:
  assumes "store_update err now uid db_req svc = (svc', Inr r)"
  shows "\<exists>u. get_user (as_db svc') uid = Inr u \<and> r = user_to_response u \<and> db_sessions (as_db svc') = db_sessions (as_db svc)
    \<and> (\<forall>h. uu_password_hash db_req = Some h \<longrightarrow> us_password_hash u = h)"
  using assms update_user_Inr by (fastforce simp: store_update_def split: prod.splits sum.splits)

lemma store_update_Inl: "store_update err now uid db_req svc = (svc', Inl e) \<Longrightarrow> svc' = svc"
  by (auto simp: store_update_def split: prod.splits sum.splits dest!: update_user_Inl)

lemma sessions_dropped: "db_sessions (as_db (drop_sessions uid svc)) = filter (\<lambda>s. se_user_id s \<noteq> uid) (db_sessions (as_db svc))"
  by (simp add: drop_sessions_def delete_user_sessions_def)

lemma users_dropped: "db_users (as_db (drop_sessions uid svc)) = db_users (as_db svc)"
  by (simp add: drop_sessions_def delete_user_sessions_def)

text \<open>
  A change of the password that succeeds stores the hash of the new one and ends exactly the sessions of that account, on both
  roads. A refused change leaves the accounts as they were; the administrator's road then keeps the sessions too, the
  profile road may have ended them.
\<close>

theorem password_change_ends_the_sessions:
  assumes "c_hash_password crypto pw = Some h"
    and "update_profile env crypto now uid \<lparr>pr_username = name, pr_password = Some pw\<rparr> svc = (svc1, r1)"
    and "admin_update_user env crypto now uid \<lparr>au_username = name, au_password = Some pw, au_role = role\<rparr> svc = (svc2, r2)"
  shows "(case r1 of
            Inr _ \<Rightarrow> \<exists>u. get_user (as_db svc1) uid = Inr u \<and> us_password_hash u = h
                \<and> db_sessions (as_db svc1) = filter (\<lambda>s. se_user_id s \<noteq> uid) (db_sessions (as_db svc))
          | Inl _ \<Rightarrow> svc1 = svc \<or> svc1 = drop_sessions uid svc)
    \<and> (case r2 of
            Inr _ \<Rightarrow> \<exists>u. get_user (as_db svc2) uid = Inr u \<and> us_password_hash u = h
                \<and> db_sessions (as_db svc2) = filter (\<lambda>s. se_user_id s \<noteq> uid) (db_sessions (as_db svc))
          | Inl _ \<Rightarrow> svc2 = svc)"
proof
  show "case r1 of Inr _ \<Rightarrow> \<exists>u. get_user (as_db svc1) uid = Inr u \<and> us_password_hash u = h
      \<and> db_sessions (as_db svc1) = filter (\<lambda>s. se_user_id s \<noteq> uid) (db_sessions (as_db svc))
    | Inl _ \<Rightarrow> svc1 = svc \<or> svc1 = drop_sessions uid svc"
  proof (cases "prepare_update env crypto name (Some pw) None")
    case (Inr db_req)
    then have p: "uu_password_hash db_req = Some h" using prepare_password assms(1) by fastforce
    then have st: "store_update not_found_error now uid db_req (drop_sessions uid svc) = (svc1, r1)"
      using assms(2) Inr by (simp add: update_profile_def)
    show ?thesis
    proof (cases r1)
      case (Inl e)
      then show ?thesis using store_update_Inl st by simp
    next
      case (Inr r)
      then show ?thesis using store_update_Inr [of not_found_error now uid db_req "drop_sessions uid svc" svc1 r] st p sessions_dropped by auto
    qed
  qed (use assms(2) in \<open>auto simp: update_profile_def\<close>)
  show "case r2 of Inr _ \<Rightarrow> \<exists>u. get_user (as_db svc2) uid = Inr u \<and> us_password_hash u = h
      \<and> db_sessions (as_db svc2) = filter (\<lambda>s. se_user_id s \<noteq> uid) (db_sessions (as_db svc))
    | Inl _ \<Rightarrow> svc2 = svc"
  proof (cases "prepare_update env crypto name (Some pw) role")
    case (Inr db_req)
    then have p: "uu_password_hash db_req = Some h" using prepare_password assms(1) by fastforce
    obtain svc' r where st: "store_update admin_error now uid db_req svc = (svc', r)" by fastforce
    show ?thesis
    proof (cases r)
      case (Inl e)
      then show ?thesis using store_update_Inl [of admin_error now uid db_req svc svc' e] st assms(3) Inr by (auto simp: admin_update_user_def)
    next
      case (Inr r')
      then show ?thesis
        using store_update_Inr [of admin_error now uid db_req svc svc' r'] st assms(3) p \<open>prepare_update _ _ _ _ _ = _\<close> sessions_dropped [of uid svc'] users_dropped [of uid svc']
        by (auto simp: admin_update_user_def get_user_def)
    qed
  qed (use assms(3) in \<open>auto simp: admin_update_user_def\<close>)
qed

lemma own_update_succeeds:
  assumes "db_ok db" and "u \<in> set (db_users db)" and "uu_username req = None" and "uu_role req = None"
  shows "\<exists>u'. update_user now (us_id u) req db = (replace_user u' db, Inr u') \<and> us_id u' = us_id u
    \<and> (\<forall>h. uu_password_hash req = Some h \<longrightarrow> us_password_hash u' = h)"
proof -
  let ?P = "\<lambda>v. us_id v = us_id u \<and> (us_role v \<noteq> RoleAdmin \<or> coalesce (uu_role req) (us_role v) \<noteq> RoleUser \<or> count_admins db > 1)"
  have "?P u" using assms(4) by (cases "us_role u") (auto simp: coalesce_def)
  then obtain v where f: "find ?P (db_users db) = Some v" using assms(2) by (cases "find ?P (db_users db)") (auto simp: find_None_iff)
  have v: "v = u" using find_SomeD [OF f] assms(1,2) by (auto simp: db_ok_def distinct_map inj_on_def)
  have "\<not> violates_unique (db_users db) (u\<lparr>us_password_hash := h, us_updated_at := now\<rparr>)" for h
    using assms(1,2) by (auto simp: violates_unique_def same_username_def db_ok_def distinct_map inj_on_def)
  then have "\<exists>u'. snd (update_user now (us_id u) req db) = Inr u'"
    using f v assms(2,3,4) get_replaced [of "u\<lparr>us_password_hash := coalesce (uu_password_hash req) (us_password_hash u), us_updated_at := now\<rparr>" "us_id u" db]
    unfolding update_user_def by (auto simp: coalesce_def Let_def)
  then show ?thesis using update_user_cases [of now "us_id u" req db] by auto
qed

text \<open>
  A login that overlaps a change of the password on the profile road survives it. The sessions are ended before the new password
  is stored; a login with the old password in between opens a session that is still there, for its full twenty-four
  hours, when the change has succeeded.
\<close>

theorem login_during_password_change_survives:
  fixes clock :: "nat \<Rightarrow> int"
  assumes "crypto_ok crypto" and "db_ok (sys_db s)" and "sys_tasks s = [Authorized ctx]"
    and "prepare_update env crypto None (Some new) None = Inr db_req" and "c_hash_password crypto new = Some h"
    and "check_password crypto (sys_db s) name old = Inr u" and "us_id (ac_user ctx) = us_id u"
    and "\<not> locked_out (clock 0) (as_lockouts (sys_svc s)) (u_lower env name)"
    and "c_generate_token crypto 0 = Some token" and "c_hash_token crypto token = Some th"
    and "\<forall>se \<in> set (db_sessions (sys_db s)). se_token_hash se \<noteq> th"
  shows "\<exists>s'. auth_run env s s' \<and> sys_tasks s' = []
    \<and> (\<exists>u'. get_user (sys_db s') (us_id u) = Inr u' \<and> us_password_hash u' = h)
    \<and> (\<exists>se \<in> set (db_sessions (sys_db s')). se_token_hash se = th \<and> se_user_id se = us_id u \<and> se_expires_at se = clock 1 + hours 24)"
proof -
  let ?req = "\<lparr>lr_username = name, lr_password = old, lr_remember_me = False\<rparr>"
  let ?dropped = "drop_sessions (us_id u) (sys_svc s)"
  let ?s1 = "s\<lparr>sys_svc := ?dropped, sys_tasks := [ProfileStore (us_id u) db_req]\<rparr>"
  have p: "uu_password_hash db_req = Some h" "uu_username db_req = None" "uu_role db_req = None"
    using assms(4,5) by (auto simp: prepare_update_def validate_optional_def split: option.splits)
  have u: "u \<in> set (db_users (sys_db s))"
    using assms(6) by (auto simp: check_password_def get_user_by_username_def split: option.splits db_error.splits bool.splits dest: find_SomeD)
  have one: "auth_step env s ?s1"
    using Profile [of ctx s crypto env "\<lparr>pr_username = None, pr_password = Some new\<rparr>" db_req] assms(1,3,4,7) p(1) by (simp add: move_def)
  let ?svc = "fst (login env crypto clock [] ?req ?dropped)"
  have two: "auth_run env ?s1 (?s1\<lparr>sys_svc := ?svc\<rparr>)"
    using login_is_a_run [OF assms(1), of env ?s1 clock "[]" ?req] by simp
  have db: "db_users (as_db ?svc) = db_users (sys_db s)"
      "\<exists>se \<in> set (db_sessions (as_db ?svc)). se_token_hash se = th \<and> se_user_id se = us_id u \<and> se_expires_at se = clock 1 + hours 24"
  proof -
    have "check_password crypto (as_db ?dropped) name old = Inr u"
      using assms(6) by (simp add: check_password_def get_user_by_username_def users_dropped)
    moreover have "as_lockouts ?dropped = as_lockouts (sys_svc s)" by (simp add: drop_sessions_def)
    ultimately have "?svc = fst (open_session crypto 0 (us_id u) False (clock 1 + hours 24) (clock 2) (clear_lockout (u_lower env name) ?dropped))"
      using assms(8) by (simp add: login_def session_expiry_def)
    then show "db_users (as_db ?svc) = db_users (sys_db s)"
        "\<exists>se \<in> set (db_sessions (as_db ?svc)). se_token_hash se = th \<and> se_user_id se = us_id u \<and> se_expires_at se = clock 1 + hours 24"
      using assms(9,10,11) u users_dropped [of "us_id u" "sys_svc s"] sessions_dropped [of "us_id u" "sys_svc s"]
      by (auto simp: open_session_def create_session_def clear_lockout_def)
  qed
  have ok: "db_ok (as_db ?svc)" using tables.login_keeps tables.drop_sessions_keeps assms(2) by blast
  obtain u' where u': "update_user 0 (us_id u) db_req (as_db ?svc) = (replace_user u' (as_db ?svc), Inr u')" "us_id u' = us_id u" "us_password_hash u' = h"
    using own_update_succeeds [OF ok, of u db_req 0] u db(1) p by auto
  let ?s3 = "s\<lparr>sys_svc := ?svc\<lparr>as_db := replace_user u' (as_db ?svc)\<rparr>, sys_tasks := []\<rparr>"
  have "auth_step env (?s1\<lparr>sys_svc := ?svc\<rparr>) ?s3"
    using ProfileWrite [of "us_id u" db_req "?s1\<lparr>sys_svc := ?svc\<rparr>" env 0] u'(1) by (simp add: move_def store_update_def)
  then have "auth_run env s ?s3" using one two by (meson converse_rtranclp_into_rtranclp rtranclp.rtrancl_into_rtrancl)
  moreover have "get_user (sys_db ?s3) (us_id u) = Inr u'" using get_replaced [of u' "us_id u" "as_db ?svc"] u'(2) u db(1) by auto
  moreover have "db_sessions (sys_db ?s3) = db_sessions (as_db ?svc)" by (simp add: replace_user_def)
  ultimately show ?thesis using db(2) u'(3) by (intro exI [of _ ?s3]) auto
qed

section \<open>Instances\<close>

definition ex_crypto :: auth_crypto where
  "ex_crypto = \<lparr>c_hash_password = (\<lambda>p. Some (104 # p)), c_verify_password = (\<lambda>p h. Some (h = 104 # p)),
     c_generate_token = (\<lambda>n. Some [116, n]), c_hash_token = (\<lambda>t. Some (35 # t))\<rparr>"

definition ex_user :: user where
  "ex_user = \<lparr>us_id = 1, us_username = tx ''abc'', us_password_hash = 104 # tx ''old'', us_role = RoleAdmin, us_api_key_hash = [1],
     us_setup_pending = False, us_created_at = 0, us_updated_at = 0\<rparr>"

definition ex_service :: auth_service where
  "ex_service = service_new \<lparr>db_users = [ex_user], db_sessions = [], db_next_user_id = 2\<rparr>"

definition ex_login :: login_request where
  "ex_login = \<lparr>lr_username = tx ''ABC'', lr_password = tx ''old'', lr_remember_me = False\<rparr>"

definition new_password :: utext where
  "new_password = [120, 120, 120, 120, 120, 120, 120, 120]"

lemma ex_crypto_ok: "crypto_ok ex_crypto"
  by (simp add: crypto_ok_def ex_crypto_def)

lemma ex_check: "check_password ex_crypto (as_db ex_service) (tx ''ABC'') (tx ''old'') = Inr ex_user"
  by (simp add: check_password_def get_user_by_username_def ex_service_def service_new_def ex_user_def ex_crypto_def same_username_def
      text_ascii_lower_def tx_def)

lemma ex_prepare: "prepare_update ascii_env ex_crypto None (Some new_password) role =
    Inr \<lparr>uu_username = None, uu_password_hash = Some (104 # new_password), uu_role = role\<rparr>"
  by (simp add: prepare_update_def validate_optional_def validate_password_def utf8_len_def utf8_width_def new_password_def ex_crypto_def)

theorem five_failures_lock_the_account_witness:
  "login ascii_env ex_crypto (\<lambda>_. 1) [] ex_login (ex_service\<lparr>as_lockouts := fail_all (replicate 5 ([], 0, 0, tx ''abc'')) []\<rparr>) =
     (ex_service\<lparr>as_lockouts := fail_all (replicate 5 ([], 0, 0, tx ''abc'')) []\<rparr>, Inl InvalidCredentials)"
proof -
  let ?fs = "replicate 5 ([], 0, 0, tx ''abc'')" and ?svc = "ex_service\<lparr>as_lockouts := fail_all (replicate 5 ([], 0, 0, tx ''abc'')) []\<rparr>"
  have k: "u_lower ascii_env (lr_username ex_login) = tx ''abc''"
    by (simp add: ascii_env_def ex_login_def text_ascii_lower_def tx_def)
  have "length (of_account (tx ''abc'') ?fs) = 5" "fst (snd (snd (of_account (tx ''abc'') ?fs ! 4))) = 0"
    by (simp_all add: of_account_def)
  then show ?thesis
    using five_failures_lock_the_account [of ?svc ?fs "[]" "tx ''abc''" ascii_env ex_login 1 "\<lambda>_. 1" ex_crypto "[]"] k
    by (simp add: MAX_LOCKOUT_ENTRIES_def minutes_def)
qed

theorem lock_is_kept_but_never_renewed_witness:
  "\<not> locked_out 10 (fail_all (replicate 7 ([], 10, 10, tx ''a'')) [(tx ''a'', \<lparr>failures = 5, locked_until = Some 10\<rparr>)]) (tx ''a'')"
  using lock_is_kept_but_never_renewed [of "[(tx ''a'', \<lparr>failures = 5, locked_until = Some 10\<rparr>)]" "tx ''a''"
      "\<lparr>failures = 5, locked_until = Some 10\<rparr>" 10 "replicate 7 ([], 10, 10, tx ''a'')" 10]
  by (simp add: MAX_LOCKOUT_ENTRIES_def)

definition ex_setup :: setup_request where
  "ex_setup = \<lparr>sr_username = tx ''abc'', sr_password = new_password, sr_setup_token = Some (tx '' t'')\<rparr>"

definition started_sys :: auth_sys where
  "started_sys = \<lparr>sys_svc = build_db_and_auth fresh_db (Some \<lparr>tok_value = tx ''t'', tok_file = []\<rparr>), sys_tasks = [], sys_claims = [],
     sys_issued = [tx ''t'']\<rparr>"

lemma ex_started: "auth_step ascii_env fresh_sys started_sys"
  using Restart [of fresh_sys "[]" NoEntry "Some (tx ''t'')" True "Some \<lparr>tok_value = tx ''t'', tok_file = []\<rparr>" ascii_env]
  by (simp add: fresh_sys_def started_sys_def service_new_def fresh_db_def placeholder_admin_def prepare_setup_token_def has_pending_setup_def
      issue_setup_token_def reusable_token_def)

lemma ex_set_up: "\<exists>s. auth_run ascii_env fresh_sys s \<and> \<not> has_pending_setup (sys_db s)"
proof -
  let ?svc = "fst (complete_setup ascii_env ex_crypto (\<lambda>_. 0) ex_setup (sys_svc started_sys))"
  have "\<not> has_pending_setup (as_db ?svc)"
    by (simp add: complete_setup_def setup_checks_def ex_setup_def validate_username_def validate_password_def utf8_len_def utf8_width_def new_password_def tx_def
        ascii_env_def is_ascii_alphanumeric_def is_setup_complete_def started_sys_def build_db_and_auth_def with_setup_token_def service_new_def
        fresh_db_def placeholder_admin_def has_pending_setup_def check_setup_token_def text_trim_def text_trim_start_def text_trim_end_def
        is_whitespace_def account_secrets_def ex_crypto_def claim_setup_def claim_select_def claim_update_def setup_db_request_def violates_unique_def
        replace_user_def open_session_def create_session_def consume_setup_token_def)
  moreover obtain claims where "auth_run ascii_env started_sys (started_sys\<lparr>sys_svc := ?svc, sys_claims := claims @ sys_claims started_sys\<rparr>)"
    using complete_setup_is_a_run [OF ex_crypto_ok] by blast
  ultimately show ?thesis
    using ex_started by (intro exI [of _ "started_sys\<lparr>sys_svc := ?svc, sys_claims := claims @ sys_claims started_sys\<rparr>"]) auto
qed

theorem accounts_stay_well_formed_witness:
  "\<exists>s. auth_run ascii_env fresh_sys s \<and> \<not> has_pending_setup (sys_db s) \<and> db_ok (sys_db s)"
  using ex_set_up accounts_stay_well_formed by blast

theorem setup_is_claimed_once_with_the_token_witness:
  "\<exists>s. auth_run ascii_env fresh_sys s \<and> length (sys_claims s) = 1 \<and> list_all (token_known (sys_issued s)) (sys_claims s)"
  using ex_set_up setup_is_claimed_once_with_the_token [OF _ ex_crypto_ok] by (metis (no_types, lifting))

theorem session_lives_until_expiry_or_logout_witness:
  "verify_token ex_crypto 7 [116, 0] (fst (login ascii_env ex_crypto (\<lambda>_. 0) [] ex_login ex_service)) = Inr 1"
proof -
  let ?svc = "fst (login ascii_env ex_crypto (\<lambda>_. 0) [] ex_login ex_service)"
  have "login ascii_env ex_crypto (\<lambda>_. 0) [] ex_login ex_service = (?svc, Inr [116, 0])"
    using ex_check by (simp add: login_def ex_login_def locked_out_def ex_service_def service_new_def open_session_def ex_crypto_def
        create_session_def clear_lockout_def ex_user_def)
  from session_lives_until_expiry_or_logout [OF this] show ?thesis
    using ex_check by (auto simp: ex_crypto_def ex_login_def ex_user_def hours_def minutes_def)
qed

theorem password_change_ends_the_sessions_witness:
  "\<exists>u. get_user (as_db (fst (update_profile ascii_env ex_crypto 5 1 \<lparr>pr_username = None, pr_password = Some new_password\<rparr> ex_service))) 1 = Inr u
     \<and> us_password_hash u = 104 # new_password"
proof -
  let ?r = "update_profile ascii_env ex_crypto 5 1 \<lparr>pr_username = None, pr_password = Some new_password\<rparr> ex_service"
  let ?a = "admin_update_user ascii_env ex_crypto 5 1 \<lparr>au_username = None, au_password = Some new_password, au_role = None\<rparr> ex_service"
  have "\<exists>x. snd ?r = Inr x"
    by (simp add: update_profile_def ex_prepare store_update_def drop_sessions_def delete_user_sessions_def update_user_def ex_service_def
        service_new_def ex_user_def coalesce_def violates_unique_def replace_user_def get_user_def Let_def)
  then obtain x where x: "?r = (fst ?r, Inr x)" by (metis prod.collapse)
  show ?thesis
    using password_change_ends_the_sessions [of ex_crypto new_password "104 # new_password" ascii_env 5 1 None ex_service "fst ?r" "Inr x" None "fst ?a" "snd ?a"] x
    by (auto simp: ex_crypto_def)
qed

theorem login_during_password_change_survives_witness:
  "\<exists>s'. auth_run ascii_env \<lparr>sys_svc = ex_service, sys_tasks = [Authorized \<lparr>ac_user = ex_user, ac_auth_type = AuthApiKey, ac_session_token_hash = None\<rparr>],
       sys_claims = [], sys_issued = []\<rparr> s' \<and> sys_tasks s' = []
     \<and> (\<exists>u'. get_user (sys_db s') 1 = Inr u' \<and> us_password_hash u' = 104 # new_password) \<and> db_sessions (sys_db s') \<noteq> []"
proof -
  let ?ctx = "\<lparr>ac_user = ex_user, ac_auth_type = AuthApiKey, ac_session_token_hash = None\<rparr>"
  let ?s = "\<lparr>sys_svc = ex_service, sys_tasks = [Authorized ?ctx], sys_claims = [], sys_issued = []\<rparr>"
  have ok: "db_ok (sys_db ?s)" by (simp add: db_ok_def ex_service_def service_new_def ex_user_def)
  have "\<exists>s'. auth_run ascii_env ?s s' \<and> sys_tasks s' = []
    \<and> (\<exists>u'. get_user (sys_db s') (us_id ex_user) = Inr u' \<and> us_password_hash u' = 104 # new_password)
    \<and> (\<exists>se \<in> set (db_sessions (sys_db s')). se_token_hash se = 35 # [116, 0] \<and> se_user_id se = us_id ex_user \<and> se_expires_at se = 0 + hours 24)"
    using ex_check
    by (intro login_during_password_change_survives [OF ex_crypto_ok ok _ ex_prepare, where ctx = ?ctx and name = "tx ''ABC''" and old = "tx ''old''"
        and clock = "\<lambda>_. 0" and token = "[116, 0]"])
      (simp_all add: ex_crypto_def locked_out_def ex_service_def service_new_def)
  then show ?thesis by (force simp: ex_user_def)
qed

end
