(* ===== verification/LibraryPaths.thy ===== *)
theory LibraryPaths
  imports Titles
begin

text \<open>
  Where imported files go and where downloads are found: path components made safe (\<^verbatim>\<open>livrarr-domain/src/util.rs\<close>), the target of an
  imported file and its check (\<^verbatim>\<open>livrarr-library/src/import_workflow.rs\<close>), and the two translations of a download
  client's path: the import's own and the poller's (\<^verbatim>\<open>livrarr-server/src/infra/import_pipeline.rs\<close>).

  Paths are UTF-8; \<^verbatim>\<open>Path\<close> is the list of its components, without the empty ones and single dots.
\<close>

section \<open>Path components\<close>

definition is_control :: "cp \<Rightarrow> bool" where
  "is_control c \<longleftrightarrow> c < 32 \<or> 127 \<le> c \<and> c < 160"

definition ILLEGAL :: "cp list" where
  "ILLEGAL = map of_char [CHR 0x5C, CHR ''/'', CHR '':'', CHR ''*'', CHR ''?'', CHR 0x22, CHR ''<'', CHR ''>'', CHR ''|'']"

definition trim_end_matches :: "(cp \<Rightarrow> bool) \<Rightarrow> utext \<Rightarrow> utext" where
  "trim_end_matches p s = rev (dropWhile p (rev s))"

definition sanitize_inner :: "utext \<Rightarrow> utext" where
  "sanitize_inner s =
     trim_end_matches (\<lambda>c. c = 46 \<or> c = 32) (map (\<lambda>c. if c \<in> set ILLEGAL then 95 else c) (filter (\<lambda>c. \<not> is_control c) s))"

text \<open>The longest prefix of whole characters within a number of bytes.\<close>

fun take_bytes :: "nat \<Rightarrow> utext \<Rightarrow> utext" where
  "take_bytes n [] = []"
| "take_bytes n (c # cs) = (if utf8_width c \<le> n then c # take_bytes (n - utf8_width c) cs else [])"

definition MAX_BYTES :: nat where "MAX_BYTES = 255"

definition ELLIPSIS :: utext where "ELLIPSIS = [46, 46, 46]"

definition dot_name :: "utext \<Rightarrow> bool" where
  "dot_name s \<longleftrightarrow> s = [] \<or> s = [46] \<or> s = [46, 46]"

definition truncate_name :: "utext \<Rightarrow> utext" where
  "truncate_name result =
     (if utf8_len result > MAX_BYTES then take_bytes (MAX_BYTES - utf8_len ELLIPSIS) result @ ELLIPSIS else result)"

definition sanitize_path_component :: "utext \<Rightarrow> utext \<Rightarrow> utext" where
  "sanitize_path_component input fallback =
     (let trimmed = sanitize_inner input in
      if dot_name trimmed then
        (let fb = sanitize_inner fallback in if dot_name fb then [95] else truncate_name fb)
      else truncate_name trimmed)"

section \<open>Targets\<close>

definition slash :: "cp \<Rightarrow> bool" where "slash c \<longleftrightarrow> c = 47"

definition components :: "utext \<Rightarrow> utext list" where
  "components s = filter (\<lambda>w. w \<noteq> [] \<and> w \<noteq> [46]) (split_on slash s)"

datatype media_type = Ebook | Audiobook

definition rsplit_dot :: "utext \<Rightarrow> (utext \<times> utext) option" where
  "rsplit_dot s = (if 46 \<in> set s
     then Some (rev (tl (dropWhile (\<lambda>c. c \<noteq> 46) (rev s))), rev (takeWhile (\<lambda>c. c \<noteq> 46) (rev s))) else None)"

text \<open>\<^verbatim>\<open>Path::file_name\<close> and \<^verbatim>\<open>Path::extension\<close>: nothing after a trailing \<^verbatim>\<open>..\<close>; a leading dot starts no extension.\<close>

definition file_name :: "utext list \<Rightarrow> utext option" where
  "file_name path = (if path = [] \<or> last path = [46, 46] then None else Some (last path))"

definition path_extension :: "utext list \<Rightarrow> utext option" where
  "path_extension path =
     (case Option.bind (file_name path) rsplit_dot of Some (stem, ext) \<Rightarrow> if stem = [] then None else Some ext | None \<Rightarrow> None)"

definition classify_file :: "text_env \<Rightarrow> utext list \<Rightarrow> media_type option" where
  "classify_file env path =
     (case path_extension path of
        None \<Rightarrow> None
      | Some ext \<Rightarrow>
          (let e = u_lower env ext in
           if e \<in> set (map tx [''epub'', ''mobi'', ''azw3'', ''pdf'']) then Some Ebook
           else if e \<in> set (map tx [''mp3'', ''m4a'', ''m4b'', ''flac'', ''ogg'', ''wma'']) then Some Audiobook
           else None))"

definition strip_path_prefix :: "utext list \<Rightarrow> utext list \<Rightarrow> utext list option" where
  "strip_path_prefix prefix path = (if take (length prefix) path = prefix then Some (drop (length prefix) path) else None)"

text \<open>An absolute path is printed with its leading slash, a relative one without.\<close>

definition show_path :: "bool \<Rightarrow> utext list \<Rightarrow> utext" where
  "show_path absolute path = (if absolute then [47] else []) @ join [47] path"

definition build_target_path ::
  "utext \<Rightarrow> int \<Rightarrow> utext \<Rightarrow> utext \<Rightarrow> media_type \<Rightarrow> utext list \<Rightarrow> utext list \<Rightarrow> utext" where
  "build_target_path root_path user_id author title media_type source_file source_root =
     (let author_san = sanitize_path_component author (tx ''Unknown Author'');
          title_san = sanitize_path_component title (tx ''Unknown Title'');
          base = trim_end_matches slash root_path
      in case media_type of
           Ebook \<Rightarrow>
             (let ext = (case path_extension source_file of Some e \<Rightarrow> e | None \<Rightarrow> tx ''epub'')
              in join [47] [base, show_int_text user_id, author_san, title_san @ [46] @ ext])
         | Audiobook \<Rightarrow>
             (let relative_str =
                    (if source_file = source_root
                     then (case file_name source_file of Some n \<Rightarrow> n | None \<Rightarrow> tx ''unknown'')
                     else case strip_path_prefix source_root source_file of Some rel \<Rightarrow> show_path False rel | None \<Rightarrow> show_path True source_file)
              in join [47] [base, show_int_text user_id, author_san, title_san, relative_str]))"

definition validate_target_path :: "utext list \<Rightarrow> utext list \<Rightarrow> bool" where
  "validate_target_path target root_folder_path \<longleftrightarrow>
     [46, 46] \<notin> set target \<and> strip_path_prefix root_folder_path target \<noteq> None"

text \<open>The files of the preferred formats: for each medium the first preference some file has, or all files.\<close>

definition ext_of :: "text_env \<Rightarrow> utext list \<times> media_type \<Rightarrow> utext" where
  "ext_of env f = u_lower env (case path_extension (fst f) of Some e \<Rightarrow> e | None \<Rightarrow> [])"

definition best_ext :: "text_env \<Rightarrow> media_type \<Rightarrow> utext list \<Rightarrow> (utext list \<times> media_type) list \<Rightarrow> utext option" where
  "best_ext env m prefs files = find (\<lambda>pref. \<exists>f \<in> set files. snd f = m \<and> ext_of env f = pref) prefs"

definition filter_preferred_formats ::
  "text_env \<Rightarrow> utext list \<Rightarrow> utext list \<Rightarrow> (utext list \<times> media_type) list \<Rightarrow> (utext list \<times> media_type) list" where
  "filter_preferred_formats env ebook_prefs audio_prefs files =
     filter (\<lambda>f. case best_ext env (snd f) (case snd f of Ebook \<Rightarrow> ebook_prefs | Audiobook \<Rightarrow> audio_prefs) files of
                   Some best \<Rightarrow> ext_of env f = best
                 | None \<Rightarrow> True) files"

section \<open>Remote paths\<close>

record remote_path_mapping =
  rm_host :: utext
  rm_remote_path :: utext
  rm_local_path :: utext

definition forward_slashes :: "utext \<Rightarrow> utext" where
  "forward_slashes s = map (\<lambda>c. if c = 92 then 47 else c) s"

definition strip_text_prefix :: "utext \<Rightarrow> utext \<Rightarrow> utext option" where
  "strip_text_prefix p s = (if take (length p) s = p then Some (drop (length p) s) else None)"

fun trim_start_matches :: "utext \<Rightarrow> utext \<Rightarrow> utext" where
  "trim_start_matches p [] = []"
| "trim_start_matches p (c # cs) =
     (if p \<noteq> [] \<and> take (length p) (c # cs) = p then trim_start_matches p (drop (length p - 1) cs) else c # cs)"

text \<open>\<^verbatim>\<open>Iterator::max_by_key\<close>: the last of the greatest.\<close>

definition max_by_key :: "('a \<Rightarrow> nat) \<Rightarrow> 'a list \<Rightarrow> 'a option" where
  "max_by_key k xs = fold (\<lambda>x best. case best of Some b \<Rightarrow> if k b > k x then Some b else Some x | None \<Rightarrow> Some x) xs None"

definition text_ends_with :: "utext \<Rightarrow> utext \<Rightarrow> bool" where
  "text_ends_with p s \<longleftrightarrow> length p \<le> length s \<and> drop (length s - length p) s = p"

definition client_hostname :: "utext \<Rightarrow> utext" where
  "client_hostname host = takeWhile (\<lambda>c. c \<noteq> 58) (trim_start_matches (tx ''http://'') (trim_start_matches (tx ''https://'') host))"

definition host_matches :: "utext \<Rightarrow> remote_path_mapping \<Rightarrow> bool" where
  "host_matches host m \<longleftrightarrow>
     (let mh = text_ascii_lower (rm_host m); ch = text_ascii_lower (client_hostname host)
      in ch = mh \<or> text_ends_with (46 # mh) ch)"

definition remote_root :: "remote_path_mapping \<Rightarrow> utext" where
  "remote_root m = trim_end_matches slash (forward_slashes (rm_remote_path m))"

definition remote_matches :: "utext \<Rightarrow> remote_path_mapping \<Rightarrow> bool" where
  "remote_matches content m \<longleftrightarrow>
     content = remote_root m
     \<or> (case strip_text_prefix (remote_root m) content of Some rest \<Rightarrow> rest \<noteq> [] \<and> hd rest = 47 | None \<Rightarrow> False)"

record path_mapping_result =
  pm_local_path :: utext
  pm_configured_remote_path :: "utext option"
  pm_configured_local_path :: "utext option"

definition apply_remote_path_mapping :: "remote_path_mapping list \<Rightarrow> utext \<Rightarrow> utext \<Rightarrow> path_mapping_result" where
  "apply_remote_path_mapping mappings host content =
     (let content_path = forward_slashes content; matches = filter (host_matches host) mappings in
      case max_by_key (\<lambda>m. utf8_len (trim_end_matches slash (rm_remote_path m))) (filter (remote_matches content_path) matches) of
        Some m \<Rightarrow>
          \<lparr>pm_local_path = trim_end_matches slash (rm_local_path m)
             @ (case strip_text_prefix (remote_root m) content_path of Some rest \<Rightarrow> rest | None \<Rightarrow> []),
           pm_configured_remote_path = Some (rm_remote_path m), pm_configured_local_path = Some (rm_local_path m)\<rparr>
      | None \<Rightarrow>
          \<lparr>pm_local_path = content_path,
           pm_configured_remote_path = (case matches of m # _ \<Rightarrow> Some (rm_remote_path m) | [] \<Rightarrow> None),
           pm_configured_local_path = (case matches of m # _ \<Rightarrow> Some (rm_local_path m) | [] \<Rightarrow> None)\<rparr>)"

definition path_starts_with :: "utext \<Rightarrow> utext \<Rightarrow> bool" where
  "path_starts_with path prefix \<longleftrightarrow>
     (let prefix = (if prefix \<noteq> [] \<and> last prefix = 47 then butlast prefix else prefix)
      in path = prefix \<or> strip_text_prefix (prefix @ [47]) path \<noteq> None)"

definition replacen_1 :: "utext \<Rightarrow> utext \<Rightarrow> utext \<Rightarrow> utext" where
  "replacen_1 pat by_text s = (case find_sub pat s of Some i \<Rightarrow> take i s @ by_text @ drop (i + length pat) s | None \<Rightarrow> s)"

fun single_slashes :: "utext \<Rightarrow> utext" where
  "single_slashes (a # b # cs) = (if a = 47 \<and> b = 47 then 47 # single_slashes cs else a # single_slashes (b # cs))"
| "single_slashes s = s"

definition apply_path_mapping :: "utext \<Rightarrow> remote_path_mapping list \<Rightarrow> utext" where
  "apply_path_mapping content mappings =
     (let content_path = forward_slashes content in
      case max_by_key (\<lambda>m. utf8_len (rm_remote_path m))
             (filter (\<lambda>m. path_starts_with content_path (forward_slashes (rm_remote_path m))) mappings) of
        Some m \<Rightarrow> single_slashes (replacen_1 (forward_slashes (rm_remote_path m)) (rm_local_path m) content_path)
      | None \<Rightarrow> content_path)"

end
