(* ===== verification/PathGuarantees.thy ===== *)
theory PathGuarantees
  imports LibraryPaths
begin

text \<open>
  What holds of the paths: sanitised components are safe file names, targets stay below their root folder, where the length of a file name
  is exceeded, and how the two translations of remote paths act on components and where they differ.
\<close>

section \<open>Components\<close>

lemma split_on_cut: "p c \<Longrightarrow> split_on p (a @ c # b) = split_on p a @ split_on p b"
  by (induction a) (auto split: list.split simp: Cons_eq_append_conv)

lemma components_append: "components (a @ 47 # b) = components a @ components b"
  by (simp add: components_def split_on_cut slash_def)

lemma components_Nil [simp]: "components [] = []"
  by (simp add: components_def)

lemma components_one: "47 \<notin> set s \<Longrightarrow> s \<noteq> [] \<Longrightarrow> s \<noteq> [46] \<Longrightarrow> components s = [s]"
proof -
  assume "47 \<notin> set s" "s \<noteq> []" "s \<noteq> [46]"
  then have "split_on slash s = [s]" by (intro split_on_word) (auto simp: slash_def)
  then show ?thesis using \<open>s \<noteq> []\<close> \<open>s \<noteq> [46]\<close> by (simp add: components_def)
qed

lemma components_join: "xs \<noteq> [] \<Longrightarrow> components (join [47] xs) = concat (map components xs)"
  by (induction "[47 :: nat]" xs rule: join.induct) (auto simp: components_append)

lemma trim_end_snoc: "trim_end_matches p (s @ [c]) = (if p c then trim_end_matches p s else s @ [c])"
  by (simp add: trim_end_matches_def)

lemma trim_end_Nil' [simp]: "trim_end_matches p [] = []"
  by (simp add: trim_end_matches_def)

lemma components_trim [simp]: "components (trim_end_matches slash s) = components s"
proof (induction s rule: rev_induct)
  case (snoc c s)
  then show ?case using components_append [of s "[]"] by (auto simp: trim_end_snoc slash_def)
qed simp

section \<open>Safe names\<close>

definition safe_name :: "utext \<Rightarrow> bool" where
  "safe_name s \<longleftrightarrow> \<not> dot_name s \<and> (\<forall>c \<in> set s. c \<notin> set ILLEGAL \<and> \<not> is_control c)"

lemma trim_end_subset: "set (trim_end_matches p s) \<subseteq> set s"
  using set_dropWhileD [of _ p "rev s"] by (auto simp: trim_end_matches_def)

lemma sanitize_inner_chars: "c \<in> set (sanitize_inner s) \<Longrightarrow> c \<notin> set ILLEGAL \<and> \<not> is_control c"
proof -
  assume "c \<in> set (sanitize_inner s)"
  then have "c \<in> set (map (\<lambda>c. if c \<in> set ILLEGAL then 95 else c) (filter (\<lambda>c. \<not> is_control c) s))"
    unfolding sanitize_inner_def using trim_end_subset by blast
  then show ?thesis by (auto simp: ILLEGAL_def is_control_def)
qed

lemma take_bytes_subset: "set (take_bytes n s) \<subseteq> set s"
  by (induction n s rule: take_bytes.induct) auto

lemma take_bytes_len: "utf8_len (take_bytes n s) \<le> n"
  by (induction n s rule: take_bytes.induct) (auto simp: utf8_len_def)

lemma utf8_len_append [simp]: "utf8_len (a @ b) = utf8_len a + utf8_len b"
  by (simp add: utf8_len_def)

lemma truncate_safe: "safe_name s \<Longrightarrow> safe_name (truncate_name s) \<and> utf8_len (truncate_name s) \<le> MAX_BYTES"
proof (cases "utf8_len s > MAX_BYTES")
  case True
  assume s: "safe_name s"
  have "utf8_len ELLIPSIS = 3" by (simp add: utf8_len_def utf8_width_def ELLIPSIS_def)
  then have "utf8_len (truncate_name s) \<le> MAX_BYTES"
    using take_bytes_len [of 252 s] True by (simp add: truncate_name_def MAX_BYTES_def)
  moreover have "\<not> dot_name (x @ ELLIPSIS)" for x by (cases x; cases "tl x") (simp_all add: dot_name_def ELLIPSIS_def)
  moreover have "c \<notin> set ILLEGAL \<and> \<not> is_control c" if "c \<in> set (take_bytes n s @ ELLIPSIS)" for c n
  proof -
    have "c \<in> set s \<or> c = 46" using that take_bytes_subset [of n s] by (auto simp: ELLIPSIS_def)
    moreover have "46 \<notin> set ILLEGAL \<and> \<not> is_control 46" by (simp add: ILLEGAL_def is_control_def)
    ultimately show ?thesis using s unfolding safe_name_def by blast
  qed
  ultimately show ?thesis using True by (simp add: safe_name_def truncate_name_def)
qed (simp add: truncate_name_def)

lemma sanitize_safe:
  "safe_name (sanitize_path_component input fallback) \<and> utf8_len (sanitize_path_component input fallback) \<le> MAX_BYTES"
proof -
  have inner: "\<not> dot_name (sanitize_inner s) \<Longrightarrow> safe_name (sanitize_inner s)" for s
    using sanitize_inner_chars by (auto simp: safe_name_def)
  have "safe_name [95] \<and> utf8_len [95] \<le> MAX_BYTES"
    by (simp add: safe_name_def dot_name_def ILLEGAL_def is_control_def utf8_len_def utf8_width_def MAX_BYTES_def)
  then show ?thesis using inner truncate_safe by (auto simp: sanitize_path_component_def Let_def)
qed

lemma safe_slash_free: "safe_name s \<Longrightarrow> 47 \<notin> set s"
proof -
  have "47 \<in> set ILLEGAL" by (simp add: ILLEGAL_def)
  then show "safe_name s \<Longrightarrow> 47 \<notin> set s" by (auto simp: safe_name_def)
qed

lemma safe_component: "safe_name s \<Longrightarrow> components s = [s]"
  using safe_slash_free by (intro components_one) (auto simp: safe_name_def dot_name_def)

lemma user_component: "components (show_int_text i) = [show_int_text i] \<and> show_int_text i \<noteq> [46, 46]"
proof -
  have "47 \<notin> set (show_int_text i)" "46 \<notin> set (show_int_text i)" "show_int_text i \<noteq> []"
    using show_nat_digits [of "nat i"] show_nat_digits [of "nat (- i)"] by (auto simp: show_int_text_def show_nat_nonempty)
  then show ?thesis by (intro conjI components_one) auto
qed

section \<open>Targets\<close>

definition plain_path :: "utext list \<Rightarrow> bool" where
  "plain_path p \<longleftrightarrow> (\<forall>c \<in> set p. 47 \<notin> set c \<and> c \<noteq> [] \<and> c \<noteq> [46] \<and> c \<noteq> [46, 46])"

lemma plain_components: "plain_path p \<Longrightarrow> components (join [47] p) = p"
proof (cases "p = []")
  case False
  assume p: "plain_path p"
  then have "map components p = map (\<lambda>c. [c]) p" by (intro map_cong) (auto simp: plain_path_def intro!: components_one)
  then have "concat (map components p) = p" by (simp only: concat_map_singleton list.map_ident)
  then show ?thesis using components_join [OF False] by (simp only:)
qed simp

lemma plain_show_path: "plain_path p \<Longrightarrow> components (show_path absolute p) = p"
  using components_append [of "[]" "join [47] p"] by (simp add: show_path_def plain_components)

lemma plain_drop: "plain_path p \<Longrightarrow> plain_path (drop n p)"
  by (auto simp: plain_path_def dest: in_set_dropD)

lemma extension_slash_free:
  assumes "plain_path p" and "path_extension p = Some e"
  shows "47 \<notin> set e"
proof -
  have p: "p \<noteq> []" "e = rev (takeWhile (\<lambda>c. c \<noteq> 46) (rev (last p)))"
    using assms(2) by (auto simp: path_extension_def file_name_def rsplit_dot_def bind_eq_Some_conv split: option.splits if_splits)
  have "set e \<subseteq> set (last p)" unfolding p(2) using set_takeWhileD [of _ "\<lambda>c. c \<noteq> 46" "rev (last p)"] by auto
  moreover have "47 \<notin> set (last p)" using assms(1) last_in_set [OF p(1)] by (simp add: plain_path_def)
  ultimately show ?thesis by blast
qed

lemma file_component:
  assumes "safe_name t" and "47 \<notin> set e"
  shows "components (t @ [46] @ e) = [t @ [46] @ e]" and "t @ [46] @ e \<noteq> [46, 46]"
  using assms safe_slash_free [of t] by (auto simp: safe_name_def dot_name_def append_eq_Cons_conv intro!: components_one)

text \<open>What stands below the folder of the user and the author.\<close>

definition audio_rest :: "utext list \<Rightarrow> utext list \<Rightarrow> utext list" where
  "audio_rest source_file source_root =
     (if source_file = source_root then [case file_name source_file of Some n \<Rightarrow> n | None \<Rightarrow> tx ''unknown'']
      else case strip_path_prefix source_root source_file of Some rel \<Rightarrow> rel | None \<Rightarrow> source_file)"

lemma audio_rest_plain:
  assumes "plain_path source_file"
  shows "plain_path (audio_rest source_file source_root)
    \<and> components (if source_file = source_root then (case file_name source_file of Some n \<Rightarrow> n | None \<Rightarrow> tx ''unknown'')
        else case strip_path_prefix source_root source_file of Some rel \<Rightarrow> show_path False rel | None \<Rightarrow> show_path True source_file)
      = audio_rest source_file source_root"
proof (cases "source_file = source_root")
  case True
  have "plain_path [case file_name source_file of Some n \<Rightarrow> n | None \<Rightarrow> tx ''unknown'']"
    using assms by (auto simp: plain_path_def file_name_def tx_def)
  then show ?thesis using plain_components [of "[case file_name source_file of Some n \<Rightarrow> n | None \<Rightarrow> tx ''unknown'']"] True
    by (simp add: audio_rest_def)
next
  case False
  then show ?thesis
    using plain_show_path [OF assms] plain_show_path [OF plain_drop [OF assms]] plain_drop [OF assms] assms
    by (simp add: audio_rest_def strip_path_prefix_def)
qed

definition target_rest :: "utext \<Rightarrow> media_type \<Rightarrow> utext list \<Rightarrow> utext list \<Rightarrow> utext list" where
  "target_rest title media_type source_file source_root =
     (let title_san = sanitize_path_component title (tx ''Unknown Title'') in
      case media_type of
        Ebook \<Rightarrow> [title_san @ [46] @ (case path_extension source_file of Some e \<Rightarrow> e | None \<Rightarrow> tx ''epub'')]
      | Audiobook \<Rightarrow>
          title_san # audio_rest source_file source_root)"

lemma target_components:
  assumes "plain_path source_file"
  shows "components (build_target_path root_path user_id author title media_type source_file source_root) =
           components root_path @ [show_int_text user_id, sanitize_path_component author (tx ''Unknown Author'')]
             @ target_rest title media_type source_file source_root
    \<and> [46, 46] \<notin> set (target_rest title media_type source_file source_root)"
proof -
  let ?a = "sanitize_path_component author (tx ''Unknown Author'')" and ?t = "sanitize_path_component title (tx ''Unknown Title'')"
  have safe: "components ?a = [?a]" "components ?t = [?t]" "?t \<noteq> [46, 46]" "safe_name ?t"
    using sanitize_safe safe_component by (auto simp: safe_name_def dot_name_def)
  show ?thesis
  proof (cases media_type)
    case Ebook
    let ?e = "case path_extension source_file of Some e \<Rightarrow> e | None \<Rightarrow> tx ''epub''"
    have "47 \<notin> set ?e" using extension_slash_free [OF assms] by (auto simp: tx_def split: option.split)
    then show ?thesis
      using file_component [OF safe(4), of ?e] safe(1) user_component [of user_id] Ebook
      by (simp add: build_target_path_def target_rest_def components_append Let_def)
  next
    case Audiobook
    define r where "r = audio_rest source_file source_root"
    define s where "s = (if source_file = source_root then (case file_name source_file of Some n \<Rightarrow> n | None \<Rightarrow> tx ''unknown'')
              else case strip_path_prefix source_root source_file of Some rel \<Rightarrow> show_path False rel | None \<Rightarrow> show_path True source_file)"
    have r: "plain_path r" and s: "components s = r"
      unfolding r_def s_def using audio_rest_plain [OF assms] by blast+
    have "components (build_target_path root_path user_id author title media_type source_file source_root) =
        components root_path @ [show_int_text user_id, ?a, ?t] @ r"
      using safe(1,2) user_component [of user_id] s [unfolded s_def]
      unfolding build_target_path_def Audiobook Let_def by (simp add: components_append)
    moreover have "target_rest title media_type source_file source_root = ?t # r" by (simp add: target_rest_def Audiobook r_def Let_def)
    moreover have "[46, 46] \<notin> set r" using r by (auto simp: plain_path_def)
    ultimately show ?thesis using safe(3) by simp
  qed
qed

lemma audio_rest_names: "set (audio_rest source_file source_root) \<subseteq> set source_file \<union> {tx ''unknown''}"
  by (auto simp: audio_rest_def file_name_def strip_path_prefix_def split: option.splits if_splits dest: in_set_dropD)

text \<open>
  C34 (safety): Whatever the author and the title are, a target path passes the traversal check and has this form: the root folder, the folder of the
  user, one folder for the author, then for an e-book the title with the source's extension and for an audiobook one folder for the title and
  below it names of the source. Author and title are sanitised: without separators, other illegal or control characters, not empty and
  not dots alone, and of at most 255 bytes each; the extension has no separator. The name of an e-book's file is the title, a dot and the extension, so it
  can be longer than 255 bytes (\<open>long_titles_exceed_the_name_limit\<close>). (The root has no parent reference; the source is a plain absolute path.)
\<close>

theorem targets_stay_in_the_library:
  assumes "plain_path source_file" and "[46, 46] \<notin> set (components root_path)"
  shows "validate_target_path (components (build_target_path root_path user_id author title media_type source_file source_root)) (components root_path)
    \<and> (\<exists>a t ext rest. components (build_target_path root_path user_id author title media_type source_file source_root)
            = components root_path @ [show_int_text user_id, a] @ (case media_type of Ebook \<Rightarrow> [t @ [46] @ ext] | Audiobook \<Rightarrow> t # rest)
         \<and> a = sanitize_path_component author (tx ''Unknown Author'') \<and> safe_name a \<and> utf8_len a \<le> 255
         \<and> t = sanitize_path_component title (tx ''Unknown Title'') \<and> safe_name t \<and> utf8_len t \<le> 255
         \<and> ext = (case path_extension source_file of Some e \<Rightarrow> e | None \<Rightarrow> tx ''epub'') \<and> 47 \<notin> set ext
         \<and> set rest \<subseteq> set source_file \<union> {tx ''unknown''} \<and> [46, 46] \<notin> set rest)"
proof -
  let ?a = "sanitize_path_component author (tx ''Unknown Author'')" and ?t = "sanitize_path_component title (tx ''Unknown Title'')"
  let ?e = "case path_extension source_file of Some e \<Rightarrow> e | None \<Rightarrow> tx ''epub''"
  have a: "safe_name ?a" "utf8_len ?a \<le> 255" and t: "safe_name ?t" "utf8_len ?t \<le> 255" using sanitize_safe by (simp_all add: MAX_BYTES_def)
  have "?a \<noteq> [46, 46]" using a(1) by (simp add: safe_name_def dot_name_def)
  moreover have e: "47 \<notin> set ?e" using extension_slash_free [OF assms(1)] by (auto simp: tx_def split: option.split)
  moreover have r: "set (audio_rest source_file source_root) \<subseteq> set source_file \<union> {tx ''unknown''}" "[46, 46] \<notin> set (audio_rest source_file source_root)"
    using audio_rest_names audio_rest_plain [OF assms(1), of source_root] by (auto simp: plain_path_def)
  moreover have "target_rest title media_type source_file source_root =
      (case media_type of Ebook \<Rightarrow> [?t @ [46] @ ?e] | Audiobook \<Rightarrow> ?t # audio_rest source_file source_root)"
    by (simp add: target_rest_def Let_def)
  moreover note target_components [OF assms(1), of root_path user_id author title media_type source_root]
  ultimately have c: "components (build_target_path root_path user_id author title media_type source_file source_root)
      = components root_path @ [show_int_text user_id, ?a] @ (case media_type of Ebook \<Rightarrow> [?t @ [46] @ ?e] | Audiobook \<Rightarrow> ?t # audio_rest source_file source_root)"
    and v: "validate_target_path (components (build_target_path root_path user_id author title media_type source_file source_root)) (components root_path)"
    using assms(2) user_component [of user_id] by (auto simp: validate_target_path_def strip_path_prefix_def)
  show ?thesis
    by (rule conjI [OF v], rule exI [of _ ?a], rule exI [of _ ?t], rule exI [of _ ?e], rule exI [of _ "audio_rest source_file source_root"])
       (use a t e r c in blast)
qed

theorem targets_stay_in_the_library_witness:
  "validate_target_path (components (build_target_path (tx ''/lib/'') 7 (tx ''..'') (tx ''a/../b'') Audiobook [tx ''d'', tx ''1.mp3''] [tx ''d'']))
     (components (tx ''/lib/''))"
proof -
  have "plain_path [tx ''d'', tx ''1.mp3'']" "[46, 46] \<notin> set (components (tx ''/lib/''))" by code_simp+
  from targets_stay_in_the_library [OF this, of 7 "tx ''..''" "tx ''a/../b''" Audiobook "[tx ''d'']"] show ?thesis by blast
qed

lemma sanitize_letters: "n \<le> 255 \<Longrightarrow> 0 < n \<Longrightarrow> sanitize_path_component (replicate n 97) fb = replicate n 97"
proof -
  assume n: "n \<le> 255" "0 < n"
  have inner: "sanitize_inner (replicate n 97) = replicate n 97"
    by (simp add: sanitize_inner_def is_control_def ILLEGAL_def trim_end_matches_def)
  have "\<not> dot_name (replicate n 97)" using n(2) by (cases n) (auto simp: dot_name_def)
  moreover have "utf8_len (replicate n 97) = n" by (simp add: utf8_len_def utf8_width_def sum_list_replicate)
  ultimately show ?thesis using inner n by (simp add: sanitize_path_component_def Let_def truncate_name_def MAX_BYTES_def)
qed

text \<open>
  The limit of 255 bytes is kept for the title but not for the file: with a title of 251 to 255 letters the name of an imported
  epub, the title and its extension, is longer than a file name may be.
\<close>

theorem long_titles_exceed_the_name_limit:
  assumes "251 \<le> n" and "n \<le> 255" and "plain_path source_file" and "path_extension source_file = Some (tx ''epub'')"
  shows "255 < utf8_len (last (components (build_target_path root_path user_id author (replicate n 97) Ebook source_file source_root)))"
  using target_components [OF assms(3), of root_path user_id author "replicate n 97" Ebook source_root] sanitize_letters [of n] assms
  by (simp add: target_rest_def utf8_len_def utf8_width_def sum_list_replicate tx_def)

theorem long_titles_exceed_the_name_limit_witness:
  "255 < utf8_len (last (components (build_target_path (tx ''/lib'') 7 (tx ''A'') (replicate 251 97) Ebook [tx ''d'', tx ''b.epub''] [tx ''d''])))"
proof (rule long_titles_exceed_the_name_limit)
  show "plain_path [tx ''d'', tx ''b.epub'']" by code_simp
  show "path_extension [tx ''d'', tx ''b.epub''] = Some (tx ''epub'')" by code_simp
qed simp_all

section \<open>Remote paths\<close>

lemma strip_text_prefix_Some: "strip_text_prefix p s = Some r \<longleftrightarrow> s = p @ r"
  by (auto simp: strip_text_prefix_def) (metis append_take_drop_id)

lemma remote_matches_iff: "remote_matches c m \<longleftrightarrow> (\<exists>rest. c = remote_root m @ rest \<and> (rest = [] \<or> hd rest = 47))"
  by (auto simp: remote_matches_def strip_text_prefix_Some split: option.splits)
     (metis strip_text_prefix_Some option.distinct(1) option.inject)+

lemma max_by_key_spec:
  "(max_by_key k xs = None \<longleftrightarrow> xs = []) \<and> (\<forall>x. max_by_key k xs = Some x \<longrightarrow> x \<in> set xs \<and> (\<forall>y \<in> set xs. k y \<le> k x))"
proof (induction xs rule: rev_induct)
  case (snoc a xs)
  then show ?case by (cases "max_by_key k xs") (auto simp: max_by_key_def)
qed (simp add: max_by_key_def)

lemmas max_by_key_None = max_by_key_spec [THEN conjunct1]
lemmas max_by_key_Some = max_by_key_spec [THEN conjunct2, rule_format]

lemma components_rest: "rest = [] \<or> hd rest = 47 \<Longrightarrow> components (a @ rest) = components a @ components rest"
  using components_append [of a "tl rest"] components_append [of "[]" "tl rest"] by (cases rest) auto

text \<open>
  The poller's translation of a download client's path replaces folders, not text: the most specific mapping of the client's host
  whose remote folder contains the path supplies the local folder, and the components below it stay; without such a mapping
  the path is unchanged, up to its separators.
\<close>

theorem remote_paths_are_translated_by_folder:
  "let c = forward_slashes content; r = pm_local_path (apply_remote_path_mapping mappings host content);
       fits = \<lambda>m. m \<in> set mappings \<and> host_matches host m \<and> remote_matches c m
   in (\<exists>m rest. fits m \<and> (\<forall>m'. fits m' \<longrightarrow>
            utf8_len (trim_end_matches slash (rm_remote_path m')) \<le> utf8_len (trim_end_matches slash (rm_remote_path m)))
        \<and> components c = components (forward_slashes (rm_remote_path m)) @ rest \<and> components r = components (rm_local_path m) @ rest)
    \<or> (\<forall>m. \<not> fits m) \<and> r = c"
proof -
  let ?c = "forward_slashes content" and ?k = "\<lambda>m. utf8_len (trim_end_matches slash (rm_remote_path m))"
  let ?fs = "filter (remote_matches ?c) (filter (host_matches host) mappings)"
  show ?thesis
  proof (cases "max_by_key ?k ?fs")
    case None
    then have "\<forall>m \<in> set mappings. host_matches host m \<longrightarrow> \<not> remote_matches ?c m" by (auto simp: max_by_key_None filter_empty_conv)
    then show ?thesis using None by (auto simp: apply_remote_path_mapping_def Let_def)
  next
    case (Some m)
    have m: "m \<in> set ?fs" "\<forall>y \<in> set ?fs. ?k y \<le> ?k m" using max_by_key_Some [OF Some] by blast+
    then obtain rest where rest: "?c = remote_root m @ rest" "rest = [] \<or> hd rest = 47" by (auto simp: remote_matches_iff)
    have "strip_text_prefix (remote_root m) ?c = Some rest" using rest(1) by (simp add: strip_text_prefix_Some)
    then have "pm_local_path (apply_remote_path_mapping mappings host content) = trim_end_matches slash (rm_local_path m) @ rest"
      using Some by (simp add: apply_remote_path_mapping_def Let_def)
    moreover have "components ?c = components (forward_slashes (rm_remote_path m)) @ components rest"
      using components_rest [OF rest(2), of "remote_root m"] rest(1) by (simp add: remote_root_def)
    ultimately show ?thesis using m components_rest [OF rest(2)] unfolding Let_def by fastforce
  qed
qed

theorem remote_paths_are_translated_by_folder_witness:
  "components (pm_local_path (apply_remote_path_mapping
      [\<lparr>rm_host = tx ''box'', rm_remote_path = tx ''/data/'', rm_local_path = tx ''/mnt/''\<rparr>] (tx ''http://box:8080'') (tx ''/data/x'')))
    = [tx ''mnt'', tx ''x'']"
proof -
  let ?m = "\<lparr>rm_host = tx ''box'', rm_remote_path = tx ''/data/'', rm_local_path = tx ''/mnt/''\<rparr>"
  have fits: "host_matches (tx ''http://box:8080'') ?m" "remote_matches (forward_slashes (tx ''/data/x'')) ?m"
    and c: "components (forward_slashes (tx ''/data/x'')) = [tx ''data'', tx ''x'']"
       "components (forward_slashes (rm_remote_path ?m)) = [tx ''data'']" "components (rm_local_path ?m) = [tx ''mnt'']"
    by code_simp+
  show ?thesis using remote_paths_are_translated_by_folder [of "tx ''/data/x''" "[?m]" "tx ''http://box:8080''"] fits c
    unfolding Let_def by auto
qed

fun no_double :: "utext \<Rightarrow> bool" where
  "no_double (a # b # cs) \<longleftrightarrow> \<not> (a = 47 \<and> b = 47) \<and> no_double (b # cs)"
| "no_double s \<longleftrightarrow> True"

lemma single_slashes_id: "no_double s \<Longrightarrow> single_slashes s = s"
  by (induction s rule: no_double.induct) auto

lemma no_double_Cons: "no_double (a # s) \<longleftrightarrow> no_double s \<and> \<not> (a = 47 \<and> s \<noteq> [] \<and> hd s = 47)"
  by (cases s) auto

lemma no_double_append: "no_double (a @ b) \<longleftrightarrow> no_double a \<and> no_double b \<and> \<not> (a \<noteq> [] \<and> b \<noteq> [] \<and> last a = 47 \<and> hd b = 47)"
  by (induction a) (auto simp: no_double_Cons hd_append)

definition open_ended :: "utext \<Rightarrow> bool" where
  "open_ended s \<longleftrightarrow> s = [] \<or> last s \<noteq> 47"

lemma trim_open: "open_ended s \<Longrightarrow> trim_end_matches slash s = s"
  by (cases s rule: rev_cases) (auto simp: open_ended_def trim_end_snoc slash_def)

lemma forward_open: "open_ended (forward_slashes s) \<Longrightarrow> open_ended s"
  by (auto simp: open_ended_def forward_slashes_def last_map)

lemma find_sub_prefix: "find_sub p (p @ s) = Some 0"
proof -
  have "[0..<Suc (length (p @ s))] = 0 # [1..<Suc (length (p @ s))]" by (subst upt_conv_Cons) simp_all
  then show ?thesis by (simp add: find_sub_def)
qed

lemma replacen_prefix: "replacen_1 p b (p @ s) = b @ s"
  by (simp add: replacen_1_def find_sub_prefix)

lemma path_starts_with_iff:
  "path_starts_with c p \<longleftrightarrow> (let q = (if p \<noteq> [] \<and> last p = 47 then butlast p else p) in \<exists>rest. c = q @ rest \<and> (rest = [] \<or> hd rest = 47))"
proof -
  have "(c = q \<or> strip_text_prefix (q @ [47]) c \<noteq> None) \<longleftrightarrow> (\<exists>rest. c = q @ rest \<and> (rest = [] \<or> hd rest = 47))" for q
    by (auto simp: strip_text_prefix_Some) (metis list.exhaust_sel)
  then show ?thesis by (simp add: path_starts_with_def Let_def)
qed

lemma open_remote:
  assumes "open_ended (forward_slashes (rm_remote_path m))"
  shows "remote_root m = forward_slashes (rm_remote_path m)"
    and "path_starts_with c (forward_slashes (rm_remote_path m)) \<longleftrightarrow> remote_matches c m"
    and "trim_end_matches slash (rm_remote_path m) = rm_remote_path m"
proof -
  show r: "remote_root m = forward_slashes (rm_remote_path m)" using trim_open [OF assms] by (simp add: remote_root_def)
  show "path_starts_with c (forward_slashes (rm_remote_path m)) \<longleftrightarrow> remote_matches c m"
    using assms unfolding path_starts_with_iff remote_matches_iff r open_ended_def Let_def by auto
  show "trim_end_matches slash (rm_remote_path m) = rm_remote_path m" by (rule trim_open [OF forward_open [OF assms]])
qed

definition plain_mapping :: "utext \<Rightarrow> remote_path_mapping \<Rightarrow> bool" where
  "plain_mapping host m \<longleftrightarrow> host_matches host m \<and> open_ended (forward_slashes (rm_remote_path m))
     \<and> open_ended (rm_local_path m) \<and> no_double (rm_local_path m)"

lemma max_by_key_cong: "(\<And>x. x \<in> set xs \<Longrightarrow> k x = k' x) \<Longrightarrow> max_by_key k xs = max_by_key k' xs"
proof (induction xs rule: rev_induct)
  case (snoc a xs)
  then have IH: "max_by_key k xs = max_by_key k' xs" by simp
  show ?case
  proof (cases "max_by_key k' xs")
    case (Some b)
    then have "k b = k' b" using max_by_key_Some [OF Some] snoc.prems by simp
    then show ?thesis using IH Some snoc.prems [of a] by (simp add: max_by_key_def)
  qed (use IH in \<open>simp add: max_by_key_def\<close>)
qed (simp add: max_by_key_def)

text \<open>
  The import's own translation of a download client's path gives the poller's result where every mapping is of the client's host, no
  configured folder ends in a separator and no path has two separators in a row.
\<close>

theorem path_mappings_agree_on_plain_mappings:
  assumes "\<forall>m \<in> set mappings. plain_mapping host m" and "no_double (forward_slashes content)"
  shows "apply_path_mapping content mappings = pm_local_path (apply_remote_path_mapping mappings host content)"
proof -
  let ?c = "forward_slashes content" and ?k = "\<lambda>m. utf8_len (trim_end_matches slash (rm_remote_path m))"
  let ?fs = "filter (remote_matches ?c) mappings"
  have plain: "plain_mapping host m" if "m \<in> set ?fs" for m using assms(1) that by simp
  have host: "filter (host_matches host) mappings = mappings" using assms(1) by (simp add: filter_id_conv plain_mapping_def)
  have fs: "filter (\<lambda>m. path_starts_with ?c (forward_slashes (rm_remote_path m))) mappings = ?fs"
    using assms(1) open_remote(2) by (intro filter_cong) (auto simp: plain_mapping_def)
  have k: "max_by_key (\<lambda>m. utf8_len (rm_remote_path m)) ?fs = max_by_key ?k ?fs"
    using plain open_remote(3) by (intro max_by_key_cong) (simp add: plain_mapping_def)
  show ?thesis
  proof (cases "max_by_key ?k ?fs")
    case None
    then show ?thesis by (simp add: apply_path_mapping_def apply_remote_path_mapping_def Let_def host fs k)
  next
    case (Some m)
    have m: "remote_matches ?c m" "plain_mapping host m" using max_by_key_Some [OF Some] plain by auto
    then obtain rest where rest: "?c = remote_root m @ rest" "rest = [] \<or> hd rest = 47" by (auto simp: remote_matches_iff)
    have root: "forward_slashes (rm_remote_path m) = remote_root m" using m(2) open_remote(1) by (simp add: plain_mapping_def)
    have "no_double (rm_local_path m @ rest)"
      using m(2) assms(2) rest by (auto simp: no_double_append plain_mapping_def open_ended_def)
    then have "apply_path_mapping content mappings = rm_local_path m @ rest"
      unfolding apply_path_mapping_def Let_def fs k Some by (simp add: root rest(1) replacen_prefix single_slashes_id)
    moreover have "trim_end_matches slash (rm_local_path m) = rm_local_path m" using m(2) trim_open by (simp add: plain_mapping_def)
    moreover have "strip_text_prefix (remote_root m) ?c = Some rest" using rest(1) by (simp add: strip_text_prefix_Some)
    ultimately show ?thesis using Some by (simp add: apply_remote_path_mapping_def Let_def host)
  qed
qed

definition example_mapping :: remote_path_mapping where
  "example_mapping = \<lparr>rm_host = tx ''box'', rm_remote_path = tx ''/data'', rm_local_path = tx ''/mnt''\<rparr>"

theorem path_mappings_agree_witness:
  "apply_path_mapping (tx ''/data/x'') [example_mapping] = tx ''/mnt/x''
   \<and> pm_local_path (apply_remote_path_mapping [example_mapping] (tx ''http://box:8080'') (tx ''/data/x'')) = tx ''/mnt/x''"
proof -
  have "\<forall>m \<in> set [example_mapping]. plain_mapping (tx ''http://box:8080'') m" "no_double (forward_slashes (tx ''/data/x''))" by code_simp+
  from path_mappings_agree_on_plain_mappings [OF this]
  have "apply_path_mapping (tx ''/data/x'') [example_mapping]
    = pm_local_path (apply_remote_path_mapping [example_mapping] (tx ''http://box:8080'') (tx ''/data/x''))" .
  moreover have "apply_path_mapping (tx ''/data/x'') [example_mapping] = tx ''/mnt/x''" by code_simp
  ultimately show ?thesis by simp
qed

text \<open>
  Where the remote folder is configured with a trailing separator and the local one without, the import's translation glues the next
  name onto the local folder, and names another path than the poller's.
\<close>

theorem import_mapping_glues_names:
  assumes "host_matches host m" and "forward_slashes (rm_remote_path m) = remote @ [47]" and "open_ended remote"
    and "open_ended (rm_local_path m)" and "no_double (rm_local_path m)" and "forward_slashes content = remote @ [47] @ name"
    and "name \<noteq> []" and "47 \<notin> set name"
  shows "apply_path_mapping content [m] = rm_local_path m @ name
    \<and> pm_local_path (apply_remote_path_mapping [m] host content) = rm_local_path m @ [47] @ name"
proof -
  have root: "remote_root m = remote" using trim_open [OF assms(3)] assms(2) by (simp add: remote_root_def trim_end_snoc slash_def)
  have starts: "path_starts_with (forward_slashes content) (remote @ [47])" by (simp add: path_starts_with_iff assms(6) Let_def)
  have one: "max_by_key k [m] = Some m" for k by (simp add: max_by_key_def)
  have name: "no_double s" if "47 \<notin> set s" for s using that by (induction s rule: no_double.induct) auto
  have "no_double (rm_local_path m @ name)" using assms(4,5) name [OF assms(8)] assms(7,8) by (auto simp: no_double_append open_ended_def)
  moreover have "forward_slashes content = (remote @ [47]) @ name" by (simp add: assms(6))
  ultimately have "apply_path_mapping content [m] = rm_local_path m @ name"
    using starts by (simp add: apply_path_mapping_def Let_def one assms(2) replacen_prefix single_slashes_id del: append.assoc append_assoc)
  moreover have "remote_matches (forward_slashes content) m" using assms(6) root by (auto simp: remote_matches_iff)
  moreover have "strip_text_prefix remote (forward_slashes content) = Some ([47] @ name)" by (simp add: strip_text_prefix_Some assms(6))
  ultimately show ?thesis using assms(1) trim_open [OF assms(4)] by (simp add: apply_remote_path_mapping_def Let_def one root)
qed

theorem import_mapping_glues_witness:
  "apply_path_mapping (tx ''/data/x'') [example_mapping\<lparr>rm_remote_path := tx ''/data/''\<rparr>] = tx ''/mntx''"
proof -
  let ?m = "example_mapping\<lparr>rm_remote_path := tx ''/data/''\<rparr>"
  have "apply_path_mapping (tx ''/data/x'') [?m] = rm_local_path ?m @ tx ''x''
    \<and> pm_local_path (apply_remote_path_mapping [?m] (tx ''box'') (tx ''/data/x'')) = rm_local_path ?m @ [47] @ tx ''x''"
    by (rule import_mapping_glues_names [of _ _ "tx ''/data''"]; code_simp)
  then show ?thesis by (simp add: example_mapping_def tx_def)
qed

end
