(* ===== verification/Programs.thy ===== *)
theory Programs
  imports Main
begin

text \<open>
  Programs that several tasks run at the same time and that a crash can cut off anywhere. A program is a
  tree of atomic actions on the shared state, so that its run, every state in between and every
  interleaving with others come from one definition. The locale at the end is the rely-guarantee rule that the
  clients use.
\<close>

section \<open>Actions\<close>

datatype ('s, 'a) prog = Ret 'a | Act "'s \<Rightarrow> ('s, 'a) prog \<times> 's"

lemma prog_induct [case_names Ret Act]:
  assumes "\<And>a. P (Ret a)" and "\<And>f. (\<And>s. P (fst (f s))) \<Longrightarrow> P (Act f)"
  shows "P p"
proof (induction p)
  case (Act f)
  have "P (fst (f s))" for s by (rule Act.IH [of "f s"]) (auto simp: prod_set_defs)
  then show ?case by (rule assms(2))
qed (rule assms(1))

primrec and_then :: "('s, 'a) prog \<Rightarrow> ('a \<Rightarrow> ('s, 'b) prog) \<Rightarrow> ('s, 'b) prog" where
  "and_then (Ret a) k = k a"
| "and_then (Act f) k = Act (map_prod (\<lambda>p. and_then p k) (\<lambda>s. s) \<circ> f)"

text \<open>One atomic action, one that only reads, and one that only writes.\<close>

definition atomic :: "('s \<Rightarrow> 'a \<times> 's) \<Rightarrow> ('s, 'a) prog" where
  "atomic f = Act (map_prod Ret (\<lambda>s. s) \<circ> f)"

definition ask :: "('s \<Rightarrow> 'a) \<Rightarrow> ('s, 'a) prog" where
  "ask g = atomic (\<lambda>s. (g s, s))"

definition tell :: "('s \<Rightarrow> 's) \<Rightarrow> ('s, unit) prog" where
  "tell g = atomic (\<lambda>s. ((), g s))"

primrec each :: "('x \<Rightarrow> 'r \<Rightarrow> ('s, 'r) prog) \<Rightarrow> 'x list \<Rightarrow> 'r \<Rightarrow> ('s, 'r) prog" where
  "each f [] r = Ret r"
| "each f (x # xs) r = and_then (f x r) (each f xs)"

text \<open>The run of a program that nobody disturbs.\<close>

primrec run :: "('s, 'a) prog \<Rightarrow> 's \<Rightarrow> 'a \<times> 's" where
  "run (Ret a) = (\<lambda>s. (a, s))"
| "run (Act f) = (\<lambda>s. case map_prod run (\<lambda>s. s) (f s) of (k, s') \<Rightarrow> k s')"

lemma run_Act: "run (Act f) s = run (fst (f s)) (snd (f s))"
  by (simp add: case_prod_beta)

lemma run_and_then [simp]: "run (and_then p k) s = (case run p s of (a, s') \<Rightarrow> run (k a) s')"
proof (induction p arbitrary: s rule: prog_induct)
  case (Act f)
  have "run (and_then (fst (f s)) k) (snd (f s)) = (case run (fst (f s)) (snd (f s)) of (a, s') \<Rightarrow> run (k a) s')"
    by (rule Act.IH)
  then show ?case by (simp add: run_Act del: run.simps)
qed simp

lemma run_atomic [simp]: "run (atomic f) s = f s"
  by (simp add: atomic_def case_prod_beta)

lemma run_ask [simp]: "run (ask g) s = (g s, s)"
  by (simp add: ask_def)

lemma run_tell [simp]: "run (tell g) s = ((), g s)"
  by (simp add: tell_def)

lemma and_then_atomic: "and_then (atomic f) k = Act (\<lambda>s. (k (fst (f s)), snd (f s)))"
  by (simp add: atomic_def fun_eq_iff map_prod_def case_prod_beta)

section \<open>The states of a run\<close>

text \<open>The program and the state that are left after some of the actions.\<close>

inductive left_of :: "('s, 'a) prog \<Rightarrow> 's \<Rightarrow> ('s, 'a) prog \<Rightarrow> 's \<Rightarrow> bool" where
  none: "left_of p s p s"
| more: "left_of p s (Act f) s' \<Longrightarrow> left_of p s (fst (f s')) (snd (f s'))"

lemma run_left: "left_of p w p' w' \<Longrightarrow> run p' w' = run p w"
  by (induction rule: left_of.induct) (simp_all add: run_Act del: run.simps)

lemma left_of_trans: "left_of q s' r s'' \<Longrightarrow> left_of p s q s' \<Longrightarrow> left_of p s r s''"
  by (induction rule: left_of.induct) (auto intro: left_of.more)

lemma left_of_Act: "left_of (fst (f s)) (snd (f s)) r s' \<Longrightarrow> left_of (Act f) s r s'"
  by (rule left_of_trans [OF _ left_of.more [OF left_of.none]])

lemma left_of_bind: "run p s = (a, s') \<Longrightarrow> left_of (k a) s' r s'' \<Longrightarrow> left_of (and_then p k) s r s''"
proof (induction p arbitrary: s rule: prog_induct)
  case (Act f)
  have "left_of (and_then (fst (f s)) k) (snd (f s)) r s''" using Act.prems by (intro Act.IH) (simp_all add: run_Act del: run.simps)
  then show ?case by (intro left_of_Act [of "map_prod (\<lambda>p. and_then p k) (\<lambda>s. s) \<circ> f", folded and_then.simps(2)]) simp
qed simp

lemma left_of_run: "left_of p s (Ret (fst (run p s))) (snd (run p s))"
proof (induction p arbitrary: s rule: prog_induct)
  case (Act f)
  then show ?case unfolding run_Act by (rule left_of_Act)
qed (simp add: left_of.none)

section \<open>Rely and guarantee\<close>

text \<open>
  A program honours an invariant under interference: whatever the others did, within the relation, and
  while the invariant holds, each action keeps the invariant and does to the others no more than
  promised; at the end the result is as claimed.
\<close>

primrec honours ::
  "('s \<Rightarrow> bool) \<Rightarrow> ('s \<Rightarrow> 's \<Rightarrow> bool) \<Rightarrow> ('s \<Rightarrow> 's \<Rightarrow> bool) \<Rightarrow> ('s, 'a) prog \<Rightarrow> ('a \<Rightarrow> 's \<Rightarrow> bool) \<Rightarrow> 's \<Rightarrow> bool" where
  "honours I R G (Ret a) = (\<lambda>Q s. Q a s)"
| "honours I R G (Act f) = (\<lambda>Q s. \<forall>s'. R s s' \<and> I s' \<longrightarrow>
     (case map_prod (\<lambda>p. honours I R G p) (\<lambda>s. s) (f s') of (h, s'') \<Rightarrow> I s'' \<and> G s' s'' \<and> h Q s''))"

lemma honours_Act:
  "honours I R G (Act f) Q s \<longleftrightarrow>
     (\<forall>s'. R s s' \<and> I s' \<longrightarrow> I (snd (f s')) \<and> G s' (snd (f s')) \<and> honours I R G (fst (f s')) Q (snd (f s')))"
  by (simp add: case_prod_beta)

declare honours.simps(2) [simp del]

lemma honours_bind:
  "honours I R G p (\<lambda>a s'. honours I R G (k a) Q s') s \<Longrightarrow> honours I R G (and_then p k) Q s"
proof (induction p arbitrary: s rule: prog_induct)
  case (Act f)
  show ?case unfolding and_then.simps honours_Act
  proof (intro allI impI)
    fix s' assume s': "R s s' \<and> I s'"
    then have *: "I (snd (f s'))" "G s' (snd (f s'))" "honours I R G (fst (f s')) (\<lambda>a s'. honours I R G (k a) Q s') (snd (f s'))"
      using Act.prems unfolding honours_Act by blast+
    have "honours I R G (and_then (fst (f s')) k) Q (snd (f s'))"
      by (rule Act.IH [OF *(3)])
    then show "I (snd ((map_prod (\<lambda>p. and_then p k) (\<lambda>s. s) \<circ> f) s')) \<and> G s' (snd ((map_prod (\<lambda>p. and_then p k) (\<lambda>s. s) \<circ> f) s')) \<and>
        honours I R G (fst ((map_prod (\<lambda>p. and_then p k) (\<lambda>s. s) \<circ> f) s')) Q (snd ((map_prod (\<lambda>p. and_then p k) (\<lambda>s. s) \<circ> f) s'))"
      using * by simp
  qed
qed simp

lemma honours_weaken:
  "honours I R G p Q s \<Longrightarrow> (\<And>a s'. Q a s' \<Longrightarrow> Q' a s') \<Longrightarrow> honours I R G p Q' s"
proof (induction p arbitrary: s rule: prog_induct)
  case (Act f)
  show ?case unfolding honours_Act
  proof (intro allI impI)
    fix s' assume s': "R s s' \<and> I s'"
    then have *: "I (snd (f s'))" "G s' (snd (f s'))" "honours I R G (fst (f s')) Q (snd (f s'))"
      using Act.prems(1) unfolding honours_Act by blast+
    moreover have "honours I R G (fst (f s')) Q' (snd (f s'))"
      by (rule Act.IH [OF *(3) Act.prems(2)])
    ultimately show "I (snd (f s')) \<and> G s' (snd (f s')) \<and> honours I R G (fst (f s')) Q' (snd (f s'))" by blast
  qed
qed simp

lemma honours_atomic:
  "(\<And>s'. R s s' \<Longrightarrow> I s' \<Longrightarrow> I (snd (f s')) \<and> G s' (snd (f s')) \<and> Q (fst (f s')) (snd (f s'))) \<Longrightarrow> honours I R G (atomic f) Q s"
  by (simp add: atomic_def honours_Act)

lemma honours_each:
  assumes "\<And>x r s. x \<in> set xs \<Longrightarrow> J s \<Longrightarrow> honours I R G (f x r) (\<lambda>_. J) s" and "J s"
  shows "honours I R G (each f xs r) (\<lambda>_. J) s"
  using assms
proof (induction xs arbitrary: r s)
  case (Cons x xs)
  have "honours I R G (f x r) (\<lambda>_. J) s" using Cons.prems by simp
  then have "honours I R G (f x r) (\<lambda>r' s'. honours I R G (each f xs r') (\<lambda>_. J) s') s"
    by (rule honours_weaken) (use Cons in simp)
  then show ?case by (simp add: honours_bind)
qed simp

lemma honours_run:
  "honours I (=) (\<lambda>_ _. True) p Q s \<Longrightarrow> I s \<Longrightarrow> I (snd (run p s)) \<and> Q (fst (run p s)) (snd (run p s))"
proof (induction p arbitrary: s rule: prog_induct)
  case (Act f)
  have *: "I (snd (f s))" "honours I (=) (\<lambda>_ _. True) (fst (f s)) Q (snd (f s))" using Act.prems unfolding honours_Act by blast+
  have "I (snd (run (fst (f s)) (snd (f s)))) \<and> Q (fst (run (fst (f s)) (snd (f s)))) (snd (run (fst (f s)) (snd (f s))))"
    by (rule Act.IH [OF *(2,1)])
  then show ?case by (simp add: run_Act del: run.simps)
qed simp

lemma honours_left:
  assumes "left_of p s p' s'" and "honours I (=) (\<lambda>_ _. True) p Q s" and "I s"
  shows "I s' \<and> honours I (=) (\<lambda>_ _. True) p' Q s'"
  using assms by induction (auto simp: honours_Act)

section \<open>Undisturbed programs\<close>

definition safe :: "('s \<Rightarrow> bool) \<Rightarrow> ('s, 'a) prog \<Rightarrow> ('a \<Rightarrow> 's \<Rightarrow> bool) \<Rightarrow> 's \<Rightarrow> bool" where
  "safe J = honours J (=) (\<lambda>_ _. True)"

lemma safe_Ret [simp]: "safe J (Ret a) Q s \<longleftrightarrow> Q a s"
  by (simp add: safe_def)

lemma safe_seq: "safe J p P s \<Longrightarrow> (\<And>a s'. P a s' \<Longrightarrow> safe J (k a) Q s') \<Longrightarrow> safe J (and_then p k) Q s"
  unfolding safe_def by (rule honours_bind) (rule honours_weaken)

lemma safe_weaken: "safe J p P s \<Longrightarrow> (\<And>a s'. P a s' \<Longrightarrow> Q a s') \<Longrightarrow> safe J p Q s"
  unfolding safe_def by (rule honours_weaken)

lemma safe_atomic: "J (snd (f s)) \<Longrightarrow> Q (fst (f s)) (snd (f s)) \<Longrightarrow> safe J (atomic f) Q s"
  unfolding safe_def by (rule honours_atomic) simp

lemma safe_ask: "Q (g s) s \<Longrightarrow> J s \<Longrightarrow> safe J (ask g) Q s"
  unfolding ask_def by (rule safe_atomic) simp_all

lemma safe_tell: "J (g s) \<Longrightarrow> Q () (g s) \<Longrightarrow> safe J (tell g) Q s"
  unfolding tell_def by (rule safe_atomic) simp_all

lemma safe_if: "(b \<Longrightarrow> safe J p Q s) \<Longrightarrow> (\<not> b \<Longrightarrow> safe J q Q s) \<Longrightarrow> safe J (if b then p else q) Q s"
  by simp

lemma safe_sum:
  "(\<And>e. r = Inl e \<Longrightarrow> safe J (p e) Q s) \<Longrightarrow> (\<And>a. r = Inr a \<Longrightarrow> safe J (q a) Q s)
    \<Longrightarrow> safe J (case r of Inl e \<Rightarrow> p e | Inr a \<Rightarrow> q a) Q s"
  by (cases r) simp_all

lemma safe_option:
  "(r = None \<Longrightarrow> safe J p Q s) \<Longrightarrow> (\<And>a. r = Some a \<Longrightarrow> safe J (q a) Q s) \<Longrightarrow> safe J (case r of None \<Rightarrow> p | Some a \<Rightarrow> q a) Q s"
  by (cases r) simp_all

section \<open>Tasks\<close>

locale tasks =
  fixes I :: "'s \<Rightarrow> bool" and R :: "'t \<Rightarrow> 's \<Rightarrow> 's \<Rightarrow> bool"
  assumes R_refl: "R t s s"
    and R_trans: "R t s s' \<Longrightarrow> R t s' s'' \<Longrightarrow> R t s s''"
begin

abbreviation G :: "'t \<Rightarrow> 's \<Rightarrow> 's \<Rightarrow> bool" where
  "G t s s' \<equiv> \<forall>u. u \<noteq> t \<longrightarrow> R u s s'"

abbreviation ok :: "'t \<Rightarrow> ('s, 'a) prog \<Rightarrow> ('a \<Rightarrow> 's \<Rightarrow> bool) \<Rightarrow> 's \<Rightarrow> bool" where
  "ok t \<equiv> honours I (R t) (G t)"

lemma ok_later: "ok t p (\<lambda>_ _. True) s \<Longrightarrow> R t s s' \<Longrightarrow> ok t p (\<lambda>_ _. True) s'"
  by (cases p) (auto simp: honours_Act intro: R_trans)

text \<open>One action of one task keeps the invariant and every task.\<close>

lemma pool_step:
  assumes "\<forall>t p. ts t = Some p \<longrightarrow> ok t p (\<lambda>_ _. True) s" and "I s" and "ts t = Some (Act f)"
  shows "I (snd (f s)) \<and> (\<forall>u p. (ts(t \<mapsto> fst (f s))) u = Some p \<longrightarrow> ok u p (\<lambda>_ _. True) (snd (f s)))"
proof -
  have t: "I (snd (f s))" "G t s (snd (f s))" "ok t (fst (f s)) (\<lambda>_ _. True) (snd (f s))"
    using assms R_refl honours_Act [of I "R t" "G t" f "\<lambda>_ _. True" s] by blast+
  have "ok u p (\<lambda>_ _. True) (snd (f s))" if "u \<noteq> t" "ts u = Some p" for u p
    using ok_later [of u p s] assms(1) that t(2) by auto
  then show ?thesis using t by auto
qed

lemma ok_seq: "ok t p P s \<Longrightarrow> (\<And>a s'. P a s' \<Longrightarrow> ok t (k a) Q s') \<Longrightarrow> ok t (and_then p k) Q s"
  by (rule honours_bind) (rule honours_weaken)

lemma ok_ask: "(\<And>s'. R t s s' \<Longrightarrow> I s' \<Longrightarrow> Q (g s') s') \<Longrightarrow> ok t (ask g) Q s"
  unfolding ask_def by (rule honours_atomic) (simp add: R_refl)

lemma ok_atomic:
  "(\<And>s'. R t s s' \<Longrightarrow> I s' \<Longrightarrow> I (snd (f s')) \<and> G t s' (snd (f s')) \<and> Q (fst (f s')) (snd (f s'))) \<Longrightarrow> ok t (atomic f) Q s"
  by (rule honours_atomic)

lemma ok_tell:
  "(\<And>s'. R t s s' \<Longrightarrow> I s' \<Longrightarrow> I (g s') \<and> G t s' (g s') \<and> Q () (g s')) \<Longrightarrow> ok t (tell g) Q s"
  unfolding tell_def by (rule honours_atomic) simp

end

end
