(* ===== verification/ImportFiles.thy ===== *)
theory ImportFiles
  imports LibraryPaths Programs "HOL-Library.AList"
begin

text \<open>
  The import of one file into the library (\<^verbatim>\<open>livrarr-library/src/import_workflow.rs\<close>) with the tables it writes
  (\<^verbatim>\<open>sqlite_library_item.rs\<close>, \<^verbatim>\<open>sqlite_import_intent.rs\<close>) and the recovery at start-up, as programs of atomic actions on a
  file system and a database.

  A file system has names with their inodes, what of the names and of the contents is on the disk,
  and symbolic links of one hop. A folder is there once it is created, and its own name is on the disk only when the folder
  above it has been synced. A fresh temporary file gets a name that was never used, made of its inode
  number, for the random one. No folder stands where a file should. The database is
  the two tables and the earlier states that a power loss may bring back (the pool runs SQLite with
  \<^verbatim>\<open>synchronous = NORMAL\<close>). Every call may fail: the faults are an argument. The chapter hook after an import writes its own
  tables only and never fails the import; it is left out, as are the columns for tags and times.
\<close>

section \<open>Tables and files\<close>

type_synonym fpath = "utext list"
type_synonym bytes = "nat list"
type_synonym task = "int \<times> int"

datatype entry = Regular nat | Symlink fpath

datatype import_intent_state = Staging | Renamed

record library_item =
  li_id :: int
  li_user_id :: int
  li_work_id :: int
  li_root_folder_id :: int
  li_path :: utext
  li_media_type :: media_type
  li_file_size :: int
  li_import_id :: "utext option"

record import_intent =
  ii_id :: int
  ii_user_id :: int
  ii_work_id :: int
  ii_root_folder_id :: int
  ii_media_type :: media_type
  ii_target_relative :: utext
  ii_staging_path :: fpath
  ii_expected_size :: int
  ii_import_id :: "utext option"
  ii_state :: import_intent_state

record library_db =
  db_items :: "library_item list"
  db_intents :: "import_intent list"
  db_next_item :: int
  db_next_intent :: int

text \<open>
  The owner of an inode is the import that made it; nothing in the code reads it. A folder that is there says whether its
  name is on the disk.
\<close>

record world =
  w_names :: "(fpath \<times> entry) list"
  w_durable :: "fpath \<Rightarrow> entry option"
  w_dirs :: "fpath \<Rightarrow> bool option"
  w_contents :: "nat \<Rightarrow> bytes"
  w_synced :: "nat \<Rightarrow> bool"
  w_next :: nat
  w_owner :: "nat \<Rightarrow> task"
  w_db :: library_db
  w_old :: "library_db list"

datatype item_error = ItemNotFound | ItemConstraint | ItemIo

datatype site = RootRead | TargetStat | ItemsRead | PathRead | SizeRead | SourceStat | ItemSelect | ItemWrite | ItemRead
  | SepStat | SepOpen | SepTemp | SepCopy | SepPerm | SepSync | SepPersist | SepDirSync
  | MkDir | TempCreate | IntentInsert | IntentRead | CopyOpen | CopyClone | CopyData | CopySync | CopyKeep
  | TempClose | LinkDir | HardLink | LinkStat | FallbackTemp | FallbackStat | FallbackOpen | FallbackCopy | FallbackSync | FallbackPersist
  | RemoveStaging | IntentDelete | RenameFile | DirSync | IntentMark | IntentsList | IntentsRelist | RootsList

record faults =
  fl :: "site \<Rightarrow> item_error option"
  fl_cut :: nat

definition fails :: "faults \<Rightarrow> site \<Rightarrow> bool" where
  "fails f x \<longleftrightarrow> fl f x \<noteq> None"

definition no_faults :: faults where
  "no_faults = \<lparr>fl = (\<lambda>_. None), fl_cut = 0\<rparr>"

section \<open>The file system\<close>

definition lookup :: "world \<Rightarrow> fpath \<Rightarrow> entry option" where
  "lookup w p = map_of (w_names w) p"

definition node :: "world \<Rightarrow> fpath \<Rightarrow> nat option" where
  "node w p = (case lookup w p of
       Some (Regular i) \<Rightarrow> Some i
     | Some (Symlink q) \<Rightarrow> (case lookup w q of Some (Regular i) \<Rightarrow> Some i | _ \<Rightarrow> None)
     | None \<Rightarrow> None)"

definition file_len :: "world \<Rightarrow> fpath \<Rightarrow> int option" where
  "file_len w p = map_option (\<lambda>i. int (length (w_contents w i))) (node w p)"

definition canonicalize :: "world \<Rightarrow> fpath \<Rightarrow> fpath option" where
  "canonicalize w p = (case lookup w p of
       Some (Regular _) \<Rightarrow> Some p
     | Some (Symlink q) \<Rightarrow> (case lookup w q of Some (Regular _) \<Rightarrow> Some q | _ \<Rightarrow> None)
     | None \<Rightarrow> None)"

definition nlink :: "world \<Rightarrow> nat \<Rightarrow> nat" where
  "nlink w i = length (filter (\<lambda>e. snd e = Regular i) (w_names w))"

definition STAGING_PREFIX :: utext where "STAGING_PREFIX = tx ''.livrarr-import-''"
definition TMP_PREFIX :: utext where "TMP_PREFIX = tx ''.tmp''"

definition temp_path :: "utext \<Rightarrow> fpath \<Rightarrow> nat \<Rightarrow> fpath" where
  "temp_path prefix dir i = dir @ [prefix @ tx (show_nat i)]"

definition create_temp :: "task \<Rightarrow> utext \<Rightarrow> fpath \<Rightarrow> world \<Rightarrow> (fpath \<times> nat) \<times> world" where
  "create_temp t prefix dir w =
     (let i = w_next w; p = temp_path prefix dir i in
      ((p, i), w\<lparr>w_names := AList.update p (Regular i) (w_names w), w_contents := (w_contents w)(i := []),
                 w_synced := (w_synced w)(i := False), w_owner := (w_owner w)(i := t), w_next := i + 1\<rparr>))"

definition write_file :: "nat \<Rightarrow> bytes \<Rightarrow> world \<Rightarrow> world" where
  "write_file i c w = w\<lparr>w_contents := (w_contents w)(i := c), w_synced := (w_synced w)(i := False)\<rparr>"

definition sync_file :: "nat \<Rightarrow> world \<Rightarrow> world" where
  "sync_file i w = w\<lparr>w_synced := (w_synced w)(i := True)\<rparr>"

text \<open>Every folder of the path is there afterwards; the new ones are not on the disk.\<close>

definition create_dir_all :: "fpath \<Rightarrow> world \<Rightarrow> world" where
  "create_dir_all dir w = w\<lparr>w_dirs := (\<lambda>d. if w_dirs w d = None \<and> take (length d) dir = d then Some False else w_dirs w d)\<rparr>"

text \<open>The names in a folder, of its files and of its folders, are on the disk.\<close>

definition sync_dir :: "fpath \<Rightarrow> world \<Rightarrow> world" where
  "sync_dir dir w = w\<lparr>w_durable := (\<lambda>p. if p \<noteq> [] \<and> butlast p = dir then lookup w p else w_durable w p),
     w_dirs := (\<lambda>d. if d \<noteq> [] \<and> butlast d = dir then map_option (\<lambda>_. True) (w_dirs w d) else w_dirs w d)\<rparr>"

definition remove_file :: "fpath \<Rightarrow> world \<Rightarrow> world" where
  "remove_file p w = w\<lparr>w_names := AList.delete p (w_names w)\<rparr>"

text \<open>Renaming onto another name of the same inode does nothing.\<close>

definition rename_file :: "fpath \<Rightarrow> fpath \<Rightarrow> world \<Rightarrow> bool \<times> world" where
  "rename_file a b w = (case lookup w a of
       None \<Rightarrow> (False, w)
     | Some e \<Rightarrow> (True, if lookup w b = Some e then w else w\<lparr>w_names := AList.update b e (AList.delete a (w_names w))\<rparr>))"

text \<open>A link to a symbolic link is one more name of that link: it is not followed.\<close>

definition hard_link :: "fpath \<Rightarrow> fpath \<Rightarrow> world \<Rightarrow> bool \<times> world" where
  "hard_link a b w = (case (lookup w a, lookup w b) of
       (Some e, None) \<Rightarrow> (True, w\<lparr>w_names := AList.update b e (w_names w)\<rparr>)
     | _ \<Rightarrow> (False, w))"

definition path_join :: "utext \<Rightarrow> utext \<Rightarrow> fpath" where
  "path_join base rel = (if rel \<noteq> [] \<and> hd rel = 47 then components rel else components base @ components rel)"

section \<open>The statements\<close>

definition commit :: "(library_db \<Rightarrow> library_db) \<Rightarrow> world \<Rightarrow> world" where
  "commit g w = w\<lparr>w_db := g (w_db w), w_old := w_db w # w_old w\<rparr>"

definition query :: "faults \<Rightarrow> site \<Rightarrow> (library_db \<Rightarrow> 'a) \<Rightarrow> (world, item_error + 'a) prog" where
  "query f x g = ask (\<lambda>w. case fl f x of Some e \<Rightarrow> Inl e | None \<Rightarrow> Inr (g (w_db w)))"

definition list_library_items_by_work :: "faults \<Rightarrow> int \<Rightarrow> int \<Rightarrow> (world, item_error + library_item list) prog" where
  "list_library_items_by_work f user_id work_id =
     query f ItemsRead (\<lambda>d. filter (\<lambda>li. li_user_id li = user_id \<and> li_work_id li = work_id) (db_items d))"

definition item_at :: "int \<Rightarrow> int \<Rightarrow> utext \<Rightarrow> library_item \<Rightarrow> bool" where
  "item_at user_id root_folder_id path li \<longleftrightarrow>
     li_user_id li = user_id \<and> li_root_folder_id li = root_folder_id \<and> li_path li = path"

definition find_library_item_by_path :: "faults \<Rightarrow> int \<Rightarrow> int \<Rightarrow> utext \<Rightarrow> (world, item_error + library_item option) prog" where
  "find_library_item_by_path f user_id root_folder_id path =
     query f PathRead (\<lambda>d. find (item_at user_id root_folder_id path) (db_items d))"

definition get_library_item :: "faults \<Rightarrow> int \<Rightarrow> int \<Rightarrow> (world, item_error + library_item) prog" where
  "get_library_item f user_id item_id =
     ask (\<lambda>w. case fl f ItemRead of
                Some e \<Rightarrow> Inl e
              | None \<Rightarrow> (case find (\<lambda>li. li_id li = item_id \<and> li_user_id li = user_id) (db_items (w_db w)) of
                           Some li \<Rightarrow> Inr li
                         | None \<Rightarrow> Inl ItemNotFound))"

definition same_place :: "library_item \<Rightarrow> library_item \<Rightarrow> bool" where
  "same_place req li \<longleftrightarrow> item_at (li_user_id req) (li_root_folder_id req) (li_path req) li"

definition update_item :: "library_item \<Rightarrow> int \<Rightarrow> library_db \<Rightarrow> library_db" where
  "update_item req item_id d = d\<lparr>db_items := map (\<lambda>li. if li_id li = item_id
       then li\<lparr>li_media_type := li_media_type req, li_file_size := li_file_size req\<rparr> else li) (db_items d)\<rparr>"

definition insert_item :: "library_item \<Rightarrow> library_db \<Rightarrow> library_db" where
  "insert_item req d = d\<lparr>db_items := db_items d @ [req\<lparr>li_id := db_next_item d\<rparr>], db_next_item := db_next_item d + 1\<rparr>"

text \<open>The request is a row whose number is not yet known. The constraint on user, folder and path is checked by the insertion.\<close>

definition create_library_item :: "faults \<Rightarrow> library_item \<Rightarrow> (world, item_error + library_item) prog" where
  "create_library_item f req =
     and_then (query f ItemSelect (\<lambda>d. find (same_place req) (db_items d))) (\<lambda>existing.
       case existing of
         Inl e \<Rightarrow> Ret (Inl e)
       | Inr (Some row) \<Rightarrow>
           if li_work_id row \<noteq> li_work_id req then Ret (Inl ItemConstraint)
           else (case fl f ItemWrite of
                   Some e \<Rightarrow> Ret (Inl e)
                 | None \<Rightarrow> and_then (tell (commit (update_item req (li_id row)))) (\<lambda>_. get_library_item f (li_user_id req) (li_id row)))
       | Inr None \<Rightarrow>
           (case fl f ItemWrite of
              Some e \<Rightarrow> Ret (Inl e)
            | None \<Rightarrow>
                and_then (atomic (\<lambda>w. if \<exists>li \<in> set (db_items (w_db w)). same_place req li then (None, w)
                                      else (Some (db_next_item (w_db w)), commit (insert_item req) w))) (\<lambda>inserted.
                  case inserted of
                    None \<Rightarrow> Ret (Inl ItemConstraint)
                  | Some item_id \<Rightarrow> get_library_item f (li_user_id req) item_id)))"

definition same_target :: "import_intent \<Rightarrow> import_intent \<Rightarrow> bool" where
  "same_target req it \<longleftrightarrow> ii_user_id it = ii_user_id req \<and> ii_root_folder_id it = ii_root_folder_id req
     \<and> ii_target_relative it = ii_target_relative req"

definition insert_intent :: "import_intent \<Rightarrow> library_db \<Rightarrow> library_db" where
  "insert_intent req d = d\<lparr>db_intents := db_intents d @ [req\<lparr>ii_id := db_next_intent d, ii_state := Staging\<rparr>],
                            db_next_intent := db_next_intent d + 1\<rparr>"

definition create_import_intent :: "faults \<Rightarrow> import_intent \<Rightarrow> (world, item_error + int) prog" where
  "create_import_intent f req = (case fl f IntentInsert of
       Some e \<Rightarrow> Ret (Inl e)
     | None \<Rightarrow>
         and_then (atomic (\<lambda>w. if \<exists>it \<in> set (db_intents (w_db w)). same_target req it then (None, w)
                               else (Some (db_next_intent (w_db w)), commit (insert_intent req) w))) (\<lambda>inserted.
           case inserted of
             None \<Rightarrow> Ret (Inl ItemConstraint)
           | Some intent_id \<Rightarrow> (case fl f IntentRead of
                 Some e \<Rightarrow> Ret (Inl e)
               | None \<Rightarrow> ask (\<lambda>w. if \<exists>it \<in> set (db_intents (w_db w)). ii_id it = intent_id then Inr intent_id else Inl ItemNotFound))))"

definition mark_import_intent_renamed :: "faults \<Rightarrow> int \<Rightarrow> (world, item_error + unit) prog" where
  "mark_import_intent_renamed f intent_id = (case fl f IntentMark of
       Some e \<Rightarrow> Ret (Inl e)
     | None \<Rightarrow> and_then (tell (commit (\<lambda>d. d\<lparr>db_intents := map (\<lambda>it. if ii_id it = intent_id then it\<lparr>ii_state := Renamed\<rparr> else it)
                  (db_intents d)\<rparr>))) (\<lambda>_. Ret (Inr ())))"

definition delete_import_intent :: "faults \<Rightarrow> int \<Rightarrow> (world, item_error + unit) prog" where
  "delete_import_intent f intent_id = (case fl f IntentDelete of
       Some e \<Rightarrow> Ret (Inl e)
     | None \<Rightarrow> and_then (tell (commit (\<lambda>d. d\<lparr>db_intents := filter (\<lambda>it. ii_id it \<noteq> intent_id) (db_intents d)\<rparr>))) (\<lambda>_. Ret (Inr ())))"

definition list_import_intents :: "faults \<Rightarrow> site \<Rightarrow> (world, item_error + import_intent list) prog" where
  "list_import_intents f x = query f x db_intents"

section \<open>Materialisation\<close>

definition drop_temp :: "fpath \<Rightarrow> 'a \<Rightarrow> (world, 'a) prog" where
  "drop_temp p r = and_then (tell (remove_file p)) (\<lambda>_. Ret r)"

text \<open>
  \<^verbatim>\<open>std::io::copy\<close> between two open files: some bytes, then all of them. The result is the number of bytes, nothing where it failed.
\<close>

definition copy_bytes :: "faults \<Rightarrow> site \<Rightarrow> nat \<Rightarrow> nat \<Rightarrow> (world, int option) prog" where
  "copy_bytes f x j i =
     and_then (tell (\<lambda>w. write_file i (take (fl_cut f) (w_contents w j)) w)) (\<lambda>_.
       if fails f x then Ret None
       else atomic (\<lambda>w. (Some (int (length (w_contents w j))), write_file i (w_contents w j) w)))"

text \<open>A creation that fails may have made some of the folders.\<close>

definition make_dirs :: "faults \<Rightarrow> site \<Rightarrow> fpath \<Rightarrow> (world, bool) prog" where
  "make_dirs f x dir =
     (if fails f x then and_then (tell (create_dir_all (take (fl_cut f) dir))) (\<lambda>_. Ret False)
      else and_then (tell (create_dir_all dir)) (\<lambda>_. Ret True))"

definition fsync_dir :: "faults \<Rightarrow> site \<Rightarrow> fpath \<Rightarrow> (world, string + unit) prog" where
  "fsync_dir f x dir = (if fails f x then Ret (Inl ''dir fsync failed'') else and_then (tell (sync_dir dir)) (\<lambda>_. Ret (Inr ())))"

definition materialize_hardlink_first :: "faults \<Rightarrow> task \<Rightarrow> fpath \<Rightarrow> fpath \<Rightarrow> (world, string + int) prog" where
  "materialize_hardlink_first f t src dst =
     and_then (make_dirs f LinkDir (butlast dst)) (\<lambda>made.
      if \<not> made then Ret (Inl ''mkdir failed'') else
      and_then (if fails f HardLink then Ret False else atomic (hard_link src dst)) (\<lambda>linked.
        if linked then
          (if fails f LinkStat then Ret (Inl ''cannot stat hardlinked file'')
           else ask (\<lambda>w. case file_len w dst of Some n \<Rightarrow> Inr n | None \<Rightarrow> Inl ''cannot stat hardlinked file''))
        else if fails f FallbackTemp then Ret (Inl ''tempfile create failed'')
        else
          and_then (atomic (create_temp t TMP_PREFIX (butlast dst))) (\<lambda>(tmp, i).
          and_then (ask (\<lambda>w. if fails f FallbackStat then None else file_len w src)) (\<lambda>source_size.
          case source_size of
            None \<Rightarrow> drop_temp tmp (Inl ''cannot stat source'')
          | Some expected \<Rightarrow>
              and_then (ask (\<lambda>w. if fails f FallbackOpen then None else node w src)) (\<lambda>source_node.
              case source_node of
                None \<Rightarrow> drop_temp tmp (Inl ''open source failed'')
              | Some j \<Rightarrow>
                  and_then (copy_bytes f FallbackCopy j i) (\<lambda>copied.
                  case copied of
                    None \<Rightarrow> drop_temp tmp (Inl ''copy failed'')
                  | Some n \<Rightarrow>
                      if n \<noteq> expected then drop_temp tmp (Inl ''copy size mismatch'')
                      else if fails f FallbackSync then drop_temp tmp (Inl ''data fsync failed'')
                      else
                        and_then (tell (sync_file i)) (\<lambda>_.
                        if fails f FallbackPersist then drop_temp tmp (Inl ''rename failed'')
                        else
                          and_then (atomic (rename_file tmp dst)) (\<lambda>done.
                          if done then Ret (Inr n) else drop_temp tmp (Inl ''rename failed'')))))))))"

definition same_path :: "fpath \<Rightarrow> fpath \<Rightarrow> world \<Rightarrow> bool" where
  "same_path source target w = (case (canonicalize w source, canonicalize w target) of
       (Some a, Some b) \<Rightarrow> a = b
     | _ \<Rightarrow> source = target)"

text \<open>The copy of the target through a temporary file beside it.\<close>

definition separate_target :: "faults \<Rightarrow> task \<Rightarrow> fpath \<Rightarrow> (world, string + unit) prog" where
  "separate_target f t target =
     and_then (ask (\<lambda>w. if fails f SepOpen then None else node w target)) (\<lambda>current.
     case current of
       None \<Rightarrow> Ret (Inl ''open import target failed'')
     | Some j \<Rightarrow>
         if fails f SepTemp then Ret (Inl ''separation tempfile create failed'')
         else
           and_then (atomic (create_temp t STAGING_PREFIX (butlast target))) (\<lambda>(tmp, i).
           and_then (copy_bytes f SepCopy j i) (\<lambda>copied.
           case copied of
             None \<Rightarrow> drop_temp tmp (Inl ''copy failed'')
           | Some n \<Rightarrow>
               if fails f SepPerm then drop_temp tmp (Inl ''cannot preserve target permissions'')
               else if fails f SepSync then drop_temp tmp (Inl ''data fsync failed'')
               else
                 and_then (tell (sync_file i)) (\<lambda>_.
                 if fails f SepPersist then drop_temp tmp (Inl ''rename failed'')
                 else
                   and_then (atomic (rename_file tmp target)) (\<lambda>done.
                   if done then Ret (Inr ()) else drop_temp tmp (Inl ''rename failed''))))))"

definition ensure_independent_target :: "faults \<Rightarrow> task \<Rightarrow> fpath \<Rightarrow> fpath \<Rightarrow> (world, string + unit) prog" where
  "ensure_independent_target f t source target =
     and_then (ask (\<lambda>w. if fails f SepStat then None
                        else map_option (\<lambda>e. (e, case e of Regular i \<Rightarrow> nlink w i | Symlink _ \<Rightarrow> 1)) (lookup w target))) (\<lambda>metadata.
     case metadata of
       None \<Rightarrow> Ret (Inl ''cannot stat import target'')
     | Some (Symlink _, _) \<Rightarrow> Ret (Inl ''import target is a symlink; refusing to write through it'')
     | Some (Regular _, n) \<Rightarrow>
         and_then (ask (same_path source target)) (\<lambda>same.
         if same then Ret (Inl ''source and import target are the same path; no independent copy is possible'')
         else if target = [] then Ret (Inl ''import target has no parent directory'')
         else
           and_then (if n \<le> 1 then Ret (Inr ()) else separate_target f t target) (\<lambda>separated.
           case separated of
             Inl e \<Rightarrow> Ret (Inl e)
           | Inr _ \<Rightarrow> fsync_dir f SepDirSync (butlast target))))"

section \<open>The import of a file\<close>

datatype materialization = Copy | HardlinkFirst | AdoptInPlace

record import_file_request =
  rq_work_id :: int
  rq_root_folder_id :: int
  rq_source :: fpath
  rq_target_relative :: utext
  rq_media_type :: media_type
  rq_materialization :: materialization
  rq_import_id :: "utext option"

datatype import_file_outcome = FileImported int utext | FileAdopted int utext | FileSkipped

datatype import_error = ImportDb item_error | ImportFailed string | PathCollision utext | SourceNotResolved string

type_synonym import_result = "import_error + import_file_outcome"

record library_env =
  root_folders :: "(int \<times> utext) list"

definition get_root_folder :: "library_env \<Rightarrow> faults \<Rightarrow> int \<Rightarrow> item_error + utext" where
  "get_root_folder env f root_folder_id = (case fl f RootRead of
       Some e \<Rightarrow> Inl e
     | None \<Rightarrow> (case map_of (root_folders env) root_folder_id of Some p \<Rightarrow> Inr p | None \<Rightarrow> Inl ItemNotFound))"

definition new_item :: "int \<Rightarrow> import_file_request \<Rightarrow> int \<Rightarrow> library_item" where
  "new_item user_id req file_size =
     \<lparr>li_id = 0, li_user_id = user_id, li_work_id = rq_work_id req, li_root_folder_id = rq_root_folder_id req,
      li_path = rq_target_relative req, li_media_type = rq_media_type req, li_file_size = file_size, li_import_id = rq_import_id req\<rparr>"

definition new_intent :: "int \<Rightarrow> import_file_request \<Rightarrow> fpath \<Rightarrow> int \<Rightarrow> import_intent" where
  "new_intent user_id req staging file_size =
     \<lparr>ii_id = 0, ii_user_id = user_id, ii_work_id = rq_work_id req, ii_root_folder_id = rq_root_folder_id req,
      ii_media_type = rq_media_type req, ii_target_relative = rq_target_relative req, ii_staging_path = staging,
      ii_expected_size = file_size, ii_import_id = rq_import_id req, ii_state = Staging\<rparr>"

text \<open>Whether another work has the path; an error of the statement is one of the import.\<close>

definition path_is_free :: "faults \<Rightarrow> int \<Rightarrow> import_file_request \<Rightarrow> (world, import_error + unit) prog" where
  "path_is_free f user_id req =
     and_then (find_library_item_by_path f user_id (rq_root_folder_id req) (rq_target_relative req)) (\<lambda>found.
       Ret (case found of
              Inl e \<Rightarrow> Inl (ImportDb e)
            | Inr (Some li) \<Rightarrow> if li_work_id li \<noteq> rq_work_id req then Inl (PathCollision (rq_target_relative req)) else Inr ()
            | Inr None \<Rightarrow> Inr ()))"

definition own_bytes :: "faults \<Rightarrow> task \<Rightarrow> import_file_request \<Rightarrow> fpath \<Rightarrow> (world, import_error + unit) prog" where
  "own_bytes f t req target =
     (if rq_materialization req = Copy
      then and_then (ensure_independent_target f t (rq_source req) target) (\<lambda>r. Ret (case r of Inl e \<Rightarrow> Inl (ImportFailed e) | Inr _ \<Rightarrow> Inr ()))
      else Ret (Inr ()))"

text \<open>The size of the file to adopt, if it may be adopted.\<close>

definition adoptable_size :: "faults \<Rightarrow> import_file_request \<Rightarrow> fpath \<Rightarrow> (world, int option) prog" where
  "adoptable_size f req target =
     ask (\<lambda>w. let target_size = (if fails f SizeRead then None else file_len w target) in
              if rq_materialization req = AdoptInPlace then Some (case target_size of Some n \<Rightarrow> n | None \<Rightarrow> 0)
              else (let source_size = (if fails f SourceStat then None else file_len w (rq_source req)) in
                    if source_size = None \<or> source_size \<noteq> target_size then None else target_size))"

definition adopt_target :: "faults \<Rightarrow> task \<Rightarrow> int \<Rightarrow> import_file_request \<Rightarrow> fpath \<Rightarrow> (world, import_result) prog" where
  "adopt_target f t user_id req target =
     and_then (path_is_free f user_id req) (\<lambda>free.
     case free of
       Inl e \<Rightarrow> Ret (Inl e)
     | Inr _ \<Rightarrow>
         and_then (adoptable_size f req target) (\<lambda>file_size.
         case file_size of
           None \<Rightarrow> Ret (Inl (PathCollision (rq_target_relative req)))
         | Some n \<Rightarrow>
             and_then (own_bytes f t req target) (\<lambda>owned.
             case owned of
               Inl e \<Rightarrow> Ret (Inl e)
             | Inr _ \<Rightarrow>
                 and_then (create_library_item f (new_item user_id req n)) (\<lambda>item.
                 Ret (case item of
                        Inr li \<Rightarrow> Inr (FileAdopted (li_id li) (rq_target_relative req))
                      | Inl ItemConstraint \<Rightarrow> Inl (PathCollision (rq_target_relative req))
                      | Inl e \<Rightarrow> Inl (ImportDb e))))))"

definition existing_target :: "faults \<Rightarrow> task \<Rightarrow> int \<Rightarrow> import_file_request \<Rightarrow> fpath \<Rightarrow> (world, import_result) prog" where
  "existing_target f t user_id req target =
     and_then (list_library_items_by_work f user_id (rq_work_id req)) (\<lambda>existing_items.
     case existing_items of
       Inl e \<Rightarrow> Ret (Inl (ImportDb e))
     | Inr items \<Rightarrow>
         if \<exists>li \<in> set items. li_root_folder_id li = rq_root_folder_id req \<and> li_path li = rq_target_relative req
         then and_then (own_bytes f t req target) (\<lambda>owned. Ret (case owned of Inl e \<Rightarrow> Inl e | Inr _ \<Rightarrow> Inr FileSkipped))
         else adopt_target f t user_id req target)"

text \<open>The staging file is written and on the disk, or its temporary file is gone.\<close>

definition stage_copy :: "faults \<Rightarrow> fpath \<Rightarrow> fpath \<Rightarrow> nat \<Rightarrow> (world, string + int) prog" where
  "stage_copy f source staging i =
     and_then (ask (\<lambda>w. if fails f CopyOpen then None else node w source)) (\<lambda>src_file.
     case src_file of
       None \<Rightarrow> drop_temp staging (Inl ''open source failed'')
     | Some j \<Rightarrow>
         if fails f CopyClone then drop_temp staging (Inl ''staging handle clone failed'')
         else
           and_then (copy_bytes f CopyData j i) (\<lambda>copied.
           case copied of
             None \<Rightarrow> drop_temp staging (Inl ''copy failed'')
           | Some n \<Rightarrow>
               if fails f CopySync then drop_temp staging (Inl ''fsync staging failed'')
               else
                 and_then (tell (sync_file i)) (\<lambda>_.
                 if fails f CopyKeep then drop_temp staging (Inl ''failed to keep staging file'') else Ret (Inr n))))"

definition stage_link :: "faults \<Rightarrow> task \<Rightarrow> fpath \<Rightarrow> fpath \<Rightarrow> (world, string + int) prog" where
  "stage_link f t source staging =
     and_then (if fails f TempClose then Ret False else drop_temp staging True) (\<lambda>closed.
     if closed then materialize_hardlink_first f t source staging
     else Ret (Inl ''failed to release staging reservation''))"

text \<open>Giving up: the staging file and the intent are removed, as far as that succeeds.\<close>

definition roll_back :: "faults \<Rightarrow> fpath \<Rightarrow> int \<Rightarrow> string \<Rightarrow> (world, import_result) prog" where
  "roll_back f staging intent_id e =
     and_then (if fails f RemoveStaging then Ret () else tell (remove_file staging)) (\<lambda>_.
     and_then (delete_import_intent f intent_id) (\<lambda>_. Ret (Inl (ImportFailed e))))"

text \<open>From the staged file to the row.\<close>

definition finalize_import :: "faults \<Rightarrow> int \<Rightarrow> import_file_request \<Rightarrow> fpath \<Rightarrow> fpath \<Rightarrow> int \<Rightarrow> int \<Rightarrow> (world, import_result) prog" where
  "finalize_import f user_id req target staging intent_id file_size =
     and_then (if fails f RenameFile then Ret False else atomic (rename_file staging target)) (\<lambda>renamed.
     if \<not> renamed then roll_back f staging intent_id ''finalize rename failed''
     else
       and_then (fsync_dir f DirSync (butlast target)) (\<lambda>durable.
       case durable of
         Inl e \<Rightarrow> Ret (Inl (ImportFailed e))
       | Inr _ \<Rightarrow>
           and_then (mark_import_intent_renamed f intent_id) (\<lambda>_.
           and_then (create_library_item f (new_item user_id req file_size)) (\<lambda>item.
           case item of
             Inl e \<Rightarrow> Ret (Inl (ImportDb e))
           | Inr li \<Rightarrow>
               and_then (delete_import_intent f intent_id) (\<lambda>_. Ret (Inr (FileImported (li_id li) (rq_target_relative req))))))))"

definition stage_and_finalize :: "faults \<Rightarrow> task \<Rightarrow> int \<Rightarrow> import_file_request \<Rightarrow> fpath \<Rightarrow> (world, import_result) prog" where
  "stage_and_finalize f t user_id req target =
     and_then (make_dirs f MkDir (butlast target)) (\<lambda>made.
      if \<not> made then Ret (Inl (ImportFailed ''failed to create destination directory'')) else
      and_then (ask (\<lambda>w. case (if fails f SourceStat then None else file_len w (rq_source req)) of Some n \<Rightarrow> n | None \<Rightarrow> 0)) (\<lambda>expected_size.
      if fails f TempCreate then Ret (Inl (ImportFailed ''staging tempfile create failed''))
      else
        and_then (atomic (create_temp t STAGING_PREFIX (butlast target))) (\<lambda>(staging, i).
        and_then (create_import_intent f (new_intent user_id req staging expected_size)) (\<lambda>intent.
        case intent of
          Inl ItemConstraint \<Rightarrow> drop_temp staging (Inl (PathCollision (rq_target_relative req)))
        | Inl e \<Rightarrow> drop_temp staging (Inl (ImportDb e))
        | Inr intent_id \<Rightarrow>
            and_then (if rq_materialization req = Copy then stage_copy f (rq_source req) staging i
                      else stage_link f t (rq_source req) staging) (\<lambda>materialized.
            case materialized of
              Inl e \<Rightarrow> roll_back f staging intent_id (''staging write failed: '' @ e)
            | Inr n \<Rightarrow> finalize_import f user_id req target staging intent_id n)))))"

definition new_target :: "faults \<Rightarrow> task \<Rightarrow> int \<Rightarrow> import_file_request \<Rightarrow> fpath \<Rightarrow> (world, import_result) prog" where
  "new_target f t user_id req target =
     (if rq_materialization req = AdoptInPlace then Ret (Inl (SourceNotResolved ''adopt-in-place target does not exist'')) else
      and_then (path_is_free f user_id req) (\<lambda>free.
      case free of
        Inl e \<Rightarrow> Ret (Inl e)
      | Inr _ \<Rightarrow> stage_and_finalize f t user_id req target))"

definition import_file_locked :: "library_env \<Rightarrow> faults \<Rightarrow> int \<Rightarrow> import_file_request \<Rightarrow> (world, import_result) prog" where
  "import_file_locked env f user_id req = (case get_root_folder env f (rq_root_folder_id req) of
       Inl e \<Rightarrow> Ret (Inl (ImportDb e))
     | Inr root_folder \<Rightarrow>
         (let target = path_join root_folder (rq_target_relative req) in
          if \<not> validate_target_path target (components root_folder) then Ret (Inl (ImportFailed ''path traversal blocked''))
          else
            and_then (ask (\<lambda>w. \<not> fails f TargetStat \<and> node w target \<noteq> None)) (\<lambda>target_exists.
            if target_exists then existing_target f (user_id, rq_work_id req) user_id req target
            else new_target f (user_id, rq_work_id req) user_id req target)))"

section \<open>Recovery\<close>

record import_recovery_report =
  rolled_back :: nat
  completed :: nat
  anomalous :: nat
  swept :: nat

definition empty_report :: import_recovery_report where
  "empty_report = \<lparr>rolled_back = 0, completed = 0, anomalous = 0, swept = 0\<rparr>"

definition intent_item :: "import_intent \<Rightarrow> int \<Rightarrow> library_item" where
  "intent_item it file_size =
     \<lparr>li_id = 0, li_user_id = ii_user_id it, li_work_id = ii_work_id it, li_root_folder_id = ii_root_folder_id it,
      li_path = ii_target_relative it, li_media_type = ii_media_type it, li_file_size = file_size, li_import_id = ii_import_id it\<rparr>"

definition clear_intent ::
  "faults \<Rightarrow> import_intent \<Rightarrow> (import_recovery_report \<Rightarrow> import_recovery_report) \<Rightarrow> import_recovery_report \<Rightarrow> (world, import_recovery_report) prog" where
  "clear_intent f it counted report =
     and_then (delete_import_intent f (ii_id it)) (\<lambda>r. Ret (case r of Inr _ \<Rightarrow> counted report | Inl _ \<Rightarrow> report))"

definition reconcile_one_intent ::
  "library_env \<Rightarrow> faults \<Rightarrow> import_intent \<Rightarrow> import_recovery_report \<Rightarrow> (world, import_recovery_report) prog" where
  "reconcile_one_intent env f it report = (case get_root_folder env f (ii_root_folder_id it) of
       Inl _ \<Rightarrow> Ret report
     | Inr root_folder \<Rightarrow>
         (let target = path_join root_folder (ii_target_relative it) in
          and_then (ask (\<lambda>w. \<not> fails f TargetStat \<and> node w target \<noteq> None)) (\<lambda>target_exists.
          if \<not> target_exists then
            (case ii_state it of
               Staging \<Rightarrow>
                 and_then (if fails f RemoveStaging then Ret () else tell (remove_file (ii_staging_path it))) (\<lambda>_.
                 clear_intent f it (rolled_back_update Suc) report)
             | Renamed \<Rightarrow> Ret (report\<lparr>anomalous := anomalous report + 1\<rparr>))
          else
            and_then (ask (\<lambda>w. case (if fails f SizeRead then None else file_len w target) of Some n \<Rightarrow> n | None \<Rightarrow> ii_expected_size it)) (\<lambda>real_size.
            if real_size \<noteq> ii_expected_size it then Ret (report\<lparr>anomalous := anomalous report + 1\<rparr>)
            else
              and_then (create_library_item f (intent_item it real_size)) (\<lambda>item.
              case item of
                Inl _ \<Rightarrow> Ret report
              | Inr _ \<Rightarrow> clear_intent f it (completed_update Suc) report)))))"

text \<open>
  What the sweep finds below a root folder: names with the prefix of a staging file that no intent
  refers to and that are old enough, in folders it can read.
\<close>

definition starts_with_text :: "utext \<Rightarrow> utext \<Rightarrow> bool" where
  "starts_with_text p s \<longleftrightarrow> take (length p) s = p"

definition sweepable :: "(fpath \<Rightarrow> bool) \<Rightarrow> (fpath \<Rightarrow> bool) \<Rightarrow> fpath list \<Rightarrow> fpath \<Rightarrow> fpath \<times> entry \<Rightarrow> bool" where
  "sweepable readable aged referenced root_path e = (case e of
       (p, Symlink _) \<Rightarrow> False
     | (p, Regular _) \<Rightarrow>
         length root_path < length p \<and> take (length root_path) p = root_path
         \<and> (\<forall>n \<in> set [length root_path..<length p]. readable (take n p))
         \<and> starts_with_text STAGING_PREFIX (last p) \<and> p \<notin> set referenced \<and> aged p)"

record recovery_env =
  rec_order :: "import_intent list \<Rightarrow> import_intent list"
  rec_faults :: "int \<Rightarrow> faults"
  rec_readable :: "fpath \<Rightarrow> bool"
  rec_aged :: "fpath \<Rightarrow> bool"
  rec_removable :: "fpath \<Rightarrow> bool"

definition sweep_dir_for_staging :: "recovery_env \<Rightarrow> fpath list \<Rightarrow> utext \<Rightarrow> import_recovery_report \<Rightarrow> (world, import_recovery_report) prog" where
  "sweep_dir_for_staging renv referenced root_folder report =
     and_then (ask (\<lambda>w. map fst (filter (sweepable (rec_readable renv) (rec_aged renv) referenced (components root_folder)) (w_names w)))) (\<lambda>found.
     each (\<lambda>p report. if rec_removable renv p
                      then and_then (tell (remove_file p)) (\<lambda>_. Ret (report\<lparr>swept := swept report + 1\<rparr>))
                      else Ret report) found report)"

text \<open>
  The intents are worked off by the works they belong to, in the order of a hash map: any order of the
  list. The import locks are free at start-up.
\<close>

definition recover_import_intents ::
  "library_env \<Rightarrow> faults \<Rightarrow> recovery_env \<Rightarrow> (world, item_error + import_recovery_report) prog" where
  "recover_import_intents env f renv =
     and_then (list_import_intents f IntentsList) (\<lambda>listed.
     case listed of
       Inl e \<Rightarrow> Ret (Inl e)
     | Inr intents \<Rightarrow>
         and_then (each (\<lambda>it. reconcile_one_intent env (rec_faults renv (ii_id it)) it) (rec_order renv intents) empty_report) (\<lambda>report.
         and_then (list_import_intents f IntentsRelist) (\<lambda>remaining.
         case remaining of
           Inl _ \<Rightarrow> Ret (Inr report)
         | Inr rest \<Rightarrow>
             if fails f RootsList then Ret (Inr report)
             else
               and_then (each (sweep_dir_for_staging renv (map ii_staging_path rest)) (map snd (root_folders env)) report) (\<lambda>report'.
               Ret (Inr report')))))"

end
