(* ===== verification/ImportSystem.thy ===== *)
theory ImportSystem
  imports ImportFiles
begin

text \<open>
  Many imports at the same time, crashes and restarts: a crash is the death of the process, which
  loses nothing that was written, or a power loss, which loses names that are not on the disk, folders with all
  that is in them included, spoils contents that are not, and may take the database back to an earlier state. Downloads deliver new files
  outside the library, and the file system writes folders back when it likes. The invariant of the library and what an import may rely on follow.
\<close>

section \<open>Crashes\<close>

text \<open>The names of all the folders of the path are on the disk; one of the folders of the path was lost.\<close>

definition anchored :: "world \<Rightarrow> fpath \<Rightarrow> bool" where
  "anchored w dir \<longleftrightarrow> (\<forall>n \<in> set [1..<Suc (length dir)]. w_dirs w (take n dir) = Some True)"

definition lost_folder :: "world \<Rightarrow> world \<Rightarrow> fpath \<Rightarrow> bool" where
  "lost_folder w w' dir \<longleftrightarrow> (\<exists>n \<in> set [1..<Suc (length dir)]. w_dirs w (take n dir) \<noteq> None \<and> w_dirs w' (take n dir) = None)"

text \<open>A folder on the disk stays unless one above it is lost, and what was in a lost folder is lost.\<close>

definition power_loss :: "world \<Rightarrow> world \<Rightarrow> bool" where
  "power_loss w w' \<longleftrightarrow>
     (\<forall>d. w_dirs w' d = None \<or> w_dirs w' d = Some True \<and> w_dirs w d \<noteq> None \<and> \<not> lost_folder w w' d)
     \<and> (\<forall>d. w_dirs w d = Some True \<and> \<not> lost_folder w w' (butlast d) \<longrightarrow> w_dirs w' d \<noteq> None)
     \<and> (\<forall>p. if lost_folder w w' (butlast p) then lookup w' p = None else lookup w' p = lookup w p \<or> lookup w' p = w_durable w p)
     \<and> (\<forall>p. w_durable w' p = lookup w' p)
     \<and> (\<forall>i. w_synced w i \<longrightarrow> w_contents w' i = w_contents w i) \<and> (\<forall>i. w_synced w' i)
     \<and> w_next w' = w_next w \<and> w_db w' \<in> set (w_db w # w_old w) \<and> w_old w' = []"

definition temp_name :: "fpath \<Rightarrow> bool" where
  "temp_name p \<longleftrightarrow> p \<noteq> [] \<and> (starts_with_text STAGING_PREFIX (last p) \<or> starts_with_text TMP_PREFIX (last p))"

definition under_root :: "library_env \<Rightarrow> fpath \<Rightarrow> bool" where
  "under_root env p \<longleftrightarrow> (\<exists>r \<in> set (root_folders env). strip_path_prefix (components (snd r)) p \<noteq> None)"

definition library_path :: "library_env \<Rightarrow> fpath \<Rightarrow> bool" where
  "library_path env p \<longleftrightarrow> p \<noteq> [] \<and> \<not> temp_name p \<and> under_root env p"

text \<open>A request of the system: a copy to a place whose name is not that of a temporary file.\<close>

definition copy_request :: "library_env \<Rightarrow> import_file_request \<Rightarrow> bool" where
  "copy_request env req \<longleftrightarrow> rq_materialization req = Copy
     \<and> (\<forall>r \<in> set (root_folders env). path_join (snd r) (rq_target_relative req) \<noteq> []
          \<and> \<not> temp_name (path_join (snd r) (rq_target_relative req)))"

definition deliver :: "fpath \<Rightarrow> bytes \<Rightarrow> world \<Rightarrow> world" where
  "deliver p c w = (let i = w_next w in
     (create_dir_all (butlast p) w)\<lparr>w_names := AList.update p (Regular i) (w_names w), w_contents := (w_contents w)(i := c),
       w_synced := (w_synced w)(i := False), w_next := i + 1\<rparr>)"

record config =
  cf_world :: world
  cf_tasks :: "task \<Rightarrow> (world, unit) prog option"
  cf_recovery :: "(world, unit) prog"

definition import_task :: "library_env \<Rightarrow> faults \<Rightarrow> int \<Rightarrow> import_file_request \<Rightarrow> (world, unit) prog" where
  "import_task env f user_id req = and_then (import_file_locked env f user_id req) (\<lambda>_. Ret ())"

definition recovery_task :: "library_env \<Rightarrow> faults \<Rightarrow> recovery_env \<Rightarrow> (world, unit) prog" where
  "recovery_task env f renv = and_then (recover_import_intents env f renv) (\<lambda>_. Ret ())"

definition restarted :: "library_env \<Rightarrow> faults \<Rightarrow> recovery_env \<Rightarrow> world \<Rightarrow> config" where
  "restarted env f renv w = \<lparr>cf_world = w, cf_tasks = (\<lambda>_. None), cf_recovery = recovery_task env f renv\<rparr>"

text \<open>The folders of the rows are on the disk.\<close>

definition rows_anchored :: "library_env \<Rightarrow> library_db \<Rightarrow> world \<Rightarrow> bool" where
  "rows_anchored env d w \<longleftrightarrow> (\<forall>li \<in> set (db_items d). \<forall>r. map_of (root_folders env) (li_root_folder_id li) = Some r
     \<longrightarrow> anchored w (butlast (path_join r (li_path li))))"

text \<open>
  The lock of a user's work lets one import of it run at a time. With \<^emph>\<open>hard\<close> crashes every crash
  is a power loss, at a time when the folders of the rows that the database then has are on the disk; otherwise every crash
  is the death of the process. No import makes sure of those folders: they get to the disk when the file system writes them back.
\<close>

inductive library_step :: "library_env \<Rightarrow> bool \<Rightarrow> config \<Rightarrow> config \<Rightarrow> bool" for env hard where
  start: "cf_recovery c = Ret () \<Longrightarrow> cf_tasks c (user_id, rq_work_id (req :: import_file_request)) \<in> {None, Some (Ret ())} \<Longrightarrow> copy_request env req \<Longrightarrow>
    library_step env hard c (c\<lparr>cf_tasks := (cf_tasks c)((user_id, rq_work_id req) \<mapsto> import_task env f user_id req)\<rparr>)"
| act: "cf_tasks c t = Some (Act g) \<Longrightarrow> g (cf_world c) = (p, w) \<Longrightarrow>
    library_step env hard c (c\<lparr>cf_world := w, cf_tasks := (cf_tasks c)(t \<mapsto> p)\<rparr>)"
| recover: "cf_recovery c = Act g \<Longrightarrow> g (cf_world c) = (p, w) \<Longrightarrow> library_step env hard c (c\<lparr>cf_world := w, cf_recovery := p\<rparr>)"
| delivery: "\<not> under_root env p \<Longrightarrow> \<not> temp_name p \<Longrightarrow> lookup (cf_world c) p = None \<Longrightarrow>
    library_step env hard c (c\<lparr>cf_world := deliver p content (cf_world c)\<rparr>)"
| writeback: "library_step env hard c (c\<lparr>cf_world := sync_dir dir (cf_world c)\<rparr>)"
| death: "\<not> hard \<Longrightarrow> \<forall>xs. set (rec_order renv xs) = set xs \<Longrightarrow> library_step env hard c (restarted env f renv (cf_world c))"
| power: "hard \<Longrightarrow> power_loss (cf_world c) w \<Longrightarrow> rows_anchored env (w_db w) (cf_world c) \<Longrightarrow> \<forall>xs. set (rec_order renv xs) = set xs \<Longrightarrow>
    library_step env hard c (restarted env f renv w)"

definition empty_config :: config where
  "empty_config = \<lparr>cf_world = \<lparr>w_names = [], w_durable = (\<lambda>_. None), w_dirs = (\<lambda>_. None), w_contents = (\<lambda>_. []), w_synced = (\<lambda>_. False), w_next = 0,
       w_owner = (\<lambda>_. (0, 0)), w_db = \<lparr>db_items = [], db_intents = [], db_next_item = 1, db_next_intent = 1\<rparr>, w_old = []\<rparr>,
     cf_tasks = (\<lambda>_. None), cf_recovery = Ret ()\<rparr>"

section \<open>The invariant\<close>

definition regular :: "entry option \<Rightarrow> bool" where
  "regular e \<longleftrightarrow> (\<exists>i. e = Some (Regular i))"

definition named :: "world \<Rightarrow> nat \<Rightarrow> fpath \<Rightarrow> bool" where
  "named w i p \<longleftrightarrow> lookup w p = Some (Regular i) \<or> w_durable w p = Some (Regular i)"

definition present :: "bool \<Rightarrow> world \<Rightarrow> fpath \<Rightarrow> bool" where
  "present hard w p \<longleftrightarrow> regular (lookup w p) \<and> (hard \<longrightarrow> regular (w_durable w p))"

definition item_ok :: "library_env \<Rightarrow> bool \<Rightarrow> world \<Rightarrow> library_item \<Rightarrow> bool" where
  "item_ok env hard w li \<longleftrightarrow> (\<exists>r. map_of (root_folders env) (li_root_folder_id li) = Some r
     \<and> library_path env (path_join r (li_path li)) \<and> present hard w (path_join r (li_path li)))"

definition intent_ok :: "library_env \<Rightarrow> import_intent \<Rightarrow> bool" where
  "intent_ok env it \<longleftrightarrow> temp_name (ii_staging_path it)
     \<and> (\<exists>r. map_of (root_folders env) (ii_root_folder_id it) = Some r \<and> library_path env (path_join r (ii_target_relative it)))"

definition db_ok :: "library_env \<Rightarrow> bool \<Rightarrow> world \<Rightarrow> library_db \<Rightarrow> bool" where
  "db_ok env hard w d \<longleftrightarrow> (\<forall>li \<in> set (db_items d). item_ok env hard w li) \<and> (\<forall>it \<in> set (db_intents d). intent_ok env it)"

definition files_ok :: "library_env \<Rightarrow> world \<Rightarrow> bool" where
  "files_ok env w \<longleftrightarrow> (\<forall>p i. named w i p \<longrightarrow> i < w_next w \<and> (library_path env p \<longrightarrow> w_synced w i))
     \<and> (\<forall>p. library_path env p \<and> regular (w_durable w p) \<longrightarrow> regular (lookup w p))
     \<and> (\<forall>p q. lookup w p \<noteq> Some (Symlink q) \<and> w_durable w p \<noteq> Some (Symlink q))"

definition library_ok :: "library_env \<Rightarrow> bool \<Rightarrow> world \<Rightarrow> bool" where
  "library_ok env hard w \<longleftrightarrow> files_ok env w \<and> (\<forall>d \<in> set (w_db w # w_old w). db_ok env hard w d)"

text \<open>
  What a task relies on: its own inodes and temporary names are left alone, and no file of the library goes
  away.
\<close>

definition is_temp_path :: "nat \<Rightarrow> fpath \<Rightarrow> bool" where
  "is_temp_path i p \<longleftrightarrow> (\<exists>dir. p = temp_path STAGING_PREFIX dir i \<or> p = temp_path TMP_PREFIX dir i)"

definition leaves_alone :: "task \<Rightarrow> world \<Rightarrow> world \<Rightarrow> bool" where
  "leaves_alone t w w' \<longleftrightarrow> (\<forall>i < w_next w. w_owner w i = t \<longrightarrow>
     w_synced w' i = w_synced w i \<and> (\<forall>p. named w' i p \<longrightarrow> named w i p) \<and> (\<forall>p. is_temp_path i p \<longrightarrow> lookup w' p = lookup w p))"

definition keeps_files :: "library_env \<Rightarrow> world \<Rightarrow> world \<Rightarrow> bool" where
  "keeps_files env w w' \<longleftrightarrow> (\<forall>p. library_path env p \<longrightarrow>
     (regular (lookup w p) \<longrightarrow> regular (lookup w' p)) \<and> (regular (w_durable w p) \<longrightarrow> regular (w_durable w' p)))"

definition relies :: "library_env \<Rightarrow> task \<Rightarrow> world \<Rightarrow> world \<Rightarrow> bool" where
  "relies env t w w' \<longleftrightarrow> w_next w \<le> w_next w' \<and> (\<forall>i < w_next w. w_owner w' i = w_owner w i) \<and> leaves_alone t w w' \<and> keeps_files env w w'"

interpretation lib: tasks "library_ok env hard" "relies env" for env hard
proof unfold_locales
  show "relies env t w w" for t w by (simp add: relies_def leaves_alone_def keeps_files_def)
  show "relies env t w w''" if "relies env t w w'" "relies env t w' w''" for t w w' w''
  proof -
    have le: "w_next w \<le> w_next w'" "w_next w' \<le> w_next w''" and own: "\<forall>i < w_next w. w_owner w' i = w_owner w i" "\<forall>i < w_next w'. w_owner w'' i = w_owner w' i"
      and alone: "leaves_alone t w w'" "leaves_alone t w' w''" and keeps: "keeps_files env w w'" "keeps_files env w' w''"
      using that unfolding relies_def by blast+
    have "leaves_alone t w w''" unfolding leaves_alone_def
    proof (intro allI impI)
      fix i assume i: "i < w_next w" "w_owner w i = t"
      then have "i < w_next w'" "w_owner w' i = t" using le own by auto
      then show "w_synced w'' i = w_synced w i \<and> (\<forall>p. named w'' i p \<longrightarrow> named w i p) \<and> (\<forall>p. is_temp_path i p \<longrightarrow> lookup w'' p = lookup w p)"
        using alone i unfolding leaves_alone_def by metis
    qed
    moreover have "keeps_files env w w''" using keeps unfolding keeps_files_def by blast
    moreover have "\<forall>i < w_next w. w_owner w'' i = w_owner w i" using own le by auto
    ultimately show ?thesis using le unfolding relies_def by auto
  qed
qed

section \<open>Names after each operation\<close>

lemma lookup_create_temp: "create_temp t pre dir w = ((p, i), w') \<Longrightarrow>
  p = temp_path pre dir (w_next w) \<and> i = w_next w \<and> lookup w' q = (if q = p then Some (Regular i) else lookup w q)
  \<and> w_durable w' = w_durable w \<and> w_synced w' = (w_synced w)(i := False) \<and> w_owner w' = (w_owner w)(i := t)
  \<and> w_next w' = w_next w + 1 \<and> w_db w' = w_db w \<and> w_old w' = w_old w"
  by (auto simp: create_temp_def Let_def lookup_def update_conv')

lemma lookup_remove: "lookup (remove_file p w) q = (if q = p then None else lookup w q)"
  by (auto simp: remove_file_def lookup_def delete_conv')

lemma lookup_rename: "lookup w a = Some e \<Longrightarrow> a \<noteq> b \<Longrightarrow>
  lookup (snd (rename_file a b w)) q = (if lookup w b = Some e then lookup w q else if q = b then Some e else if q = a then None else lookup w q)"
  by (auto simp: rename_file_def lookup_def update_conv' delete_conv')

lemma rename_fields [simp]:
  "w_durable (snd (rename_file a b w)) = w_durable w" "w_synced (snd (rename_file a b w)) = w_synced w"
  "w_owner (snd (rename_file a b w)) = w_owner w" "w_next (snd (rename_file a b w)) = w_next w"
  "w_db (snd (rename_file a b w)) = w_db w" "w_old (snd (rename_file a b w)) = w_old w"
  by (auto simp: rename_file_def split: option.split)

lemma remove_fields [simp]:
  "w_durable (remove_file p w) = w_durable w" "w_synced (remove_file p w) = w_synced w" "w_owner (remove_file p w) = w_owner w"
  "w_next (remove_file p w) = w_next w" "w_db (remove_file p w) = w_db w" "w_old (remove_file p w) = w_old w"
  by (simp_all add: remove_file_def)

lemma write_fields [simp]:
  "lookup (write_file i c w) p = lookup w p" "w_durable (write_file i c w) = w_durable w" "w_owner (write_file i c w) = w_owner w"
  "w_next (write_file i c w) = w_next w" "w_db (write_file i c w) = w_db w" "w_old (write_file i c w) = w_old w"
  "w_synced (write_file i c w) = (w_synced w)(i := False)" "w_contents (write_file i c w) = (w_contents w)(i := c)"
  by (simp_all add: write_file_def lookup_def)

lemma sync_fields [simp]:
  "lookup (sync_file i w) p = lookup w p" "w_durable (sync_file i w) = w_durable w" "w_owner (sync_file i w) = w_owner w"
  "w_next (sync_file i w) = w_next w" "w_db (sync_file i w) = w_db w" "w_old (sync_file i w) = w_old w"
  "w_synced (sync_file i w) = (w_synced w)(i := True)" "w_contents (sync_file i w) = w_contents w"
  by (simp_all add: sync_file_def lookup_def)

lemma create_dir_all_fields [simp]:
  "lookup (create_dir_all d w) p = lookup w p" "w_durable (create_dir_all d w) = w_durable w" "w_owner (create_dir_all d w) = w_owner w"
  "w_next (create_dir_all d w) = w_next w" "w_db (create_dir_all d w) = w_db w" "w_old (create_dir_all d w) = w_old w"
  "w_synced (create_dir_all d w) = w_synced w" "w_contents (create_dir_all d w) = w_contents w"
  by (simp_all add: create_dir_all_def lookup_def)

lemma sync_dir_fields [simp]:
  "lookup (sync_dir d w) p = lookup w p" "w_owner (sync_dir d w) = w_owner w" "w_synced (sync_dir d w) = w_synced w"
  "w_next (sync_dir d w) = w_next w" "w_db (sync_dir d w) = w_db w" "w_old (sync_dir d w) = w_old w"
  "w_contents (sync_dir d w) = w_contents w"
  "w_durable (sync_dir d w) p = (if p \<noteq> [] \<and> butlast p = d then lookup w p else w_durable w p)"
  by (simp_all add: sync_dir_def lookup_def)

lemma commit_fields [simp]:
  "lookup (commit g w) p = lookup w p" "w_durable (commit g w) = w_durable w" "w_owner (commit g w) = w_owner w"
  "w_synced (commit g w) = w_synced w" "w_next (commit g w) = w_next w" "w_contents (commit g w) = w_contents w"
  "w_db (commit g w) = g (w_db w)" "w_old (commit g w) = w_db w # w_old w"
  by (simp_all add: commit_def lookup_def)

section \<open>Folders in a power loss\<close>

lemma not_lost_folder:
  "\<not> lost_folder w w' dir \<longleftrightarrow> (\<forall>n. 1 \<le> n \<and> n \<le> length dir \<longrightarrow> w_dirs w (take n dir) = None \<or> w_dirs w' (take n dir) \<noteq> None)"
  by (auto simp: lost_folder_def less_Suc_eq_le simp del: upt_Suc)

lemma anchored_iff: "anchored w dir \<longleftrightarrow> (\<forall>n. 1 \<le> n \<and> n \<le> length dir \<longrightarrow> w_dirs w (take n dir) = Some True)"
  by (auto simp: anchored_def less_Suc_eq_le simp del: upt_Suc)

lemma anchored_kept:
  assumes "power_loss w w'" and "anchored w dir"
  shows "\<not> lost_folder w w' dir"
proof -
  have dirs: "w_dirs w d = Some True \<and> \<not> lost_folder w w' (butlast d) \<Longrightarrow> w_dirs w' d \<noteq> None" for d
    using assms(1) unfolding power_loss_def by blast
  have "\<not> lost_folder w w' (take n dir)" if "n \<le> length dir" for n
    using that
  proof (induction n)
    case (Suc n)
    have "w_dirs w (take (Suc n) dir) = Some True" using assms(2) Suc.prems by (simp add: anchored_iff)
    moreover have "butlast (take (Suc n) dir) = take n dir" using Suc.prems by (simp add: butlast_take)
    ultimately have last: "w_dirs w' (take (Suc n) dir) \<noteq> None" using dirs Suc by simp
    have "w_dirs w (take m dir) = None \<or> w_dirs w' (take m dir) \<noteq> None" if "1 \<le> m" "m \<le> Suc n" for m
      using that last Suc by (cases "m = Suc n") (simp_all add: not_lost_folder)
    then show ?case unfolding not_lost_folder using Suc.prems by simp
  qed (simp add: lost_folder_def)
  from this [of "length dir"] show ?thesis by simp
qed

lemma power_loss_names:
  assumes "power_loss w w'"
  shows "lookup w' p = lookup w p \<or> lookup w' p = w_durable w p \<or> lookup w' p = None" and "w_durable w' p = lookup w' p"
    and "anchored w (butlast p) \<Longrightarrow> lookup w' p = lookup w p \<or> lookup w' p = w_durable w p"
  using assms anchored_kept [OF assms, of "butlast p"] unfolding power_loss_def by metis+

end
