(* ===== verification/ImportGuarantees.thy ===== *)
theory ImportGuarantees
  imports ImportSystem
begin

text \<open>
  What the imports guarantee together: each atomic action keeps the library in order and respects
  what the other imports rely on, so every interleaving with any faults and crashes does.
\<close>

section \<open>Temporary names\<close>

lemma temp_path_name: "pre = STAGING_PREFIX \<or> pre = TMP_PREFIX \<Longrightarrow> temp_name (temp_path pre dir i)"
  by (auto simp: temp_name_def temp_path_def starts_with_text_def)

lemma is_temp_path_name: "is_temp_path i p \<Longrightarrow> temp_name p"
  by (auto simp: is_temp_path_def temp_path_name)

lemma is_temp_path_unique: "is_temp_path i p \<Longrightarrow> is_temp_path j p \<Longrightarrow> i = j"
proof -
  have "STAGING_PREFIX ! 1 = 108" "TMP_PREFIX ! 1 = 116" "1 < length STAGING_PREFIX" "1 < length TMP_PREFIX"
    by (simp_all add: STAGING_PREFIX_def TMP_PREFIX_def tx_def)
  moreover have ne: "(108 :: nat) \<noteq> 116" by simp
  ultimately have "(STAGING_PREFIX @ s) ! 1 = 108" "(TMP_PREFIX @ s) ! 1 = 116" for s by (simp_all only: nth_append if_True)
  then have "STAGING_PREFIX @ s \<noteq> TMP_PREFIX @ s'" "TMP_PREFIX @ s' \<noteq> STAGING_PREFIX @ s" for s s' by (metis ne)+
  then show "is_temp_path i p \<Longrightarrow> is_temp_path j p \<Longrightarrow> i = j"
    by (auto simp: is_temp_path_def temp_path_def dest: show_nat_inject)
qed

lemma library_path_not_temp: "library_path env p \<Longrightarrow> \<not> temp_name p"
  by (simp add: library_path_def)

section \<open>Steps on files and on the database\<close>

definition fair :: "library_env \<Rightarrow> bool \<Rightarrow> task \<Rightarrow> world \<Rightarrow> world \<Rightarrow> bool" where
  "fair env hard t w w' \<longleftrightarrow> library_ok env hard w' \<and> (\<forall>u. u \<noteq> t \<longrightarrow> relies env u w w')"

lemma item_ok_mono:
  assumes "keeps_files env w w'" and "item_ok env hard w li"
  shows "item_ok env hard w' li"
  using assms unfolding item_ok_def present_def keeps_files_def by blast

lemma db_ok_mono: "keeps_files env w w' \<Longrightarrow> db_ok env hard w d \<Longrightarrow> db_ok env hard w' d"
  unfolding db_ok_def using item_ok_mono by blast

lemma file_step:
  assumes ok: "library_ok env hard w" and nxt: "w_next w \<le> w_next w'" and db: "w_db w' = w_db w" "w_old w' = w_old w"
    and own: "\<And>i. i < w_next w \<Longrightarrow> w_owner w' i = w_owner w i"
    and synced: "\<And>i. i < w_next w \<Longrightarrow> w_owner w i \<noteq> t \<Longrightarrow> w_synced w' i = w_synced w i"
    and names: "\<And>i p. named w' i p \<Longrightarrow> named w i p \<or> i < w_next w' \<and> (i < w_next w \<longrightarrow> w_owner w i = t)"
    and complete: "\<And>i p. named w' i p \<Longrightarrow> library_path env p \<Longrightarrow> w_synced w' i"
    and temps: "\<And>i p. i < w_next w \<Longrightarrow> w_owner w i \<noteq> t \<Longrightarrow> is_temp_path i p \<Longrightarrow> lookup w' p = lookup w p"
    and keeps: "keeps_files env w w'"
    and durable: "\<And>p. library_path env p \<Longrightarrow> regular (w_durable w' p) \<Longrightarrow> regular (lookup w' p)"
    and links: "\<And>p q. lookup w' p = Some (Symlink q) \<or> w_durable w' p = Some (Symlink q) \<Longrightarrow> lookup w p = Some (Symlink q) \<or> w_durable w p = Some (Symlink q)"
  shows "fair env hard t w w'"
proof -
  have files: "files_ok env w'" unfolding files_ok_def
  proof (intro conjI allI impI)
    fix p i assume n: "named w' i p"
    show "i < w_next w'" using names [OF n] ok nxt unfolding library_ok_def files_ok_def by fastforce
    show "w_synced w' i" if "library_path env p" using complete [OF n that] .
  qed (use durable links ok in \<open>unfold library_ok_def files_ok_def, blast+\<close>)
  moreover have "\<forall>d \<in> set (w_db w' # w_old w'). db_ok env hard w' d"
    using ok db db_ok_mono [OF keeps] unfolding library_ok_def by simp
  moreover have "relies env u w w'" if "u \<noteq> t" for u
  proof -
    have "leaves_alone u w w'" unfolding leaves_alone_def
    proof (intro allI impI)
      fix i assume i: "i < w_next w" "w_owner w i = u"
      have "\<forall>p. named w' i p \<longrightarrow> named w i p" using names i that by blast
      then show "w_synced w' i = w_synced w i \<and> (\<forall>p. named w' i p \<longrightarrow> named w i p) \<and> (\<forall>p. is_temp_path i p \<longrightarrow> lookup w' p = lookup w p)"
        using i synced temps that by blast
    qed
    then show ?thesis using nxt own keeps unfolding relies_def by blast
  qed
  ultimately show ?thesis unfolding fair_def library_ok_def by blast
qed

lemma db_step:
  assumes "library_ok env hard w" and "db_ok env hard w (g (w_db w))"
  shows "fair env hard t w (commit g w)"
proof -
  have same: "named (commit g w) = named w" by (simp add: fun_eq_iff named_def)
  have keeps: "keeps_files env w (commit g w)" by (simp add: keeps_files_def)
  have "relies env u w (commit g w)" for u using keeps by (simp add: relies_def leaves_alone_def same)
  moreover have "library_ok env hard (commit g w)"
    using assms db_ok_mono [OF keeps] unfolding library_ok_def files_ok_def same by auto
  ultimately show ?thesis by (simp add: fair_def)
qed

lemma fair_refl: "library_ok env hard w \<Longrightarrow> fair env hard t w w"
  by (simp add: fair_def lib.R_refl)

text \<open>A temporary file that only its task knows, by one name.\<close>

definition owns :: "task \<Rightarrow> fpath \<Rightarrow> nat \<Rightarrow> world \<Rightarrow> bool" where
  "owns t p i w \<longleftrightarrow> i < w_next w \<and> w_owner w i = t \<and> is_temp_path i p \<and> lookup w p = Some (Regular i) \<and> (\<forall>q. named w i q \<longrightarrow> q = p)"

lemma owns_later: "owns t p i w \<Longrightarrow> relies env t w w' \<Longrightarrow> owns t p i w' \<and> w_synced w' i = w_synced w i"
  unfolding owns_def relies_def leaves_alone_def by (metis order_less_le_trans)

lemma owns_not_library: "owns t p i w \<Longrightarrow> named w i q \<Longrightarrow> \<not> library_path env q"
  unfolding owns_def using is_temp_path_name library_path_not_temp by blast

lemma owned_only: "owns t p i w \<Longrightarrow> j < w_next w \<Longrightarrow> w_owner w j \<noteq> t \<Longrightarrow> is_temp_path j q \<Longrightarrow> q \<noteq> p"
  unfolding owns_def using is_temp_path_unique by blast

lemma create_temp_fair:
  assumes ok: "library_ok env hard w" and pre: "pre = STAGING_PREFIX \<or> pre = TMP_PREFIX" and c: "create_temp t pre dir w = ((p, i), w')"
  shows "fair env hard t w w' \<and> owns t p i w' \<and> \<not> w_synced w' i"
proof -
  note f = lookup_create_temp [OF c]
  have p: "is_temp_path i p" "temp_name p" using f pre temp_path_name by (auto simp: is_temp_path_def)
  have bound: "named w j q \<Longrightarrow> j < w_next w \<and> (library_path env q \<longrightarrow> w_synced w j)" for j q
    using ok unfolding library_ok_def files_ok_def by blast
  have named: "named w' j q \<longleftrightarrow> (if q = p then j = i \<or> w_durable w p = Some (Regular j) else named w j q)" for j q
    using f by (auto simp: named_def)
  have lib: "library_path env q \<Longrightarrow> q \<noteq> p" for q using p library_path_not_temp by blast
  have "fair env hard t w w'"
  proof (rule file_step [OF ok])
    show "named w' j q \<Longrightarrow> named w j q \<or> j < w_next w' \<and> (j < w_next w \<longrightarrow> w_owner w j = t)" for j q
      using f by (auto simp: named named_def split: if_splits)
    show "named w' j q \<Longrightarrow> library_path env q \<Longrightarrow> w_synced w' j" for j q
      using lib bound [of j q] f by (auto simp: named)
    show "j < w_next w \<Longrightarrow> w_owner w j \<noteq> t \<Longrightarrow> is_temp_path j q \<Longrightarrow> lookup w' q = lookup w q" for j q
      using f p is_temp_path_unique [of j p i] by auto
    show "keeps_files env w w'" using f lib by (auto simp: keeps_files_def)
    show "library_path env q \<Longrightarrow> regular (w_durable w' q) \<Longrightarrow> regular (lookup w' q)" for q
      using f lib ok unfolding library_ok_def files_ok_def by auto
  qed (use f in \<open>auto split: if_splits\<close>)
  moreover have "owns t p i w'" unfolding owns_def
  proof (intro conjI allI impI)
    fix q assume q: "named w' i q"
    show "q = p" using q bound [of i q] f by (auto simp: named split: if_splits)
  qed (use f p in auto)
  ultimately show ?thesis using f by simp
qed

lemma write_fair:
  assumes ok: "library_ok env hard w" and o: "owns t p i w"
  shows "fair env hard t w (write_file i c w) \<and> owns t p i (write_file i c w)"
proof -
  have named: "named (write_file i c w) = named w" by (simp add: fun_eq_iff named_def)
  have "fair env hard t w (write_file i c w)"
  proof (rule file_step [OF ok])
    show "named (write_file i c w) j q \<Longrightarrow> library_path env q \<Longrightarrow> w_synced (write_file i c w) j" for j q
      using ok owns_not_library [OF o] unfolding named library_ok_def files_ok_def by auto
    show "keeps_files env w (write_file i c w)" by (simp add: keeps_files_def)
    show "library_path env q \<Longrightarrow> regular (w_durable (write_file i c w) q) \<Longrightarrow> regular (lookup (write_file i c w) q)" for q
      using ok unfolding library_ok_def files_ok_def by simp
  qed (use o in \<open>auto simp: named owns_def\<close>)
  moreover have "owns t p i (write_file i c w)" using o by (simp add: owns_def named)
  ultimately show ?thesis by blast
qed

lemma sync_fair:
  assumes ok: "library_ok env hard w" and o: "owns t p i w"
  shows "fair env hard t w (sync_file i w) \<and> owns t p i (sync_file i w) \<and> w_synced (sync_file i w) i"
proof -
  have named: "named (sync_file i w) = named w" by (simp add: fun_eq_iff named_def)
  have "fair env hard t w (sync_file i w)"
  proof (rule file_step [OF ok])
    show "named (sync_file i w) j q \<Longrightarrow> library_path env q \<Longrightarrow> w_synced (sync_file i w) j" for j q
      using ok unfolding named library_ok_def files_ok_def by auto
    show "keeps_files env w (sync_file i w)" by (simp add: keeps_files_def)
    show "library_path env q \<Longrightarrow> regular (w_durable (sync_file i w) q) \<Longrightarrow> regular (lookup (sync_file i w) q)" for q
      using ok unfolding library_ok_def files_ok_def by simp
  qed (use o in \<open>auto simp: named owns_def\<close>)
  moreover have "owns t p i (sync_file i w)" using o by (simp add: owns_def named)
  ultimately show ?thesis by simp
qed

text \<open>A temporary name may be removed by its task, and any by a recovery that runs alone.\<close>

lemma remove_ok:
  assumes ok: "library_ok env hard w" and p: "temp_name p" and t: "\<And>i. is_temp_path i p \<Longrightarrow> i < w_next w \<Longrightarrow> w_owner w i = t"
  shows "fair env hard t w (remove_file p w)"
proof -
  have lib: "library_path env q \<Longrightarrow> q \<noteq> p" for q using p library_path_not_temp by blast
  have named: "named (remove_file p w) j q \<Longrightarrow> named w j q" for j q by (auto simp: named_def lookup_remove split: if_splits)
  show ?thesis
  proof (rule file_step [OF ok])
    show "named (remove_file p w) j q \<Longrightarrow> library_path env q \<Longrightarrow> w_synced (remove_file p w) j" for j q
      using named [of j q] ok unfolding library_ok_def files_ok_def by auto
    show "keeps_files env w (remove_file p w)" using lib by (auto simp: keeps_files_def lookup_remove)
    show "library_path env q \<Longrightarrow> regular (w_durable (remove_file p w) q) \<Longrightarrow> regular (lookup (remove_file p w) q)" for q
      using ok lib unfolding library_ok_def files_ok_def by (auto simp: lookup_remove)
    show "j < w_next w \<Longrightarrow> w_owner w j \<noteq> t \<Longrightarrow> is_temp_path j q \<Longrightarrow> lookup (remove_file p w) q = lookup w q" for j q
      using t by (auto simp: lookup_remove)
  qed (use named in \<open>auto simp: lookup_remove split: if_splits\<close>)
qed

lemma rename_fair:
  assumes ok: "library_ok env hard w" and o: "owns t p i w" and s: "w_synced w i" and lib: "library_path env target"
  shows "fair env hard t w (snd (rename_file p target w)) \<and> fst (rename_file p target w) \<and> regular (lookup (snd (rename_file p target w)) target)"
proof -
  let ?w = "snd (rename_file p target w)"
  have p: "lookup w p = Some (Regular i)" "p \<noteq> target" "\<not> library_path env p" "lookup w target \<noteq> Some (Regular i)"
    using o lib is_temp_path_name library_path_not_temp unfolding owns_def named_def by blast+
  have look: "lookup ?w q = (if q = target then Some (Regular i) else if q = p then None else lookup w q)" for q
    using lookup_rename [OF p(1,2)] p(4) by simp
  have named: "named ?w j q \<Longrightarrow> named w j q \<or> j = i \<and> q = target" for j q by (auto simp: named_def look split: if_splits)
  have "fair env hard t w ?w"
  proof (rule file_step [OF ok])
    show "named ?w j q \<Longrightarrow> library_path env q \<Longrightarrow> w_synced ?w j" for j q
      using named [of j q] ok s unfolding library_ok_def files_ok_def by auto
    show "keeps_files env w ?w" using p(3) by (auto simp: keeps_files_def look regular_def)
    show "library_path env q \<Longrightarrow> regular (w_durable ?w q) \<Longrightarrow> regular (lookup ?w q)" for q
      using ok p(3) unfolding library_ok_def files_ok_def by (auto simp: look regular_def)
    show "j < w_next w \<Longrightarrow> w_owner w j \<noteq> t \<Longrightarrow> is_temp_path j q \<Longrightarrow> lookup ?w q = lookup w q" for j q
      using owned_only [OF o] is_temp_path_name [of j q] library_path_not_temp [OF lib] by (auto simp: look)
    show "named ?w j q \<Longrightarrow> named w j q \<or> j < w_next ?w \<and> (j < w_next w \<longrightarrow> w_owner w j = t)" for j q
      using named [of j q] o unfolding owns_def by auto
  qed (auto simp: look split: if_splits)
  then show ?thesis using p(1) by (simp add: look regular_def) (simp add: rename_file_def)
qed

lemma sync_dir_fair:
  assumes ok: "library_ok env hard w"
  shows "fair env hard t w (sync_dir dir w)"
proof (rule file_step [OF ok])
  have named: "named (sync_dir dir w) j q \<Longrightarrow> named w j q" for j q by (auto simp: named_def split: if_splits)
  then show "named (sync_dir dir w) j q \<Longrightarrow> library_path env q \<Longrightarrow> w_synced (sync_dir dir w) j" for j q
    using ok unfolding library_ok_def files_ok_def by auto
  show "named (sync_dir dir w) j q \<Longrightarrow> named w j q \<or> j < w_next (sync_dir dir w) \<and> (j < w_next w \<longrightarrow> w_owner w j = t)" for j q
    using named by blast
  show "keeps_files env w (sync_dir dir w)" using ok unfolding library_ok_def files_ok_def by (auto simp: keeps_files_def)
  show "library_path env q \<Longrightarrow> regular (w_durable (sync_dir dir w) q) \<Longrightarrow> regular (lookup (sync_dir dir w) q)" for q
    using ok unfolding library_ok_def files_ok_def by (auto split: if_splits)
qed (auto split: if_splits)

lemma create_dir_all_fair: "library_ok env hard w \<Longrightarrow> fair env hard t w (create_dir_all dir w)"
  by (rule file_step) (auto simp: keeps_files_def named_def library_ok_def files_ok_def)

section \<open>The parts of an import\<close>

text \<open>The statement about a program: under interference it keeps the library in order and ends as claimed.\<close>

definition kept :: "library_env \<Rightarrow> bool \<Rightarrow> task \<Rightarrow> (world, 'a) prog \<Rightarrow> ('a \<Rightarrow> world \<Rightarrow> bool) \<Rightarrow> world \<Rightarrow> bool" where
  "kept env hard t = honours (library_ok env hard) (relies env t) (\<lambda>w w'. \<forall>u. u \<noteq> t \<longrightarrow> relies env u w w')"

lemma kept_Ret [simp]: "kept env hard t (Ret a) Q w \<longleftrightarrow> Q a w"
  by (simp add: kept_def)

lemma kept_atomic:
  "(\<And>w'. relies env t w w' \<Longrightarrow> library_ok env hard w' \<Longrightarrow> fair env hard t w' (snd (f w')) \<and> Q (fst (f w')) (snd (f w')))
    \<Longrightarrow> kept env hard t (atomic f) Q w"
  unfolding kept_def by (rule lib.ok_atomic) (simp add: fair_def)

lemma kept_tell:
  "(\<And>w'. relies env t w w' \<Longrightarrow> library_ok env hard w' \<Longrightarrow> fair env hard t w' (g w') \<and> Q () (g w')) \<Longrightarrow> kept env hard t (tell g) Q w"
  unfolding kept_def by (rule lib.ok_tell) (simp add: fair_def)

lemmas kept_ask = lib.ok_ask [folded kept_def]
lemmas kept_seq = lib.ok_seq [folded kept_def]

lemma kept_if: "(b \<Longrightarrow> kept env hard t p Q w) \<Longrightarrow> (\<not> b \<Longrightarrow> kept env hard t q Q w) \<Longrightarrow> kept env hard t (if b then p else q) Q w"
  by simp

lemma kept_sum:
  "(\<And>e. r = Inl e \<Longrightarrow> kept env hard t (p e) Q w) \<Longrightarrow> (\<And>a. r = Inr a \<Longrightarrow> kept env hard t (q a) Q w)
    \<Longrightarrow> kept env hard t (case r of Inl e \<Rightarrow> p e | Inr a \<Rightarrow> q a) Q w"
  by (cases r) simp_all

lemma kept_weaken: "kept env hard t p P w \<Longrightarrow> (\<And>a w'. P a w' \<Longrightarrow> Q a w') \<Longrightarrow> kept env hard t p Q w"
  unfolding kept_def by (rule honours_weaken)

lemma visible_later: "relies env t w w' \<Longrightarrow> library_path env p \<Longrightarrow> regular (lookup w p) \<Longrightarrow> regular (lookup w' p)"
  by (simp add: relies_def keeps_files_def)

lemma present_later: "relies env t w w' \<Longrightarrow> library_path env p \<Longrightarrow> present hard w p \<Longrightarrow> present hard w' p"
  by (simp add: relies_def keeps_files_def present_def)

lemma item_later: "relies env t w w' \<Longrightarrow> item_ok env hard w li \<Longrightarrow> item_ok env hard w' li"
  unfolding relies_def using item_ok_mono by blast

lemma kept_query: "(\<And>r w'. relies env t w w' \<Longrightarrow> Q r w') \<Longrightarrow> kept env hard t (query f x g) Q w"
  unfolding query_def by (rule kept_ask) blast

text \<open>A temporary name of the task, whether or not the file is there.\<close>

definition mine :: "task \<Rightarrow> fpath \<Rightarrow> world \<Rightarrow> bool" where
  "mine t p w \<longleftrightarrow> (\<exists>i < w_next w. w_owner w i = t \<and> is_temp_path i p)"

lemma owns_mine: "owns t p i w \<Longrightarrow> mine t p w"
  by (auto simp: owns_def mine_def)

lemma mine_later: "mine t p w \<Longrightarrow> relies env t w w' \<Longrightarrow> mine t p w'"
  unfolding mine_def relies_def by (metis order_less_le_trans)

lemma kept_remove: "mine t p w \<Longrightarrow> kept env hard t (tell (remove_file p)) (\<lambda>_. mine t p) w"
proof (rule kept_tell)
  fix w' assume "mine t p w" "relies env t w w'" and ok: "library_ok env hard w'"
  then have m: "mine t p w'" using mine_later by blast
  then have "fair env hard t w' (remove_file p w')"
    using remove_ok [OF ok, of p t] is_temp_path_unique is_temp_path_name unfolding mine_def by metis
  moreover have "mine t p (remove_file p w')" using m by (simp add: mine_def)
  ultimately show "fair env hard t w' (remove_file p w') \<and> mine t p (remove_file p w')" by blast
qed

lemma kept_drop: "mine t p w \<Longrightarrow> kept env hard t (drop_temp p r) (\<lambda>r' w. r' = r \<and> mine t p w) w"
  unfolding drop_temp_def by (rule kept_seq [OF kept_remove]) simp_all

lemma kept_copy_bytes: "owns t p i w \<Longrightarrow> kept env hard t (copy_bytes f x j i) (\<lambda>_. owns t p i) w"
proof -
  have w: "fair env hard t w' (write_file i c w') \<and> owns t p i (write_file i c w')"
    if "owns t p i w" "relies env t w w'" "library_ok env hard w'" for w w' c
    using write_fair [OF that(3)] owns_later [OF that(1,2)] by blast
  assume "owns t p i w"
  then show ?thesis unfolding copy_bytes_def
    by (intro kept_seq [OF kept_tell, where P = "\<lambda>_. owns t p i"])
       (use w in \<open>simp_all add: kept_atomic\<close>)
qed

lemma kept_make_dirs: "kept env hard t (make_dirs f x dir) (\<lambda>_ _. True) w"
  unfolding make_dirs_def by (auto intro!: kept_seq [OF kept_tell [where Q = "\<lambda>_ _. True"]] create_dir_all_fair)

lemma kept_fsync_dir:
  assumes "library_path env target" and "regular (lookup w target)"
  shows "kept env hard t (fsync_dir f x (butlast target)) (\<lambda>r w. \<not> isl r \<longrightarrow> present hard w target) w"
proof -
  have "fair env hard t w' (sync_dir (butlast target) w') \<and> present hard (sync_dir (butlast target) w') target"
    if "relies env t w w'" "library_ok env hard w'" for w'
    using sync_dir_fair [OF that(2)] visible_later [OF that(1)] assms by (simp add: present_def library_path_def)
  then show ?thesis unfolding fsync_dir_def by (auto intro!: kept_seq [OF kept_tell, where P = "\<lambda>_ w. present hard w target"])
qed

lemma kept_sync: "owns t p i w \<Longrightarrow> kept env hard t (tell (sync_file i)) (\<lambda>_ w. owns t p i w \<and> w_synced w i) w"
  by (rule kept_tell) (use sync_fair owns_later in blast)

lemma kept_rename:
  assumes "owns t p i w" and "w_synced w i" and "library_path env target"
  shows "kept env hard t (atomic (rename_file p target)) (\<lambda>done w. done \<and> regular (lookup w target)) w"
  by (rule kept_atomic) (use rename_fair owns_later assms in metis)

lemma kept_create_temp:
  assumes "pre = STAGING_PREFIX \<or> pre = TMP_PREFIX"
  shows "kept env hard t (atomic (create_temp t pre dir)) (\<lambda>(p, i) w. owns t p i w) w"
proof (rule kept_atomic)
  fix w' assume "library_ok env hard w'"
  then show "fair env hard t w' (snd (create_temp t pre dir w')) \<and> (case fst (create_temp t pre dir w') of (p, i) \<Rightarrow> owns t p i) (snd (create_temp t pre dir w'))"
    using create_temp_fair [OF _ assms, of env hard w' t dir] by (cases "create_temp t pre dir w'") auto
qed

lemma kept_give_up: "owns t p i w \<Longrightarrow> (\<And>w'. mine t p w' \<Longrightarrow> Q r w') \<Longrightarrow> kept env hard t (drop_temp p r) Q w"
  by (rule kept_weaken [OF kept_drop [OF owns_mine]]) auto

text \<open>A synchronised temporary file is moved to its place.\<close>

lemma kept_publish:
  assumes "owns t tmp i w" and "library_path env target"
  shows "kept env hard t (and_then (tell (sync_file i)) (\<lambda>_. if fails f x then drop_temp tmp (Inl e1)
      else and_then (atomic (rename_file tmp target)) (\<lambda>done. if done then Ret (Inr a) else drop_temp tmp (Inl e2))))
    (\<lambda>r w. \<not> isl r \<longrightarrow> regular (lookup w target)) w"
proof (rule kept_seq [OF kept_sync [OF assms(1)]])
  fix w' assume o: "owns t tmp i w' \<and> w_synced w' i"
  show "kept env hard t (if fails f x then drop_temp tmp (Inl e1)
      else and_then (atomic (rename_file tmp target)) (\<lambda>done. if done then Ret (Inr a) else drop_temp tmp (Inl e2)))
    (\<lambda>r w. \<not> isl r \<longrightarrow> regular (lookup w target)) w'"
    using o by (auto intro!: kept_give_up kept_seq [OF kept_rename [OF _ _ assms(2)]])
qed

lemma kept_separate:
  assumes "library_path env target"
  shows "kept env hard t (separate_target f t target) (\<lambda>r w. \<not> isl r \<longrightarrow> regular (lookup w target)) w"
  unfolding separate_target_def
proof (rule kept_seq [OF kept_ask [where Q = "\<lambda>_ _. True"]])
  fix current w'
  show "kept env hard t (case current of None \<Rightarrow> Ret (Inl ''open import target failed'')
     | Some j \<Rightarrow>
         if fails f SepTemp then Ret (Inl ''separation tempfile create failed'')
         else
           and_then (atomic (create_temp t STAGING_PREFIX (butlast target))) (\<lambda>(tmp, i).
           and_then (copy_bytes f SepCopy j i) (\<lambda>copied.
           case copied of
             None \<Rightarrow> drop_temp tmp (Inl ''copy failed'')
           | Some n \<Rightarrow>
               if fails f SepPerm then drop_temp tmp (Inl ''cannot preserve target permissions'')
               else if fails f SepSync then drop_temp tmp (Inl ''data fsync failed'')
               else
                 and_then (tell (sync_file i)) (\<lambda>_.
                 if fails f SepPersist then drop_temp tmp (Inl ''rename failed'')
                 else
                   and_then (atomic (rename_file tmp target)) (\<lambda>done.
                   if done then Ret (Inr ()) else drop_temp tmp (Inl ''rename failed''))))))
     (\<lambda>r w. \<not> isl r \<longrightarrow> regular (lookup w target)) w'"
    by (auto split: option.split split del: if_split
        intro!: kept_if kept_publish kept_seq [OF kept_create_temp] kept_seq [OF kept_copy_bytes] kept_give_up assms)
qed simp

lemma metadata_cases:
  obtains "m = None" | i n where "m = Some (Regular i, n)" | q n where "m = Some (Symlink q, n)"
  by (metis entry.exhaust option.exhaust surj_pair)

lemma kept_ensure_independent:
  assumes "library_path env target"
  shows "kept env hard t (ensure_independent_target f t source target) (\<lambda>r w. \<not> isl r \<longrightarrow> present hard w target) w"
proof -
  let ?Q = "\<lambda>(r :: string + unit) w. \<not> isl r \<longrightarrow> present hard w target"
  have final: "kept env hard t (case separated of Inl e \<Rightarrow> Ret (Inl e) | Inr _ \<Rightarrow> fsync_dir f SepDirSync (butlast target)) ?Q w'"
    if "\<not> isl separated \<longrightarrow> regular (lookup w' target)" for separated :: "string + unit" and w'
    using that by (cases separated) (auto intro: kept_fsync_dir [OF assms])
  have sep: "kept env hard t (if n \<le> 1 then Ret (Inr ()) else separate_target f t target) (\<lambda>r w. \<not> isl r \<longrightarrow> regular (lookup w target)) w'"
    if "regular (lookup w' target)" for w' and n :: nat
    using that kept_separate [OF assms] by simp
  have rest: "kept env hard t (and_then (ask (same_path source target)) (\<lambda>same.
         if same then Ret (Inl e1) else if target = [] then Ret (Inl e2)
         else
           and_then (if n \<le> 1 then Ret (Inr ()) else separate_target f t target) (\<lambda>separated.
           case separated of Inl e \<Rightarrow> Ret (Inl e) | Inr _ \<Rightarrow> fsync_dir f SepDirSync (butlast target)))) ?Q w'"
    if "regular (lookup w' target)" for w' e1 e2 and n :: nat
  proof (rule kept_seq [OF kept_ask [where Q = "\<lambda>_ w. regular (lookup w target)"]])
    show "regular (lookup w'' target)" if "relies env t w' w''" for w''
      using visible_later [OF that assms] \<open>regular (lookup w' target)\<close> by blast
    show "kept env hard t (if same then Ret (Inl e1) else if target = [] then Ret (Inl e2)
        else and_then (if n \<le> 1 then Ret (Inr ()) else separate_target f t target) (\<lambda>separated.
           case separated of Inl e \<Rightarrow> Ret (Inl e) | Inr _ \<Rightarrow> fsync_dir f SepDirSync (butlast target))) ?Q w''"
      if "regular (lookup w'' target)" for same w''
      using kept_seq [OF sep [OF that, of n] final] by simp
  qed
  show ?thesis unfolding ensure_independent_target_def
  proof (rule kept_seq [OF kept_ask [where Q = "\<lambda>m w. \<forall>i n. m = Some (Regular i, n) \<longrightarrow> regular (lookup w target)"]], goal_cases)
    case (2 metadata w')
    then have reg: "regular (lookup w' target)" if "metadata = Some (Regular i, n)" for i n using that by blast
    show ?case
      by (cases metadata rule: metadata_cases) (simp_all only: option.case prod.case entry.case, simp_all only: kept_Ret sum.disc not_True_eq_False simp_thms rest [OF reg])
  qed (auto simp: regular_def split: if_splits)
qed

lemma db_ok_now: "library_ok env hard w \<Longrightarrow> db_ok env hard w (w_db w)"
  by (simp add: library_ok_def)

lemma db_ok_update: "db_ok env hard w d \<Longrightarrow> db_ok env hard w (update_item req item_id d)"
  unfolding db_ok_def update_item_def by (auto simp: item_ok_def)

lemma db_ok_insert: "db_ok env hard w d \<Longrightarrow> item_ok env hard w req \<Longrightarrow> db_ok env hard w (insert_item req d)"
  unfolding db_ok_def insert_item_def by (auto simp: item_ok_def)

lemma db_ok_intent: "db_ok env hard w d \<Longrightarrow> intent_ok env req \<Longrightarrow> db_ok env hard w (insert_intent req d)"
  unfolding db_ok_def insert_intent_def by (auto simp: intent_ok_def)

lemma kept_commit:
  assumes "\<And>w'. relies env t w w' \<Longrightarrow> library_ok env hard w' \<Longrightarrow> db_ok env hard w' (g (w_db w')) \<and> Q () (commit g w')"
  shows "kept env hard t (tell (commit g)) Q w"
  by (rule kept_tell) (use assms db_step in blast)

lemma kept_get_item: "(\<And>r w'. Q r w') \<Longrightarrow> kept env hard t (get_library_item f user_id item_id) Q w"
  unfolding get_library_item_def by (rule kept_ask) blast

lemma kept_create_item:
  assumes "item_ok env hard w req"
  shows "kept env hard t (create_library_item f req) (\<lambda>_ _. True) w"
  unfolding create_library_item_def
proof (rule kept_seq [OF kept_query [where Q = "\<lambda>_ w. item_ok env hard w req"]])
  show "item_ok env hard w' req" if "relies env t w w'" for w' using item_later [OF that assms] .
next
  fix existing :: "item_error + library_item option" and w' assume ok: "item_ok env hard w' req"
  have up: "kept env hard t (tell (commit (update_item req item_id))) (\<lambda>_ _. True) w'" for item_id
    by (rule kept_commit) (simp add: db_ok_now db_ok_update)
  have ins: "kept env hard t (atomic (\<lambda>w. if \<exists>li \<in> set (db_items (w_db w)). same_place req li then (None, w)
       else (Some (db_next_item (w_db w)), commit (insert_item req) w))) (\<lambda>_ _. True) w'"
    by (rule kept_atomic) (use db_step db_ok_insert [OF db_ok_now] item_later [OF _ ok] fair_refl in \<open>auto 0 3\<close>)
  show "kept env hard t (case existing of
         Inl e \<Rightarrow> Ret (Inl e)
       | Inr (Some row) \<Rightarrow>
           if li_work_id row \<noteq> li_work_id req then Ret (Inl ItemConstraint)
           else (case fl f ItemWrite of
                   Some e \<Rightarrow> Ret (Inl e)
                 | None \<Rightarrow> and_then (tell (commit (update_item req (li_id row)))) (\<lambda>_. get_library_item f (li_user_id req) (li_id row)))
       | Inr None \<Rightarrow>
           (case fl f ItemWrite of
              Some e \<Rightarrow> Ret (Inl e)
            | None \<Rightarrow>
                and_then (atomic (\<lambda>w. if \<exists>li \<in> set (db_items (w_db w)). same_place req li then (None, w)
                                      else (Some (db_next_item (w_db w)), commit (insert_item req) w))) (\<lambda>inserted.
                  case inserted of
                    None \<Rightarrow> Ret (Inl ItemConstraint)
                  | Some item_id \<Rightarrow> get_library_item f (li_user_id req) item_id))) (\<lambda>_ _. True) w'"
    by (auto split: sum.split option.split intro!: kept_seq [OF up] kept_seq [OF ins] kept_get_item)
qed

section \<open>The whole import\<close>

lemma kept_stage_copy:
  assumes "owns t staging i w"
  shows "kept env hard t (stage_copy f source staging i)
    (\<lambda>r w. mine t staging w \<and> (\<not> isl r \<longrightarrow> owns t staging i w \<and> w_synced w i)) w"
  unfolding stage_copy_def
proof (rule kept_seq [OF kept_ask [where Q = "\<lambda>_. owns t staging i"]], use owns_later assms in blast)
  let ?Q = "\<lambda>(r :: string + int) w. mine t staging w \<and> (\<not> isl r \<longrightarrow> owns t staging i w \<and> w_synced w i)"
  fix src_file w' assume o: "owns t staging i w'"
  have keep: "kept env hard t (and_then (tell (sync_file i)) (\<lambda>_. if fails f CopyKeep then drop_temp staging (Inl e) else Ret (Inr n))) ?Q w''"
    if "owns t staging i w''" for w'' e n
    by (rule kept_seq [OF kept_sync [OF that]]) (auto intro: kept_give_up owns_mine)
  show "kept env hard t (case src_file of
       None \<Rightarrow> drop_temp staging (Inl ''open source failed'')
     | Some j \<Rightarrow>
         if fails f CopyClone then drop_temp staging (Inl ''staging handle clone failed'')
         else
           and_then (copy_bytes f CopyData j i) (\<lambda>copied.
           case copied of
             None \<Rightarrow> drop_temp staging (Inl ''copy failed'')
           | Some n \<Rightarrow>
               if fails f CopySync then drop_temp staging (Inl ''fsync staging failed'')
               else
                 and_then (tell (sync_file i)) (\<lambda>_.
                 if fails f CopyKeep then drop_temp staging (Inl ''failed to keep staging file'') else Ret (Inr n)))) ?Q w'"
    using o by (auto split: option.split split del: if_split intro!: kept_if keep kept_seq [OF kept_copy_bytes] kept_give_up)
qed

lemma kept_delete_intent: "kept env hard t (delete_import_intent f intent_id) (\<lambda>_ _. True) w"
proof -
  have "db_ok env hard w (d\<lparr>db_intents := filter (\<lambda>it. ii_id it \<noteq> intent_id) (db_intents d)\<rparr>)" if "db_ok env hard w d" for w d
    using that by (auto simp: db_ok_def)
  then show ?thesis unfolding delete_import_intent_def
    by (auto split: option.split intro!: kept_seq [OF kept_commit [where Q = "\<lambda>_ _. True"]] db_ok_now)
qed

lemma kept_mark_renamed:
  assumes "item_ok env hard w li"
  shows "kept env hard t (mark_import_intent_renamed f intent_id) (\<lambda>_ w. item_ok env hard w li) w"
proof -
  let ?g = "\<lambda>d. d\<lparr>db_intents := map (\<lambda>it. if ii_id it = intent_id then it\<lparr>ii_state := Renamed\<rparr> else it) (db_intents d)\<rparr>"
  have db: "db_ok env hard w (?g d)" if "db_ok env hard w d" for w d
    using that by (auto simp: db_ok_def intent_ok_def)
  have keeps: "keeps_files env w' (commit g w')" for w' g by (simp add: keeps_files_def)
  have "kept env hard t (tell (commit ?g)) (\<lambda>_ w. item_ok env hard w li) w"
    by (rule kept_commit) (use db db_ok_now item_ok_mono [OF keeps] item_later [OF _ assms] in blast)
  from kept_seq [OF this, where k = "\<lambda>_. Ret (Inr () :: item_error + unit)"] show ?thesis
    unfolding mark_import_intent_renamed_def using assms by (simp split: option.split)
qed

lemma kept_roll_back: "mine t staging w \<Longrightarrow> kept env hard t (roll_back f staging intent_id e) (\<lambda>_ _. True) w"
  unfolding roll_back_def
  by (rule kept_seq [where P = "\<lambda>_ _. True"]) (auto intro: kept_seq [OF kept_delete_intent] kept_weaken [OF kept_remove])

lemma kept_create_intent:
  assumes "intent_ok env req" and "owns t staging i w"
  shows "kept env hard t (create_import_intent f req) (\<lambda>_. owns t staging i) w"
proof -
  have "kept env hard t (atomic (\<lambda>w. if \<exists>it \<in> set (db_intents (w_db w)). same_target req it then (None, w)
       else (Some (db_next_intent (w_db w)), commit (insert_intent req) w))) (\<lambda>_. owns t staging i) w"
  proof (rule kept_atomic)
    fix w' assume r: "relies env t w w'" and ok: "library_ok env hard w'"
    have "owns t staging i w'" using owns_later [OF assms(2) r] by blast
    moreover from this have "owns t staging i (commit g w')" for g by (simp add: owns_def named_def)
    ultimately show "fair env hard t w' (snd (if \<exists>it \<in> set (db_intents (w_db w')). same_target req it then (None, w')
         else (Some (db_next_intent (w_db w')), commit (insert_intent req) w')))
       \<and> owns t staging i (snd (if \<exists>it \<in> set (db_intents (w_db w')). same_target req it then (None, w')
         else (Some (db_next_intent (w_db w')), commit (insert_intent req) w')))"
      using db_step [where g = "insert_intent req", OF ok] db_ok_intent [OF db_ok_now [OF ok] assms(1)] fair_refl [OF ok] by simp
  qed
  then show ?thesis unfolding create_import_intent_def using assms(2) owns_later [of t staging i]
    by (auto split: option.split intro!: kept_seq kept_ask) 
qed

lemma kept_path_is_free: "kept env hard t (path_is_free f user_id req) (\<lambda>_ _. True) w"
  unfolding path_is_free_def find_library_item_by_path_def by (rule kept_seq [OF kept_query]) simp_all

lemma kept_own_bytes:
  assumes "library_path env target" and "rq_materialization req = Copy"
  shows "kept env hard t (own_bytes f t req target) (\<lambda>r w. \<not> isl r \<longrightarrow> present hard w target) w"
  unfolding own_bytes_def using assms(2)
  by (auto intro!: kept_seq [OF kept_ensure_independent [OF assms(1)]] split: sum.splits)

lemma new_item_ok:
  assumes "map_of (root_folders env) (rq_root_folder_id req) = Some r" and "library_path env (path_join r (rq_target_relative req))"
    and "present hard w (path_join r (rq_target_relative req))"
  shows "item_ok env hard w (new_item user_id req n)"
  using assms by (simp add: item_ok_def new_item_def)

lemma new_intent_ok:
  assumes "map_of (root_folders env) (rq_root_folder_id req) = Some r" and "library_path env (path_join r (rq_target_relative req))"
    and "temp_name staging"
  shows "intent_ok env (new_intent user_id req staging n)"
  using assms by (simp add: intent_ok_def new_intent_def)

lemma kept_adopt_target:
  assumes "map_of (root_folders env) (rq_root_folder_id req) = Some r" and "library_path env (path_join r (rq_target_relative req))"
    and "rq_materialization req = Copy"
  shows "kept env hard t (adopt_target f t user_id req (path_join r (rq_target_relative req))) (\<lambda>_ _. True) w"
  unfolding adopt_target_def adoptable_size_def
  by (auto split: option.split
      intro!: kept_sum kept_seq [OF kept_path_is_free] kept_seq [OF kept_ask [where Q = "\<lambda>_ _. True"]] kept_seq [OF kept_own_bytes [OF assms(2,3)]]
        kept_seq [OF kept_create_item] new_item_ok [OF assms(1,2)])

lemma kept_existing_target:
  assumes "map_of (root_folders env) (rq_root_folder_id req) = Some r" and "library_path env (path_join r (rq_target_relative req))"
    and "rq_materialization req = Copy"
  shows "kept env hard t (existing_target f t user_id req (path_join r (rq_target_relative req))) (\<lambda>_ _. True) w"
  unfolding existing_target_def list_library_items_by_work_def
  by (auto intro!: kept_sum kept_seq [OF kept_query [where Q = "\<lambda>_ _. True"]] kept_seq [OF kept_own_bytes [OF assms(2,3)]] kept_adopt_target assms)

lemma kept_finalize:
  assumes r: "map_of (root_folders env) (rq_root_folder_id req) = Some r" and lib: "library_path env (path_join r (rq_target_relative req))"
    and o: "owns t staging i w" "w_synced w i"
  shows "kept env hard t (finalize_import f user_id req (path_join r (rq_target_relative req)) staging intent_id n) (\<lambda>_ _. True) w"
proof -
  let ?target = "path_join r (rq_target_relative req)"
  have ren: "kept env hard t (if fails f RenameFile then Ret False else atomic (rename_file staging ?target))
     (\<lambda>done w. if done then regular (lookup w ?target) else mine t staging w) w"
    using kept_weaken [OF kept_rename [OF o lib]] owns_mine [OF o(1)] by simp
  have sync: "kept env hard t (fsync_dir f DirSync (butlast ?target)) (\<lambda>r w. \<not> isl r \<longrightarrow> item_ok env hard w (new_item user_id req n)) w'"
    if "regular (lookup w' ?target)" for w'
    by (rule kept_weaken [OF kept_fsync_dir [OF lib that]]) (auto intro: new_item_ok [OF r lib])
  have row: "kept env hard t (and_then (mark_import_intent_renamed f intent_id) (\<lambda>_.
           and_then (create_library_item f (new_item user_id req n)) (\<lambda>item.
           case item of
             Inl e \<Rightarrow> Ret (Inl (ImportDb e))
           | Inr li \<Rightarrow> and_then (delete_import_intent f intent_id) (\<lambda>_. Ret (Inr (FileImported (li_id li) (rq_target_relative req))))))) (\<lambda>_ _. True) w'"
    if "item_ok env hard w' (new_item user_id req n)" for w'
    by (rule kept_seq [OF kept_mark_renamed [OF that]])
       (auto intro!: kept_sum kept_seq [OF kept_create_item] kept_seq [OF kept_delete_intent])
  show ?thesis unfolding finalize_import_def
  proof (rule kept_seq [OF ren], goal_cases)
    case (1 moved w')
    then show ?case
      by (cases moved) (auto intro!: kept_sum kept_seq [OF sync] row kept_roll_back)
  qed
qed

lemma kept_stage_and_finalize:
  assumes r: "map_of (root_folders env) (rq_root_folder_id req) = Some r" and lib: "library_path env (path_join r (rq_target_relative req))"
    and c: "rq_materialization req = Copy"
  shows "kept env hard t (stage_and_finalize f t user_id req (path_join r (rq_target_relative req))) (\<lambda>_ _. True) w"
proof -
  let ?target = "path_join r (rq_target_relative req)"
  have staged: "kept env hard t (case intent of
          Inl ItemConstraint \<Rightarrow> drop_temp staging (Inl (PathCollision (rq_target_relative req)))
        | Inl e \<Rightarrow> drop_temp staging (Inl (ImportDb e))
        | Inr intent_id \<Rightarrow>
            and_then (if rq_materialization req = Copy then stage_copy f (rq_source req) staging i
                      else stage_link f t (rq_source req) staging) (\<lambda>materialized.
            case materialized of
              Inl e \<Rightarrow> roll_back f staging intent_id (''staging write failed: '' @ e)
            | Inr n \<Rightarrow> finalize_import f user_id req ?target staging intent_id n)) (\<lambda>_ _. True) w'"
    if "owns t staging i w'" for intent staging i w'
    using that c
    by (auto split: item_error.split intro!: kept_sum kept_give_up [where p = staging] kept_seq [OF kept_stage_copy] kept_roll_back kept_finalize [OF r lib])
  show ?thesis unfolding stage_and_finalize_def
  proof (rule kept_seq [OF kept_make_dirs], intro kept_if kept_seq [OF kept_ask [where Q = "\<lambda>_ _. True"]], goal_cases)
    case (4 made w0 n w')
    show ?case
    proof (rule kept_seq [OF kept_create_temp], goal_cases)
      case (2 a w'')
      obtain staging i where a: "a = (staging, i)" by (cases a)
      have o: "owns t staging i w''" using 2 a by simp
      then have "intent_ok env (new_intent user_id req staging n)"
        using is_temp_path_name by (intro new_intent_ok [OF r lib]) (auto simp: owns_def)
      note created = kept_create_intent [OF this o]
      show ?case unfolding a prod.case by (rule kept_seq [OF created staged])
    qed simp
  qed simp_all
qed

lemma kept_import:
  assumes "copy_request env req"
  shows "kept env hard (user_id, rq_work_id req) (import_file_locked env f user_id req) (\<lambda>_ _. True) w"
proof (cases "get_root_folder env f (rq_root_folder_id req)")
  case (Inr r)
  then have r: "map_of (root_folders env) (rq_root_folder_id req) = Some r" by (auto simp: get_root_folder_def split: option.splits)
  have c: "rq_materialization req = Copy" using assms by (simp add: copy_request_def)
  let ?target = "path_join r (rq_target_relative req)"
  show ?thesis
  proof (cases "validate_target_path ?target (components r)")
    case True
    have "(rq_root_folder_id req, r) \<in> set (root_folders env)" using r by (rule map_of_SomeD)
    then have lib: "library_path env ?target"
      using assms True unfolding library_path_def under_root_def copy_request_def validate_target_path_def by (metis snd_conv)
    have "kept env hard (user_id, rq_work_id req) (if ex then existing_target f (user_id, rq_work_id req) user_id req ?target
        else new_target f (user_id, rq_work_id req) user_id req ?target) (\<lambda>_ _. True) w'" for ex w'
      using kept_existing_target [OF r lib c] kept_stage_and_finalize [OF r lib c] c
      by (auto simp: new_target_def intro!: kept_sum kept_seq [OF kept_path_is_free])
    then show ?thesis using True Inr by (auto simp: import_file_locked_def Let_def intro!: kept_seq [OF kept_ask [where Q = "\<lambda>_ _. True"]])
  qed (simp add: import_file_locked_def Inr)
qed (simp add: import_file_locked_def)

end
