(* ===== verification/RecoveryGuarantees.thy ===== *)
theory RecoveryGuarantees
  imports ImportGuarantees
begin

text \<open>
  The recovery at start-up keeps the library in order, and with it the whole system does: a row of the library
  has its file in every reachable state and after any crash. Then the places where that ends, and what a recovery
  settles.
\<close>

section \<open>The recovery alone\<close>

definition settled :: "library_env \<Rightarrow> bool \<Rightarrow> world \<Rightarrow> bool" where
  "settled env hard w \<longleftrightarrow> library_ok env hard w
     \<and> (hard \<longrightarrow> (\<forall>p. library_path env p \<and> regular (lookup w p) \<longrightarrow> regular (w_durable w p)))"

interpretation recovering: tasks "settled env hard" "\<lambda>_ :: unit. keeps_files env" for env hard
  by unfold_locales (auto simp: keeps_files_def)

definition alone :: "library_env \<Rightarrow> bool \<Rightarrow> (world, 'a) prog \<Rightarrow> ('a \<Rightarrow> world \<Rightarrow> bool) \<Rightarrow> world \<Rightarrow> bool" where
  "alone env hard = honours (settled env hard) (keeps_files env) (\<lambda>w w'. \<forall>u :: unit. u \<noteq> () \<longrightarrow> keeps_files env w w')"

lemmas alone_seq = recovering.ok_seq [where t = "()", folded alone_def]
lemmas alone_ask = recovering.ok_ask [where t = "()", folded alone_def]

lemma alone_Ret [simp]: "alone env hard (Ret a) Q w \<longleftrightarrow> Q a w"
  by (simp add: alone_def)

lemma alone_if: "(b \<Longrightarrow> alone env hard p Q w) \<Longrightarrow> (\<not> b \<Longrightarrow> alone env hard q Q w) \<Longrightarrow> alone env hard (if b then p else q) Q w"
  by simp

lemma alone_sum:
  "(\<And>e. r = Inl e \<Longrightarrow> alone env hard (p e) Q w) \<Longrightarrow> (\<And>a. r = Inr a \<Longrightarrow> alone env hard (q a) Q w)
    \<Longrightarrow> alone env hard (case r of Inl e \<Rightarrow> p e | Inr a \<Rightarrow> q a) Q w"
  by (cases r) simp_all

lemma alone_atomic:
  "(\<And>w'. keeps_files env w w' \<Longrightarrow> settled env hard w' \<Longrightarrow> settled env hard (snd (f w')) \<and> Q (fst (f w')) (snd (f w')))
    \<Longrightarrow> alone env hard (atomic f) Q w"
  unfolding alone_def by (rule honours_atomic) simp

lemma alone_tell:
  "(\<And>w'. keeps_files env w w' \<Longrightarrow> settled env hard w' \<Longrightarrow> settled env hard (g w') \<and> Q () (g w')) \<Longrightarrow> alone env hard (tell g) Q w"
  unfolding tell_def by (rule alone_atomic) simp

lemma settled_remove:
  assumes "settled env hard w" and "temp_name p"
  shows "settled env hard (remove_file p w)"
proof -
  obtain t where "\<And>i. is_temp_path i p \<Longrightarrow> i < w_next w \<Longrightarrow> w_owner w i = t" using is_temp_path_unique by metis
  then have "library_ok env hard (remove_file p w)"
    using remove_ok [of env hard w p t] assms by (simp add: settled_def fair_def)
  moreover have "library_path env q \<Longrightarrow> q \<noteq> p" for q using assms(2) library_path_not_temp by blast
  ultimately show ?thesis using assms(1) by (auto simp: settled_def lookup_remove split: if_splits)
qed

lemma settled_commit:
  assumes "settled env hard w" and "db_ok env hard w (g (w_db w))"
  shows "settled env hard (commit g w)"
  using assms db_step [of env hard w g] by (simp add: settled_def fair_def)

lemma settled_db: "settled env hard w \<Longrightarrow> db_ok env hard w (w_db w)"
  by (simp add: settled_def db_ok_now)

lemma alone_delete_intent: "alone env hard (delete_import_intent f intent_id) (\<lambda>_ _. True) w"
proof -
  let ?g = "\<lambda>d. d\<lparr>db_intents := filter (\<lambda>it. ii_id it \<noteq> intent_id) (db_intents d)\<rparr>"
  have "alone env hard (tell (commit ?g)) (\<lambda>_ _. True) w"
    by (rule alone_tell) (use settled_commit [where g = ?g] settled_db in \<open>force simp: db_ok_def\<close>)
  from alone_seq [OF this, where k = "\<lambda>_. Ret (Inr () :: item_error + unit)"] show ?thesis
    unfolding delete_import_intent_def by (simp split: option.split)
qed

lemma alone_create_item:
  assumes "item_ok env hard w req"
  shows "alone env hard (create_library_item f req) (\<lambda>_ _. True) w"
proof -
  have later: "item_ok env hard w' req" if "keeps_files env w w'" for w' using item_ok_mono [OF that assms] .
  have up: "alone env hard (tell (commit (update_item req item_id))) (\<lambda>_ _. True) w'" for item_id w'
    by (rule alone_tell) (use settled_commit settled_db db_ok_update in blast)
  have ins: "alone env hard (atomic (\<lambda>w. if \<exists>li \<in> set (db_items (w_db w)). same_place req li then (None, w)
       else (Some (db_next_item (w_db w)), commit (insert_item req) w))) (\<lambda>_ _. True) w'"
    if "item_ok env hard w' req" for w'
    by (rule alone_atomic) (use settled_commit [where g = "insert_item req"] db_ok_insert [OF settled_db] item_ok_mono [OF _ that] in auto)
  have get: "alone env hard (get_library_item f user_id item_id) (\<lambda>_ _. True) w'" for user_id item_id w'
    unfolding get_library_item_def by (rule alone_ask) simp
  show ?thesis unfolding create_library_item_def query_def
    by (rule alone_seq [OF alone_ask [where Q = "\<lambda>_ w. item_ok env hard w req"]])
       (auto split: option.split intro!: alone_sum alone_seq [OF up] alone_seq [OF ins] get later)
qed

lemma alone_reconcile:
  assumes it: "intent_ok env it"
  shows "alone env hard (reconcile_one_intent env f it report) (\<lambda>_ _. True) w"
proof (cases "get_root_folder env f (ii_root_folder_id it)")
  case (Inr r)
  then have r: "map_of (root_folders env) (ii_root_folder_id it) = Some r" by (auto simp: get_root_folder_def split: option.splits)
  let ?target = "path_join r (ii_target_relative it)"
  have lib: "library_path env ?target" and staging: "temp_name (ii_staging_path it)" using it r by (auto simp: intent_ok_def)
  have clear: "alone env hard (clear_intent f it counted report) (\<lambda>_ _. True) w'" for counted w'
    unfolding clear_intent_def by (rule alone_seq [OF alone_delete_intent]) simp
  have remove: "alone env hard (if fails f RemoveStaging then Ret () else tell (remove_file (ii_staging_path it))) (\<lambda>_ _. True) w'" for w'
    by (auto intro!: alone_tell settled_remove staging)
  have exists: "present hard w' ?target" if "settled env hard w'" "node w' ?target \<noteq> None" for w'
    using that lib unfolding settled_def library_ok_def files_ok_def present_def regular_def
    by (auto simp: node_def split: option.splits entry.splits)
  have row: "alone env hard (and_then (create_library_item f (intent_item it n)) (\<lambda>item.
      case item of Inl _ \<Rightarrow> Ret report | Inr _ \<Rightarrow> clear_intent f it (completed_update Suc) report)) (\<lambda>_ _. True) w'"
    if "present hard w' ?target" for w' n
  proof -
    have "item_ok env hard w' (intent_item it n)" using that r lib by (simp add: item_ok_def intent_item_def)
    from alone_create_item [OF this] show ?thesis by (rule alone_seq) (auto intro!: alone_sum clear)
  qed
  have finish: "alone env hard (and_then (ask (\<lambda>w. case (if fails f SizeRead then None else file_len w ?target) of Some n \<Rightarrow> n | None \<Rightarrow> ii_expected_size it)) (\<lambda>real_size.
            if real_size \<noteq> ii_expected_size it then Ret (report\<lparr>anomalous := anomalous report + 1\<rparr>)
            else
              and_then (create_library_item f (intent_item it real_size)) (\<lambda>item.
              case item of Inl _ \<Rightarrow> Ret report | Inr _ \<Rightarrow> clear_intent f it (completed_update Suc) report))) (\<lambda>_ _. True) w'"
    if "present hard w' ?target" for w'
  proof (rule alone_seq [OF alone_ask [where Q = "\<lambda>_ w. present hard w ?target"]])
    show "present hard w'' ?target" if "keeps_files env w' w''" for w''
      using that \<open>present hard w' ?target\<close> lib by (simp add: keeps_files_def present_def)
  qed (use row in simp)
  have roll: "alone env hard (and_then (if fails f RemoveStaging then Ret () else tell (remove_file (ii_staging_path it)))
      (\<lambda>_. clear_intent f it (rolled_back_update Suc) report)) (\<lambda>_ _. True) w'" for w'
    using clear by (rule alone_seq [OF remove])
  show ?thesis unfolding reconcile_one_intent_def Inr sum.case Let_def
  proof (rule alone_seq [OF alone_ask [where Q = "\<lambda>ex w. ex \<longrightarrow> present hard w ?target"]], goal_cases)
    case (2 ex w')
    then show ?case using roll finish by (cases ex; cases "ii_state it") simp_all
  qed (use exists in blast)
qed (simp add: reconcile_one_intent_def)

lemma alone_each:
  "(\<And>x r w. x \<in> set xs \<Longrightarrow> alone env hard (f x r) (\<lambda>_ _. True) w) \<Longrightarrow> alone env hard (each f xs r) (\<lambda>_ _. True) w"
  unfolding alone_def by (rule honours_each [where J = "\<lambda>_. True"]) simp_all

lemma sweepable_temp: "sweepable readable aged referenced root_path (p, e) \<Longrightarrow> temp_name p"
  by (cases e) (auto simp: sweepable_def temp_name_def)

lemma alone_sweep: "alone env hard (sweep_dir_for_staging renv referenced root_folder report) (\<lambda>_ _. True) w"
  unfolding sweep_dir_for_staging_def
proof (rule alone_seq [OF alone_ask [where Q = "\<lambda>found _. \<forall>p \<in> set found. temp_name p"]], goal_cases)
  case (2 found w')
  have rm: "alone env hard (tell (remove_file p)) (\<lambda>_ _. True) w" if "p \<in> set found" for p w
    by (rule alone_tell) (use settled_remove 2 that in blast)
  show ?case by (intro alone_each alone_if alone_seq [OF rm]) simp_all
qed (auto dest: sweepable_temp)

lemma alone_recovery:
  assumes "\<forall>xs. set (rec_order renv xs) = set xs"
  shows "alone env hard (recovery_task env f renv) (\<lambda>_ _. True) w"
proof -
  have recon: "alone env hard (each (\<lambda>it. reconcile_one_intent env (rec_faults renv (ii_id it)) it) (rec_order renv intents) report) (\<lambda>_ _. True) w"
    if "\<forall>it \<in> set intents. intent_ok env it" for intents report w
    using that assms by (intro alone_each alone_reconcile) simp
  have listed: "alone env hard (list_import_intents f x) (\<lambda>r _. \<forall>its. r = Inr its \<longrightarrow> (\<forall>it \<in> set its. intent_ok env it)) w" for x w
    unfolding list_import_intents_def query_def by (rule alone_ask) (auto split: option.splits dest: settled_db simp: db_ok_def)
  have sweep: "alone env hard (and_then (each (sweep_dir_for_staging renv refs) (map snd (root_folders env)) report)
      (\<lambda>report'. Ret (Inr report' :: item_error + import_recovery_report))) (\<lambda>_ _. True) w" for refs report w
    by (rule alone_seq [OF alone_each [OF alone_sweep]]) simp
  have "alone env hard (recover_import_intents env f renv) (\<lambda>_ _. True) w"
    unfolding recover_import_intents_def
    by (rule alone_seq [OF listed]) (auto split del: if_split intro!: alone_sum alone_if alone_seq [OF recon] alone_seq [OF listed] sweep)
  then show ?thesis unfolding recovery_task_def by (rule alone_seq) simp
qed

section \<open>The whole system\<close>

lemma deliver_relies:
  assumes ok: "library_ok env hard w" and p: "\<not> under_root env p" "\<not> temp_name p" "lookup w p = None"
  shows "library_ok env hard (deliver p c w) \<and> (\<forall>t. relies env t w (deliver p c w)) \<and> keeps_files env w (deliver p c w)"
proof -
  let ?w = "deliver p c w"
  have look: "lookup ?w q = (if q = p then Some (Regular (w_next w)) else lookup w q)" for q
    by (auto simp: deliver_def lookup_def update_conv' Let_def create_dir_all_def)
  have f: "w_durable ?w = w_durable w" "w_owner ?w = w_owner w" "w_next ?w = w_next w + 1" "w_db ?w = w_db w" "w_old ?w = w_old w"
     "w_synced ?w = (w_synced w)(w_next w := False)" by (simp_all add: deliver_def Let_def)
  have lib: "library_path env q \<Longrightarrow> q \<noteq> p" for q using p(1) by (auto simp: library_path_def)
  have bound: "named w i q \<Longrightarrow> i < w_next w" for i q using ok by (auto simp: library_ok_def files_ok_def)
  have named: "named ?w i q \<Longrightarrow> named w i q \<or> i = w_next w \<and> q = p" for i q by (auto simp: named_def look f split: if_splits)
  have keeps: "keeps_files env w ?w" using lib by (auto simp: keeps_files_def look f)
  have "files_ok env ?w" unfolding files_ok_def
  proof (intro conjI allI impI)
    fix q i assume n: "named ?w i q"
    show "i < w_next ?w" using named [OF n] bound f by fastforce
    show "w_synced ?w i" if "library_path env q"
      using named [OF n] lib [OF that] bound [of i q] ok that f by (auto simp: library_ok_def files_ok_def)
  qed (use ok lib in \<open>auto simp: library_ok_def files_ok_def look f\<close>)
  moreover have "\<forall>d \<in> set (w_db ?w # w_old ?w). db_ok env hard ?w d"
    using ok db_ok_mono [OF keeps] unfolding library_ok_def f by blast
  moreover have "leaves_alone t w ?w" for t unfolding leaves_alone_def
    using named bound is_temp_path_name p(2) by (auto simp: f look)
  ultimately show ?thesis using keeps by (simp add: library_ok_def relies_def f)
qed

lemma deliver_settled:
  assumes "settled env hard w" and "\<not> under_root env p" and "\<not> temp_name p" and "lookup w p = None"
  shows "settled env hard (deliver p c w)"
proof -
  have "lookup (deliver p c w) q = lookup w q" "w_durable (deliver p c w) q = w_durable w q" if "library_path env q" for q
    using that assms(2) by (auto simp: deliver_def lookup_def update_conv' Let_def library_path_def create_dir_all_def)
  moreover have "library_ok env hard (deliver p c w)" using deliver_relies [of env hard w p c] assms by (simp add: settled_def)
  ultimately show ?thesis using assms(1) unfolding settled_def by metis
qed

lemma writeback_relies:
  assumes "library_ok env hard w"
  shows "library_ok env hard (sync_dir dir w)" and "relies env t w (sync_dir dir w)" and "keeps_files env w (sync_dir dir w)"
proof -
  have "(fst t + 1, snd t) \<noteq> t" by (cases t) simp
  then show "library_ok env hard (sync_dir dir w)" "relies env t w (sync_dir dir w)"
    using sync_dir_fair [OF assms, of "(fst t + 1, snd t)" dir] unfolding fair_def by metis+
  then show "keeps_files env w (sync_dir dir w)" by (simp add: relies_def)
qed

lemma writeback_settled: "settled env hard w \<Longrightarrow> settled env hard (sync_dir dir w)"
  using writeback_relies(1) [of env hard w dir] by (auto simp: settled_def)

lemma power_loss_settled:
  assumes ok: "library_ok env True w" and loss: "power_loss w w'" and rows: "rows_anchored env (w_db w') w"
  shows "settled env True w'"
proof -
  note look = power_loss_names [OF loss]
  have named: "named w' i p \<Longrightarrow> named w i p" for i p using look(1,2) [of p] by (auto simp: named_def)
  have keep: "present True w' p" if "present True w p" "anchored w (butlast p)" for p
    using look(3) [OF that(2)] look(2) [of p] that(1) by (auto simp: present_def)
  have "files_ok env w'" unfolding files_ok_def
  proof (intro conjI allI impI)
    fix p i assume "named w' i p"
    then show "i < w_next w'" using named ok loss by (fastforce simp: library_ok_def files_ok_def power_loss_def)
    show "w_synced w' i" using loss by (simp add: power_loss_def)
  next
    fix p q
    have "lookup w p \<noteq> Some (Symlink q)" "w_durable w p \<noteq> Some (Symlink q)" using ok by (simp_all add: library_ok_def files_ok_def)
    then show "lookup w' p \<noteq> Some (Symlink q)" "w_durable w' p \<noteq> Some (Symlink q)" using look(1,2) [of p] by auto
  qed (use look(2) in simp)
  moreover have "db_ok env True w' (w_db w')"
  proof -
    have "db_ok env True w (w_db w')" using ok loss by (auto simp: library_ok_def power_loss_def)
    then show ?thesis using keep rows unfolding db_ok_def item_ok_def rows_anchored_def by metis
  qed
  moreover have "w_old w' = []" using loss by (simp add: power_loss_def)
  ultimately show ?thesis using look(2) by (simp add: settled_def library_ok_def)
qed

definition config_ok :: "library_env \<Rightarrow> bool \<Rightarrow> config \<Rightarrow> bool" where
  "config_ok env hard c \<longleftrightarrow> library_ok env hard (cf_world c)
     \<and> (\<forall>t p. cf_tasks c t = Some p \<longrightarrow> kept env hard t p (\<lambda>_ _. True) (cf_world c))
     \<and> (cf_recovery c = Ret () \<or> cf_tasks c = (\<lambda>_. None) \<and> settled env hard (cf_world c)
          \<and> alone env hard (cf_recovery c) (\<lambda>_ _. True) (cf_world c))"

lemma restarted_ok:
  "settled env hard w \<Longrightarrow> \<forall>xs. set (rec_order renv xs) = set xs \<Longrightarrow> config_ok env hard (restarted env f renv w)"
  using alone_recovery by (simp add: config_ok_def restarted_def settled_def)

lemma alone_later: "alone env hard p (\<lambda>_ _. True) w \<Longrightarrow> keeps_files env w w' \<Longrightarrow> alone env hard p (\<lambda>_ _. True) w'"
  unfolding alone_def by (rule recovering.ok_later)

lemma kept_later: "kept env hard t p (\<lambda>_ _. True) w \<Longrightarrow> relies env t w w' \<Longrightarrow> kept env hard t p (\<lambda>_ _. True) w'"
  unfolding kept_def by (rule lib.ok_later)

lemma step_keeps_ok:
  assumes "library_step env hard c c'" and "config_ok env hard c"
  shows "config_ok env hard c'"
  using assms
proof cases
  case (start user_id req f)
  have "kept env hard (user_id, rq_work_id req) (import_task env f user_id req) (\<lambda>_ _. True) (cf_world c)"
    unfolding import_task_def by (rule kept_seq [OF kept_import [OF start(4)]]) simp
  then show ?thesis using start assms(2) by (auto simp: config_ok_def)
next
  case (act t g p w)
  have "cf_recovery c = Ret ()" using act(2) assms(2) by (auto simp: config_ok_def)
  then show ?thesis
    using lib.pool_step [of "cf_tasks c" env hard "cf_world c" t g] act assms(2) by (simp add: config_ok_def kept_def)
next
  case (recover g p w)
  have c: "cf_tasks c = (\<lambda>_. None)" "settled env hard (cf_world c)" "alone env hard (Act g) (\<lambda>_ _. True) (cf_world c)"
    using recover(2) assms(2) by (auto simp: config_ok_def)
  then have "settled env hard w \<and> alone env hard p (\<lambda>_ _. True) w"
    using recover(3) unfolding alone_def honours_Act by (auto simp: keeps_files_def)
  then show ?thesis using c(1) recover(1) by (simp add: config_ok_def settled_def)
next
  case (delivery delivery_p content)
  have ok: "library_ok env hard (cf_world c)" using assms(2) by (simp add: config_ok_def)
  note d = deliver_relies [OF ok delivery(2,3,4), of content]
  have "\<forall>t p. cf_tasks c t = Some p \<longrightarrow> kept env hard t p (\<lambda>_ _. True) (deliver delivery_p content (cf_world c))"
    using assms(2) d kept_later unfolding config_ok_def by blast
  moreover have "settled env hard (deliver delivery_p content (cf_world c)) \<and> alone env hard (cf_recovery c) (\<lambda>_ _. True) (deliver delivery_p content (cf_world c))"
    if "settled env hard (cf_world c)" "alone env hard (cf_recovery c) (\<lambda>_ _. True) (cf_world c)"
    using deliver_settled [OF that(1) delivery(2,3,4)] alone_later [OF that(2)] d by blast
  moreover have fields: "cf_world (c\<lparr>cf_world := w\<rparr>) = w" "cf_tasks (c\<lparr>cf_world := w\<rparr>) = cf_tasks c" "cf_recovery (c\<lparr>cf_world := w\<rparr>) = cf_recovery c" for w
    by simp_all
  ultimately show ?thesis using assms(2) d unfolding delivery(1) config_ok_def fields by blast
next
  case (writeback dir)
  have ok: "library_ok env hard (cf_world c)" using assms(2) by (simp add: config_ok_def)
  note d = writeback_relies [OF ok, where dir = dir]
  have "\<forall>t p. cf_tasks c t = Some p \<longrightarrow> kept env hard t p (\<lambda>_ _. True) (sync_dir dir (cf_world c))"
    using assms(2) d kept_later unfolding config_ok_def by blast
  moreover have "settled env hard (sync_dir dir (cf_world c)) \<and> alone env hard (cf_recovery c) (\<lambda>_ _. True) (sync_dir dir (cf_world c))"
    if "settled env hard (cf_world c)" "alone env hard (cf_recovery c) (\<lambda>_ _. True) (cf_world c)"
    using writeback_settled [OF that(1)] alone_later [OF that(2)] d by blast
  ultimately show ?thesis using assms(2) d(1) unfolding writeback config_ok_def by (auto simp del: sync_dir_fields)
next
  case (death renv f)
  moreover have "settled env hard (cf_world c)" using assms(2) death(2) by (simp add: config_ok_def settled_def)
  ultimately show ?thesis using restarted_ok by blast
next
  case (power w renv f)
  moreover have "settled env hard w" using assms(2) power(2) power_loss_settled [OF _ power(3,4)] unfolding config_ok_def by simp
  ultimately show ?thesis using restarted_ok by blast
qed

lemma empty_config_ok: "config_ok env hard empty_config"
  by (simp add: config_ok_def empty_config_def library_ok_def files_ok_def named_def lookup_def db_ok_def)

lemma reachable_ok: "(library_step env hard)\<^sup>*\<^sup>* empty_config c \<Longrightarrow> config_ok env hard c"
  by (induction rule: rtranclp_induct) (auto intro: empty_config_ok step_keeps_ok)

text \<open>
  C8 (safety): No row without its file. Under any interleaving of copying imports, with any faults of the
  file system and the database, deliveries, write-backs and crashes followed by recoveries, every row of the library has
  its file, whose contents are complete and on the disk. The crashes are deaths of the process, or power losses (\<open>hard\<close>) that
  strike while the folders of the rows are on the disk; then the file of a row and its contents survive the next power loss too, even
  if the database goes back, where the folder of the file is on the disk. The imports do not see to that: they sync the
  folder of the file and none above it, and \<open>new_folder_can_lose_the_book\<close> shows what a power loss does to a folder that is not yet there.
\<close>

theorem no_row_without_its_file:
  assumes "(library_step env hard)\<^sup>*\<^sup>* empty_config c" and "li \<in> set (db_items (w_db (cf_world c)))"
  shows "\<exists>r i. map_of (root_folders env) (li_root_folder_id li) = Some r
    \<and> lookup (cf_world c) (path_join r (li_path li)) = Some (Regular i) \<and> w_synced (cf_world c) i
    \<and> (hard \<and> anchored (cf_world c) (butlast (path_join r (li_path li))) \<longrightarrow> (\<forall>w'. power_loss (cf_world c) w' \<longrightarrow>
         (\<exists>j. lookup w' (path_join r (li_path li)) = Some (Regular j) \<and> w_contents w' j = w_contents (cf_world c) j)))"
proof -
  let ?w = "cf_world c"
  have ok: "library_ok env hard ?w" using reachable_ok [OF assms(1)] by (simp add: config_ok_def)
  then obtain r where r: "map_of (root_folders env) (li_root_folder_id li) = Some r"
      "library_path env (path_join r (li_path li))" "present hard ?w (path_join r (li_path li))"
    using assms(2) by (auto simp: library_ok_def db_ok_def item_ok_def)
  let ?p = "path_join r (li_path li)"
  obtain i where i: "lookup ?w ?p = Some (Regular i)" using r(3) by (auto simp: present_def regular_def)
  have synced: "w_synced ?w j" if "named ?w j ?p" for j using ok that r(2) by (auto simp: library_ok_def files_ok_def)
  have "\<exists>j. lookup w' ?p = Some (Regular j) \<and> w_contents w' j = w_contents ?w j" if "power_loss ?w w'" hard "anchored ?w (butlast ?p)" for w'
  proof -
    obtain k where k: "w_durable ?w ?p = Some (Regular k)" using r(3) \<open>hard\<close> by (auto simp: present_def regular_def)
    have "w_synced ?w i" "w_synced ?w k" using synced i k by (auto simp: named_def)
    moreover have "lookup w' ?p = Some (Regular i) \<or> lookup w' ?p = Some (Regular k)" using power_loss_names(3) [OF that(1,3)] i k by auto
    ultimately show ?thesis using that(1) by (auto simp: power_loss_def)
  qed
  then show ?thesis using r(1) i synced [of i] by (auto simp: named_def)
qed

end
