(* ===== verification/ImportRuns.thy ===== *)
theory ImportRuns
  imports RecoveryGuarantees
begin

text \<open>
  Undisturbed runs in closed form: what a whole import leaves, when no call fails, what it leaves
  when another work takes the path in the middle, and what a recovery does with one intent.
\<close>

section \<open>The parts\<close>

lemma no_faults_simps [simp]: "fails no_faults x = False" "fl no_faults x = None" "fl_cut no_faults = 0"
  by (simp_all add: fails_def no_faults_def)

lemma write_twice [simp]: "write_file i c (write_file i c' w) = write_file i c w"
  by (simp add: write_file_def)

lemma run_copy_bytes: "j \<noteq> i \<Longrightarrow> run (copy_bytes no_faults x j i) w = (Some (int (length (w_contents w j))), write_file i (w_contents w j) w)"
  by (simp add: copy_bytes_def)

lemma run_make_dirs: "run (make_dirs no_faults x dir) w = (True, create_dir_all dir w)"
  by (simp add: make_dirs_def)

lemma run_fsync_dir: "run (fsync_dir no_faults x dir) w = (Inr (), sync_dir dir w)"
  by (simp add: fsync_dir_def)

lemma run_stage_copy:
  "node w source = Some j \<Longrightarrow> j \<noteq> i \<Longrightarrow>
    run (stage_copy no_faults source staging i) w = (Inr (int (length (w_contents w j))), sync_file i (write_file i (w_contents w j) w))"
  by (simp add: stage_copy_def run_copy_bytes)

lemma run_create_intent:
  assumes "\<forall>it \<in> set (db_intents (w_db w)). \<not> same_target req it"
  shows "run (create_import_intent no_faults req) w = (Inr (db_next_intent (w_db w)), commit (insert_intent req) w)"
  using assms by (auto simp: create_import_intent_def insert_intent_def)

definition ids_ok :: "library_db \<Rightarrow> bool" where
  "ids_ok d \<longleftrightarrow> (\<forall>li \<in> set (db_items d). li_id li < db_next_item d) \<and> (\<forall>it \<in> set (db_intents d). ii_id it < db_next_intent d)"

lemma find_none: "\<forall>x \<in> set xs. \<not> P x \<Longrightarrow> find P (xs @ [y]) = (if P y then Some y else None)"
  by (induction xs) auto

lemma find_NoneI: "\<forall>x \<in> set xs. \<not> P x \<Longrightarrow> find P xs = None"
  by (simp add: find_None_iff)

lemma run_create_item:
  assumes "\<forall>li \<in> set (db_items (w_db w)). li_id li < db_next_item (w_db w)" and "\<forall>li \<in> set (db_items (w_db w)). \<not> same_place req li"
  shows "run (create_library_item no_faults req) w = (Inr (req\<lparr>li_id := db_next_item (w_db w)\<rparr>), commit (insert_item req) w)"
proof -
  have "\<forall>li \<in> set (db_items (w_db w)). \<not> (li_id li = db_next_item (w_db w) \<and> li_user_id li = li_user_id req)"
    using assms(1) by auto
  then show ?thesis using assms(2)
    by (simp add: create_library_item_def query_def find_NoneI get_library_item_def insert_item_def find_none)
qed

lemma run_create_item_conflict:
  assumes "find (same_place req) (db_items (w_db w)) = Some row" and "li_work_id row \<noteq> li_work_id req"
  shows "run (create_library_item f req) w = (case fl f ItemSelect of Some e \<Rightarrow> (Inl e, w) | None \<Rightarrow> (Inl ItemConstraint, w))"
  using assms by (simp add: create_library_item_def query_def split: option.split)

lemma run_mark: "run (mark_import_intent_renamed no_faults k) w =
  (Inr (), commit (\<lambda>d. d\<lparr>db_intents := map (\<lambda>it. if ii_id it = k then it\<lparr>ii_state := Renamed\<rparr> else it) (db_intents d)\<rparr>) w)"
  by (simp add: mark_import_intent_renamed_def)

lemma run_delete: "run (delete_import_intent no_faults k) w =
  (Inr (), commit (\<lambda>d. d\<lparr>db_intents := filter (\<lambda>it. ii_id it \<noteq> k) (db_intents d)\<rparr>) w)"
  by (simp add: delete_import_intent_def)

section \<open>Staging and publishing\<close>

text \<open>The world in which the row is about to be written: the file is in its place and on the disk, and the intent says so.\<close>

definition published :: "task \<Rightarrow> int \<Rightarrow> import_file_request \<Rightarrow> fpath \<Rightarrow> nat \<Rightarrow> world \<Rightarrow> world" where
  "published t user_id req target j w =
     (let i = w_next w; staging = temp_path STAGING_PREFIX (butlast target) i; c = w_contents w j;
          intent = new_intent user_id req staging (int (length c)); k = db_next_intent (w_db w)
      in commit (\<lambda>d. d\<lparr>db_intents := map (\<lambda>it. if ii_id it = k then it\<lparr>ii_state := Renamed\<rparr> else it) (db_intents d)\<rparr>)
           (sync_dir (butlast target) (snd (rename_file staging target (sync_file i (write_file i c
             (commit (insert_intent intent) (snd (create_temp t STAGING_PREFIX (butlast target) (create_dir_all (butlast target) w))))))))))"

lemma create_temp_eq:
  "create_temp t pre dir w = ((temp_path pre dir (w_next w), w_next w), snd (create_temp t pre dir w))"
  by (simp add: create_temp_def Let_def)

lemma create_temp_simps [simp]:
  "lookup (snd (create_temp t pre dir w)) q = (if q = temp_path pre dir (w_next w) then Some (Regular (w_next w)) else lookup w q)"
  "w_durable (snd (create_temp t pre dir w)) = w_durable w" "w_db (snd (create_temp t pre dir w)) = w_db w"
  "w_contents (snd (create_temp t pre dir w)) = (w_contents w)(w_next w := [])"
  "w_synced (snd (create_temp t pre dir w)) = (w_synced w)(w_next w := False)"
  "w_next (snd (create_temp t pre dir w)) = w_next w + 1"
  by (simp_all add: create_temp_def Let_def lookup_def update_conv')

lemma node_cong: "(\<And>q. lookup w' q = lookup w q) \<Longrightarrow> node w' p = node w p"
  by (simp add: node_def split: option.split entry.split)

lemma node_congs [simp]: "node (commit g w) p = node w p" "node (write_file i c w) p = node w p" "node (sync_file i w) p = node w p"
  "node (sync_dir dir w) p = node w p" "node (create_dir_all dir w) p = node w p"
  by (rule node_cong, simp)+

text \<open>A file that is readable stays readable beside a new temporary file.\<close>

lemma node_create_temp:
  assumes "\<forall>p i. lookup w p = Some (Regular i) \<longrightarrow> i < w_next w" and "lookup w (temp_path pre dir (w_next w)) = None" and "node w p = Some j"
  shows "node (snd (create_temp t pre dir w)) p = Some j"
  using assms by (auto simp: node_def split: option.splits entry.splits)

lemma rename_eq: "lookup w a = Some e \<Longrightarrow> rename_file a b w = (True, snd (rename_file a b w))"
  by (simp add: rename_file_def)

lemma run_stage_and_finalize:
  assumes copy: "rq_materialization req = Copy" and source: "node w (rq_source req) = Some j"
    and fresh: "\<forall>p i. lookup w p = Some (Regular i) \<longrightarrow> i < w_next w" "lookup w (temp_path STAGING_PREFIX (butlast target) (w_next w)) = None"
    and free: "\<forall>it \<in> set (db_intents (w_db w)). ii_user_id it = user_id \<longrightarrow> ii_root_folder_id it = rq_root_folder_id req
        \<longrightarrow> ii_target_relative it \<noteq> rq_target_relative req"
  shows "run (stage_and_finalize no_faults t user_id req target) w =
    (case run (create_library_item no_faults (new_item user_id req (int (length (w_contents w j))))) (published t user_id req target j w) of
       (Inl e, w') \<Rightarrow> (Inl (ImportDb e), w')
     | (Inr li, w') \<Rightarrow> (Inr (FileImported (li_id li) (rq_target_relative req)),
         commit (\<lambda>d. d\<lparr>db_intents := filter (\<lambda>it. ii_id it \<noteq> db_next_intent (w_db w)) (db_intents d)\<rparr>) w'))"
proof -
  let ?dir = "butlast target" and ?i = "w_next w" and ?c = "w_contents w j"
  let ?staging = "temp_path STAGING_PREFIX ?dir ?i"
  define w0 where "w0 = create_dir_all ?dir w"
  define w1 where "w1 = snd (create_temp t STAGING_PREFIX ?dir w0)"
  have f0: "lookup w0 p = lookup w p" "node w0 p = node w p" "w_next w0 = ?i" "w_db w0 = w_db w" "w_contents w0 = w_contents w" for p
    by (simp_all add: w0_def)
  let ?intent = "new_intent user_id req ?staging (int (length ?c))"
  let ?w2 = "commit (insert_intent ?intent) w1"
  have j: "j < ?i" using source fresh(1) by (auto simp: node_def split: option.splits entry.splits)
  have size: "file_len w0 (rq_source req) = Some (int (length ?c))" using source by (simp add: file_len_def f0)
  have db1: "w_db w1 = w_db w" by (simp add: w1_def f0)
  have "\<forall>it \<in> set (db_intents (w_db w1)). \<not> same_target ?intent it" using free db1 by (auto simp: same_target_def new_intent_def)
  note ci = run_create_intent [OF this, unfolded db1]
  have src: "node ?w2 (rq_source req) = Some j" using node_create_temp [of w0 STAGING_PREFIX ?dir] fresh source by (simp add: w1_def f0)
  have c: "w_contents ?w2 j = ?c" using j by (simp add: w1_def f0)
  note st = run_stage_copy [OF src, of ?i ?staging] 
  let ?w3 = "sync_file ?i (write_file ?i ?c ?w2)"
  have staged: "run (stage_copy no_faults (rq_source req) ?staging ?i) ?w2 = (Inr (int (length ?c)), ?w3)" using st j c by simp
  have "lookup ?w3 ?staging = Some (Regular ?i)" by (simp add: w1_def f0)
  define w4 where "w4 = snd (rename_file ?staging target ?w3)"
  have ren: "rename_file ?staging target ?w3 = (True, w4)" unfolding w4_def by (rule rename_eq [OF \<open>lookup ?w3 ?staging = Some (Regular ?i)\<close>])
  have pub: "published t user_id req target j w = commit (\<lambda>d. d\<lparr>db_intents := map (\<lambda>it. if ii_id it = db_next_intent (w_db w)
      then it\<lparr>ii_state := Renamed\<rparr> else it) (db_intents d)\<rparr>) (sync_dir ?dir w4)"
    by (simp add: published_def Let_def w4_def w1_def w0_def)
  have run_temp: "run (atomic (create_temp t STAGING_PREFIX ?dir)) w0 = ((?staging, ?i), w1)"
    unfolding w1_def run_atomic f0(3) [symmetric] by (rule create_temp_eq)
  have fin: "run (finalize_import no_faults user_id req target ?staging (db_next_intent (w_db w)) (int (length ?c))) ?w3 =
    (case run (create_library_item no_faults (new_item user_id req (int (length ?c)))) (published t user_id req target j w) of
       (Inl e, w') \<Rightarrow> (Inl (ImportDb e), w')
     | (Inr li, w') \<Rightarrow> (Inr (FileImported (li_id li) (rq_target_relative req)),
         commit (\<lambda>d. d\<lparr>db_intents := filter (\<lambda>it. ii_id it \<noteq> db_next_intent (w_db w)) (db_intents d)\<rparr>) w'))"
    unfolding finalize_import_def pub by (simp add: ren run_fsync_dir run_mark run_delete split: prod.split sum.split)
  show ?thesis unfolding stage_and_finalize_def using ci staged fin run_temp size copy by (simp add: run_make_dirs w0_def [symmetric])
qed

lemma published_facts:
  assumes "\<forall>p i. lookup w p = Some (Regular i) \<longrightarrow> i < w_next w" and "j < w_next w" and "\<not> temp_name target" and "target \<noteq> []"
  shows "lookup (published t user_id req target j w) p = (if p = target then Some (Regular (w_next w))
      else if p = temp_path STAGING_PREFIX (butlast target) (w_next w) then None else lookup w p)"
    and "w_durable (published t user_id req target j w) target = Some (Regular (w_next w))"
    and "w_contents (published t user_id req target j w) = (w_contents w)(w_next w := w_contents w j)"
    and "w_synced (published t user_id req target j w) (w_next w)"
    and "w_next (published t user_id req target j w) = w_next w + 1"
    and "db_items (w_db (published t user_id req target j w)) = db_items (w_db w)"
    and "db_next_item (w_db (published t user_id req target j w)) = db_next_item (w_db w)"
    and "db_next_intent (w_db (published t user_id req target j w)) = db_next_intent (w_db w) + 1"
proof -
  let ?staging = "temp_path STAGING_PREFIX (butlast target) (w_next w)"
  let ?c = "w_contents w j"
  let ?intent = "new_intent user_id req ?staging (int (length ?c))"
  define w3 where "w3 = sync_file (w_next w) (write_file (w_next w) ?c (commit (insert_intent ?intent) (snd (create_temp t STAGING_PREFIX (butlast target) (create_dir_all (butlast target) w)))))"
  have ne: "?staging \<noteq> target" using assms(3) temp_path_name [of STAGING_PREFIX] by metis
  have l3: "lookup w3 p = (if p = ?staging then Some (Regular (w_next w)) else lookup w p)" for p by (simp add: w3_def)
  have "lookup w target \<noteq> Some (Regular (w_next w))" using assms(1) by blast
  then have l4: "lookup (snd (rename_file ?staging target w3)) p =
      (if p = target then Some (Regular (w_next w)) else if p = ?staging then None else lookup w p)" for p
    using lookup_rename [of w3 ?staging "Regular (w_next w)" target p] ne by (simp add: l3)
  note pub = published_def [unfolded Let_def, of t user_id req target j w, folded w3_def]
  show "lookup (published t user_id req target j w) p = (if p = target then Some (Regular (w_next w))
      else if p = ?staging then None else lookup w p)" by (simp add: pub l4)
  show "w_durable (published t user_id req target j w) target = Some (Regular (w_next w))" using assms(4) by (simp add: pub l4)
  have cont: "w_contents (snd (rename_file a b w)) = w_contents w" for a b w by (simp add: rename_file_def split: option.split)
  show "w_contents (published t user_id req target j w) = (w_contents w)(w_next w := w_contents w j)" by (simp add: pub cont) (simp add: w3_def)
  show "w_synced (published t user_id req target j w) (w_next w)" by (simp add: pub) (simp add: w3_def)
  show "w_next (published t user_id req target j w) = w_next w + 1" by (simp add: pub) (simp add: w3_def)
  show "db_items (w_db (published t user_id req target j w)) = db_items (w_db w)"
    "db_next_item (w_db (published t user_id req target j w)) = db_next_item (w_db w)"
    "db_next_intent (w_db (published t user_id req target j w)) = db_next_intent (w_db w) + 1"
    by (simp_all add: pub) (simp_all add: w3_def insert_intent_def)
qed

lemma published_intents:
  assumes "ids_ok (w_db w)"
  shows "db_intents (w_db (published t user_id req target j w)) = db_intents (w_db w) @
    [(new_intent user_id req (temp_path STAGING_PREFIX (butlast target) (w_next w)) (int (length (w_contents w j))))
       \<lparr>ii_id := db_next_intent (w_db w), ii_state := Renamed\<rparr>]"
proof -
  have "map (\<lambda>it. if ii_id it = db_next_intent (w_db w) then it\<lparr>ii_state := Renamed\<rparr> else it) (db_intents (w_db w)) = db_intents (w_db w)"
    using assms by (intro map_idI) (auto simp: ids_ok_def)
  then show ?thesis by (simp add: published_def Let_def insert_intent_def)
qed

text \<open>The beginning of an import whose target is not there.\<close>

definition free_place :: "int \<Rightarrow> import_file_request \<Rightarrow> library_db \<Rightarrow> bool" where
  "free_place user_id req d \<longleftrightarrow>
     (\<forall>li \<in> set (db_items d). \<not> item_at user_id (rq_root_folder_id req) (rq_target_relative req) li)
     \<and> (\<forall>it \<in> set (db_intents d). ii_user_id it = user_id \<longrightarrow> ii_root_folder_id it = rq_root_folder_id req
          \<longrightarrow> ii_target_relative it \<noteq> rq_target_relative req)"

definition can_import :: "library_env \<Rightarrow> int \<Rightarrow> import_file_request \<Rightarrow> fpath \<Rightarrow> nat \<Rightarrow> world \<Rightarrow> bool" where
  "can_import env user_id req target j w \<longleftrightarrow>
     (\<exists>r. map_of (root_folders env) (rq_root_folder_id req) = Some r \<and> target = path_join r (rq_target_relative req)
          \<and> validate_target_path target (components r))
     \<and> rq_materialization req = Copy \<and> target \<noteq> [] \<and> \<not> temp_name target \<and> lookup w target = None
     \<and> node w (rq_source req) = Some j"

definition tidy :: "world \<Rightarrow> bool" where
  "tidy w \<longleftrightarrow> (\<forall>p e. lookup w p = Some e \<longrightarrow> \<not> temp_name p \<and> (\<forall>i. e = Regular i \<longrightarrow> i < w_next w)) \<and> ids_ok (w_db w)"

lemma tidyI:
  assumes "\<forall>e \<in> set (w_names w). \<not> temp_name (fst e) \<and> (case snd e of Regular i \<Rightarrow> i < w_next w | Symlink _ \<Rightarrow> True)" and "ids_ok (w_db w)"
  shows "tidy w"
  using assms by (fastforce simp: tidy_def lookup_def dest: map_of_SomeD)

text \<open>After two questions to which the answer is no, the import is before its staging.\<close>

lemma import_start:
  assumes c: "can_import env user_id req target j w" and f: "free_place user_id req (w_db w)"
  shows "left_of (import_file_locked env no_faults user_id req) w (stage_and_finalize no_faults (user_id, rq_work_id req) user_id req target) w"
proof -
  obtain r where r: "map_of (root_folders env) (rq_root_folder_id req) = Some r" "target = path_join r (rq_target_relative req)"
      "validate_target_path target (components r)" using c by (auto simp: can_import_def)
  have copy: "rq_materialization req = Copy" and absent: "node w target = None" using c by (auto simp: can_import_def node_def)
  let ?t = "(user_id, rq_work_id req)"
  let ?k = "\<lambda>target_exists. if target_exists then existing_target no_faults ?t user_id req target else new_target no_faults ?t user_id req target"
  have "import_file_locked env no_faults user_id req = and_then (atomic (\<lambda>w. (node w target \<noteq> None, w))) ?k"
    by (simp add: import_file_locked_def get_root_folder_def Let_def ask_def r(1,3) r(2) [symmetric])
  then have start: "import_file_locked env no_faults user_id req = Act (\<lambda>w. (?k (node w target \<noteq> None), w))"
    by (simp add: and_then_atomic)
  let ?free = "\<lambda>w. case find (item_at user_id (rq_root_folder_id req) (rq_target_relative req)) (db_items (w_db w)) of
      Some li \<Rightarrow> if li_work_id li \<noteq> rq_work_id req then Inl (PathCollision (rq_target_relative req)) else Inr ()
    | None \<Rightarrow> Inr ()"
  let ?k2 = "\<lambda>free. case free of Inl e \<Rightarrow> Ret (Inl e) | Inr _ \<Rightarrow> stage_and_finalize no_faults ?t user_id req target"
  have free: "new_target no_faults ?t user_id req target = Act (\<lambda>w. (?k2 (?free w), w))"
    using copy by (simp add: new_target_def path_is_free_def find_library_item_by_path_def query_def ask_def atomic_def fun_eq_iff)
  have "?free w = Inr ()" using f by (simp add: free_place_def find_NoneI)
  then have 2: "fst ((\<lambda>w. (?k2 (?free w), w)) w) = stage_and_finalize no_faults ?t user_id req target" by simp
  have 1: "left_of (import_file_locked env no_faults user_id req) w (new_target no_faults ?t user_id req target) w"
    using left_of.more [OF left_of.none, of "\<lambda>w. (?k (node w target \<noteq> None), w)" w] absent unfolding start by simp
  show ?thesis using left_of.more [OF 1 [unfolded free]] 2 by (simp add: free)
qed

lemma fresh_staging: "tidy w \<Longrightarrow> lookup w (temp_path STAGING_PREFIX dir i) = None"
  using temp_path_name [of STAGING_PREFIX] unfolding tidy_def by (metis option.exhaust)

lemma tidy_nodes: "tidy w \<Longrightarrow> \<forall>p i. lookup w p = Some (Regular i) \<longrightarrow> i < w_next w"
  by (auto simp: tidy_def)

lemma node_bound: "tidy w \<Longrightarrow> node w p = Some j \<Longrightarrow> j < w_next w"
  using tidy_nodes by (fastforce simp: node_def split: option.splits entry.splits)

lemma run_import:
  assumes c: "can_import env user_id req target j w" and f: "free_place user_id req (w_db w)" and tidy: "tidy w"
  defines "n \<equiv> int (length (w_contents w j))" and "k \<equiv> db_next_intent (w_db w)"
  shows "run (import_file_locked env no_faults user_id req) w = (Inr (FileImported (db_next_item (w_db w)) (rq_target_relative req)),
    commit (\<lambda>d. d\<lparr>db_intents := filter (\<lambda>it. ii_id it \<noteq> k) (db_intents d)\<rparr>)
      (commit (insert_item (new_item user_id req n)) (published (user_id, rq_work_id req) user_id req target j w)))"
proof -
  let ?w = "published (user_id, rq_work_id req) user_id req target j w"
  have copy: "rq_materialization req = Copy" and source: "node w (rq_source req) = Some j" and t: "\<not> temp_name target" "target \<noteq> []"
    using c by (auto simp: can_import_def)
  have free: "\<forall>it \<in> set (db_intents (w_db w)). ii_user_id it = user_id \<longrightarrow> ii_root_folder_id it = rq_root_folder_id req
        \<longrightarrow> ii_target_relative it \<noteq> rq_target_relative req" using f by (simp add: free_place_def)
  have j: "j < w_next w" using node_bound [OF tidy source] .
  note pf = published_facts [OF tidy_nodes [OF tidy] j t, of "(user_id, rq_work_id req)" user_id req]
  have ids: "ids_ok (w_db w)" using tidy by (simp add: tidy_def)
  have "\<forall>li \<in> set (db_items (w_db ?w)). li_id li < db_next_item (w_db ?w)" using ids pf(6,7) by (simp add: ids_ok_def)
  moreover have "\<forall>li \<in> set (db_items (w_db ?w)). \<not> same_place (new_item user_id req n) li"
    using f pf(6) by (auto simp: free_place_def same_place_def new_item_def)
  ultimately have row: "run (create_library_item no_faults (new_item user_id req n)) ?w =
      (Inr ((new_item user_id req n)\<lparr>li_id := db_next_item (w_db w)\<rparr>), commit (insert_item (new_item user_id req n)) ?w)"
    using run_create_item [of ?w "new_item user_id req n"] pf(7) by simp
  show ?thesis
    unfolding run_left [OF import_start [OF c f], symmetric]
      run_stage_and_finalize [OF copy source tidy_nodes [OF tidy] fresh_staging [OF tidy] free] n_def [symmetric] row
    by (simp add: k_def)
qed

text \<open>
  C9 (functional): A copying import to a free place files the book: it returns the new row's number, the target holds the bytes of the
  source under a name that shares them with no other, and name and bytes are on the disk (the name in its folder; the folders above are as \<open>create_dir_all\<close> left them); the row is there, no intent remains and no other file has changed.
\<close>

theorem copy_import_files_the_book:
  assumes "can_import env user_id req target j w" and "free_place user_id req (w_db w)" and "tidy w"
  shows "\<exists>w' i. run (import_file_locked env no_faults user_id req) w = (Inr (FileImported (db_next_item (w_db w)) (rq_target_relative req)), w')
    \<and> lookup w' target = Some (Regular i) \<and> w_durable w' target = Some (Regular i) \<and> w_synced w' i \<and> w_contents w' i = w_contents w j
    \<and> (\<forall>p. p \<noteq> target \<longrightarrow> lookup w' p = lookup w p \<and> lookup w' p \<noteq> Some (Regular i))
    \<and> (\<forall>i' < w_next w. w_contents w' i' = w_contents w i')
    \<and> db_items (w_db w') = db_items (w_db w) @ [(new_item user_id req (int (length (w_contents w j))))\<lparr>li_id := db_next_item (w_db w)\<rparr>]
    \<and> db_intents (w_db w') = db_intents (w_db w)"
proof -
  let ?t = "(user_id, rq_work_id req)"
  have source: "node w (rq_source req) = Some j" and t: "\<not> temp_name target" "target \<noteq> []" using assms(1) by (auto simp: can_import_def)
  note pf = published_facts [OF tidy_nodes [OF assms(3)] node_bound [OF assms(3) source] t, of ?t user_id req]
  have ids: "ids_ok (w_db w)" using assms(3) by (simp add: tidy_def)
  have gone: "filter (\<lambda>it. ii_id it \<noteq> db_next_intent (w_db w)) (db_intents (w_db w)) = db_intents (w_db w)"
    using ids by (auto simp: ids_ok_def filter_id_conv)
  have look: "lookup (published ?t user_id req target j w) p = lookup w p" if "p \<noteq> target" for p
    using pf(1) that fresh_staging [OF assms(3)] by auto
  have other: "lookup w p \<noteq> Some (Regular (w_next w))" for p using tidy_nodes [OF assms(3)] by blast
  show ?thesis
    by (rule exI, rule exI [of _ "w_next w"], rule conjI [OF run_import [OF assms]])
       (use look other pf in \<open>auto simp: insert_item_def published_intents [OF ids] gone\<close>)
qed

text \<open>
  C35 (safety): The path of an import is not protected until its intent is written: a second work's import of the same target that has
  already looked for a row can wait while the first one finishes, then overwrite the first one's file with its
  own bytes, and only then fail. The row of the first work remains, with a file that is not its own.
\<close>

theorem late_rival_overwrites_the_file:
  assumes a: "can_import env user_id req_a target ja w" and b: "can_import env user_id req_b target jb w"
    and same: "rq_root_folder_id req_b = rq_root_folder_id req_a" "rq_target_relative req_b = rq_target_relative req_a"
    and works: "rq_work_id req_b \<noteq> rq_work_id req_a"
    and free: "free_place user_id req_a (w_db w)" and tidy: "tidy w"
  shows "\<exists>rest wa wb. left_of (import_file_locked env no_faults user_id req_b) w rest w
    \<and> run (import_file_locked env no_faults user_id req_a) w = (Inr (FileImported (db_next_item (w_db w)) (rq_target_relative req_a)), wa)
    \<and> run rest wa = (Inl (ImportDb ItemConstraint), wb)
    \<and> (\<exists>i. lookup wb target = Some (Regular i) \<and> w_contents wb i = w_contents w jb)
    \<and> db_items (w_db wb) = db_items (w_db w) @ [(new_item user_id req_a (int (length (w_contents w ja))))\<lparr>li_id := db_next_item (w_db w)\<rparr>]"
proof -
  let ?ta = "(user_id, rq_work_id req_a)" and ?tb = "(user_id, rq_work_id req_b)" and ?k = "db_next_intent (w_db w)"
  let ?row = "new_item user_id req_a (int (length (w_contents w ja)))"
  have free_b: "free_place user_id req_b (w_db w)" using free same by (simp add: free_place_def)
  have t: "\<not> temp_name target" "target \<noteq> []" and sa: "node w (rq_source req_a) = Some ja" and sb: "node w (rq_source req_b) = Some jb"
    and copy: "rq_materialization req_b = Copy" using a b by (auto simp: can_import_def)
  have absent: "lookup w target = None" using a by (simp add: can_import_def)
  have ids: "ids_ok (w_db w)" using tidy by (simp add: tidy_def)
  note pa = published_facts [OF tidy_nodes [OF tidy] node_bound [OF tidy sa] t, of ?ta user_id req_a]
  define wa where "wa = commit (\<lambda>d. d\<lparr>db_intents := filter (\<lambda>it. ii_id it \<noteq> ?k) (db_intents d)\<rparr>)
      (commit (insert_item ?row) (published ?ta user_id req_a target ja w))"
  have look: "lookup wa p = (if p = target then Some (Regular (w_next w)) else lookup w p)" for p
    using pa(1) fresh_staging [OF tidy] by (auto simp: wa_def)
  have nxt: "w_next wa = w_next w + 1" and cont: "w_contents wa = (w_contents w)(w_next w := w_contents w ja)" using pa(3,5) by (simp_all add: wa_def)
  have gone: "filter (\<lambda>it. ii_id it \<noteq> ?k) (db_intents (w_db w)) = db_intents (w_db w)"
    using ids by (auto simp: ids_ok_def filter_id_conv)
  have db: "db_items (w_db wa) = db_items (w_db w) @ [?row\<lparr>li_id := db_next_item (w_db w)\<rparr>]" "db_intents (w_db wa) = db_intents (w_db w)"
    using pa(6,7) by (simp_all add: wa_def insert_item_def published_intents [OF ids] gone)
  have src: "node wa (rq_source req_b) = Some jb"
    using sb absent look by (auto simp: node_def split: option.splits entry.splits if_splits)
  have nodes: "\<forall>p i. lookup wa p = Some (Regular i) \<longrightarrow> i < w_next wa" using tidy_nodes [OF tidy] by (auto simp: look nxt intro: less_SucI)
  have stg: "lookup wa (temp_path STAGING_PREFIX (butlast target) (w_next wa)) = None"
    using fresh_staging [OF tidy] t(1) temp_path_name [of STAGING_PREFIX] look by metis
  have intents: "\<forall>it \<in> set (db_intents (w_db wa)). ii_user_id it = user_id \<longrightarrow> ii_root_folder_id it = rq_root_folder_id req_b
        \<longrightarrow> ii_target_relative it \<noteq> rq_target_relative req_b" using free_b db by (simp add: free_place_def)
  have jb: "jb < w_next wa" using node_bound [OF tidy sb] nxt by simp
  note pb = published_facts [OF nodes jb t, of ?tb user_id req_b]
  let ?wb = "published ?tb user_id req_b target jb wa"
  let ?new = "new_item user_id req_b (int (length (w_contents wa jb)))"
  have "find (same_place ?new) (db_items (w_db ?wb)) = Some (?row\<lparr>li_id := db_next_item (w_db w)\<rparr>)"
    using free same unfolding pb(6) db(1)
    by (subst find_none) (auto simp: free_place_def same_place_def new_item_def item_at_def)
  note conflict = run_create_item_conflict [OF this, of no_faults]
  have "run (stage_and_finalize no_faults ?tb user_id req_b target) wa = (Inl (ImportDb ItemConstraint), ?wb)"
    unfolding run_stage_and_finalize [OF copy src nodes stg intents] using conflict works by (simp add: new_item_def)
  moreover have "w_contents ?wb (w_next wa) = w_contents w jb" using pb(3) node_bound [OF tidy sb] by (simp add: cont)
  moreover have "run (import_file_locked env no_faults user_id req_a) w = (Inr (FileImported (db_next_item (w_db w)) (rq_target_relative req_a)), wa)"
    unfolding wa_def by (rule run_import [OF a free tidy])
  ultimately show ?thesis using import_start [OF b free_b] pb(1) [of target] pb(6) db(1) by auto
qed

end
