(* ===== verification/ImportCrash.thy ===== *)
theory ImportCrash
  imports ImportRuns
begin

text \<open>
  An import is all or nothing: whatever fails in it and wherever it is cut off by a crash, the recovery leaves the
  file with its row or neither.
\<close>

section \<open>The stages of an import\<close>

text \<open>One import: its user and request, the place it goes to, the world it starts in and the source's inode.\<close>

record import_case =
  ic_user :: int
  ic_req :: import_file_request
  ic_target :: fpath
  ic_world :: world
  ic_inode :: nat

definition ic_bytes :: "import_case \<Rightarrow> bytes" where
  "ic_bytes x = w_contents (ic_world x) (ic_inode x)"

definition ic_new :: "import_case \<Rightarrow> nat" where
  "ic_new x = w_next (ic_world x)"

definition ic_staging :: "import_case \<Rightarrow> fpath" where
  "ic_staging x = temp_path STAGING_PREFIX (butlast (ic_target x)) (ic_new x)"

definition ic_intent :: "import_case \<Rightarrow> import_intent_state \<Rightarrow> import_intent" where
  "ic_intent x st = (new_intent (ic_user x) (ic_req x) (ic_staging x) (int (length (ic_bytes x))))
     \<lparr>ii_id := db_next_intent (w_db (ic_world x)), ii_state := st\<rparr>"

definition ic_row :: "import_case \<Rightarrow> library_item" where
  "ic_row x = (new_item (ic_user x) (ic_req x) (int (length (ic_bytes x))))\<lparr>li_id := db_next_item (w_db (ic_world x))\<rparr>"

text \<open>The tables: the rows and intents from before, with the new ones.\<close>

definition tables :: "import_case \<Rightarrow> library_item list \<Rightarrow> import_intent list \<Rightarrow> world \<Rightarrow> bool" where
  "tables x rows its w \<longleftrightarrow> db_items (w_db w) = db_items (w_db (ic_world x)) @ rows \<and> db_intents (w_db w) = its
     \<and> db_next_item (w_db w) = db_next_item (w_db (ic_world x)) + int (length rows)"

definition place :: "import_case \<Rightarrow> entry option \<Rightarrow> entry option \<Rightarrow> world \<Rightarrow> bool" where
  "place x vis dur w \<longleftrightarrow> lookup w (ic_target x) = vis \<and> w_durable w (ic_target x) = dur"

definition complete :: "import_case \<Rightarrow> world \<Rightarrow> bool" where
  "complete x w \<longleftrightarrow> w_synced w (ic_new x) \<and> w_contents w (ic_new x) = ic_bytes x"

definition the_file :: "import_case \<Rightarrow> entry option" where
  "the_file x = Some (Regular (ic_new x))"

definition untouched :: "import_case \<Rightarrow> world \<Rightarrow> bool" where
  "untouched x w \<longleftrightarrow> tables x [] [] w \<and> place x None None w"

definition pending :: "import_case \<Rightarrow> world \<Rightarrow> bool" where
  "pending x w \<longleftrightarrow> tables x [] [ic_intent x Staging] w \<and> place x None None w"

definition renamed :: "import_case \<Rightarrow> world \<Rightarrow> bool" where
  "renamed x w \<longleftrightarrow> tables x [] [ic_intent x Staging] w \<and> place x (the_file x) None w \<and> complete x w"

definition durable :: "import_case \<Rightarrow> world \<Rightarrow> bool" where
  "durable x w \<longleftrightarrow> (\<exists>st. tables x [] [ic_intent x st] w) \<and> place x (the_file x) (the_file x) w \<and> complete x w"

definition filed :: "import_case \<Rightarrow> world \<Rightarrow> bool" where
  "filed x w \<longleftrightarrow> (tables x [ic_row x] [] w \<or> (\<exists>st. tables x [ic_row x] [ic_intent x st] w))
     \<and> place x (the_file x) (the_file x) w \<and> complete x w"

definition cut_off :: "import_case \<Rightarrow> world \<Rightarrow> bool" where
  "cut_off x w \<longleftrightarrow> untouched x w \<or> pending x w \<or> renamed x w \<or> durable x w \<or> filed x w"

lemmas stage_defs = untouched_def pending_def renamed_def durable_def filed_def
lemmas cut_offI = cut_off_def [THEN iffD2]

definition import_case_ok :: "library_env \<Rightarrow> import_case \<Rightarrow> bool" where
  "import_case_ok env x \<longleftrightarrow> can_import env (ic_user x) (ic_req x) (ic_target x) (ic_inode x) (ic_world x)
     \<and> free_place (ic_user x) (ic_req x) (w_db (ic_world x)) \<and> tidy (ic_world x)
     \<and> db_intents (w_db (ic_world x)) = [] \<and> w_durable (ic_world x) (ic_target x) = None"

lemma import_case_facts:
  assumes "import_case_ok env x"
  shows "ic_inode x < ic_new x" and "\<not> temp_name (ic_target x)" and "ic_target x \<noteq> []" and "ic_staging x \<noteq> ic_target x"
    and "rq_materialization (ic_req x) = Copy" and "node (ic_world x) (rq_source (ic_req x)) = Some (ic_inode x)"
    and "ids_ok (w_db (ic_world x))" and "untouched x (ic_world x)"
proof -
  have c: "can_import env (ic_user x) (ic_req x) (ic_target x) (ic_inode x) (ic_world x)" and t: "tidy (ic_world x)"
    using assms by (auto simp: import_case_ok_def)
  show "\<not> temp_name (ic_target x)" "ic_target x \<noteq> []" "rq_materialization (ic_req x) = Copy"
    "node (ic_world x) (rq_source (ic_req x)) = Some (ic_inode x)" using c by (auto simp: can_import_def)
  then show "ic_inode x < ic_new x" using node_bound [OF t] by (simp add: ic_new_def)
  show "ic_staging x \<noteq> ic_target x"
    using \<open>\<not> temp_name (ic_target x)\<close> temp_path_name [of STAGING_PREFIX] unfolding ic_staging_def by metis
  show "ids_ok (w_db (ic_world x))" using t by (simp add: tidy_def)
  show "untouched x (ic_world x)" using assms c by (simp add: untouched_def tables_def place_def import_case_ok_def can_import_def)
qed

definition staged :: "import_case \<Rightarrow> world \<Rightarrow> bool" where
  "staged x w \<longleftrightarrow> lookup w (ic_staging x) = Some (Regular (ic_new x))"

definition readable :: "import_case \<Rightarrow> world \<Rightarrow> bool" where
  "readable x w \<longleftrightarrow> node w (rq_source (ic_req x)) = Some (ic_inode x) \<and> w_contents w (ic_inode x) = ic_bytes x"

lemma safe_drop:
  assumes "ic_staging x \<noteq> ic_target x" and "pending x w \<or> untouched x w"
  shows "safe (cut_off x) (drop_temp (ic_staging x) r) (\<lambda>r' w'. r' = r \<and> (pending x w \<longrightarrow> pending x w')) w"
proof -
  have "pending x w \<Longrightarrow> pending x (remove_file (ic_staging x) w)" "untouched x w \<Longrightarrow> untouched x (remove_file (ic_staging x) w)"
    using assms(1) by (auto simp: stage_defs tables_def place_def lookup_remove)
  then show ?thesis unfolding drop_temp_def using assms(2)
    by (intro safe_seq [OF safe_tell [where Q = "\<lambda>_ w'. pending x w \<longrightarrow> pending x w'"]]) (auto simp: cut_off_def)
qed

lemma pending_write: "pending x (write_file (ic_new x) c w) = pending x w" "staged x (write_file (ic_new x) c w) = staged x w"
  by (simp_all add: pending_def tables_def place_def staged_def)

lemma safe_copy:
  assumes "ic_inode x \<noteq> ic_new x" and "pending x w" and "staged x w" and "readable x w"
  shows "safe (cut_off x) (copy_bytes f s (ic_inode x) (ic_new x))
    (\<lambda>r w. pending x w \<and> staged x w \<and> (\<forall>m. r = Some m \<longrightarrow> m = int (length (ic_bytes x)) \<and> w_contents w (ic_new x) = ic_bytes x)) w"
  unfolding copy_bytes_def
  by (rule safe_seq [OF safe_tell [where Q = "\<lambda>_ w. pending x w \<and> staged x w \<and> readable x w"]])
     (use assms in \<open>auto intro!: safe_atomic simp: cut_off_def pending_write readable_def\<close>)

lemma safe_stage_copy:
  assumes x: "import_case_ok env x" and w: "pending x w" "staged x w" "readable x w"
  shows "safe (cut_off x) (stage_copy f (rq_source (ic_req x)) (ic_staging x) (ic_new x))
    (\<lambda>r w. pending x w \<and> (\<forall>m. r = Inr m \<longrightarrow> m = int (length (ic_bytes x)) \<and> staged x w \<and> complete x w)) w"
proof -
  let ?Q = "\<lambda>(r :: string + int) w. pending x w \<and> (\<forall>m. r = Inr m \<longrightarrow> m = int (length (ic_bytes x)) \<and> staged x w \<and> complete x w)"
  note xf = import_case_facts [OF x]
  have drop: "safe (cut_off x) (drop_temp (ic_staging x) (Inl e)) ?Q w'" if "pending x w'" for w' e
    by (rule safe_weaken [OF safe_drop]) (use xf that in auto)
  have fin: "safe (cut_off x) (and_then (tell (sync_file (ic_new x)))
      (\<lambda>_. if fails f CopyKeep then drop_temp (ic_staging x) (Inl e) else Ret (Inr (int (length (ic_bytes x)))))) ?Q w'"
    if "pending x w'" "staged x w'" "w_contents w' (ic_new x) = ic_bytes x" for w' e
    by (rule safe_seq [OF safe_tell [where Q = "\<lambda>_ w. pending x w \<and> staged x w \<and> complete x w"]])
       (use that drop in \<open>auto simp: cut_off_def pending_def tables_def place_def staged_def complete_def\<close>)
  show ?thesis unfolding stage_copy_def
  proof (rule safe_seq [OF safe_ask [where Q = "\<lambda>r w'. w' = w \<and> (r = None \<or> r = Some (ic_inode x))"]], goal_cases)
    case (3 src w')
    have cp: "safe (cut_off x) (and_then (copy_bytes f CopyData (ic_inode x) (ic_new x)) (\<lambda>copied.
           case copied of
             None \<Rightarrow> drop_temp (ic_staging x) (Inl e1)
           | Some n \<Rightarrow>
               if fails f CopySync then drop_temp (ic_staging x) (Inl e2)
               else
                 and_then (tell (sync_file (ic_new x))) (\<lambda>_.
                 if fails f CopyKeep then drop_temp (ic_staging x) (Inl e3) else Ret (Inr n)))) ?Q w" for e1 e2 e3
      by (rule safe_seq [OF safe_copy]) (use xf w in \<open>auto split: option.split split del: if_split intro!: safe_if drop fin\<close>)
    show ?case using 3 cp drop w by auto
  qed (use w in \<open>auto simp: readable_def cut_off_def\<close>)
qed

lemma delete_tables: "tables x rows [ic_intent x st] w \<Longrightarrow>
  tables x rows [] (commit (\<lambda>d. d\<lparr>db_intents := filter (\<lambda>it. ii_id it \<noteq> db_next_intent (w_db (ic_world x))) (db_intents d)\<rparr>) w)"
  by (simp add: tables_def ic_intent_def)

lemma safe_roll_back:
  assumes x: "import_case_ok env x" and w: "pending x w"
  shows "safe (cut_off x) (roll_back f (ic_staging x) (db_next_intent (w_db (ic_world x))) e) (\<lambda>_ _. True) w"
proof -
  have rm: "safe (cut_off x) (if fails f RemoveStaging then Ret () else tell (remove_file (ic_staging x))) (\<lambda>_. pending x) w"
    using w import_case_facts(4) [OF x] by (auto intro!: safe_tell simp: cut_off_def pending_def tables_def place_def lookup_remove)
  have del: "safe (cut_off x) (delete_import_intent f (db_next_intent (w_db (ic_world x)))) (\<lambda>_ _. True) w'" if "pending x w'" for w'
  proof -
    have "untouched x (commit (\<lambda>d. d\<lparr>db_intents := filter (\<lambda>it. ii_id it \<noteq> db_next_intent (w_db (ic_world x))) (db_intents d)\<rparr>) w')"
      using that delete_tables by (auto simp: pending_def untouched_def place_def)
    then show ?thesis unfolding delete_import_intent_def
      by (auto split: option.split intro!: safe_seq [OF safe_tell] simp: cut_off_def)
  qed
  show ?thesis unfolding roll_back_def by (rule safe_seq [OF rm]) (auto intro!: safe_seq [OF del])
qed

lemma no_place_taken:
  assumes x: "import_case_ok env x" and "tables x [] its w"
  shows "find (same_place (new_item (ic_user x) (ic_req x) n)) (db_items (w_db w)) = None"
    and "\<not> (\<exists>li \<in> set (db_items (w_db w)). same_place (new_item (ic_user x) (ic_req x) n) li)"
  using assms by (auto intro!: find_NoneI simp: import_case_ok_def free_place_def same_place_def new_item_def tables_def)

lemma safe_create_row:
  assumes x: "import_case_ok env x" and w: "durable x w"
  shows "safe (cut_off x) (create_library_item f (new_item (ic_user x) (ic_req x) (int (length (ic_bytes x)))))
    (\<lambda>r w. \<not> isl r \<longrightarrow> filed x w) w"
proof -
  let ?req = "new_item (ic_user x) (ic_req x) (int (length (ic_bytes x)))"
  obtain st where t: "tables x [] [ic_intent x st] w" using w by (auto simp: durable_def)
  note free = no_place_taken [OF x t, of "int (length (ic_bytes x))"]
  have filed: "filed x (commit (insert_item ?req) w)"
    using w t by (auto simp: durable_def filed_def tables_def insert_item_def ic_row_def place_def complete_def)
  have get: "safe (cut_off x) (get_library_item f u item_id) (\<lambda>r w. \<not> isl r \<longrightarrow> filed x w) w'" if "filed x w'" for u item_id w'
    unfolding get_library_item_def by (rule safe_ask) (use that in \<open>auto simp: cut_off_def\<close>)
  have ins: "safe (cut_off x) (and_then (atomic (\<lambda>w. if \<exists>li \<in> set (db_items (w_db w)). same_place ?req li then (None, w)
        else (Some (db_next_item (w_db w)), commit (insert_item ?req) w))) (\<lambda>inserted.
          case inserted of None \<Rightarrow> Ret (Inl ItemConstraint) | Some item_id \<Rightarrow> get_library_item f (li_user_id ?req) item_id))
      (\<lambda>r w. \<not> isl r \<longrightarrow> filed x w) w"
    by (rule safe_seq [OF safe_atomic [where Q = "\<lambda>_. filed x"]])
       (use free(2) filed in \<open>auto simp: cut_off_def split: option.split intro!: get\<close>)
  show ?thesis unfolding create_library_item_def query_def
  proof (rule safe_seq [OF safe_ask [where Q = "\<lambda>r w'. w' = w \<and> (isl r \<or> r = Inr None)"]], goal_cases)
    case (3 r w')
    then show ?case using ins by (cases r) (auto split: option.split)
  qed (use free(1) w in \<open>auto simp: cut_off_def split: option.split\<close>)
qed

lemma safe_delete_row:
  assumes "filed x w"
  shows "safe (cut_off x) (delete_import_intent f (db_next_intent (w_db (ic_world x)))) (\<lambda>_. filed x) w"
proof -
  let ?g = "\<lambda>d. d\<lparr>db_intents := filter (\<lambda>it. ii_id it \<noteq> db_next_intent (w_db (ic_world x))) (db_intents d)\<rparr>"
  have "tables x [ic_row x] [] (commit ?g w)" using assms by (auto simp: filed_def tables_def ic_intent_def)
  then have "filed x (commit ?g w)" using assms by (auto simp: filed_def place_def complete_def)
  then show ?thesis unfolding delete_import_intent_def using assms
    by (auto split: option.split intro!: safe_seq [OF safe_tell [where Q = "\<lambda>_. filed x"]] simp: cut_off_def)
qed

lemma safe_finalize:
  assumes x: "import_case_ok env x" and w: "pending x w" "staged x w" "complete x w"
  shows "safe (cut_off x) (finalize_import f (ic_user x) (ic_req x) (ic_target x) (ic_staging x) (db_next_intent (w_db (ic_world x)))
    (int (length (ic_bytes x)))) (\<lambda>_ _. True) w"
proof -
  note xf = import_case_facts [OF x]
  let ?k = "db_next_intent (w_db (ic_world x))"
  have absent: "lookup w (ic_target x) \<noteq> Some (Regular (ic_new x))" using w(1) by (simp add: pending_def place_def)
  have "renamed x (snd (rename_file (ic_staging x) (ic_target x) w))"
    using w xf(4) lookup_rename [of w "ic_staging x" "Regular (ic_new x)" "ic_target x"] absent
    by (auto simp: renamed_def pending_def staged_def tables_def place_def complete_def the_file_def)
       (auto simp: rename_file_def split: option.split)
  moreover have "fst (rename_file (ic_staging x) (ic_target x) w)" using w(2) by (simp add: rename_file_def staged_def)
  ultimately have ren: "safe (cut_off x) (if fails f RenameFile then Ret False else atomic (rename_file (ic_staging x) (ic_target x)))
      (\<lambda>moved w. if moved then renamed x w else pending x w) w"
    using w(1) by (auto intro!: safe_atomic simp: cut_off_def)
  have sync: "safe (cut_off x) (fsync_dir f DirSync (butlast (ic_target x))) (\<lambda>r w. \<not> isl r \<longrightarrow> tables x [] [ic_intent x Staging] w \<and> durable x w) w'"
    if "renamed x w'" for w'
  proof -
    have "tables x [] [ic_intent x Staging] (sync_dir (butlast (ic_target x)) w') \<and> durable x (sync_dir (butlast (ic_target x)) w')"
      using that xf(3) by (auto simp: renamed_def durable_def tables_def place_def complete_def the_file_def)
    then show ?thesis unfolding fsync_dir_def
      by (auto intro!: safe_seq [OF safe_tell [where Q = "\<lambda>_ w. tables x [] [ic_intent x Staging] w \<and> durable x w"]] simp: cut_off_def)
  qed
  have mark: "safe (cut_off x) (mark_import_intent_renamed f ?k) (\<lambda>_. durable x) w'"
    if "tables x [] [ic_intent x Staging] w' \<and> durable x w'" for w'
  proof -
    let ?g = "\<lambda>d. d\<lparr>db_intents := map (\<lambda>it. if ii_id it = ?k then it\<lparr>ii_state := Renamed\<rparr> else it) (db_intents d)\<rparr>"
    have "tables x [] [ic_intent x Renamed] (commit ?g w')" using that by (simp add: tables_def ic_intent_def)
    then have "durable x (commit ?g w')" using that by (auto simp: durable_def place_def complete_def)
    then show ?thesis unfolding mark_import_intent_renamed_def using that
      by (auto split: option.split intro!: safe_seq [OF safe_tell [where Q = "\<lambda>_. durable x"]] simp: cut_off_def)
  qed
  show ?thesis unfolding finalize_import_def
  proof (rule safe_seq [OF ren], goal_cases)
    case (1 moved w')
    then show ?case
      by (cases moved) (auto intro!: safe_sum safe_seq [OF sync] safe_seq [OF mark] safe_seq [OF safe_create_row [OF x]] safe_seq [OF safe_delete_row]
        safe_roll_back [OF x])
  qed
qed

lemma safe_import:
  assumes x: "import_case_ok env x" and "\<not> fails f SourceStat"
  shows "safe (cut_off x) (stage_and_finalize f t (ic_user x) (ic_req x) (ic_target x)) (\<lambda>_ _. True) (ic_world x)"
proof -
  note xf = import_case_facts [OF x]
  let ?w0 = "create_dir_all (butlast (ic_target x)) (ic_world x)"
  let ?w1 = "snd (create_temp t STAGING_PREFIX (butlast (ic_target x)) ?w0)" and ?n = "int (length (ic_bytes x))"
  let ?intent = "new_intent (ic_user x) (ic_req x) (ic_staging x) ?n"
  have tidy: "tidy (ic_world x)" using x by (simp add: import_case_ok_def)
  have w1: "untouched x ?w1" "staged x ?w1"
    using xf(4,8) by (simp_all add: untouched_def tables_def place_def staged_def ic_staging_def ic_new_def)
  have "node ?w1 (rq_source (ic_req x)) = Some (ic_inode x)"
    using node_create_temp [of ?w0 STAGING_PREFIX "butlast (ic_target x)"] tidy_nodes [OF tidy] fresh_staging [OF tidy] xf(6) by simp
  then have r1: "readable x ?w1" using xf(1) by (simp add: readable_def ic_bytes_def ic_new_def)
  let ?ins = "\<lambda>w. if \<exists>it \<in> set (db_intents (w_db w)). same_target ?intent it then (None, w)
      else (Some (db_next_intent (w_db w)), commit (insert_intent ?intent) w)"
  have empty: "db_intents (w_db ?w1) = []" using x by (simp add: import_case_ok_def)
  have w2: "pending x (commit (insert_intent ?intent) ?w1) \<and> staged x (commit (insert_intent ?intent) ?w1) \<and> readable x (commit (insert_intent ?intent) ?w1)"
    using w1 r1 empty by (auto simp: untouched_def pending_def tables_def place_def staged_def readable_def insert_intent_def ic_intent_def new_intent_def)
  let ?I = "\<lambda>r w. (\<forall>m. r = Inr m \<longrightarrow> m = db_next_intent (w_db (ic_world x)) \<and> pending x w \<and> staged x w \<and> readable x w) \<and> (pending x w \<or> untouched x w)"
  have intent: "safe (cut_off x) (create_import_intent f ?intent) ?I ?w1"
  proof (cases "fl f IntentInsert")
    case None
    have "safe (cut_off x) (atomic ?ins) (\<lambda>r w. r = Some (db_next_intent (w_db (ic_world x))) \<and> pending x w \<and> staged x w \<and> readable x w) ?w1"
      by (rule safe_atomic) (use empty w2 in \<open>auto simp: cut_off_def\<close>)
    then show ?thesis unfolding create_import_intent_def None option.case
      by (rule safe_seq) (auto split: option.split if_splits intro!: safe_ask simp: cut_off_def)
  qed (use w1 in \<open>simp add: create_import_intent_def\<close>)
  have rest: "safe (cut_off x) (case intent of
          Inl ItemConstraint \<Rightarrow> drop_temp (ic_staging x) (Inl (PathCollision (rq_target_relative (ic_req x))))
        | Inl e \<Rightarrow> drop_temp (ic_staging x) (Inl (ImportDb e))
        | Inr intent_id \<Rightarrow>
            and_then (if rq_materialization (ic_req x) = Copy then stage_copy f (rq_source (ic_req x)) (ic_staging x) (ic_new x)
                      else stage_link f t (rq_source (ic_req x)) (ic_staging x)) (\<lambda>materialized.
            case materialized of
              Inl e \<Rightarrow> roll_back f (ic_staging x) intent_id (''staging write failed: '' @ e)
            | Inr n \<Rightarrow> finalize_import f (ic_user x) (ic_req x) (ic_target x) (ic_staging x) intent_id n)) (\<lambda>_ _. True) w"
    if "?I intent w" for intent w
    using that xf(5) safe_weaken [OF safe_drop [OF xf(4), of w], where Q = "\<lambda>_ _. True"]
    by (cases intent) (auto split: item_error.split intro!: safe_sum safe_seq [OF safe_stage_copy [OF x]] safe_roll_back [OF x] safe_finalize [OF x])
  have temp: "safe (cut_off x) (atomic (create_temp t STAGING_PREFIX (butlast (ic_target x)))) (\<lambda>a w. a = (ic_staging x, ic_new x) \<and> w = ?w1) ?w0"
    by (rule safe_atomic) (use w1 in \<open>simp_all add: cut_off_def create_temp_def Let_def ic_staging_def ic_new_def\<close>)
  have size: "file_len ?w0 (rq_source (ic_req x)) = Some ?n" using xf(6) by (simp add: file_len_def ic_bytes_def)
  have dirs: "untouched x (create_dir_all d (ic_world x))" for d using xf(8) by (simp add: untouched_def tables_def place_def)
  have made: "safe (cut_off x) (make_dirs f MkDir (butlast (ic_target x))) (\<lambda>made w. made \<longrightarrow> w = ?w0) (ic_world x)"
    unfolding make_dirs_def
    by (intro safe_if safe_seq [OF safe_tell [where Q = "\<lambda>_ w. fails f MkDir \<or> w = ?w0"]]) (auto simp: cut_off_def dirs)
  show ?thesis unfolding stage_and_finalize_def
  proof (rule safe_seq [OF made], intro safe_if safe_seq [OF safe_ask [where Q = "\<lambda>m w. m = ?n \<and> w = ?w0"]], goal_cases)
    case (5 made w0 m w)
    then show ?case by (auto intro!: safe_seq [OF temp] safe_seq [OF intent rest] simp del: append.simps)
  qed (use size assms(2) dirs in \<open>auto simp: cut_off_def\<close>)
qed

lemma safe_import_file:
  assumes x: "import_case_ok env x" and "\<not> fails f SourceStat"
  shows "safe (cut_off x) (import_file_locked env f (ic_user x) (ic_req x)) (\<lambda>_ _. True) (ic_world x)"
proof (cases "get_root_folder env f (rq_root_folder_id (ic_req x))")
  case (Inr r)
  let ?t = "(ic_user x, rq_work_id (ic_req x))"
  note xf = import_case_facts [OF x]
  have "map_of (root_folders env) (rq_root_folder_id (ic_req x)) = Some r" using Inr by (auto simp: get_root_folder_def split: option.splits)
  then have r: "path_join r (rq_target_relative (ic_req x)) = ic_target x" "validate_target_path (ic_target x) (components r)"
    using x by (auto simp: import_case_ok_def can_import_def)
  have here: "cut_off x (ic_world x)" using xf(8) by (simp add: cut_off_def)
  have free: "safe (cut_off x) (path_is_free f (ic_user x) (ic_req x)) (\<lambda>_ w. w = ic_world x) (ic_world x)"
    unfolding path_is_free_def find_library_item_by_path_def query_def
    by (rule safe_seq [OF safe_ask [where Q = "\<lambda>_ w. w = ic_world x"]]) (use here in simp_all)
  have new: "safe (cut_off x) (new_target f ?t (ic_user x) (ic_req x) (ic_target x)) (\<lambda>_ _. True) (ic_world x)"
    unfolding new_target_def using xf(5) safe_import [OF x assms(2)] by (auto intro!: safe_seq [OF free] safe_sum)
  have absent: "node (ic_world x) (ic_target x) = None" using xf(8) by (simp add: untouched_def place_def node_def)
  show ?thesis unfolding import_file_locked_def Inr sum.case Let_def r(1)
    using r(2) new absent here
    by (auto intro!: safe_seq [OF safe_ask [where Q = "\<lambda>ex w. \<not> ex \<and> w = ic_world x"]])
qed (simp add: import_file_locked_def)

section \<open>Crash and recovery\<close>

lemma power_loss_cut_off:
  assumes "cut_off x w" and "power_loss w w'" and "w_db w' = w_db w" and "anchored w (butlast (ic_target x))"
  shows "cut_off x w'"
proof -
  have db: "tables x rows its w' = tables x rows its w" for rows its using assms(3) by (simp add: tables_def)
  have comp: "complete x w \<Longrightarrow> complete x w'" using assms(2) by (simp add: complete_def power_loss_def)
  have pl: "place x v d w \<Longrightarrow> place x v v w' \<or> place x d d w'" for v d
    using power_loss_names(3) [OF assms(2,4)] power_loss_names(2) [OF assms(2)] by (auto simp: place_def)
  consider "untouched x w" | "pending x w" | "renamed x w" | "durable x w" | "filed x w" using assms(1) by (auto simp: cut_off_def)
  then show ?thesis
  proof cases
    case 1
    then have "untouched x w'" using pl [of None None] by (auto simp: untouched_def db)
    then show ?thesis by (simp add: cut_off_def)
  next
    case 2
    then have "pending x w'" using pl [of None None] by (auto simp: pending_def db)
    then show ?thesis by (simp add: cut_off_def)
  next
    case 3
    then have "durable x w' \<or> pending x w'" using pl [of "the_file x" None] comp by (auto simp: renamed_def durable_def pending_def db)
    then show ?thesis by (auto simp: cut_off_def)
  next
    case 4
    then have "durable x w'" using pl [of "the_file x" "the_file x"] comp by (auto simp: durable_def db)
    then show ?thesis by (simp add: cut_off_def)
  next
    case 5
    then have "filed x w'" using pl [of "the_file x" "the_file x"] comp by (auto simp: filed_def db)
    then show ?thesis by (simp add: cut_off_def)
  qed
qed

text \<open>What the sweep leaves alone.\<close>

lemma sweep_leaves:
  assumes "\<not> temp_name p"
  shows "w_db (snd (run (each (sweep_dir_for_staging renv refs) roots report) w)) = w_db w
    \<and> lookup (snd (run (each (sweep_dir_for_staging renv refs) roots report) w)) p = lookup w p
    \<and> w_contents (snd (run (each (sweep_dir_for_staging renv refs) roots report) w)) = w_contents w
    \<and> w_durable (snd (run (each (sweep_dir_for_staging renv refs) roots report) w)) = w_durable w"
proof -
  define I where "I w' \<longleftrightarrow> w_db w' = w_db w \<and> lookup w' p = lookup w p \<and> w_contents w' = w_contents w \<and> w_durable w' = w_durable w" for w'
  have rm: "I w' \<Longrightarrow> temp_name q \<Longrightarrow> I (remove_file q w')" for w' q
    using assms by (auto simp: I_def lookup_remove) (simp add: remove_file_def)
  have "safe I (sweep_dir_for_staging renv refs root r) (\<lambda>_. I) w'" if "I w'" for root r w'
    unfolding sweep_dir_for_staging_def
  proof (rule safe_seq [OF safe_ask [where Q = "\<lambda>found w'. I w' \<and> (\<forall>q \<in> set found. temp_name q)"]], goal_cases)
    case (3 found w')
    have one: "safe I (if rec_removable renv q then and_then (tell (remove_file q)) (\<lambda>_. Ret (r\<lparr>swept := swept r + 1\<rparr>)) else Ret r) (\<lambda>_. I) w''"
      if "q \<in> set found" "I w''" for q r w''
      using that rm 3 by (auto intro!: safe_seq [OF safe_tell [where Q = "\<lambda>_. I"]])
    show ?case unfolding safe_def
    proof (rule honours_each)
      show "honours I (=) (\<lambda>_ _. True) (if rec_removable renv q then and_then (tell (remove_file q)) (\<lambda>_. Ret (r\<lparr>swept := swept r + 1\<rparr>)) else Ret r) (\<lambda>_. I) w''"
        if "q \<in> set found" "I w''" for q r w'' using one [OF that] unfolding safe_def .
    qed (use 3 in simp)
  qed (use that in \<open>auto dest: sweepable_temp\<close>)
  then have "safe I (each (sweep_dir_for_staging renv refs) roots report) (\<lambda>_. I) w"
    unfolding safe_def by (intro honours_each) (auto simp: I_def)
  then have "I (snd (run (each (sweep_dir_for_staging renv refs) roots report) w))"
    unfolding safe_def using honours_run [where I = I] by (auto simp: I_def)
  then show ?thesis by (simp add: I_def)
qed

text \<open>The two ends: nothing happened, or the file and its row are there.\<close>

definition all_there :: "import_case \<Rightarrow> world \<Rightarrow> bool" where
  "all_there x w \<longleftrightarrow> tables x [ic_row x] [] w \<and> lookup w (ic_target x) = the_file x \<and> w_contents w (ic_new x) = ic_bytes x"

definition nothing_there :: "import_case \<Rightarrow> world \<Rightarrow> bool" where
  "nothing_there x w \<longleftrightarrow> tables x [] [] w \<and> lookup w (ic_target x) = None"

lemma intent_item_row: "intent_item (ic_intent x st) (int (length (ic_bytes x))) = new_item (ic_user x) (ic_req x) (int (length (ic_bytes x)))"
  by (simp add: intent_item_def ic_intent_def new_intent_def new_item_def)

lemma reconcile_target:
  assumes "import_case_ok env x"
  shows "\<exists>r. get_root_folder env no_faults (ii_root_folder_id (ic_intent x st)) = Inr r
    \<and> path_join r (ii_target_relative (ic_intent x st)) = ic_target x"
  using assms by (auto simp: import_case_ok_def can_import_def get_root_folder_def ic_intent_def new_intent_def)

lemma run_clear: "run (clear_intent no_faults (ic_intent x st) counted report) w =
  (counted report, commit (\<lambda>d. d\<lparr>db_intents := filter (\<lambda>it. ii_id it \<noteq> db_next_intent (w_db (ic_world x))) (db_intents d)\<rparr>) w)"
  by (simp add: clear_intent_def run_delete ic_intent_def)

lemma reconcile_absent:
  assumes x: "import_case_ok env x" and w: "tables x [] [ic_intent x Staging] w" "lookup w (ic_target x) = None"
  shows "nothing_there x (snd (run (reconcile_one_intent env no_faults (ic_intent x Staging) report) w))"
proof -
  obtain r where r: "get_root_folder env no_faults (ii_root_folder_id (ic_intent x Staging)) = Inr r"
    "path_join r (ii_target_relative (ic_intent x Staging)) = ic_target x" using reconcile_target [OF x] by blast
  have "node w (ic_target x) = None" "ii_state (ic_intent x Staging) = Staging" using w(2) by (simp_all add: node_def ic_intent_def)
  then have "snd (run (reconcile_one_intent env no_faults (ic_intent x Staging) report) w) =
      commit (\<lambda>d. d\<lparr>db_intents := filter (\<lambda>it. ii_id it \<noteq> db_next_intent (w_db (ic_world x))) (db_intents d)\<rparr>)
        (remove_file (ii_staging_path (ic_intent x Staging)) w)"
    by (simp add: reconcile_one_intent_def r run_clear Let_def)
  then show ?thesis using w by (auto simp: nothing_there_def tables_def ic_intent_def lookup_remove)
qed

lemma run_create_item_again:
  assumes rows: "db_items (w_db w) = items @ [row]" and ids: "\<forall>li \<in> set items. li_id li < li_id row"
    and first: "\<forall>li \<in> set items. \<not> same_place req li" and row: "row = req\<lparr>li_id := li_id row\<rparr>"
  shows "run (create_library_item no_faults req) w = (Inr row, commit (update_item req (li_id row)) w)"
proof -
  have place: "same_place req row" by (subst row) (simp add: same_place_def item_at_def)
  have work: "li_work_id row = li_work_id req" by (subst row) simp
  have user: "li_user_id row = li_user_id req" by (subst row) simp
  have same: "row\<lparr>li_media_type := li_media_type req, li_file_size := li_file_size req\<rparr> = row" by (subst (2) row, subst row) simp
  have upd: "db_items (update_item req (li_id row) (w_db w)) = items @ [row]"
    using ids same rows by (auto simp: update_item_def intro!: map_idI)
  have "find (\<lambda>li. li_id li = li_id row \<and> li_user_id li = li_user_id req) (items @ [row]) = Some row"
    using ids user by (subst find_none) auto
  moreover have "find (same_place req) (items @ [row]) = Some row" using first place by (subst find_none) auto
  ultimately show ?thesis using work by (simp add: create_library_item_def query_def rows get_library_item_def upd)
qed

lemma reconcile_present:
  assumes x: "import_case_ok env x" and t: "tables x [] [ic_intent x st] w \<or> tables x [ic_row x] [ic_intent x st] w"
    and p: "lookup w (ic_target x) = the_file x" "complete x w"
  shows "all_there x (snd (run (reconcile_one_intent env no_faults (ic_intent x st) report) w))
    \<and> w_durable (snd (run (reconcile_one_intent env no_faults (ic_intent x st) report) w)) = w_durable w"
proof -
  let ?n = "int (length (ic_bytes x))"
  let ?req = "new_item (ic_user x) (ic_req x) ?n"
  let ?del = "commit (\<lambda>d. d\<lparr>db_intents := filter (\<lambda>it. ii_id it \<noteq> db_next_intent (w_db (ic_world x))) (db_intents d)\<rparr>)"
  obtain r where r: "get_root_folder env no_faults (ii_root_folder_id (ic_intent x st)) = Inr r"
    "path_join r (ii_target_relative (ic_intent x st)) = ic_target x" using reconcile_target [OF x] by blast
  have n: "node w (ic_target x) = Some (ic_new x)" using p(1) by (simp add: node_def the_file_def)
  have len: "file_len w (ic_target x) = Some ?n" using n p(2) by (simp add: file_len_def complete_def)
  have exp: "ii_expected_size (ic_intent x st) = ?n" by (simp add: ic_intent_def new_intent_def)
  have run: "snd (run (reconcile_one_intent env no_faults (ic_intent x st) report) w) = ?del w'"
    if "run (create_library_item no_faults ?req) w = (Inr li, w')" for li w'
    using that by (simp add: reconcile_one_intent_def r n len exp intent_item_row run_clear Let_def)
  have ids: "\<forall>li \<in> set (db_items (w_db (ic_world x))). li_id li < db_next_item (w_db (ic_world x))"
    using import_case_facts(7) [OF x] by (simp add: ids_ok_def)
  have free: "\<forall>li \<in> set (db_items (w_db (ic_world x))). \<not> same_place ?req li"
    using x by (auto simp: import_case_ok_def free_place_def same_place_def new_item_def)
  from t show ?thesis
  proof
    assume t: "tables x [] [ic_intent x st] w"
    have "run (create_library_item no_faults ?req) w = (Inr (?req\<lparr>li_id := db_next_item (w_db w)\<rparr>), commit (insert_item ?req) w)"
      using t ids free by (intro run_create_item) (auto simp: tables_def)
    from run [OF this] show ?thesis using t p
      by (simp add: all_there_def tables_def insert_item_def ic_row_def ic_intent_def complete_def)
  next
    assume t: "tables x [ic_row x] [ic_intent x st] w"
    have row: "ic_row x = ?req\<lparr>li_id := li_id (ic_row x)\<rparr>" "li_id (ic_row x) = db_next_item (w_db (ic_world x))" by (simp_all add: ic_row_def)
    have "run (create_library_item no_faults ?req) w = (Inr (ic_row x), commit (update_item ?req (li_id (ic_row x))) w)"
      using t ids free row by (intro run_create_item_again [where items = "db_items (w_db (ic_world x))"]) (auto simp: tables_def)
    note fin = run [OF this]
    have "map (\<lambda>li. if li_id li = li_id (ic_row x) then li\<lparr>li_media_type := li_media_type ?req, li_file_size := li_file_size ?req\<rparr> else li)
        (db_items (w_db (ic_world x)) @ [ic_row x]) = db_items (w_db (ic_world x)) @ [ic_row x]"
      using ids row(2) by (auto simp: ic_row_def intro!: map_idI)
    then show ?thesis unfolding fin using t p by (simp add: all_there_def tables_def update_item_def ic_intent_def complete_def)
  qed
qed

lemma run_recovery:
  defines "rec renv env \<equiv> \<lambda>it. reconcile_one_intent env (rec_faults renv (ii_id it)) it"
  assumes "\<not> temp_name p"
  shows "\<exists>report. fst (run (recover_import_intents env no_faults renv) w) = Inr report"
    and "w_db (snd (run (recover_import_intents env no_faults renv) w)) = w_db (snd (run (each (rec renv env) (rec_order renv (db_intents (w_db w))) empty_report) w))"
    and "lookup (snd (run (recover_import_intents env no_faults renv) w)) p = lookup (snd (run (each (rec renv env) (rec_order renv (db_intents (w_db w))) empty_report) w)) p"
    and "w_contents (snd (run (recover_import_intents env no_faults renv) w)) = w_contents (snd (run (each (rec renv env) (rec_order renv (db_intents (w_db w))) empty_report) w))"
    and "w_durable (snd (run (recover_import_intents env no_faults renv) w)) = w_durable (snd (run (each (rec renv env) (rec_order renv (db_intents (w_db w))) empty_report) w))"
proof -
  define m where "m = run (each (rec renv env) (rec_order renv (db_intents (w_db w))) empty_report) w"
  let ?sw = "run (each (sweep_dir_for_staging renv (map ii_staging_path (db_intents (w_db (snd m))))) (map snd (root_folders env)) (fst m)) (snd m)"
  have run: "run (recover_import_intents env no_faults renv) w = (Inr (fst ?sw), snd ?sw)"
    unfolding recover_import_intents_def list_import_intents_def query_def
    by (simp add: m_def [unfolded rec_def, symmetric] case_prod_beta)
  note sw = sweep_leaves [OF assms(2), of renv "map ii_staging_path (db_intents (w_db (snd m)))" "map snd (root_folders env)" "fst m" "snd m"]
  show "\<exists>report. fst (run (recover_import_intents env no_faults renv) w) = Inr report" by (simp add: run)
  show "w_db (snd (run (recover_import_intents env no_faults renv) w)) = w_db (snd (run (each (rec renv env) (rec_order renv (db_intents (w_db w))) empty_report) w))"
    "lookup (snd (run (recover_import_intents env no_faults renv) w)) p = lookup (snd (run (each (rec renv env) (rec_order renv (db_intents (w_db w))) empty_report) w)) p"
    "w_contents (snd (run (recover_import_intents env no_faults renv) w)) = w_contents (snd (run (each (rec renv env) (rec_order renv (db_intents (w_db w))) empty_report) w))"
    "w_durable (snd (run (recover_import_intents env no_faults renv) w)) = w_durable (snd (run (each (rec renv env) (rec_order renv (db_intents (w_db w))) empty_report) w))"
    using sw by (simp_all add: run m_def)
qed

lemma order_small:
  assumes "\<forall>xs. mset (rec_order renv xs) = mset xs"
  shows "rec_order renv [] = []" and "rec_order renv [it] = [it]"
  using assms [rule_format, of "[]"] assms [rule_format, of "[it]"] by (auto simp: mset_single_iff)

lemma recovery_settles:
  assumes x: "import_case_ok env x" and w: "cut_off x w"
    and order: "\<forall>xs. mset (rec_order renv xs) = mset xs" and faults: "\<forall>k. rec_faults renv k = no_faults"
  shows "(\<exists>report. fst (run (recover_import_intents env no_faults renv) w) = Inr report)
    \<and> (nothing_there x (snd (run (recover_import_intents env no_faults renv) w)) \<or> all_there x (snd (run (recover_import_intents env no_faults renv) w)))"
proof -
  let ?rec = "\<lambda>it. reconcile_one_intent env (rec_faults renv (ii_id it)) it"
  note ord = order_small [OF order]
  have mid: "nothing_there x (snd (run (each ?rec (rec_order renv (db_intents (w_db w))) empty_report) w))
      \<or> all_there x (snd (run (each ?rec (rec_order renv (db_intents (w_db w))) empty_report) w))"
  proof -
    have one: "snd (run (each ?rec (rec_order renv (db_intents (w_db w))) empty_report) w) = snd (run (reconcile_one_intent env no_faults it empty_report) w)"
      if "db_intents (w_db w) = [it]" for it using that faults by (simp add: ord case_prod_beta)
    have none: "snd (run (each ?rec (rec_order renv (db_intents (w_db w))) empty_report) w) = w"
      if "db_intents (w_db w) = []" using that by (simp add: ord)
    consider "untouched x w" | "pending x w" | "renamed x w" | "durable x w" | "filed x w" using w by (auto simp: cut_off_def)
    then show ?thesis
    proof cases
      case 1
      then show ?thesis using none by (auto simp: nothing_there_def untouched_def tables_def place_def)
    next
      case 2
      then show ?thesis using one reconcile_absent [OF x, of w empty_report] by (auto simp: pending_def tables_def place_def)
    next
      case 3
      then show ?thesis using one reconcile_present [OF x, of Staging w empty_report] by (auto simp: renamed_def tables_def place_def)
    next
      case 4
      then obtain st where "tables x [] [ic_intent x st] w" by (auto simp: durable_def)
      then show ?thesis using 4 one reconcile_present [OF x, of st w empty_report] by (auto simp: durable_def tables_def place_def)
    next
      case 5
      then consider "tables x [ic_row x] [] w" | st where "tables x [ic_row x] [ic_intent x st] w" by (auto simp: filed_def)
      then show ?thesis
      proof cases
        case 1
        then show ?thesis using 5 none by (auto simp: filed_def all_there_def tables_def place_def complete_def)
      next
        case 2
        then show ?thesis using 5 one reconcile_present [OF x, of st w empty_report] by (auto simp: filed_def tables_def place_def)
      qed
    qed
  qed
  show ?thesis using run_recovery(1) [OF import_case_facts(2) [OF x], of env renv w]
      mid [folded run_recovery(2-5) [OF import_case_facts(2) [OF x]]]
    unfolding nothing_there_def all_there_def tables_def run_recovery(2-4) [OF import_case_facts(2) [OF x]] using mid
    by (simp add: nothing_there_def all_there_def tables_def)
qed

text \<open>
  C7 (safety): A copying import to a free place is all or nothing. Whatever calls fail in it, but for the question of the source's
  size, and wherever the process dies, or the power fails while the folder of the target is on the disk and the database keeps its
  commits: a recovery in which no call fails then leaves either the complete file with its row, or no file and no row, and no intent
  in both cases. When the size cannot be read the import goes on with the size nought, which the recovery does not recognise; a
  folder that is not on the disk can be lost with the file in it (\<open>new_folder_can_lose_the_book\<close>).
\<close>

theorem imports_are_all_or_nothing:
  assumes "import_case_ok env x" and "\<not> fails f SourceStat"
    and "left_of (import_file_locked env f (ic_user x) (ic_req x)) (ic_world x) rest w"
    and "w' = w \<or> power_loss w w' \<and> w_db w' = w_db w \<and> anchored w (butlast (ic_target x))"
    and "\<forall>xs. mset (rec_order renv xs) = mset xs" and "\<forall>k. rec_faults renv k = no_faults"
  shows "(\<exists>report. fst (run (recover_import_intents env no_faults renv) w') = Inr report)
    \<and> (nothing_there x (snd (run (recover_import_intents env no_faults renv) w')) \<or> all_there x (snd (run (recover_import_intents env no_faults renv) w')))"
proof -
  have "cut_off x (ic_world x)" using import_case_facts(8) [OF assms(1)] by (simp add: cut_off_def)
  then have "cut_off x w"
    using honours_left [OF assms(3)] safe_import_file [OF assms(1,2)] unfolding safe_def by blast
  then have "cut_off x w'" using assms(4) power_loss_cut_off by blast
  then show ?thesis by (rule recovery_settles [OF assms(1) _ assms(5,6)])
qed

section \<open>A recovered row\<close>

text \<open>An import that has just renamed its file: the name is not on the disk yet.\<close>

lemma import_reaches_renamed:
  assumes x: "import_case_ok env x"
  shows "\<exists>rest w. left_of (import_file_locked env no_faults (ic_user x) (ic_req x)) (ic_world x) rest w \<and> renamed x w"
proof -
  let ?w = "ic_world x" and ?req = "ic_req x" and ?dir = "butlast (ic_target x)" and ?t = "(ic_user x, rq_work_id (ic_req x))"
  let ?intent = "new_intent (ic_user x) ?req (ic_staging x) (int (length (ic_bytes x)))"
  have c: "can_import env (ic_user x) ?req (ic_target x) (ic_inode x) ?w" and f: "free_place (ic_user x) ?req (w_db ?w)" and t: "tidy ?w"
    and i: "db_intents (w_db ?w) = []" and d: "w_durable ?w (ic_target x) = None" using x by (auto simp: import_case_ok_def)
  note facts = import_case_facts [OF x]
  define w0 where "w0 = create_dir_all ?dir ?w"
  have f0: "lookup w0 p = lookup ?w p" "node w0 p = node ?w p" "w_next w0 = w_next ?w" "w_db w0 = w_db ?w" "w_contents w0 = w_contents ?w"
     "w_durable w0 = w_durable ?w" for p by (simp_all add: w0_def)
  define w1 where "w1 = snd (create_temp ?t STAGING_PREFIX ?dir w0)"
  define w2 where "w2 = commit (insert_intent ?intent) w1"
  define w3 where "w3 = sync_file (ic_new x) (write_file (ic_new x) (ic_bytes x) w2)"
  define w4 where "w4 = snd (rename_file (ic_staging x) (ic_target x) w3)"
  have size: "file_len w0 (rq_source ?req) = Some (int (length (ic_bytes x)))" using facts(6) by (simp add: file_len_def ic_bytes_def f0)
  have r1: "run (atomic (create_temp ?t STAGING_PREFIX ?dir)) w0 = ((ic_staging x, ic_new x), w1)"
    unfolding w1_def run_atomic ic_staging_def ic_new_def f0(3) [symmetric] by (rule create_temp_eq)
  have db1: "w_db w1 = w_db ?w" by (simp add: w1_def f0)
  have r2: "run (create_import_intent no_faults ?intent) w1 = (Inr (db_next_intent (w_db ?w)), w2)"
    using run_create_intent [of w1 ?intent] i db1 by (simp add: w2_def)
  have src: "node w2 (rq_source ?req) = Some (ic_inode x)"
    using node_create_temp [of w0 STAGING_PREFIX ?dir] tidy_nodes [OF t] fresh_staging [OF t] facts(6) by (simp add: w1_def w2_def f0)
  have bytes2: "w_contents w2 (ic_inode x) = ic_bytes x" using facts(1) by (simp add: w1_def w2_def ic_bytes_def ic_new_def f0)
  have r3: "run (stage_copy no_faults (rq_source ?req) (ic_staging x) (ic_new x)) w2 = (Inr (int (length (ic_bytes x))), w3)"
    using run_stage_copy [OF src, of "ic_new x"] facts(1) bytes2 by (simp add: w3_def)
  have l3: "lookup w3 (ic_staging x) = Some (Regular (ic_new x))" by (simp add: w3_def w2_def w1_def ic_staging_def ic_new_def f0)
  have r4: "run (atomic (rename_file (ic_staging x) (ic_target x))) w3 = (True, w4)"
    unfolding w4_def run_atomic by (rule rename_eq [OF l3])
  have start: "left_of (stage_and_finalize no_faults ?t (ic_user x) ?req (ic_target x)) ?w
      (finalize_import no_faults (ic_user x) ?req (ic_target x) (ic_staging x) (db_next_intent (w_db ?w)) (int (length (ic_bytes x)))) w3"
    unfolding stage_and_finalize_def
    by (rule left_of_bind [OF run_make_dirs [of MkDir ?dir ?w, folded w0_def]], simp add: size facts(5),
        rule left_of_bind [OF run_ask], simp add: size, rule left_of_bind [OF r1], simp,
        rule left_of_bind [OF r2], simp, rule left_of_bind [OF r3], simp add: left_of.none)
  obtain rest where "left_of (finalize_import no_faults (ic_user x) ?req (ic_target x) (ic_staging x) (db_next_intent (w_db ?w))
      (int (length (ic_bytes x)))) w3 rest w4"
    unfolding finalize_import_def no_faults_simps if_False using left_of_bind [OF r4 left_of.none] by blast
  then have "left_of (import_file_locked env no_faults (ic_user x) ?req) ?w rest w4"
    by (rule left_of_trans [OF _ left_of_trans [OF start import_start [OF c f]]])
  moreover have "renamed x w4"
  proof -
    have "lookup w3 (ic_target x) \<noteq> Some (Regular (ic_new x))"
      using c facts(4) by (auto simp: w3_def w2_def w1_def can_import_def ic_staging_def ic_new_def f0)
    then have "lookup w4 (ic_target x) = the_file x" using lookup_rename [OF l3, of "ic_target x" "ic_target x"] facts(4) by (simp add: w4_def the_file_def)
    moreover have "w_durable w4 = w_durable ?w" "w_db w4 = w_db w2" "w_contents w4 = w_contents w3" "w_synced w4 = w_synced w3"
      by (simp_all add: w4_def w3_def w2_def w1_def f0 rename_file_def split: option.split)
    ultimately show ?thesis using i d
      by (simp add: renamed_def tables_def place_def complete_def db1 w2_def w3_def insert_intent_def ic_intent_def)
  qed
  ultimately show ?thesis by blast
qed

lemma recovery_of_renamed:
  assumes x: "import_case_ok env x" and w: "renamed x w"
    and order: "\<forall>xs. mset (rec_order renv xs) = mset xs" and faults: "\<forall>k. rec_faults renv k = no_faults"
  shows "all_there x (snd (run (recover_import_intents env no_faults renv) w))
    \<and> w_durable (snd (run (recover_import_intents env no_faults renv) w)) (ic_target x) = None"
proof -
  let ?rec = "\<lambda>it. reconcile_one_intent env (rec_faults renv (ii_id it)) it"
  have its: "db_intents (w_db w) = [ic_intent x Staging]" using w by (simp add: renamed_def tables_def)
  have one: "snd (run (each ?rec (rec_order renv (db_intents (w_db w))) empty_report) w) = snd (run (reconcile_one_intent env no_faults (ic_intent x Staging) empty_report) w)"
    using faults by (simp add: its order_small [OF order] case_prod_beta)
  note mid = reconcile_present [OF x, of Staging w empty_report, folded one]
  have "all_there x (snd (run (each ?rec (rec_order renv (db_intents (w_db w))) empty_report) w))
      \<and> w_durable (snd (run (each ?rec (rec_order renv (db_intents (w_db w))) empty_report) w)) (ic_target x) = None"
    using mid w by (simp add: renamed_def place_def)
  then show ?thesis
    by (simp add: all_there_def tables_def run_recovery(2-5) [OF import_case_facts(2) [OF x]])
qed

text \<open>The power fails and the disk has nothing under a name that was not synced.\<close>

definition without_name :: "fpath \<Rightarrow> world \<Rightarrow> world" where
  "without_name p w = w\<lparr>w_names := AList.delete p (w_names w), w_durable := (lookup w)(p := None),
     w_dirs := map_option (\<lambda>_. True) \<circ> w_dirs w, w_synced := (\<lambda>_. True), w_old := []\<rparr>"

lemma no_folder_lost: "\<not> lost_folder w (without_name p w) d"
  unfolding not_lost_folder by (auto simp: without_name_def)

lemma power_loss_without_name: "w_durable w p = None \<Longrightarrow> power_loss w (without_name p w)"
  by (simp add: power_loss_def no_folder_lost) (auto simp: without_name_def lookup_def delete_conv')

text \<open>
  C36 (safety): A row that the recovery writes is not as safe as one that an import writes. An import syncs the directory before it
  writes the row; when the process dies between the renaming and that sync, the recovery finds the file and writes the row at once, and
  a power loss after it, with no commit and no folder lost, can leave the row without its file and without an intent.
\<close>

theorem recovered_row_can_lose_its_file:
  assumes "import_case_ok env x"
    and "\<forall>xs. mset (rec_order renv xs) = mset xs" and "\<forall>k. rec_faults renv k = no_faults"
  shows "\<exists>rest w w'. left_of (import_file_locked env no_faults (ic_user x) (ic_req x)) (ic_world x) rest w
    \<and> power_loss (snd (run (recover_import_intents env no_faults renv) w)) w'
    \<and> w_db w' = w_db (snd (run (recover_import_intents env no_faults renv) w))
    \<and> (\<forall>d. \<not> lost_folder (snd (run (recover_import_intents env no_faults renv) w)) w' d)
    \<and> ic_row x \<in> set (db_items (w_db w')) \<and> db_intents (w_db w') = [] \<and> lookup w' (ic_target x) = None"
proof -
  obtain rest w where w: "left_of (import_file_locked env no_faults (ic_user x) (ic_req x)) (ic_world x) rest w" "renamed x w"
    using import_reaches_renamed [OF assms(1)] by blast
  let ?w = "snd (run (recover_import_intents env no_faults renv) w)"
  have "all_there x ?w" "w_durable ?w (ic_target x) = None" using recovery_of_renamed [OF assms(1) w(2) assms(2,3)] by auto
  then show ?thesis using w(1) power_loss_without_name [of ?w "ic_target x"]
    by (intro exI [of _ rest] exI [of _ w] exI [of _ "without_name (ic_target x) ?w"])
       (simp add: no_folder_lost, simp add: all_there_def tables_def without_name_def lookup_def delete_conv')
qed

section \<open>A new folder\<close>

text \<open>The power fails and the disk has nothing of a folder that was not synced.\<close>

definition without_folder :: "fpath \<Rightarrow> world \<Rightarrow> world" where
  "without_folder d w = w\<lparr>w_names := filter (\<lambda>e. take (length d) (butlast (fst e)) \<noteq> d) (w_names w),
     w_durable := (\<lambda>p. if take (length d) (butlast p) = d then None else lookup w p),
     w_dirs := (\<lambda>q. if take (length d) q = d then None else map_option (\<lambda>_. True) (w_dirs w q)), w_synced := (\<lambda>_. True), w_old := []\<rparr>"

lemma lookup_without_folder: "lookup (without_folder d w) p = (if take (length d) (butlast p) = d then None else lookup w p)"
proof -
  have "map_of (filter (\<lambda>e. P (fst e)) xs) p = (if P p then map_of xs p else None)" for P and xs :: "(fpath \<times> entry) list"
    by (induction xs) auto
  from this [of "\<lambda>q. take (length d) (butlast q) \<noteq> d" "w_names w"] show ?thesis by (simp add: lookup_def without_folder_def)
qed

lemma lost_without_folder:
  assumes "d \<noteq> []" and "w_dirs w d \<noteq> None"
  shows "lost_folder w (without_folder d w) q \<longleftrightarrow> take (length d) q = d"
proof
  assume "take (length d) q = d"
  moreover from this have "length d \<le> length q" by (metis length_take min.cobounded1)
  ultimately have "\<not> (\<forall>n. 1 \<le> n \<and> n \<le> length q \<longrightarrow> w_dirs w (take n q) = None \<or> w_dirs (without_folder d w) (take n q) \<noteq> None)"
    using assms by (auto simp: without_folder_def Suc_le_eq intro!: exI [of _ "length d"])
  then show "lost_folder w (without_folder d w) q" using not_lost_folder by blast
next
  assume "lost_folder w (without_folder d w) q"
  then obtain n where "w_dirs w (take n q) \<noteq> None" "w_dirs (without_folder d w) (take n q) = None" by (auto simp: lost_folder_def)
  then have "take (length d) (take n q) = d" by (auto simp: without_folder_def split: if_splits)
  then show "take (length d) q = d" by (metis append_eq_conv_conj append_take_drop_id take_take append.assoc)
qed

lemma power_loss_without_folder:
  assumes "d \<noteq> []" and "w_dirs w d = Some False"
  shows "power_loss w (without_folder d w)"
proof -
  have lost: "lost_folder w (without_folder d w) q \<longleftrightarrow> take (length d) q = d" for q using assms by (intro lost_without_folder) auto
  have "take (length d) q \<noteq> d" if "w_dirs w q = Some True" "take (length d) (butlast q) \<noteq> d" for q
  proof
    assume q: "take (length d) q = d"
    show False
    proof (cases "length d = length q")
      case True
      then have "q = d" using q by (metis order_refl take_all)
      then show False using that(1) assms(2) by simp
    next
      case False
      then have "length d < length q" using q by (metis le_neq_implies_less length_take min.cobounded1)
      then show False using that(2) q by (metis take_butlast)
    qed
  qed
  then have dirs: "w_dirs w q = Some True \<and> take (length d) (butlast q) \<noteq> d \<longrightarrow> w_dirs (without_folder d w) q \<noteq> None" for q
    by (simp add: without_folder_def)
  show ?thesis unfolding power_loss_def lost lookup_without_folder using dirs by (auto simp: without_folder_def)
qed

text \<open>
  An import does not see to the folders that it creates: it syncs the folder of the file, and the name of that folder is
  in the one above. After an import that had to create a folder, finished and without any fault, a power loss that loses no commit
  can take the folder away: the row remains without its file, and no intent is left from which a recovery could know.
\<close>

theorem new_folder_can_lose_the_book:
  assumes c: "can_import env user_id req target j w" and f: "free_place user_id req (w_db w)" and t: "tidy w"
    and d: "d \<noteq> []" "take (length d) (butlast target) = d" "w_dirs w d = None"
  shows "\<exists>w' w''. run (import_file_locked env no_faults user_id req) w = (Inr (FileImported (db_next_item (w_db w)) (rq_target_relative req)), w')
    \<and> power_loss w' w'' \<and> w_db w'' = w_db w' \<and> lookup w'' target = None
    \<and> (new_item user_id req (int (length (w_contents w j))))\<lparr>li_id := db_next_item (w_db w)\<rparr> \<in> set (db_items (w_db w''))
    \<and> db_intents (w_db w'') = db_intents (w_db w)"
proof -
  let ?t = "(user_id, rq_work_id req)"
  have source: "node w (rq_source req) = Some j" and nt: "\<not> temp_name target" "target \<noteq> []" using c by (auto simp: can_import_def)
  note pf = published_facts [OF tidy_nodes [OF t] node_bound [OF t source] nt, of ?t user_id req]
  have ids: "ids_ok (w_db w)" using t by (simp add: tidy_def)
  have gone: "filter (\<lambda>it. ii_id it \<noteq> db_next_intent (w_db w)) (db_intents (w_db w)) = db_intents (w_db w)"
    using ids by (auto simp: ids_ok_def filter_id_conv)
  note run = run_import [OF c f t]
  define w' where "w' = snd (run (import_file_locked env no_faults user_id req) w)"
  have "butlast d \<noteq> butlast target"
  proof
    assume "butlast d = butlast target"
    then have "length d - 1 = length target - 1" by (metis length_butlast)
    moreover have "length d \<le> length target - 1" using arg_cong [OF d(2), of length] by simp
    ultimately show False using d(1) by (cases d) auto
  qed
  then have "w_dirs (published ?t user_id req target j w) d = Some False"
    using d by (simp add: published_def Let_def sync_dir_def commit_def create_dir_all_def rename_file_def create_temp_def write_file_def sync_file_def split: option.split)
  then have "w_dirs w' d = Some False" unfolding w'_def run by (simp add: commit_def)
  then have "power_loss w' (without_folder d w')" by (rule power_loss_without_folder [OF d(1)])
  moreover have "lookup (without_folder d w') target = None" using d(2) by (simp add: lookup_without_folder)
  moreover have "w_db (without_folder d w') = w_db w'" by (simp add: without_folder_def)
  moreover have "db_items (w_db w') = db_items (w_db w) @ [(new_item user_id req (int (length (w_contents w j))))\<lparr>li_id := db_next_item (w_db w)\<rparr>]"
     "db_intents (w_db w') = db_intents (w_db w)"
    unfolding w'_def run using pf by (simp_all add: insert_item_def published_intents [OF ids] gone)
  moreover have "run (import_file_locked env no_faults user_id req) w = (Inr (FileImported (db_next_item (w_db w)) (rq_target_relative req)), w')"
    unfolding w'_def run by simp
  ultimately show ?thesis by (metis in_set_conv_decomp)
qed

end
