(* ===== verification/ImportExamples.thy ===== *)
theory ImportExamples
  imports ImportCrash
begin

text \<open>The guarantees of the import on two downloads and one place in the library.\<close>

section \<open>A task that runs to its end\<close>

lemma task_runs:
  "cf_tasks c t = Some p \<Longrightarrow> (library_step env hard)\<^sup>*\<^sup>* c
     (c\<lparr>cf_world := snd (run p (cf_world c)), cf_tasks := (cf_tasks c)(t \<mapsto> Ret (fst (run p (cf_world c))))\<rparr>)"
proof (induction p arbitrary: c rule: prog_induct)
  case (Ret a)
  then show ?case by (simp add: fun_upd_idem)
next
  case (Act f)
  let ?p = "fst (f (cf_world c))" and ?w = "snd (f (cf_world c))"
  let ?c = "c\<lparr>cf_world := ?w, cf_tasks := (cf_tasks c)(t \<mapsto> ?p)\<rparr>"
  have "library_step env hard c ?c" using library_step.act [of c t f ?p ?w] Act.prems by simp
  moreover have "(library_step env hard)\<^sup>*\<^sup>* ?c (c\<lparr>cf_world := snd (run (Act f) (cf_world c)),
      cf_tasks := (cf_tasks c)(t \<mapsto> Ret (fst (run (Act f) (cf_world c))))\<rparr>)"
    using Act.IH [where s = "cf_world c" and c = ?c] by (simp add: run_Act fun_upd_def del: run.simps cong: if_cong)
  ultimately show ?case by (rule converse_rtranclp_into_rtranclp)
qed

section \<open>The example\<close>

definition example_env :: library_env where
  "example_env = \<lparr>root_folders = [(1, tx ''/lib'')]\<rparr>"

definition example_source :: "nat \<Rightarrow> fpath" where
  "example_source n = [tx ''dl'', [97 + n]]"

definition example_target :: fpath where
  "example_target = [tx ''lib'', tx ''1'', tx ''A'', tx ''T.epub'']"

definition example_request :: "nat \<Rightarrow> import_file_request" where
  "example_request n = \<lparr>rq_work_id = 5 + int n, rq_root_folder_id = 1, rq_source = example_source n, rq_target_relative = tx ''1/A/T.epub'',
     rq_media_type = Ebook, rq_materialization = Copy, rq_import_id = None\<rparr>"

definition example_world :: world where
  "example_world = deliver (example_source 1) [7, 8] (deliver (example_source 0) [1, 2, 3] (cf_world empty_config))"

definition example_recovery :: recovery_env where
  "example_recovery = \<lparr>rec_order = (\<lambda>xs. xs), rec_faults = (\<lambda>_. no_faults), rec_readable = (\<lambda>_. True), rec_aged = (\<lambda>_. False), rec_removable = (\<lambda>_. True)\<rparr>"

lemma example_root: "map_of (root_folders example_env) 1 = Some (tx ''/lib'')"
  by (simp add: example_env_def)

lemma example_tidy: "tidy example_world"
  by (rule tidyI) code_simp+

lemma example_can_import:
  "can_import example_env 1 (example_request 0) example_target 0 example_world"
  "can_import example_env 1 (example_request 1) example_target 1 example_world"
proof -
  have "rq_root_folder_id (example_request n) = 1" for n by (simp add: example_request_def)
  moreover have "path_join (tx ''/lib'') (rq_target_relative (example_request 0)) = example_target"
     "path_join (tx ''/lib'') (rq_target_relative (example_request 1)) = example_target"
     "validate_target_path example_target (components (tx ''/lib''))" "\<not> temp_name example_target" "example_target \<noteq> []" 
     "lookup example_world example_target = None" by code_simp+
  moreover have "rq_materialization (example_request 0) = Copy" "node example_world (rq_source (example_request 0)) = Some 0"
     "rq_materialization (example_request 1) = Copy" "node example_world (rq_source (example_request 1)) = Some 1" by code_simp+
  ultimately show "can_import example_env 1 (example_request 0) example_target 0 example_world"
    "can_import example_env 1 (example_request 1) example_target 1 example_world"
    unfolding can_import_def using example_root by auto
qed

lemma example_free: "free_place 1 (example_request 0) (w_db example_world)"
  by code_simp

definition example_case :: import_case where
  "example_case = \<lparr>ic_user = 1, ic_req = example_request 0, ic_target = example_target, ic_world = example_world, ic_inode = 0\<rparr>"

lemma example_case_ok: "import_case_ok example_env example_case"
proof -
  have "db_intents (w_db example_world) = []" "w_durable example_world example_target = None" by code_simp+
  then show ?thesis using example_can_import(1) example_free example_tidy by (simp add: import_case_ok_def example_case_def)
qed

lemma example_no_rows: "db_items (w_db example_world) = []"
  by code_simp

section \<open>Witnesses\<close>

theorem copy_import_files_the_book_witness:
  "\<exists>w' i. run (import_file_locked example_env no_faults 1 (example_request 0)) example_world = (Inr (FileImported 1 (tx ''1/A/T.epub'')), w')
    \<and> lookup w' example_target = Some (Regular i) \<and> w_contents w' i = [1, 2, 3] \<and> map li_file_size (db_items (w_db w')) = [3]"
proof -
  have "db_next_item (w_db example_world) = 1" "rq_target_relative (example_request 0) = tx ''1/A/T.epub''" "w_contents example_world 0 = [1, 2, 3]"
    "db_items (w_db example_world) = []" by code_simp+
  then show ?thesis using copy_import_files_the_book [OF example_can_import(1) example_free example_tidy]
    by (fastforce simp: new_item_def)
qed

theorem late_rival_overwrites_the_file_witness:
  "\<exists>rest wa wb. left_of (import_file_locked example_env no_faults 1 (example_request 1)) example_world rest example_world
    \<and> run (import_file_locked example_env no_faults 1 (example_request 0)) example_world = (Inr (FileImported 1 (tx ''1/A/T.epub'')), wa)
    \<and> run rest wa = (Inl (ImportDb ItemConstraint), wb)
    \<and> (\<exists>i. lookup wb example_target = Some (Regular i) \<and> w_contents wb i = [7, 8]) \<and> map li_work_id (db_items (w_db wb)) = [5]"
proof -
  have "db_next_item (w_db example_world) = 1" "rq_target_relative (example_request 0) = tx ''1/A/T.epub''" "w_contents example_world 1 = [7, 8]"
    "db_items (w_db example_world) = []" "rq_work_id (example_request 0) = 5" by code_simp+
  moreover have "rq_root_folder_id (example_request 1) = rq_root_folder_id (example_request 0)"
    "rq_target_relative (example_request 1) = rq_target_relative (example_request 0)"
    "rq_work_id (example_request 1) \<noteq> rq_work_id (example_request 0)" by (simp_all add: example_request_def)
  ultimately show ?thesis using late_rival_overwrites_the_file [OF example_can_import(1,2) _ _ _ example_free example_tidy]
    by (fastforce simp: new_item_def)
qed

lemma example_recovery_ok: "\<forall>xs. mset (rec_order example_recovery xs) = mset xs" "\<forall>k. rec_faults example_recovery k = no_faults"
  by (simp_all add: example_recovery_def)

theorem imports_are_all_or_nothing_witness:
  "nothing_there example_case (snd (run (recover_import_intents example_env no_faults example_recovery) (snd (run (import_file_locked example_env no_faults 1 (example_request 0)) example_world))))
    \<or> all_there example_case (snd (run (recover_import_intents example_env no_faults example_recovery) (snd (run (import_file_locked example_env no_faults 1 (example_request 0)) example_world))))"
proof -
  let ?p = "import_file_locked example_env no_faults (ic_user example_case) (ic_req example_case)"
  have "left_of ?p (ic_world example_case) (Ret (fst (run ?p (ic_world example_case)))) (snd (run ?p (ic_world example_case)))"
    by (rule left_of_run)
  from imports_are_all_or_nothing [OF example_case_ok _ this disjI1 [OF refl] example_recovery_ok] show ?thesis
    unfolding no_faults_simps example_case_def import_case.select_convs by simp
qed

theorem recovered_row_can_lose_its_file_witness:
  "\<exists>rest w w'. left_of (import_file_locked example_env no_faults 1 (example_request 0)) example_world rest w
    \<and> power_loss (snd (run (recover_import_intents example_env no_faults example_recovery) w)) w'
    \<and> w_db w' = w_db (snd (run (recover_import_intents example_env no_faults example_recovery) w))
    \<and> (\<forall>d. \<not> lost_folder (snd (run (recover_import_intents example_env no_faults example_recovery) w)) w' d)
    \<and> ic_row example_case \<in> set (db_items (w_db w')) \<and> db_intents (w_db w') = [] \<and> lookup w' example_target = None"
  using recovered_row_can_lose_its_file [OF example_case_ok example_recovery_ok] by (simp add: example_case_def)

definition example_imported :: config where
  "example_imported = empty_config\<lparr>cf_world := snd (run (import_file_locked example_env no_faults 1 (example_request 0)) example_world),
     cf_tasks := [(1, 5) \<mapsto> Ret ()]\<rparr>"

lemma example_imported_reach: "(library_step example_env hard)\<^sup>*\<^sup>* empty_config example_imported"
proof -
  let ?c1 = "empty_config\<lparr>cf_world := deliver (example_source 0) [1, 2, 3] (cf_world empty_config)\<rparr>"
  let ?c2 = "empty_config\<lparr>cf_world := example_world\<rparr>"
  let ?p = "import_task example_env no_faults 1 (example_request 0)"
  have 1: "library_step example_env hard empty_config ?c1" by (rule library_step.delivery) code_simp+
  have "library_step example_env hard ?c1 (?c1\<lparr>cf_world := deliver (example_source 1) [7, 8] (cf_world ?c1)\<rparr>)"
    by (rule library_step.delivery) code_simp+
  then have 2: "library_step example_env hard ?c1 ?c2" by (simp add: example_world_def)
  have work: "rq_work_id (example_request 0) = 5" by code_simp
  have "copy_request example_env (example_request 0)" by code_simp
  moreover have "cf_recovery ?c2 = Ret ()" "cf_tasks ?c2 (1, rq_work_id (example_request 0)) \<in> {None, Some (Ret ())}"
    by (simp_all add: empty_config_def)
  ultimately have 3: "library_step example_env hard ?c2 (?c2\<lparr>cf_tasks := (cf_tasks ?c2)((1, rq_work_id (example_request 0)) \<mapsto> ?p)\<rparr>)"
    by (intro library_step.start)
  have 4: "(library_step example_env hard)\<^sup>*\<^sup>* (?c2\<lparr>cf_tasks := (cf_tasks ?c2)((1, 5) \<mapsto> ?p)\<rparr>) example_imported"
    using task_runs [of "?c2\<lparr>cf_tasks := (cf_tasks ?c2)((1, 5) \<mapsto> ?p)\<rparr>" "(1, 5)" ?p example_env hard]
    by (simp add: example_imported_def import_task_def empty_config_def case_prod_beta)
  show ?thesis using 1 2 3 4 unfolding work by (meson converse_rtranclp_into_rtranclp)
qed

lemma copy_import_row:
  assumes "can_import env user_id req target j w" and "free_place user_id req (w_db w)" and "tidy w"
  shows "db_items (w_db (snd (run (import_file_locked env no_faults user_id req) w))) =
    db_items (w_db w) @ [(new_item user_id req (int (length (w_contents w j))))\<lparr>li_id := db_next_item (w_db w)\<rparr>]"
proof -
  have t: "\<not> temp_name target" "target \<noteq> []" "node w (rq_source req) = Some j" using assms(1) by (auto simp: can_import_def)
  note pf = published_facts [OF tidy_nodes [OF assms(3)] node_bound [OF assms(3) t(3)] t(1,2), of "(user_id, rq_work_id req)" user_id req]
  show ?thesis unfolding run_import [OF assms] by (simp add: insert_item_def pf(6,7))
qed

text \<open>The import creates three folders; here the file system has written them back.\<close>

definition example_flushed :: config where
  "example_flushed = example_imported\<lparr>cf_world := sync_dir [tx ''lib'', tx ''1''] (sync_dir [tx ''lib''] (sync_dir [] (cf_world example_imported)))\<rparr>"

lemma example_flushed_reach: "(library_step example_env hard)\<^sup>*\<^sup>* empty_config example_flushed"
proof -
  have wb: "(library_step example_env hard)\<^sup>*\<^sup>* empty_config (c\<lparr>cf_world := sync_dir dir (cf_world c)\<rparr>)"
    if "(library_step example_env hard)\<^sup>*\<^sup>* empty_config c" for c dir
    using that library_step.writeback by (rule rtranclp.rtrancl_into_rtrancl)
  show ?thesis using wb [OF wb [OF wb [OF example_imported_reach, of "[]"], of "[tx ''lib'']"], of "[tx ''lib'', tx ''1'']"]
    by (simp add: example_flushed_def)
qed

lemma example_anchored: "anchored (cf_world example_flushed) (butlast example_target)"
  unfolding example_flushed_def example_imported_def run_import [OF example_can_import(1) example_free example_tidy] config.simps snd_conv
  by code_simp

theorem no_row_without_its_file_witness:
  "\<exists>i. lookup (cf_world example_flushed) example_target = Some (Regular i) \<and> w_synced (cf_world example_flushed) i
    \<and> (\<forall>w'. power_loss (cf_world example_flushed) w' \<longrightarrow> (\<exists>j. lookup w' example_target = Some (Regular j)))"
proof -
  let ?row = "(new_item 1 (example_request 0) (int (length (w_contents example_world 0))))\<lparr>li_id := db_next_item (w_db example_world)\<rparr>"
  have "db_items (w_db (cf_world example_flushed)) = [?row]"
    using copy_import_row [OF example_can_import(1) example_free example_tidy] example_no_rows
    by (simp add: example_flushed_def example_imported_def)
  then have row: "?row \<in> set (db_items (w_db (cf_world example_flushed)))" by simp
  have "path_join (tx ''/lib'') (li_path ?row) = example_target" "li_root_folder_id ?row = 1" by code_simp+
  then show ?thesis using no_row_without_its_file [OF example_flushed_reach [of True] row] example_root example_anchored by simp blast
qed

text \<open>Without the write-back the finished import can be lost with its folder.\<close>

lemma example_book_lost:
  "\<exists>w' w''. run (import_file_locked example_env no_faults 1 (example_request 0)) example_world = (Inr (FileImported 1 (tx ''1/A/T.epub'')), w')
    \<and> power_loss w' w'' \<and> w_db w'' = w_db w' \<and> lookup w'' example_target = None \<and> db_items (w_db w'') \<noteq> []"
proof -
  have "take (length [tx ''lib'', tx ''1'']) (butlast example_target) = [tx ''lib'', tx ''1'']" "w_dirs example_world [tx ''lib'', tx ''1''] = None"
    "db_next_item (w_db example_world) = 1" "rq_target_relative (example_request 0) = tx ''1/A/T.epub''" by code_simp+
  then show ?thesis using new_folder_can_lose_the_book [OF example_can_import(1) example_free example_tidy, of "[tx ''lib'', tx ''1'']"]
    by fastforce
qed

end
