(* ===== verification/CoverGate.thy ===== *)
theory CoverGate
  imports ProviderPolicy Programs "HOL-Library.AList"
begin

text \<open>
  The cover write gate (\<^verbatim>\<open>livrarr-metadata/src/cover_write_gate.rs\<close>) and the recovery of what a crash left of it
  (\<^verbatim>\<open>cover_write_gate_recovery.rs\<close>), as programs of atomic actions on the covers directories and the rows of the works.
  The lock of a slot lets one of these programs run on it at a time.

  A file is known by its user's directory and its name. The answers of the fetcher, the decoding and encoding of images and the JSON of the
  sidecar are an environment; every other call may fail, by an argument. The files are as the running system sees them: a crash is
  the death of the process.
\<close>

section \<open>Data\<close>

type_synonym cover_path = "int \<times> string"

record candidate_meta =
  cm_url :: "string option"
  cm_source :: string
  cm_manual :: bool
  cm_width :: int
  cm_height :: int

record cover_row =
  cr_url :: "string option"
  cr_source :: "string option"
  cr_manual :: bool
  cr_width :: int
  cr_height :: int

record cover_work =
  cw_language :: "string option"
  cw_ebook :: cover_row
  cw_audiobook :: cover_row

record cover_world =
  cv_files :: "(cover_path \<times> nat list) list"
  cv_works :: "int \<times> int \<Rightarrow> cover_work option"

record cover_env =
  ce_lower :: "string \<Rightarrow> string"
  ce_fetch :: "string \<Rightarrow> (nat \<times> nat list) option"
  ce_load_image :: "nat list \<Rightarrow> (u32 \<times> u32 \<times> bool) option"
  ce_encode_jpeg :: "nat list \<Rightarrow> nat list option"
  ce_to_vec :: "candidate_meta \<Rightarrow> nat list option"
  ce_from_slice :: "nat list \<Rightarrow> candidate_meta option"

datatype cover_site = WorkRead | ManualRead | LockedStat | LockedMetaStat | CurrentStat | CoversDir
  | TmpCreate | TmpWrite | TmpSync | MetaCreate | MetaWrite | MetaSync | RemoveMeta | RemoveTmp | RowWrite | RenameCover | RemoveThumb | RemoveAudioThumb
  | MetaRead | TmpStat

record cover_faults =
  cf_broken :: "cover_site \<Rightarrow> bool"
  cf_tmp_cut :: nat
  cf_meta_cut :: nat

definition calm :: cover_faults where
  "calm = \<lparr>cf_broken = (\<lambda>_. False), cf_tmp_cut = 0, cf_meta_cut = 0\<rparr>"

datatype cover_db_error = WorkNotFound | CoverIo

datatype gate_outcome = NoOp | AlreadyCurrent | DownloadFailed | Rejected | Accepted "nat list" int int

fun suffix_of :: "cover_media_type \<Rightarrow> string" where
  "suffix_of Ebook = []"
| "suffix_of Audiobook = ''_audio''"

definition candidate_tmp_path :: "int \<Rightarrow> int \<Rightarrow> string \<Rightarrow> cover_path" where
  "candidate_tmp_path user_id work_id suffix = (user_id, show_int work_id @ suffix @ ''.candidate.tmp'')"

definition candidate_meta_path :: "int \<Rightarrow> int \<Rightarrow> string \<Rightarrow> cover_path" where
  "candidate_meta_path user_id work_id suffix = (user_id, show_int work_id @ suffix @ ''.candidate.meta.json'')"

definition final_cover_path :: "int \<Rightarrow> int \<Rightarrow> string \<Rightarrow> cover_path" where
  "final_cover_path user_id work_id suffix = (user_id, show_int work_id @ suffix @ ''.jpg'')"

section \<open>Files\<close>

definition cover_file :: "cover_world \<Rightarrow> cover_path \<Rightarrow> nat list option" where
  "cover_file w p = map_of (cv_files w) p"

definition put_file :: "cover_path \<Rightarrow> nat list \<Rightarrow> cover_world \<Rightarrow> cover_world" where
  "put_file p c w = w\<lparr>cv_files := AList.update p c (cv_files w)\<rparr>"

definition drop_file :: "cover_path \<Rightarrow> cover_world \<Rightarrow> cover_world" where
  "drop_file p w = w\<lparr>cv_files := AList.delete p (cv_files w)\<rparr>"

definition move_file :: "cover_path \<Rightarrow> cover_path \<Rightarrow> cover_world \<Rightarrow> bool \<times> cover_world" where
  "move_file a b w = (case cover_file w a of
       None \<Rightarrow> (False, w)
     | Some c \<Rightarrow> (True, w\<lparr>cv_files := AList.update b c (AList.delete a (cv_files w))\<rparr>))"

definition try_exists :: "cover_faults \<Rightarrow> cover_site \<Rightarrow> cover_path \<Rightarrow> (cover_world, bool) prog" where
  "try_exists f x p = ask (\<lambda>w. \<not> cf_broken f x \<and> cover_file w p \<noteq> None)"

definition remove_cover_file :: "cover_faults \<Rightarrow> cover_site \<Rightarrow> cover_path \<Rightarrow> (cover_world, unit) prog" where
  "remove_cover_file f x p = (if cf_broken f x then Ret () else tell (drop_file p))"

definition rename_cover :: "cover_faults \<Rightarrow> cover_path \<Rightarrow> cover_path \<Rightarrow> (cover_world, bool) prog" where
  "rename_cover f a b = (if cf_broken f RenameCover then Ret False else atomic (move_file a b))"

section \<open>Rows\<close>

definition starts_with_str :: "string \<Rightarrow> string \<Rightarrow> bool" where
  "starts_with_str p s \<longleftrightarrow> take (length p) s = p"

definition absolute_http_cover_url :: "string option \<Rightarrow> string option" where
  "absolute_http_cover_url url = (case url of
       None \<Rightarrow> None
     | Some u \<Rightarrow> if starts_with_str ''http://'' u \<or> starts_with_str ''https://'' u then Some u else None)"

definition get_work :: "cover_faults \<Rightarrow> int \<Rightarrow> int \<Rightarrow> (cover_world, cover_db_error + cover_work) prog" where
  "get_work f user_id work_id = ask (\<lambda>w. if cf_broken f WorkRead then Inl CoverIo
     else (case cv_works w (user_id, work_id) of None \<Rightarrow> Inl WorkNotFound | Some x \<Rightarrow> Inr x))"

definition get_audiobook_cover_manual :: "cover_faults \<Rightarrow> int \<Rightarrow> int \<Rightarrow> (cover_world, cover_db_error + bool) prog" where
  "get_audiobook_cover_manual f user_id work_id = ask (\<lambda>w. if cf_broken f ManualRead then Inl CoverIo
     else (case cv_works w (user_id, work_id) of None \<Rightarrow> Inl WorkNotFound | Some x \<Rightarrow> Inr (cr_manual (cw_audiobook x))))"

definition meta_row :: "candidate_meta \<Rightarrow> cover_row" where
  "meta_row m = \<lparr>cr_url = absolute_http_cover_url (cm_url m), cr_source = Some (cm_source m), cr_manual = cm_manual m,
     cr_width = cm_width m, cr_height = cm_height m\<rparr>"

definition update_work :: "cover_faults \<Rightarrow> int \<Rightarrow> int \<Rightarrow> (cover_work \<Rightarrow> cover_work) \<Rightarrow> (cover_world, cover_db_error + unit) prog" where
  "update_work f user_id work_id g =
     (if cf_broken f RowWrite then Ret (Inl CoverIo)
      else atomic (\<lambda>w. case cv_works w (user_id, work_id) of
                         None \<Rightarrow> (Inl WorkNotFound, w)
                       | Some x \<Rightarrow> (Inr (), w\<lparr>cv_works := (cv_works w)((user_id, work_id) \<mapsto> g x)\<rparr>)))"

definition update_cover_metadata :: "cover_faults \<Rightarrow> int \<Rightarrow> int \<Rightarrow> candidate_meta \<Rightarrow> (cover_world, cover_db_error + unit) prog" where
  "update_cover_metadata f user_id work_id m = update_work f user_id work_id (\<lambda>x. x\<lparr>cw_ebook := meta_row m\<rparr>)"

definition update_audiobook_cover_metadata :: "cover_faults \<Rightarrow> int \<Rightarrow> int \<Rightarrow> candidate_meta \<Rightarrow> (cover_world, cover_db_error + unit) prog" where
  "update_audiobook_cover_metadata f user_id work_id m = update_work f user_id work_id (\<lambda>x. x\<lparr>cw_audiobook := meta_row m\<rparr>)"

fun update_slot :: "cover_faults \<Rightarrow> int \<Rightarrow> int \<Rightarrow> cover_media_type \<Rightarrow> candidate_meta \<Rightarrow> (cover_world, cover_db_error + unit) prog" where
  "update_slot f user_id work_id Ebook m = update_cover_metadata f user_id work_id m"
| "update_slot f user_id work_id Audiobook m = update_audiobook_cover_metadata f user_id work_id m"

section \<open>The candidate\<close>

text \<open>A status of 400 and more, and a grey picture, are errors; bytes that are no picture have no size.\<close>

definition fetch_and_decode_cover :: "cover_env \<Rightarrow> string \<Rightarrow> (nat list \<times> (int \<times> int) option) option" where
  "fetch_and_decode_cover env url = (case ce_fetch env url of
       None \<Rightarrow> None
     | Some (status, body) \<Rightarrow>
         if status \<ge> 400 then None
         else (case ce_load_image env body of
                 None \<Rightarrow> Some (body, None)
               | Some (width, height, grey) \<Rightarrow> if grey then None else Some (body, Some (sint width, sint height))))"

definition fetch_candidate_bytes :: "cover_env \<Rightarrow> string \<Rightarrow> gate_outcome + nat list \<times> int \<times> int" where
  "fetch_candidate_bytes env url = (case fetch_and_decode_cover env url of
       None \<Rightarrow> Inl DownloadFailed
     | Some (picture, dims) \<Rightarrow> (case dims of None \<Rightarrow> Inr (picture, 0, 0) | Some (w, h) \<Rightarrow> Inr (picture, w, h)))"

definition MAX_UPLOAD_SIZE :: nat where "MAX_UPLOAD_SIZE = 5 * 1024 * 1024"

definition known_format :: "nat list \<Rightarrow> bool" where
  "known_format data \<longleftrightarrow> take 2 data = [0xFF, 0xD8] \<or> take 4 data = [0x89, 0x50, 0x4E, 0x47]
     \<or> length data \<ge> 12 \<and> take 4 (drop 8 data) = [87, 69, 66, 80]"

definition validate_and_reencode_upload :: "cover_env \<Rightarrow> nat list \<Rightarrow> string + nat list \<times> int \<times> int" where
  "validate_and_reencode_upload env data =
     (if length data > MAX_UPLOAD_SIZE then Inl ''file too large''
      else if \<not> known_format data then Inl ''unsupported format: must be JPEG, PNG, or WebP''
      else (case ce_load_image env data of
              None \<Rightarrow> Inl ''image decode failed''
            | Some (width, height, _) \<Rightarrow>
                if width > 8000 \<or> height > 8000 then Inl ''image too large''
                else (case ce_encode_jpeg env data of
                        None \<Rightarrow> Inl ''JPEG encode failed''
                      | Some jpeg \<Rightarrow> Inr (jpeg, sint width, sint height))))"

text \<open>Creating a file empties it; the bytes then arrive in two steps.\<close>

definition write_whole ::
  "cover_faults \<Rightarrow> cover_site \<Rightarrow> cover_site \<Rightarrow> cover_site \<Rightarrow> nat \<Rightarrow> cover_path \<Rightarrow> nat list \<Rightarrow> (cover_world, bool) prog" where
  "write_whole f create write sync part p c =
     (if cf_broken f create then Ret False
      else
        and_then (tell (put_file p [])) (\<lambda>_.
        and_then (tell (put_file p (take part c))) (\<lambda>_.
        if cf_broken f write then Ret False
        else and_then (tell (put_file p c)) (\<lambda>_. Ret (\<not> cf_broken f sync)))))"

definition write_candidate_files ::
  "cover_env \<Rightarrow> cover_faults \<Rightarrow> cover_path \<Rightarrow> cover_path \<Rightarrow> nat list \<Rightarrow> candidate_meta \<Rightarrow> (cover_world, bool) prog" where
  "write_candidate_files env f tmp_path meta_path picture m = (case ce_to_vec env m of
       None \<Rightarrow> Ret False
     | Some json \<Rightarrow>
         and_then (write_whole f TmpCreate TmpWrite TmpSync (cf_tmp_cut f) tmp_path picture) (\<lambda>written.
         if \<not> written then Ret False
         else write_whole f MetaCreate MetaWrite MetaSync (cf_meta_cut f) meta_path json))"

definition discard_candidate_files :: "cover_faults \<Rightarrow> cover_path \<Rightarrow> cover_path \<Rightarrow> (cover_world, unit) prog" where
  "discard_candidate_files f meta_path tmp_path =
     and_then (remove_cover_file f RemoveMeta meta_path) (\<lambda>_. remove_cover_file f RemoveTmp tmp_path)"

definition invalidate_thumbnails ::
  "cover_faults \<Rightarrow> int \<Rightarrow> int \<Rightarrow> string \<Rightarrow> cover_media_type \<Rightarrow> string option \<Rightarrow> (cover_world, unit) prog" where
  "invalidate_thumbnails f user_id work_id suffix media_type sibling_cover_url =
     and_then (remove_cover_file f RemoveThumb (user_id, show_int work_id @ suffix @ ''_thumb.jpg'')) (\<lambda>_.
     if media_type = Ebook \<and> sibling_cover_url = None
     then remove_cover_file f RemoveAudioThumb (final_cover_path user_id work_id ''_audio_thumb'')
     else Ret ())"

section \<open>The gate\<close>

record cover_slot =
  sl_user :: int
  sl_work :: int
  sl_media :: cover_media_type

definition slot_tmp :: "cover_slot \<Rightarrow> cover_path" where
  "slot_tmp s = candidate_tmp_path (sl_user s) (sl_work s) (suffix_of (sl_media s))"

definition slot_meta :: "cover_slot \<Rightarrow> cover_path" where
  "slot_meta s = candidate_meta_path (sl_user s) (sl_work s) (suffix_of (sl_media s))"

definition slot_final :: "cover_slot \<Rightarrow> cover_path" where
  "slot_final s = final_cover_path (sl_user s) (sl_work s) (suffix_of (sl_media s))"

fun current_state_for_slot :: "cover_work \<Rightarrow> cover_media_type \<Rightarrow> bool \<Rightarrow> cover_row" where
  "current_state_for_slot work Ebook audiobook_manual = cw_ebook work"
| "current_state_for_slot work Audiobook audiobook_manual = (cw_audiobook work)\<lparr>cr_manual := audiobook_manual\<rparr>"

definition manual_selection_blocks_candidate :: "bool \<Rightarrow> bool \<Rightarrow> bool" where
  "manual_selection_blocks_candidate current_manual file_exists \<longleftrightarrow> current_manual \<and> file_exists"

definition commit_and_finalize ::
  "cover_faults \<Rightarrow> cover_slot \<Rightarrow> string option \<Rightarrow> candidate_meta \<Rightarrow> nat list \<Rightarrow> (cover_world, gate_outcome) prog" where
  "commit_and_finalize f s sibling_cover_url m picture =
     and_then (update_slot f (sl_user s) (sl_work s) (sl_media s) m) (\<lambda>db_result.
     case db_result of
       Inl _ \<Rightarrow> Ret DownloadFailed
     | Inr _ \<Rightarrow>
         and_then (rename_cover f (slot_tmp s) (slot_final s)) (\<lambda>renamed.
         if \<not> renamed then Ret (Accepted picture (cm_width m) (cm_height m))
         else
           and_then (remove_cover_file f RemoveMeta (slot_meta s)) (\<lambda>_.
           and_then (invalidate_thumbnails f (sl_user s) (sl_work s) (suffix_of (sl_media s)) (sl_media s) sibling_cover_url) (\<lambda>_.
           Ret (Accepted picture (cm_width m) (cm_height m))))))"

text \<open>The decision of the comparator on the row and the fetched picture.\<close>

definition gate_accepts :: "cover_env \<Rightarrow> cover_slot \<Rightarrow> cover_work \<Rightarrow> cover_row \<Rightarrow> candidate_meta \<Rightarrow> bool" where
  "gate_accepts env s work current m =
     should_upgrade_same_tier (word_of_int (max 0 (cr_width current))) (word_of_int (max 0 (cr_height current)))
       (word_of_int (cm_width m)) (word_of_int (cm_height m)) (cr_source current) (cm_source m)
       (for_media (sl_media s) (provider_priority (ce_lower env) (cw_language work) = Foreign))"

definition offer_candidate ::
  "cover_env \<Rightarrow> cover_faults \<Rightarrow> cover_slot \<Rightarrow> cover_work \<Rightarrow> cover_row \<Rightarrow> string \<Rightarrow> string \<Rightarrow> (cover_world, gate_outcome) prog" where
  "offer_candidate env f s work current url source =
     (if cf_broken f CoversDir then Ret DownloadFailed
      else (case fetch_candidate_bytes env url of
              Inl outcome \<Rightarrow> Ret outcome
            | Inr (picture, new_w, new_h) \<Rightarrow>
                (let m = \<lparr>cm_url = Some url, cm_source = source, cm_manual = False, cm_width = new_w, cm_height = new_h\<rparr> in
                 and_then (write_candidate_files env f (slot_tmp s) (slot_meta s) picture m) (\<lambda>written.
                 if \<not> written then and_then (discard_candidate_files f (slot_meta s) (slot_tmp s)) (\<lambda>_. Ret DownloadFailed)
                 else if \<not> gate_accepts env s work current m
                 then and_then (discard_candidate_files f (slot_meta s) (slot_tmp s)) (\<lambda>_. Ret Rejected)
                 else commit_and_finalize f s (cr_url (cw_audiobook work)) m picture))))"

definition locked_file_exists :: "cover_faults \<Rightarrow> cover_slot \<Rightarrow> bool \<Rightarrow> (cover_world, bool) prog" where
  "locked_file_exists f s manual =
     (if manual
      then and_then (try_exists f LockedStat (slot_final s)) (\<lambda>e. if e then Ret True else try_exists f LockedMetaStat (slot_meta s))
      else Ret False)"

definition run_cover_write_gate :: "cover_env \<Rightarrow> cover_faults \<Rightarrow> cover_slot \<Rightarrow> string \<Rightarrow> string \<Rightarrow> (cover_world, gate_outcome) prog" where
  "run_cover_write_gate env f s url source =
     and_then (get_work f (sl_user s) (sl_work s)) (\<lambda>row.
     case row of
       Inl _ \<Rightarrow> Ret NoOp
     | Inr work \<Rightarrow>
         and_then (if sl_media s = Audiobook then get_audiobook_cover_manual f (sl_user s) (sl_work s) else Ret (Inr False)) (\<lambda>manual.
         case manual of
           Inl _ \<Rightarrow> Ret NoOp
         | Inr audiobook_manual \<Rightarrow>
             (let current = current_state_for_slot work (sl_media s) audiobook_manual in
              and_then (locked_file_exists f s (cr_manual current)) (\<lambda>file_exists.
              if manual_selection_blocks_candidate (cr_manual current) file_exists then Ret NoOp
              else
                and_then (if cr_url current = Some url then try_exists f CurrentStat (slot_final s) else Ret False) (\<lambda>already.
                if already then Ret AlreadyCurrent
                else offer_candidate env f s work current url source)))))"

datatype user_cover_payload = UrlPayload string string | BytesPayload "nat list"

definition user_candidate :: "cover_env \<Rightarrow> user_cover_payload \<Rightarrow> (string + gate_outcome) + nat list \<times> candidate_meta" where
  "user_candidate env payload = (case payload of
       UrlPayload url source \<Rightarrow>
         (case fetch_candidate_bytes env url of
            Inl outcome \<Rightarrow> Inl (Inr outcome)
          | Inr (picture, w, h) \<Rightarrow> Inr (picture, \<lparr>cm_url = Some url, cm_source = source, cm_manual = True, cm_width = w, cm_height = h\<rparr>))
     | BytesPayload data \<Rightarrow>
         (case validate_and_reencode_upload env data of
            Inl e \<Rightarrow> Inl (Inl e)
          | Inr (jpeg, w, h) \<Rightarrow> Inr (jpeg, \<lparr>cm_url = None, cm_source = ''user_upload'', cm_manual = True, cm_width = w, cm_height = h\<rparr>)))"

definition run_user_cover_write :: "cover_env \<Rightarrow> cover_faults \<Rightarrow> cover_slot \<Rightarrow> user_cover_payload \<Rightarrow> (cover_world, string + gate_outcome) prog" where
  "run_user_cover_write env f s payload =
     and_then (get_work f (sl_user s) (sl_work s)) (\<lambda>row.
     case row of
       Inl _ \<Rightarrow> Ret (Inr NoOp)
     | Inr work \<Rightarrow>
         if cf_broken f CoversDir then Ret (Inr DownloadFailed)
         else (case user_candidate env payload of
                 Inl outcome \<Rightarrow> Ret outcome
               | Inr (picture, m) \<Rightarrow>
                   and_then (write_candidate_files env f (slot_tmp s) (slot_meta s) picture m) (\<lambda>written.
                   if \<not> written then and_then (discard_candidate_files f (slot_meta s) (slot_tmp s)) (\<lambda>_. Ret (Inr DownloadFailed))
                   else and_then (commit_and_finalize f s (cr_url (cw_audiobook work)) m picture) (\<lambda>outcome. Ret (Inr outcome)))))"

section \<open>Recovery\<close>

record cover_recovery_report =
  crr_completed :: nat
  crr_discarded :: nat
  crr_healed :: nat
  crr_orphaned :: nat
  crr_corrupt :: nat
  crr_skipped :: nat

definition no_cover_report :: cover_recovery_report where
  "no_cover_report = \<lparr>crr_completed = 0, crr_discarded = 0, crr_healed = 0, crr_orphaned = 0, crr_corrupt = 0, crr_skipped = 0\<rparr>"

definition row_matches_meta :: "cover_row \<Rightarrow> candidate_meta \<Rightarrow> bool" where
  "row_matches_meta r m \<longleftrightarrow> cr_url r = cm_url m \<and> cr_source r = Some (cm_source m) \<and> cr_manual r = cm_manual m
     \<and> cr_width r = cm_width m \<and> cr_height r = cm_height m"

definition recover_pending ::
  "cover_faults \<Rightarrow> cover_slot \<Rightarrow> candidate_meta \<Rightarrow> cover_work \<Rightarrow> cover_row \<Rightarrow> cover_recovery_report \<Rightarrow> (cover_world, cover_recovery_report) prog" where
  "recover_pending f s m work row report =
     and_then (try_exists f TmpStat (slot_tmp s)) (\<lambda>tmp_exists.
     if tmp_exists then
       (if row_matches_meta row m then
          and_then (rename_cover f (slot_tmp s) (slot_final s)) (\<lambda>renamed.
          if renamed then
            and_then (remove_cover_file f RemoveMeta (slot_meta s)) (\<lambda>_.
            and_then (invalidate_thumbnails f (sl_user s) (sl_work s) (suffix_of (sl_media s)) (sl_media s) (cr_url (cw_audiobook work))) (\<lambda>_.
            Ret (report\<lparr>crr_completed := crr_completed report + 1\<rparr>)))
          else Ret report)
        else
          and_then (remove_cover_file f RemoveTmp (slot_tmp s)) (\<lambda>_.
          and_then (remove_cover_file f RemoveMeta (slot_meta s)) (\<lambda>_.
          Ret (report\<lparr>crr_discarded := crr_discarded report + 1\<rparr>))))
     else
       and_then (if row_matches_meta row m then Ret report
                 else and_then (update_slot f (sl_user s) (sl_work s) (sl_media s) m) (\<lambda>heal_result.
                      Ret (case heal_result of Inr _ \<Rightarrow> report\<lparr>crr_healed := crr_healed report + 1\<rparr> | Inl _ \<Rightarrow> report))) (\<lambda>report'.
       and_then (remove_cover_file f RemoveMeta (slot_meta s)) (\<lambda>_.
       and_then (invalidate_thumbnails f (sl_user s) (sl_work s) (suffix_of (sl_media s)) (sl_media s) (cr_url (cw_audiobook work))) (\<lambda>_.
       Ret report'))))"

definition recover_one :: "cover_env \<Rightarrow> cover_faults \<Rightarrow> cover_slot \<Rightarrow> cover_recovery_report \<Rightarrow> (cover_world, cover_recovery_report) prog" where
  "recover_one env f s report =
     and_then (ask (\<lambda>w. if cf_broken f MetaRead then None else cover_file w (slot_meta s))) (\<lambda>meta_bytes.
     case meta_bytes of
       None \<Rightarrow> Ret report
     | Some json \<Rightarrow>
         (case ce_from_slice env json of
            None \<Rightarrow> and_then (discard_candidate_files f (slot_meta s) (slot_tmp s)) (\<lambda>_. Ret (report\<lparr>crr_corrupt := crr_corrupt report + 1\<rparr>))
          | Some m \<Rightarrow>
              and_then (get_work f (sl_user s) (sl_work s)) (\<lambda>row.
              case row of
                Inl WorkNotFound \<Rightarrow>
                  and_then (discard_candidate_files f (slot_meta s) (slot_tmp s)) (\<lambda>_. Ret (report\<lparr>crr_orphaned := crr_orphaned report + 1\<rparr>))
              | Inl CoverIo \<Rightarrow> Ret (report\<lparr>crr_skipped := crr_skipped report + 1\<rparr>)
              | Inr work \<Rightarrow>
                  and_then (if sl_media s = Audiobook then get_audiobook_cover_manual f (sl_user s) (sl_work s) else Ret (Inr False)) (\<lambda>manual.
                  case manual of
                    Inl _ \<Rightarrow> Ret (report\<lparr>crr_skipped := crr_skipped report + 1\<rparr>)
                  | Inr audiobook_manual \<Rightarrow>
                      recover_pending f s m work (current_state_for_slot work (sl_media s) audiobook_manual) report))))"

text \<open>The names the recovery knows: a number as \<^verbatim>\<open>i64::from_str\<close> reads it, with one of the two suffixes.\<close>

definition decimal_digit :: "char \<Rightarrow> bool" where
  "decimal_digit c \<longleftrightarrow> 48 \<le> (of_char c :: nat) \<and> (of_char c :: nat) \<le> 57"

definition decimal_value :: "string \<Rightarrow> int" where
  "decimal_value s = foldl (\<lambda>n c. 10 * n + (int (of_char c) - 48)) 0 s"

definition parse_i64 :: "string \<Rightarrow> int option" where
  "parse_i64 s =
     (let (negative, digits) = (case s of [] \<Rightarrow> (False, []) | c # cs \<Rightarrow> if c = CHR ''-'' then (True, cs) else if c = CHR ''+'' then (False, cs) else (False, s));
          n = (if negative then - decimal_value digits else decimal_value digits)
      in if digits = [] \<or> (\<exists>c \<in> set digits. \<not> decimal_digit c) \<or> n < - (2 ^ 63) \<or> n \<ge> 2 ^ 63 then None else Some n)"

definition strip_suffix :: "string \<Rightarrow> string \<Rightarrow> string option" where
  "strip_suffix x s = (if length x \<le> length s \<and> drop (length s - length x) s = x then Some (take (length s - length x) s) else None)"

definition parse_candidate_meta_filename :: "string \<Rightarrow> (int \<times> cover_media_type) option" where
  "parse_candidate_meta_filename fname = (case strip_suffix ''.candidate.meta.json'' fname of
       None \<Rightarrow> None
     | Some stem \<Rightarrow> (case strip_suffix ''_audio'' stem of
           Some digits \<Rightarrow> map_option (\<lambda>i. (i, Audiobook)) (parse_i64 digits)
         | None \<Rightarrow> map_option (\<lambda>i. (i, Ebook)) (parse_i64 stem)))"

definition recover_entry :: "cover_env \<Rightarrow> (cover_slot \<Rightarrow> cover_faults) \<Rightarrow> int \<Rightarrow> string \<Rightarrow> cover_recovery_report \<Rightarrow> (cover_world, cover_recovery_report) prog" where
  "recover_entry env f user_id fname report = (case parse_candidate_meta_filename fname of
       None \<Rightarrow> Ret report
     | Some (work_id, media_type) \<Rightarrow>
         (let s = \<lparr>sl_user = user_id, sl_work = work_id, sl_media = media_type\<rparr> in recover_one env (f s) s report))"

text \<open>The users whose directories can be read, in the order of the listing.\<close>

definition recover_pending_cover_writes ::
  "cover_env \<Rightarrow> (cover_slot \<Rightarrow> cover_faults) \<Rightarrow> int list \<Rightarrow> (cover_world, cover_recovery_report) prog" where
  "recover_pending_cover_writes env f users =
     each (\<lambda>user_id report.
       and_then (ask (\<lambda>w. map (snd \<circ> fst) (filter (\<lambda>e. fst (fst e) = user_id) (cv_files w)))) (\<lambda>fnames.
       each (recover_entry env f user_id) fnames report)) users no_cover_report"

end
