(* ===== verification/CoverGuarantees.thy ===== *)
theory CoverGuarantees
  imports CoverGate
begin

text \<open>
  What the cover gate promises: a row and its file change together, whatever fails and wherever the process dies; the user's own
  cover stays; the comparator decides. And where the recovery breaks the promise.
\<close>

section \<open>Files and rows\<close>

lemma cover_file_simps [simp]:
  "cover_file (put_file p c w) q = (if q = p then Some c else cover_file w q)"
  "cover_file (drop_file p w) q = (if q = p then None else cover_file w q)"
  "cover_file (w\<lparr>cv_works := g\<rparr>) q = cover_file w q"
  "cv_works (put_file p c w) = cv_works w" "cv_works (drop_file p w) = cv_works w"
  by (simp_all add: cover_file_def put_file_def drop_file_def update_conv' delete_conv')

lemma move_file_simps:
  "cover_file w a = Some c \<Longrightarrow> fst (move_file a b w)"
  "cover_file w a = Some c \<Longrightarrow> a \<noteq> b \<Longrightarrow> cover_file (snd (move_file a b w)) q = (if q = b then Some c else if q = a then None else cover_file w q)"
  "cv_works (snd (move_file a b w)) = cv_works w"
  by (simp_all add: move_file_def cover_file_def update_conv' delete_conv' split: option.split)

fun slot_of :: "cover_media_type \<Rightarrow> cover_work \<Rightarrow> cover_row" where
  "slot_of Ebook x = cw_ebook x"
| "slot_of Audiobook x = cw_audiobook x"

lemma current_state_slot [simp]: "current_state_for_slot x mt (cr_manual (cw_audiobook x)) = slot_of mt x"
  "mt = Ebook \<Longrightarrow> current_state_for_slot x mt b = slot_of mt x"
  by (cases mt; simp)+

definition slot_row :: "cover_slot \<Rightarrow> cover_world \<Rightarrow> cover_row option" where
  "slot_row s w = map_option (slot_of (sl_media s)) (cv_works w (sl_user s, sl_work s))"

lemma slot_row_simps [simp]:
  "slot_row s (put_file p c w) = slot_row s w" "slot_row s (drop_file p w) = slot_row s w"
  "slot_row s (snd (move_file a b w)) = slot_row s w"
  by (simp_all add: slot_row_def move_file_simps(3))

lemmas cover_paths = slot_tmp_def slot_meta_def slot_final_def candidate_tmp_path_def candidate_meta_path_def final_cover_path_def

lemma slot_paths [simp]:
  "slot_tmp s \<noteq> slot_meta s" "slot_meta s \<noteq> slot_tmp s" "slot_tmp s \<noteq> slot_final s" "slot_final s \<noteq> slot_tmp s"
  "slot_meta s \<noteq> slot_final s" "slot_final s \<noteq> slot_meta s"
  by (simp_all add: cover_paths)

text \<open>The three files of a slot and its row; the thumbnails are others.\<close>

definition slot_eq :: "cover_slot \<Rightarrow> cover_world \<Rightarrow> cover_world \<Rightarrow> bool" where
  "slot_eq s w w' \<longleftrightarrow> slot_row s w' = slot_row s w \<and> cover_file w' (slot_final s) = cover_file w (slot_final s)
     \<and> cover_file w' (slot_tmp s) = cover_file w (slot_tmp s) \<and> cover_file w' (slot_meta s) = cover_file w (slot_meta s)"

lemma slot_eq_refl [simp]: "slot_eq s w w"
  by (simp add: slot_eq_def)

lemma slot_eq_trans: "slot_eq s w w' \<Longrightarrow> slot_eq s w' w'' \<Longrightarrow> slot_eq s w w''"
  by (simp add: slot_eq_def)

lemma slot_eq_thumb: "slot_eq s w (drop_file (sl_user s, show_int (sl_work s) @ suffix_of (sl_media s) @ ''_thumb.jpg'') w)"
  by (simp add: slot_eq_def cover_paths)

lemma slot_eq_audio_thumb: "sl_media s = Ebook \<Longrightarrow> slot_eq s w (drop_file (final_cover_path (sl_user s) (sl_work s) ''_audio_thumb'') w)"
  by (simp add: slot_eq_def cover_paths)

lemma safe_remove: "(\<not> cf_broken f x \<Longrightarrow> J (drop_file p w) \<and> Q () (drop_file p w)) \<Longrightarrow> (cf_broken f x \<Longrightarrow> Q () w) \<Longrightarrow> safe J (remove_cover_file f x p) Q w"
  unfolding remove_cover_file_def by (auto intro: safe_tell)

lemma safe_thumbnails:
  assumes "\<And>w'. slot_eq s w w' \<Longrightarrow> J w'"
  shows "safe J (invalidate_thumbnails f (sl_user s) (sl_work s) (suffix_of (sl_media s)) (sl_media s) sib) (\<lambda>_. slot_eq s w) w"
proof -
  have t: "slot_eq s w (drop_file (final_cover_path (sl_user s) (sl_work s) ''_audio_thumb'') w')" if "slot_eq s w w'" "sl_media s = Ebook" for w'
    using that slot_eq_audio_thumb slot_eq_trans by blast
  show ?thesis unfolding invalidate_thumbnails_def
    by (rule safe_seq [where P = "\<lambda>_. slot_eq s w"], rule safe_remove)
       (use assms slot_eq_thumb t in \<open>auto intro!: safe_remove\<close>)
qed

section \<open>The stages of a cover write\<close>

text \<open>One write: its slot, the candidate with its sidecar, and the world it starts in.\<close>

record cover_case =
  cc_slot :: cover_slot
  cc_meta :: candidate_meta
  cc_image :: "nat list"
  cc_world :: cover_world

abbreviation cc_row where "cc_row x \<equiv> slot_row (cc_slot x)"
abbreviation cc_final where "cc_final x w \<equiv> cover_file w (slot_final (cc_slot x))"
abbreviation cc_tmp where "cc_tmp x w \<equiv> cover_file w (slot_tmp (cc_slot x))"
abbreviation cc_side where "cc_side x w \<equiv> cover_file w (slot_meta (cc_slot x))"

definition as_before :: "cover_case \<Rightarrow> cover_world \<Rightarrow> bool" where
  "as_before x w \<longleftrightarrow> cc_row x w = cc_row x (cc_world x) \<and> cc_final x w = cc_final x (cc_world x)"

definition as_offered :: "cover_case \<Rightarrow> cover_world \<Rightarrow> bool" where
  "as_offered x w \<longleftrightarrow> cc_row x w = Some (meta_row (cc_meta x)) \<and> cc_final x w = Some (cc_image x)"

text \<open>What the environment is taken to do: a sidecar reads back as it was written, and a part of it not at all.\<close>

definition codec_ok :: "cover_env \<Rightarrow> bool" where
  "codec_ok env \<longleftrightarrow> (\<forall>m. \<exists>json. ce_to_vec env m = Some json \<and> ce_from_slice env json = Some m
     \<and> (\<forall>n < length json. ce_from_slice env (take n json) = None))"

definition sidecar :: "cover_env \<Rightarrow> cover_case \<Rightarrow> nat list option" where
  "sidecar env x = ce_to_vec env (cc_meta x)"

definition undecided :: "cover_env \<Rightarrow> cover_case \<Rightarrow> cover_world \<Rightarrow> bool" where
  "undecided env x w \<longleftrightarrow> as_before x w \<and>
     (case cc_side x w of None \<Rightarrow> True
      | Some json \<Rightarrow> ce_from_slice env json = None \<or> Some json = sidecar env x \<and> cc_tmp x w = Some (cc_image x))"

definition committed :: "cover_env \<Rightarrow> cover_case \<Rightarrow> cover_world \<Rightarrow> bool" where
  "committed env x w \<longleftrightarrow> cc_row x w = Some (meta_row (cc_meta x)) \<and> cc_final x w = cc_final x (cc_world x)
     \<and> cc_tmp x w = Some (cc_image x) \<and> cc_side x w = sidecar env x"

definition in_place :: "cover_env \<Rightarrow> cover_case \<Rightarrow> cover_world \<Rightarrow> bool" where
  "in_place env x w \<longleftrightarrow> as_offered x w \<and> (cc_side x w = None \<or> cc_tmp x w = None \<and> cc_side x w = sidecar env x)"

definition cut_short :: "cover_env \<Rightarrow> cover_case \<Rightarrow> cover_world \<Rightarrow> bool" where
  "cut_short env x w \<longleftrightarrow> undecided env x w \<or> committed env x w \<or> in_place env x w"

definition cover_case_ok :: "cover_env \<Rightarrow> cover_case \<Rightarrow> bool" where
  "cover_case_ok env x \<longleftrightarrow> codec_ok env \<and> absolute_http_cover_url (cm_url (cc_meta x)) = cm_url (cc_meta x)
     \<and> cc_row x (cc_world x) \<noteq> None \<and> cc_side x (cc_world x) = None"

lemma sidecarE:
  assumes "codec_ok env"
  obtains json where "sidecar env x = Some json" "ce_from_slice env json = Some (cc_meta x)" "\<And>n. n < length json \<Longrightarrow> ce_from_slice env (take n json) = None"
  using assms unfolding codec_ok_def sidecar_def by blast

definition ready :: "cover_env \<Rightarrow> cover_case \<Rightarrow> cover_world \<Rightarrow> bool" where
  "ready env x w \<longleftrightarrow> as_before x w \<and> cc_side x w = sidecar env x \<and> cc_tmp x w = Some (cc_image x)"

lemma cut_short_undecided: "undecided env x w \<Longrightarrow> cut_short env x w"
  by (simp add: cut_short_def)

lemma no_side_undecided: "as_before x w \<Longrightarrow> cc_side x w = None \<Longrightarrow> undecided env x w"
  by (simp add: undecided_def)

lemma safe_write_whole:
  assumes "\<And>n. J (put_file p (take n c) w)" and "J w" and "Q False w" and "\<And>n. Q False (put_file p (take n c) w)"
    and "\<And>b. Q b (put_file p c w)"
  shows "safe J (write_whole f cr wr sy part p c) Q w"
proof -
  have put: "put_file p a (put_file p b v) = put_file p a v" for a b v by (simp add: put_file_def)
  have 0: "J (put_file p [] w)" using assms(1) [of 0] by simp
  have 1: "J (put_file p c w)" using assms(1) [of "length c"] by simp
  show ?thesis unfolding write_whole_def
    by (intro safe_if safe_seq [where P = "\<lambda>_ v. v = put_file p [] w"] safe_seq [where P = "\<lambda>_ v. v = put_file p (take part c) w"]
        safe_seq [where P = "\<lambda>_ v. v = put_file p c w"]) (use assms 0 1 in \<open>auto intro!: safe_tell simp: put\<close>)
qed

lemma safe_write_candidate:
  assumes x: "cover_case_ok env x" and w: "as_before x w" "cc_side x w = None"
  shows "safe (cut_short env x) (write_candidate_files env f (slot_tmp (cc_slot x)) (slot_meta (cc_slot x)) (cc_image x) (cc_meta x))
    (\<lambda>written v. cut_short env x v \<and> as_before x v \<and> (written \<longrightarrow> ready env x v)) w"
proof -
  obtain json where j: "sidecar env x = Some json" "ce_from_slice env json = Some (cc_meta x)" "\<And>n. n < length json \<Longrightarrow> ce_from_slice env (take n json) = None"
    using sidecarE x unfolding cover_case_ok_def by metis
  have tmp: "undecided env x (put_file (slot_tmp (cc_slot x)) c w)" for c using w by (simp add: undecided_def as_before_def)
  let ?v = "put_file (slot_tmp (cc_slot x)) (cc_image x) w"
  have side: "undecided env x (put_file (slot_meta (cc_slot x)) (take n json) ?v)" for n
    using w j by (cases "n < length json") (simp_all add: undecided_def as_before_def)
  have all: "undecided env x (put_file (slot_meta (cc_slot x)) json ?v)" using side [of "length json"] by simp
  have rdy: "ready env x (put_file (slot_meta (cc_slot x)) json ?v)" using w j by (simp add: ready_def as_before_def)
  have und: "undecided env x w" using w by (simp add: no_side_undecided)
  have before: "as_before x v" if "undecided env x v" for v using that by (simp add: undecided_def)
  have first: "safe (cut_short env x) (write_whole f TmpCreate TmpWrite TmpSync (cf_tmp_cut f) (slot_tmp (cc_slot x)) (cc_image x))
      (\<lambda>written v. undecided env x v \<and> (written \<longrightarrow> v = ?v)) w"
    by (rule safe_write_whole) (use tmp und in \<open>auto simp: cut_short_undecided\<close>)
  have second: "safe (cut_short env x) (write_whole f MetaCreate MetaWrite MetaSync (cf_meta_cut f) (slot_meta (cc_slot x)) json)
      (\<lambda>written v. cut_short env x v \<and> as_before x v \<and> (written \<longrightarrow> ready env x v)) ?v"
    by (rule safe_write_whole) (use side tmp all rdy before in \<open>auto simp: cut_short_undecided\<close>)
  show ?thesis unfolding write_candidate_files_def j(1) [unfolded sidecar_def] option.case
    by (rule safe_seq [OF first]) (auto intro!: second [simplified] simp: cut_short_undecided before)
qed

lemma safe_discard:
  assumes "\<not> cf_broken f RemoveMeta" and w: "as_before x w"
  shows "safe (cut_short env x) (discard_candidate_files f (slot_meta (cc_slot x)) (slot_tmp (cc_slot x))) (\<lambda>_. cut_short env x) w"
proof -
  have und: "cut_short env x v" if "as_before x v" "cc_side x v = None" for v using that by (simp add: cut_short_undecided no_side_undecided)
  have drop: "as_before x (drop_file (slot_meta (cc_slot x)) w)" using w by (simp add: as_before_def)
  have drop2: "as_before x (drop_file (slot_tmp (cc_slot x)) v)" if "as_before x v" for v using that by (simp add: as_before_def)
  show ?thesis unfolding discard_candidate_files_def
    by (rule safe_seq [where P = "\<lambda>_ v. as_before x v \<and> cc_side x v = None"])
       (use assms(1) und drop drop2 in \<open>auto intro!: safe_remove\<close>)
qed

lemma safe_update_slot:
  assumes "cc_row x w \<noteq> None" and "\<And>w'. cc_row x w' = Some (meta_row m) \<Longrightarrow> (\<And>p. cover_file w' p = cover_file w p) \<Longrightarrow> J w' \<and> Q (Inr ()) w'"
    and "\<And>e. Q (Inl e) w"
  shows "safe J (update_slot f (sl_user (cc_slot x)) (sl_work (cc_slot x)) (sl_media (cc_slot x)) m) Q w"
proof -
  obtain work where work: "cv_works w (sl_user (cc_slot x), sl_work (cc_slot x)) = Some work" using assms(1) by (auto simp: slot_row_def)
  have g: "J (w\<lparr>cv_works := (cv_works w)((sl_user (cc_slot x), sl_work (cc_slot x)) \<mapsto> work')\<rparr>)
      \<and> Q (Inr ()) (w\<lparr>cv_works := (cv_works w)((sl_user (cc_slot x), sl_work (cc_slot x)) \<mapsto> work')\<rparr>)"
    if "slot_of (sl_media (cc_slot x)) work' = meta_row m" for work'
    by (rule assms(2)) (simp_all add: slot_row_def that)
  show ?thesis
    by (cases "sl_media (cc_slot x)"; cases "cf_broken f RowWrite")
       (use g work assms(3) in \<open>auto intro!: safe_atomic simp: update_cover_metadata_def update_audiobook_cover_metadata_def update_work_def\<close>)
qed

lemma in_place_eq: "in_place env x w \<Longrightarrow> slot_eq (cc_slot x) w w' \<Longrightarrow> in_place env x w'"
  by (simp add: in_place_def as_offered_def slot_eq_def)

lemma safe_commit:
  assumes x: "cover_case_ok env x" and f: "\<not> cf_broken f RenameCover" and w: "ready env x w"
  shows "safe (cut_short env x) (commit_and_finalize f (cc_slot x) sib (cc_meta x) (cc_image x)) (\<lambda>_. cut_short env x) w"
proof -
  let ?s = "cc_slot x"
  have row: "cc_row x w \<noteq> None" using x w by (simp add: cover_case_ok_def ready_def as_before_def)
  have und: "undecided env x w" using w by (auto simp: ready_def undecided_def split: option.split)
  have com: "committed env x v" if "cc_row x v = Some (meta_row (cc_meta x))" "\<And>p. cover_file v p = cover_file w p" for v
    using w that by (simp add: committed_def ready_def as_before_def)
  have upd: "safe (cut_short env x) (update_slot f (sl_user ?s) (sl_work ?s) (sl_media ?s) (cc_meta x))
      (\<lambda>r v. case r of Inl _ \<Rightarrow> cut_short env x v | Inr _ \<Rightarrow> committed env x v) w"
    by (rule safe_update_slot [OF row]) (use com und in \<open>auto simp: cut_short_def\<close>)
  have mv: "fst (move_file (slot_tmp ?s) (slot_final ?s) v) \<and> in_place env x (snd (move_file (slot_tmp ?s) (slot_final ?s) v))"
    if "committed env x v" for v
    using that move_file_simps(1,2) [of v "slot_tmp ?s" "cc_image x" "slot_final ?s"] by (simp add: committed_def in_place_def as_offered_def)
  have ren: "safe (cut_short env x) (rename_cover f (slot_tmp ?s) (slot_final ?s)) (\<lambda>r v. r \<and> in_place env x v) v" if "committed env x v" for v
    unfolding rename_cover_def using f mv [OF that] by (auto intro!: safe_atomic simp: cut_short_def)
  have rm: "safe (cut_short env x) (remove_cover_file f RemoveMeta (slot_meta ?s)) (\<lambda>_. in_place env x) v" if "in_place env x v" for v
    by (rule safe_remove) (use that in \<open>auto simp: in_place_def as_offered_def cut_short_def\<close>)
  have th: "safe (cut_short env x) (invalidate_thumbnails f (sl_user ?s) (sl_work ?s) (suffix_of (sl_media ?s)) (sl_media ?s) sib) (\<lambda>_. in_place env x) v"
    if "in_place env x v" for v
    by (rule safe_weaken [OF safe_thumbnails]) (use that in_place_eq in \<open>auto simp: cut_short_def\<close>)
  have fin: "cut_short env x v" if "in_place env x v" for v using that by (simp add: cut_short_def)
  show ?thesis unfolding commit_and_finalize_def
    by (rule safe_seq [OF upd], rule safe_sum, simp, simp)
       (rule safe_seq [OF ren], simp, rule safe_if, simp, rule safe_seq [OF rm], simp, rule safe_seq [OF th], simp, simp add: fin)
qed

section \<open>The two entries\<close>

text \<open>A write is the gate's, of a ranked candidate, or the user's.\<close>

datatype cover_request = Ranked string string | Chosen user_cover_payload

definition cover_write :: "cover_env \<Rightarrow> cover_faults \<Rightarrow> cover_slot \<Rightarrow> cover_request \<Rightarrow> (cover_world, unit) prog" where
  "cover_write env f s req = (case req of
       Ranked url source \<Rightarrow> and_then (run_cover_write_gate env f s url source) (\<lambda>_. Ret ())
     | Chosen payload \<Rightarrow> and_then (run_user_cover_write env f s payload) (\<lambda>_. Ret ()))"

definition request_candidate :: "cover_env \<Rightarrow> cover_request \<Rightarrow> (nat list \<times> candidate_meta) option" where
  "request_candidate env req = (case req of
       Ranked url source \<Rightarrow> (case fetch_candidate_bytes env url of
           Inl _ \<Rightarrow> None
         | Inr (img, w, h) \<Rightarrow> Some (img, \<lparr>cm_url = Some url, cm_source = source, cm_manual = False, cm_width = w, cm_height = h\<rparr>))
     | Chosen payload \<Rightarrow> (case user_candidate env payload of Inl _ \<Rightarrow> None | Inr c \<Rightarrow> Some c))"

lemma safe_protocol:
  assumes x: "cover_case_ok env x" and w: "as_before x w" "cc_side x w = None"
    and f: "\<not> cf_broken f RenameCover" "\<not> cf_broken f RemoveMeta"
  shows "safe (cut_short env x)
    (and_then (write_candidate_files env f (slot_tmp (cc_slot x)) (slot_meta (cc_slot x)) (cc_image x) (cc_meta x)) (\<lambda>written.
       if \<not> written then and_then (discard_candidate_files f (slot_meta (cc_slot x)) (slot_tmp (cc_slot x))) (\<lambda>_. Ret a)
       else if \<not> accept then and_then (discard_candidate_files f (slot_meta (cc_slot x)) (slot_tmp (cc_slot x))) (\<lambda>_. Ret b)
       else and_then (commit_and_finalize f (cc_slot x) sib (cc_meta x) (cc_image x)) (\<lambda>r. Ret (k r))))
    (\<lambda>_. cut_short env x) w"
proof (rule safe_seq [OF safe_write_candidate [OF x w]])
  fix written v assume v: "cut_short env x v \<and> as_before x v \<and> (written \<longrightarrow> ready env x v)"
  have disc: "safe (cut_short env x) (and_then (discard_candidate_files f (slot_meta (cc_slot x)) (slot_tmp (cc_slot x))) (\<lambda>_. Ret c))
      (\<lambda>_. cut_short env x) v" for c
    by (rule safe_seq [OF safe_discard [OF f(2)]]) (use v in simp_all)
  have com: "safe (cut_short env x) (and_then (commit_and_finalize f (cc_slot x) sib (cc_meta x) (cc_image x)) (\<lambda>r. Ret (k r)))
      (\<lambda>_. cut_short env x) v" if written
    by (intro safe_seq [OF safe_commit [OF x f(1)]]) (use v that in simp_all)
  show "safe (cut_short env x) (if \<not> written then and_then (discard_candidate_files f (slot_meta (cc_slot x)) (slot_tmp (cc_slot x))) (\<lambda>_. Ret a)
      else if \<not> accept then and_then (discard_candidate_files f (slot_meta (cc_slot x)) (slot_tmp (cc_slot x))) (\<lambda>_. Ret b)
      else and_then (commit_and_finalize f (cc_slot x) sib (cc_meta x) (cc_image x)) (\<lambda>r. Ret (k r)))
      (\<lambda>_. cut_short env x) v"
    using disc com by (intro safe_if) simp_all
qed

lemma and_then_Ret: "and_then p Ret = p"
proof (induction p rule: prog_induct)
  case (Act f)
  have "(\<lambda>s. map_prod (\<lambda>p. and_then p Ret) (\<lambda>s. s) (f s)) = f" using Act by (simp add: fun_eq_iff map_prod_def case_prod_beta)
  then show ?case by (simp add: comp_def)
qed simp

lemma case_start:
  assumes "cover_case_ok env x"
  shows "as_before x (cc_world x)" and "cc_side x (cc_world x) = None" and "cut_short env x (cc_world x)"
  using assms by (simp_all add: cover_case_ok_def as_before_def cut_short_def undecided_def)

lemma safe_offer:
  assumes x: "cover_case_ok env x" and f: "\<not> cf_broken f RenameCover" "\<not> cf_broken f RemoveMeta"
    and cand: "\<And>c. request_candidate env (Ranked url source) = Some c \<Longrightarrow> c = (cc_image x, cc_meta x)"
  shows "safe (cut_short env x) (offer_candidate env f (cc_slot x) work current url source) (\<lambda>_. cut_short env x) (cc_world x)"
proof (cases "fetch_candidate_bytes env url")
  case (Inr r)
  obtain img w h where r: "r = (img, w, h)" by (cases r)
  then have c: "cc_image x = img" "cc_meta x = \<lparr>cm_url = Some url, cm_source = source, cm_manual = False, cm_width = w, cm_height = h\<rparr>"
    using cand Inr by (simp_all add: request_candidate_def)
  note prot = safe_protocol [OF x case_start(1,2) [OF x] f, of DownloadFailed "gate_accepts env (cc_slot x) work current (cc_meta x)" Rejected
      "cr_url (cw_audiobook work)" "\<lambda>r. r", unfolded and_then_Ret c]
  show ?thesis unfolding offer_candidate_def Inr r sum.case prod.case Let_def
    by (rule safe_if, simp add: case_start(3) [OF x]) (rule prot)
qed (use case_start(3) [OF x] in \<open>simp add: offer_candidate_def\<close>)

lemma safe_gate:
  assumes x: "cover_case_ok env x" and f: "\<not> cf_broken f RenameCover" "\<not> cf_broken f RemoveMeta"
    and cand: "\<And>c. request_candidate env (Ranked url source) = Some c \<Longrightarrow> c = (cc_image x, cc_meta x)"
  shows "safe (cut_short env x) (run_cover_write_gate env f (cc_slot x) url source) (\<lambda>_. cut_short env x) (cc_world x)"
proof -
  let ?w = "cc_world x"
  note here = case_start(3) [OF x]
  have stat: "safe (cut_short env x) (try_exists f y p) (\<lambda>_ v. v = ?w) ?w" for y p unfolding try_exists_def by (rule safe_ask) (simp_all add: here)
  have locked: "safe (cut_short env x) (locked_file_exists f (cc_slot x) m) (\<lambda>_ v. v = ?w) ?w" for m
    unfolding locked_file_exists_def by (intro safe_if safe_seq [OF stat]) (auto intro: stat)
  have already: "safe (cut_short env x) (and_then (if cr_url current = Some url then try_exists f CurrentStat (slot_final (cc_slot x)) else Ret False)
      (\<lambda>already. if already then Ret AlreadyCurrent else offer_candidate env f (cc_slot x) work current url source)) (\<lambda>_. cut_short env x) ?w"
    for work current
    by (rule safe_seq [where P = "\<lambda>_ v. v = ?w"]) (use stat here safe_offer [OF x f cand] in auto)
  have blocked: "safe (cut_short env x) (and_then (locked_file_exists f (cc_slot x) (cr_manual current)) (\<lambda>file_exists.
      if manual_selection_blocks_candidate (cr_manual current) file_exists then Ret NoOp
      else and_then (if cr_url current = Some url then try_exists f CurrentStat (slot_final (cc_slot x)) else Ret False)
        (\<lambda>already. if already then Ret AlreadyCurrent else offer_candidate env f (cc_slot x) work current url source))) (\<lambda>_. cut_short env x) ?w"
    for work current
    by (rule safe_seq [OF locked]) (use here already in auto)
  have manual: "safe (cut_short env x) (if sl_media (cc_slot x) = Audiobook then get_audiobook_cover_manual f (sl_user (cc_slot x)) (sl_work (cc_slot x)) else Ret (Inr False))
      (\<lambda>_ v. v = ?w) ?w"
    unfolding get_audiobook_cover_manual_def by (auto intro: safe_ask simp: here)
  have row: "safe (cut_short env x) (get_work f (sl_user (cc_slot x)) (sl_work (cc_slot x))) (\<lambda>_ v. v = ?w) ?w"
    unfolding get_work_def by (rule safe_ask) (simp_all add: here)
  show ?thesis unfolding run_cover_write_gate_def
    by (rule safe_seq [OF row], hypsubst, rule safe_sum, simp add: here, rule safe_seq [OF manual], hypsubst,
        rule safe_sum, simp add: here, simp add: Let_def blocked)
qed

lemma safe_user_write:
  assumes x: "cover_case_ok env x" and f: "\<not> cf_broken f RenameCover" "\<not> cf_broken f RemoveMeta"
    and cand: "\<And>c. request_candidate env (Chosen payload) = Some c \<Longrightarrow> c = (cc_image x, cc_meta x)"
  shows "safe (cut_short env x) (run_user_cover_write env f (cc_slot x) payload) (\<lambda>_. cut_short env x) (cc_world x)"
proof -
  let ?w = "cc_world x"
  note here = case_start(3) [OF x]
  have row: "safe (cut_short env x) (get_work f (sl_user (cc_slot x)) (sl_work (cc_slot x))) (\<lambda>_ v. v = ?w) ?w"
    unfolding get_work_def by (rule safe_ask) (simp_all add: here)
  have prot: "safe (cut_short env x) (and_then (write_candidate_files env f (slot_tmp (cc_slot x)) (slot_meta (cc_slot x)) (cc_image x) (cc_meta x)) (\<lambda>written.
       if \<not> written then and_then (discard_candidate_files f (slot_meta (cc_slot x)) (slot_tmp (cc_slot x))) (\<lambda>_. Ret (Inr DownloadFailed :: string + gate_outcome))
       else and_then (commit_and_finalize f (cc_slot x) sib (cc_meta x) (cc_image x)) (\<lambda>r. Ret (Inr r)))) (\<lambda>_. cut_short env x) ?w" for sib
    using safe_protocol [OF x case_start(1,2) [OF x] f, of "Inr DownloadFailed :: string + gate_outcome" True "Inr DownloadFailed" sib Inr]
    unfolding not_True_eq_False if_False .
  show ?thesis
  proof (cases "user_candidate env payload")
    case (Inr c)
    then have c: "c = (cc_image x, cc_meta x)" using cand by (simp add: request_candidate_def)
    show ?thesis unfolding run_user_cover_write_def Inr c sum.case prod.case
      by (rule safe_seq [OF row], rule safe_sum, simp add: here, rule safe_if, simp add: here, simp add: prot)
  next
    case (Inl e)
    show ?thesis unfolding run_user_cover_write_def Inl sum.case
      by (rule safe_seq [OF row], rule safe_sum, simp add: here, rule safe_if) (simp_all add: here)
  qed
qed

lemma cover_write_cut:
  assumes "cover_case_ok env x" and "\<not> cf_broken f RenameCover" "\<not> cf_broken f RemoveMeta"
    and "\<And>c. request_candidate env req = Some c \<Longrightarrow> c = (cc_image x, cc_meta x)"
    and "left_of (cover_write env f (cc_slot x) req) (cc_world x) rest w"
  shows "cut_short env x w"
proof -
  have "safe (cut_short env x) (cover_write env f (cc_slot x) req) (\<lambda>_. cut_short env x) (cc_world x)"
    by (cases req) (use assms(4) in \<open>auto simp: cover_write_def intro!: safe_seq [OF safe_gate [OF assms(1-3)]] safe_seq [OF safe_user_write [OF assms(1-3)]]\<close>)
  then show ?thesis using honours_left [OF assms(5)] case_start(3) [OF assms(1)] unfolding safe_def by blast
qed

section \<open>Recovery\<close>

lemma calm_simps [simp]: "cf_broken calm y = False"
  by (simp add: calm_def)

lemma run_remove [simp]: "run (remove_cover_file calm y p) w = ((), drop_file p w)"
  by (simp add: remove_cover_file_def)

lemma run_thumbnails:
  "slot_eq s w (snd (run (invalidate_thumbnails calm (sl_user s) (sl_work s) (suffix_of (sl_media s)) (sl_media s) sib) w))"
  using slot_eq_thumb [of s w] slot_eq_trans slot_eq_audio_thumb by (auto simp: invalidate_thumbnails_def)

lemma run_row:
  assumes "slot_row s w = Some r"
  obtains work where "cv_works w (sl_user s, sl_work s) = Some work" "slot_of (sl_media s) work = r"
  using assms by (auto simp: slot_row_def)

lemma run_recover_one:
  assumes "cover_file w (slot_meta s) = Some json" and "ce_from_slice env json = Some m" and "cv_works w (sl_user s, sl_work s) = Some work"
  shows "run (recover_one env calm s report) w = run (recover_pending calm s m work (slot_of (sl_media s) work) report) w"
  using assms by (cases "sl_media s") (simp_all add: recover_one_def get_work_def get_audiobook_cover_manual_def)

lemma meta_row_matches: "absolute_http_cover_url (cm_url m) = cm_url m \<Longrightarrow> row_matches_meta r m \<longleftrightarrow> r = meta_row m"
  by (cases r) (auto simp: row_matches_meta_def meta_row_def)

text \<open>What the recovery does with a sidecar, as far as the slot is concerned.\<close>

lemma run_recover_pending:
  fixes m :: candidate_meta and report :: cover_recovery_report
  assumes "slot_row s w = Some (slot_of (sl_media s) work)"
  defines "v \<equiv> snd (run (recover_pending calm s m work (slot_of (sl_media s) work) report) w)"
  shows "cover_file w (slot_tmp s) = Some c \<Longrightarrow> row_matches_meta (slot_of (sl_media s) work) m \<Longrightarrow>
      slot_row s v = slot_row s w \<and> cover_file v (slot_final s) = Some c \<and> cover_file v (slot_meta s) = None"
    and "cover_file w (slot_tmp s) = Some c \<Longrightarrow> \<not> row_matches_meta (slot_of (sl_media s) work) m \<Longrightarrow>
      slot_row s v = slot_row s w \<and> cover_file v (slot_final s) = cover_file w (slot_final s) \<and> cover_file v (slot_meta s) = None"
    and "cover_file w (slot_tmp s) = None \<Longrightarrow>
      slot_row s v = Some (if row_matches_meta (slot_of (sl_media s) work) m then slot_of (sl_media s) work else meta_row m)
      \<and> cover_file v (slot_final s) = cover_file w (slot_final s) \<and> cover_file v (slot_meta s) = None \<and> cover_file v (slot_tmp s) = None"
proof -
  let ?th = "invalidate_thumbnails calm (sl_user s) (sl_work s) (suffix_of (sl_media s)) (sl_media s) (cr_url (cw_audiobook work))"
  let ?v = "\<lambda>u. snd (run ?th (drop_file (slot_meta s) u))"
  have th: "slot_row s (?v u) = slot_row s u \<and> cover_file (?v u) (slot_final s) = cover_file u (slot_final s) \<and> cover_file (?v u) (slot_meta s) = None
      \<and> cover_file (?v u) (slot_tmp s) = cover_file u (slot_tmp s)" for u
    using run_thumbnails [of s "drop_file (slot_meta s) u" "cr_url (cw_audiobook work)"] by (simp add: slot_eq_def)
  obtain work' where w: "cv_works w (sl_user s, sl_work s) = Some work'" using assms(1) by (auto simp: slot_row_def)
  let ?d = "snd (move_file (slot_tmp s) (slot_final s) w)"
  show "slot_row s v = slot_row s w \<and> cover_file v (slot_final s) = Some c \<and> cover_file v (slot_meta s) = None"
    if t: "cover_file w (slot_tmp s) = Some c" and m: "row_matches_meta (slot_of (sl_media s) work) m"
  proof -
    have mv: "run (rename_cover calm (slot_tmp s) (slot_final s)) w = (True, ?d)" using t by (simp add: move_file_def rename_cover_def)
    have "v = ?v ?d" using t m by (simp add: v_def recover_pending_def try_exists_def mv case_prod_beta)
    then show ?thesis using th [of ?d] move_file_simps(2) [OF t, of "slot_final s" "slot_final s"] by simp
  qed
  show "slot_row s v = slot_row s w \<and> cover_file v (slot_final s) = cover_file w (slot_final s) \<and> cover_file v (slot_meta s) = None"
    if "cover_file w (slot_tmp s) = Some c" and "\<not> row_matches_meta (slot_of (sl_media s) work) m"
    using that by (simp add: v_def recover_pending_def try_exists_def)
  show "slot_row s v = Some (if row_matches_meta (slot_of (sl_media s) work) m then slot_of (sl_media s) work else meta_row m)
      \<and> cover_file v (slot_final s) = cover_file w (slot_final s) \<and> cover_file v (slot_meta s) = None \<and> cover_file v (slot_tmp s) = None"
    if t: "cover_file w (slot_tmp s) = None"
  proof (cases "row_matches_meta (slot_of (sl_media s) work) m")
    case True
    have "v = ?v w" using t True by (simp add: v_def recover_pending_def try_exists_def case_prod_beta)
    then show ?thesis using th [of w] assms(1) True t by simp
  next
    case False
    define u where "u = snd (run (update_slot calm (sl_user s) (sl_work s) (sl_media s) m) w)"
    have "v = ?v u" using t False by (simp add: v_def u_def recover_pending_def try_exists_def case_prod_beta)
    moreover have "slot_row s u = Some (meta_row m) \<and> cover_file u (slot_final s) = cover_file w (slot_final s)
        \<and> cover_file u (slot_tmp s) = cover_file w (slot_tmp s)"
      by (cases "sl_media s") (simp_all add: u_def update_cover_metadata_def update_audiobook_cover_metadata_def update_work_def w slot_row_def)
    ultimately show ?thesis using th [of u] False t by simp
  qed
qed

lemma run_recover_corrupt:
  assumes "cover_file w (slot_meta s) = Some json" and "ce_from_slice env json = None"
  shows "snd (run (recover_one env calm s report) w) = drop_file (slot_tmp s) (drop_file (slot_meta s) w)"
  using assms by (simp add: recover_one_def discard_candidate_files_def)

lemma recovery_converges:
  fixes report :: cover_recovery_report
  assumes x: "cover_case_ok env x" and w: "cut_short env x w"
  defines "v \<equiv> snd (run (recover_one env calm (cc_slot x) report) w)"
  shows "cc_side x v = None \<and> (as_before x v \<or> as_offered x v)"
proof -
  let ?s = "cc_slot x" and ?m = "cc_meta x"
  obtain json where j: "sidecar env x = Some json" "ce_from_slice env json = Some ?m" using sidecarE x unfolding cover_case_ok_def by metis
  have abs: "absolute_http_cover_url (cm_url ?m) = cm_url ?m" and r0: "cc_row x (cc_world x) \<noteq> None" using x by (auto simp: cover_case_ok_def)
  have "cc_row x w \<noteq> None" using w r0 by (auto simp: cut_short_def undecided_def committed_def in_place_def as_before_def as_offered_def)
  then obtain work where work: "cv_works w (sl_user ?s, sl_work ?s) = Some work" "cc_row x w = Some (slot_of (sl_media ?s) work)" by (auto simp: slot_row_def)
  have idle: "v = w" if "cc_side x w = None" using that by (simp add: v_def recover_one_def)
  have pend: "v = snd (run (recover_pending calm ?s ?m work (slot_of (sl_media ?s) work) report) w)" if "cc_side x w = sidecar env x"
    using run_recover_one [OF _ j(2) work(1), of report] that j(1) by (simp add: v_def)
  note rp = run_recover_pending [OF work(2), where m = ?m and report = report]
  consider "undecided env x w" | "committed env x w" | "in_place env x w" using w by (auto simp: cut_short_def)
  then show ?thesis
  proof cases
    case 1
    show ?thesis
    proof (cases "cc_side x w")
      case None
      then show ?thesis using 1 idle by (simp add: undecided_def)
    next
      case (Some json')
      show ?thesis
      proof (cases "ce_from_slice env json' = None")
        case True
        then show ?thesis using 1 run_recover_corrupt [OF Some True, of report] by (simp add: v_def undecided_def as_before_def)
      next
        case False
        then have full: "cc_side x w = sidecar env x" "cc_tmp x w = Some (cc_image x)" "as_before x w" using 1 Some by (auto simp: undecided_def)
        show ?thesis
        proof (cases "row_matches_meta (slot_of (sl_media ?s) work) ?m")
          case True
          then show ?thesis using rp(1) [OF full(2) True] pend [OF full(1)] work(2) meta_row_matches [OF abs] by (simp add: as_offered_def)
        next
          case no: False
          then show ?thesis using rp(2) [OF full(2) no] pend [OF full(1)] full(3) by (simp add: as_before_def)
        qed
      qed
    qed
  next
    case 2
    then have c: "cc_tmp x w = Some (cc_image x)" "cc_side x w = sidecar env x" "slot_of (sl_media ?s) work = meta_row ?m"
      using work(2) by (auto simp: committed_def)
    then show ?thesis using rp(1) [OF c(1)] pend [OF c(2)] meta_row_matches [OF abs] work(2) by (simp add: as_offered_def)
  next
    case 3
    show ?thesis
    proof (cases "cc_side x w = None")
      case True
      then show ?thesis using 3 idle by (simp add: in_place_def)
    next
      case False
      then have c: "cc_tmp x w = None" "cc_side x w = sidecar env x" "as_offered x w" using 3 by (auto simp: in_place_def)
      then have m: "slot_of (sl_media ?s) work = meta_row ?m" using work(2) by (simp add: as_offered_def)
      then show ?thesis using rp(3) [OF c(1)] pend [OF c(2)] c(3) by (simp add: as_offered_def)
    qed
  qed
qed

section \<open>The user's cover\<close>

text \<open>
  C38 (safety): No ranked candidate touches a cover that the user has chosen: as long as its file, or the sidecar of its pending write, can be seen, the gate
  changes nothing, whatever else fails and wherever it is cut off.
\<close>

theorem chosen_cover_is_kept:
  assumes "slot_row s w = Some r" and "cr_manual r" and "cover_file w (slot_final s) \<noteq> None \<or> cover_file w (slot_meta s) \<noteq> None"
    and "\<not> cf_broken f LockedStat" and "\<not> cf_broken f LockedMetaStat"
    and "left_of (run_cover_write_gate env f s url source) w rest w'"
  shows "w' = w"
proof -
  let ?J = "\<lambda>v. v = w"
  obtain work where work: "cv_works w (sl_user s, sl_work s) = Some work" "slot_of (sl_media s) work = r" using assms(1) run_row by metis
  have row: "safe ?J (get_work f (sl_user s) (sl_work s)) (\<lambda>a v. v = w \<and> (\<forall>x. a = Inr x \<longrightarrow> x = work)) w"
    unfolding get_work_def by (rule safe_ask) (auto simp: work(1))
  have manual: "safe ?J (if sl_media s = Audiobook then get_audiobook_cover_manual f (sl_user s) (sl_work s) else Ret (Inr False))
      (\<lambda>a v. v = w \<and> (\<forall>b. a = Inr b \<longrightarrow> cr_manual (current_state_for_slot work (sl_media s) b))) w"
    using assms(2) work unfolding get_audiobook_cover_manual_def by (cases "sl_media s") (auto intro!: safe_ask split: if_splits)
  have stat: "safe ?J (try_exists f y p) (\<lambda>b v. v = w \<and> b = (cover_file w p \<noteq> None)) w" if "\<not> cf_broken f y" for y p
    unfolding try_exists_def by (rule safe_ask) (simp_all add: that)
  have locked: "safe ?J (locked_file_exists f s True) (\<lambda>b v. v = w \<and> b) w"
    unfolding locked_file_exists_def if_True
    by (rule safe_seq [OF stat [OF assms(4)]], clarify, rule safe_if, simp, rule safe_weaken [OF stat [OF assms(5)]]) (use assms(3) in auto)
  have blocked: "safe ?J (and_then (locked_file_exists f s (cr_manual c)) (\<lambda>file_exists. if manual_selection_blocks_candidate (cr_manual c) file_exists then Ret NoOp
      else q)) (\<lambda>_. ?J) w" if "cr_manual c" for c q
    using that by (simp add: manual_selection_blocks_candidate_def) (rule safe_seq [OF locked], simp)
  have "safe ?J (run_cover_write_gate env f s url source) (\<lambda>_. ?J) w"
    unfolding run_cover_write_gate_def
    by (rule safe_seq [OF row], clarify, rule safe_sum, simp, drule spec, drule mp, assumption, hypsubst, rule safe_seq [OF manual], clarify,
        rule safe_sum, simp, unfold Let_def, rule blocked, simp)
  then show ?thesis using honours_left [OF assms(6)] unfolding safe_def by blast
qed

section \<open>Undisturbed writes\<close>

definition ranked_meta :: "string \<Rightarrow> string \<Rightarrow> int \<Rightarrow> int \<Rightarrow> candidate_meta" where
  "ranked_meta url source width height = \<lparr>cm_url = Some url, cm_source = source, cm_manual = False, cm_width = width, cm_height = height\<rparr>"

text \<open>The guards let a candidate pass: the cover is not the user's own, and it is not the one that is there.\<close>

definition open_slot :: "cover_slot \<Rightarrow> string \<Rightarrow> cover_work \<Rightarrow> cover_world \<Rightarrow> bool" where
  "open_slot s url work w \<longleftrightarrow> cv_works w (sl_user s, sl_work s) = Some work \<and> cover_file w (slot_meta s) = None
     \<and> \<not> (cr_manual (slot_of (sl_media s) work) \<and> cover_file w (slot_final s) \<noteq> None)
     \<and> \<not> (cr_url (slot_of (sl_media s) work) = Some url \<and> cover_file w (slot_final s) \<noteq> None)"

definition manual_answer :: "cover_slot \<Rightarrow> cover_work \<Rightarrow> bool" where
  "manual_answer s work \<longleftrightarrow> sl_media s = Audiobook \<and> cr_manual (cw_audiobook work)"

lemma run_manual:
  assumes "cv_works w (sl_user s, sl_work s) = Some work"
  shows "run (if sl_media s = Audiobook then get_audiobook_cover_manual calm (sl_user s) (sl_work s) else Ret (Inr False)) w = (Inr (manual_answer s work), w)"
    and "current_state_for_slot work (sl_media s) (manual_answer s work) = slot_of (sl_media s) work"
  using assms by (cases "sl_media s"; simp add: get_audiobook_cover_manual_def manual_answer_def)+

lemma gate_reaches_offer:
  assumes "open_slot s url work w"
  shows "left_of (run_cover_write_gate env calm s url source) w (offer_candidate env calm s work (slot_of (sl_media s) work) url source) w"
proof -
  let ?c = "slot_of (sl_media s) work"
  have work: "cv_works w (sl_user s, sl_work s) = Some work" using assms by (simp add: open_slot_def)
  have row: "run (get_work calm (sl_user s) (sl_work s)) w = (Inr work, w)" using work by (simp add: get_work_def)
  note b = run_manual [OF work]
  have locked: "run (locked_file_exists calm s (cr_manual ?c)) w = (False, w)"
    using assms by (simp add: open_slot_def locked_file_exists_def try_exists_def)
  have already: "run (if cr_url ?c = Some url then try_exists calm CurrentStat (slot_final s) else Ret False) w = (False, w)"
    using assms by (simp add: open_slot_def try_exists_def)
  show ?thesis unfolding run_cover_write_gate_def
    by (rule left_of_bind [OF row], unfold sum.case, rule left_of_bind [OF b(1)], unfold sum.case Let_def b(2), rule left_of_bind [OF locked],
        unfold manual_selection_blocks_candidate_def conj_absorb simp_thms if_False, rule left_of_bind [OF already], unfold if_False, rule left_of.none)
qed

definition with_candidate :: "cover_slot \<Rightarrow> nat list \<Rightarrow> nat list \<Rightarrow> cover_world \<Rightarrow> cover_world" where
  "with_candidate s img json w = put_file (slot_meta s) json (put_file (slot_tmp s) img w)"

lemma put_twice [simp]: "put_file p a (put_file p b v) = put_file p a v"
  by (simp add: put_file_def)

lemma run_write_candidate:
  "ce_to_vec env m = Some json \<Longrightarrow> run (write_candidate_files env calm (slot_tmp s) (slot_meta s) img m) w = (True, with_candidate s img json w)"
  by (simp add: write_candidate_files_def write_whole_def with_candidate_def)

lemma run_discard [simp]: "run (discard_candidate_files calm a b) w = ((), drop_file b (drop_file a w))"
  by (simp add: discard_candidate_files_def)

lemma run_update_slot:
  assumes "slot_row s w \<noteq> None"
  obtains u where "run (update_slot calm (sl_user s) (sl_work s) (sl_media s) m) w = (Inr (), u)" "slot_row s u = Some (meta_row m)"
    "\<And>p. cover_file u p = cover_file w p"
proof -
  obtain work where "cv_works w (sl_user s, sl_work s) = Some work" using assms by (auto simp: slot_row_def)
  then show ?thesis by (cases "sl_media s") (auto intro!: that simp: update_cover_metadata_def update_audiobook_cover_metadata_def update_work_def slot_row_def)
qed

lemma run_commit:
  assumes "slot_row s w \<noteq> None" and "cover_file w (slot_tmp s) = Some img"
  obtains v where "run (commit_and_finalize calm s sib m img) w = (Accepted img (cm_width m) (cm_height m), v)"
    "slot_row s v = Some (meta_row m)" "cover_file v (slot_final s) = Some img" "cover_file v (slot_tmp s) = None" "cover_file v (slot_meta s) = None"
proof -
  obtain u where u: "run (update_slot calm (sl_user s) (sl_work s) (sl_media s) m) w = (Inr (), u)" "slot_row s u = Some (meta_row m)"
    "\<And>p. cover_file u p = cover_file w p" using run_update_slot [OF assms(1)] by blast
  let ?d = "snd (move_file (slot_tmp s) (slot_final s) u)"
  let ?th = "run (invalidate_thumbnails calm (sl_user s) (sl_work s) (suffix_of (sl_media s)) (sl_media s) sib) (drop_file (slot_meta s) ?d)"
  have t: "cover_file u (slot_tmp s) = Some img" using u(3) assms(2) by simp
  have ren: "run (rename_cover calm (slot_tmp s) (slot_final s)) u = (True, ?d)" using t by (simp add: rename_cover_def move_file_def)
  have eq: "slot_eq s (drop_file (slot_meta s) ?d) (snd ?th)" by (rule run_thumbnails)
  have "run (commit_and_finalize calm s sib m img) w = (Accepted img (cm_width m) (cm_height m), snd ?th)"
    by (simp add: commit_and_finalize_def u(1) ren case_prod_beta)
  moreover have "slot_row s (snd ?th) = Some (meta_row m)" "cover_file (snd ?th) (slot_final s) = Some img" "cover_file (snd ?th) (slot_tmp s) = None"
      "cover_file (snd ?th) (slot_meta s) = None"
    using eq u(2) move_file_simps(2) [OF t] by (simp_all add: slot_eq_def)
  ultimately show ?thesis by (rule that)
qed

lemma candidate_simps [simp]:
  "slot_row s (with_candidate s img json w) = slot_row s w"
  "cover_file (with_candidate s img json w) (slot_tmp s) = Some img" "cover_file (with_candidate s img json w) (slot_meta s) = Some json"
  "cover_file (with_candidate s img json w) (slot_final s) = cover_file w (slot_final s)"
  "cv_works (with_candidate s img json w) = cv_works w"
  by (simp_all add: with_candidate_def)

lemma jsonE:
  assumes "codec_ok env"
  obtains json where "ce_to_vec env m = Some json" "ce_from_slice env json = Some m"
  using assms unfolding codec_ok_def by blast

text \<open>
  C39 (functional): When nothing fails and the slot is open, the comparator decides. A candidate that cannot be fetched changes nothing; one that the comparator prefers to the row's cover becomes the
  row's cover and the file; any other leaves both as they were. No candidate file remains. A slot is open if the work exists, no sidecar or candidate file is left over, its
  cover is not a manual one whose file is there, and its cover is not already the offered URL with its file.
\<close>

theorem gate_takes_the_better_cover:
  assumes "codec_ok env" and "open_slot s url work w" and "cover_file w (slot_tmp s) = None"
  shows "case fetch_candidate_bytes env url of
      Inl outcome \<Rightarrow> run (run_cover_write_gate env calm s url source) w = (outcome, w)
    | Inr (img, width, height) \<Rightarrow>
        let m = ranked_meta url source width height; (outcome, v) = run (run_cover_write_gate env calm s url source) w in
        cover_file v (slot_tmp s) = None \<and> cover_file v (slot_meta s) = None \<and>
        (if gate_accepts env s work (slot_of (sl_media s) work) m
         then outcome = Accepted img width height \<and> slot_row s v = Some (meta_row m) \<and> cover_file v (slot_final s) = Some img
         else outcome = Rejected \<and> slot_row s v = slot_row s w \<and> cover_file v (slot_final s) = cover_file w (slot_final s))"
proof -
  let ?c = "slot_of (sl_media s) work"
  have run: "run (run_cover_write_gate env calm s url source) w = run (offer_candidate env calm s work ?c url source) w"
    using run_left [OF gate_reaches_offer [OF assms(2)]] by simp
  show ?thesis
  proof (cases "fetch_candidate_bytes env url")
    case (Inl outcome)
    then show ?thesis unfolding run by (simp add: offer_candidate_def)
  next
    case (Inr r)
    obtain img a b where r: "r = (img, a, b)" by (cases r)
    let ?m = "ranked_meta url source a b"
    obtain json where j: "ce_to_vec env ?m = Some json" using jsonE [OF assms(1)] by metis
    let ?w = "with_candidate s img json w"
    have row: "slot_row s w \<noteq> None" using assms(2) by (simp add: open_slot_def slot_row_def)
    have offer: "run (offer_candidate env calm s work ?c url source) w =
      (if gate_accepts env s work ?c ?m then run (commit_and_finalize calm s (cr_url (cw_audiobook work)) ?m img) ?w
       else (Rejected, drop_file (slot_tmp s) (drop_file (slot_meta s) ?w)))"
      using run_write_candidate [OF j, of s img w] by (simp add: offer_candidate_def Inr r Let_def ranked_meta_def)
    obtain v where "run (commit_and_finalize calm s (cr_url (cw_audiobook work)) ?m img) ?w = (Accepted img (cm_width ?m) (cm_height ?m), v)"
        "slot_row s v = Some (meta_row ?m)" "cover_file v (slot_final s) = Some img" "cover_file v (slot_tmp s) = None" "cover_file v (slot_meta s) = None"
      using run_commit [of s ?w img] row by (metis candidate_simps(1,2))
    then show ?thesis unfolding run offer Inr r by (simp add: Let_def ranked_meta_def)
  qed
qed

section \<open>An interrupted recovery\<close>

text \<open>
  C40 (safety): The recovery discards a candidate in the order that the gate avoids, first the bytes and then the sidecar. When the process dies before the gate has
  decided, and again between the two removals, the next recovery takes the missing bytes for a finished renaming: the row then describes a cover that
  was never accepted and whose bytes are nowhere, beside the old file.
\<close>

theorem interrupted_recovery_invents_a_cover:
  assumes "codec_ok env" and "open_slot s url work w" and "fetch_candidate_bytes env url = Inr (img, width, height)"
    and "m = ranked_meta url source width height" and "\<not> row_matches_meta (slot_of (sl_media s) work) m"
  shows "\<exists>rest w1 rest' w2 v. left_of (run_cover_write_gate env calm s url source) w rest w1
    \<and> slot_row s w1 = slot_row s w
    \<and> left_of (recover_one env calm s report) w1 rest' w2 \<and> v = snd (run (recover_one env calm s report) w2)
    \<and> slot_row s v = Some (meta_row m) \<and> cover_file v (slot_final s) = cover_file w (slot_final s)
    \<and> cover_file v (slot_tmp s) = None \<and> cover_file v (slot_meta s) = None"
proof -
  let ?c = "slot_of (sl_media s) work"
  obtain json where j: "ce_to_vec env m = Some json" "ce_from_slice env json = Some m" using jsonE [OF assms(1)] by metis
  let ?w1 = "with_candidate s img json w"
  let ?w2 = "drop_file (slot_tmp s) ?w1"
  let ?v = "snd (run (recover_one env calm s report) ?w2)"
  have work: "cv_works w (sl_user s, sl_work s) = Some work" using assms(2) by (simp add: open_slot_def)
  obtain rest where "left_of (offer_candidate env calm s work ?c url source) w rest ?w1"
    unfolding offer_candidate_def assms(3) sum.case prod.case Let_def assms(4) [unfolded ranked_meta_def, symmetric] calm_simps if_False
    using left_of_bind [OF run_write_candidate [OF j(1)] left_of.none] by blast
  then have cut: "left_of (run_cover_write_gate env calm s url source) w rest ?w1"
    by (rule left_of_trans [OF _ gate_reaches_offer [OF assms(2)]])
  obtain rest' where "left_of (recover_one env calm s report) ?w1 rest' ?w2"
  proof -
    have meta: "run (ask (\<lambda>w. if cf_broken calm MetaRead then None else cover_file w (slot_meta s))) ?w1 = (Some json, ?w1)" by simp
    have row: "run (get_work calm (sl_user s) (sl_work s)) ?w1 = (Inr work, ?w1)" using work by (simp add: get_work_def)
    have "cv_works ?w1 (sl_user s, sl_work s) = Some work" using work by simp
    note man = run_manual [OF this]
    have t: "run (try_exists calm TmpStat (slot_tmp s)) ?w1 = (True, ?w1)" by (simp add: try_exists_def)
    show ?thesis
      by (rule that, unfold recover_one_def, rule left_of_bind [OF meta], unfold option.case j(2), rule left_of_bind [OF row], unfold sum.case,
          rule left_of_bind [OF man(1)], unfold sum.case man(2) recover_pending_def, rule left_of_bind [OF t], unfold if_True if_not_P [OF assms(5)],
          rule left_of_bind [OF run_remove], rule left_of.none)
  qed
  moreover have "run (recover_one env calm s report) ?w2 = run (recover_pending calm s m work ?c report) ?w2"
    by (rule run_recover_one [where json = json]) (simp_all add: j(2) work)
  then have "slot_row s ?v = Some (meta_row m) \<and> cover_file ?v (slot_final s) = cover_file w (slot_final s)
      \<and> cover_file ?v (slot_tmp s) = None \<and> cover_file ?v (slot_meta s) = None"
    using run_recover_pending(3) [of s ?w2 work m report] assms(5) work by (simp add: slot_row_def)
  moreover have "slot_row s ?w1 = slot_row s w" by simp
  ultimately show ?thesis using cut by blast
qed

end
