(* ===== verification/CoverRecovery.thy ===== *)
theory CoverRecovery
  imports CoverGuarantees
begin

text \<open>
  The recovery of the covers directories as a whole: it finds the sidecars by their names, and the recovery of one slot leaves the others alone. So
  a cover write is all or nothing.
\<close>

section \<open>Numbers\<close>

lemma show_nat_chars: "show_nat n \<noteq> [] \<and> (\<forall>c \<in> set (show_nat n). decimal_digit c)"
proof (induction n rule: show_nat.induct)
  case (1 n)
  have d: "decimal_digit (char_of (48 + k :: nat))" if "k < 10" for k using that by (simp add: decimal_digit_def)
  show ?case
  proof (cases "n < 10")
    case True
    then show ?thesis using d [of n] by (subst (1 2) show_nat.simps) simp
  next
    case False
    then show ?thesis using 1 d [of "n mod 10"] by (subst (1 2) show_nat.simps) auto
  qed
qed

lemma decimal_value_snoc: "decimal_value (s @ [c]) = 10 * decimal_value s + (int (of_char c) - 48)"
  by (simp add: decimal_value_def)

lemma show_nat_decimal: "decimal_value (show_nat n) = int n"
proof (induction n rule: show_nat.induct)
  case (1 n)
  have d: "of_char (char_of (48 + k :: nat) :: char) = (48 + k :: nat)" if "k < 10" for k using that by simp
  show ?case
  proof (cases "n < 10")
    case True
    then show ?thesis using d [of n] by (subst show_nat.simps) (simp add: decimal_value_def)
  next
    case False
    moreover have "10 * int (n div 10) + int (n mod 10) = int n" by (metis of_nat_add of_nat_mult of_nat_numeral mult_div_mod_eq)
    ultimately show ?thesis using 1 d [of "n mod 10"] by (subst show_nat.simps) (simp add: decimal_value_snoc)
  qed
qed

lemma minus_is_no_digit: "\<not> decimal_digit (CHR ''-'')" "\<not> decimal_digit (CHR ''+'')"
  by (simp_all add: decimal_digit_def)

lemma show_int_chars: "show_int i \<noteq> [] \<and> (\<forall>c \<in> set (show_int i). decimal_digit c \<or> c = CHR ''-'')"
  using show_nat_chars by (auto simp: show_int_def)

lemma parse_show_int:
  assumes "- (2 ^ 63) \<le> i" and "i < 2 ^ 63"
  shows "parse_i64 (show_int i) = Some i"
proof (cases "i < 0")
  case True
  have v: "decimal_value (show_nat (nat (- i))) = - i" using True by (simp add: show_nat_decimal)
  show ?thesis using True assms show_nat_chars [of "nat (- i)"] by (auto simp: parse_i64_def show_int_def v)
next
  case False
  obtain c cs where c: "show_nat (nat i) = c # cs" using show_nat_chars [of "nat i"] by (cases "show_nat (nat i)") auto
  then have "c \<noteq> CHR ''-''" "c \<noteq> CHR ''+''" using show_nat_chars [of "nat i"] minus_is_no_digit by auto
  moreover have "decimal_value (c # cs) = i" using show_nat_decimal [of "nat i"] c False by simp
  ultimately show ?thesis using False assms show_nat_chars [of "nat i"] by (auto simp: parse_i64_def show_int_def c)
qed

lemma show_int_inj: "show_int a = show_int b \<Longrightarrow> a = b"
proof -
  have n: "show_nat k \<noteq> CHR ''-'' # cs" for k cs using show_nat_chars [of k] minus_is_no_digit by auto
  have e: "j = k" if "show_nat j = show_nat k" for j k using that show_nat_decimal by (metis of_nat_eq_iff)
  assume "show_int a = show_int b"
  then show ?thesis using n n [symmetric] e [of "nat a" "nat b"] e [of "nat (- a)" "nat (- b)"] by (auto simp: show_int_def split: if_splits)
qed

text \<open>A number ends where the first other character stands.\<close>

lemma show_int_prefix:
  assumes "show_int a @ x = show_int b @ y" and "x \<noteq> [] \<and> hd x \<in> {CHR ''.'', CHR ''_''}" and "y \<noteq> [] \<and> hd y \<in> {CHR ''.'', CHR ''_''}"
  shows "a = b \<and> x = y"
proof -
  let ?P = "\<lambda>c. decimal_digit c \<or> c = CHR ''-''"
  have take: "takeWhile ?P (show_int k @ z) = show_int k" if "z \<noteq> [] \<and> hd z \<in> {CHR ''.'', CHR ''_''}" for k z
  proof -
    have "\<not> ?P (hd z)" using that by (auto simp: decimal_digit_def)
    then have "takeWhile ?P z = []" using that by (cases z) auto
    then show ?thesis using show_int_chars [of k] by (simp add: takeWhile_append2)
  qed
  have "show_int a = show_int b" using take [OF assms(2), of a] take [OF assms(3), of b] assms(1) by simp
  then show ?thesis using assms(1) show_int_inj by auto
qed

lemma strip_suffix_append [simp]: "strip_suffix x (s @ x) = Some s"
  by (simp add: strip_suffix_def)

lemma parse_meta_name:
  assumes "- (2 ^ 63) \<le> sl_work s" and "sl_work s < 2 ^ 63"
  shows "parse_candidate_meta_filename (snd (slot_meta s)) = Some (sl_work s, sl_media s)"
proof -
  have name: "snd (slot_meta s) = (show_int (sl_work s) @ suffix_of (sl_media s)) @ ''.candidate.meta.json''" by (simp add: slot_meta_def candidate_meta_path_def)
  have "strip_suffix ''_audio'' (show_int (sl_work s)) = None"
  proof (rule ccontr)
    assume "strip_suffix ''_audio'' (show_int (sl_work s)) \<noteq> None"
    then have "drop (length (show_int (sl_work s)) - length ''_audio'') (show_int (sl_work s)) = ''_audio''" by (simp add: strip_suffix_def split: if_splits)
    then have "CHR ''_'' \<in> set (show_int (sl_work s))" by (metis in_set_dropD list.set_intros(1))
    then show False using show_int_chars [of "sl_work s"] by (auto simp: decimal_digit_def)
  qed
  then show ?thesis unfolding parse_candidate_meta_filename_def name strip_suffix_append
    using parse_show_int [OF assms] by (cases "sl_media s") simp_all
qed

section \<open>Other slots\<close>

definition slot_files :: "cover_slot \<Rightarrow> cover_path set" where
  "slot_files s = {slot_tmp s, slot_meta s, slot_final s}"

definition thumb_files :: "cover_slot \<Rightarrow> cover_path set" where
  "thumb_files s = {(sl_user s, show_int (sl_work s) @ suffix_of (sl_media s) @ ''_thumb.jpg''), (sl_user s, show_int (sl_work s) @ ''_audio_thumb.jpg'')}"

lemma tail_heads:
  "suffix_of mt @ ''.candidate.tmp'' \<noteq> [] \<and> hd (suffix_of mt @ ''.candidate.tmp'') \<in> {CHR ''.'', CHR ''_''}"
  "suffix_of mt @ ''.candidate.meta.json'' \<noteq> [] \<and> hd (suffix_of mt @ ''.candidate.meta.json'') \<in> {CHR ''.'', CHR ''_''}"
  "suffix_of mt @ ''.jpg'' \<noteq> [] \<and> hd (suffix_of mt @ ''.jpg'') \<in> {CHR ''.'', CHR ''_''}"
  "suffix_of mt @ ''_thumb.jpg'' \<noteq> [] \<and> hd (suffix_of mt @ ''_thumb.jpg'') \<in> {CHR ''.'', CHR ''_''}"
  "''_audio_thumb.jpg'' \<noteq> [] \<and> hd ''_audio_thumb.jpg'' \<in> {CHR ''.'', CHR ''_''}"
  by (cases mt; simp)+

lemma other_slot_files:
  assumes "s' \<noteq> s" and "p \<in> slot_files s' \<union> thumb_files s'"
  shows "p \<notin> slot_files s"
proof
  assume p: "p \<in> slot_files s"
  let ?tails = "\<lambda>mt. {suffix_of mt @ ''.candidate.tmp'', suffix_of mt @ ''.candidate.meta.json'', suffix_of mt @ ''.jpg''}"
  let ?thumbs = "\<lambda>mt. {suffix_of mt @ ''_thumb.jpg'', ''_audio_thumb.jpg''}"
  obtain t where t: "p = (sl_user s, show_int (sl_work s) @ t)" "t \<in> ?tails (sl_media s)" using p by (auto simp: slot_files_def cover_paths)
  obtain t' where t': "p = (sl_user s', show_int (sl_work s') @ t')" "t' \<in> ?tails (sl_media s') \<union> ?thumbs (sl_media s')"
    using assms(2) by (auto simp: slot_files_def thumb_files_def cover_paths)
  have "sl_work s = sl_work s' \<and> t = t'" 
    by (rule show_int_prefix) (use t t' tail_heads in auto)
  then have "sl_media s = sl_media s'" "sl_user s = sl_user s'" "sl_work s = sl_work s'"
    using t t' by (cases "sl_media s"; cases "sl_media s'"; auto)+
  then show False using assms(1) by (cases s, cases s') simp
qed

lemma slot_eq_outside:
  assumes "\<And>p. p \<in> slot_files s \<Longrightarrow> cover_file w' p = cover_file w p" and "slot_row s w' = slot_row s w"
  shows "slot_eq s w w'"
  using assms by (simp add: slot_eq_def slot_files_def)

text \<open>A recovery of another slot, whatever fails in it, leaves this one alone.\<close>

lemma other_recovery:
  assumes ne: "s' \<noteq> s"
  shows "safe (slot_eq s w) (recover_one env f s' report) (\<lambda>_. slot_eq s w) w"
proof -
  let ?J = "slot_eq s w"
  have drop: "?J (drop_file p v)" if "?J v" "p \<in> slot_files s' \<union> thumb_files s'" for p v
    using that other_slot_files [OF ne] by (intro slot_eq_trans [OF that(1)] slot_eq_outside) auto
  have remove: "safe ?J (remove_cover_file f y p) (\<lambda>_. ?J) v" if "?J v" "p \<in> slot_files s' \<union> thumb_files s'" for y p v
    by (rule safe_remove) (use that drop in auto)
  have files: "slot_tmp s' \<in> slot_files s' \<union> thumb_files s'" "slot_meta s' \<in> slot_files s' \<union> thumb_files s'" "slot_final s' \<in> slot_files s' \<union> thumb_files s'"
    "(sl_user s', show_int (sl_work s') @ suffix_of (sl_media s') @ ''_thumb.jpg'') \<in> slot_files s' \<union> thumb_files s'"
    "final_cover_path (sl_user s') (sl_work s') ''_audio_thumb'' \<in> slot_files s' \<union> thumb_files s'"
    by (simp_all add: slot_files_def thumb_files_def final_cover_path_def)
  have thumbs: "safe ?J (invalidate_thumbnails f (sl_user s') (sl_work s') (suffix_of (sl_media s')) (sl_media s') sib) (\<lambda>_. ?J) v" if "?J v" for sib v
    unfolding invalidate_thumbnails_def by (rule safe_seq [OF remove [OF that files(4)]]) (use remove [OF _ files(5)] in auto)
  have discard: "safe ?J (discard_candidate_files f (slot_meta s') (slot_tmp s')) (\<lambda>_. ?J) v" if "?J v" for v
    unfolding discard_candidate_files_def by (rule safe_seq [OF remove [OF that files(2)] remove [OF _ files(1)]])
  have move: "?J (snd (move_file (slot_tmp s') (slot_final s') v))" if "?J v" for v
  proof (rule slot_eq_trans [OF that], rule slot_eq_outside)
    show "cover_file (snd (move_file (slot_tmp s') (slot_final s') v)) p = cover_file v p" if "p \<in> slot_files s" for p
    proof -
      have "p \<noteq> slot_tmp s'" "p \<noteq> slot_final s'" using that other_slot_files [OF ne files(1)] other_slot_files [OF ne files(3)] by auto
      then show ?thesis using move_file_simps(2) [of v "slot_tmp s'" _ "slot_final s'" p]
        by (cases "cover_file v (slot_tmp s')") (simp_all add: move_file_def [of _ _ v, THEN arg_cong [where f = snd]])
    qed
  qed simp
  have rename: "safe ?J (rename_cover f (slot_tmp s') (slot_final s')) (\<lambda>_. ?J) v" if "?J v" for v
    unfolding rename_cover_def by (auto intro!: safe_atomic move that)
  have media: "sl_media s \<noteq> sl_media s'" if "sl_user s = sl_user s'" "sl_work s = sl_work s'" using that ne by (cases s, cases s') simp
  have update: "safe ?J (update_slot f (sl_user s') (sl_work s') (sl_media s') m) (\<lambda>_. ?J) v" if "?J v" for m v
  proof -
    have "?J (v\<lparr>cv_works := (cv_works v)((sl_user s', sl_work s') \<mapsto> g work)\<rparr>)"
      if "cv_works v (sl_user s', sl_work s') = Some work" "\<And>mt x. mt \<noteq> sl_media s' \<Longrightarrow> slot_of mt (g x) = slot_of mt x" for work g
      by (rule slot_eq_trans [OF \<open>?J v\<close>], rule slot_eq_outside) (use that media in \<open>auto simp: slot_row_def\<close>)
    then have a: "?J (snd (case cv_works v (sl_user s', sl_work s') of None \<Rightarrow> (Inl WorkNotFound, v)
        | Some x \<Rightarrow> (Inr (), v\<lparr>cv_works := (cv_works v)((sl_user s', sl_work s') \<mapsto> g x)\<rparr>)))"
      if "\<And>mt x. mt \<noteq> sl_media s' \<Longrightarrow> slot_of mt (g x) = slot_of mt x" for g :: "cover_work \<Rightarrow> cover_work"
      using that \<open>?J v\<close> by (auto split: option.split)
    show ?thesis
    proof (cases "sl_media s'")
      case Ebook
      have "slot_of mt (x\<lparr>cw_ebook := r\<rparr>) = slot_of mt x" if "mt \<noteq> sl_media s'" for mt x r using that Ebook by (cases mt) auto
      then show ?thesis using a [of "\<lambda>x. x\<lparr>cw_ebook := meta_row m\<rparr>"] that
        by (auto simp: Ebook update_cover_metadata_def update_work_def intro!: safe_atomic)
    next
      case Audiobook
      have "slot_of mt (x\<lparr>cw_audiobook := r\<rparr>) = slot_of mt x" if "mt \<noteq> sl_media s'" for mt x r using that Audiobook by (cases mt) auto
      then show ?thesis using a [of "\<lambda>x. x\<lparr>cw_audiobook := meta_row m\<rparr>"] that
        by (auto simp: Audiobook update_audiobook_cover_metadata_def update_work_def intro!: safe_atomic)
    qed
  qed
  note parts = safe_if safe_seq [where P = "\<lambda>_. ?J"] remove [OF _ files(1)] remove [OF _ files(2)] thumbs discard rename update
  have pending: "safe ?J (recover_pending f s' m work row rep) (\<lambda>_. ?J) v" if "?J v" for m work row rep v
    unfolding recover_pending_def try_exists_def
    by (rule safe_seq [where P = "\<lambda>_. ?J"], rule safe_ask, rule that, rule that) (intro parts; simp split: sum.split)
  have row: "safe ?J (get_work f (sl_user s') (sl_work s')) (\<lambda>_. ?J) v" if "?J v" for v unfolding get_work_def by (rule safe_ask) (rule that)+
  have manual: "safe ?J (if sl_media s' = Audiobook then get_audiobook_cover_manual f (sl_user s') (sl_work s') else Ret (Inr False)) (\<lambda>_. ?J) v" if "?J v" for v
    unfolding get_audiobook_cover_manual_def by (rule safe_if, rule safe_ask) (use that in simp_all)
  have meta: "safe ?J (ask (\<lambda>w. if cf_broken f MetaRead then None else cover_file w (slot_meta s'))) (\<lambda>_. ?J) w" by (rule safe_ask) simp_all
  have over: "safe ?J (and_then (discard_candidate_files f (slot_meta s') (slot_tmp s')) (\<lambda>_. Ret r)) (\<lambda>_. ?J) v" if "?J v" for r v
    by (rule safe_seq [OF discard [OF that]]) simp
  have work: "safe ?J (case a of Inl WorkNotFound \<Rightarrow> and_then (discard_candidate_files f (slot_meta s') (slot_tmp s')) (\<lambda>_. Ret r1)
      | Inl CoverIo \<Rightarrow> Ret r2
      | Inr work \<Rightarrow> and_then (if sl_media s' = Audiobook then get_audiobook_cover_manual f (sl_user s') (sl_work s') else Ret (Inr False)) (\<lambda>manual.
          case manual of Inl _ \<Rightarrow> Ret r3
          | Inr b \<Rightarrow> recover_pending f s' m work (current_state_for_slot work (sl_media s') b) report)) (\<lambda>_. ?J) v" if "?J v" for a m r1 r2 r3 v
  proof (cases a)
    case (Inl e)
    then show ?thesis using that over by (cases e) simp_all
  next
    case (Inr work)
    show ?thesis unfolding Inr sum.case by (rule safe_seq [OF manual [OF that]], rule safe_sum, simp, rule pending)
  qed
  show ?thesis unfolding recover_one_def
    by (rule safe_seq [OF meta], rule safe_option, simp, rule safe_option, rule over, assumption, rule safe_seq [OF row], assumption, rule work, assumption)
qed

section \<open>The recovery of all covers\<close>

definition settled :: "cover_env \<Rightarrow> cover_case \<Rightarrow> cover_world \<Rightarrow> bool" where
  "settled env x w \<longleftrightarrow> cc_side x w = None \<and> (as_before x w \<or> as_offered x w)"

lemma settled_cut: "settled env x w \<Longrightarrow> cut_short env x w"
  by (auto simp: settled_def cut_short_def undecided_def in_place_def)

lemma slot_eq_cut: "slot_eq (cc_slot x) w w' \<Longrightarrow> cut_short env x w \<Longrightarrow> cut_short env x w'"
  by (simp add: slot_eq_def cut_short_def undecided_def committed_def in_place_def as_before_def as_offered_def cong: option.case_cong)

lemma slot_eq_settled: "slot_eq (cc_slot x) w w' \<Longrightarrow> settled env x w \<Longrightarrow> settled env x w'"
  by (simp add: slot_eq_def settled_def as_before_def as_offered_def)

lemma other_run: "s' \<noteq> s \<Longrightarrow> slot_eq s w (snd (run (recover_one env f s' report) w))"
  using honours_run [of "slot_eq s w" "recover_one env f s' report" "\<lambda>_. slot_eq s w" w] other_recovery [of s' s w env f report]
  by (simp add: safe_def)

lemma entry_keeps:
  fixes u :: int and fname :: string and report :: cover_recovery_report
  assumes x: "cover_case_ok env x" and f: "f (cc_slot x) = calm" and w: "cut_short env x w"
  defines "v \<equiv> snd (run (recover_entry env f u fname report) w)"
  shows "cut_short env x v" and "settled env x w \<Longrightarrow> settled env x v"
    and "u = sl_user (cc_slot x) \<Longrightarrow> parse_candidate_meta_filename fname = Some (sl_work (cc_slot x), sl_media (cc_slot x)) \<Longrightarrow> settled env x v"
proof -
  have own: "settled env x (snd (run (recover_one env calm (cc_slot x) report) w))"
    using recovery_converges [OF x w, of report] by (simp add: settled_def)
  have eq: "\<lparr>sl_user = sl_user s, sl_work = sl_work s, sl_media = sl_media s\<rparr> = s" for s :: cover_slot by simp
  have "settled env x v \<or> slot_eq (cc_slot x) w v"
  proof (cases "parse_candidate_meta_filename fname")
    case (Some r)
    obtain i mt where r: "r = (i, mt)" by (cases r)
    let ?s = "\<lparr>sl_user = u, sl_work = i, sl_media = mt\<rparr>"
    have v: "v = snd (run (recover_one env (f ?s) ?s report) w)" by (simp add: v_def recover_entry_def Some r Let_def)
    show ?thesis
    proof (cases "?s = cc_slot x")
      case True
      then show ?thesis using own f v by simp
    next
      case False
      then show ?thesis using other_run v by blast
    qed
  qed (simp add: v_def recover_entry_def)
  then show "cut_short env x v" "settled env x w \<Longrightarrow> settled env x v" using w slot_eq_cut slot_eq_settled settled_cut by blast+
  show "settled env x v" if "u = sl_user (cc_slot x)" "parse_candidate_meta_filename fname = Some (sl_work (cc_slot x), sl_media (cc_slot x))"
    using own f by (simp add: v_def recover_entry_def that eq)
qed

lemma entries_keep:
  assumes x: "cover_case_ok env x" and f: "f (cc_slot x) = calm" and w: "cut_short env x w"
  shows "cut_short env x (snd (run (each (recover_entry env f u) fnames report) w))
    \<and> (settled env x w \<longrightarrow> settled env x (snd (run (each (recover_entry env f u) fnames report) w)))
    \<and> (u = sl_user (cc_slot x) \<and> (\<exists>fname \<in> set fnames. parse_candidate_meta_filename fname = Some (sl_work (cc_slot x), sl_media (cc_slot x)))
       \<longrightarrow> settled env x (snd (run (each (recover_entry env f u) fnames report) w)))"
  using w
proof (induction fnames arbitrary: report w)
  case (Cons fname fnames)
  note one = entry_keeps [where f = f, OF x f Cons.prems, where u = u and fname = fname and report = report]
  note rest = Cons.IH [OF one(1), of "fst (run (recover_entry env f u fname report) w)"]
  show ?case using one(2,3) rest by (auto simp: case_prod_beta)
qed simp

lemma listing:
  assumes "cover_file w (u, fname) = Some c"
  shows "fname \<in> set (map (snd \<circ> fst) (filter (\<lambda>e. fst (fst e) = u) (cv_files w)))"
  using assms map_of_SomeD [of "cv_files w" "(u, fname)" c] by (force simp: cover_file_def)

lemma recovery_of_all:
  assumes x: "cover_case_ok env x" and f: "f (cc_slot x) = calm" and w: "cut_short env x w"
    and id: "- (2 ^ 63) \<le> sl_work (cc_slot x)" "sl_work (cc_slot x) < 2 ^ 63"
  shows "cut_short env x (snd (run (recover_pending_cover_writes env f users) w))
    \<and> (sl_user (cc_slot x) \<in> set users \<or> settled env x w \<longrightarrow> settled env x (snd (run (recover_pending_cover_writes env f users) w)))"
proof -
  let ?list = "\<lambda>u w. map (snd \<circ> fst) (filter (\<lambda>e. fst (fst e) = u) (cv_files w))"
  let ?user = "\<lambda>u report. and_then (ask (?list u)) (\<lambda>fnames. each (recover_entry env f u) fnames report)"
  have run: "run (?user u report) w = run (each (recover_entry env f u) (?list u w) report) w" for u report w by simp
  have own: "settled env x (snd (run (?user (sl_user (cc_slot x)) report) w))" if w: "cut_short env x w" for report w
  proof (cases "cc_side x w")
    case None
    moreover obtain json where "sidecar env x = Some json" using sidecarE x unfolding cover_case_ok_def by metis
    ultimately have "settled env x w" using w by (auto simp: cut_short_def undecided_def committed_def in_place_def settled_def)
    then show ?thesis unfolding run using entries_keep [where f = f, OF x f w] by blast
  next
    case (Some c)
    have "snd (slot_meta (cc_slot x)) \<in> set (?list (sl_user (cc_slot x)) w)"
      by (rule listing [where c = c]) (use Some in \<open>simp add: slot_meta_def candidate_meta_path_def\<close>)
    then show ?thesis unfolding run using entries_keep [where f = f, OF x f w] parse_meta_name [OF id] by blast
  qed
  have "cut_short env x (snd (run (each ?user users report) w)) \<and> (sl_user (cc_slot x) \<in> set users \<or> settled env x w \<longrightarrow> settled env x (snd (run (each ?user users report) w)))"
    for report using w
  proof (induction users arbitrary: report w)
    case (Cons u users)
    define r1 where "r1 = run (?user u report) w"
    have k: "cut_short env x (snd r1)" "settled env x w \<Longrightarrow> settled env x (snd r1)"
      unfolding r1_def run using entries_keep [where f = f, OF x f Cons.prems] by blast+
    have o: "u = sl_user (cc_slot x) \<Longrightarrow> settled env x (snd r1)" using own [OF Cons.prems] by (simp add: r1_def)
    have step: "run (each ?user (u # users) report) w = run (each ?user users (fst r1)) (snd r1)"
      by (simp add: r1_def case_prod_beta)
    show ?case unfolding step using Cons.IH [OF k(1), of "fst r1"] k(2) o set_ConsD by metis
  qed simp
  then show ?thesis by (simp add: recover_pending_cover_writes_def)
qed

text \<open>
  C37 (safety): A cover and its row change together. Take a slot of an existing work without a sidecar, and a candidate whose URL \<^const>\<open>absolute_http_cover_url\<close>
  leaves as it is, that is none or one with a lower-case scheme http or https. Whatever calls of a ranked or chosen cover write then fail, but for the renaming
  and the removal of the sidecar, and wherever the process dies: after a recovery at start-up that reaches the slot's user and in which no call for the slot fails, no
  sidecar is left, and row and file are both as before or both the candidate's. (The sidecar's JSON reads back as written; the work's number is in the range of its type.) For a
  URL that starts with HTTPS in capitals it is false: the recovery takes the committed write for an uncommitted one and discards the file.
\<close>

theorem cover_writes_are_all_or_nothing:
  assumes "codec_ok env" and "slot_row s w \<noteq> None" and "cover_file w (slot_meta s) = None" and "- (2 ^ 63) \<le> sl_work s" and "sl_work s < 2 ^ 63"
    and "\<not> cf_broken f RenameCover" and "\<not> cf_broken f RemoveMeta"
    and "\<forall>img m. request_candidate env req = Some (img, m) \<longrightarrow> absolute_http_cover_url (cm_url m) = cm_url m"
    and "left_of (cover_write env f s req) w rest w'"
    and "sl_user s \<in> set users" and "g s = calm" and "v = snd (run (recover_pending_cover_writes env g users) w')"
  shows "cover_file v (slot_meta s) = None
    \<and> (slot_row s v = slot_row s w \<and> cover_file v (slot_final s) = cover_file w (slot_final s)
       \<or> (\<exists>img m. request_candidate env req = Some (img, m) \<and> slot_row s v = Some (meta_row m) \<and> cover_file v (slot_final s) = Some img))"
proof -
  have run: "cover_file v (slot_meta s) = None \<and> (as_before x v \<or> as_offered x v)"
    if x: "cc_slot x = s" "cc_world x = w" "absolute_http_cover_url (cm_url (cc_meta x)) = cm_url (cc_meta x)"
      "\<And>c. request_candidate env req = Some c \<Longrightarrow> c = (cc_image x, cc_meta x)" for x
  proof -
    have ok: "cover_case_ok env x" using assms(1-3) x by (simp add: cover_case_ok_def)
    have "cut_short env x w'" using cover_write_cut [OF ok assms(6,7) x(4), where rest = rest and w = w'] assms(9) x(1,2) by simp
    then show ?thesis using recovery_of_all [where f = g and users = users, OF ok] x(1) assms(4,5,10-12) by (simp add: settled_def)
  qed
  show ?thesis
  proof (cases "request_candidate env req")
    case None
    let ?x = "\<lambda>source. \<lparr>cc_slot = s, cc_meta = \<lparr>cm_url = None, cm_source = source, cm_manual = False, cm_width = 0, cm_height = 0\<rparr>, cc_image = [], cc_world = w\<rparr>"
    have "cover_file v (slot_meta s) = None \<and> (as_before (?x source) v \<or> as_offered (?x source) v)" for source
      by (rule run) (simp_all add: None absolute_http_cover_url_def)
    from this [of "''a''"] this [of "''b''"] show ?thesis by (auto simp: as_before_def as_offered_def meta_row_def)
  next
    case (Some c)
    then obtain img m where c: "c = (img, m)" by (cases c)
    show ?thesis using run [of "\<lparr>cc_slot = s, cc_meta = m, cc_image = img, cc_world = w\<rparr>"] Some c assms(8)
      by (auto simp: as_before_def as_offered_def)
  qed
qed

end
