(* ===== verification/CoverExamples.thy ===== *)
theory CoverExamples
  imports CoverRecovery
begin

text \<open>An environment for the cover gate and its guarantees at concrete inputs.\<close>

section \<open>A sidecar format\<close>

definition enc_str :: "string \<Rightarrow> nat list" where
  "enc_str s = length s # map of_char s"

definition enc_int :: "int \<Rightarrow> nat list" where
  "enc_int i = [if i < 0 then 1 else 0, nat \<bar>i\<bar>]"

definition enc_body :: "candidate_meta \<Rightarrow> nat list" where
  "enc_body m = (case cm_url m of None \<Rightarrow> [0] | Some u \<Rightarrow> 1 # enc_str u) @ enc_str (cm_source m) @ (if cm_manual m then 1 else 0)
     # enc_int (cm_width m) @ enc_int (cm_height m)"

definition enc_meta :: "candidate_meta \<Rightarrow> nat list" where
  "enc_meta m = length (enc_body m) # enc_body m"

fun dec_str :: "nat list \<Rightarrow> string \<times> nat list" where
  "dec_str [] = ([], [])"
| "dec_str (n # r) = (map char_of (take n r), drop n r)"

fun dec_tail :: "string option \<Rightarrow> string \<Rightarrow> nat list \<Rightarrow> candidate_meta option" where
  "dec_tail url source [b, s, n, s', n'] = Some \<lparr>cm_url = url, cm_source = source, cm_manual = (b = 1),
     cm_width = (if s = 1 then - int n else int n), cm_height = (if s' = 1 then - int n' else int n')\<rparr>"
| "dec_tail url source _ = None"

definition dec_body :: "nat list \<Rightarrow> candidate_meta option" where
  "dec_body j = (case j of
       [] \<Rightarrow> None
     | t # r \<Rightarrow> (let (url, r1) = (if t = 0 then (None, r) else (case dec_str r of (u, r') \<Rightarrow> (Some u, r'))); (source, r2) = dec_str r1 in dec_tail url source r2))"

definition dec_meta :: "nat list \<Rightarrow> candidate_meta option" where
  "dec_meta j = (case j of [] \<Rightarrow> None | n # r \<Rightarrow> if length r = n then dec_body r else None)"

lemma dec_enc_str [simp]: "dec_str (enc_str s @ r) = (s, r)"
  by (simp add: enc_str_def o_def)

lemma dec_enc_tail [simp]:
  "dec_tail url source ((if b then 1 else 0) # enc_int w @ enc_int h) = Some \<lparr>cm_url = url, cm_source = source, cm_manual = b, cm_width = w, cm_height = h\<rparr>"
  by (simp add: enc_int_def)

lemma dec_enc_body: "dec_body (enc_body m) = Some m"
  by (cases "cm_url m") (simp_all add: dec_body_def enc_body_def)

lemma dec_enc_meta: "dec_meta (enc_meta m) = Some m"
  by (simp add: dec_meta_def enc_meta_def dec_enc_body)

lemma dec_part: "n < length (enc_meta m) \<Longrightarrow> dec_meta (take n (enc_meta m)) = None"
  by (cases n) (auto simp: dec_meta_def enc_meta_def)

section \<open>The example\<close>

definition example_cover_env :: cover_env where
  "example_cover_env = \<lparr>ce_lower = to_ascii_lowercase, ce_fetch = (\<lambda>_. Some (200, [9, 9])), ce_load_image = (\<lambda>_. Some (500, 700, False)),
     ce_encode_jpeg = Some, ce_to_vec = Some \<circ> enc_meta, ce_from_slice = dec_meta\<rparr>"

lemma example_codec: "codec_ok example_cover_env"
  by (simp add: codec_ok_def example_cover_env_def dec_enc_meta dec_part)

definition example_slot :: cover_slot where
  "example_slot = \<lparr>sl_user = 1, sl_work = 5, sl_media = Ebook\<rparr>"

definition example_row :: "bool \<Rightarrow> cover_row" where
  "example_row manual = \<lparr>cr_url = Some ''http://old/1'', cr_source = Some ''openlibrary'', cr_manual = manual, cr_width = 100, cr_height = 150\<rparr>"

definition example_work :: "bool \<Rightarrow> cover_work" where
  "example_work manual = \<lparr>cw_language = Some ''en'', cw_ebook = example_row manual, cw_audiobook = example_row False\<rparr>"

definition example_covers :: "bool \<Rightarrow> cover_world" where
  "example_covers manual = \<lparr>cv_files = [(slot_final example_slot, [1, 2])], cv_works = [(1, 5) \<mapsto> example_work manual]\<rparr>"

definition new_url :: string where "new_url = ''http://new/2''"

lemma example_open: "open_slot example_slot new_url (example_work False) (example_covers False)"
  by code_simp

lemma example_fetch: "fetch_candidate_bytes example_cover_env new_url = Inr ([9, 9], 500, 700)"
  by code_simp

lemma example_row_there: "slot_row example_slot (example_covers m) = Some (example_row m)"
  by (simp add: slot_row_def example_covers_def example_slot_def example_work_def)

lemma example_no_side: "cover_file (example_covers m) (slot_meta example_slot) = None" "cover_file (example_covers m) (slot_tmp example_slot) = None"
  "cover_file (example_covers m) (slot_final example_slot) = Some [1, 2]"
  by (simp_all add: cover_file_def example_covers_def)

section \<open>Witnesses\<close>

theorem cover_writes_are_all_or_nothing_witness:
  "\<exists>v. v = snd (run (recover_pending_cover_writes example_cover_env (\<lambda>_. calm) [1])
          (snd (run (cover_write example_cover_env calm example_slot (Ranked new_url ''hardcover'')) (example_covers False))))
    \<and> cover_file v (slot_meta example_slot) = None"
proof -
  have cand: "\<forall>img m. request_candidate example_cover_env (Ranked new_url ''hardcover'') = Some (img, m) \<longrightarrow> absolute_http_cover_url (cm_url m) = cm_url m"
    by (auto simp: request_candidate_def example_fetch) code_simp
  have "- (2 ^ 63) \<le> sl_work example_slot" "sl_work example_slot < 2 ^ 63" "sl_user example_slot \<in> set [1]" by (simp_all add: example_slot_def)
  then show ?thesis
    using cover_writes_are_all_or_nothing [OF example_codec _ example_no_side(1) _ _ _ _ cand left_of_run _ _ refl, where g = "\<lambda>_. calm" and f = calm and users = "[1]"]
    by (simp add: example_row_there)
qed

theorem chosen_cover_is_kept_witness:
  "snd (run (run_cover_write_gate example_cover_env calm example_slot new_url ''hardcover'') (example_covers True)) = example_covers True"
  by (rule chosen_cover_is_kept [OF example_row_there _ _ _ _ left_of_run]) (simp_all add: example_row_def example_no_side)

theorem gate_takes_the_better_cover_witness:
  "fst (run (run_cover_write_gate example_cover_env calm example_slot new_url ''hardcover'') (example_covers False)) = Accepted [9, 9] 500 700"
proof -
  have "gate_accepts example_cover_env example_slot (example_work False) (slot_of (sl_media example_slot) (example_work False)) (ranked_meta new_url ''hardcover'' 500 700)"
    by code_simp
  then show ?thesis using gate_takes_the_better_cover [OF example_codec example_open example_no_side(2), of "''hardcover''"]
    by (simp add: example_fetch Let_def case_prod_beta)
qed

theorem interrupted_recovery_invents_a_cover_witness:
  "\<exists>rest w1 rest' w2. left_of (run_cover_write_gate example_cover_env calm example_slot new_url ''hardcover'') (example_covers False) rest w1
    \<and> left_of (recover_one example_cover_env calm example_slot no_cover_report) w1 rest' w2
    \<and> slot_row example_slot (snd (run (recover_one example_cover_env calm example_slot no_cover_report) w2)) = Some (meta_row (ranked_meta new_url ''hardcover'' 500 700))
    \<and> cover_file (snd (run (recover_one example_cover_env calm example_slot no_cover_report) w2)) (slot_final example_slot) = Some [1, 2]"
proof -
  have "\<not> row_matches_meta (slot_of (sl_media example_slot) (example_work False)) (ranked_meta new_url ''hardcover'' 500 700)" by code_simp
  from interrupted_recovery_invents_a_cover [OF example_codec example_open example_fetch refl this, of no_cover_report] show ?thesis
    unfolding example_no_side by blast
qed

end
