(* ===== verification/Spec2Isabelle.thy ===== *)
theory Spec2Isabelle
  imports LaneRegistry MergeGuarantees MergeApply KeyedMutex Ssrf Reconcile Routes EnrichGuarantees GrabGuarantees
    AuthorGuarantees TitleGuarantees SearchGuarantees IdentifierGuarantees AuthGuarantees PathGuarantees ImportExamples CoverExamples
begin

text \<open>
  \<^bold>\<open>Livrarr\<close> is a self-hosted server for a book library: it keeps a user's works, asks metadata
  providers about them, merges what they answer, matches imported files to works and fetches covers
  and releases. This library models the parts of the program that carry its own logic, in the order
  a piece of work passes through them, and proves what makes each correct.

  \<^bold>\<open>Outbound traffic\<close> (\<^verbatim>\<open>livrarr-http\<close>). Every call to a provider takes a turn in a lane.
  \<^item> \<^verbatim>\<open>Breaker\<close>: the circuit breaker of \<^verbatim>\<open>breaker.rs\<close>, a record with the sliding window of outcomes, the
    open deadline and the half-open probe. The operations are pure functions of the state and the
    clock; the lemmas bound the window, show when it opens, that one probe at a time is let
    through, and that an open breaker always comes back.
  \<^item> \<^verbatim>\<open>OutboundQueue\<close>: one lane of \<^verbatim>\<open>outbound_queue.rs\<close> as a step relation over admission, the dispatcher's
    phases, permits, cancellation and the death of the dispatcher task. Invariants by rule
    induction: the in-flight cap, pacing between dispatches, bounded queue, priority order, nobody
    is lost.
  \<^item> \<^verbatim>\<open>LaneRegistry\<close>: the two registries with eviction of quiescent lanes and the entry point
    \<^verbatim>\<open>acquire\<close>; one caller at a time never sees a second lane for a bucket, two interleaved ones can
    (the finding recorded with it).
  \<^item> \<^verbatim>\<open>IpAddr\<close>, \<^verbatim>\<open>Ssrf\<close>: address classes at their bit widths, the URL check and the dialling path of
    \<^verbatim>\<open>ssrf.rs\<close>; no reserved address is ever dialled except through a trusted origin.
  \<^item> \<^verbatim>\<open>RateLimit\<close>: the key of a request (\<^verbatim>\<open>livrarr-server/src/rate_limit.rs\<close>): CIDR ranges on words, the
    walk of forwarded addresses, and that headers select the key only through trusted proxies.
  \<^item> \<^verbatim>\<open>KeyedMutex\<close>: the keyed mutex of \<^verbatim>\<open>livrarr-domain\<close>, as a step relation cut at every await.

  \<^bold>\<open>Enrichment\<close> (\<^verbatim>\<open>livrarr-enrichment\<close>, \<^verbatim>\<open>livrarr-db\<close>). A pass asks the providers, keeps their standing,
  merges and stores.
  \<^item> \<^verbatim>\<open>Language\<close>, \<^verbatim>\<open>ProviderPolicy\<close>: language tags and the language setting; the provider policy snapshot
    with its validation, cover ranks and the cover upgrade decision.
  \<^item> \<^verbatim>\<open>Routes\<close>: the identity routes of a work, the projection to the identifier fields and the plan of
    declared fetch routes.
  \<^item> \<^verbatim>\<open>RetryState\<close>: the retry table and the response cache (\<^verbatim>\<open>sqlite_retry_state.rs\<close>,
    \<^verbatim>\<open>sqlite_provider_cache.rs\<close>), one function per statement, with a reachability invariant.
  \<^item> \<^verbatim>\<open>SearchFallback\<close>, \<^verbatim>\<open>ProviderQueue\<close>: one pass of \<^verbatim>\<open>provider_queue.rs\<close>, from the partition of the providers
    through fetch, budget, durable record, cache and search legs to the flags of the result.
    \<^verbatim>\<open>QueueGuarantees\<close> shows which calls a pass makes, that every outcome is recorded and that failing
    fetches are bounded by the retry budget over any sequence of passes.
  \<^item> \<^verbatim>\<open>MergeEngine\<close>: the deterministic merge of \<^verbatim>\<open>merge_engine.rs\<close> field by field, with provenance, dissents and
    covers. \<^verbatim>\<open>MergeProperties\<close> and \<^verbatim>\<open>MergeGuarantees\<close> show that user-set fields survive, that the best
    acceptable offer wins, that nothing is lost and that an excluded provider has no influence.
    \<^verbatim>\<open>MergeApply\<close> is the transaction that stores a merge (\<^verbatim>\<open>sqlite_work.rs\<close>): stale generations are
    refused and an applied merge is a fixed point.
  \<^item> \<^verbatim>\<open>EnrichWork\<close>: the workflow of \<^verbatim>\<open>livrarr-enrichment/src/lib.rs\<close> that chains queue, merge and storage: reuse
    of cached payloads, the network pass, reconstruction of payloads and the compare-and-set loop. Other writers act
    at each of its awaits; they are an argument. \<^verbatim>\<open>EnrichGuarantees\<close>: an undisturbed pass stores the merge of what
    was fetched, a stored merge replaces exactly the state it read, and the window in which a retried
    merge can revert an edit (a finding).

  \<^bold>\<open>Identity\<close> (\<^verbatim>\<open>livrarr-domain\<close>). Which records speak of the same book.
  \<^item> \<^verbatim>\<open>Titles\<close>: text normalisation and display clean-up (\<^verbatim>\<open>text_norm.rs\<close>, \<^verbatim>\<open>title_cleanup.rs\<close>) over code points; Unicode
    tables, regular expressions and floating-point text are fields of an environment record.
  \<^item> \<^verbatim>\<open>IdentityTitles\<close>, \<^verbatim>\<open>IdentityVerdicts\<close>: \<^verbatim>\<open>identity_matching.rs\<close>: title parsing, the stored identity keys, canonical author
    names; the title, author, language and identifier verdicts, author adoption, the pick among candidates and
    the classification of search results.
  \<^item> \<^verbatim>\<open>TitleGuarantees\<close>: equal stored keys mean the same title, the verdict is symmetric, the parenthesis loop ends.
    \<^verbatim>\<open>AuthorGuarantees\<close>: the counting author verdict is the verdict by definition; adoption is unambiguous.
    \<^verbatim>\<open>SearchGuarantees\<close>: the picker is optimal, and the search leg of \<^verbatim>\<open>SearchFallback\<close>, whose decision is instantiated with the
    classification, links only what is decided.
  \<^item> \<^verbatim>\<open>Identifiers\<close>, \<^verbatim>\<open>IdentifierGuarantees\<close>: ISBN, ASIN and provider keys over UTF-8 bytes, the classification of pasted
    identifiers with its panics, and harvested seeds: checksums catch every one-digit error, accepted identifiers
    are canonical, and which inputs panic (two findings).

  \<^bold>\<open>Authentication\<close> (\<^verbatim>\<open>livrarr-server\<close>, \<^verbatim>\<open>livrarr-db\<close>).
  \<^item> \<^verbatim>\<open>Accounts\<close>: the users and sessions tables, one function per statement of \<^verbatim>\<open>sqlite_user.rs\<close> and \<^verbatim>\<open>sqlite_session.rs\<close>, with the
    constraints of the schema. \<^verbatim>\<open>Authentication\<close>: \<^verbatim>\<open>auth_service.rs\<close>, \<^verbatim>\<open>middleware.rs\<close> and \<^verbatim>\<open>setup_token.rs\<close>: login with lock-out, first-run
    setup, profiles, administration and the authentication of a request.
  \<^item> \<^verbatim>\<open>AuthSystem\<close>: all requests as one step relation cut at every statement, with restarts. \<^verbatim>\<open>AuthGuarantees\<close>: the handlers are runs of
    it; nobody gets in before the setup, which is claimed once and with the token; the tables keep an administrator;
    lock-outs, sessions and changes of the password, with two findings.

  \<^bold>\<open>Downloads\<close> (\<^verbatim>\<open>livrarr-download\<close>, \<^verbatim>\<open>livrarr-db\<close>, the jobs of \<^verbatim>\<open>livrarr-server\<close>). \<^verbatim>\<open>Grabs\<close>: the statements on the
  grabs table, the polls of the three download clients, the retry job, removal and start-up recovery.
  \<^verbatim>\<open>GrabGuarantees\<close>: all actors as one step relation, of which the jobs are shown to be runs; the table
  stays well formed, imports are exclusive as long as nobody overwrites a running one, and automatic
  retries are bounded. The findings about removal and re-grabbing are recorded with it.

  \<^bold>\<open>Imports\<close> (\<^verbatim>\<open>livrarr-library\<close>, \<^verbatim>\<open>livrarr-db\<close>, \<^verbatim>\<open>livrarr-server/src/infra/import_pipeline.rs\<close>).
  \<^item> \<^verbatim>\<open>LibraryPaths\<close>: safe names, the target of an import and its traversal check, preferred formats and the two
    translations of remote paths. \<^verbatim>\<open>PathGuarantees\<close>: targets stay below their root folder, whatever the title; the poller translates by whole
    folders, the import does not (a finding).
  \<^item> \<^verbatim>\<open>Programs\<close>: programs as trees of atomic actions, their runs, their unfinished rests and a rely-guarantee rule (the locale
    \<^verbatim>\<open>tasks\<close>).
  \<^item> \<^verbatim>\<open>ImportFiles\<close>: \<^verbatim>\<open>import_file_locked\<close> of \<^verbatim>\<open>import_workflow.rs\<close> with its three ways to materialise, the two tables it writes
    (\<^verbatim>\<open>sqlite_library_item.rs\<close>, \<^verbatim>\<open>sqlite_import_intent.rs\<close>), the recovery at start-up and the sweep, over a file system that
    tells what is visible from what is on the disk, names of folders included. Every call may fail. \<^verbatim>\<open>ImportSystem\<close>: any number of imports at a time, downloads,
    deaths of the process, power losses and restarts as one step relation; the invariant and what an import relies on.
  \<^item> \<^verbatim>\<open>ImportGuarantees\<close>, \<^verbatim>\<open>RecoveryGuarantees\<close>: every action of a copying import and of the recovery keeps the invariant and is fair to the others; so no
    row is ever without its file, power losses included while the folders of the rows are on the disk. \<^verbatim>\<open>ImportRuns\<close>: undisturbed runs in closed form: an import files the book; a late rival overwrites it
    (a finding). \<^verbatim>\<open>ImportCrash\<close>: an import cut off anywhere is all or nothing after the recovery, by a power loss while its folder is on the disk; a row that the recovery wrote can lose its
    file, and so can a finished import into a folder that it created (findings). \<^verbatim>\<open>ImportExamples\<close>: the guarantees at concrete inputs.

  \<^bold>\<open>Covers\<close> (\<^verbatim>\<open>livrarr-metadata\<close>). \<^verbatim>\<open>CoverGate\<close>: both entries of \<^verbatim>\<open>cover_write_gate.rs\<close>, ranked and chosen covers, with candidate file, sidecar, commit of
  the row and renaming, and the recovery of \<^verbatim>\<open>cover_write_gate_recovery.rs\<close>, as programs of \<^verbatim>\<open>Programs\<close>; the comparator is that of \<^verbatim>\<open>ProviderPolicy\<close>.
  \<^verbatim>\<open>CoverGuarantees\<close>: every stage at which a write can be cut off, what the recovery makes of it, that a chosen cover is kept and that the comparator decides; an
  interrupted recovery breaks the protocol (a finding). \<^verbatim>\<open>CoverRecovery\<close>: the recovery of whole directories finds every sidecar by its name and keeps the slots apart, so
  that writes are all or nothing. \<^verbatim>\<open>CoverExamples\<close>: a sidecar format that satisfies the hypotheses, and the guarantees at concrete inputs.

  \<^bold>\<open>Matching\<close> (\<^verbatim>\<open>livrarr-matching\<close>). \<^verbatim>\<open>Reconcile\<close>: extraction hypotheses are clustered by agreement with a
  union-find and ranked; the clusters are the connected components.

  \<^bold>\<open>Interfaces.\<close> Where several operations share a contract it is a locale, interpreted on the model: the
  reachability and invariant schemes of \<^verbatim>\<open>Prelude\<close>, the breaker under the lanes, the partition store
  under the clustering, the claims of grabs by import tasks, the properties of the account
  tables that every statement keeps, the concurrent tasks of \<^verbatim>\<open>Programs\<close> (interpreted for imports and for the recovery).

  \<^bold>\<open>Parameters.\<close> Code outside the repository is an argument with named hypotheses where a property needs
  any: Unicode case mapping and character classes, URL parsing, DNS, JSON, image decoding, the HTTP clients' answers.
  Times are integers in the unit the code compares; machine integers keep their width (\<^verbatim>\<open>u8\<close>, \<^verbatim>\<open>u32\<close>,
  \<^verbatim>\<open>u64\<close>, \<^verbatim>\<open>u128\<close> words) where wrap-around or saturation matters.

  \<^bold>\<open>Loops and fuel.\<close> Recursion is structural or has a measure. The only loop that a malformed input could
  keep running, the parent walk of the union-find, is a while combinator with value \<^const>\<open>None\<close> for
  divergence, and the lemmas of \<^verbatim>\<open>Reconcile\<close> show that it returns on every store the code builds. The loop that
  peels parentheticals off a title has the length of the text as fuel, which is enough when a match is not empty.

  \<^bold>\<open>Not modelled.\<close> HTTP routing, handlers and views, start-up and configuration files, the provider
  clients' scraping and JSON shapes, SQL that only moves rows, migrations and backups, archive work, tag writing, e-mail, the frontend: they are input and output around the modelled
  logic. Failures of a single SQL statement are left out of the pass of the queue and of the jobs; those the code
  turns into values of its own are modelled. Of the imports, the orchestration of a grab and of a Readarr library and the chapter
  hook are left out; a symbolic link has one hop; linking and adopting imports are modelled, but
  the guarantees about concurrency and crashes are for copying ones, as grabs use them. The cover gate is modelled for deaths of the process, not for power losses. Not reached: the identity layer's persistence and
  review groups, series and author linking, the ranking of releases.
\<close>

end
